(* ===== verification/Prelude.thy ===== *)
theory Prelude
  imports Main "HOL-Library.Word" "HOL-Library.Monad_Syntax"
begin

unbundle bit_operations_syntax

text \<open>
  The prelude of the development: the machine types the C++ sources use, the collections of
  rewrite rules and invariant lemmas that the component theories fill, and the facts on lists,
  options and words that more than one component needs.

  Throughout the development a C++ call that may fail to complete (unbounded recursion, a
  read through an empty container or an empty \<^verbatim>\<open>std::function\<close>) has a result of type
  \<open>'a option\<close>: \<open>None\<close> says that the call does not complete, and a theorem that a call is
  safe says that its result is \<open>Some\<close>.
\<close>

subsection \<open>Machine types\<close>

text \<open>\<^verbatim>\<open>wchar_t\<close> is an unsigned 16-bit integer on Windows; a \<^verbatim>\<open>std::wstring\<close> and a
  \<^verbatim>\<open>std::wstring_view\<close> are sequences of them. \<^verbatim>\<open>size_t\<close> values that only count the elements
  of a container are natural numbers.\<close>

type_synonym wchar = "16 word"
type_synonym wstring = "wchar list"
type_synonym byte = "8 word"
type_synonym u32 = "32 word"
type_synonym u64 = "64 word"

text \<open>\<open>wstr\<close> reads an ASCII literal as a wide string, as the prefix \<^verbatim>\<open>L\<close> does.\<close>

definition wstr :: "string \<Rightarrow> wstring" where
  "wstr s = map of_char s"

lemma wstr_Nil [simp]: "wstr [] = []"
  by (simp add: wstr_def)

lemma wstr_Cons [simp]: "wstr (c # s) = of_char c # wstr s"
  by (simp add: wstr_def)

lemma length_wstr [simp]: "length (wstr s) = length s"
  by (simp add: wstr_def)

subsection \<open>Collections\<close>

named_theorems enter_simps \<open>what entering a parser state leaves of each field\<close>
named_theorems wf_intros \<open>an operation keeps the well-formedness of its component\<close>
named_theorems char_class \<open>the definitions of the character classes\<close>

subsection \<open>Lists\<close>

text \<open>The last element of a vector as \<^verbatim>\<open>back()\<close> sees it, and its replacement.\<close>

definition set_back :: "'a list \<Rightarrow> 'a \<Rightarrow> 'a list" where
  "set_back xs x = butlast xs @ [x]"

lemma length_set_back [simp]: "xs \<noteq> [] \<Longrightarrow> length (set_back xs x) = length xs"
  by (simp add: set_back_def)

lemma set_back_snoc [simp]: "set_back (xs @ [y]) x = xs @ [x]"
  by (simp add: set_back_def)

lemma set_back_snoc_append [simp]: "set_back (xs @ ys @ [y]) x = xs @ ys @ [x]"
  by (simp add: set_back_def butlast_append)

lemma set_back_not_Nil [simp]: "set_back xs x \<noteq> []"
  by (simp add: set_back_def)

lemma last_set_back [simp]: "last (set_back xs x) = x"
  by (simp add: set_back_def)

lemma set_set_back: "set (set_back xs x) \<subseteq> insert x (set xs)"
  by (auto simp: set_back_def dest: in_set_butlastD)

lemma sum_list_set_back:
  "xs \<noteq> [] \<Longrightarrow> sum_list (map f (set_back xs x)) = (sum_list (map f (butlast xs)) :: nat) + f x"
  by (simp add: set_back_def)

subsection \<open>Folding a step that may not complete\<close>

text \<open>Run a step over a list, left to right, stopping at the first step that does not
  complete.\<close>

fun foldM :: "('a \<Rightarrow> 's \<Rightarrow> 's option) \<Rightarrow> 'a list \<Rightarrow> 's \<Rightarrow> 's option" where
  "foldM f [] s = Some s"
| "foldM f (x # xs) s = f x s \<bind> foldM f xs"

lemma foldM_append: "foldM f (xs @ ys) s = foldM f xs s \<bind> foldM f ys"
  by (induction xs arbitrary: s) (auto split: Option.bind_splits)

lemma foldM_single: "foldM f [x] s = f x s"
  by (cases "f x s") auto

lemma foldM_pair: "foldM f [x, y] s = f x s \<bind> f y"
proof -
  have "foldM f [y] = f y" by (rule ext) (rule foldM_single)
  then show ?thesis by (simp only: foldM.simps(2) [of f x])
qed

lemma foldM_invariant:
  assumes "\<And>x s s'. P s \<Longrightarrow> f x s = Some s' \<Longrightarrow> P s'"
  shows "P s \<Longrightarrow> foldM f xs s = Some s' \<Longrightarrow> P s'"
proof (induction xs arbitrary: s)
  case Nil
  then show ?case by simp
next
  case (Cons x xs)
  then show ?case by (auto split: Option.bind_splits intro: assms)
qed

lemma foldM_total:
  assumes "\<And>x s. P s \<Longrightarrow> \<exists>s'. f x s = Some s' \<and> P s'"
  shows "P s \<Longrightarrow> \<exists>s'. foldM f xs s = Some s' \<and> P s'"
proof (induction xs arbitrary: s)
  case Nil
  then show ?case by simp
next
  case (Cons x xs)
  from assms [OF Cons.prems] obtain s1 where "f x s = Some s1" and "P s1" by blast
  with Cons.IH [of s1] show ?case by simp
qed

subsection \<open>Words\<close>

text \<open>Comparisons of a word with numerals are decided on natural numbers: these two rewrite
  them there, where linear arithmetic applies.\<close>

lemmas word_order_nat = word_le_nat_alt word_less_nat_alt

lemma wchar_eq_unat: "(w :: wchar) = v \<longleftrightarrow> unat w = unat v"
  by (simp add: word_unat_eq_iff)

lemma unat_wchar_less [simp]: "unat (w :: wchar) < 65536"
  using unsigned_less [of w, where ?'a = nat] by simp

lemma unat_byte_less [simp]: "unat (b :: byte) < 256"
  using unsigned_less [of b, where ?'a = nat] by simp

lemma unat_minus_wchar: "v \<le> w \<Longrightarrow> unat (w - v :: wchar) = unat w - unat v"
  by (simp add: unat_sub)

lemma unat_of_nat_byte: "n < 256 \<Longrightarrow> unat (of_nat n :: byte) = n"
  by (simp add: unat_of_nat take_bit_nat_eq_self)

lemma unat_Suc_byte: "unat (b :: byte) < 255 \<Longrightarrow> unat (b + 1) = unat b + 1"
  by (simp add: unat_word_ariths)

subsection \<open>Numerals\<close>

text \<open>The decimal digits of a number: the printer the round trips are stated with.\<close>

fun decimal :: "nat \<Rightarrow> wstring" where
  "decimal n = (if n < 10 then [0x30 + of_nat n] else decimal (n div 10) @ [0x30 + of_nat (n mod 10)])"

declare decimal.simps [simp del]

lemma decimal_not_Nil [simp]: "decimal n \<noteq> []"
  by (subst decimal.simps) simp

end
