(* ===== verification/CharClass.thy ===== *)
theory CharClass
  imports Prelude
begin

text \<open>
  The character classes of the parser: the static predicates at the head of
  \<^verbatim>\<open>src/src/terminal/parser/stateMachine.cpp\<close>, the control codes of \<^verbatim>\<open>ascii.hpp\<close>, and the
  search for the next actionable character of \<^verbatim>\<open>src/src/types/utils.cpp\<close>. The lemmas say how
  the classes overlap, which is what the order of the tests in the event handlers depends on.
\<close>

subsection \<open>Control codes\<close>

abbreviation NUL :: wchar where "NUL \<equiv> 0x00"
abbreviation ENQ :: wchar where "ENQ \<equiv> 0x05"
abbreviation BEL :: wchar where "BEL \<equiv> 0x07"
abbreviation BS :: wchar where "BS \<equiv> 0x08"
abbreviation TAB :: wchar where "TAB \<equiv> 0x09"
abbreviation LF :: wchar where "LF \<equiv> 0x0A"
abbreviation VT :: wchar where "VT \<equiv> 0x0B"
abbreviation FF :: wchar where "FF \<equiv> 0x0C"
abbreviation CR :: wchar where "CR \<equiv> 0x0D"
abbreviation SO :: wchar where "SO \<equiv> 0x0E"
abbreviation SI :: wchar where "SI \<equiv> 0x0F"
abbreviation ETB :: wchar where "ETB \<equiv> 0x17"
abbreviation CAN :: wchar where "CAN \<equiv> 0x18"
abbreviation EM :: wchar where "EM \<equiv> 0x19"
abbreviation SUB :: wchar where "SUB \<equiv> 0x1A"
abbreviation ESC :: wchar where "ESC \<equiv> 0x1B"
abbreviation FS :: wchar where "FS \<equiv> 0x1C"
abbreviation US :: wchar where "US \<equiv> 0x1F"
abbreviation SPC :: wchar where "SPC \<equiv> 0x20"
abbreviation DEL :: wchar where "DEL \<equiv> 0x7F"

subsection \<open>The predicates of stateMachine.cpp\<close>

definition isNumericParamValue :: "wchar \<Rightarrow> bool" where
  "isNumericParamValue wch \<longleftrightarrow> wch \<ge> 0x30 \<and> wch \<le> 0x39"

definition isC0Code :: "wchar \<Rightarrow> bool" where
  "isC0Code wch \<longleftrightarrow> (wch \<ge> NUL \<and> wch \<le> ETB) \<or> wch = EM \<or> (wch \<ge> FS \<and> wch \<le> US)"

definition isC1ControlCharacter :: "wchar \<Rightarrow> bool" where
  "isC1ControlCharacter wch \<longleftrightarrow> wch \<ge> 0x80 \<and> wch \<le> 0x9F"

definition c1To7Bit :: "wchar \<Rightarrow> wchar" where
  "c1To7Bit wch = wch - 0x40"

definition isIntermediate :: "wchar \<Rightarrow> bool" where
  "isIntermediate wch \<longleftrightarrow> wch \<ge> 0x20 \<and> wch \<le> 0x2F"

definition isDelete :: "wchar \<Rightarrow> bool" where
  "isDelete wch \<longleftrightarrow> wch = DEL"

definition isEscape :: "wchar \<Rightarrow> bool" where
  "isEscape wch \<longleftrightarrow> wch = ESC"

definition isParameterDelimiter :: "wchar \<Rightarrow> bool" where
  "isParameterDelimiter wch \<longleftrightarrow> wch = 0x3B"

definition isSubParameterDelimiter :: "wchar \<Rightarrow> bool" where
  "isSubParameterDelimiter wch \<longleftrightarrow> wch = 0x3A"

definition isCsiIndicator :: "wchar \<Rightarrow> bool" where
  "isCsiIndicator wch \<longleftrightarrow> wch = 0x5B"

definition isCsiPrivateMarker :: "wchar \<Rightarrow> bool" where
  "isCsiPrivateMarker wch \<longleftrightarrow> wch = 0x3C \<or> wch = 0x3D \<or> wch = 0x3E \<or> wch = 0x3F"

definition isIntermediateInvalid :: "wchar \<Rightarrow> bool" where
  "isIntermediateInvalid wch \<longleftrightarrow>
     isNumericParamValue wch \<or> isSubParameterDelimiter wch \<or> isParameterDelimiter wch \<or>
     isCsiPrivateMarker wch"

definition isParameterInvalid :: "wchar \<Rightarrow> bool" where
  "isParameterInvalid wch \<longleftrightarrow> isCsiPrivateMarker wch"

definition isStringTerminatorIndicator :: "wchar \<Rightarrow> bool" where
  "isStringTerminatorIndicator wch \<longleftrightarrow> wch = 0x5C"

definition isSs3Indicator :: "wchar \<Rightarrow> bool" where
  "isSs3Indicator wch \<longleftrightarrow> wch = 0x4F"

definition isVt52CursorAddress :: "wchar \<Rightarrow> bool" where
  "isVt52CursorAddress wch \<longleftrightarrow> wch = 0x59"

definition isOscIndicator :: "wchar \<Rightarrow> bool" where
  "isOscIndicator wch \<longleftrightarrow> wch = 0x5D"

definition isOscDelimiter :: "wchar \<Rightarrow> bool" where
  "isOscDelimiter wch \<longleftrightarrow> wch = 0x3B"

definition isOscInvalid :: "wchar \<Rightarrow> bool" where
  "isOscInvalid wch \<longleftrightarrow> wch \<le> 0x17 \<or> wch = 0x19 \<or> (wch \<ge> 0x1C \<and> wch \<le> 0x1F)"

definition isOscTerminator :: "wchar \<Rightarrow> bool" where
  "isOscTerminator wch \<longleftrightarrow> wch = BEL"

definition isDcsIndicator :: "wchar \<Rightarrow> bool" where
  "isDcsIndicator wch \<longleftrightarrow> wch = 0x50"

definition isDcsPassThroughValid :: "wchar \<Rightarrow> bool" where
  "isDcsPassThroughValid wch \<longleftrightarrow> wch \<ge> SPC \<and> wch < DEL"

definition isSosIndicator :: "wchar \<Rightarrow> bool" where
  "isSosIndicator wch \<longleftrightarrow> wch = 0x58"

definition isPmIndicator :: "wchar \<Rightarrow> bool" where
  "isPmIndicator wch \<longleftrightarrow> wch = 0x5E"

definition isApcIndicator :: "wchar \<Rightarrow> bool" where
  "isApcIndicator wch \<longleftrightarrow> wch = 0x5F"

lemmas char_class_defs [char_class] =
  isNumericParamValue_def isC0Code_def isC1ControlCharacter_def isIntermediate_def isDelete_def
  isEscape_def isParameterDelimiter_def isSubParameterDelimiter_def isCsiIndicator_def
  isCsiPrivateMarker_def isIntermediateInvalid_def isParameterInvalid_def
  isStringTerminatorIndicator_def isSs3Indicator_def isVt52CursorAddress_def isOscIndicator_def
  isOscDelimiter_def isOscInvalid_def isOscTerminator_def isDcsIndicator_def
  isDcsPassThroughValid_def isSosIndicator_def isPmIndicator_def isApcIndicator_def

subsection \<open>The search of utils.cpp\<close>

text \<open>The branch-free test, on 16-bit values: the subtraction wraps around.\<close>

definition isActionableFromGround :: "wchar \<Rightarrow> bool" where
  "isActionableFromGround wch \<longleftrightarrow> wch \<le> 0x1F \<or> wch - 0x7F \<le> 0x20"

text \<open>The scalar loop of \<^verbatim>\<open>FindActionableControlCharacter\<close>: the distance from the start of the
  text to the first actionable character, or the length of the text.\<close>

fun FindActionableControlCharacter :: "wstring \<Rightarrow> nat" where
  "FindActionableControlCharacter [] = 0"
| "FindActionableControlCharacter (c # cs) =
     (if isActionableFromGround c then 0 else Suc (FindActionableControlCharacter cs))"

text \<open>The SSE2 loop before it: eight characters at a time, compared with saturating subtractions, two bits of
  the mask per character, and the index of the lowest bit set.\<close>

definition subs_epu16 :: "wchar \<Rightarrow> wchar \<Rightarrow> wchar" where
  "subs_epu16 a b = (if a \<le> b then 0 else a - b)"

definition sse2_lane :: "wchar \<Rightarrow> bool" where
  "sse2_lane wch \<longleftrightarrow> subs_epu16 wch 0x1F = 0 \<or> subs_epu16 (wch + 0xFF81) 0x20 = 0"

definition movemask_epi8 :: "bool list \<Rightarrow> bool list" where
  "movemask_epi8 lanes = concat (map (\<lambda>b. [b, b]) lanes)"

definition BitScanForward :: "bool list \<Rightarrow> nat" where
  "BitScanForward bits = length (takeWhile Not bits)"

function FindActionable_sse2 :: "wstring \<Rightarrow> nat" where
  "FindActionable_sse2 str =
     (if 8 \<le> length str
      then (let bits = movemask_epi8 (map sse2_lane (take 8 str))
            in if True \<in> set bits then BitScanForward bits div 2 else 8 + FindActionable_sse2 (drop 8 str))
      else FindActionableControlCharacter str)"
  by pat_completeness auto
termination
  by (relation "measure length") auto

subsection \<open>How the classes overlap\<close>

text \<open>The comment above the branch-free test states the range test it is meant to be.\<close>

lemma isActionableFromGround_ranges:
  "isActionableFromGround w \<longleftrightarrow> w \<le> 0x1F \<or> (w \<ge> 0x7F \<and> w \<le> 0x9F)"
proof (cases "w \<ge> 0x7F")
  case True
  then have "unat (w - 0x7F) = unat w - 127" by (simp add: unat_minus_wchar)
  with True show ?thesis
    by (auto simp: isActionableFromGround_def word_le_nat_alt)
next
  case False
  then have "unat w < 127" by (simp add: word_le_nat_alt)
  then have "unat (w - 0x7F) = unat w + 65536 - 127"
    by (simp add: unat_sub_if_size word_size word_le_nat_alt)
  with False show ?thesis
    by (auto simp: isActionableFromGround_def word_le_nat_alt)
qed

lemma not_actionable_is_printable:
  assumes "\<not> isActionableFromGround w"
  shows "\<not> isC0Code w" and "\<not> isDelete w" and "\<not> isC1ControlCharacter w" and "\<not> isEscape w"
    and "w \<noteq> CAN" and "w \<noteq> SUB"
  using assms
  by (auto simp: isActionableFromGround_ranges char_class word_le_nat_alt wchar_eq_unat)

declare FindActionable_sse2.simps [simp del]

lemma sse2_lane_actionable: "sse2_lane w \<longleftrightarrow> isActionableFromGround w"
proof -
  have e: "w + 0xFF81 = w - 0x7F" by (simp add: word_eq_iff_signed)
  have z: "subs_epu16 a b = 0 \<longleftrightarrow> a \<le> b" for a b by (auto simp: subs_epu16_def)
  show ?thesis unfolding sse2_lane_def isActionableFromGround_def z e ..
qed

lemma scan_movemask: "BitScanForward (movemask_epi8 lanes) div 2 = length (takeWhile Not lanes)"
  by (induction lanes) (simp_all add: BitScanForward_def movemask_epi8_def)

lemma Find_takeWhile: "FindActionableControlCharacter cs = length (takeWhile (\<lambda>w. \<not> isActionableFromGround w) cs)"
  by (induction cs) simp_all

text \<open>The vectorised scan finds what the plain one finds.\<close>

lemma FindActionable_vectorised: "FindActionable_sse2 str = FindActionableControlCharacter str"
proof (induction str rule: FindActionable_sse2.induct)
  case (1 str)
  show ?case
  proof (cases "8 \<le> length str")
    case True
    let ?lanes = "map sse2_lane (take 8 str)"
    have bits: "True \<in> set (movemask_epi8 ?lanes) \<longleftrightarrow> (\<exists>w \<in> set (take 8 str). isActionableFromGround w)"
      by (auto simp: movemask_epi8_def sse2_lane_actionable)
    have "takeWhile Not ?lanes = map sse2_lane (takeWhile (\<lambda>w. \<not> isActionableFromGround w) (take 8 str))"
      by (simp add: takeWhile_map comp_def sse2_lane_actionable)
    then have scan: "BitScanForward (movemask_epi8 ?lanes) div 2 = FindActionableControlCharacter (take 8 str)"
      by (simp add: scan_movemask Find_takeWhile)
    have split: "str = take 8 str @ drop 8 str" by simp
    show ?thesis
    proof (cases "\<exists>w \<in> set (take 8 str). isActionableFromGround w")
      case hit: True
      then have "FindActionableControlCharacter str = FindActionableControlCharacter (take 8 str)"
        unfolding Find_takeWhile by (subst split) (auto simp: takeWhile_append1 simp del: append_take_drop_id)
      with True hit bits scan show ?thesis by (subst FindActionable_sse2.simps) (simp add: Let_def)
    next
      case clear: False
      then have "FindActionableControlCharacter str = 8 + FindActionableControlCharacter (drop 8 str)"
        unfolding Find_takeWhile using True by (subst split) (simp add: takeWhile_append2 del: append_take_drop_id)
      with True clear bits 1 show ?thesis by (subst FindActionable_sse2.simps) (simp add: Let_def)
    qed
  qed (subst FindActionable_sse2.simps, simp)
qed

lemma FindActionable_le: "FindActionableControlCharacter cs \<le> length cs"
  by (induction cs) auto

lemma FindActionable_prefix:
  "w \<in> set (take (FindActionableControlCharacter cs) cs) \<Longrightarrow> \<not> isActionableFromGround w"
  by (induction cs) (auto split: if_splits)

lemma FindActionable_stop:
  "FindActionableControlCharacter cs < length cs \<Longrightarrow>
   isActionableFromGround (cs ! FindActionableControlCharacter cs)"
  by (induction cs) (auto split: if_splits)

lemma c1To7Bit_not_C1: "isC1ControlCharacter w \<Longrightarrow> \<not> isC1ControlCharacter (c1To7Bit w)"
  by (auto simp: isC1ControlCharacter_def c1To7Bit_def word_le_nat_alt unat_minus_wchar)

lemma ESC_not_C1: "\<not> isC1ControlCharacter ESC"
  by (simp add: isC1ControlCharacter_def)

text \<open>The seven-bit form of a C1 control is a final character of an escape sequence.\<close>

lemma c1To7Bit_range:
  "isC1ControlCharacter w \<Longrightarrow> unat (c1To7Bit w) = unat w - 64 \<and> 0x40 \<le> c1To7Bit w \<and> c1To7Bit w \<le> 0x5F"
  by (auto simp: isC1ControlCharacter_def c1To7Bit_def word_le_nat_alt unat_minus_wchar)

end
