(* ===== verification/DispatchTypes.thy ===== *)
theory DispatchTypes
  imports Prelude
begin

text \<open>
  The values the parser hands to an engine, from
  \<^verbatim>\<open>src/src/terminal/adapter/DispatchTypes.hpp\<close>: sequence identifiers (\<open>VTID\<close> and its
  builder), optional numeric parameters and the views over the parameter and sub-parameter
  vectors. The lemmas say that an identifier is the string it was built from, that the builder
  never mixes characters, and that the views never read outside the vectors.
\<close>

subsection \<open>VTID\<close>

text \<open>A \<^verbatim>\<open>VTID\<close> is a 64-bit value whose low seven bytes are the characters of the identifier,
  first character in the lowest byte. The constructor from \<^verbatim>\<open>uint64_t\<close> masks the top byte.\<close>

type_synonym VTID = u64

definition VTID_of_value :: "u64 \<Rightarrow> VTID" where
  "VTID_of_value v = v AND 0x00FFFFFFFFFFFFFF"

text \<open>The loop of \<^verbatim>\<open>_FromString\<close> runs from the last character to the first.\<close>

fun VTID_FromString :: "string \<Rightarrow> u64" where
  "VTID_FromString [] = 0"
| "VTID_FromString (c # s) = push_bit 8 (VTID_FromString s) + of_char c"

definition VTID :: "string \<Rightarrow> VTID" where
  "VTID s = VTID_FromString s"

definition VTID_SubSequence :: "VTID \<Rightarrow> nat \<Rightarrow> VTID" where
  "VTID_SubSequence v offset = VTID_of_value (drop_bit (8 * offset) v)"

definition VTID_at :: "VTID \<Rightarrow> nat \<Rightarrow> byte" where
  "VTID_at v offset = ucast (VTID_SubSequence v offset AND 0xFF)"

subsection \<open>VTIDBuilder\<close>

record VTIDBuilder =
  idAccumulator :: u64
  idShift :: nat

definition VTIDBuilder_Clear :: VTIDBuilder where
  "VTIDBuilder_Clear = \<lparr>idAccumulator = 0, idShift = 0\<rparr>"

definition AddIntermediate :: "wchar \<Rightarrow> VTIDBuilder \<Rightarrow> VTIDBuilder" where
  "AddIntermediate intermediateChar b =
     (if idShift b + 8 * 2 \<ge> 64 then b\<lparr>idAccumulator := 0\<rparr>
      else b\<lparr>idAccumulator := idAccumulator b + push_bit (idShift b) (ucast intermediateChar),
             idShift := idShift b + 8\<rparr>)"

definition Finalize :: "wchar \<Rightarrow> VTIDBuilder \<Rightarrow> VTID" where
  "Finalize finalChar b =
     VTID_of_value (idAccumulator b + push_bit (idShift b) (ucast finalChar))"

subsection \<open>VTParameter\<close>

text \<open>\<^verbatim>\<open>VTInt\<close> is \<^verbatim>\<open>int32_t\<close>. A parameter is stored as an integer, and a negative one says
  that the parameter was omitted.\<close>

type_synonym VTInt = int

datatype VTParameter = VTParam (raw_value: VTInt)

definition omitted :: VTParameter where
  "omitted = VTParam (-1)"

definition has_value :: "VTParameter \<Rightarrow> bool" where
  "has_value p \<longleftrightarrow> raw_value p \<ge> 0"

definition value_or :: "VTParameter \<Rightarrow> VTInt \<Rightarrow> VTInt" where
  "value_or p d = (if raw_value p < 0 then d else raw_value p)"

text \<open>The implicit conversions: to an enumeration an omitted value is 0; to a number both
  0 and an omitted value are 1.\<close>

definition to_enum :: "VTParameter \<Rightarrow> VTInt" where
  "to_enum p = value_or p 0"

definition to_VTInt :: "VTParameter \<Rightarrow> VTInt" where
  "to_VTInt p = (if raw_value p \<le> 0 then 1 else raw_value p)"

subsection \<open>VTSubParameters and VTParameters\<close>

type_synonym VTSubParameters = "VTParameter list"

definition sub_at :: "VTSubParameters \<Rightarrow> nat \<Rightarrow> VTParameter" where
  "sub_at ps i = (if i < length ps then ps ! i else omitted)"

definition sub_subspan :: "VTSubParameters \<Rightarrow> nat \<Rightarrow> nat \<Rightarrow> VTSubParameters" where
  "sub_subspan ps offset cnt = take cnt (drop offset ps)"

record VTParameters =
  vt_params :: "VTParameter list"
  vt_subParams :: VTSubParameters
  vt_subParamRanges :: "(byte \<times> byte) list"

definition params_only :: "VTParameter list \<Rightarrow> VTParameters" where
  "params_only ps = \<lparr>vt_params = ps, vt_subParams = [], vt_subParamRanges = []\<rparr>"

definition param_at :: "VTParameters \<Rightarrow> nat \<Rightarrow> VTParameter" where
  "param_at p i = (if i < length (vt_params p) then vt_params p ! i else omitted)"

definition params_empty :: "VTParameters \<Rightarrow> bool" where
  "params_empty p \<longleftrightarrow> vt_params p = []"

definition params_size :: "VTParameters \<Rightarrow> nat" where
  "params_size p = max (length (vt_params p)) 1"

definition params_subspan :: "VTParameters \<Rightarrow> nat \<Rightarrow> VTParameters" where
  "params_subspan p offset =
     \<lparr>vt_params = drop (min offset (length (vt_params p))) (vt_params p),
      vt_subParams = vt_subParams p,
      vt_subParamRanges = drop (min offset (length (vt_subParamRanges p))) (vt_subParamRanges p)\<rparr>"

definition subParamsFor :: "VTParameters \<Rightarrow> nat \<Rightarrow> VTSubParameters" where
  "subParamsFor p i =
     (if i < length (vt_subParamRanges p)
      then (let (first, second) = vt_subParamRanges p ! i
            in sub_subspan (vt_subParams p) (unat first) (unat second - unat first))
      else [])"

definition hasSubParams :: "VTParameters \<Rightarrow> bool" where
  "hasSubParams p \<longleftrightarrow> vt_subParams p \<noteq> []"

definition hasSubParamsFor :: "VTParameters \<Rightarrow> nat \<Rightarrow> bool" where
  "hasSubParamsFor p i \<longleftrightarrow>
     i < length (vt_subParamRanges p) \<and>
     (let (first, second) = vt_subParamRanges p ! i in second > first)"

text \<open>\<^verbatim>\<open>for_each\<close> runs over the parameters, or over one omitted parameter when there are
  none; the model returns the sequence it runs over.\<close>

definition for_each_params :: "VTParameters \<Rightarrow> VTParameter list" where
  "for_each_params p = (if vt_params p = [] then [omitted] else vt_params p)"

subsection \<open>The values of a parameter\<close>

lemma to_VTInt_pos: "to_VTInt p \<ge> 1"
  by (simp add: to_VTInt_def)

lemma to_enum_nonneg: "to_enum p \<ge> 0"
  by (simp add: to_enum_def value_or_def)

lemma param_at_omitted [simp]: "\<not> i < length (vt_params p) \<Longrightarrow> param_at p i = omitted"
  by (simp add: param_at_def)

lemma raw_omitted [simp]: "raw_value omitted = -1"
  by (simp add: omitted_def)

lemma param_at_subspan:
  "param_at (params_subspan p k) i = param_at p (k + i)"
  by (auto simp: param_at_def params_subspan_def min_def)

lemma length_for_each_params: "length (for_each_params p) = params_size p"
  by (cases "vt_params p") (auto simp: for_each_params_def params_size_def)

subsection \<open>Identifiers are the strings they are built from\<close>

text \<open>The value of an identifier as a natural number: base 256, first character lowest.\<close>

fun id_nat :: "nat list \<Rightarrow> nat" where
  "id_nat [] = 0"
| "id_nat (c # cs) = c + 256 * id_nat cs"

lemma id_nat_bound: "\<forall>c \<in> set cs. c < 256 \<Longrightarrow> id_nat cs < 256 ^ length cs"
proof (induction cs)
  case Nil
  then show ?case by simp
next
  case (Cons c cs)
  then have "c < 256" and "id_nat cs < 256 ^ length cs" by auto
  then have "c + 256 * id_nat cs < 256 + 256 * (256 ^ length cs - 1)" by linarith
  also have "\<dots> = 256 ^ length (c # cs)" by (simp add: algebra_simps)
  finally show ?case by simp
qed

lemma id_nat_append: "id_nat (xs @ ys) = id_nat xs + 256 ^ length xs * id_nat ys"
  by (induction xs) (auto simp: algebra_simps)

lemma id_nat_inject:
  "\<forall>c \<in> set xs. 0 < c \<and> c < 256 \<Longrightarrow> \<forall>c \<in> set ys. 0 < c \<and> c < 256 \<Longrightarrow>
   id_nat xs = id_nat ys \<Longrightarrow> xs = ys"
proof (induction xs arbitrary: ys)
  case Nil
  then show ?case by (cases ys) auto
next
  case (Cons x xs)
  then obtain y ys' where ys: "ys = y # ys'" by (cases ys) auto
  from Cons.prems ys have lt: "x < 256" "y < 256" and eq: "x + 256 * id_nat xs = y + 256 * id_nat ys'"
    by auto
  from eq have "(x + 256 * id_nat xs) mod 256 = (y + 256 * id_nat ys') mod 256" by simp
  with lt have xy: "x = y" by simp
  with eq have eq': "id_nat xs = id_nat ys'" by simp
  have "xs = ys'"
  proof (rule Cons.IH [OF _ _ eq'])
    show "\<forall>c \<in> set xs. 0 < c \<and> c < 256" using Cons.prems(1) by simp
    show "\<forall>c \<in> set ys'. 0 < c \<and> c < 256" using Cons.prems(2) ys by simp
  qed
  with xy ys show ?case by simp
qed

lemma unat_of_nat_u64: "n < 2 ^ 64 \<Longrightarrow> unat (of_nat n :: u64) = n"
  by (simp add: unat_of_nat take_bit_nat_eq_self)

lemma unat_ucast_u64 [simp]: "unat (ucast (w :: wchar) :: u64) = unat w"
  by (simp add: unsigned_ucast_eq take_bit_nat_eq_self order_less_trans [OF unat_wchar_less])

lemma unat_of_char_u64: "unat (of_char c :: u64) = of_char c"
  using unat_of_nat_u64 [of "of_char c"] order_less_trans [OF nat_of_char_less_256 [of c], of "2 ^ 64"]
  by (simp add: of_nat_of_char)

lemma pow256: "(256 :: nat) ^ n = 2 ^ (8 * n)"
  by (simp add: power_mult)

lemma pow256_le_u64: "n \<le> 8 \<Longrightarrow> (256 :: nat) ^ n \<le> 2 ^ 64"
  unfolding pow256 by (rule power_increasing) auto

lemma unat_add_nowrap: "unat (x :: u64) + unat y < 2 ^ 64 \<Longrightarrow> unat (x + y) = unat x + unat y"
  by (simp add: unat_word_ariths)

lemma unat_push_bit_nowrap:
  "unat (x :: u64) * 2 ^ n < 2 ^ 64 \<Longrightarrow> unat (push_bit n x) = unat x * 2 ^ n"
  by (subst unsigned_push_bit_eq) (simp add: push_bit_eq_mult take_bit_nat_eq_self)

lemma unat_VTID_of_value: "unat (VTID_of_value v) = unat v mod 2 ^ 56"
proof -
  have "v AND 0x00FFFFFFFFFFFFFF = take_bit 56 v"
    by (simp add: take_bit_eq_mask mask_eq_exp_minus_1)
  then show ?thesis
    by (simp add: VTID_of_value_def unsigned_take_bit_eq take_bit_nat_def)
qed

lemma unat_VTID:
  assumes "length s \<le> 7"
  shows "unat (VTID s) = id_nat (map of_char s)"
  using assms unfolding VTID_def
proof (induction s)
  case Nil
  then show ?case by simp
next
  case (Cons c s)
  then have IH: "unat (VTID_FromString s) = id_nat (map of_char s)" by simp
  have "id_nat (map of_char (c # s)) < 256 ^ length (c # s)"
    using id_nat_bound [of "map of_char (c # s)"] by simp
  also have "\<dots> \<le> 2 ^ 64"
    using Cons.prems by (intro pow256_le_u64) simp
  finally have lt: "of_char c + 256 * id_nat (map of_char s) < 2 ^ 64" by simp
  then have "unat (push_bit 8 (VTID_FromString s)) = 256 * id_nat (map of_char s)"
    using unat_push_bit_nowrap [of "VTID_FromString s" 8] IH by (simp add: mult.commute)
  with lt show ?case
    using unat_add_nowrap [of "push_bit 8 (VTID_FromString s)" "of_char c"]
    by (simp add: unat_of_char_u64 add.commute)
qed

text \<open>What the builder holds after a run of intermediates.\<close>

abbreviation collected :: "wstring \<Rightarrow> VTIDBuilder" where
  "collected is \<equiv> foldl (\<lambda>b w. AddIntermediate w b) VTIDBuilder_Clear is"

lemma collected_value:
  assumes "length is \<le> 6" and "\<forall>w \<in> set is. unat w < 256"
  shows "unat (idAccumulator (collected is)) = id_nat (map unat is) \<and>
         idShift (collected is) = 8 * length is"
  using assms
proof (induction "is" rule: rev_induct)
  case Nil
  then show ?case by (simp add: VTIDBuilder_Clear_def)
next
  case (snoc w ws)
  then have IH: "unat (idAccumulator (collected ws)) = id_nat (map unat ws)"
    "idShift (collected ws) = 8 * length ws" by auto
  have "id_nat (map unat (ws @ [w])) < 256 ^ length (ws @ [w])"
    using snoc.prems id_nat_bound [of "map unat (ws @ [w])"] by auto
  also have "\<dots> \<le> 2 ^ 64"
    using snoc.prems by (intro pow256_le_u64) simp
  finally have lt: "id_nat (map unat ws) + unat w * 2 ^ (8 * length ws) < 2 ^ 64"
    by (simp add: id_nat_append pow256 mult.commute)
  then have "unat (push_bit (8 * length ws) (ucast w :: u64)) = unat w * 2 ^ (8 * length ws)"
    by (subst unat_push_bit_nowrap) auto
  with lt IH snoc.prems show ?case
    by (simp add: AddIntermediate_def unat_add_nowrap id_nat_append pow256 mult.commute)
qed

lemma Finalize_value:
  assumes "length is \<le> 6" and "\<forall>w \<in> set is. unat w < 256" and "unat c < 256"
  shows "unat (Finalize c (collected is)) = id_nat (map unat (is @ [c]))"
proof -
  from assms have v: "unat (idAccumulator (collected is)) = id_nat (map unat is)"
    and sh: "idShift (collected is) = 8 * length is"
    using collected_value by auto
  have "id_nat (map unat (is @ [c])) < 256 ^ length (is @ [c])"
    using assms id_nat_bound [of "map unat (is @ [c])"] by auto
  also have "\<dots> \<le> 2 ^ 56"
    unfolding pow256 using assms(1) by (intro power_increasing) auto
  finally have lt: "id_nat (map unat is) + unat c * 2 ^ (8 * length is) < 2 ^ 56"
    by (simp add: id_nat_append pow256 mult.commute)
  then have "unat (push_bit (8 * length is) (ucast c :: u64)) = unat c * 2 ^ (8 * length is)"
    by (subst unat_push_bit_nowrap) auto
  with lt v sh show ?thesis
    by (simp add: Finalize_def unat_VTID_of_value unat_add_nowrap id_nat_append pow256 mult.commute)
qed

lemma Finalize_VTID:
  assumes "length s \<le> 6"
  shows "Finalize (of_char c) (collected (wstr s)) = VTID (s @ [c])"
proof -
  have u: "unat (of_char d :: wchar) = of_char d" for d
    using unat_of_nat [of "of_char d", where ?'a = 16] nat_of_char_less_256 [of d]
    by (simp add: of_nat_of_char take_bit_nat_eq_self order_less_trans [OF nat_of_char_less_256])
  have "unat (Finalize (of_char c) (collected (wstr s))) = id_nat (map unat (wstr s @ [of_char c]))"
    by (rule Finalize_value) (use assms u in \<open>auto simp: wstr_def\<close>)
  also have "\<dots> = id_nat (map of_char (s @ [c]))"
    by (simp add: wstr_def u o_def)
  also have "\<dots> = unat (VTID (s @ [c]))"
    using assms by (simp add: unat_VTID)
  finally show ?thesis by (simp add: word_unat_eq_iff)
qed

end
