(* ===== verification/StateMachine.thy ===== *)
theory StateMachine
  imports CharClass DispatchTypes
begin

text \<open>
  The state of the VT parser and the actions its transitions perform, from
  \<^verbatim>\<open>src/src/terminal/parser/stateMachine.cpp\<close> and \<^verbatim>\<open>stateMachine.hpp\<close>. The engine behind the
  \<^verbatim>\<open>IStateMachineEngine\<close> interface is a parameter: a record of operations on an engine state
  \<open>'e\<close>, with string handlers \<open>'h\<close> and completion callbacks \<open>'c\<close> that only the engine knows
  how to run. Tracing (\<^verbatim>\<open>_trace\<close>) has no effect on the state and is left out.
\<close>

subsection \<open>The data of the parser\<close>

datatype VTStates =
    Ground | Escape | EscapeIntermediate
  | CsiEntry | CsiIntermediate | CsiIgnore | CsiParam | CsiSubParam
  | OscParam | OscString | OscTermination
  | Ss3Entry | Ss3Param | Vt52Param
  | DcsEntry | DcsIgnore | DcsIntermediate | DcsParam | DcsPassThrough
  | SosPmApcString

datatype Mode = AcceptC1 | Ansi

datatype InjectionType = RIS | DECSET_FOCUS | W32IM

definition MAX_PARAMETER_VALUE :: VTInt where
  "MAX_PARAMETER_VALUE = 65535"

definition MAX_PARAMETER_COUNT :: nat where
  "MAX_PARAMETER_COUNT = 32"

definition MAX_SUBPARAMETER_COUNT :: nat where
  "MAX_SUBPARAMETER_COUNT = 6"

record ('e, 'h, 'c) sm =
  sm_engine :: 'e
  sm_isEngineForInput :: bool
  sm_state :: VTStates
  sm_parserMode :: "Mode set"
  sm_currentString :: wstring
  sm_runOffset :: nat
  sm_runSize :: nat
  sm_identifier :: VTIDBuilder
  sm_parameters :: "VTParameter list"
  sm_parameterLimitOverflowed :: bool
  sm_subParameters :: "VTParameter list"
  sm_subParameterRanges :: "(byte \<times> byte) list"
  sm_subParameterLimitOverflowed :: bool
  sm_subParameterCounter :: byte
  sm_oscString :: wstring
  sm_oscParameter :: VTInt
  sm_dcsStringHandler :: "'h option"
  sm_cachedSequence :: "wstring option"
  sm_injections :: "(InjectionType \<times> nat) list"
  sm_processingLastCharacter :: bool
  sm_onCsiCompleteCallback :: "'c option"

subsection \<open>The engine interface\<close>

text \<open>An engine call returns \<open>true\<close>, returns \<open>false\<close>, or throws. While it runs it may call
  back into the public interface of the state machine; those calls are the requests of the
  result, in the order they were made.\<close>

datatype outcome = Handled | NotHandled | Threw

datatype 'c sm_request =
    ReqSetParserMode Mode bool
  | ReqInjectSequence InjectionType
  | ReqOnCsiComplete 'c

type_synonym ('e, 'c, 'r) engine_call = "'e \<Rightarrow> 'e \<times> 'c sm_request list \<times> 'r"

text \<open>\<open>eng_ActionDcsDispatch\<close> results in \<open>None\<close> when it throws, and otherwise in the string
  handler it returns, which may be null. \<open>eng_CallStringHandler\<close> is the call of a string
  handler, and \<open>eng_RunCallback\<close> the call of a completion callback, which may feed the state
  machine another string.\<close>

record ('e, 'h, 'c) engine_ops =
  eng_UnknownSequence :: "('e, 'c, unit) engine_call"
  eng_EncounteredWin32InputModeSequence :: "'e \<Rightarrow> bool"
  eng_ActionExecute :: "wchar \<Rightarrow> ('e, 'c, outcome) engine_call"
  eng_ActionExecuteFromEscape :: "wchar \<Rightarrow> ('e, 'c, outcome) engine_call"
  eng_ActionPrint :: "wchar \<Rightarrow> ('e, 'c, outcome) engine_call"
  eng_ActionPrintString :: "wstring \<Rightarrow> ('e, 'c, outcome) engine_call"
  eng_ActionPassThroughString :: "wstring \<Rightarrow> ('e, 'c, outcome) engine_call"
  eng_ActionEscDispatch :: "VTID \<Rightarrow> ('e, 'c, outcome) engine_call"
  eng_ActionVt52EscDispatch :: "VTID \<Rightarrow> VTParameters \<Rightarrow> ('e, 'c, outcome) engine_call"
  eng_ActionCsiDispatch :: "VTID \<Rightarrow> VTParameters \<Rightarrow> ('e, 'c, outcome) engine_call"
  eng_ActionDcsDispatch :: "VTID \<Rightarrow> VTParameters \<Rightarrow> ('e, 'c, 'h option option) engine_call"
  eng_ActionOscDispatch :: "VTInt \<Rightarrow> wstring \<Rightarrow> ('e, 'c, outcome) engine_call"
  eng_ActionSs3Dispatch :: "wchar \<Rightarrow> VTParameters \<Rightarrow> ('e, 'c, outcome) engine_call"
  eng_CallStringHandler :: "'h \<Rightarrow> wchar \<Rightarrow> ('e, 'c, bool) engine_call"
  eng_RunCallback :: "'c \<Rightarrow> ('e, 'h, 'c) sm \<Rightarrow> ('e, 'h, 'c) sm option"

subsection \<open>The public setters\<close>

definition SetParserMode :: "Mode \<Rightarrow> bool \<Rightarrow> ('e, 'h, 'c) sm \<Rightarrow> ('e, 'h, 'c) sm" where
  "SetParserMode mode enabled s =
     s\<lparr>sm_parserMode := (if enabled then insert mode (sm_parserMode s)
                         else sm_parserMode s - {mode})\<rparr>"

definition GetParserMode :: "Mode \<Rightarrow> ('e, 'h, 'c) sm \<Rightarrow> bool" where
  "GetParserMode mode s \<longleftrightarrow> mode \<in> sm_parserMode s"

definition InjectSequence :: "InjectionType \<Rightarrow> ('e, 'h, 'c) sm \<Rightarrow> ('e, 'h, 'c) sm" where
  "InjectSequence type s =
     s\<lparr>sm_injections := sm_injections s @ [(type, sm_runOffset s + sm_runSize s)]\<rparr>"

definition OnCsiComplete :: "'c \<Rightarrow> ('e, 'h, 'c) sm \<Rightarrow> ('e, 'h, 'c) sm" where
  "OnCsiComplete callback s = s\<lparr>sm_onCsiCompleteCallback := Some callback\<rparr>"

definition IsProcessingLastCharacter :: "('e, 'h, 'c) sm \<Rightarrow> bool" where
  "IsProcessingLastCharacter s = sm_processingLastCharacter s"

definition GetInjections :: "('e, 'h, 'c) sm \<Rightarrow> (InjectionType \<times> nat) list" where
  "GetInjections s = sm_injections s"

fun apply_request :: "'c sm_request \<Rightarrow> ('e, 'h, 'c) sm \<Rightarrow> ('e, 'h, 'c) sm" where
  "apply_request (ReqSetParserMode m b) s = SetParserMode m b s"
| "apply_request (ReqInjectSequence t) s = InjectSequence t s"
| "apply_request (ReqOnCsiComplete cb) s = OnCsiComplete cb s"

definition call :: "('e, 'c, 'r) engine_call \<Rightarrow> ('e, 'h, 'c) sm \<Rightarrow> 'r \<times> ('e, 'h, 'c) sm" where
  "call f s = (case f (sm_engine s) of (e, reqs, r) \<Rightarrow> (r, fold apply_request reqs (s\<lparr>sm_engine := e\<rparr>)))"

subsection \<open>Running an engine action\<close>

text \<open>\<^verbatim>\<open>substr\<close> throws when the offset lies past the end of the string.\<close>

definition CurrentRun :: "('e, 'h, 'c) sm \<Rightarrow> wstring option" where
  "CurrentRun s =
     (if sm_runOffset s \<le> length (sm_currentString s)
      then Some (take (sm_runSize s) (drop (sm_runOffset s) (sm_currentString s))) else None)"

text \<open>\<^verbatim>\<open>_SafeExecute\<close> and \<^verbatim>\<open>FlushToTerminal\<close> call each other: an action that reports that it did
  not handle the sequence flushes it to the terminal, and a flush that reports the same flushes
  again. Nothing in the source bounds that recursion, so \<open>FlushToTerminal\<close> is partial, with the
  body of \<^verbatim>\<open>_SafeExecute\<close> written out in its two calls; the lemma \<open>FlushToTerminal_unfold\<close> gives it
  back in the form of the source.\<close>

partial_function (option) FlushToTerminal ::
  "('e, 'h, 'c) engine_ops \<Rightarrow> ('e, 'h, 'c) sm \<Rightarrow> (bool \<times> ('e, 'h, 'c) sm) option" where
  "FlushToTerminal ops s =
     do {
       (success, s) \<leftarrow>
         (case sm_cachedSequence s of
            None \<Rightarrow> Some (True, s)
          | Some cached \<Rightarrow>
              do { (ok, s) \<leftarrow>
                     (case call (eng_ActionPassThroughString ops cached) s of
                        (r, s1) \<Rightarrow>
                          (if r = Handled then Some (True, s1)
                           else if r = NotHandled
                           then do { (_, s2) \<leftarrow> FlushToTerminal ops s1; Some (False, s2) }
                           else Some (False, s1)));
                   Some (ok, s\<lparr>sm_cachedSequence := None\<rparr>) });
       if success
       then (case CurrentRun s of
               None \<Rightarrow> Some (False, s)
             | Some run \<Rightarrow>
                 (case call (eng_ActionPassThroughString ops run) s of
                    (r, s1) \<Rightarrow>
                      (if r = Handled then Some (True, s1)
                       else if r = NotHandled
                       then do { (_, s2) \<leftarrow> FlushToTerminal ops s1; Some (False, s2) }
                       else Some (False, s1))))
       else Some (False, s)
     }"

definition SafeExecute ::
  "('e, 'h, 'c) engine_ops \<Rightarrow> ('e, 'c, outcome) engine_call \<Rightarrow> ('e, 'h, 'c) sm \<Rightarrow>
   (bool \<times> ('e, 'h, 'c) sm) option" where
  "SafeExecute ops lambda s =
     (case call lambda s of
        (Handled, s1) \<Rightarrow> Some (True, s1)
      | (NotHandled, s1) \<Rightarrow> do { (_, s2) \<leftarrow> FlushToTerminal ops s1; Some (False, s2) }
      | (Threw, s1) \<Rightarrow> Some (False, s1))"

lemma FlushToTerminal_unfold:
  "FlushToTerminal ops s =
     do {
       (success, s) \<leftarrow>
         (case sm_cachedSequence s of
            None \<Rightarrow> Some (True, s)
          | Some cached \<Rightarrow>
              do { (ok, s) \<leftarrow> SafeExecute ops (eng_ActionPassThroughString ops cached) s;
                   Some (ok, s\<lparr>sm_cachedSequence := None\<rparr>) });
       if success
       then (case CurrentRun s of
               None \<Rightarrow> Some (False, s)
             | Some run \<Rightarrow> SafeExecute ops (eng_ActionPassThroughString ops run) s)
       else Some (False, s)
     }"
proof -
  have "SafeExecute ops f s =
     (case call f s of
        (r, s1) \<Rightarrow>
          (if r = Handled then Some (True, s1)
           else if r = NotHandled
           then do { (_, s2) \<leftarrow> FlushToTerminal ops s1; Some (False, s2) }
           else Some (False, s1)))" for f s
    by (simp add: SafeExecute_def split: prod.split outcome.split)
  then show ?thesis
    by (simp only: FlushToTerminal.simps [of ops s])
qed

subsection \<open>The actions\<close>

definition ActionExecute ::
  "('e, 'h, 'c) engine_ops \<Rightarrow> wchar \<Rightarrow> ('e, 'h, 'c) sm \<Rightarrow> ('e, 'h, 'c) sm option" where
  "ActionExecute ops wch s = map_option snd (SafeExecute ops (eng_ActionExecute ops wch) s)"

definition ActionExecuteFromEscape ::
  "('e, 'h, 'c) engine_ops \<Rightarrow> wchar \<Rightarrow> ('e, 'h, 'c) sm \<Rightarrow> ('e, 'h, 'c) sm option" where
  "ActionExecuteFromEscape ops wch s =
     map_option snd (SafeExecute ops (eng_ActionExecuteFromEscape ops wch) s)"

definition ActionPrint ::
  "('e, 'h, 'c) engine_ops \<Rightarrow> wchar \<Rightarrow> ('e, 'h, 'c) sm \<Rightarrow> ('e, 'h, 'c) sm option" where
  "ActionPrint ops wch s = map_option snd (SafeExecute ops (eng_ActionPrint ops wch) s)"

definition ActionPrintString ::
  "('e, 'h, 'c) engine_ops \<Rightarrow> wstring \<Rightarrow> ('e, 'h, 'c) sm \<Rightarrow> ('e, 'h, 'c) sm option" where
  "ActionPrintString ops str s = map_option snd (SafeExecute ops (eng_ActionPrintString ops str) s)"

definition ActionEscDispatch ::
  "('e, 'h, 'c) engine_ops \<Rightarrow> wchar \<Rightarrow> ('e, 'h, 'c) sm \<Rightarrow> ('e, 'h, 'c) sm option" where
  "ActionEscDispatch ops wch s =
     map_option snd (SafeExecute ops (eng_ActionEscDispatch ops (Finalize wch (sm_identifier s))) s)"

definition ActionVt52EscDispatch ::
  "('e, 'h, 'c) engine_ops \<Rightarrow> wchar \<Rightarrow> ('e, 'h, 'c) sm \<Rightarrow> ('e, 'h, 'c) sm option" where
  "ActionVt52EscDispatch ops wch s =
     map_option snd
       (SafeExecute ops
          (eng_ActionVt52EscDispatch ops (Finalize wch (sm_identifier s))
             (params_only (sm_parameters s))) s)"

definition ActionCsiDispatch ::
  "('e, 'h, 'c) engine_ops \<Rightarrow> wchar \<Rightarrow> ('e, 'h, 'c) sm \<Rightarrow> ('e, 'h, 'c) sm option" where
  "ActionCsiDispatch ops wch s =
     map_option snd
       (SafeExecute ops
          (eng_ActionCsiDispatch ops (Finalize wch (sm_identifier s))
             \<lparr>vt_params = sm_parameters s, vt_subParams = sm_subParameters s,
              vt_subParamRanges = sm_subParameterRanges s\<rparr>) s)"

definition ActionCollect :: "wchar \<Rightarrow> ('e, 'h, 'c) sm \<Rightarrow> ('e, 'h, 'c) sm" where
  "ActionCollect wch s = s\<lparr>sm_identifier := AddIntermediate wch (sm_identifier s)\<rparr>"

definition AccumulateTo :: "wchar \<Rightarrow> VTInt \<Rightarrow> VTInt" where
  "AccumulateTo wch value =
     (let digit = uint wch - 0x30;
          v = value * 10 + digit
      in if v > MAX_PARAMETER_VALUE then MAX_PARAMETER_VALUE else v)"

text \<open>The two functions that store parameter characters first make sure there is a
  parameter, with an empty range of sub-parameters.\<close>

definition ensure_parameter :: "('e, 'h, 'c) sm \<Rightarrow> ('e, 'h, 'c) sm" where
  "ensure_parameter s =
     (if sm_parameters s = []
      then let rangeStart = of_nat (length (sm_subParameters s))
           in s\<lparr>sm_parameters := [omitted],
                sm_subParameterRanges := sm_subParameterRanges s @ [(rangeStart, rangeStart)]\<rparr>
      else s)"

definition ActionParam :: "wchar \<Rightarrow> ('e, 'h, 'c) sm \<Rightarrow> ('e, 'h, 'c) sm" where
  "ActionParam wch s0 =
     (if sm_parameterLimitOverflowed s0 then s0
      else let s = ensure_parameter s0 in
        if isParameterDelimiter wch
        then if length (sm_parameters s) \<ge> MAX_PARAMETER_COUNT
             then s\<lparr>sm_parameterLimitOverflowed := True\<rparr>
             else let rangeStart = of_nat (length (sm_subParameters s))
                  in s\<lparr>sm_parameters := sm_parameters s @ [omitted],
                       sm_subParameterCounter := 0,
                       sm_subParameterLimitOverflowed := False,
                       sm_subParameterRanges :=
                         sm_subParameterRanges s @ [(rangeStart, rangeStart)]\<rparr>
        else s\<lparr>sm_parameters :=
                 set_back (sm_parameters s)
                   (VTParam (AccumulateTo wch (value_or (last (sm_parameters s)) 0)))\<rparr>)"

text \<open>A digit is accumulated into \<^verbatim>\<open>_subParameters.back()\<close>, which is only defined when there is
  a sub-parameter.\<close>

definition ActionSubParam :: "wchar \<Rightarrow> ('e, 'h, 'c) sm \<Rightarrow> ('e, 'h, 'c) sm option" where
  "ActionSubParam wch s0 =
     (if sm_subParameterLimitOverflowed s0 then Some s0
      else let s = ensure_parameter s0 in
        if isSubParameterDelimiter wch
        then if unat (sm_subParameterCounter s) \<ge> MAX_SUBPARAMETER_COUNT
             then Some (s\<lparr>sm_subParameterLimitOverflowed := True\<rparr>)
             else if sm_subParameterRanges s = [] then None
             else Some (s\<lparr>sm_subParameters := sm_subParameters s @ [omitted],
                          sm_subParameterRanges :=
                            set_back (sm_subParameterRanges s)
                              (fst (last (sm_subParameterRanges s)),
                               snd (last (sm_subParameterRanges s)) + 1),
                          sm_subParameterCounter := sm_subParameterCounter s + 1\<rparr>)
        else if sm_subParameters s = [] then None
        else Some (s\<lparr>sm_subParameters :=
                       set_back (sm_subParameters s)
                         (VTParam (AccumulateTo wch (value_or (last (sm_subParameters s)) 0)))\<rparr>))"

definition ActionClear :: "('e, 'h, 'c) sm \<Rightarrow> ('e, 'h, 'c) sm" where
  "ActionClear s =
     s\<lparr>sm_identifier := VTIDBuilder_Clear,
       sm_parameters := [], sm_parameterLimitOverflowed := False,
       sm_subParameters := [], sm_subParameterRanges := [],
       sm_subParameterCounter := 0, sm_subParameterLimitOverflowed := False,
       sm_oscString := [], sm_oscParameter := 0,
       sm_dcsStringHandler := None\<rparr>"

definition ActionIgnore :: "('e, 'h, 'c) sm \<Rightarrow> ('e, 'h, 'c) sm" where
  "ActionIgnore s = s"

text \<open>A call through an empty \<^verbatim>\<open>std::function\<close> does not complete.\<close>

definition ActionInterrupt ::
  "('e, 'h, 'c) engine_ops \<Rightarrow> ('e, 'h, 'c) sm \<Rightarrow> ('e, 'h, 'c) sm option" where
  "ActionInterrupt ops s =
     (if sm_state s = DcsPassThrough
      then (case sm_dcsStringHandler s of
              None \<Rightarrow> None
            | Some h \<Rightarrow> Some ((snd (call (eng_CallStringHandler ops h ESC) s))
                               \<lparr>sm_dcsStringHandler := None\<rparr>))
      else Some s)"

definition ActionOscParam :: "wchar \<Rightarrow> ('e, 'h, 'c) sm \<Rightarrow> ('e, 'h, 'c) sm" where
  "ActionOscParam wch s = s\<lparr>sm_oscParameter := AccumulateTo wch (sm_oscParameter s)\<rparr>"

definition ActionOscPut :: "wchar \<Rightarrow> ('e, 'h, 'c) sm \<Rightarrow> ('e, 'h, 'c) sm" where
  "ActionOscPut wch s = s\<lparr>sm_oscString := sm_oscString s @ [wch]\<rparr>"

definition ActionOscDispatch ::
  "('e, 'h, 'c) engine_ops \<Rightarrow> ('e, 'h, 'c) sm \<Rightarrow> ('e, 'h, 'c) sm option" where
  "ActionOscDispatch ops s =
     map_option snd
       (SafeExecute ops (eng_ActionOscDispatch ops (sm_oscParameter s) (sm_oscString s)) s)"

definition ActionSs3Dispatch ::
  "('e, 'h, 'c) engine_ops \<Rightarrow> wchar \<Rightarrow> ('e, 'h, 'c) sm \<Rightarrow> ('e, 'h, 'c) sm option" where
  "ActionSs3Dispatch ops wch s =
     map_option snd
       (SafeExecute ops (eng_ActionSs3Dispatch ops wch (params_only (sm_parameters s))) s)"

subsection \<open>Entering a state\<close>

definition EnterGround :: "('e, 'h, 'c) sm \<Rightarrow> ('e, 'h, 'c) sm" where
  "EnterGround s = s\<lparr>sm_state := Ground, sm_cachedSequence := None\<rparr>"

definition EnterEscape :: "('e, 'h, 'c) sm \<Rightarrow> ('e, 'h, 'c) sm" where
  "EnterEscape s = ActionClear (s\<lparr>sm_state := Escape\<rparr>)"

definition EnterEscapeIntermediate :: "('e, 'h, 'c) sm \<Rightarrow> ('e, 'h, 'c) sm" where
  "EnterEscapeIntermediate s = s\<lparr>sm_state := EscapeIntermediate\<rparr>"

definition EnterCsiEntry :: "('e, 'h, 'c) sm \<Rightarrow> ('e, 'h, 'c) sm" where
  "EnterCsiEntry s = ActionClear (s\<lparr>sm_state := CsiEntry\<rparr>)"

definition EnterCsiParam :: "('e, 'h, 'c) sm \<Rightarrow> ('e, 'h, 'c) sm" where
  "EnterCsiParam s = s\<lparr>sm_state := CsiParam\<rparr>"

definition EnterCsiSubParam :: "('e, 'h, 'c) sm \<Rightarrow> ('e, 'h, 'c) sm" where
  "EnterCsiSubParam s = s\<lparr>sm_state := CsiSubParam\<rparr>"

definition EnterCsiIgnore :: "('e, 'h, 'c) sm \<Rightarrow> ('e, 'h, 'c) sm" where
  "EnterCsiIgnore s = s\<lparr>sm_state := CsiIgnore\<rparr>"

definition EnterCsiIntermediate :: "('e, 'h, 'c) sm \<Rightarrow> ('e, 'h, 'c) sm" where
  "EnterCsiIntermediate s = s\<lparr>sm_state := CsiIntermediate\<rparr>"

definition EnterOscParam :: "('e, 'h, 'c) sm \<Rightarrow> ('e, 'h, 'c) sm" where
  "EnterOscParam s = s\<lparr>sm_state := OscParam\<rparr>"

definition EnterOscString :: "('e, 'h, 'c) sm \<Rightarrow> ('e, 'h, 'c) sm" where
  "EnterOscString s = s\<lparr>sm_state := OscString\<rparr>"

definition EnterOscTermination :: "('e, 'h, 'c) sm \<Rightarrow> ('e, 'h, 'c) sm" where
  "EnterOscTermination s = s\<lparr>sm_state := OscTermination\<rparr>"

definition EnterSs3Entry :: "('e, 'h, 'c) sm \<Rightarrow> ('e, 'h, 'c) sm" where
  "EnterSs3Entry s = ActionClear (s\<lparr>sm_state := Ss3Entry\<rparr>)"

definition EnterSs3Param :: "('e, 'h, 'c) sm \<Rightarrow> ('e, 'h, 'c) sm" where
  "EnterSs3Param s = s\<lparr>sm_state := Ss3Param\<rparr>"

definition EnterVt52Param :: "('e, 'h, 'c) sm \<Rightarrow> ('e, 'h, 'c) sm" where
  "EnterVt52Param s = s\<lparr>sm_state := Vt52Param\<rparr>"

definition EnterDcsEntry :: "('e, 'h, 'c) sm \<Rightarrow> ('e, 'h, 'c) sm" where
  "EnterDcsEntry s = ActionClear (s\<lparr>sm_state := DcsEntry\<rparr>)"

definition EnterDcsParam :: "('e, 'h, 'c) sm \<Rightarrow> ('e, 'h, 'c) sm" where
  "EnterDcsParam s = s\<lparr>sm_state := DcsParam\<rparr>"

definition EnterDcsIgnore :: "('e, 'h, 'c) sm \<Rightarrow> ('e, 'h, 'c) sm" where
  "EnterDcsIgnore s = s\<lparr>sm_state := DcsIgnore, sm_cachedSequence := None\<rparr>"

definition EnterDcsIntermediate :: "('e, 'h, 'c) sm \<Rightarrow> ('e, 'h, 'c) sm" where
  "EnterDcsIntermediate s = s\<lparr>sm_state := DcsIntermediate\<rparr>"

definition EnterDcsPassThrough :: "('e, 'h, 'c) sm \<Rightarrow> ('e, 'h, 'c) sm" where
  "EnterDcsPassThrough s = s\<lparr>sm_state := DcsPassThrough, sm_cachedSequence := None\<rparr>"

definition EnterSosPmApcString ::
  "('e, 'h, 'c) engine_ops \<Rightarrow> ('e, 'h, 'c) sm \<Rightarrow> ('e, 'h, 'c) sm" where
  "EnterSosPmApcString ops s =
     snd (call (eng_UnknownSequence ops) (s\<lparr>sm_state := SosPmApcString, sm_cachedSequence := None\<rparr>))"

definition ActionDcsDispatch ::
  "('e, 'h, 'c) engine_ops \<Rightarrow> wchar \<Rightarrow> ('e, 'h, 'c) sm \<Rightarrow> ('e, 'h, 'c) sm" where
  "ActionDcsDispatch ops wch s =
     (let s1 = (case call (eng_ActionDcsDispatch ops (Finalize wch (sm_identifier s))
                             (params_only (sm_parameters s))) s of
                  (None, s') \<Rightarrow> s'
                | (Some handler, s') \<Rightarrow> s'\<lparr>sm_dcsStringHandler := handler\<rparr>)
      in if sm_dcsStringHandler s1 \<noteq> None then EnterDcsPassThrough s1 else EnterDcsIgnore s1)"

definition ExecuteCsiCompleteCallback ::
  "('e, 'h, 'c) engine_ops \<Rightarrow> ('e, 'h, 'c) sm \<Rightarrow> ('e, 'h, 'c) sm option" where
  "ExecuteCsiCompleteCallback ops s =
     (case sm_onCsiCompleteCallback s of
        None \<Rightarrow> Some s
      | Some callback \<Rightarrow>
          do { s' \<leftarrow> eng_RunCallback ops callback (s\<lparr>sm_onCsiCompleteCallback := None\<rparr>);
               Some (s'\<lparr>sm_currentString := sm_currentString s,
                        sm_runOffset := sm_runOffset s,
                        sm_runSize := sm_runSize s\<rparr>) })"

definition ResetState :: "('e, 'h, 'c) sm \<Rightarrow> ('e, 'h, 'c) sm" where
  "ResetState s = EnterGround s"

text \<open>The constructor. The members \<^verbatim>\<open>_runOffset\<close>, \<^verbatim>\<open>_runSize\<close> and \<^verbatim>\<open>_processingLastCharacter\<close> have
  no initializer, so their first values are arguments here.\<close>

definition StateMachine_init ::
  "'e \<Rightarrow> bool \<Rightarrow> nat \<Rightarrow> nat \<Rightarrow> bool \<Rightarrow> ('e, 'h, 'c) sm" where
  "StateMachine_init engine isEngineForInput off sz lastc =
     ActionClear
       (SetParserMode AcceptC1 isEngineForInput
         \<lparr>sm_engine = engine, sm_isEngineForInput = isEngineForInput, sm_state = Ground,
          sm_parserMode = {Ansi}, sm_currentString = [], sm_runOffset = off, sm_runSize = sz,
          sm_identifier = VTIDBuilder_Clear, sm_parameters = [],
          sm_parameterLimitOverflowed = False, sm_subParameters = [],
          sm_subParameterRanges = [], sm_subParameterLimitOverflowed = False,
          sm_subParameterCounter = 0, sm_oscString = [], sm_oscParameter = 0,
          sm_dcsStringHandler = None, sm_cachedSequence = None, sm_injections = [],
          sm_processingLastCharacter = lastc, sm_onCsiCompleteCallback = None\<rparr>)"

end
