(* ===== verification/ITermDispatch.thy ===== *)
theory ITermDispatch
  imports StateMachine
begin

text \<open>
  The interface between the output engine and the terminal:
  \<^verbatim>\<open>src/src/terminal/adapter/ITermDispatch.hpp\<close>. A call of one of its methods is a value, with
  the arguments the method takes; enumeration arguments are the integers they are cast from. What
  a terminal does on a call is a parameter of the engine.
\<close>

datatype LineFeedType = WithReturn | WithoutReturn | DependsOnMode

datatype LineRendition = SingleWidth | DoubleWidth | DoubleHeightTop | DoubleHeightBottom

datatype cursor_call =
    CursorUp VTInt | CursorDown VTInt | CursorForward VTInt | CursorBackward VTInt
  | CursorNextLine VTInt | CursorPrevLine VTInt | CursorHorizontalPositionAbsolute VTInt
  | VerticalLinePositionAbsolute VTInt | HorizontalPositionRelative VTInt
  | VerticalPositionRelative VTInt | CursorPosition VTInt VTInt | CursorSaveState
  | CursorRestoreState | NextPage VTInt | PrecedingPage VTInt | PagePositionAbsolute VTInt
  | PagePositionRelative VTInt | PagePositionBack VTInt

datatype edit_call =
    InsertCharacter VTInt | DeleteCharacter VTInt | ScrollUp VTInt | ScrollDown VTInt
  | InsertLine VTInt | DeleteLine VTInt | InsertColumn VTInt | DeleteColumn VTInt
  | EraseInDisplay VTInt | EraseInLine VTInt | EraseCharacters VTInt
  | SelectiveEraseInDisplay VTInt | SelectiveEraseInLine VTInt
  | ChangeAttributesRectangularArea VTInt VTInt VTInt VTInt VTParameters
  | ReverseAttributesRectangularArea VTInt VTInt VTInt VTInt VTParameters
  | CopyRectangularArea VTInt VTInt VTInt VTInt VTInt VTInt VTInt VTInt
  | FillRectangularArea VTParameter VTInt VTInt VTInt VTInt
  | EraseRectangularArea VTInt VTInt VTInt VTInt
  | SelectiveEraseRectangularArea VTInt VTInt VTInt VTInt | SelectAttributeChangeExtent VTInt

datatype control_call =
    EnquireAnswerback | WarningBell | CarriageReturn | LineFeed LineFeedType | ReverseLineFeed
  | BackIndex | ForwardIndex | HorizontalTabSet | ForwardTab VTInt | BackwardsTab VTInt
  | TabClear VTInt | TabSet VTParameter

datatype mode_call =
    SetKeypadMode bool | SetAnsiMode bool | SetKittyKeyboardProtocol VTParameter VTParameter
  | QueryKittyKeyboardProtocol | PushKittyKeyboardProtocol VTParameter
  | PopKittyKeyboardProtocol VTParameter | SetTopBottomScrollingMargins VTInt VTInt
  | SetLeftRightScrollingMargins VTInt VTInt | SetMode VTInt | ResetMode VTInt
  | RequestMode VTInt | SoftReset | HardReset bool | ScreenAlignmentPattern
  | SetCursorStyle VTInt | AcceptC1Controls bool | SendC1Controls bool
  | AnnounceCodeStructure VTInt

datatype charset_call =
    DesignateCodingSystem VTID | Designate94Charset VTInt VTID | Designate96Charset VTInt VTID
  | LockingShift VTInt | LockingShiftRight VTInt | SingleShift VTInt

datatype render_call =
    SetGraphicsRendition VTParameters | SetLineRendition LineRendition
  | SetCharacterProtectionAttribute VTParameters | PushGraphicsRendition VTParameters
  | PopGraphicsRendition | AssignColor VTInt VTInt VTInt | SetColorTableEntry nat u32
  | RequestColorTableEntry nat | ResetColorTable | ResetColorTableEntry nat
  | SetXtermColorResource nat u32 | RequestXtermColorResource nat
  | ResetXtermColorResource nat

datatype report_call =
    RequestDisplayedExtent | RequestChecksumRectangularArea VTInt VTInt VTInt VTInt VTInt VTInt
  | DeviceStatusReport VTInt VTParameter | DeviceAttributes | SecondaryDeviceAttributes
  | TertiaryDeviceAttributes | Vt52DeviceAttributes | RequestTerminalParameters VTInt
  | RequestUserPreferenceCharset | RequestTerminalStateReport VTInt VTParameter
  | RequestPresentationStateReport VTInt | InvokeMacro VTInt | PlaySounds VTParameters
  | WindowManipulation VTInt VTParameter VTParameter

datatype string_call =
    SetWindowTitle wstring | SetCurrentWorkingDirectory wstring | SetClipboard wstring
  | AddHyperlink wstring wstring | EndHyperlink | DoConEmuAction wstring
  | DoITerm2Action wstring | DoFinalTermAction wstring | DoVsCodeAction wstring
  | DoWTAction wstring | DoUrxvtAction wstring

datatype handler_call =
    DefineSixelImage VTInt VTInt VTParameter
  | DownloadDRCS VTInt VTParameter VTInt VTInt VTInt VTInt VTParameter VTInt
  | AssignUserPreferenceCharset VTInt | DefineMacro VTInt VTInt VTInt
  | RestoreTerminalState VTInt | RequestSetting | RestorePresentationState VTInt

datatype dispatch_call =
    UnknownSequence | Print wchar | PrintString wstring
  | Cursor cursor_call | Edit edit_call | Control control_call | Modes mode_call
  | Charset charset_call | Render render_call | Report report_call | Strings string_call

text \<open>The methods of a terminal. A method may call back into the state machine, and it may throw:
  the last component of the result of \<open>disp_call\<close> says whether it returned. The methods that
  return a string handler result in \<open>None\<close> when they throw.\<close>

record ('d, 'h, 'c) dispatch_ops =
  disp_call :: "dispatch_call \<Rightarrow> 'd \<Rightarrow> 'd \<times> 'c sm_request list \<times> bool"
  disp_handler :: "handler_call \<Rightarrow> 'd \<Rightarrow> 'd \<times> 'c sm_request list \<times> 'h option option"
  disp_string :: "'h \<Rightarrow> wchar \<Rightarrow> 'd \<Rightarrow> 'd \<times> 'c sm_request list \<times> bool"

text \<open>Calls one after the other; a call that throws ends the sequence.\<close>

fun run_calls ::
  "('d, 'h, 'c) dispatch_ops \<Rightarrow> dispatch_call list \<Rightarrow> 'd \<Rightarrow> 'd \<times> 'c sm_request list \<times> bool" where
  "run_calls D [] d = (d, [], True)"
| "run_calls D (x # xs) d =
     (case disp_call D x d of
        (d1, rs, returned) \<Rightarrow>
          (if returned
           then (case run_calls D xs d1 of (d2, rs', ok) \<Rightarrow> (d2, rs @ rs', ok))
           else (d1, rs, False)))"

lemma run_calls_append:
  "run_calls D (xs @ ys) d =
     (case run_calls D xs d of
        (d1, rs, ok) \<Rightarrow>
          (if ok then (case run_calls D ys d1 of (d2, rs', ok') \<Rightarrow> (d2, rs @ rs', ok')) else (d1, rs, ok)))"
  by (induction xs arbitrary: d) (auto split: prod.splits)

subsection \<open>The default terminal\<close>

text \<open>\<^verbatim>\<open>src/src/terminal/adapter/termDispatch.hpp\<close>: every method does nothing, and every string handler
  is null, except for the two print methods, which a derived class has to supply.\<close>

definition TermDispatch_call ::
  "(wchar \<Rightarrow> 'd \<Rightarrow> 'd) \<Rightarrow> (wstring \<Rightarrow> 'd \<Rightarrow> 'd) \<Rightarrow> dispatch_call \<Rightarrow> 'd \<Rightarrow>
   'd \<times> 'c sm_request list \<times> bool" where
  "TermDispatch_call print printString x d =
     (case x of
        Print w \<Rightarrow> (print w d, [], True)
      | PrintString s \<Rightarrow> (printString s d, [], True)
      | _ \<Rightarrow> (d, [], True))"

definition TermDispatch ::
  "(wchar \<Rightarrow> 'd \<Rightarrow> 'd) \<Rightarrow> (wstring \<Rightarrow> 'd \<Rightarrow> 'd) \<Rightarrow> ('d, 'h, 'c) dispatch_ops" where
  "TermDispatch print printString =
     \<lparr>disp_call = TermDispatch_call print printString,
      disp_handler = (\<lambda>x d. (d, [], Some None)),
      disp_string = (\<lambda>h w d. (d, [], False))\<rparr>"

end
