(* ===== verification/Utils.thy ===== *)
theory Utils
  imports Prelude
begin

text \<open>
  The string helpers of \<^verbatim>\<open>src/src/types/utils.cpp\<close> and \<^verbatim>\<open>src/src/inc/til/string.h\<close> that the
  output engine parses its arguments with: splitting at a delimiter, decimal and hexadecimal
  numbers, and colour specifications. The lemmas say that splitting loses nothing, that the
  number parsers compute the value of their digits (and when they wrap around), and what a
  colour specification stands for.
\<close>

subsection \<open>Numbers\<close>

definition HexToUint :: "wchar \<Rightarrow> nat option" where
  "HexToUint wch =
     (if wch \<ge> 0x30 \<and> wch \<le> 0x39 then Some (unat wch - 0x30)
      else if wch \<ge> 0x41 \<and> wch \<le> 0x46 then Some (unat wch - 0x41 + 10)
      else if wch \<ge> 0x61 \<and> wch \<le> 0x66 then Some (unat wch - 0x61 + 10)
      else None)"

definition isNumber :: "wchar \<Rightarrow> bool" where
  "isNumber wch \<longleftrightarrow> wch \<ge> 0x30 \<and> wch \<le> 0x39"

fun StringToUint_loop :: "wstring \<Rightarrow> u32 \<Rightarrow> u32 option" where
  "StringToUint_loop [] result = Some result"
| "StringToUint_loop (wch # str) result =
     (if isNumber wch then StringToUint_loop str (result * 10 + (ucast wch - 0x30)) else None)"

definition StringToUint :: "wstring \<Rightarrow> u32 option" where
  "StringToUint str = (if length str < 1 then None else StringToUint_loop str 0)"

text \<open>The mapping of a character to a digit in \<^verbatim>\<open>til::details::parse_u64\<close>, on 64-bit values:
  everything that is neither a digit nor a letter wraps around to a large value.\<close>

definition parse_digit :: "wchar \<Rightarrow> u64" where
  "parse_digit c =
     (let ch = ucast c :: u64;
          sub = (if ch \<ge> 0x30 \<and> ch \<le> 0x39 then (0x30 - 1) AND NOT 0x20
                 else ((0x41 - 1) AND NOT 0x20) - 10)
      in ((ch - 1) AND NOT 0x20) - sub)"

fun parse_u64_loop :: "u64 \<Rightarrow> wstring \<Rightarrow> u64 \<Rightarrow> u64 option" where
  "parse_u64_loop base [] accumulator = Some accumulator"
| "parse_u64_loop base (c # cs) accumulator =
     (let value = parse_digit c;
          acc = accumulator * base + value;
          max_before_mul = (- 1) div base
      in if value \<ge> base \<or> accumulator > max_before_mul \<or> acc < accumulator then None
         else parse_u64_loop base cs acc)"

definition parse_u64 :: "wstring \<Rightarrow> int \<Rightarrow> u64 option" where
  "parse_u64 str base =
     (let (base_uint64, ptr) =
        (if base \<le> 0
         then (if length str \<ge> 2 \<and> hd str = 0x30
               then (let ch = (str ! 1) OR 0x20 in
                     if ch = 0x62 then (2, drop 2 str)
                     else if ch = 0x78 then (16, drop 2 str)
                     else (8, drop 1 str))
               else (10, str))
         else (word_of_int base, str))
      in if ptr = [] \<or> base_uint64 > 36 then None else parse_u64_loop base_uint64 ptr 0)"

subsection \<open>Splitting\<close>

text \<open>The loop of \<^verbatim>\<open>SplitString\<close> on what is left of the string: a delimiter at the very end adds
  an empty last part.\<close>

function SplitString :: "wstring \<Rightarrow> wchar \<Rightarrow> wstring list" where
  "SplitString str delimiter =
     (if str = [] then []
      else if delimiter \<notin> set str then [str]
      else let part = takeWhile (\<lambda>c. c \<noteq> delimiter) str;
               rest = drop (length part + 1) str
           in part # (if rest = [] then [[]] else SplitString rest delimiter))"
  by pat_completeness auto
termination
  by (relation "measure (length \<circ> fst)") auto

declare SplitString.simps [simp del]

text \<open>The position of a character, as \<^verbatim>\<open>find\<close> reports it.\<close>

fun find_char :: "wchar \<Rightarrow> wstring \<Rightarrow> nat option" where
  "find_char d [] = None"
| "find_char d (c # cs) = (if c = d then Some 0 else map_option Suc (find_char d cs))"

text \<open>The first position of a substring.\<close>

fun find_sub :: "wstring \<Rightarrow> wstring \<Rightarrow> nat option" where
  "find_sub n [] = (if n = [] then Some 0 else None)"
| "find_sub n (c # cs) =
     (if take (length n) (c # cs) = n then Some 0 else map_option Suc (find_sub n cs))"

subsection \<open>Colours\<close>

text \<open>The red, green and blue components of a \<^verbatim>\<open>til::color\<close>, and its conversion to a
  \<^verbatim>\<open>COLORREF\<close>.\<close>

type_synonym color = "byte \<times> byte \<times> byte"

definition color_COLORREF :: "color \<Rightarrow> u32" where
  "color_COLORREF c = (case c of (r, g, b) \<Rightarrow> ucast r OR push_bit 8 (ucast g) OR push_bit 16 (ucast b))"

definition INVALID_COLOR :: u32 where
  "INVALID_COLOR = 0xffffffff"

definition lower_latin :: "wchar \<Rightarrow> wchar" where
  "lower_latin x = (if x \<ge> 0x41 \<and> x \<le> 0x5A then x + 0x20 else x)"

text \<open>The digits of one component: the inner loop of \<^verbatim>\<open>ColorFromXParseColorSpec\<close>. The result holds
  whether the component was found, its value, the digit count and the rest of the string; \<open>None\<close>
  is the early return on a character that is not a hex digit.\<close>

fun color_digits ::
  "bool \<Rightarrow> nat \<Rightarrow> nat \<Rightarrow> nat \<Rightarrow> bool \<Rightarrow> nat \<Rightarrow> nat \<Rightarrow> wstring \<Rightarrow>
   (bool \<times> nat \<times> nat \<times> wstring) option" where
  "color_digits isSharp component iteration i found v cnt [] = Some (found, v, cnt, [])"
| "color_digits isSharp component iteration i found v cnt (wch # rest) =
     (if i < iteration
      then (case HexToUint wch of
              None \<Rightarrow> None
            | Some intVal \<Rightarrow>
                let v' = v * 16 + intVal in
                if isSharp
                then (if i \<ge> cnt then Some (True, v', cnt, rest)
                      else color_digits isSharp component iteration (i + 1) True v' cnt rest)
                else (if component < 2 \<and> rest \<noteq> [] \<and> hd rest = 0x2F
                      then Some (True, v', i + 1, tl rest)
                      else if rest = [] then Some (True, v', i + 1, rest)
                      else color_digits isSharp component iteration (i + 1) found v' (i + 1) rest))
      else Some (found, v, cnt, wch # rest))"

text \<open>The value of a component, scaled from its digit count to eight bits.\<close>

definition scale_component :: "bool \<Rightarrow> nat \<Rightarrow> nat \<Rightarrow> nat" where
  "scale_component isSharp cnt v =
     (let scaleMultiplier = (if isSharp then 0x10 else 0x11);
          scaleDivisor = scaleMultiplier * 2 ^ 8 div 2 ^ (4 * (4 - cnt))
      in v * scaleMultiplier div scaleDivisor)"

fun color_components ::
  "bool \<Rightarrow> nat \<Rightarrow> nat \<Rightarrow> nat \<Rightarrow> wstring \<Rightarrow> (nat list \<times> wstring) option" where
  "color_components isSharp 0 component cnt cur = Some ([], cur)"
| "color_components isSharp (Suc n) component cnt cur =
     (case color_digits isSharp component (if isSharp then cnt else 4) 0 False 0 cnt cur of
        None \<Rightarrow> None
      | Some (found, v, cnt', cur') \<Rightarrow>
          (if \<not> found then None
           else (case color_components isSharp n (component + 1) cnt' cur' of
                   None \<Rightarrow> None
                 | Some (vs, rest) \<Rightarrow> Some (scale_component isSharp cnt' v # vs, rest))))"

definition LOBYTE :: "nat \<Rightarrow> byte" where
  "LOBYTE n = of_nat n"

definition ColorFromXParseColorSpec :: "wstring \<Rightarrow> color option" where
  "ColorFromXParseColorSpec string =
     (let stringSize = length string;
          isRgb = stringSize > 4 \<and> map lower_latin (take 4 string) = wstr ''rgb:'';
          isSharp = \<not> isRgb \<and> stringSize > 1 \<and> hd string = 0x23
      in if isRgb \<and> (stringSize < 9 \<or> stringSize > 18) then None
         else if isSharp \<and> \<not> (stringSize = 4 \<or> stringSize = 7 \<or> stringSize = 10 \<or> stringSize = 13)
         then None
         else if \<not> isRgb \<and> \<not> isSharp then None
         else (case color_components isSharp 3 0 (if isSharp then (stringSize - 1) div 3 else 0)
                      (drop (if isSharp then 1 else 4) string) of
                 Some ([r, g, b], []) \<Rightarrow> Some (LOBYTE r, LOBYTE g, LOBYTE b)
               | _ \<Rightarrow> None))"

text \<open>The table of colour names of \<^verbatim>\<open>colorTable.cpp\<close> is a parameter.\<close>

definition ColorFromXTermColor :: "(wstring \<Rightarrow> color option) \<Rightarrow> wstring \<Rightarrow> color option" where
  "ColorFromXTermColor ColorFromXOrgAppColorName string =
     (case ColorFromXParseColorSpec string of
        None \<Rightarrow> ColorFromXOrgAppColorName string
      | Some color \<Rightarrow> Some color)"

text \<open>The two scalings between percentages and bytes. The argument of the first is converted to
  an unsigned integer before it is clamped.\<close>

definition scale100To255 :: "nat \<Rightarrow> byte" where
  "scale100To255 i = of_nat ((i * 255 + 50) div 100)"

definition ColorFromRGB100 :: "int \<Rightarrow> int \<Rightarrow> int \<Rightarrow> color" where
  "ColorFromRGB100 r g b =
     (let clamp = (\<lambda>x :: int. min (unat (word_of_int x :: u32)) 100)
      in (scale100To255 (clamp r), scale100To255 (clamp g), scale100To255 (clamp b)))"

definition scale255To100 :: "nat \<Rightarrow> int" where
  "scale255To100 i = int ((i * 100 + 128) div 255)"

definition ColorToRGB100 :: "color \<Rightarrow> int \<times> int \<times> int" where
  "ColorToRGB100 c =
     (case c of (r, g, b) \<Rightarrow> (scale255To100 (unat r), scale255To100 (unat g), scale255To100 (unat b)))"

subsection \<open>What splitting does\<close>

fun join_parts :: "wchar \<Rightarrow> wstring list \<Rightarrow> wstring" where
  "join_parts d [] = []"
| "join_parts d [p] = p"
| "join_parts d (p # q # ps) = p @ d # join_parts d (q # ps)"

lemma split_at:
  assumes "d \<in> set w"
  shows "w = takeWhile (\<lambda>c. c \<noteq> d) w @ d # drop (length (takeWhile (\<lambda>c. c \<noteq> d) w) + 1) w"
proof -
  obtain xs ys where w: "w = xs @ d # ys" "d \<notin> set xs" using split_list_first [OF assms] by blast
  then have "takeWhile (\<lambda>c. c \<noteq> d) w = xs" by (auto simp: takeWhile_append)
  with w show ?thesis by simp
qed

lemma SplitString_not_Nil: "w \<noteq> [] \<Longrightarrow> SplitString w d \<noteq> []"
  by (subst SplitString.simps) (simp add: Let_def)

lemma join_Cons: "ps \<noteq> [] \<Longrightarrow> join_parts d (p # ps) = p @ d # join_parts d ps"
  by (cases ps) auto

lemma join_SplitString: "join_parts d (SplitString w d) = w"
proof (induction w d rule: SplitString.induct)
  case (1 w d)
  let ?p = "takeWhile (\<lambda>c. c \<noteq> d) w"
  let ?r = "drop (length ?p + 1) w"
  show ?case
  proof (cases "w = [] \<or> d \<notin> set w")
    case True
    then show ?thesis by (subst SplitString.simps) auto
  next
    case False
    then have "d \<in> set w" by simp
    then have w: "w = ?p @ d # ?r" by (rule split_at)
    show ?thesis
    proof (cases "?r = []")
      case True
      with False have "SplitString w d = [?p, []]" by (subst SplitString.simps) (simp add: Let_def)
      with w True show ?thesis by simp
    next
      case ne: False
      with False have s: "SplitString w d = ?p # SplitString ?r d"
        by (subst SplitString.simps) (simp add: Let_def)
      have "join_parts d (SplitString ?r d) = ?r" using 1 False ne by simp
      with s w SplitString_not_Nil [OF ne, of d] show ?thesis by (simp add: join_Cons)
    qed
  qed
qed

lemma SplitString_parts: "p \<in> set (SplitString w d) \<Longrightarrow> d \<notin> set p"
proof (induction w d rule: SplitString.induct)
  case (1 w d)
  then show ?case
    by (subst (asm) SplitString.simps)
      (auto simp: Let_def split: if_splits dest: set_takeWhileD)
qed

lemma SplitString_single: "w \<noteq> [] \<Longrightarrow> d \<notin> set w \<Longrightarrow> SplitString w d = [w]"
  by (subst SplitString.simps) simp

lemma SplitString_Cons:
  assumes "d \<notin> set p"
  shows "SplitString (p @ d # w) d = p # (if w = [] then [[]] else SplitString w d)"
proof -
  have "takeWhile (\<lambda>c. c \<noteq> d) (p @ d # w) = p" using assms by (auto simp: takeWhile_append)
  then show ?thesis by (subst SplitString.simps) (simp add: Let_def)
qed

lemma SplitString_join:
  "ps \<noteq> [] \<Longrightarrow> ps \<noteq> [[]] \<Longrightarrow> \<forall>p \<in> set ps. d \<notin> set p \<Longrightarrow> SplitString (join_parts d ps) d = ps"
proof (induction d ps rule: join_parts.induct)
  case (1 d)
  then show ?case by simp
next
  case (2 d p)
  then show ?case by (simp add: SplitString_single)
next
  case (3 d p q ps)
  show ?case
  proof (cases "q = [] \<and> ps = []")
    case True
    with "3.prems" show ?thesis using SplitString_Cons [of d p "[]"] by simp
  next
    case False
    then have "join_parts d (q # ps) \<noteq> []" by (cases ps) auto
    with 3 False show ?thesis using SplitString_Cons [of d p "join_parts d (q # ps)"] by auto
  qed
qed

subsection \<open>What the number parsers compute\<close>

fun digits_value :: "nat \<Rightarrow> nat list \<Rightarrow> nat \<Rightarrow> nat" where
  "digits_value b [] acc = acc"
| "digits_value b (d # ds) acc = digits_value b ds (acc * b + d)"

lemma digits_value_mono: "acc \<le> digits_value b ds acc" if "0 < b"
proof (induction ds arbitrary: acc)
  case Nil
  then show ?case by simp
next
  case (Cons d ds)
  have "acc \<le> acc * b" using that by simp
  also have "\<dots> \<le> digits_value b (d # ds) acc" using Cons.IH [of "acc * b + d"] by simp
  finally show ?case .
qed

text \<open>\<^verbatim>\<open>StringToUint\<close> wraps around at 32 bits.\<close>

lemma StringToUint_loop_value:
  "list_all isNumber ws \<Longrightarrow>
   StringToUint_loop ws (of_nat acc) = Some (of_nat (digits_value 10 (map (\<lambda>w. unat w - 0x30) ws) acc))"
proof (induction ws arbitrary: acc)
  case Nil
  then show ?case by simp
next
  case (Cons w ws)
  then have "0x30 \<le> unat w" by (simp add: isNumber_def word_le_nat_alt)
  then have "(ucast w - 0x30 :: u32) = of_nat (unat w - 0x30)"
    by (simp add: of_nat_diff)
  with Cons.IH [of "acc * 10 + (unat w - 0x30)"] Cons.prems show ?case by simp
qed

lemma StringToUint_loop_None: "\<not> list_all isNumber ws \<Longrightarrow> StringToUint_loop ws r = None"
  by (induction ws arbitrary: r) auto

lemma StringToUint_value:
  "StringToUint ws =
     (if ws = [] \<or> \<not> list_all isNumber ws then None
      else Some (of_nat (digits_value 10 (map (\<lambda>w. unat w - 0x30) ws) 0)))"
  using StringToUint_loop_value [of ws 0]
  by (cases ws) (auto simp: StringToUint_def StringToUint_loop_None simp del: StringToUint_loop.simps)

text \<open>\<^verbatim>\<open>parse_u64\<close> detects every overflow before it happens.\<close>

lemma parse_u64_step:
  assumes b: "2 \<le> unat b" "unat b \<le> 36" and v: "v < b"
  shows "(acc > (- 1) div b \<or> acc * b + v < acc) \<longleftrightarrow> unat acc * unat b + unat v \<ge> 2 ^ 64"
    and "unat acc * unat b + unat v < 2 ^ 64 \<Longrightarrow> unat (acc * b + v :: u64) = unat acc * unat b + unat v"
proof -
  show g: "unat (acc * b + v) = unat acc * unat b + unat v" if "unat acc * unat b + unat v < 2 ^ 64"
    using that by (simp add: unat_word_ariths)
  have v36: "unat v < 36" using v b(2) by (simp add: word_less_nat_alt)
  have "unat (- 1 :: u64) = 2 ^ 64 - 1" by (simp add: unsigned_minus_1_eq_mask mask_eq_exp_minus_1)
  then have m: "acc > (- 1) div b \<longleftrightarrow> unat acc > (2 ^ 64 - 1) div unat b"
    by (simp only: word_less_nat_alt unat_div)
  show "(acc > (- 1) div b \<or> acc * b + v < acc) \<longleftrightarrow> unat acc * unat b + unat v \<ge> 2 ^ 64"
  proof (cases "unat acc > (2 ^ 64 - 1) div unat b")
    case True
    then have "unat acc \<ge> (2 ^ 64 - 1) div unat b + 1" by simp
    then have "unat acc * unat b \<ge> ((2 ^ 64 - 1) div unat b + 1) * unat b" by (rule mult_le_mono1)
    moreover have "((2 ^ 64 - 1) div unat b + 1) * unat b > 2 ^ 64 - 1"
      using b(1) dividend_less_div_times [of "unat b" "2 ^ 64 - 1"] by (simp add: algebra_simps)
    ultimately show ?thesis using True m by linarith
  next
    case False
    then have "unat acc * unat b \<le> (2 ^ 64 - 1) div unat b * unat b" by (intro mult_le_mono1) simp
    also have "\<dots> \<le> 2 ^ 64 - 1" by (rule div_times_less_eq_dividend)
    finally have le: "unat acc * unat b \<le> 2 ^ 64 - 1" .
    show ?thesis
    proof (cases "unat acc * unat b + unat v < 2 ^ 64")
      case True
      have "unat acc * 1 \<le> unat acc * unat b" using b(1) by (intro mult_le_mono2) simp
      then have "\<not> acc * b + v < acc" unfolding word_less_nat_alt g [OF True] by linarith
      with True False m show ?thesis by linarith
    next
      case ov: False
      then have "unat (acc * b + v) = unat acc * unat b + unat v - 2 ^ 64"
        using le v36 by (simp add: unat_word_ariths le_mod_geq)
      also have "\<dots> < unat acc"
      proof -
        have "unat acc * unat b \<ge> 2 ^ 64 - 36" using ov v36 by linarith
        then have "unat acc * 36 \<ge> 2 ^ 64 - 36" using b(2) le_trans mult_le_mono2 by blast
        then have "unat acc \<ge> 36" by simp
        with le v36 show ?thesis by linarith
      qed
      finally show ?thesis using ov by (simp add: word_less_nat_alt)
    qed
  qed
qed

lemma parse_u64_loop_value:
  assumes b: "2 \<le> unat b" "unat b \<le> 36"
  shows "parse_u64_loop b cs acc =
    (let n = digits_value (unat b) (map (unat \<circ> parse_digit) cs) (unat acc) in
     if list_all (\<lambda>c. parse_digit c < b) cs \<and> n < 2 ^ 64 then Some (of_nat n) else None)"
proof (induction cs arbitrary: acc)
  case Nil
  then show ?case using unsigned_less [of acc, where ?'a = nat] by (simp add: Let_def)
next
  case (Cons c cs)
  let ?v = "parse_digit c"
  let ?n = "digits_value (unat b) (map (unat \<circ> parse_digit) (c # cs)) (unat acc)"
  show ?case
  proof (cases "?v < b")
    case False
    then show ?thesis by (simp add: Let_def not_less)
  next
    case v: True
    show ?thesis
    proof (cases "unat acc * unat b + unat ?v < 2 ^ 64")
      case True
      then have "\<not> (acc > (- 1) div b \<or> acc * b + ?v < acc)"
        using parse_u64_step(1) [OF b v, of acc] by linarith
      moreover have "\<not> b \<le> ?v" using v by (simp add: not_le)
      ultimately have "parse_u64_loop b (c # cs) acc = parse_u64_loop b cs (acc * b + ?v)"
        by (simp add: Let_def)
      with v Cons.IH [of "acc * b + ?v"] parse_u64_step(2) [OF b v True] show ?thesis
        by (simp add: Let_def)
    next
      case False
      then have "acc > (- 1) div b \<or> acc * b + ?v < acc"
        using parse_u64_step(1) [OF b v, of acc] by linarith
      then have none: "parse_u64_loop b (c # cs) acc = None" by (simp add: Let_def)
      have "?n \<ge> unat acc * unat b + unat ?v"
        using digits_value_mono [of "unat b"] b(1) by simp
      with False have "\<not> ?n < 2 ^ 64" by linarith
      then show ?thesis unfolding none by (simp only: Let_def simp_thms if_False)
    qed
  qed
qed

lemma isNumber_cases:
  assumes "isNumber c"
  obtains "c = 0x30" | "c = 0x31" | "c = 0x32" | "c = 0x33" | "c = 0x34" | "c = 0x35" | "c = 0x36"
    | "c = 0x37" | "c = 0x38" | "c = 0x39"
proof -
  from assms have "48 \<le> unat c" "unat c \<le> 57" by (simp_all add: isNumber_def word_le_nat_alt)
  then have "unat c = 48 \<or> unat c = 49 \<or> unat c = 50 \<or> unat c = 51 \<or> unat c = 52 \<or> unat c = 53 \<or>
      unat c = 54 \<or> unat c = 55 \<or> unat c = 56 \<or> unat c = 57" by presburger
  with that show thesis by (elim disjE) (simp_all add: wchar_eq_unat)
qed

lemma parse_digit_value: "isNumber c \<Longrightarrow> unat (parse_digit c) = unat c - 0x30"
  by (erule isNumber_cases) (simp_all add: parse_digit_def Let_def)

lemma parse_digit_other:
  assumes "\<not> isNumber c"
  shows "parse_digit c \<ge> 10"
proof -
  let ?x = "(ucast c - 1 :: u64) AND NOT 0x20"
  have "\<not> (0x30 \<le> (ucast c :: u64) \<and> (ucast c :: u64) \<le> 0x39)"
    using assms by (simp add: isNumber_def word_le_nat_alt unsigned_ucast_eq take_bit_nat_eq_self
        order_less_trans [OF unat_wchar_less])
  then have v: "parse_digit c = ?x - 54" by (simp add: parse_digit_def Let_def)
  have "\<not> bit ?x 5" by (simp add: bit_simps)
  then have "?x \<noteq> 54" "?x \<noteq> 55" "?x \<noteq> 56" "?x \<noteq> 57" "?x \<noteq> 58" "?x \<noteq> 59" "?x \<noteq> 60" "?x \<noteq> 61" "?x \<noteq> 62" "?x \<noteq> 63"
    by auto
  then have "unat ?x \<noteq> 54" "unat ?x \<noteq> 55" "unat ?x \<noteq> 56" "unat ?x \<noteq> 57" "unat ?x \<noteq> 58"
    "unat ?x \<noteq> 59" "unat ?x \<noteq> 60" "unat ?x \<noteq> 61" "unat ?x \<noteq> 62" "unat ?x \<noteq> 63"
    by (simp_all only: word_unat_eq_iff) simp_all
  then have "unat ?x < 54 \<or> unat ?x \<ge> 64" by presburger
  then show ?thesis unfolding v
    by (auto simp: word_le_nat_alt unat_sub_if_size word_size)
qed

lemma parse_digit_decimal: "parse_digit c < 10 \<longleftrightarrow> isNumber c"
proof (cases "isNumber c")
  case True
  then have "unat c \<le> 57" by (simp add: isNumber_def word_le_nat_alt)
  with True parse_digit_value [OF True] show ?thesis by (simp add: word_less_nat_alt)
next
  case False
  with parse_digit_other [OF False] show ?thesis by (simp add: not_less)
qed

lemma parse_u64_decimal:
  "parse_u64 ws 10 =
     (let n = digits_value 10 (map (\<lambda>w. unat w - 0x30) ws) 0 in
      if ws = [] \<or> \<not> list_all isNumber ws \<or> n \<ge> 2 ^ 64 then None else Some (of_nat n))"
proof (cases "list_all isNumber ws")
  case True
  then have m: "map (unat \<circ> parse_digit) ws = map (\<lambda>w. unat w - 0x30) ws"
    by (auto simp: list_all_iff parse_digit_value)
  from True show ?thesis
    using parse_u64_loop_value [of 10 ws 0, unfolded m]
    by (auto simp: parse_u64_def Let_def parse_digit_decimal not_le)
next
  case False
  then show ?thesis
    using parse_u64_loop_value [of 10 ws 0]
    by (auto simp: parse_u64_def Let_def parse_digit_decimal)
qed

subsection \<open>What the colours are\<close>

lemma scale_round_trip:
  assumes "i \<le> 100"
  shows "scale255To100 (unat (scale100To255 i)) = int i"
proof -
  have "(i * 255 + 50) div 100 < 256" using assms by (simp add: div_less_iff_less_mult)
  then have "unat (scale100To255 i) = (i * 255 + 50) div 100"
    by (simp add: scale100To255_def unat_of_nat_byte)
  moreover have "((i * 255 + 50) div 100 * 100 + 128) div 255 = i"
  proof (rule div_nat_eqI)
    let ?q = "(i * 255 + 50) div 100"
    have "?q * 100 \<le> i * 255 + 50" "i * 255 + 50 < ?q * 100 + 100"
      using div_times_less_eq_dividend [of "i * 255 + 50" 100]
        dividend_less_div_times [of 100 "i * 255 + 50"] by simp_all
    then show "255 * i \<le> ?q * 100 + 128" "?q * 100 + 128 < 255 * Suc i" by simp_all
  qed
  ultimately show ?thesis by (simp add: scale255To100_def)
qed

lemma RGB100_round_trip:
  assumes "0 \<le> r" "r \<le> 100" "0 \<le> g" "g \<le> 100" "0 \<le> b" "b \<le> 100"
  shows "ColorToRGB100 (ColorFromRGB100 r g b) = (r, g, b)"
proof -
  have "scale255To100 (unat (scale100To255 (min (unat (word_of_int x :: u32)) 100))) = x"
    if "0 \<le> x" "x \<le> 100" for x
  proof -
    have "unat (word_of_int x :: u32) = nat x"
      using that by (simp add: unsigned_of_int nat_take_bit_eq take_bit_nat_eq_self)
    with that scale_round_trip [of "nat x"] show ?thesis by simp
  qed
  with assms show ?thesis by (simp add: ColorToRGB100_def ColorFromRGB100_def Let_def)
qed

text \<open>The value of a run of hex digits, and the parsing of one component.\<close>

definition hex_string :: "wstring \<Rightarrow> bool" where
  "hex_string ds \<longleftrightarrow> list_all (\<lambda>d. HexToUint d \<noteq> None) ds"

definition hex_value :: "wstring \<Rightarrow> nat \<Rightarrow> nat" where
  "hex_value ds acc = digits_value 16 (map (the \<circ> HexToUint) ds) acc"

lemma hex_digit_not_slash: "HexToUint d \<noteq> None \<Longrightarrow> d \<noteq> 0x2F"
  by (auto simp: HexToUint_def)

lemma HexToUint_bound: "HexToUint d = Some v \<Longrightarrow> v < 16"
  by (auto simp: HexToUint_def word_le_nat_alt split: if_splits)

lemma hex_value_bound: "hex_string ds \<Longrightarrow> hex_value ds acc < (acc + 1) * 16 ^ length ds"
proof (induction ds arbitrary: acc)
  case Nil
  then show ?case by (simp add: hex_value_def)
next
  case (Cons d ds)
  then obtain v where v: "HexToUint d = Some v" "v < 16"
    by (auto simp: hex_string_def dest: HexToUint_bound)
  have "hex_value ds (acc * 16 + v) < (acc * 16 + v + 1) * 16 ^ length ds"
    using Cons by (simp add: hex_string_def)
  also have "\<dots> \<le> (acc * 16 + 16) * 16 ^ length ds" using v by (intro mult_le_mono1) simp
  finally show ?case using v by (simp add: hex_value_def algebra_simps)
qed

lemma color_digits_delimited:
  "hex_string ds \<Longrightarrow> ds \<noteq> [] \<Longrightarrow> i + length ds \<le> 4 \<Longrightarrow> component < 2 \<Longrightarrow>
   color_digits False component 4 i False v cnt (ds @ 0x2F # rest) =
     Some (True, hex_value ds v, i + length ds, rest)"
proof (induction ds arbitrary: i v cnt)
  case (Cons d ds)
  then obtain u where "HexToUint d = Some u" by (auto simp: hex_string_def)
  with Cons show ?case
    by (cases ds) (auto simp: hex_string_def hex_value_def hex_digit_not_slash)
qed simp

lemma color_digits_last:
  "hex_string ds \<Longrightarrow> ds \<noteq> [] \<Longrightarrow> i + length ds \<le> 4 \<Longrightarrow>
   color_digits False component 4 i False v cnt ds = Some (True, hex_value ds v, i + length ds, [])"
proof (induction ds arbitrary: i v cnt)
  case (Cons d ds)
  then obtain u where "HexToUint d = Some u" by (auto simp: hex_string_def)
  with Cons show ?case
    by (cases ds) (auto simp: hex_string_def hex_value_def hex_digit_not_slash)
qed simp

lemma color_digits_sharp:
  "hex_string ds \<Longrightarrow> found \<or> ds \<noteq> [] \<Longrightarrow> i + length ds = n \<Longrightarrow>
   color_digits True component n i found v n (ds @ rest) = Some (True, hex_value ds v, n, rest)"
proof (induction ds arbitrary: i v found)
  case Nil
  then show ?case by (cases rest) (auto simp: hex_value_def)
next
  case (Cons d ds)
  then obtain u where "HexToUint d = Some u" by (auto simp: hex_string_def)
  with Cons show ?case by (auto simp: hex_string_def hex_value_def)
qed

text \<open>The scaling keeps the eight most significant bits; the \<^verbatim>\<open>rgb:\<close> form repeats a single digit.\<close>

lemma scale_component_values:
  "scale_component False 1 v = v * 17" "scale_component False 2 v = v"
  "scale_component False 3 v = v div 16" "scale_component False 4 v = v div 256"
  "scale_component True 1 v = v * 16" "scale_component True 2 v = v"
  "scale_component True 3 v = v div 16" "scale_component True 4 v = v div 256"
proof -
  have d: "v * m div (m * k) = v div k" if "0 < m" for m k :: nat
    using that by (simp add: mult.commute)
  show "scale_component False 3 v = v div 16" using d [of 17 16] by (simp add: scale_component_def)
  show "scale_component False 4 v = v div 256" using d [of 17 256] by (simp add: scale_component_def)
  show "scale_component True 3 v = v div 16" using d [of 16 16] by (simp add: scale_component_def)
  show "scale_component True 4 v = v div 256" using d [of 16 256] by (simp add: scale_component_def)
qed (simp_all add: scale_component_def)

lemma parse_rgb_spec:
  assumes r: "hex_string r" "r \<noteq> []" "length r \<le> 4" and g: "hex_string g" "g \<noteq> []" "length g \<le> 4"
    and b: "hex_string b" "b \<noteq> []" "length b \<le> 4"
  shows "ColorFromXParseColorSpec (wstr ''rgb:'' @ r @ 0x2F # g @ 0x2F # b) =
    Some (LOBYTE (scale_component False (length r) (hex_value r 0)),
          LOBYTE (scale_component False (length g) (hex_value g 0)),
          LOBYTE (scale_component False (length b) (hex_value b 0)))"
proof -
  have ne: "length r \<ge> 1" "length g \<ge> 1" "length b \<ge> 1" using r(2) g(2) b(2) by (cases r; cases g; cases b; simp)+
  have "color_components False 3 0 0 (r @ 0x2F # g @ 0x2F # b) =
    Some ([scale_component False (length r) (hex_value r 0),
           scale_component False (length g) (hex_value g 0),
           scale_component False (length b) (hex_value b 0)], [])"
    using r g b
    by (simp add: numeral_3_eq_3 color_digits_delimited color_digits_last)
  moreover have "map lower_latin (wstr ''rgb:'') = wstr ''rgb:''" by (simp add: lower_latin_def)
  ultimately show ?thesis using ne r(3) g(3) b(3)
    by (simp add: ColorFromXParseColorSpec_def Let_def lower_latin_def)
qed

lemma parse_sharp_spec:
  assumes "hex_string r" "hex_string g" "hex_string b"
    and "length r = n" "length g = n" "length b = n" and "1 \<le> n" "n \<le> 4"
  shows "ColorFromXParseColorSpec (0x23 # r @ g @ b) =
    Some (LOBYTE (scale_component True n (hex_value r 0)),
          LOBYTE (scale_component True n (hex_value g 0)),
          LOBYTE (scale_component True n (hex_value b 0)))"
proof -
  have ne: "r \<noteq> []" "g \<noteq> []" "b \<noteq> []" using assms by auto
  have "color_components True 3 0 n (r @ g @ b) =
    Some ([scale_component True n (hex_value r 0), scale_component True n (hex_value g 0),
           scale_component True n (hex_value b 0)], [])"
    using assms ne color_digits_sharp [of b False 0 n 2 0 "[]"]
    by (simp add: numeral_3_eq_3 color_digits_sharp numeral_2_eq_2)
  moreover have "lower_latin 0x23 = 0x23" by (simp add: lower_latin_def)
  moreover have len: "length (0x23 # r @ g @ b) = 3 * n + 1" using assms by simp
  moreover have "3 * n + 1 = 4 \<or> 3 * n + 1 = 7 \<or> 3 * n + 1 = 10 \<or> 3 * n + 1 = 13"
    using assms(7,8) by presburger
  moreover have "3 * n + 1 > 1" "(3 * n + 1 - 1) div 3 = n" using assms(7) by simp_all
  ultimately show ?thesis
    unfolding ColorFromXParseColorSpec_def Let_def len by (simp del: length_Cons map_eq_Cons_conv)
qed

subsection \<open>Printed numbers\<close>

lemma digits_value_snoc: "digits_value b (ds @ [d]) acc = digits_value b ds acc * b + d"
  by (induction ds arbitrary: acc) auto

lemma decimal_digits:
  "list_all isNumber (decimal n) \<and> digits_value 10 (map (\<lambda>w. unat w - 0x30) (decimal n)) 0 = n"
proof (induction n rule: decimal.induct)
  case (1 n)
  have d: "isNumber (0x30 + of_nat k)" "unat (0x30 + of_nat k :: wchar) - 0x30 = k" if "k < 10" for k
  proof -
    have "unat (0x30 + of_nat k :: wchar) = 0x30 + k"
      using that by (simp add: unat_word_ariths unat_of_nat take_bit_nat_eq_self)
    with that show "isNumber (0x30 + of_nat k)" "unat (0x30 + of_nat k :: wchar) - 0x30 = k"
      by (simp_all add: isNumber_def word_le_nat_alt)
  qed
  show ?case
  proof (cases "n < 10")
    case True
    with d [OF True] show ?thesis by (simp add: decimal.simps)
  next
    case False
    with 1 d [of "n mod 10"] show ?thesis
      by (simp add: decimal.simps [of n] digits_value_snoc)
  qed
qed

lemma StringToUint_decimal: "StringToUint (decimal n) = Some (of_nat n)"
  using decimal_digits [of n] by (simp add: StringToUint_value)

lemma hex_string_no_delimiter: "hex_string ds \<Longrightarrow> 0x3B \<notin> set ds"
  by (auto simp: hex_string_def list_all_iff HexToUint_def dest!: bspec)

lemma decimal_not_delimiter: "0x3B \<notin> set (decimal n)"
  using decimal_digits [of n] by (auto simp: list_all_iff isNumber_def word_le_nat_alt)

subsection \<open>Properties\<close>

text \<open>Splitting a string at a delimiter loses nothing: the parts joined by the delimiter are the
  string again, and no part contains the delimiter.\<close>

theorem splitting_loses_nothing:
  "join_parts d (SplitString w d) = w \<and> list_all (\<lambda>p. d \<notin> set p) (SplitString w d)"
  using join_SplitString SplitString_parts by (auto simp: list_all_iff)

text \<open>Parts that do not contain the delimiter come back unchanged when they are joined and split
  again. The exceptions are no part at all and a single empty part, which have the same text.\<close>

theorem splitting_finds_parts:
  assumes "ps \<noteq> []" and "ps \<noteq> [[]]" and "list_all (\<lambda>p. d \<notin> set p) ps"
  shows "SplitString (join_parts d ps) d = ps"
  using assms by (intro SplitString_join) (simp_all add: list_all_iff)

theorem splitting_finds_parts_witness:
  "SplitString (join_parts 0x3B [wstr ''4'', [], wstr ''red'', []]) 0x3B = [wstr ''4'', [], wstr ''red'', []]"
  by (rule splitting_finds_parts) simp_all

text \<open>\<^verbatim>\<open>parse_u64\<close> reads back every decimal number that fits 64 bits, and rejects the ones that
  do not.\<close>

theorem parse_u64_reads_decimal:
  "parse_u64 (decimal n) 10 = (if n < 2 ^ 64 then Some (of_nat n) else None)"
  using decimal_digits [of n] by (simp add: parse_u64_decimal Let_def)

text \<open>\<^verbatim>\<open>StringToUint\<close> reads decimal numbers modulo 2 to the power 32: a larger number is not rejected but
  wraps around.\<close>

theorem StringToUint_wraps:
  "map_option unat (StringToUint (decimal n)) = Some (n mod 2 ^ 32)"
  by (simp add: StringToUint_decimal unat_of_nat take_bit_nat_def)

text \<open>C26: A colour specification \<^verbatim>\<open>#rgb\<close>, \<^verbatim>\<open>#rrggbb\<close>, \<^verbatim>\<open>#rrrgggbbb\<close> or \<^verbatim>\<open>#rrrrggggbbbb\<close> in hexadecimal digits
  is accepted, and each component is the one digit as the high half of the byte, the two digits
  themselves, or the top two of the three or four digits.\<close>

theorem sharp_color:
  assumes "hex_string r" "hex_string g" "hex_string b"
    and "length r = n" "length g = n" "length b = n" and "1 \<le> n" "n \<le> 4"
  shows "ColorFromXParseColorSpec (0x23 # r @ g @ b) =
    (let scale = (\<lambda>v. LOBYTE (if n = 1 then v * 16 else v div 16 ^ (n - 2)))
     in Some (scale (hex_value r 0), scale (hex_value g 0), scale (hex_value b 0)))"
proof -
  have "n = 1 \<or> n = 2 \<or> n = 3 \<or> n = 4" using assms(7,8) by linarith
  then have "scale_component True n v = (if n = 1 then v * 16 else v div 16 ^ (n - 2))" for v
    by (elim disjE) (simp_all add: scale_component_values [unfolded One_nat_def])
  with parse_sharp_spec [OF assms] show ?thesis by simp
qed

theorem sharp_color_witness:
  "ColorFromXParseColorSpec (0x23 # wstr ''fff'' @ wstr ''80a'' @ wstr ''000'') = Some (0xFF, 0x80, 0)"
proof -
  have "ColorFromXParseColorSpec (0x23 # wstr ''fff'' @ wstr ''80a'' @ wstr ''000'') =
    (let scale = (\<lambda>v. LOBYTE (if (3 :: nat) = 1 then v * 16 else v div 16 ^ (3 - 2)))
     in Some (scale (hex_value (wstr ''fff'') 0), scale (hex_value (wstr ''80a'') 0), scale (hex_value (wstr ''000'') 0)))"
    by (rule sharp_color) (simp_all add: hex_string_def HexToUint_def)
  then show ?thesis by (simp add: hex_value_def HexToUint_def LOBYTE_def)
qed

text \<open>Every percentage colour survives the conversion to bytes and back.\<close>

theorem percentage_colors_survive:
  assumes "0 \<le> r" "r \<le> 100" "0 \<le> g" "g \<le> 100" "0 \<le> b" "b \<le> 100"
  shows "ColorToRGB100 (ColorFromRGB100 r g b) = (r, g, b)"
  using assms by (rule RGB100_round_trip)

theorem percentage_colors_survive_witness:
  "ColorToRGB100 (ColorFromRGB100 0 33 100) = (0, 33, 100)"
  by (rule percentage_colors_survive) simp_all

end
