(* ===== verification/Base64.thy ===== *)
theory Base64
  imports Prelude
begin

text \<open>
  The Base64 decoder behind the clipboard sequence, \<^verbatim>\<open>src/src/terminal/parser/base64.cpp\<close>: the
  table, the batched loop over four characters, the tail with the padding, and the branch-free
  error flag. The conversion of the decoded UTF-8 to UTF-16 (\<^verbatim>\<open>til::u8u16\<close>, a wrapper of a
  Windows function) is a parameter. The lemmas say that the decoder never writes past its output
  buffer, and that it inverts the encoding of RFC 4648 in both alphabets, with and without padding.
\<close>

subsection \<open>The decoder\<close>

definition decodeTable :: "byte list" where
  "decodeTable =
     [
      255, 255, 255, 255, 255, 255, 255, 255, 255, 255, 255, 255, 255, 255, 255, 255,
      255, 255, 255, 255, 255, 255, 255, 255, 255, 255, 255, 255, 255, 255, 255, 255,
      255, 255, 255, 255, 255, 255, 255, 255, 255, 255, 255, 62, 255, 62, 255, 63,
      52, 53, 54, 55, 56, 57, 58, 59, 60, 61, 255, 255, 255, 255, 255, 255,
      255, 0, 1, 2, 3, 4, 5, 6, 7, 8, 9, 10, 11, 12, 13, 14,
      15, 16, 17, 18, 19, 20, 21, 22, 23, 24, 25, 255, 255, 255, 255, 63,
      255, 26, 27, 28, 29, 30, 31, 32, 33, 34, 35, 36, 37, 38, 39, 40,
      41, 42, 43, 44, 45, 46, 47, 48, 49, 50, 51, 255, 255, 255, 255, 255]"

text \<open>The state of the decoder: the remainder \<^verbatim>\<open>r\<close>, the error flag, and the bytes written.\<close>

record decoder =
  dec_r :: u32
  dec_error :: u32
  dec_out :: "byte list"

definition accumulate :: "wchar \<Rightarrow> decoder \<Rightarrow> decoder" where
  "accumulate ch d =
     (let n = decodeTable ! unat (ch AND 0x7f)
      in d\<lparr>dec_error := dec_error d OR ((ucast ch OR ucast n) AND 0xff80),
           dec_r := push_bit 6 (dec_r d) OR ucast n\<rparr>)"

definition put_byte :: "nat \<Rightarrow> decoder \<Rightarrow> decoder" where
  "put_byte shift d = d\<lparr>dec_out := dec_out d @ [ucast (drop_bit shift (dec_r d))]\<rparr>"

definition put3 :: "decoder \<Rightarrow> decoder" where
  "put3 d = put_byte 0 (put_byte 8 (put_byte 16 d))"

text \<open>The batched loop runs while more than \<open>keep\<close> characters are left.\<close>

fun decode_batched :: "nat \<Rightarrow> wstring \<Rightarrow> decoder \<Rightarrow> wstring \<times> decoder" where
  "decode_batched keep (ch0 # ch1 # ch2 # ch3 # rest) d =
     (if length (ch0 # ch1 # ch2 # ch3 # rest) > keep
      then decode_batched keep rest
             (put3 (accumulate ch3 (accumulate ch2 (accumulate ch1 (accumulate ch0 d)))))
      else (ch0 # ch1 # ch2 # ch3 # rest, d))"
| "decode_batched keep src d = (src, d)"

fun decode_tail :: "wstring \<Rightarrow> nat \<Rightarrow> decoder \<Rightarrow> nat \<times> decoder" where
  "decode_tail [] ri d = (ri, d)"
| "decode_tail (ch # rest) ri d =
     (if ch \<noteq> 0x3D then decode_tail rest (ri + 1) (accumulate ch d) else decode_tail rest ri d)"

definition decode_end :: "nat \<Rightarrow> decoder \<Rightarrow> decoder" where
  "decode_end ri d =
     (if ri = 2 then put_byte 4 d
      else if ri = 3 then put_byte 2 (put_byte 10 d)
      else if ri = 4 then put3 d
      else d\<lparr>dec_error := dec_error d OR of_nat ri\<rparr>)"

definition decode_all :: "wstring \<Rightarrow> decoder" where
  "decode_all src =
     (let (rest, d) = decode_batched (min 5 (length src)) src \<lparr>dec_r = 0, dec_error = 0, dec_out = []\<rparr>;
          (ri, d') = decode_tail rest 0 d
      in decode_end ri d')"

text \<open>\<open>None\<close> is the error \<^verbatim>\<open>ERROR_INVALID_DATA\<close>, or a failure of the conversion.\<close>

definition Decode :: "(byte list \<Rightarrow> wstring option) \<Rightarrow> wstring \<Rightarrow> wstring option" where
  "Decode u8u16 src =
     (let d = decode_all src in if dec_error d \<noteq> 0 then None else u8u16 (dec_out d))"

subsection \<open>The encoding of RFC 4648\<close>

definition alphabet :: "bool \<Rightarrow> wstring" where
  "alphabet url =
     wstr ''ABCDEFGHIJKLMNOPQRSTUVWXYZabcdefghijklmnopqrstuvwxyz0123456789'' @
     (if url then wstr ''-_'' else wstr ''+/'')"

definition sextet :: "bool \<Rightarrow> byte \<Rightarrow> wchar" where
  "sextet url n = alphabet url ! unat (n AND 0x3f)"

fun encode :: "bool \<Rightarrow> bool \<Rightarrow> byte list \<Rightarrow> wstring" where
  "encode url pad [] = []"
| "encode url pad [a] =
     [sextet url (drop_bit 2 a), sextet url (push_bit 4 a)] @ (if pad then [0x3D, 0x3D] else [])"
| "encode url pad [a, b] =
     [sextet url (drop_bit 2 a), sextet url (push_bit 4 a OR drop_bit 4 b), sextet url (push_bit 2 b)] @
     (if pad then [0x3D] else [])"
| "encode url pad (a # b # c # bs) =
     [sextet url (drop_bit 2 a), sextet url (push_bit 4 a OR drop_bit 4 b),
      sextet url (push_bit 2 b OR drop_bit 6 c), sextet url c] @ encode url pad bs"

subsection \<open>The output buffer\<close>

lemma out_accumulate [simp]: "dec_out (accumulate ch d) = dec_out d"
  by (simp add: accumulate_def Let_def)

lemma out_put_byte [simp]: "length (dec_out (put_byte n d)) = length (dec_out d) + 1"
  by (simp add: put_byte_def)

lemma out_put3 [simp]: "length (dec_out (put3 d)) = length (dec_out d) + 3"
  by (simp add: put3_def)

lemma decode_batched_out:
  "decode_batched keep src d = (rest, d') \<Longrightarrow>
   \<exists>k. length src = 4 * k + length rest \<and> length (dec_out d') = length (dec_out d) + 3 * k"
proof (induction keep src d rule: decode_batched.induct)
  case (1 keep ch0 ch1 ch2 ch3 src d)
  show ?case
  proof (cases "length (ch0 # ch1 # ch2 # ch3 # src) > keep")
    case True
    with 1 obtain k where "length src = 4 * k + length rest"
      "length (dec_out d') = length (dec_out d) + 3 + 3 * k" by fastforce
    then show ?thesis by (intro exI [of _ "Suc k"]) simp
  qed (use 1 in auto)
qed auto

lemma decode_tail_count:
  "decode_tail src ri d = (ri', d') \<Longrightarrow> ri \<le> ri' \<and> ri' \<le> ri + length src \<and> dec_out d' = dec_out d"
  by (induction src ri d rule: decode_tail.induct) (force split: if_splits)+

lemma decode_end_out:
  "length (dec_out (decode_end ri d)) \<le> length (dec_out d) + (if ri \<le> 1 then 0 else 3)"
  by (auto simp: decode_end_def)

lemma decode_buffer: "length (dec_out (decode_all src)) \<le> (length src + 3) div 4 * 3"
proof -
  obtain rest d where b: "decode_batched (min 5 (length src)) src \<lparr>dec_r = 0, dec_error = 0, dec_out = []\<rparr> = (rest, d)"
    by (metis surj_pair)
  obtain ri d' where t: "decode_tail rest 0 d = (ri, d')" by (metis surj_pair)
  from decode_batched_out [OF b] obtain k where k: "length src = 4 * k + length rest"
    "length (dec_out d) = 3 * k" by auto
  have "decode_all src = decode_end ri d'" by (simp add: decode_all_def b t)
  with k decode_end_out [of ri d'] decode_tail_count [OF t]
  have "length (dec_out (decode_all src)) \<le> 3 * k + (if length rest \<le> 1 then 0 else 3)"
    by (auto split: if_splits)
  also have "\<dots> \<le> (4 * k + length rest + 3) div 4 * 3"
  proof (cases "length rest \<le> 1")
    case False
    then have "(4 * k + length rest + 3) div 4 \<ge> (4 * (k + 1)) div 4" by (intro div_le_mono) simp
    with False show ?thesis by simp
  qed simp
  finally show ?thesis using k by simp
qed

subsection \<open>The alphabets\<close>

definition decodes :: "wchar \<Rightarrow> nat \<Rightarrow> bool" where
  "decodes ch i \<longleftrightarrow>
     decodeTable ! unat (ch AND 0x7f) = of_nat i \<and>
     (ucast ch OR ucast (decodeTable ! unat (ch AND 0x7f))) AND 0xff80 = (0 :: u32) \<and> ch \<noteq> 0x3D"

lemma alphabet_decodes_all:
  "list_all (\<lambda>i. decodes (alphabet url ! i) i) [0..<64]"
  by (cases url) (simp_all add: upt_rec decodes_def alphabet_def decodeTable_def)

lemma alphabet_decodes: "i < 64 \<Longrightarrow> decodes (alphabet url ! i) i"
  using alphabet_decodes_all [of url] by (simp add: list_all_iff)

lemma sextet_take_bit: "(n :: byte) AND 0x3f = take_bit 6 n"
  by (simp add: take_bit_eq_mask mask_eq_exp_minus_1)

lemma sextet_less: "unat (n AND 0x3f :: byte) < 64"
  unfolding sextet_take_bit unsigned_take_bit_eq by (simp add: take_bit_nat_def)

lemma sextet_decodes:
  "decodeTable ! unat (sextet url n AND 0x7f) = take_bit 6 n"
  "(ucast (sextet url n) OR ucast (take_bit 6 n)) AND 0xff80 = (0 :: u32)"
  "sextet url n \<noteq> 0x3D"
  using alphabet_decodes [OF sextet_less, of url n]
  by (auto simp: sextet_def decodes_def sextet_take_bit)

lemma accumulate_sextet:
  "accumulate (sextet url n) d = d\<lparr>dec_r := push_bit 6 (dec_r d) OR ucast (take_bit 6 n)\<rparr>"
  by (simp add: accumulate_def Let_def sextet_decodes)

subsection \<open>Putting the bytes back together\<close>

abbreviation shift_in :: "u32 \<Rightarrow> byte \<Rightarrow> u32" where
  "shift_in r n \<equiv> push_bit 6 r OR ucast (take_bit 6 n)"

lemma bits_byte:
  assumes "bit (x :: byte) 0 = bit y 0" "bit x 1 = bit y 1" "bit x 2 = bit y 2" "bit x 3 = bit y 3"
    "bit x 4 = bit y 4" "bit x 5 = bit y 5" "bit x 6 = bit y 6" "bit x 7 = bit y 7"
  shows "x = y"
proof (rule bit_word_eqI)
  fix n :: nat assume "n < LENGTH(8)"
  then consider "n = 0" | "n = 1" | "n = 2" | "n = 3" | "n = 4" | "n = 5" | "n = 6" | "n = 7"
    by fastforce
  then show "bit x n = bit y n" by cases (use assms in simp_all)
qed

lemma byte_bit_high [simp]: "8 \<le> n \<Longrightarrow> \<not> bit (b :: byte) n"
  using bit_imp_le_length [of b n] by auto

lemma group_bytes:
  fixes a b c :: byte and r :: u32
  defines "r4 \<equiv> shift_in (shift_in (shift_in (shift_in r (drop_bit 2 a)) (push_bit 4 a OR drop_bit 4 b))
      (push_bit 2 b OR drop_bit 6 c)) c"
  shows "ucast (drop_bit 16 r4) = a" "ucast (drop_bit 8 r4) = b" "ucast (drop_bit 0 r4) = c"
  unfolding r4_def by (rule bits_byte; simp add: bit_simps)+

lemma pair_bytes:
  fixes a b :: byte and r :: u32
  defines "r3 \<equiv> shift_in (shift_in (shift_in r (drop_bit 2 a)) (push_bit 4 a OR drop_bit 4 b))
      (push_bit 2 b)"
  shows "ucast (drop_bit 10 r3) = a" "ucast (drop_bit 2 r3) = b"
  unfolding r3_def by (rule bits_byte; simp add: bit_simps)+

lemma single_byte:
  "ucast (drop_bit 4 (shift_in (shift_in r (drop_bit 2 a)) (push_bit 4 a))) = (a :: byte)"
  by (rule bits_byte; simp add: bit_simps)

subsection \<open>The decoder inverts the encoding\<close>

lemma decode_group:
  "put3 (accumulate (sextet url c) (accumulate (sextet url (push_bit 2 b OR drop_bit 6 c))
     (accumulate (sextet url (push_bit 4 a OR drop_bit 4 b)) (accumulate (sextet url (drop_bit 2 a)) d)))) =
   d\<lparr>dec_r := shift_in (shift_in (shift_in (shift_in (dec_r d) (drop_bit 2 a)) (push_bit 4 a OR drop_bit 4 b))
        (push_bit 2 b OR drop_bit 6 c)) c,
     dec_out := dec_out d @ [a, b, c]\<rparr>"
  using group_bytes [of "dec_r d" a b c] by (simp add: accumulate_sextet put3_def put_byte_def)

lemma encode_length: "bs \<noteq> [] \<Longrightarrow> length (encode url pad bs) \<ge> 2"
  by (induction url pad bs rule: encode.induct) auto

text \<open>What the batched loop leaves are the characters of the last one to three bytes.\<close>

lemma batched_encode:
  "\<exists>r pre rem. bs = pre @ rem \<and> length rem \<le> 3 \<and>
     decode_batched 5 (encode url pad bs) d =
       (encode url pad rem, d\<lparr>dec_r := r, dec_out := dec_out d @ pre\<rparr>)"
proof (induction url pad bs arbitrary: d rule: encode.induct)
  case (1 url pad)
  then show ?case by (intro exI [of _ "dec_r d"] exI [of _ "[]"]) simp
next
  case (2 url pad a)
  then show ?case by (intro exI [of _ "dec_r d"] exI [of _ "[]"] exI [of _ "[a]"]) simp
next
  case (3 url pad a b)
  then show ?case by (intro exI [of _ "dec_r d"] exI [of _ "[]"] exI [of _ "[a, b]"]) simp
next
  case (4 url pad a b c bs)
  let ?e = "encode url pad (a # b # c # bs)"
  show ?case
  proof (cases "bs = []")
    case True
    then show ?thesis
      by (intro exI [of _ "dec_r d"] exI [of _ "[]"] exI [of _ "[a, b, c]"]) simp
  next
    case False
    let ?d = "d\<lparr>dec_r := shift_in (shift_in (shift_in (shift_in (dec_r d) (drop_bit 2 a))
        (push_bit 4 a OR drop_bit 4 b)) (push_bit 2 b OR drop_bit 6 c)) c,
      dec_out := dec_out d @ [a, b, c]\<rparr>"
    have "decode_batched 5 ?e d = decode_batched 5 (encode url pad bs) ?d"
      using encode_length [OF False, of url pad] by (simp add: decode_group)
    moreover obtain r pre rem where "bs = pre @ rem" "length rem \<le> 3"
      "decode_batched 5 (encode url pad bs) ?d =
         (encode url pad rem, ?d\<lparr>dec_r := r, dec_out := dec_out ?d @ pre\<rparr>)"
      using 4 by blast
    ultimately show ?thesis
      by (intro exI [of _ r] exI [of _ "[a, b, c] @ pre"] exI [of _ rem]) simp
  qed
qed

lemma tail_encode:
  assumes "length rem \<le> 3"
  shows "\<exists>r. (case decode_tail (encode url pad rem) 0 d of (ri, d') \<Rightarrow> decode_end ri d') =
    d\<lparr>dec_r := r, dec_out := dec_out d @ rem\<rparr>"
proof -
  consider "rem = []" | a where "rem = [a]" | a b where "rem = [a, b]" | a b c where "rem = [a, b, c]"
    using assms by (cases rem rule: remdups_adj.cases) (auto simp: le_Suc_eq length_Suc_conv)
  then show ?thesis
  proof cases
    case 1
    then show ?thesis by (intro exI [of _ "dec_r d"]) (simp add: decode_end_def)
  next
    case (2 a)
    then show ?thesis using single_byte [of "dec_r d" a]
      by (auto simp: sextet_decodes accumulate_sextet decode_end_def put_byte_def)
  next
    case (3 a b)
    then show ?thesis using pair_bytes [of "dec_r d" a b]
      by (auto simp: sextet_decodes accumulate_sextet decode_end_def put_byte_def)
  next
    case (4 a b c)
    then show ?thesis
      by (simp add: sextet_decodes decode_end_def decode_group) blast
  qed
qed

lemma decode_batched_keep: "decode_batched (min 5 (length src)) src d = decode_batched 5 src d"
proof (cases "length src \<ge> 5")
  case True
  then show ?thesis by (simp add: min_def)
next
  case False
  then show ?thesis by (cases "(length src, src, d)" rule: decode_batched.cases) auto
qed

lemma decode_encode: "dec_error (decode_all (encode url pad bs)) = 0 \<and> dec_out (decode_all (encode url pad bs)) = bs"
proof -
  let ?d = "\<lparr>dec_r = 0, dec_error = 0, dec_out = []\<rparr>"
  obtain r pre rem where b: "bs = pre @ rem" "length rem \<le> 3"
    "decode_batched 5 (encode url pad bs) ?d = (encode url pad rem, ?d\<lparr>dec_r := r, dec_out := dec_out ?d @ pre\<rparr>)"
    using batched_encode by blast
  with tail_encode [OF b(2), of url pad "?d\<lparr>dec_r := r, dec_out := dec_out ?d @ pre\<rparr>"]
  show ?thesis by (auto simp: decode_all_def decode_batched_keep)
qed

subsection \<open>Properties\<close>

text \<open>C17: Decoding inverts the encoding of RFC 4648, for every byte string, in the standard and in the
  URL alphabet, with and without padding: what is left is the conversion of the bytes to UTF-16.\<close>

theorem base64_round_trip:
  "Decode u8u16 (encode url pad bs) = u8u16 bs"
  using decode_encode [of url pad bs] by (simp add: Decode_def Let_def)

text \<open>C18: The decoder never writes past its output buffer of \<^verbatim>\<open>((src.size() + 3) / 4) * 3\<close> bytes, for any
  input, valid or not.\<close>

theorem base64_buffer_bound:
  "length (dec_out (decode_all src)) \<le> (length src + 3) div 4 * 3"
  by (rule decode_buffer)

text \<open>Trailing padding is ignored only as long as the characters stay in the tail of the decoder:
  one excess \<^verbatim>\<open>=\<close> is accepted, but two make the batched loop read a padding character as data, and
  the string is rejected.\<close>

theorem base64_excess_padding:
  "Decode u8u16 (wstr ''YQ==='') = u8u16 [0x61] \<and> Decode u8u16 (wstr ''YQ===='') = None"
  by (simp add: Decode_def decode_all_def decodeTable_def accumulate_def decode_end_def put_byte_def put3_def Let_def)

end
