(* ===== verification/OutputEngine.thy ===== *)
theory OutputEngine
  imports ITermDispatch Utils Base64
begin

text \<open>
  The output engine, \<^verbatim>\<open>src/src/terminal/parser/OutputStateMachineEngine.cpp\<close>: what the terminal is
  told to do for each sequence the parser recognises. Each \<^verbatim>\<open>switch\<close> over sequence identifiers is
  a table from the identifier to the calls made. The table of colour names and the conversion of
  UTF-8 to UTF-16 are parameters.
\<close>

subsection \<open>The engine\<close>

record 'd output_engine =
  oe_dispatch :: 'd
  oe_lastPrintedChar :: wchar

definition OutputStateMachineEngine_init :: "'d \<Rightarrow> 'd output_engine" where
  "OutputStateMachineEngine_init dispatch = \<lparr>oe_dispatch = dispatch, oe_lastPrintedChar = NUL\<rparr>"

definition ClearLastChar :: "'d output_engine \<Rightarrow> 'd output_engine" where
  "ClearLastChar e = e\<lparr>oe_lastPrintedChar := NUL\<rparr>"

text \<open>Make calls, and then clear the last character, as most actions end.\<close>

definition dispatch_and_clear ::
  "('d, 'h, 'c) dispatch_ops \<Rightarrow> dispatch_call list \<Rightarrow> ('d output_engine, 'c, outcome) engine_call" where
  "dispatch_and_clear D calls e =
     (case run_calls D calls (oe_dispatch e) of
        (d, rs, returned) \<Rightarrow>
          (if returned then (ClearLastChar (e\<lparr>oe_dispatch := d\<rparr>), rs, Handled)
           else (e\<lparr>oe_dispatch := d\<rparr>, rs, Threw)))"

definition print_and_keep ::
  "('d, 'h, 'c) dispatch_ops \<Rightarrow> wchar \<Rightarrow> dispatch_call \<Rightarrow> ('d output_engine, 'c, outcome) engine_call" where
  "print_and_keep D wch x e =
     (let e1 = (if wch \<ge> SPC then e\<lparr>oe_lastPrintedChar := wch\<rparr> else e)
      in case disp_call D x (oe_dispatch e1) of
           (d, rs, returned) \<Rightarrow> (e1\<lparr>oe_dispatch := d\<rparr>, rs, if returned then Handled else Threw))"

definition OutputEngine_UnknownSequence ::
  "('d, 'h, 'c) dispatch_ops \<Rightarrow> ('d output_engine, 'c, unit) engine_call" where
  "OutputEngine_UnknownSequence D e =
     (case disp_call D UnknownSequence (oe_dispatch e) of (d, rs, _) \<Rightarrow> (e\<lparr>oe_dispatch := d\<rparr>, rs, ()))"

subsection \<open>Control characters and text\<close>

definition execute_calls :: "wchar \<Rightarrow> dispatch_call list" where
  "execute_calls wch =
     (if wch = ENQ then [Control EnquireAnswerback]
      else if wch = BEL then [Control WarningBell]
      else if wch = BS then [Cursor (CursorBackward 1)]
      else if wch = TAB then [Control (ForwardTab 1)]
      else if wch = CR then [Control CarriageReturn]
      else if wch = LF \<or> wch = FF \<or> wch = VT then [Control (LineFeed DependsOnMode)]
      else if wch = SI then [Charset (LockingShift 0)]
      else if wch = SO then [Charset (LockingShift 1)]
      else if wch = SUB then [Print 0x2426]
      else if wch = DEL then [Print wch]
      else [])"

definition OutputEngine_ActionExecute ::
  "('d, 'h, 'c) dispatch_ops \<Rightarrow> wchar \<Rightarrow> ('d output_engine, 'c, outcome) engine_call" where
  "OutputEngine_ActionExecute D wch = dispatch_and_clear D (execute_calls wch)"

definition OutputEngine_ActionExecuteFromEscape ::
  "('d, 'h, 'c) dispatch_ops \<Rightarrow> wchar \<Rightarrow> ('d output_engine, 'c, outcome) engine_call" where
  "OutputEngine_ActionExecuteFromEscape D wch = OutputEngine_ActionExecute D wch"

definition OutputEngine_ActionPrint ::
  "('d, 'h, 'c) dispatch_ops \<Rightarrow> wchar \<Rightarrow> ('d output_engine, 'c, outcome) engine_call" where
  "OutputEngine_ActionPrint D wch = print_and_keep D wch (Print wch)"

definition OutputEngine_ActionPrintString ::
  "('d, 'h, 'c) dispatch_ops \<Rightarrow> wstring \<Rightarrow> ('d output_engine, 'c, outcome) engine_call" where
  "OutputEngine_ActionPrintString D string e =
     (if string = [] then (e, [], Handled)
      else print_and_keep D (last string) (PrintString string) e)"

definition OutputEngine_ActionPassThroughString ::
  "wstring \<Rightarrow> ('d output_engine, 'c, outcome) engine_call" where
  "OutputEngine_ActionPassThroughString string e = (e, [], Handled)"

subsection \<open>Escape sequences\<close>

text \<open>A \<^verbatim>\<open>switch\<close> over identifiers: the entry whose identifier is the one given.\<close>

definition id_case :: "(string \<times> 'a) list \<Rightarrow> VTID \<Rightarrow> 'a option" where
  "id_case table vtid = map_of (map (\<lambda>(k, x). (VTID k, x)) table) vtid"

definition EscActionCodes :: "(string \<times> dispatch_call list) list" where
  "EscActionCodes =
    [([CHR 0x5C], []),
     (''6'', [Control BackIndex]),
     (''7'', [Cursor CursorSaveState]),
     (''8'', [Cursor CursorRestoreState]),
     (''9'', [Control ForwardIndex]),
     (''='', [Modes (SetKeypadMode True)]),
     (''>'', [Modes (SetKeypadMode False)]),
     (''E'', [Control (LineFeed WithReturn)]),
     (''D'', [Control (LineFeed WithoutReturn)]),
     (''M'', [Control ReverseLineFeed]),
     (''H'', [Control HorizontalTabSet]),
     (''Z'', [Report DeviceAttributes]),
     (''c'', [Modes (HardReset True)]),
     (''N'', [Charset (SingleShift 2)]),
     (''O'', [Charset (SingleShift 3)]),
     (''n'', [Charset (LockingShift 2)]),
     (''o'', [Charset (LockingShift 3)]),
     (''~'', [Charset (LockingShiftRight 1)]),
     (''}'', [Charset (LockingShiftRight 2)]),
     (''|'', [Charset (LockingShiftRight 3)]),
     ('' 7'', [Modes (AcceptC1Controls True)]),
     ('' F'', [Modes (SendC1Controls False)]),
     ('' G'', [Modes (SendC1Controls True)]),
     ('' L'', [Modes (AnnounceCodeStructure 1)]),
     ('' M'', [Modes (AnnounceCodeStructure 2)]),
     ('' N'', [Modes (AnnounceCodeStructure 3)]),
     (''#3'', [Render (SetLineRendition DoubleHeightTop)]),
     (''#4'', [Render (SetLineRendition DoubleHeightBottom)]),
     (''#5'', [Render (SetLineRendition SingleWidth)]),
     (''#6'', [Render (SetLineRendition DoubleWidth)]),
     (''#8'', [Modes ScreenAlignmentPattern])]"

text \<open>The default case looks at the first character of the identifier.\<close>

definition esc_default :: "VTID \<Rightarrow> dispatch_call list" where
  "esc_default vtid =
     (let commandChar = VTID_at vtid 0; commandParameter = VTID_SubSequence vtid 1
      in if commandChar = 0x25 then [Charset (DesignateCodingSystem commandParameter)]
         else if commandChar = 0x28 then [Charset (Designate94Charset 0 commandParameter)]
         else if commandChar = 0x29 then [Charset (Designate94Charset 1 commandParameter)]
         else if commandChar = 0x2A then [Charset (Designate94Charset 2 commandParameter)]
         else if commandChar = 0x2B then [Charset (Designate94Charset 3 commandParameter)]
         else if commandChar = 0x2D then [Charset (Designate96Charset 1 commandParameter)]
         else if commandChar = 0x2E then [Charset (Designate96Charset 2 commandParameter)]
         else if commandChar = 0x2F then [Charset (Designate96Charset 3 commandParameter)]
         else [])"

definition esc_calls :: "VTID \<Rightarrow> dispatch_call list" where
  "esc_calls vtid = (case id_case EscActionCodes vtid of Some xs \<Rightarrow> xs | None \<Rightarrow> esc_default vtid)"

definition OutputEngine_ActionEscDispatch ::
  "('d, 'h, 'c) dispatch_ops \<Rightarrow> VTID \<Rightarrow> ('d output_engine, 'c, outcome) engine_call" where
  "OutputEngine_ActionEscDispatch D vtid = dispatch_and_clear D (esc_calls vtid)"

subsection \<open>VT52 sequences\<close>

text \<open>The numeric and the selective conversion of a parameter, and the flagged enumerations.\<close>

definition num_param :: "VTParameters \<Rightarrow> nat \<Rightarrow> VTInt" where
  "num_param p i = to_VTInt (param_at p i)"

definition enum_param :: "VTParameters \<Rightarrow> nat \<Rightarrow> VTInt" where
  "enum_param p i = to_enum (param_at p i)"

definition FlaggedEnumValue :: "VTInt \<Rightarrow> VTInt \<Rightarrow> VTInt" where
  "FlaggedEnumValue flag v = v OR flag"

abbreviation ANSIStandardMode :: "VTInt \<Rightarrow> VTInt" where "ANSIStandardMode \<equiv> FlaggedEnumValue 0x00000000"
abbreviation DECPrivateMode :: "VTInt \<Rightarrow> VTInt" where "DECPrivateMode \<equiv> FlaggedEnumValue 0x01000000"
abbreviation ANSIStandardStatus :: "VTInt \<Rightarrow> VTInt" where "ANSIStandardStatus \<equiv> FlaggedEnumValue 0x00000000"
abbreviation DECPrivateStatus :: "VTInt \<Rightarrow> VTInt" where "DECPrivateStatus \<equiv> FlaggedEnumValue 0x01000000"

definition DECANM_AnsiMode :: VTInt where
  "DECANM_AnsiMode = DECPrivateMode 2"

definition EraseType_ToEnd :: VTInt where
  "EraseType_ToEnd = 0"

definition DecSpecialGraphics_charset :: VTID where
  "DecSpecialGraphics_charset = VTID ''0''"

definition ASCII_charset :: VTID where
  "ASCII_charset = VTID ''B''"

definition Vt52ActionCodes :: "(string \<times> (VTParameters \<Rightarrow> dispatch_call list)) list" where
  "Vt52ActionCodes =
    [(''A'', \<lambda>p. [Cursor (CursorUp 1)]),
     (''B'', \<lambda>p. [Cursor (CursorDown 1)]),
     (''C'', \<lambda>p. [Cursor (CursorForward 1)]),
     (''D'', \<lambda>p. [Cursor (CursorBackward 1)]),
     (''F'', \<lambda>p. [Charset (Designate94Charset 0 DecSpecialGraphics_charset)]),
     (''G'', \<lambda>p. [Charset (Designate94Charset 0 ASCII_charset)]),
     (''H'', \<lambda>p. [Cursor (CursorPosition 1 1)]),
     (''I'', \<lambda>p. [Control ReverseLineFeed]),
     (''J'', \<lambda>p. [Edit (EraseInDisplay EraseType_ToEnd)]),
     (''K'', \<lambda>p. [Edit (EraseInLine EraseType_ToEnd)]),
     (''Y'', \<lambda>p. [Cursor (CursorPosition (raw_value (param_at p 0) - 0x20 + 1) (raw_value
        (param_at p 1) - 0x20 + 1))]),
     (''Z'', \<lambda>p. [Report Vt52DeviceAttributes]),
     (''='', \<lambda>p. [Modes (SetKeypadMode True)]),
     (''>'', \<lambda>p. [Modes (SetKeypadMode False)]),
     (''<'', \<lambda>p. [Modes (SetMode DECANM_AnsiMode)])]"

definition vt52_calls :: "VTID \<Rightarrow> VTParameters \<Rightarrow> dispatch_call list" where
  "vt52_calls vtid p = (case id_case Vt52ActionCodes vtid of Some f \<Rightarrow> f p | None \<Rightarrow> [])"

definition OutputEngine_ActionVt52EscDispatch ::
  "('d, 'h, 'c) dispatch_ops \<Rightarrow> VTID \<Rightarrow> VTParameters \<Rightarrow> ('d output_engine, 'c, outcome) engine_call" where
  "OutputEngine_ActionVt52EscDispatch D vtid p = dispatch_and_clear D (vt52_calls vtid p)"

subsection \<open>Control sequences\<close>

definition CanSeqAcceptSubParam :: "VTID \<Rightarrow> VTParameters \<Rightarrow> bool" where
  "CanSeqAcceptSubParam vtid p =
     (if vtid = VTID ''m'' then True
      else if vtid = VTID ''$r'' \<or> vtid = VTID ''$t''
      then \<not> hasSubParamsFor p 0 \<and> \<not> hasSubParamsFor p 1 \<and> \<not> hasSubParamsFor p 2 \<and> \<not> hasSubParamsFor p 3
      else False)"

text \<open>The cases of the switch in the order of the source, up to the device reports, and from
  scrolling on.\<close>

definition CsiActionCodes_cursor :: "(string \<times> (VTParameters \<Rightarrow> wchar \<Rightarrow> dispatch_call list)) list" where
  "CsiActionCodes_cursor =
    [(''A'', \<lambda>p c. [Cursor (CursorUp (num_param p 0))]),
     (''B'', \<lambda>p c. [Cursor (CursorDown (num_param p 0))]),
     (''C'', \<lambda>p c. [Cursor (CursorForward (num_param p 0))]),
     (''D'', \<lambda>p c. [Cursor (CursorBackward (num_param p 0))]),
     (''E'', \<lambda>p c. [Cursor (CursorNextLine (num_param p 0))]),
     (''F'', \<lambda>p c. [Cursor (CursorPrevLine (num_param p 0))]),
     (''G'', \<lambda>p c. [Cursor (CursorHorizontalPositionAbsolute (num_param p 0))]),
     ([CHR 0x60], \<lambda>p c. [Cursor (CursorHorizontalPositionAbsolute (num_param p 0))]),
     (''d'', \<lambda>p c. [Cursor (VerticalLinePositionAbsolute (num_param p 0))]),
     (''a'', \<lambda>p c. [Cursor (HorizontalPositionRelative (num_param p 0))]),
     (''e'', \<lambda>p c. [Cursor (VerticalPositionRelative (num_param p 0))]),
     (''H'', \<lambda>p c. [Cursor (CursorPosition (num_param p 0) (num_param p 1))]),
     (''f'', \<lambda>p c. [Cursor (CursorPosition (num_param p 0) (num_param p 1))]),
     (''r'', \<lambda>p c. [Modes (SetTopBottomScrollingMargins (value_or (param_at p 0) 0)
        (value_or (param_at p 1) 0))]),
     (''s'', \<lambda>p c. [Modes (SetLeftRightScrollingMargins (value_or (param_at p 0) 0)
        (value_or (param_at p 1) 0))]),
     (''@'', \<lambda>p c. [Edit (InsertCharacter (num_param p 0))]),
     (''P'', \<lambda>p c. [Edit (DeleteCharacter (num_param p 0))]),
     (''J'', \<lambda>p c. map (\<lambda>eraseType. Edit (EraseInDisplay (to_enum eraseType)))
        (for_each_params p)),
     (''?J'', \<lambda>p c. map (\<lambda>eraseType. Edit (SelectiveEraseInDisplay (to_enum
        eraseType))) (for_each_params p)),
     (''K'', \<lambda>p c. map (\<lambda>eraseType. Edit (EraseInLine (to_enum eraseType)))
        (for_each_params p)),
     (''?K'', \<lambda>p c. map (\<lambda>eraseType. Edit (SelectiveEraseInLine (to_enum
        eraseType))) (for_each_params p)),
     (''h'', \<lambda>p c. map (\<lambda>mode. Modes (SetMode (ANSIStandardMode (to_VTInt
        mode)))) (for_each_params p)),
     (''?h'', \<lambda>p c. map (\<lambda>mode. Modes (SetMode (DECPrivateMode (to_VTInt mode))))
        (for_each_params p)),
     (''l'', \<lambda>p c. map (\<lambda>mode. Modes (ResetMode (ANSIStandardMode (to_VTInt
        mode)))) (for_each_params p)),
     (''?l'', \<lambda>p c. map (\<lambda>mode. Modes (ResetMode (DECPrivateMode (to_VTInt
        mode)))) (for_each_params p)),
     (''m'', \<lambda>p c. [Render (SetGraphicsRendition p)]),
     (''n'', \<lambda>p c. [Report (DeviceStatusReport (ANSIStandardStatus (num_param p 0))
        (param_at p 1))]),
     (''?n'', \<lambda>p c. [Report (DeviceStatusReport (DECPrivateStatus (num_param p 0))
        (param_at p 1))]),
     (''c'', \<lambda>p c. if value_or (param_at p 0) 0 = 0 then [Report DeviceAttributes] else
        []),
     (''>c'', \<lambda>p c. if value_or (param_at p 0) 0 = 0 then [Report
        SecondaryDeviceAttributes] else []),
     (''=c'', \<lambda>p c. if value_or (param_at p 0) 0 = 0 then [Report
        TertiaryDeviceAttributes] else []),
     (''x'', \<lambda>p c. [Report (RequestTerminalParameters (enum_param p 0))])]"

definition CsiActionCodes_scroll :: "(string \<times> (VTParameters \<Rightarrow> wchar \<Rightarrow> dispatch_call list)) list" where
  "CsiActionCodes_scroll =
    [(''S'', \<lambda>p c. [Edit (ScrollUp (num_param p 0))]),
     (''T'', \<lambda>p c. [Edit (ScrollDown (num_param p 0))]),
     (''U'', \<lambda>p c. [Cursor (NextPage (num_param p 0))]),
     (''V'', \<lambda>p c. [Cursor (PrecedingPage (num_param p 0))]),
     (''u'', \<lambda>p c. [Cursor CursorRestoreState]),
     (''L'', \<lambda>p c. [Edit (InsertLine (num_param p 0))]),
     (''M'', \<lambda>p c. [Edit (DeleteLine (num_param p 0))]),
     (''I'', \<lambda>p c. [Control (ForwardTab (num_param p 0))]),
     (''Z'', \<lambda>p c. [Control (BackwardsTab (num_param p 0))]),
     (''g'', \<lambda>p c. map (\<lambda>clearType. Control (TabClear (to_enum clearType)))
        (for_each_params p)),
     (''?W'', \<lambda>p c. map (\<lambda>setType. Control (TabSet setType)) (for_each_params p)),
     (''X'', \<lambda>p c. [Edit (EraseCharacters (num_param p 0))]),
     (''t'', \<lambda>p c. [Report (WindowManipulation (enum_param p 0) (param_at p 1) (param_at
        p 2))]),
     (''b'', \<lambda>p c. if c \<noteq> NUL then [PrintString (replicate (nat (num_param p 0))
        c)] else []),
     ('' P'', \<lambda>p c. [Cursor (PagePositionAbsolute (num_param p 0))]),
     ('' Q'', \<lambda>p c. [Cursor (PagePositionRelative (num_param p 0))]),
     ('' R'', \<lambda>p c. [Cursor (PagePositionBack (num_param p 0))]),
     ('' q'', \<lambda>p c. [Modes (SetCursorStyle (enum_param p 0))]),
     (''!p'', \<lambda>p c. [Modes SoftReset]),
     ([CHR 0x22, CHR ''q''], \<lambda>p c. [Render (SetCharacterProtectionAttribute p)]),
     ([CHR 0x22, CHR ''v''], \<lambda>p c. [Report RequestDisplayedExtent]),
     (''#{'', \<lambda>p c. [Render (PushGraphicsRendition p)]),
     (''#p'', \<lambda>p c. [Render (PushGraphicsRendition p)]),
     (''#}'', \<lambda>p c. [Render PopGraphicsRendition]),
     (''#q'', \<lambda>p c. [Render PopGraphicsRendition]),
     (''$p'', \<lambda>p c. [Modes (RequestMode (ANSIStandardMode (num_param p 0)))]),
     (''?$p'', \<lambda>p c. [Modes (RequestMode (DECPrivateMode (num_param p 0)))]),
     (''$r'', \<lambda>p c. [Edit (ChangeAttributesRectangularArea (num_param p 0) (num_param p
        1) (value_or (param_at p 2) 0) (value_or (param_at p 3) 0) (params_subspan p 4))]),
     (''$t'', \<lambda>p c. [Edit (ReverseAttributesRectangularArea (num_param p 0) (num_param p
        1) (value_or (param_at p 2) 0) (value_or (param_at p 3) 0) (params_subspan p 4))]),
     (''$v'', \<lambda>p c. [Edit (CopyRectangularArea (num_param p 0) (num_param p 1) (value_or
        (param_at p 2) 0) (value_or (param_at p 3) 0) (num_param p 4) (num_param p 5) (num_param
        p 6) (num_param p 7))]),
     (''$u'', \<lambda>p c. [Report (RequestTerminalStateReport (enum_param p 0) (param_at p
        1))]),
     (''$w'', \<lambda>p c. [Report (RequestPresentationStateReport (enum_param p 0))]),
     (''$x'', \<lambda>p c. [Edit (FillRectangularArea (param_at p 0) (num_param p 1) (num_param
        p 2) (value_or (param_at p 3) 0) (value_or (param_at p 4) 0))]),
     (''$z'', \<lambda>p c. [Edit (EraseRectangularArea (num_param p 0) (num_param p 1) (value_or
        (param_at p 2) 0) (value_or (param_at p 3) 0))]),
     (''${'', \<lambda>p c. [Edit (SelectiveEraseRectangularArea (num_param p 0) (num_param p 1)
        (value_or (param_at p 2) 0) (value_or (param_at p 3) 0))]),
     (''&u'', \<lambda>p c. [Report RequestUserPreferenceCharset]),
     ([CHR 0x27, CHR ''}''], \<lambda>p c. [Edit (InsertColumn (num_param p 0))]),
     ([CHR 0x27, CHR ''~''], \<lambda>p c. [Edit (DeleteColumn (num_param p 0))]),
     (''*x'', \<lambda>p c. [Edit (SelectAttributeChangeExtent (enum_param p 0))]),
     (''*y'', \<lambda>p c. [Report (RequestChecksumRectangularArea (value_or (param_at p 0) 0)
        (value_or (param_at p 1) 0) (num_param p 2) (num_param p 3) (value_or (param_at p 4) 0)
        (value_or (param_at p 5) 0))]),
     (''*z'', \<lambda>p c. [Report (InvokeMacro (value_or (param_at p 0) 0))]),
     ('',|'', \<lambda>p c. [Render (AssignColor (enum_param p 0) (value_or (param_at p 1) 0)
        (value_or (param_at p 2) 0))]),
     ('',~'', \<lambda>p c. [Report (PlaySounds p)]),
     (''=u'', \<lambda>p c. [Modes (SetKittyKeyboardProtocol (param_at p 0) (param_at p 1))]),
     (''?u'', \<lambda>p c. [Modes QueryKittyKeyboardProtocol]),
     (''>u'', \<lambda>p c. [Modes (PushKittyKeyboardProtocol (param_at p 0))]),
     (''<u'', \<lambda>p c. [Modes (PopKittyKeyboardProtocol (param_at p 0))])]"

definition CsiActionCodes :: "(string \<times> (VTParameters \<Rightarrow> wchar \<Rightarrow> dispatch_call list)) list" where
  "CsiActionCodes = CsiActionCodes_cursor @ CsiActionCodes_scroll"

lemmas csi_code_defs = CsiActionCodes_def CsiActionCodes_cursor_def CsiActionCodes_scroll_def

definition csi_calls :: "VTID \<Rightarrow> VTParameters \<Rightarrow> wchar \<Rightarrow> dispatch_call list" where
  "csi_calls vtid p c = (case id_case CsiActionCodes vtid of Some f \<Rightarrow> f p c | None \<Rightarrow> [UnknownSequence])"

definition OutputEngine_ActionCsiDispatch ::
  "('d, 'h, 'c) dispatch_ops \<Rightarrow> VTID \<Rightarrow> VTParameters \<Rightarrow> ('d output_engine, 'c, outcome) engine_call" where
  "OutputEngine_ActionCsiDispatch D vtid p e =
     (if hasSubParams p \<and> \<not> CanSeqAcceptSubParam vtid p then (e, [], Handled)
      else dispatch_and_clear D (csi_calls vtid p (oe_lastPrintedChar e)) e)"

subsection \<open>Device control strings\<close>

definition DcsActionCodes :: "(string \<times> (VTParameters \<Rightarrow> handler_call)) list" where
  "DcsActionCodes =
    [(''q'', \<lambda>p. DefineSixelImage (num_param p 0) (enum_param p 1) (param_at p 2)),
     (''{'', \<lambda>p. DownloadDRCS (num_param p 0) (param_at p 1) (enum_param p 2) (enum_param
        p 3) (enum_param p 4) (enum_param p 5) (param_at p 6) (enum_param p 7)),
     (''!u'', \<lambda>p. AssignUserPreferenceCharset (enum_param p 0)),
     (''!z'', \<lambda>p. DefineMacro (value_or (param_at p 0) 0) (enum_param p 1) (enum_param p
        2)),
     (''$p'', \<lambda>p. RestoreTerminalState (enum_param p 0)),
     (''$q'', \<lambda>p. RequestSetting),
     (''$t'', \<lambda>p. RestorePresentationState (enum_param p 0))]"

definition OutputEngine_ActionDcsDispatch ::
  "('d, 'h, 'c) dispatch_ops \<Rightarrow> VTID \<Rightarrow> VTParameters \<Rightarrow> ('d output_engine, 'c, 'h option option) engine_call" where
  "OutputEngine_ActionDcsDispatch D vtid p e =
     (case id_case DcsActionCodes vtid of
        Some f \<Rightarrow>
          (case disp_handler D (f p) (oe_dispatch e) of
             (d, rs, Some handler) \<Rightarrow> (ClearLastChar (e\<lparr>oe_dispatch := d\<rparr>), rs, Some handler)
           | (d, rs, None) \<Rightarrow> (e\<lparr>oe_dispatch := d\<rparr>, rs, None))
      | None \<Rightarrow>
          (case disp_call D UnknownSequence (oe_dispatch e) of
             (d, rs, _) \<Rightarrow> (ClearLastChar (e\<lparr>oe_dispatch := d\<rparr>), rs, Some None)))"

definition OutputEngine_CallStringHandler ::
  "('d, 'h, 'c) dispatch_ops \<Rightarrow> 'h \<Rightarrow> wchar \<Rightarrow> ('d output_engine, 'c, bool) engine_call" where
  "OutputEngine_CallStringHandler D h wch e =
     (case disp_string D h wch (oe_dispatch e) of (d, rs, ok) \<Rightarrow> (e\<lparr>oe_dispatch := d\<rparr>, rs, ok))"

subsection \<open>Operating system commands\<close>

text \<open>The code outside the engine that parses a command's text.\<close>

record osc_env =
  env_colorName :: "wstring \<Rightarrow> color option"
  env_u8u16 :: "byte list \<Rightarrow> wstring option"

definition COLOR_INQUIRY_COLOR :: u32 where
  "COLOR_INQUIRY_COLOR = 0xfeffffff"

definition MAX_URL_LENGTH :: nat where
  "MAX_URL_LENGTH = 2 * 1048576"

fun color_table_pairs :: "osc_env \<Rightarrow> wstring list \<Rightarrow> (nat \<times> u32) list" where
  "color_table_pairs env (index # color # parts) =
     (case StringToUint index of
        None \<Rightarrow> []
      | Some tableIndex \<Rightarrow>
          (if color = wstr ''?'' then [(unat tableIndex, COLOR_INQUIRY_COLOR)]
           else (case ColorFromXTermColor (env_colorName env) color of
                   None \<Rightarrow> []
                 | Some rgb \<Rightarrow> [(unat tableIndex, color_COLORREF rgb)]))) @
     color_table_pairs env parts"
| "color_table_pairs env parts = []"

text \<open>\<open>None\<close> where the source returns \<^verbatim>\<open>false\<close>.\<close>

definition GetOscSetColorTable :: "osc_env \<Rightarrow> wstring \<Rightarrow> (nat \<times> u32) list option" where
  "GetOscSetColorTable env string =
     (let parts = SplitString string 0x3B
      in if length parts < 2 then None
         else let pairs = color_table_pairs env parts
              in if length pairs > 0 then Some pairs else None)"

definition osc_color :: "osc_env \<Rightarrow> wstring \<Rightarrow> u32" where
  "osc_color env part =
     (if part = wstr ''?'' then COLOR_INQUIRY_COLOR
      else (case ColorFromXTermColor (env_colorName env) part of
              Some rgb \<Rightarrow> color_COLORREF rgb
            | None \<Rightarrow> INVALID_COLOR))"

definition GetOscSetColor :: "osc_env \<Rightarrow> wstring \<Rightarrow> u32 list option" where
  "GetOscSetColor env string =
     (let parts = SplitString string 0x3B
      in if length parts < 1 then None else Some (map (osc_color env) parts))"

text \<open>The content to set, or the query.\<close>

datatype clipboard_request = ClipboardQuery | ClipboardContent wstring

definition GetOscSetClipboard :: "osc_env \<Rightarrow> wstring \<Rightarrow> clipboard_request option" where
  "GetOscSetClipboard env string =
     (case find_char 0x3B string of
        None \<Rightarrow> None
      | Some pos \<Rightarrow>
          (let substr = drop (pos + 1) string
           in if substr = wstr ''?'' then Some ClipboardQuery
              else map_option ClipboardContent (Decode (env_u8u16 env) substr)))"

definition hyperlink_id :: "wstring \<Rightarrow> wstring \<Rightarrow> wstring" where
  "hyperlink_id part params =
     (case find_sub (wstr ''id='') part of
        None \<Rightarrow> params
      | Some idPos \<Rightarrow> drop (idPos + 3) part)"

text \<open>The parameters and the URI.\<close>

definition ParseHyperlink :: "wstring \<Rightarrow> (wstring \<times> wstring) option" where
  "ParseHyperlink string =
     (if string = wstr '';'' then Some ([], [])
      else (case find_char 0x3B string of
              None \<Rightarrow> None
            | Some midPos \<Rightarrow>
                Some (fold hyperlink_id (SplitString (take midPos string) 0x3A) [],
                      take MAX_URL_LENGTH (drop (midPos + 1) string))))"

fun reset_indices :: "wstring list \<Rightarrow> dispatch_call list" where
  "reset_indices [] = []"
| "reset_indices (c # cs) =
     (case parse_u64 c 10 of
        Some index \<Rightarrow> Render (ResetColorTableEntry (unat index)) # reset_indices cs
      | None \<Rightarrow> [])"

fun resource_calls :: "nat \<Rightarrow> u32 list \<Rightarrow> dispatch_call list" where
  "resource_calls resource [] = []"
| "resource_calls resource (color # colors) =
     (if color = COLOR_INQUIRY_COLOR then [Render (RequestXtermColorResource resource)]
      else if color \<noteq> INVALID_COLOR then [Render (SetXtermColorResource resource color)]
      else []) @ resource_calls (resource + 1) colors"

definition osc_calls :: "osc_env \<Rightarrow> nat \<Rightarrow> wstring \<Rightarrow> dispatch_call list" where
  "osc_calls env parameter string =
     (if parameter \<in> {0, 1, 2, 21} then [Strings (SetWindowTitle string)]
      else if parameter = 4
      then (case GetOscSetColorTable env string of
              None \<Rightarrow> []
            | Some pairs \<Rightarrow>
                map (\<lambda>(tableIndex, rgb).
                       if rgb = COLOR_INQUIRY_COLOR then Render (RequestColorTableEntry tableIndex)
                       else Render (SetColorTableEntry tableIndex rgb)) pairs)
      else if parameter \<in> {10, 11, 12, 17}
      then (case GetOscSetColor env string of
              None \<Rightarrow> [] | Some colors \<Rightarrow> resource_calls parameter colors)
      else if parameter = 52
      then (case GetOscSetClipboard env string of
              Some (ClipboardContent content) \<Rightarrow> [Strings (SetClipboard content)]
            | _ \<Rightarrow> [])
      else if parameter = 104
      then (if string = [] then [Render ResetColorTable] else reset_indices (SplitString string 0x3B))
      else if parameter \<in> {110, 111, 112, 117}
      then (if string = [] then [Render (ResetXtermColorResource (parameter - 100))] else [])
      else if parameter = 7 then [Strings (SetCurrentWorkingDirectory string)]
      else if parameter = 8
      then (case ParseHyperlink string of
              None \<Rightarrow> []
            | Some (params, uri) \<Rightarrow>
                (if uri = [] then [Strings EndHyperlink] else [Strings (AddHyperlink uri params)]))
      else if parameter = 9 then [Strings (DoConEmuAction string)]
      else if parameter = 1337 then [Strings (DoITerm2Action string)]
      else if parameter = 133 then [Strings (DoFinalTermAction string)]
      else if parameter = 633 then [Strings (DoVsCodeAction string)]
      else if parameter = 9001 then [Strings (DoWTAction string)]
      else if parameter = 777 then [Strings (DoUrxvtAction string)]
      else [UnknownSequence])"

definition OutputEngine_ActionOscDispatch ::
  "osc_env \<Rightarrow> ('d, 'h, 'c) dispatch_ops \<Rightarrow> VTInt \<Rightarrow> wstring \<Rightarrow> ('d output_engine, 'c, outcome) engine_call" where
  "OutputEngine_ActionOscDispatch env D parameter string =
     dispatch_and_clear D (osc_calls env (nat parameter) string)"

definition OutputEngine_ActionSs3Dispatch ::
  "('d, 'h, 'c) dispatch_ops \<Rightarrow> wchar \<Rightarrow> VTParameters \<Rightarrow> ('d output_engine, 'c, outcome) engine_call" where
  "OutputEngine_ActionSs3Dispatch D wch p e =
     (case OutputEngine_UnknownSequence D e of (e1, rs, _) \<Rightarrow> (ClearLastChar e1, rs, Handled))"

subsection \<open>The engine as the parser sees it\<close>

text \<open>What a completion callback does is up to the terminal that registered it.\<close>

definition output_ops ::
  "osc_env \<Rightarrow> ('d, 'h, 'c) dispatch_ops \<Rightarrow>
   ('c \<Rightarrow> ('d output_engine, 'h, 'c) sm \<Rightarrow> ('d output_engine, 'h, 'c) sm option) \<Rightarrow>
   ('d output_engine, 'h, 'c) engine_ops" where
  "output_ops env D run =
     \<lparr>eng_UnknownSequence = OutputEngine_UnknownSequence D,
      eng_EncounteredWin32InputModeSequence = (\<lambda>_. False),
      eng_ActionExecute = OutputEngine_ActionExecute D,
      eng_ActionExecuteFromEscape = OutputEngine_ActionExecuteFromEscape D,
      eng_ActionPrint = OutputEngine_ActionPrint D,
      eng_ActionPrintString = OutputEngine_ActionPrintString D,
      eng_ActionPassThroughString = OutputEngine_ActionPassThroughString,
      eng_ActionEscDispatch = OutputEngine_ActionEscDispatch D,
      eng_ActionVt52EscDispatch = OutputEngine_ActionVt52EscDispatch D,
      eng_ActionCsiDispatch = OutputEngine_ActionCsiDispatch D,
      eng_ActionDcsDispatch = OutputEngine_ActionDcsDispatch D,
      eng_ActionOscDispatch = OutputEngine_ActionOscDispatch env D,
      eng_ActionSs3Dispatch = OutputEngine_ActionSs3Dispatch D,
      eng_CallStringHandler = OutputEngine_CallStringHandler D,
      eng_RunCallback = run\<rparr>"

end
