(* ===== verification/StateEvents.thy ===== *)
theory StateEvents
  imports StateMachine
begin

text \<open>
  The transitions of the VT parser: one \<open>Event\<close> function per state of
  \<^verbatim>\<open>src/src/terminal/parser/stateMachine.cpp\<close>, with the tests in the order of the source, and
  \<open>ProcessCharacter\<close>, which picks the one of the current state.
\<close>

type_synonym ('e, 'h, 'c) sm_event =
  "('e, 'h, 'c) engine_ops \<Rightarrow> wchar \<Rightarrow> ('e, 'h, 'c) sm \<Rightarrow> ('e, 'h, 'c) sm option"

subsection \<open>Ground and Escape\<close>

definition EventGround :: "('e, 'h, 'c) sm_event" where
  "EventGround ops wch s =
     (if isC0Code wch \<or> isDelete wch then ActionExecute ops wch s else ActionPrint ops wch s)"

definition EventEscape :: "('e, 'h, 'c) sm_event" where
  "EventEscape ops wch s =
     (if isC0Code wch then
        (if sm_isEngineForInput s
         then do { s \<leftarrow> ActionExecuteFromEscape ops wch s; Some (EnterGround s) }
         else ActionExecute ops wch s)
      else if isDelete wch then Some (ActionIgnore s)
      else if isIntermediate wch then
        (if sm_isEngineForInput s
         then do { s \<leftarrow> ActionEscDispatch ops wch s; Some (EnterGround s) }
         else Some (EnterEscapeIntermediate (ActionCollect wch s)))
      else if GetParserMode Ansi s then
        (if isCsiIndicator wch then Some (EnterCsiEntry s)
         else if isOscIndicator wch then Some (EnterOscParam s)
         else if isSs3Indicator wch \<and> sm_isEngineForInput s then Some (EnterSs3Entry s)
         else if isDcsIndicator wch then Some (EnterDcsEntry s)
         else if isSosIndicator wch \<or> isPmIndicator wch \<or> isApcIndicator wch
         then Some (EnterSosPmApcString ops s)
         else do { s \<leftarrow> ActionEscDispatch ops wch s; Some (EnterGround s) })
      else if isVt52CursorAddress wch then Some (EnterVt52Param s)
      else do { s \<leftarrow> ActionVt52EscDispatch ops wch s; Some (EnterGround s) })"

definition EventEscapeIntermediate :: "('e, 'h, 'c) sm_event" where
  "EventEscapeIntermediate ops wch s =
     (if isC0Code wch then ActionExecute ops wch s
      else if isIntermediate wch then Some (ActionCollect wch s)
      else if isDelete wch then Some (ActionIgnore s)
      else if GetParserMode Ansi s
      then do { s \<leftarrow> ActionEscDispatch ops wch s; Some (EnterGround s) }
      else if isVt52CursorAddress wch then Some (EnterVt52Param s)
      else do { s \<leftarrow> ActionVt52EscDispatch ops wch s; Some (EnterGround s) })"

subsection \<open>Control sequences\<close>

definition csi_dispatch_event :: "('e, 'h, 'c) sm_event" where
  "csi_dispatch_event ops wch s =
     do { s \<leftarrow> ActionCsiDispatch ops wch s; ExecuteCsiCompleteCallback ops (EnterGround s) }"

definition EventCsiEntry :: "('e, 'h, 'c) sm_event" where
  "EventCsiEntry ops wch s =
     (if isC0Code wch then ActionExecute ops wch s
      else if isDelete wch then Some (ActionIgnore s)
      else if isIntermediate wch then Some (EnterCsiIntermediate (ActionCollect wch s))
      else if isNumericParamValue wch \<or> isParameterDelimiter wch
      then Some (EnterCsiParam (ActionParam wch s))
      else if isSubParameterDelimiter wch
      then do { s \<leftarrow> ActionSubParam wch s; Some (EnterCsiSubParam s) }
      else if isCsiPrivateMarker wch then Some (EnterCsiParam (ActionCollect wch s))
      else csi_dispatch_event ops wch s)"

definition EventCsiIntermediate :: "('e, 'h, 'c) sm_event" where
  "EventCsiIntermediate ops wch s =
     (if isC0Code wch then ActionExecute ops wch s
      else if isIntermediate wch then Some (ActionCollect wch s)
      else if isDelete wch then Some (ActionIgnore s)
      else if isIntermediateInvalid wch then Some (EnterCsiIgnore s)
      else csi_dispatch_event ops wch s)"

definition EventCsiIgnore :: "('e, 'h, 'c) sm_event" where
  "EventCsiIgnore ops wch s =
     (if isC0Code wch then ActionExecute ops wch s
      else if isDelete wch then Some (ActionIgnore s)
      else if isIntermediate wch then Some (ActionIgnore s)
      else if isIntermediateInvalid wch then Some (ActionIgnore s)
      else Some (EnterGround s))"

definition EventCsiParam :: "('e, 'h, 'c) sm_event" where
  "EventCsiParam ops wch s =
     (if isC0Code wch then ActionExecute ops wch s
      else if isDelete wch then Some (ActionIgnore s)
      else if isNumericParamValue wch \<or> isParameterDelimiter wch then Some (ActionParam wch s)
      else if isSubParameterDelimiter wch
      then do { s \<leftarrow> ActionSubParam wch s; Some (EnterCsiSubParam s) }
      else if isIntermediate wch then Some (EnterCsiIntermediate (ActionCollect wch s))
      else if isParameterInvalid wch then Some (EnterCsiIgnore s)
      else csi_dispatch_event ops wch s)"

definition EventCsiSubParam :: "('e, 'h, 'c) sm_event" where
  "EventCsiSubParam ops wch s =
     (if isC0Code wch then ActionExecute ops wch s
      else if isDelete wch then Some (ActionIgnore s)
      else if isNumericParamValue wch \<or> isSubParameterDelimiter wch then ActionSubParam wch s
      else if isParameterDelimiter wch then Some (EnterCsiParam (ActionParam wch s))
      else if isIntermediate wch then Some (EnterCsiIntermediate (ActionCollect wch s))
      else if isParameterInvalid wch then Some (EnterCsiIgnore s)
      else csi_dispatch_event ops wch s)"

subsection \<open>Operating system commands\<close>

definition EventOscParam :: "('e, 'h, 'c) sm_event" where
  "EventOscParam ops wch s =
     (if isOscTerminator wch then do { s \<leftarrow> ActionOscDispatch ops s; Some (EnterGround s) }
      else if isEscape wch then Some (EnterOscTermination s)
      else if isNumericParamValue wch then Some (ActionOscParam wch s)
      else if isOscDelimiter wch then Some (EnterOscString s)
      else Some (ActionIgnore s))"

definition EventOscString :: "('e, 'h, 'c) sm_event" where
  "EventOscString ops wch s =
     (if isOscTerminator wch then do { s \<leftarrow> ActionOscDispatch ops s; Some (EnterGround s) }
      else if isEscape wch then Some (EnterOscTermination s)
      else if isOscInvalid wch then Some (ActionIgnore s)
      else Some (ActionOscPut wch s))"

definition EventOscTermination :: "('e, 'h, 'c) sm_event" where
  "EventOscTermination ops wch s =
     (if isStringTerminatorIndicator wch
      then do { s \<leftarrow> ActionOscDispatch ops s; Some (EnterGround s) }
      else EventEscape ops wch (EnterEscape s))"

subsection \<open>SS3 and VT52 sequences\<close>

definition EventSs3Entry :: "('e, 'h, 'c) sm_event" where
  "EventSs3Entry ops wch s =
     (if isC0Code wch then ActionExecute ops wch s
      else if isDelete wch then Some (ActionIgnore s)
      else if isSubParameterDelimiter wch then Some (EnterCsiIgnore s)
      else if isNumericParamValue wch \<or> isParameterDelimiter wch
      then Some (EnterSs3Param (ActionParam wch s))
      else do { s \<leftarrow> ActionSs3Dispatch ops wch s; Some (EnterGround s) })"

definition EventSs3Param :: "('e, 'h, 'c) sm_event" where
  "EventSs3Param ops wch s =
     (if isC0Code wch then ActionExecute ops wch s
      else if isDelete wch then Some (ActionIgnore s)
      else if isNumericParamValue wch \<or> isParameterDelimiter wch then Some (ActionParam wch s)
      else if isParameterInvalid wch \<or> isSubParameterDelimiter wch then Some (EnterCsiIgnore s)
      else do { s \<leftarrow> ActionSs3Dispatch ops wch s; Some (EnterGround s) })"

definition EventVt52Param :: "('e, 'h, 'c) sm_event" where
  "EventVt52Param ops wch s =
     (if isC0Code wch then ActionExecute ops wch s
      else if isDelete wch then Some (ActionIgnore s)
      else let s1 = s\<lparr>sm_parameters := sm_parameters s @ [VTParam (uint wch)]\<rparr> in
        if length (sm_parameters s1) = 2
        then do { s2 \<leftarrow> ActionVt52EscDispatch ops 0x59 s1; Some (EnterGround s2) }
        else Some s1)"

subsection \<open>Device control strings\<close>

definition EventDcsEntry :: "('e, 'h, 'c) sm_event" where
  "EventDcsEntry ops wch s =
     (if isC0Code wch then Some (ActionIgnore s)
      else if isDelete wch then Some (ActionIgnore s)
      else if isSubParameterDelimiter wch then Some (EnterDcsIgnore s)
      else if isNumericParamValue wch \<or> isParameterDelimiter wch
      then Some (EnterDcsParam (ActionParam wch s))
      else if isIntermediate wch then Some (EnterDcsIntermediate (ActionCollect wch s))
      else Some (ActionDcsDispatch ops wch s))"

definition EventDcsIgnore :: "('e, 'h, 'c) sm \<Rightarrow> ('e, 'h, 'c) sm option" where
  "EventDcsIgnore s = Some (ActionIgnore s)"

definition EventDcsIntermediate :: "('e, 'h, 'c) sm_event" where
  "EventDcsIntermediate ops wch s =
     (if isC0Code wch then Some (ActionIgnore s)
      else if isDelete wch then Some (ActionIgnore s)
      else if isIntermediate wch then Some (ActionCollect wch s)
      else if isIntermediateInvalid wch then Some (EnterDcsIgnore s)
      else Some (ActionDcsDispatch ops wch s))"

text \<open>The source tests C0 controls and DEL in a first statement that only ignores them, and
  then goes on to a second chain of tests: there is no \<^verbatim>\<open>else\<close> between the two.\<close>

definition EventDcsParam :: "('e, 'h, 'c) sm_event" where
  "EventDcsParam ops wch s0 =
     (let s = (if isC0Code wch then ActionIgnore s0
               else if isDelete wch then ActionIgnore s0 else s0) in
      if isNumericParamValue wch \<or> isParameterDelimiter wch then Some (ActionParam wch s)
      else if isIntermediate wch then Some (EnterDcsIntermediate (ActionCollect wch s))
      else if isParameterInvalid wch \<or> isSubParameterDelimiter wch then Some (EnterDcsIgnore s)
      else Some (ActionDcsDispatch ops wch s))"

definition EventDcsPassThrough :: "('e, 'h, 'c) sm_event" where
  "EventDcsPassThrough ops wch s =
     (if isC0Code wch \<or> isDcsPassThroughValid wch
      then (case sm_dcsStringHandler s of
              None \<Rightarrow> None
            | Some h \<Rightarrow>
                (case call (eng_CallStringHandler ops h wch) s of
                   (ok, s1) \<Rightarrow> Some (if ok then s1 else EnterDcsIgnore s1)))
      else Some (ActionIgnore s))"

definition EventSosPmApcString :: "('e, 'h, 'c) sm \<Rightarrow> ('e, 'h, 'c) sm option" where
  "EventSosPmApcString s = Some (ActionIgnore s)"

subsection \<open>The whole transition\<close>

text \<open>The \<^verbatim>\<open>switch\<close> of \<^verbatim>\<open>ProcessCharacter\<close>.\<close>

definition state_event :: "('e, 'h, 'c) sm_event" where
  "state_event ops wch s =
     (case sm_state s of
        Ground \<Rightarrow> EventGround ops wch s
      | Escape \<Rightarrow> EventEscape ops wch s
      | EscapeIntermediate \<Rightarrow> EventEscapeIntermediate ops wch s
      | CsiEntry \<Rightarrow> EventCsiEntry ops wch s
      | CsiIntermediate \<Rightarrow> EventCsiIntermediate ops wch s
      | CsiIgnore \<Rightarrow> EventCsiIgnore ops wch s
      | CsiParam \<Rightarrow> EventCsiParam ops wch s
      | CsiSubParam \<Rightarrow> EventCsiSubParam ops wch s
      | OscParam \<Rightarrow> EventOscParam ops wch s
      | OscString \<Rightarrow> EventOscString ops wch s
      | OscTermination \<Rightarrow> EventOscTermination ops wch s
      | Ss3Entry \<Rightarrow> EventSs3Entry ops wch s
      | Ss3Param \<Rightarrow> EventSs3Param ops wch s
      | Vt52Param \<Rightarrow> EventVt52Param ops wch s
      | DcsEntry \<Rightarrow> EventDcsEntry ops wch s
      | DcsIgnore \<Rightarrow> EventDcsIgnore s
      | DcsIntermediate \<Rightarrow> EventDcsIntermediate ops wch s
      | DcsParam \<Rightarrow> EventDcsParam ops wch s
      | DcsPassThrough \<Rightarrow> EventDcsPassThrough ops wch s
      | SosPmApcString \<Rightarrow> EventSosPmApcString s)"

text \<open>A C1 control is processed as ESC and its seven-bit form: the recursion ends because
  neither of the two is a C1 control.\<close>

function ProcessCharacter ::
  "('e, 'h, 'c) engine_ops \<Rightarrow> wchar \<Rightarrow> ('e, 'h, 'c) sm \<Rightarrow> ('e, 'h, 'c) sm option" where
  "ProcessCharacter ops wch s =
     (let isFromAnywhereChar = (wch = CAN \<or> wch = SUB) in
      if isFromAnywhereChar \<and> \<not> (sm_state s = Escape \<and> sm_isEngineForInput s)
      then do { s \<leftarrow> ActionInterrupt ops s;
                s \<leftarrow> ActionExecute ops wch s;
                Some (EnterGround s) }
      else if isC1ControlCharacter wch
      then (if GetParserMode AcceptC1 s
            then do { s \<leftarrow> ProcessCharacter ops ESC s;
                      ProcessCharacter ops (c1To7Bit wch) s }
            else Some s)
      else if isEscape wch \<and> sm_state s \<noteq> OscString \<and> sm_state s \<noteq> OscParam
      then do { s \<leftarrow> ActionInterrupt ops s; Some (EnterEscape s) }
      else state_event ops wch s)"
  by pat_completeness auto
termination
  by (relation "measure (\<lambda>(ops, wch, s). if isC1ControlCharacter wch then 1 else 0)")
    (auto simp: ESC_not_C1 c1To7Bit_not_C1)

declare ProcessCharacter.simps [simp del]

text \<open>The three shapes of a step, by the kind of character.\<close>

lemma ProcessCharacter_cancel:
  "w = CAN \<or> w = SUB \<Longrightarrow> \<not> (sm_state s = Escape \<and> sm_isEngineForInput s) \<Longrightarrow>
   ProcessCharacter ops w s =
     do { s \<leftarrow> ActionInterrupt ops s; s \<leftarrow> ActionExecute ops w s; Some (EnterGround s) }"
  by (subst ProcessCharacter.simps) (simp add: Let_def)

lemma ProcessCharacter_C1:
  assumes "isC1ControlCharacter w"
  shows "ProcessCharacter ops w s =
     (if GetParserMode AcceptC1 s
      then do { s \<leftarrow> ProcessCharacter ops ESC s; ProcessCharacter ops (c1To7Bit w) s }
      else Some s)"
proof -
  from assms have "w \<noteq> CAN" and "w \<noteq> SUB"
    by (auto simp: isC1ControlCharacter_def)
  with assms show ?thesis
    by (subst ProcessCharacter.simps) (simp add: Let_def)
qed

lemma ProcessCharacter_ESC:
  "sm_state s \<noteq> OscString \<Longrightarrow> sm_state s \<noteq> OscParam \<Longrightarrow>
   ProcessCharacter ops ESC s = do { s \<leftarrow> ActionInterrupt ops s; Some (EnterEscape s) }"
  by (subst ProcessCharacter.simps) (simp add: Let_def ESC_not_C1 isEscape_def)

lemma ProcessCharacter_event:
  "w \<noteq> CAN \<Longrightarrow> w \<noteq> SUB \<Longrightarrow> \<not> isC1ControlCharacter w \<Longrightarrow> \<not> isEscape w \<Longrightarrow>
   ProcessCharacter ops w s = state_event ops w s"
  by (subst ProcessCharacter.simps) (simp add: Let_def)

end
