(* ===== verification/ProcessString.thy ===== *)
theory ProcessString
  imports StateEvents
begin

text \<open>
  Processing a whole string, from \<^verbatim>\<open>StateMachine::ProcessString\<close> in
  \<^verbatim>\<open>src/src/terminal/parser/stateMachine.cpp\<close>: runs of printable characters go to the engine in
  one piece while the parser is in the ground state, everything else goes through
  \<open>ProcessCharacter\<close>; what is left over at the end is resolved or cached.
\<close>

subsection \<open>The loop\<close>

text \<open>The inner \<^verbatim>\<open>do ... while\<close>: characters go to the state machine one at a time until it is
  back in the ground state. The result holds the index of the next character.\<close>

function process_vt ::
  "('e, 'h, 'c) engine_ops \<Rightarrow> wstring \<Rightarrow> nat \<Rightarrow> ('e, 'h, 'c) sm \<Rightarrow>
   (nat \<times> ('e, 'h, 'c) sm) option" where
  "process_vt ops str i s =
     (if i < length str
      then do { s' \<leftarrow> ProcessCharacter ops (str ! i)
                        (s\<lparr>sm_runSize := sm_runSize s + 1,
                           sm_processingLastCharacter := (i + 1 \<ge> length str)\<rparr>);
                if i + 1 < length str \<and> sm_state s' \<noteq> Ground
                then process_vt ops str (i + 1) s'
                else Some (i + 1, s') }
      else Some (i, s))"
  by pat_completeness auto
termination
  by (relation "measure (\<lambda>(ops, str, i, s). length str - i)") auto

declare process_vt.simps [simp del]

lemma process_vt_advances:
  "process_vt ops str i s = Some (j, s') \<Longrightarrow> i < length str \<Longrightarrow> i < j \<and> j \<le> length str"
proof (induction ops str i s rule: process_vt.induct)
  case (1 ops str i s)
  let ?s = "s\<lparr>sm_runSize := sm_runSize s + 1, sm_processingLastCharacter := (i + 1 \<ge> length str)\<rparr>"
  from "1.prems" obtain s1 where s1: "ProcessCharacter ops (str ! i) ?s = Some s1"
    by (auto simp: process_vt.simps [of ops str i s] split: Option.bind_splits)
  show ?case
  proof (cases "i + 1 < length str \<and> sm_state s1 \<noteq> Ground")
    case True
    with s1 "1.prems" have "process_vt ops str (i + 1) s1 = Some (j, s')"
      by (simp add: process_vt.simps [of ops str i s])
    with "1.IH" [OF "1.prems"(2) s1 True] True show ?thesis by simp
  next
    case False
    with s1 "1.prems" show ?thesis by (auto simp: process_vt.simps [of ops str i s])
  qed
qed

text \<open>The printable run at the head of an iteration.\<close>

definition print_run ::
  "('e, 'h, 'c) engine_ops \<Rightarrow> wstring \<Rightarrow> nat \<Rightarrow> ('e, 'h, 'c) sm \<Rightarrow>
   (nat \<times> ('e, 'h, 'c) sm) option" where
  "print_run ops str i s =
     (let n = FindActionableControlCharacter (drop i str);
          s1 = s\<lparr>sm_runOffset := i, sm_runSize := n\<rparr>
      in if n \<noteq> 0
         then do { run \<leftarrow> CurrentRun s1;
                   s2 \<leftarrow> ActionPrintString ops run s1;
                   Some (i + n, s2\<lparr>sm_runOffset := i + n, sm_runSize := 0\<rparr>) }
         else Some (i, s1))"

lemma print_run_advances: "print_run ops str i s = Some (j, s') \<Longrightarrow> i \<le> j"
  by (auto simp: print_run_def Let_def split: if_splits Option.bind_splits)

function process_loop ::
  "('e, 'h, 'c) engine_ops \<Rightarrow> wstring \<Rightarrow> nat \<Rightarrow> ('e, 'h, 'c) sm \<Rightarrow> ('e, 'h, 'c) sm option" where
  "process_loop ops str i s =
     (if i < length str
      then do { (i1, s1) \<leftarrow> print_run ops str i s;
                if i1 \<ge> length str then Some s1
                else do { (i2, s2) \<leftarrow> process_vt ops str i1 s1;
                          process_loop ops str i2 s2 } }
      else Some s)"
  by pat_completeness auto
termination
  by (relation "measure (\<lambda>(ops, str, i, s). length str - i)")
    (auto dest!: process_vt_advances print_run_advances)

declare process_loop.simps [simp del]

subsection \<open>The end of the string\<close>

text \<open>The heuristic for a trailing ESC or Alt+key of the input engine reads the first and the
  last character of the current run, which must not be empty.\<close>

definition process_tail ::
  "('e, 'h, 'c) engine_ops \<Rightarrow> ('e, 'h, 'c) sm \<Rightarrow> ('e, 'h, 'c) sm option" where
  "process_tail ops s =
     (if sm_state s = Ground then Some s
      else do {
        run \<leftarrow> CurrentRun s;
        (cacheUnusedRun, s) \<leftarrow>
          (if sm_isEngineForInput s
           then (let win32 = eng_EncounteredWin32InputModeSequence ops (sm_engine s) in
                 if \<not> win32 \<and> length run \<le> 2
                 then (case run of
                         [] \<Rightarrow> None
                       | c # _ \<Rightarrow>
                           (if c = ESC
                            then do {
                              s \<leftarrow> (if length run = 1
                                     then ActionExecute ops ESC (EnterGround s)
                                     else ActionEscDispatch ops (last run)
                                            (EnterEscape (EnterGround s)));
                              Some (False, EnterGround s) }
                            else Some (True, s)))
                 else Some (True, s))
           else Some (\<not> (sm_state s = SosPmApcString \<or> sm_state s = DcsPassThrough \<or>
                         sm_state s = DcsIgnore), s));
        Some (if cacheUnusedRun
              then s\<lparr>sm_cachedSequence :=
                       Some ((case sm_cachedSequence s of None \<Rightarrow> [] | Some c \<Rightarrow> c) @ run)\<rparr>
              else s) })"

definition ProcessString ::
  "('e, 'h, 'c) engine_ops \<Rightarrow> wstring \<Rightarrow> ('e, 'h, 'c) sm \<Rightarrow> ('e, 'h, 'c) sm option" where
  "ProcessString ops str s0 =
     (let s = s0\<lparr>sm_currentString := str, sm_runOffset := 0, sm_runSize := 0,
                 sm_injections := []\<rparr> in
      do {
        s \<leftarrow> (if sm_state s = Ground then process_loop ops str 0 s
               else do { (i, s) \<leftarrow> process_vt ops str 0 s; process_loop ops str i s });
        process_tail ops s })"

end
