(* ===== verification/ParserFrame.thy ===== *)
theory ParserFrame
  imports ProcessString
begin

text \<open>
  What an engine call can change of the parser. An engine reaches the state machine only
  through its public interface, so a call, with whatever flushing it triggers, leaves the
  \<open>core\<close> of the parser alone: the state, the parameters, the collected strings, the string
  handler and the position in the current string.
\<close>

subsection \<open>The core of the parser\<close>

definition sm_core ::
  "('e, 'h, 'c) sm \<Rightarrow>
   (bool \<times> VTStates \<times> wstring \<times> nat \<times> nat) \<times>
   (VTIDBuilder \<times> VTParameter list \<times> bool) \<times>
   (VTParameter list \<times> (byte \<times> byte) list \<times> bool \<times> byte) \<times>
   (wstring \<times> VTInt \<times> 'h option \<times> bool)" where
  "sm_core s =
     ((sm_isEngineForInput s, sm_state s, sm_currentString s, sm_runOffset s, sm_runSize s),
      (sm_identifier s, sm_parameters s, sm_parameterLimitOverflowed s),
      (sm_subParameters s, sm_subParameterRanges s, sm_subParameterLimitOverflowed s,
       sm_subParameterCounter s),
      (sm_oscString s, sm_oscParameter s, sm_dcsStringHandler s, sm_processingLastCharacter s))"

lemma sm_core_eqD:
  assumes "sm_core s = sm_core t"
  shows "sm_isEngineForInput s = sm_isEngineForInput t" "sm_state s = sm_state t"
    "sm_currentString s = sm_currentString t" "sm_runOffset s = sm_runOffset t"
    "sm_runSize s = sm_runSize t" "sm_identifier s = sm_identifier t"
    "sm_parameters s = sm_parameters t"
    "sm_parameterLimitOverflowed s = sm_parameterLimitOverflowed t"
    "sm_subParameters s = sm_subParameters t"
    "sm_subParameterRanges s = sm_subParameterRanges t"
    "sm_subParameterLimitOverflowed s = sm_subParameterLimitOverflowed t"
    "sm_subParameterCounter s = sm_subParameterCounter t" "sm_oscString s = sm_oscString t"
    "sm_oscParameter s = sm_oscParameter t" "sm_dcsStringHandler s = sm_dcsStringHandler t"
    "sm_processingLastCharacter s = sm_processingLastCharacter t"
  using assms by (simp_all add: sm_core_def)

lemma sm_core_update [simp]:
  "sm_core (s\<lparr>sm_engine := e\<rparr>) = sm_core s"
  "sm_core (s\<lparr>sm_parserMode := m\<rparr>) = sm_core s"
  "sm_core (s\<lparr>sm_injections := js\<rparr>) = sm_core s"
  "sm_core (s\<lparr>sm_cachedSequence := q\<rparr>) = sm_core s"
  "sm_core (s\<lparr>sm_onCsiCompleteCallback := cb\<rparr>) = sm_core s"
  by (simp_all add: sm_core_def)

lemma sm_core_apply_request [simp]: "sm_core (apply_request r s) = sm_core s"
  by (cases r) (simp_all add: SetParserMode_def InjectSequence_def OnCsiComplete_def)

lemma sm_core_requests [simp]: "sm_core (fold apply_request rs s) = sm_core s"
  by (induction rs arbitrary: s) simp_all

lemma sm_core_call [simp]: "sm_core (snd (call f s)) = sm_core s"
  by (simp add: call_def split: prod.split)

lemma sm_core_callD: "call f s = (r, s') \<Longrightarrow> sm_core s' = sm_core s"
  using sm_core_call [of f s] by simp

lemma cached_apply_request [simp]:
  "sm_cachedSequence (apply_request r s) = sm_cachedSequence s"
  by (cases r) (simp_all add: SetParserMode_def InjectSequence_def OnCsiComplete_def)

lemma cached_requests [simp]:
  "sm_cachedSequence (fold apply_request rs s) = sm_cachedSequence s"
  by (induction rs arbitrary: s) simp_all

lemma cached_callD: "call f s = (r, s') \<Longrightarrow> sm_cachedSequence s' = sm_cachedSequence s"
  by (auto simp: call_def split: prod.splits)

subsection \<open>Flushing keeps the core\<close>

lemma FlushToTerminal_core:
  fixes ops :: "('e, 'h, 'c) engine_ops" and s :: "('e, 'h, 'c) sm"
  assumes "FlushToTerminal ops s = Some r"
  shows "sm_core (snd r) = sm_core s"
proof (rule FlushToTerminal.raw_induct [where P = "\<lambda>ops s r. sm_core (snd r) = sm_core s", OF _ assms])
  fix flush :: "('e, 'h, 'c) engine_ops \<Rightarrow> ('e, 'h, 'c) sm \<Rightarrow> (bool \<times> ('e, 'h, 'c) sm) option"
    and ops s r
  assume IH: "\<And>ops s r. flush ops s = Some r \<Longrightarrow> sm_core (snd r) = sm_core s"
  let ?exec = "\<lambda>f (s :: ('e, 'h, 'c) sm). (case call f s of
      (r, s1) \<Rightarrow>
        (if r = Handled then Some (True, s1)
         else if r = NotHandled then do { (_, s2) \<leftarrow> flush ops s1; Some (False, s2) }
         else Some (False, s1)))"
  have exec: "sm_core s' = sm_core s" if "?exec f s = Some (b, s')" for f s b s'
    using that by (auto split: prod.splits if_splits Option.bind_splits dest!: sm_core_callD IH)
  assume "do {
       (success, s) \<leftarrow>
         (case sm_cachedSequence s of
            None \<Rightarrow> Some (True, s)
          | Some cached \<Rightarrow>
              do { (ok, s) \<leftarrow> ?exec (eng_ActionPassThroughString ops cached) s;
                   Some (ok, s\<lparr>sm_cachedSequence := None\<rparr>) });
       if success
       then (case CurrentRun s of
               None \<Rightarrow> Some (False, s)
             | Some run \<Rightarrow> ?exec (eng_ActionPassThroughString ops run) s)
       else Some (False, s)
     } = Some r"
  then obtain b s1 where
    1: "(case sm_cachedSequence s of
            None \<Rightarrow> Some (True, s)
          | Some cached \<Rightarrow>
              do { (ok, s) \<leftarrow> ?exec (eng_ActionPassThroughString ops cached) s;
                   Some (ok, s\<lparr>sm_cachedSequence := None\<rparr>) }) = Some (b, s1)"
    and 2: "(if b
       then (case CurrentRun s1 of
               None \<Rightarrow> Some (False, s1)
             | Some run \<Rightarrow> ?exec (eng_ActionPassThroughString ops run) s1)
       else Some (False, s1)) = Some r"
    by (auto simp del: split_paired_All split: Option.bind_splits)
  from 1 have "sm_core s1 = sm_core s"
    by (auto simp del: split_paired_All split: option.splits Option.bind_splits dest!: exec)
  moreover from 2 have "sm_core (snd r) = sm_core s1"
    by (cases r) (auto simp del: split_paired_All split: option.splits if_splits dest!: exec)
  ultimately show "sm_core (snd r) = sm_core s" by simp
qed

lemma SafeExecute_core: "SafeExecute ops f s = Some (b, s') \<Longrightarrow> sm_core s' = sm_core s"
  by (auto simp: SafeExecute_def split: prod.splits outcome.splits Option.bind_splits
      dest!: sm_core_callD FlushToTerminal_core)

lemma engine_action_core:
  "ActionExecute ops w s = Some s' \<Longrightarrow> sm_core s' = sm_core s"
  "ActionExecuteFromEscape ops w s = Some s' \<Longrightarrow> sm_core s' = sm_core s"
  "ActionPrint ops w s = Some s' \<Longrightarrow> sm_core s' = sm_core s"
  "ActionPrintString ops str s = Some s' \<Longrightarrow> sm_core s' = sm_core s"
  "ActionEscDispatch ops w s = Some s' \<Longrightarrow> sm_core s' = sm_core s"
  "ActionVt52EscDispatch ops w s = Some s' \<Longrightarrow> sm_core s' = sm_core s"
  "ActionCsiDispatch ops w s = Some s' \<Longrightarrow> sm_core s' = sm_core s"
  "ActionOscDispatch ops s = Some s' \<Longrightarrow> sm_core s' = sm_core s"
  "ActionSs3Dispatch ops w s = Some s' \<Longrightarrow> sm_core s' = sm_core s"
  by (auto simp: ActionExecute_def ActionExecuteFromEscape_def ActionPrint_def
      ActionPrintString_def ActionEscDispatch_def ActionVt52EscDispatch_def ActionCsiDispatch_def
      ActionOscDispatch_def ActionSs3Dispatch_def dest!: SafeExecute_core)

subsection \<open>When flushing completes, and when it does not\<close>

text \<open>An engine whose pass-through never reports failure flushes in at most two calls; one whose
  pass-through always reports failure never returns from a flush.\<close>

definition passthrough_accepts :: "('e, 'h, 'c) engine_ops \<Rightarrow> bool" where
  "passthrough_accepts ops \<longleftrightarrow>
     (\<forall>str e. snd (snd (eng_ActionPassThroughString ops str e)) \<noteq> NotHandled)"

lemma SafeExecute_total:
  assumes "\<And>s. \<exists>r. FlushToTerminal ops s = Some r"
  shows "\<exists>b s'. SafeExecute ops f s = Some (b, s')"
proof (cases "call f s")
  case (Pair r s1)
  moreover obtain b s2 where "FlushToTerminal ops s1 = Some (b, s2)"
    using assms [of s1] by auto
  ultimately show ?thesis by (cases r) (auto simp: SafeExecute_def)
qed

lemma passthrough_SafeExecute:
  assumes "passthrough_accepts ops"
  shows "\<exists>b s'. SafeExecute ops (eng_ActionPassThroughString ops str) s = Some (b, s')"
proof (cases "call (eng_ActionPassThroughString ops str) s")
  case (Pair r s1)
  with assms have "r \<noteq> NotHandled"
    by (auto simp: passthrough_accepts_def call_def split: prod.splits dest!: spec [of _ str])
       (metis snd_conv)
  with Pair show ?thesis by (cases r) (auto simp: SafeExecute_def)
qed

lemma FlushToTerminal_total:
  assumes "passthrough_accepts ops"
  shows "\<exists>r. FlushToTerminal ops s = Some r"
proof -
  have ex: "\<exists>b s'. SafeExecute ops (eng_ActionPassThroughString ops str) s = Some (b, s')" for str s
    using assms by (rule passthrough_SafeExecute)
  obtain b s1 where
    "(case sm_cachedSequence s of
            None \<Rightarrow> Some (True, s)
          | Some cached \<Rightarrow>
              do { (ok, s) \<leftarrow> SafeExecute ops (eng_ActionPassThroughString ops cached) s;
                   Some (ok, s\<lparr>sm_cachedSequence := None\<rparr>) }) = Some (b, s1)"
  proof (cases "sm_cachedSequence s")
    case None
    then show thesis by (intro that [of True s]) simp
  next
    case (Some c)
    obtain ok s1 where "SafeExecute ops (eng_ActionPassThroughString ops c) s = Some (ok, s1)"
      using ex by blast
    with Some show thesis by (intro that [of ok "s1\<lparr>sm_cachedSequence := None\<rparr>"]) simp
  qed
  moreover obtain c s2 where
    "(case CurrentRun s1 of
               None \<Rightarrow> Some (False, s1)
             | Some run \<Rightarrow> SafeExecute ops (eng_ActionPassThroughString ops run) s1) = Some (c, s2)"
  proof (cases "CurrentRun s1")
    case None
    then show thesis by (intro that [of False s1]) simp
  next
    case (Some run)
    with ex that show thesis by (metis option.simps(5))
  qed
  ultimately show ?thesis
    by (cases b) (auto simp: FlushToTerminal_unfold [of ops s])
qed

text \<open>C21: When the engine reports that it could not pass a string through, flushing calls itself
  without end: \<^verbatim>\<open>FlushToTerminal\<close> and \<^verbatim>\<open>_SafeExecute\<close> recurse into each other and never return.\<close>

theorem FlushToTerminal_diverges:
  fixes ops :: "('e, 'h, 'c) engine_ops" and s :: "('e, 'h, 'c) sm"
  assumes fails: "\<And>str e. snd (snd (eng_ActionPassThroughString ops str e)) = NotHandled"
    and run: "sm_runOffset s \<le> length (sm_currentString s)"
  shows "FlushToTerminal ops s = None"
proof (rule ccontr)
  let ?P = "\<lambda>o' s (r :: bool \<times> ('e, 'h, 'c) sm).
     o' = ops \<and> sm_runOffset s \<le> length (sm_currentString s) \<longrightarrow> False"
  have nh: "\<exists>s'. call (eng_ActionPassThroughString ops str) s = (NotHandled, s') \<and> sm_core s' = sm_core s"
    for str and s :: "('e, 'h, 'c) sm"
    using fails [of str "sm_engine s"] by (auto simp: call_def split: prod.split)
  assume "FlushToTerminal ops s \<noteq> None"
  then obtain r where "FlushToTerminal ops s = Some r" by auto
  then have "?P ops s r"
  proof (rule FlushToTerminal.raw_induct [where P = ?P, rotated])
    fix flush :: "('e, 'h, 'c) engine_ops \<Rightarrow> ('e, 'h, 'c) sm \<Rightarrow> (bool \<times> ('e, 'h, 'c) sm) option"
      and o' and s :: "('e, 'h, 'c) sm" and r
    assume IH: "\<And>o' s r. flush o' s = Some r \<Longrightarrow> ?P o' s r"
      and eq: "do {
       (success, s) \<leftarrow>
         (case sm_cachedSequence s of
            None \<Rightarrow> Some (True, s)
          | Some cached \<Rightarrow>
              do { (ok, s) \<leftarrow> (case call (eng_ActionPassThroughString o' cached) s of
                     (r, s1) \<Rightarrow>
                       (if r = Handled then Some (True, s1)
                        else if r = NotHandled then do { (_, s2) \<leftarrow> flush o' s1; Some (False, s2) }
                        else Some (False, s1)));
                   Some (ok, s\<lparr>sm_cachedSequence := None\<rparr>) });
       if success
       then (case CurrentRun s of
               None \<Rightarrow> Some (False, s)
             | Some run \<Rightarrow> (case call (eng_ActionPassThroughString o' run) s of
                     (r, s1) \<Rightarrow>
                       (if r = Handled then Some (True, s1)
                        else if r = NotHandled then do { (_, s2) \<leftarrow> flush o' s1; Some (False, s2) }
                        else Some (False, s1))))
       else Some (False, s)
     } = Some r"
    have none: "flush ops s1 = None" if "sm_core s1 = sm_core s"
      "sm_runOffset s \<le> length (sm_currentString s)" for s1
      using that sm_core_eqD(3,4) [OF that(1)] IH [of ops s1] by (cases "flush ops s1") auto
    show "?P o' s r"
    proof
      assume o: "o' = ops \<and> sm_runOffset s \<le> length (sm_currentString s)"
      show False
      proof (cases "sm_cachedSequence s")
        case None
        from o have "CurrentRun s \<noteq> None" by (simp add: CurrentRun_def)
        then obtain run where run: "CurrentRun s = Some run" by auto
        obtain s1 where "call (eng_ActionPassThroughString ops run) s = (NotHandled, s1)"
          and "sm_core s1 = sm_core s" using nh by blast
        with eq o None run none [of s1] show False by simp
      next
        case (Some c)
        obtain s1 where "call (eng_ActionPassThroughString ops c) s = (NotHandled, s1)"
          and "sm_core s1 = sm_core s" using nh by blast
        with eq o Some none [of s1] show False by simp
      qed
    qed
  qed
  with run show False by simp
qed

text \<open>An engine of this kind.\<close>

definition refusing_ops :: "(unit, unit, unit) engine_ops" where
  "refusing_ops =
     (let call = (\<lambda>e. (e, [], NotHandled))
      in \<lparr>eng_UnknownSequence = (\<lambda>e. (e, [], ())), eng_EncounteredWin32InputModeSequence = (\<lambda>_. False),
          eng_ActionExecute = (\<lambda>_. call), eng_ActionExecuteFromEscape = (\<lambda>_. call),
          eng_ActionPrint = (\<lambda>_. call), eng_ActionPrintString = (\<lambda>_. call),
          eng_ActionPassThroughString = (\<lambda>_. call), eng_ActionEscDispatch = (\<lambda>_. call),
          eng_ActionVt52EscDispatch = (\<lambda>_ _. call), eng_ActionCsiDispatch = (\<lambda>_ _. call),
          eng_ActionDcsDispatch = (\<lambda>_ _ e. (e, [], None)), eng_ActionOscDispatch = (\<lambda>_ _. call),
          eng_ActionSs3Dispatch = (\<lambda>_ _. call), eng_CallStringHandler = (\<lambda>_ _ e. (e, [], False)),
          eng_RunCallback = (\<lambda>_. Some)\<rparr>)"

theorem FlushToTerminal_diverges_witness:
  "FlushToTerminal refusing_ops (StateMachine_init () True 0 0 False) = None"
  by (rule FlushToTerminal_diverges)
    (simp_all add: refusing_ops_def Let_def StateMachine_init_def ActionClear_def SetParserMode_def)

end
