(* ===== verification/ParserSafety.thy ===== *)
theory ParserSafety
  imports ParserFrame
begin

text \<open>
  The well-formedness invariant of the VT parser and its preservation: parameter values and
  counts stay within the limits of \<^verbatim>\<open>stateMachine.hpp\<close>, the sub-parameter ranges always cut the
  sub-parameter vector into consecutive pieces, no byte index wraps around, and the reads that
  are undefined on an empty container are never reached. The contract an engine has to meet is
  the locale \<open>parser_engine\<close>; everything is proved once inside it.
\<close>

subsection \<open>The ranges of sub-parameters\<close>

fun ranges_of :: "nat \<Rightarrow> nat list \<Rightarrow> (byte \<times> byte) list" where
  "ranges_of a [] = []"
| "ranges_of a (l # ls) = (of_nat a, of_nat (a + l)) # ranges_of (a + l) ls"

definition lens_of :: "(byte \<times> byte) list \<Rightarrow> nat list" where
  "lens_of rs = map (\<lambda>(a, b). unat b - unat a) rs"

lemma length_ranges_of [simp]: "length (ranges_of a ls) = length ls"
  by (induction ls arbitrary: a) auto

lemma ranges_of_snoc:
  "ranges_of a (ls @ [l]) =
     ranges_of a ls @ [(of_nat (a + sum_list ls), of_nat (a + sum_list ls + l))]"
  by (induction ls arbitrary: a) (auto simp: add.assoc)

lemma ranges_of_eq_Nil [simp]: "ranges_of a ls = [] \<longleftrightarrow> ls = []"
  by (cases ls) auto

lemma lens_of_ranges_of: "a + sum_list ls < 256 \<Longrightarrow> lens_of (ranges_of a ls) = ls"
proof (induction ls arbitrary: a)
  case Nil
  then show ?case by (simp add: lens_of_def)
next
  case (Cons l ls)
  then have "lens_of (ranges_of (a + l) ls) = ls" by simp
  with Cons.prems show ?case by (simp add: lens_of_def unat_of_nat_byte del: of_nat_add)
qed

lemma ranges_of_nth:
  "i < length ls \<Longrightarrow>
   ranges_of a ls ! i =
     (of_nat (a + sum_list (take i ls)), of_nat (a + sum_list (take (Suc i) ls)))"
  by (induction ls arbitrary: a i) (auto simp: nth_Cons' take_Cons' add.assoc)

lemma sum_list_bound: "\<forall>l \<in> set ls. l \<le> k \<Longrightarrow> sum_list ls \<le> k * length (ls :: nat list)"
  by (induction ls) auto

subsection \<open>The invariant\<close>

definition param_ok :: "VTParameter \<Rightarrow> bool" where
  "param_ok p \<longleftrightarrow> -1 \<le> raw_value p \<and> raw_value p \<le> MAX_PARAMETER_VALUE"

text \<open>What holds of the parameter store while a sequence is being collected.\<close>

definition collected_ok :: "('e, 'h, 'c) sm \<Rightarrow> bool" where
  "collected_ok s \<longleftrightarrow>
     (let lens = lens_of (sm_subParameterRanges s) in
      length lens = length (sm_parameters s) \<and>
      list_all (\<lambda>l. l \<le> MAX_SUBPARAMETER_COUNT) lens \<and>
      sm_subParameterRanges s = ranges_of 0 lens \<and>
      sum_list lens = length (sm_subParameters s) \<and>
      unat (sm_subParameterCounter s) = (if lens = [] then 0 else last lens) \<and>
      (sm_subParameterLimitOverflowed s \<longrightarrow>
         unat (sm_subParameterCounter s) = MAX_SUBPARAMETER_COUNT))"

definition values_ok :: "('e, 'h, 'c) sm \<Rightarrow> bool" where
  "values_ok s \<longleftrightarrow>
     length (sm_parameters s) \<le> MAX_PARAMETER_COUNT \<and>
     list_all param_ok (sm_parameters s) \<and> list_all param_ok (sm_subParameters s) \<and>
     0 \<le> sm_oscParameter s \<and> sm_oscParameter s \<le> MAX_PARAMETER_VALUE \<and>
     idShift (sm_identifier s) \<le> 48 \<and> 8 dvd idShift (sm_identifier s)"

definition state_ok :: "('e, 'h, 'c) sm \<Rightarrow> bool" where
  "state_ok s \<longleftrightarrow>
     (case sm_state s of
        Ground \<Rightarrow> True
      | Vt52Param \<Rightarrow> length (sm_parameters s) \<le> 1
      | Escape \<Rightarrow> collected_ok s \<and> sm_parameters s = []
      | EscapeIntermediate \<Rightarrow> collected_ok s \<and> sm_parameters s = []
      | CsiSubParam \<Rightarrow> collected_ok s \<and> sm_subParameters s \<noteq> []
      | DcsPassThrough \<Rightarrow> collected_ok s \<and> sm_dcsStringHandler s \<noteq> None
      | _ \<Rightarrow> collected_ok s)"

definition sm_wf :: "('e, 'h, 'c) sm \<Rightarrow> bool" where
  "sm_wf s \<longleftrightarrow> values_ok s \<and> state_ok s"

text \<open>A step is safe when it completes and its result is well formed.\<close>

definition safe_result :: "('e, 'h, 'c) sm option \<Rightarrow> bool" where
  "safe_result r = (case r of None \<Rightarrow> False | Some s \<Rightarrow> sm_wf s)"

lemma safe_result_Some [simp]: "safe_result (Some s) = sm_wf s"
  by (simp add: safe_result_def)

lemma safe_resultI: "r = Some s \<Longrightarrow> sm_wf s \<Longrightarrow> safe_result r"
  by simp

lemma safe_resultE: "safe_result r \<Longrightarrow> \<exists>s. r = Some s \<and> sm_wf s"
  by (cases r) (auto simp: safe_result_def)

subsection \<open>What the invariant depends on\<close>

lemma values_ok_core: "sm_core s = sm_core t \<Longrightarrow> values_ok s = values_ok t"
  by (simp add: values_ok_def sm_core_eqD [of s t])

lemma collected_ok_core: "sm_core s = sm_core t \<Longrightarrow> collected_ok s = collected_ok t"
  by (simp add: collected_ok_def sm_core_eqD [of s t])

lemma state_ok_core: "sm_core s = sm_core t \<Longrightarrow> state_ok s = state_ok t"
  using collected_ok_core [of s t] sm_core_eqD [of s t]
  by (simp add: state_ok_def split: VTStates.split)

lemma sm_wf_core: "sm_core s = sm_core t \<Longrightarrow> sm_wf s = sm_wf t"
  by (simp add: sm_wf_def values_ok_core [of s t] state_ok_core [of s t])

lemma core_transfer:
  "sm_core t = sm_core s \<Longrightarrow> values_ok s \<Longrightarrow> values_ok t"
  "sm_core t = sm_core s \<Longrightarrow> collected_ok s \<Longrightarrow> collected_ok t"
  "sm_core t = sm_core s \<Longrightarrow> sm_wf s \<Longrightarrow> sm_wf t"
  using values_ok_core [of t s] collected_ok_core [of t s] sm_wf_core [of t s] by auto

lemma collected_ok_update [simp]:
  "collected_ok (s\<lparr>sm_state := st\<rparr>) = collected_ok s"
  "collected_ok (s\<lparr>sm_cachedSequence := q\<rparr>) = collected_ok s"
  "collected_ok (s\<lparr>sm_identifier := b\<rparr>) = collected_ok s"
  "collected_ok (s\<lparr>sm_oscString := os\<rparr>) = collected_ok s"
  "collected_ok (s\<lparr>sm_oscParameter := n\<rparr>) = collected_ok s"
  "collected_ok (s\<lparr>sm_dcsStringHandler := h\<rparr>) = collected_ok s"
  by (simp_all add: collected_ok_def)

lemma collected_ok_lengths:
  "length ps = length (sm_parameters s) \<Longrightarrow> collected_ok (s\<lparr>sm_parameters := ps\<rparr>) = collected_ok s"
  "length ps = length (sm_subParameters s) \<Longrightarrow>
     collected_ok (s\<lparr>sm_subParameters := ps\<rparr>) = collected_ok s"
  "collected_ok (s\<lparr>sm_parameterLimitOverflowed := b\<rparr>) = collected_ok s"
  by (simp_all add: collected_ok_def)

lemma values_ok_update [simp]:
  "values_ok (s\<lparr>sm_state := st\<rparr>) = values_ok s"
  "values_ok (s\<lparr>sm_cachedSequence := q\<rparr>) = values_ok s"
  "values_ok (s\<lparr>sm_oscString := os\<rparr>) = values_ok s"
  "values_ok (s\<lparr>sm_dcsStringHandler := h\<rparr>) = values_ok s"
  by (simp_all add: values_ok_def)

lemma collected_okE:
  assumes "collected_ok s"
  obtains lens where "length lens = length (sm_parameters s)"
    "\<forall>l \<in> set lens. l \<le> MAX_SUBPARAMETER_COUNT"
    "sm_subParameterRanges s = ranges_of 0 lens"
    "sum_list lens = length (sm_subParameters s)"
    "unat (sm_subParameterCounter s) = (if lens = [] then 0 else last lens)"
    "sm_subParameterLimitOverflowed s \<longrightarrow>
       unat (sm_subParameterCounter s) = MAX_SUBPARAMETER_COUNT"
  using assms by (auto simp: collected_ok_def Let_def list_all_iff)

lemma sum_lens_bound:
  assumes "length lens \<le> MAX_PARAMETER_COUNT" and "\<forall>l \<in> set lens. l \<le> MAX_SUBPARAMETER_COUNT"
  shows "sum_list lens \<le> 192"
proof -
  have "sum_list lens \<le> MAX_SUBPARAMETER_COUNT * length lens"
    using assms(2) by (rule sum_list_bound)
  also have "\<dots> \<le> MAX_SUBPARAMETER_COUNT * MAX_PARAMETER_COUNT"
    using assms(1) by (rule mult_le_mono2)
  finally show ?thesis by (simp add: MAX_SUBPARAMETER_COUNT_def MAX_PARAMETER_COUNT_def)
qed

lemma collected_okI:
  assumes len: "length lens = length (sm_parameters s)"
    and le: "\<forall>l \<in> set lens. l \<le> MAX_SUBPARAMETER_COUNT"
    and rs: "sm_subParameterRanges s = ranges_of 0 lens"
    and sum: "sum_list lens = length (sm_subParameters s)"
    and cnt: "unat (sm_subParameterCounter s) = (if lens = [] then 0 else last lens)"
    and ov: "sm_subParameterLimitOverflowed s \<Longrightarrow>
       unat (sm_subParameterCounter s) = MAX_SUBPARAMETER_COUNT"
    and ps: "length (sm_parameters s) \<le> MAX_PARAMETER_COUNT"
  shows "collected_ok s"
proof -
  have "sum_list lens \<le> 192"
    using len le ps by (intro sum_lens_bound) simp_all
  then have "lens_of (sm_subParameterRanges s) = lens"
    unfolding rs by (intro lens_of_ranges_of) simp
  with assms show ?thesis by (simp add: collected_ok_def Let_def list_all_iff)
qed

subsection \<open>Storing parameters\<close>

lemma AccumulateTo_bounds:
  assumes "isNumericParamValue w" and "0 \<le> v" and "v \<le> MAX_PARAMETER_VALUE"
  shows "0 \<le> AccumulateTo w v" and "AccumulateTo w v \<le> MAX_PARAMETER_VALUE"
  using assms
  by (auto simp: AccumulateTo_def Let_def MAX_PARAMETER_VALUE_def isNumericParamValue_def
      word_le_def)

text \<open>The intermediate value of the accumulation fits the 32-bit integer the code computes
  it in, so the clamp of \<open>AccumulateTo\<close> comes before any overflow.\<close>

lemma AccumulateTo_no_overflow:
  assumes "isNumericParamValue w" and "0 \<le> v" and "v \<le> MAX_PARAMETER_VALUE"
  shows "0 \<le> v * 10 + (uint w - 0x30)" and "v * 10 + (uint w - 0x30) < 2 ^ 31"
  using assms by (auto simp: MAX_PARAMETER_VALUE_def isNumericParamValue_def word_le_def)

lemma value_or_bounds:
  "param_ok p \<Longrightarrow> 0 \<le> value_or p 0 \<and> value_or p 0 \<le> MAX_PARAMETER_VALUE"
  by (auto simp: param_ok_def value_or_def MAX_PARAMETER_VALUE_def)

lemma param_ok_omitted [simp]: "param_ok omitted"
  by (simp add: param_ok_def MAX_PARAMETER_VALUE_def)

lemma list_all_set_back: "list_all P xs \<Longrightarrow> P x \<Longrightarrow> list_all P (set_back xs x)"
  using set_set_back [of xs x] by (auto simp: list_all_iff)

lemma list_all_last: "list_all P xs \<Longrightarrow> xs \<noteq> [] \<Longrightarrow> P (last xs)"
  by (simp add: list_all_iff)

lemma accumulated_ok:
  assumes "isNumericParamValue w" and "list_all param_ok xs" and "xs \<noteq> []"
  shows "list_all param_ok (set_back xs (VTParam (AccumulateTo w (value_or (last xs) 0))))"
proof (rule list_all_set_back [OF assms(2)])
  have "param_ok (last xs)" using assms(2,3) by (rule list_all_last)
  with assms(1) show "param_ok (VTParam (AccumulateTo w (value_or (last xs) 0)))"
    using AccumulateTo_bounds [OF assms(1)] value_or_bounds by (force simp: param_ok_def)
qed

lemma ensure_parameter_ok:
  assumes "collected_ok s" and "values_ok s"
  shows "collected_ok (ensure_parameter s) \<and> values_ok (ensure_parameter s) \<and>
    sm_parameters (ensure_parameter s) \<noteq> [] \<and>
    sm_subParameters (ensure_parameter s) = sm_subParameters s \<and>
    sm_state (ensure_parameter s) = sm_state s"
proof (cases "sm_parameters s = []")
  case False
  with assms show ?thesis by (simp add: ensure_parameter_def)
next
  case True
  from assms(1) True have sub: "sm_subParameters s = []" "sm_subParameterRanges s = []"
    "unat (sm_subParameterCounter s) = 0" "\<not> sm_subParameterLimitOverflowed s"
    by (auto elim!: collected_okE simp: MAX_SUBPARAMETER_COUNT_def)
  have "collected_ok (ensure_parameter s)"
    by (rule collected_okI [where lens = "[0]"])
      (use True sub in \<open>simp_all add: ensure_parameter_def MAX_PARAMETER_COUNT_def
        MAX_SUBPARAMETER_COUNT_def\<close>)
  moreover have "values_ok (ensure_parameter s)"
    using assms(2) True by (simp add: ensure_parameter_def values_ok_def Let_def MAX_PARAMETER_COUNT_def)
  ultimately show ?thesis using True by (simp add: ensure_parameter_def Let_def)
qed

lemma ActionParam_ok:
  assumes "collected_ok s" and "values_ok s"
    and "isNumericParamValue w \<or> isParameterDelimiter w"
  shows "collected_ok (ActionParam w s) \<and> values_ok (ActionParam w s) \<and>
    sm_state (ActionParam w s) = sm_state s"
proof -
  let ?s = "ensure_parameter s"
  from ensure_parameter_ok [OF assms(1,2)] have e: "collected_ok ?s" "values_ok ?s"
    "sm_parameters ?s \<noteq> []" "sm_state ?s = sm_state s" by auto
  from e(1) obtain lens where lens: "length lens = length (sm_parameters ?s)"
    "\<forall>l \<in> set lens. l \<le> MAX_SUBPARAMETER_COUNT"
    "sm_subParameterRanges ?s = ranges_of 0 lens"
    "sum_list lens = length (sm_subParameters ?s)"
    "unat (sm_subParameterCounter ?s) = (if lens = [] then 0 else last lens)"
    "sm_subParameterLimitOverflowed ?s \<longrightarrow>
       unat (sm_subParameterCounter ?s) = MAX_SUBPARAMETER_COUNT"
    by (rule collected_okE)
  consider (over) "sm_parameterLimitOverflowed s"
    | (limit) "\<not> sm_parameterLimitOverflowed s" "isParameterDelimiter w"
        "length (sm_parameters ?s) \<ge> MAX_PARAMETER_COUNT"
    | (delim) "\<not> sm_parameterLimitOverflowed s" "isParameterDelimiter w"
        "length (sm_parameters ?s) < MAX_PARAMETER_COUNT"
    | (digit) "\<not> sm_parameterLimitOverflowed s" "\<not> isParameterDelimiter w"
    by linarith
  then show ?thesis
  proof cases
    case over
    with assms show ?thesis by (simp add: ActionParam_def)
  next
    case limit
    then have "ActionParam w s = ?s\<lparr>sm_parameterLimitOverflowed := True\<rparr>"
      by (simp add: ActionParam_def Let_def)
    with e show ?thesis by (simp add: collected_ok_lengths values_ok_def)
  next
    case delim
    have "collected_ok (ActionParam w s)"
      by (rule collected_okI [where lens = "lens @ [0]"])
        (use delim lens in \<open>simp_all add: ActionParam_def Let_def ranges_of_snoc\<close>)
    with delim e show ?thesis
      by (simp add: ActionParam_def Let_def values_ok_def)
  next
    case digit
    with assms(3) have "isNumericParamValue w" by simp
    with digit e accumulated_ok [of w "sm_parameters ?s"] show ?thesis
      by (simp add: ActionParam_def Let_def values_ok_def collected_ok_lengths)
  qed
qed

lemma collected_full:
  assumes "collected_ok t" and "unat (sm_subParameterCounter t) \<ge> MAX_SUBPARAMETER_COUNT"
  shows "sm_subParameters t \<noteq> []"
proof -
  from assms(1) obtain lens where "sum_list lens = length (sm_subParameters t)"
    and cnt: "unat (sm_subParameterCounter t) = (if lens = [] then 0 else last lens)"
    by (rule collected_okE)
  moreover from cnt assms(2) have "lens \<noteq> []" and "last lens \<ge> 6"
    by (auto simp: MAX_SUBPARAMETER_COUNT_def split: if_splits)
  then have "sum_list lens \<ge> 6"
    using member_le_sum_list [of "last lens" lens] by simp
  ultimately show ?thesis by auto
qed

lemma ActionSubParam_ok:
  assumes "collected_ok s" and "values_ok s"
    and w: "isSubParameterDelimiter w \<or> isNumericParamValue w \<and> sm_subParameters s \<noteq> []"
  shows "\<exists>s'. ActionSubParam w s = Some s' \<and> collected_ok s' \<and> values_ok s' \<and>
    sm_subParameters s' \<noteq> [] \<and> sm_state s' = sm_state s"
proof -
  let ?s = "ensure_parameter s"
  from ensure_parameter_ok [OF assms(1,2)] have e: "collected_ok ?s" "values_ok ?s"
    "sm_parameters ?s \<noteq> []" "sm_subParameters ?s = sm_subParameters s" "sm_state ?s = sm_state s"
    by auto
  from e(1) obtain lens where lens: "length lens = length (sm_parameters ?s)"
    "\<forall>l \<in> set lens. l \<le> MAX_SUBPARAMETER_COUNT"
    "sm_subParameterRanges ?s = ranges_of 0 lens"
    "sum_list lens = length (sm_subParameters ?s)"
    "unat (sm_subParameterCounter ?s) = (if lens = [] then 0 else last lens)"
    "sm_subParameterLimitOverflowed ?s \<longrightarrow>
       unat (sm_subParameterCounter ?s) = MAX_SUBPARAMETER_COUNT"
    by (rule collected_okE)
  from lens(1) e(3) have ne: "lens \<noteq> []" by auto
  from e(2) lens(1) have ll: "length lens \<le> MAX_PARAMETER_COUNT" by (simp add: values_ok_def)
  consider (over) "sm_subParameterLimitOverflowed s"
    | (limit) "\<not> sm_subParameterLimitOverflowed s" "isSubParameterDelimiter w"
        "unat (sm_subParameterCounter ?s) \<ge> MAX_SUBPARAMETER_COUNT"
    | (delim) "\<not> sm_subParameterLimitOverflowed s" "isSubParameterDelimiter w"
        "unat (sm_subParameterCounter ?s) < MAX_SUBPARAMETER_COUNT"
    | (digit) "\<not> sm_subParameterLimitOverflowed s" "\<not> isSubParameterDelimiter w"
    by linarith
  then show ?thesis
  proof cases
    case over
    then have "unat (sm_subParameterCounter s) = MAX_SUBPARAMETER_COUNT"
      using assms(1) by (auto elim!: collected_okE)
    with over assms(1,2) collected_full [of s] show ?thesis by (simp add: ActionSubParam_def)
  next
    case limit
    then have r: "ActionSubParam w s = Some (?s\<lparr>sm_subParameterLimitOverflowed := True\<rparr>)"
      by (simp add: ActionSubParam_def Let_def)
    have c: "collected_ok (?s\<lparr>sm_subParameterLimitOverflowed := True\<rparr>)"
      by (rule collected_okI [where lens = lens])
        (use limit lens ll ne in \<open>auto simp: le_antisym\<close>)
    from limit e(1,4) collected_full [of ?s] have "sm_subParameters s \<noteq> []" by simp
    with r c e show ?thesis by (simp add: values_ok_def)
  next
    case delim
    let ?r = "?s\<lparr>sm_subParameters := sm_subParameters ?s @ [omitted],
                 sm_subParameterRanges := set_back (sm_subParameterRanges ?s)
                   (fst (last (sm_subParameterRanges ?s)), snd (last (sm_subParameterRanges ?s)) + 1),
                 sm_subParameterCounter := sm_subParameterCounter ?s + 1\<rparr>"
    have r: "ActionSubParam w s = Some ?r"
      using delim lens(3) ne by (simp add: ActionSubParam_def Let_def)
    obtain ls l where ls: "lens = ls @ [l]" using ne by (cases lens rule: rev_cases) auto
    from delim lens(5) ls have l: "l < MAX_SUBPARAMETER_COUNT"
      "unat (sm_subParameterCounter ?s) = l" by auto
    have c: "collected_ok ?r"
    proof (rule collected_okI [where lens = "ls @ [l + 1]"])
      show "sm_subParameterRanges ?r = ranges_of 0 (ls @ [l + 1])"
        using lens(3) ls by (simp add: ranges_of_snoc)
      show "unat (sm_subParameterCounter ?r) = (if ls @ [l + 1] = [] then 0 else last (ls @ [l + 1]))"
        using l by (simp add: unat_Suc_byte MAX_SUBPARAMETER_COUNT_def)
      show "unat (sm_subParameterCounter ?r) = MAX_SUBPARAMETER_COUNT"
        if "sm_subParameterLimitOverflowed ?r"
        using that delim(1) by (simp add: ensure_parameter_def Let_def split: if_splits)
    qed (use lens ls l ll in auto)
    from r c e show ?thesis by (simp add: values_ok_def)
  next
    case digit
    with w have d: "isNumericParamValue w" "sm_subParameters s \<noteq> []" by auto
    with digit e accumulated_ok [of w "sm_subParameters s"] show ?thesis
      by (simp add: ActionSubParam_def Let_def values_ok_def collected_ok_lengths)
  qed
qed

end
