(* ===== verification/ParserPosition.thy ===== *)
theory ParserPosition
  imports ParserFrame
begin

text \<open>
  The position of the parser in the string it processes (\<^verbatim>\<open>_currentString\<close>, \<^verbatim>\<open>_runOffset\<close>,
  \<^verbatim>\<open>_runSize\<close>) and the kind of engine it serves are left alone by every character: a completion
  callback may process a string of its own, but the position is saved around it.
\<close>

definition sm_pos :: "('e, 'h, 'c) sm \<Rightarrow> bool \<times> wstring \<times> nat \<times> nat" where
  "sm_pos s = (sm_isEngineForInput s, sm_currentString s, sm_runOffset s, sm_runSize s)"

lemma sm_pos_core: "sm_core t = sm_core s \<Longrightarrow> sm_pos t = sm_pos s"
  by (simp add: sm_pos_def sm_core_eqD [of t s])

lemma sm_pos_update [simp]:
  "sm_pos (s\<lparr>sm_state := st\<rparr>) = sm_pos s"
  "sm_pos (s\<lparr>sm_cachedSequence := q\<rparr>) = sm_pos s"
  "sm_pos (s\<lparr>sm_parameters := ps\<rparr>) = sm_pos s"
  "sm_pos (s\<lparr>sm_dcsStringHandler := h\<rparr>) = sm_pos s"
  by (simp_all add: sm_pos_def)

lemma sm_pos_actions [simp]:
  "sm_pos (ActionClear s) = sm_pos s" "sm_pos (ActionCollect w s) = sm_pos s"
  "sm_pos (ActionIgnore s) = sm_pos s" "sm_pos (ActionOscParam w s) = sm_pos s"
  "sm_pos (ActionOscPut w s) = sm_pos s" "sm_pos (ensure_parameter s) = sm_pos s"
  by (simp_all add: sm_pos_def ActionClear_def ActionCollect_def ActionIgnore_def
      ActionOscParam_def ActionOscPut_def ensure_parameter_def Let_def)

lemma sm_pos_ActionParam [simp]: "sm_pos (ActionParam w s) = sm_pos s"
proof -
  have "sm_pos (ActionParam w s) = sm_pos (ensure_parameter s) \<or> ActionParam w s = s"
    by (simp add: ActionParam_def Let_def sm_pos_def)
  then show ?thesis by auto
qed

lemma sm_pos_ActionSubParam: "ActionSubParam w s = Some s' \<Longrightarrow> sm_pos s' = sm_pos s"
proof -
  assume "ActionSubParam w s = Some s'"
  then have "sm_pos s' = sm_pos (ensure_parameter s) \<or> s' = s"
    by (auto simp: ActionSubParam_def Let_def sm_pos_def split: if_splits)
  then show ?thesis by auto
qed

lemma sm_pos_Enter [simp]:
  "sm_pos (EnterGround s) = sm_pos s" "sm_pos (EnterEscape s) = sm_pos s"
  "sm_pos (EnterEscapeIntermediate s) = sm_pos s" "sm_pos (EnterCsiEntry s) = sm_pos s"
  "sm_pos (EnterCsiParam s) = sm_pos s" "sm_pos (EnterCsiSubParam s) = sm_pos s"
  "sm_pos (EnterCsiIgnore s) = sm_pos s" "sm_pos (EnterCsiIntermediate s) = sm_pos s"
  "sm_pos (EnterOscParam s) = sm_pos s" "sm_pos (EnterOscString s) = sm_pos s"
  "sm_pos (EnterOscTermination s) = sm_pos s" "sm_pos (EnterSs3Entry s) = sm_pos s"
  "sm_pos (EnterSs3Param s) = sm_pos s" "sm_pos (EnterVt52Param s) = sm_pos s"
  "sm_pos (EnterDcsEntry s) = sm_pos s" "sm_pos (EnterDcsParam s) = sm_pos s"
  "sm_pos (EnterDcsIgnore s) = sm_pos s" "sm_pos (EnterDcsIntermediate s) = sm_pos s"
  "sm_pos (EnterDcsPassThrough s) = sm_pos s"
  by (simp_all add: EnterGround_def EnterEscape_def EnterEscapeIntermediate_def
      EnterCsiEntry_def EnterCsiParam_def EnterCsiSubParam_def EnterCsiIgnore_def
      EnterCsiIntermediate_def EnterOscParam_def EnterOscString_def EnterOscTermination_def
      EnterSs3Entry_def EnterSs3Param_def EnterVt52Param_def EnterDcsEntry_def EnterDcsParam_def
      EnterDcsIgnore_def EnterDcsIntermediate_def EnterDcsPassThrough_def)

lemma sm_pos_EnterSosPmApcString [simp]: "sm_pos (EnterSosPmApcString ops s) = sm_pos s"
  unfolding EnterSosPmApcString_def by (subst sm_pos_core [OF sm_core_call]) simp

lemma sm_pos_ActionDcsDispatch [simp]: "sm_pos (ActionDcsDispatch ops w s) = sm_pos s"
proof -
  obtain r s1 where c: "call (eng_ActionDcsDispatch ops (Finalize w (sm_identifier s))
      (params_only (sm_parameters s))) s = (r, s1)"
    by (metis surj_pair)
  then have "sm_pos s1 = sm_pos s" by (intro sm_pos_core sm_core_callD)
  with c show ?thesis by (cases r) (auto simp: ActionDcsDispatch_def Let_def)
qed

lemma sm_pos_ActionInterrupt: "ActionInterrupt ops s = Some s' \<Longrightarrow> sm_pos s' = sm_pos s"
  by (auto simp: ActionInterrupt_def sm_pos_core [OF sm_core_call] split: if_splits option.splits)

lemmas sm_pos_engine_action = engine_action_core [THEN sm_pos_core]

text \<open>\<^verbatim>\<open>_isEngineForInput\<close> is a constant of the state machine, and what a completion callback does
  to the machine leaves it alone too.\<close>

locale callback_kind =
  fixes ops :: "('e, 'h, 'c) engine_ops"
  assumes callback_kind:
    "eng_RunCallback ops cb s = Some s' \<Longrightarrow> sm_isEngineForInput s' = sm_isEngineForInput s"
begin

lemma sm_pos_csi_dispatch_event: "csi_dispatch_event ops w s = Some s' \<Longrightarrow> sm_pos s' = sm_pos s"
proof -
  assume "csi_dispatch_event ops w s = Some s'"
  then obtain s1 where s1: "ActionCsiDispatch ops w s = Some s1"
    "ExecuteCsiCompleteCallback ops (EnterGround s1) = Some s'"
    by (auto simp: csi_dispatch_event_def split: Option.bind_splits)
  then have "sm_pos s' = sm_pos (EnterGround s1)"
    by (auto simp: ExecuteCsiCompleteCallback_def sm_pos_def split: option.splits Option.bind_splits
        dest: callback_kind)
  with s1 show ?thesis by (simp add: sm_pos_engine_action)
qed

lemmas sm_pos_partial =
  sm_pos_engine_action sm_pos_csi_dispatch_event sm_pos_ActionSubParam sm_pos_ActionInterrupt

lemma sm_pos_EventEscape: "EventEscape ops w s = Some s' \<Longrightarrow> sm_pos s' = sm_pos s"
  by (auto simp: EventEscape_def split: if_splits Option.bind_splits dest: sm_pos_partial)

lemma sm_pos_EventVt52Param: "EventVt52Param ops w s = Some s' \<Longrightarrow> sm_pos s' = sm_pos s"
  by (auto simp: EventVt52Param_def Let_def split: if_splits Option.bind_splits dest!: sm_pos_partial)

lemma sm_pos_EventDcsPassThrough: "EventDcsPassThrough ops w s = Some s' \<Longrightarrow> sm_pos s' = sm_pos s"
  by (auto simp: EventDcsPassThrough_def sm_pos_core [OF sm_core_callD]
      split: if_splits option.splits prod.splits)

lemma sm_pos_csi_events:
  "EventCsiEntry ops w s = Some s' \<Longrightarrow> sm_pos s' = sm_pos s"
  "EventCsiIntermediate ops w s = Some s' \<Longrightarrow> sm_pos s' = sm_pos s"
  "EventCsiIgnore ops w s = Some s' \<Longrightarrow> sm_pos s' = sm_pos s"
  "EventCsiParam ops w s = Some s' \<Longrightarrow> sm_pos s' = sm_pos s"
  "EventCsiSubParam ops w s = Some s' \<Longrightarrow> sm_pos s' = sm_pos s"
  by (auto simp: EventCsiEntry_def EventCsiIntermediate_def EventCsiIgnore_def EventCsiParam_def
      EventCsiSubParam_def split: if_splits Option.bind_splits dest: sm_pos_partial)

lemma sm_pos_other_events:
  "EventGround ops w s = Some s' \<Longrightarrow> sm_pos s' = sm_pos s"
  "EventEscapeIntermediate ops w s = Some s' \<Longrightarrow> sm_pos s' = sm_pos s"
  "EventOscParam ops w s = Some s' \<Longrightarrow> sm_pos s' = sm_pos s"
  "EventOscString ops w s = Some s' \<Longrightarrow> sm_pos s' = sm_pos s"
  "EventOscTermination ops w s = Some s' \<Longrightarrow> sm_pos s' = sm_pos s"
  "EventSs3Entry ops w s = Some s' \<Longrightarrow> sm_pos s' = sm_pos s"
  "EventSs3Param ops w s = Some s' \<Longrightarrow> sm_pos s' = sm_pos s"
  "EventDcsEntry ops w s = Some s' \<Longrightarrow> sm_pos s' = sm_pos s"
  "EventDcsIntermediate ops w s = Some s' \<Longrightarrow> sm_pos s' = sm_pos s"
  "EventDcsParam ops w s = Some s' \<Longrightarrow> sm_pos s' = sm_pos s"
  by (auto simp: EventGround_def EventEscapeIntermediate_def EventOscParam_def EventOscString_def
      EventOscTermination_def EventSs3Entry_def EventSs3Param_def EventDcsEntry_def
      EventDcsIntermediate_def EventDcsParam_def Let_def
      split: if_splits Option.bind_splits dest: sm_pos_partial dest!: sm_pos_EventEscape)

lemma sm_pos_state_event: "state_event ops w s = Some s' \<Longrightarrow> sm_pos s' = sm_pos s"
  by (cases "sm_state s")
    (simp_all add: state_event_def EventDcsIgnore_def EventSosPmApcString_def sm_pos_EventEscape
      sm_pos_EventVt52Param sm_pos_EventDcsPassThrough sm_pos_csi_events sm_pos_other_events
      ActionIgnore_def)

lemma sm_pos_step:
  "ProcessCharacter ops w s = Some s' \<Longrightarrow> \<not> isC1ControlCharacter w \<Longrightarrow> sm_pos s' = sm_pos s"
  by (subst (asm) ProcessCharacter.simps)
    (auto simp: Let_def split: if_splits Option.bind_splits
      dest!: sm_pos_partial dest: sm_pos_state_event)

lemma sm_pos_ProcessCharacter: "ProcessCharacter ops w s = Some s' \<Longrightarrow> sm_pos s' = sm_pos s"
  by (cases "isC1ControlCharacter w")
    (auto simp: ProcessCharacter_C1 split: if_splits Option.bind_splits
      dest!: sm_pos_step [OF _ ESC_not_C1] sm_pos_step [OF _ c1To7Bit_not_C1] dest: sm_pos_step)

end

end
