(* ===== verification/ParserProgress.thy ===== *)
theory ParserProgress
  imports ParserSafety ParserPosition
begin

text \<open>
  Progress and preservation for the whole parser. An engine that never refuses a pass-through
  string and whose completion callbacks keep the parser well formed is a \<open>parser_engine\<close>; for
  such an engine every character and every string is processed to the end, in a well-formed
  state.
\<close>

subsection \<open>Entering a state\<close>

lemma wf_EnterGround [wf_intros]: "values_ok s \<Longrightarrow> sm_wf (EnterGround s)"
  by (simp add: EnterGround_def sm_wf_def state_ok_def)

lemma collected_ok_ActionClear [simp]: "collected_ok (ActionClear s)"
  by (simp add: ActionClear_def collected_ok_def lens_of_def MAX_SUBPARAMETER_COUNT_def)

lemma values_ok_ActionClear [simp]: "values_ok (ActionClear s)"
  by (simp add: ActionClear_def values_ok_def VTIDBuilder_Clear_def MAX_PARAMETER_COUNT_def
      MAX_PARAMETER_VALUE_def)

lemma ActionClear_fields [simp]:
  "sm_state (ActionClear s) = sm_state s" "sm_parameters (ActionClear s) = []"
  "sm_isEngineForInput (ActionClear s) = sm_isEngineForInput s"
  by (simp_all add: ActionClear_def)

lemma wf_Enter_cleared [wf_intros]:
  "sm_wf (EnterEscape s)" "sm_wf (EnterCsiEntry s)" "sm_wf (EnterSs3Entry s)"
  "sm_wf (EnterDcsEntry s)"
  by (simp_all add: EnterEscape_def EnterCsiEntry_def EnterSs3Entry_def EnterDcsEntry_def
      sm_wf_def state_ok_def)

lemma wf_Enter_collected [wf_intros]:
  assumes "values_ok s" and "collected_ok s"
  shows "sm_wf (EnterCsiParam s)" "sm_wf (EnterCsiIgnore s)" "sm_wf (EnterCsiIntermediate s)"
    "sm_wf (EnterOscParam s)" "sm_wf (EnterOscString s)" "sm_wf (EnterOscTermination s)"
    "sm_wf (EnterSs3Param s)" "sm_wf (EnterDcsParam s)" "sm_wf (EnterDcsIgnore s)"
    "sm_wf (EnterDcsIntermediate s)"
    "sm_subParameters s \<noteq> [] \<Longrightarrow> sm_wf (EnterCsiSubParam s)"
    "sm_dcsStringHandler s \<noteq> None \<Longrightarrow> sm_wf (EnterDcsPassThrough s)"
    "sm_parameters s = [] \<Longrightarrow> sm_wf (EnterEscapeIntermediate s)"
    "sm_parameters s = [] \<Longrightarrow> sm_wf (EnterVt52Param s)"
  using assms
  by (simp_all add: EnterCsiParam_def EnterCsiIgnore_def EnterCsiIntermediate_def
      EnterOscParam_def EnterOscString_def EnterOscTermination_def EnterSs3Param_def
      EnterDcsParam_def EnterDcsIgnore_def EnterDcsIntermediate_def EnterCsiSubParam_def
      EnterDcsPassThrough_def EnterEscapeIntermediate_def EnterVt52Param_def sm_wf_def state_ok_def)

lemma wf_EnterSosPmApcString [wf_intros]:
  assumes "values_ok s" and "collected_ok s"
  shows "sm_wf (EnterSosPmApcString ops s)"
proof -
  let ?t = "s\<lparr>sm_state := SosPmApcString, sm_cachedSequence := None\<rparr>"
  have "sm_core (EnterSosPmApcString ops s) = sm_core ?t"
    unfolding EnterSosPmApcString_def by (rule sm_core_call)
  moreover have "sm_wf ?t" using assms by (simp add: sm_wf_def state_ok_def)
  ultimately show ?thesis by (rule core_transfer(3))
qed

lemma ActionCollect_ok:
  "values_ok s \<Longrightarrow> values_ok (ActionCollect w s)"
  "collected_ok (ActionCollect w s) = collected_ok s"
  "sm_parameters (ActionCollect w s) = sm_parameters s"
  "sm_state (ActionCollect w s) = sm_state s"
  by (auto simp: ActionCollect_def values_ok_def AddIntermediate_def elim!: dvdE)

lemma ActionIgnore_id [simp]: "ActionIgnore s = s"
  by (simp add: ActionIgnore_def)

lemma sm_wf_values: "sm_wf s \<Longrightarrow> values_ok s"
  by (simp add: sm_wf_def)

lemma sm_wf_collected:
  "sm_wf s \<Longrightarrow> sm_state s \<noteq> Ground \<Longrightarrow> sm_state s \<noteq> Vt52Param \<Longrightarrow> collected_ok s"
  by (auto simp: sm_wf_def state_ok_def split: VTStates.splits)

lemma sm_wf_position:
  assumes "sm_wf s"
  shows "sm_wf (s\<lparr>sm_currentString := x, sm_runOffset := y, sm_runSize := z\<rparr>)"
proof -
  let ?t = "s\<lparr>sm_currentString := x, sm_runOffset := y, sm_runSize := z\<rparr>"
  have "values_ok ?t = values_ok s" by (simp add: values_ok_def)
  moreover have "collected_ok ?t = collected_ok s" by (simp add: collected_ok_def)
  then have "state_ok ?t = state_ok s" by (simp add: state_ok_def split: VTStates.split)
  ultimately show ?thesis using assms by (simp add: sm_wf_def)
qed

lemma wf_Escape_params:
  "sm_wf s \<Longrightarrow> sm_state s = Escape \<or> sm_state s = EscapeIntermediate \<Longrightarrow> sm_parameters s = []"
  by (auto simp: sm_wf_def state_ok_def)

lemma collect_stays:
  "sm_wf s \<Longrightarrow> sm_state s \<in> {EscapeIntermediate, CsiIntermediate, DcsIntermediate} \<Longrightarrow>
   sm_wf (ActionCollect w s)"
  by (auto simp: sm_wf_def state_ok_def ActionCollect_ok)

lemma param_stays:
  assumes "sm_wf s" and "sm_state s \<in> {CsiParam, Ss3Param, DcsParam}"
    and "isNumericParamValue w \<or> isParameterDelimiter w"
  shows "sm_wf (ActionParam w s)"
proof -
  from assms(1,2) have "collected_ok s" "values_ok s"
    by (auto simp: sm_wf_def state_ok_def)
  from ActionParam_ok [OF this assms(3)] assms(2) show ?thesis
    by (auto simp: sm_wf_def state_ok_def)
qed

lemma osc_put_stays: "sm_wf s \<Longrightarrow> sm_state s = OscString \<Longrightarrow> sm_wf (ActionOscPut w s)"
  by (simp add: sm_wf_def state_ok_def ActionOscPut_def)

subsection \<open>Dispatching a device control string\<close>

lemma ActionDcsDispatch_wf:
  assumes "values_ok s" and "collected_ok s"
  shows "sm_wf (ActionDcsDispatch ops w s)"
proof -
  obtain r s1 where c: "call (eng_ActionDcsDispatch ops (Finalize w (sm_identifier s))
      (params_only (sm_parameters s))) s = (r, s1)"
    by (metis surj_pair)
  then have core: "sm_core s1 = sm_core s" by (rule sm_core_callD)
  define s2 where "s2 = (case r of None \<Rightarrow> s1 | Some h \<Rightarrow> s1\<lparr>sm_dcsStringHandler := h\<rparr>)"
  from core assms have "values_ok s2" "collected_ok s2"
    by (auto simp: s2_def core_transfer(1,2) [OF core] split: option.split)
  moreover have "ActionDcsDispatch ops w s =
      (if sm_dcsStringHandler s2 \<noteq> None then EnterDcsPassThrough s2 else EnterDcsIgnore s2)"
    by (cases r) (simp_all add: ActionDcsDispatch_def c s2_def Let_def)
  ultimately show ?thesis by (auto intro: wf_Enter_collected)
qed

lemma ActionInterrupt_ok:
  assumes "sm_wf s"
  shows "\<exists>s'. ActionInterrupt ops s = Some s' \<and> values_ok s'"
proof (cases "sm_state s = DcsPassThrough")
  case False
  with assms show ?thesis by (simp add: ActionInterrupt_def sm_wf_def)
next
  case True
  with assms obtain h where h: "sm_dcsStringHandler s = Some h"
    by (auto simp: sm_wf_def state_ok_def)
  let ?t = "snd (call (eng_CallStringHandler ops h ESC) s)"
  have "values_ok ?t"
    using assms by (intro core_transfer(1) [OF sm_core_call]) (simp add: sm_wf_def)
  with True h show ?thesis by (simp add: ActionInterrupt_def)
qed

subsection \<open>The contract of an engine\<close>

locale parser_engine = callback_kind ops
  for ops :: "('e, 'h, 'c) engine_ops" +
  assumes accepts: "passthrough_accepts ops"
    and callback_safe: "sm_wf s \<Longrightarrow> safe_result (eng_RunCallback ops cb s)"
begin

lemma exec_total: "\<exists>s'. map_option snd (SafeExecute ops f s) = Some s' \<and> sm_core s' = sm_core s"
  using SafeExecute_total [of ops f s, OF FlushToTerminal_total [OF accepts]] SafeExecute_core
  by (metis option.simps(9) snd_conv)

lemma action_total:
  "\<exists>s'. ActionExecute ops w s = Some s' \<and> sm_core s' = sm_core s"
  "\<exists>s'. ActionExecuteFromEscape ops w s = Some s' \<and> sm_core s' = sm_core s"
  "\<exists>s'. ActionPrint ops w s = Some s' \<and> sm_core s' = sm_core s"
  "\<exists>s'. ActionPrintString ops str s = Some s' \<and> sm_core s' = sm_core s"
  "\<exists>s'. ActionEscDispatch ops w s = Some s' \<and> sm_core s' = sm_core s"
  "\<exists>s'. ActionVt52EscDispatch ops w s = Some s' \<and> sm_core s' = sm_core s"
  "\<exists>s'. ActionCsiDispatch ops w s = Some s' \<and> sm_core s' = sm_core s"
  "\<exists>s'. ActionOscDispatch ops s = Some s' \<and> sm_core s' = sm_core s"
  "\<exists>s'. ActionSs3Dispatch ops w s = Some s' \<and> sm_core s' = sm_core s"
  unfolding ActionExecute_def ActionExecuteFromEscape_def ActionPrint_def ActionPrintString_def
    ActionEscDispatch_def ActionVt52EscDispatch_def ActionCsiDispatch_def ActionOscDispatch_def
    ActionSs3Dispatch_def
  by (rule exec_total)+

text \<open>An action on its own keeps the state; an action followed by the ground state ends any
  sequence.\<close>

lemma action_keeps: "\<exists>s'. m = Some s' \<and> sm_core s' = sm_core s \<Longrightarrow> sm_wf s \<Longrightarrow> safe_result m"
  by (auto intro: core_transfer(3))

lemma action_to_ground:
  "\<exists>s'. m = Some s' \<and> sm_core s' = sm_core s \<Longrightarrow> values_ok s \<Longrightarrow>
   safe_result (m \<bind> (\<lambda>s. Some (EnterGround s)))"
  by (clarsimp, rule wf_EnterGround, rule core_transfer(1), assumption+)

lemmas action_safe [wf_intros] =
  action_total(1) [THEN action_keeps] action_total(3) [THEN action_keeps]

lemmas ground_safe [wf_intros] =
  action_total(1) [THEN action_to_ground] action_total(2) [THEN action_to_ground]
  action_total(5) [THEN action_to_ground] action_total(6) [THEN action_to_ground]
  action_total(8) [THEN action_to_ground] action_total(9) [THEN action_to_ground]

lemma csi_dispatch_safe [wf_intros]:
  assumes "values_ok s"
  shows "safe_result (csi_dispatch_event ops w s)"
proof -
  obtain s1 where s1: "ActionCsiDispatch ops w s = Some s1" "sm_core s1 = sm_core s"
    using action_total(7) by blast
  let ?g = "EnterGround s1"
  have g: "sm_wf ?g" by (rule wf_EnterGround [OF core_transfer(1) [OF s1(2) assms]])
  show ?thesis
  proof (cases "sm_onCsiCompleteCallback ?g")
    case None
    with s1 g show ?thesis by (simp add: csi_dispatch_event_def ExecuteCsiCompleteCallback_def)
  next
    case (Some cb)
    have "sm_wf (?g\<lparr>sm_onCsiCompleteCallback := None\<rparr>)"
      by (rule core_transfer(3) [OF _ g]) simp
    then obtain s2 where s2: "eng_RunCallback ops cb (?g\<lparr>sm_onCsiCompleteCallback := None\<rparr>) = Some s2"
      "sm_wf s2" using callback_safe safe_resultE by blast
    have "sm_wf (s2\<lparr>sm_currentString := x, sm_runOffset := y, sm_runSize := z\<rparr>)" for x y z
      using s2(2) by (rule sm_wf_position)
    with s1 s2 Some show ?thesis
      by (simp add: csi_dispatch_event_def ExecuteCsiCompleteCallback_def)
  qed
qed

lemma sub_param_safe [wf_intros]:
  assumes "values_ok s" and "collected_ok s" and "isSubParameterDelimiter w"
  shows "safe_result (ActionSubParam w s \<bind> (\<lambda>s. Some (EnterCsiSubParam s)))"
proof -
  obtain s' where "ActionSubParam w s = Some s'" "collected_ok s'" "values_ok s'"
    "sm_subParameters s' \<noteq> []"
    using ActionSubParam_ok [OF assms(2,1)] assms(3) by blast
  then show ?thesis by (simp add: wf_Enter_collected)
qed

subsection \<open>Every event is safe\<close>

lemma EventGround_safe: "sm_wf s \<Longrightarrow> safe_result (EventGround ops w s)"
  by (simp add: EventGround_def wf_intros)

lemma EventEscape_safe:
  assumes "sm_wf s" and "sm_state s = Escape"
  shows "safe_result (EventEscape ops w s)"
proof -
  have s: "values_ok s" "collected_ok s"
    using assms by (simp_all add: sm_wf_values sm_wf_collected)
  show ?thesis
    by (simp add: EventEscape_def assms s wf_Escape_params [OF assms(1)] ActionCollect_ok wf_intros)
qed

lemma EventEscapeIntermediate_safe:
  assumes "sm_wf s" and "sm_state s = EscapeIntermediate"
  shows "safe_result (EventEscapeIntermediate ops w s)"
proof -
  have s: "values_ok s" "collected_ok s"
    using assms by (simp_all add: sm_wf_values sm_wf_collected)
  show ?thesis
    by (simp add: EventEscapeIntermediate_def assms s wf_Escape_params [OF assms(1)] collect_stays [OF assms(1)] wf_intros)
qed

lemma EventCsiEntry_safe:
  assumes "sm_wf s" and "sm_state s = CsiEntry"
  shows "safe_result (EventCsiEntry ops w s)"
proof -
  have s: "values_ok s" "collected_ok s"
    using assms by (simp_all add: sm_wf_values sm_wf_collected)
  show ?thesis
    by (simp add: EventCsiEntry_def assms s ActionCollect_ok ActionParam_ok wf_intros)
qed

lemma EventCsiIntermediate_safe:
  assumes "sm_wf s" and "sm_state s = CsiIntermediate"
  shows "safe_result (EventCsiIntermediate ops w s)"
proof -
  have s: "values_ok s" "collected_ok s"
    using assms by (simp_all add: sm_wf_values sm_wf_collected)
  show ?thesis
    by (simp add: EventCsiIntermediate_def assms s collect_stays [OF assms(1)] wf_intros)
qed

lemma EventCsiIgnore_safe:
  assumes "sm_wf s" and "sm_state s = CsiIgnore"
  shows "safe_result (EventCsiIgnore ops w s)"
proof -
  have s: "values_ok s" "collected_ok s"
    using assms by (simp_all add: sm_wf_values sm_wf_collected)
  show ?thesis
    by (simp add: EventCsiIgnore_def assms s wf_intros)
qed

lemma EventCsiParam_safe:
  assumes "sm_wf s" and "sm_state s = CsiParam"
  shows "safe_result (EventCsiParam ops w s)"
proof -
  have s: "values_ok s" "collected_ok s"
    using assms by (simp_all add: sm_wf_values sm_wf_collected)
  show ?thesis
    by (simp add: EventCsiParam_def assms s ActionCollect_ok param_stays [OF assms(1)] wf_intros)
qed

lemma EventCsiSubParam_safe:
  assumes "sm_wf s" and "sm_state s = CsiSubParam"
  shows "safe_result (EventCsiSubParam ops w s)"
proof -
  from assms have s: "values_ok s" "collected_ok s" "sm_subParameters s \<noteq> []"
    by (auto simp: sm_wf_def state_ok_def)
  have "safe_result (ActionSubParam w s)" if "isNumericParamValue w \<or> isSubParameterDelimiter w"
    using ActionSubParam_ok [OF s(2,1), of w] that s(3) assms(2)
    by (auto simp: sm_wf_def state_ok_def)
  with assms s show ?thesis
    by (simp add: EventCsiSubParam_def ActionCollect_ok ActionParam_ok wf_intros)
qed

lemma EventOscParam_safe:
  assumes "sm_wf s" and "sm_state s = OscParam"
  shows "safe_result (EventOscParam ops w s)"
proof -
  from assms have s: "values_ok s" "collected_ok s" by (auto simp: sm_wf_def state_ok_def)
  have "sm_wf (ActionOscParam w s)" if "isNumericParamValue w"
    using assms AccumulateTo_bounds [OF that, of "sm_oscParameter s"]
    by (auto simp: ActionOscParam_def sm_wf_def values_ok_def state_ok_def)
  with assms s show ?thesis by (simp add: EventOscParam_def wf_intros)
qed

lemma EventOscString_safe:
  assumes "sm_wf s" and "sm_state s = OscString"
  shows "safe_result (EventOscString ops w s)"
proof -
  have s: "values_ok s" "collected_ok s"
    using assms by (simp_all add: sm_wf_values sm_wf_collected)
  show ?thesis
    by (simp add: EventOscString_def assms s osc_put_stays [OF assms(1)] wf_intros)
qed

lemma EventOscTermination_safe:
  assumes "sm_wf s" and "sm_state s = OscTermination"
  shows "safe_result (EventOscTermination ops w s)"
proof -
  have "sm_state (EnterEscape s) = Escape" by (simp add: EnterEscape_def)
  with EventEscape_safe wf_Enter_cleared(1) assms show ?thesis
    by (simp add: EventOscTermination_def sm_wf_values wf_intros)
qed

lemma EventSs3Entry_safe:
  assumes "sm_wf s" and "sm_state s = Ss3Entry"
  shows "safe_result (EventSs3Entry ops w s)"
proof -
  have s: "values_ok s" "collected_ok s"
    using assms by (simp_all add: sm_wf_values sm_wf_collected)
  show ?thesis
    by (simp add: EventSs3Entry_def assms s ActionParam_ok wf_intros)
qed

lemma EventSs3Param_safe:
  assumes "sm_wf s" and "sm_state s = Ss3Param"
  shows "safe_result (EventSs3Param ops w s)"
proof -
  have s: "values_ok s" "collected_ok s"
    using assms by (simp_all add: sm_wf_values sm_wf_collected)
  show ?thesis
    by (simp add: EventSs3Param_def assms s param_stays [OF assms(1)] wf_intros)
qed

lemma EventVt52Param_safe:
  assumes "sm_wf s" and "sm_state s = Vt52Param"
  shows "safe_result (EventVt52Param ops w s)"
proof -
  let ?s = "s\<lparr>sm_parameters := sm_parameters s @ [VTParam (uint w)]\<rparr>"
  have "uint w < 65536" using unsigned_less [of w, where ?'a = int] by simp
  moreover have "-1 \<le> uint w" by (rule order_trans [of _ 0]) simp_all
  ultimately have "values_ok ?s"
    using assms by (auto simp: sm_wf_def values_ok_def state_ok_def param_ok_def
        MAX_PARAMETER_VALUE_def MAX_PARAMETER_COUNT_def)
  moreover have "sm_wf ?s" if "length (sm_parameters ?s) \<noteq> 2"
    using assms that \<open>values_ok ?s\<close>
    by (cases "sm_parameters s") (auto simp: sm_wf_def state_ok_def)
  ultimately show ?thesis
    using assms by (simp add: EventVt52Param_def Let_def wf_intros)
qed

lemma EventDcsEntry_safe:
  assumes "sm_wf s" and "sm_state s = DcsEntry"
  shows "safe_result (EventDcsEntry ops w s)"
proof -
  have s: "values_ok s" "collected_ok s"
    using assms by (simp_all add: sm_wf_values sm_wf_collected)
  show ?thesis
    by (simp add: EventDcsEntry_def assms s ActionCollect_ok ActionParam_ok ActionDcsDispatch_wf wf_intros)
qed

lemma EventDcsIntermediate_safe:
  assumes "sm_wf s" and "sm_state s = DcsIntermediate"
  shows "safe_result (EventDcsIntermediate ops w s)"
proof -
  have s: "values_ok s" "collected_ok s"
    using assms by (simp_all add: sm_wf_values sm_wf_collected)
  show ?thesis
    by (simp add: EventDcsIntermediate_def assms s collect_stays [OF assms(1)] ActionDcsDispatch_wf wf_intros)
qed

lemma EventDcsParam_safe:
  assumes "sm_wf s" and "sm_state s = DcsParam"
  shows "safe_result (EventDcsParam ops w s)"
proof -
  have s: "values_ok s" "collected_ok s"
    using assms by (simp_all add: sm_wf_values sm_wf_collected)
  show ?thesis
    by (simp add: EventDcsParam_def assms s Let_def ActionCollect_ok param_stays [OF assms(1)] ActionDcsDispatch_wf wf_intros)
qed

lemma EventDcsPassThrough_safe:
  assumes "sm_wf s" and "sm_state s = DcsPassThrough"
  shows "safe_result (EventDcsPassThrough ops w s)"
proof -
  from assms obtain h where h: "sm_dcsStringHandler s = Some h"
    by (auto simp: sm_wf_def state_ok_def)
  obtain ok s1 where c: "call (eng_CallStringHandler ops h w) s = (ok, s1)" by (metis surj_pair)
  then have core: "sm_core s1 = sm_core s" by (rule sm_core_callD)
  have "sm_wf s1" using core assms(1) by (rule core_transfer(3))
  moreover have "sm_wf (EnterDcsIgnore s1)"
    using assms by (intro wf_Enter_collected)
      (auto simp: core_transfer(1,2) [OF core] sm_wf_def state_ok_def)
  ultimately show ?thesis using h c assms(1) by (simp add: EventDcsPassThrough_def)
qed

lemmas event_safe =
  EventGround_safe EventEscape_safe EventEscapeIntermediate_safe EventCsiEntry_safe
  EventCsiIntermediate_safe EventCsiIgnore_safe EventCsiParam_safe EventCsiSubParam_safe
  EventOscParam_safe EventOscString_safe EventOscTermination_safe EventSs3Entry_safe
  EventSs3Param_safe EventVt52Param_safe EventDcsEntry_safe EventDcsIntermediate_safe
  EventDcsParam_safe EventDcsPassThrough_safe

lemma state_event_safe: "sm_wf s \<Longrightarrow> safe_result (state_event ops w s)"
  by (cases "sm_state s")
    (simp_all add: state_event_def event_safe EventDcsIgnore_def EventSosPmApcString_def)

lemma ESC_safe: "sm_wf s \<Longrightarrow> safe_result (ProcessCharacter ops ESC s)"
proof (cases "sm_state s = OscString \<or> sm_state s = OscParam")
  case True
  assume "sm_wf s"
  with True show ?thesis
    by (subst ProcessCharacter.simps) (auto simp: Let_def ESC_not_C1 intro: state_event_safe)
next
  case False
  assume "sm_wf s"
  then obtain s' where "ActionInterrupt ops s = Some s'" using ActionInterrupt_ok by blast
  with False show ?thesis by (simp add: ProcessCharacter_ESC wf_Enter_cleared)
qed

lemma step_safe:
  assumes "sm_wf s" and "\<not> isC1ControlCharacter w"
  shows "safe_result (ProcessCharacter ops w s)"
proof (cases "(w = CAN \<or> w = SUB) \<and> \<not> (sm_state s = Escape \<and> sm_isEngineForInput s)")
  case True
  obtain s1 where s1: "ActionInterrupt ops s = Some s1" "values_ok s1"
    using ActionInterrupt_ok assms(1) by blast
  with True show ?thesis by (auto simp: ProcessCharacter_cancel intro!: ground_safe(1))
next
  case False
  show ?thesis
  proof (cases "isEscape w")
    case True
    with assms ESC_safe show ?thesis by (simp add: isEscape_def)
  next
    case esc: False
    with False assms have "ProcessCharacter ops w s = state_event ops w s"
      by (subst ProcessCharacter.simps) (auto simp: Let_def)
    with assms(1) show ?thesis by (simp add: state_event_safe)
  qed
qed

lemma process_character_safe:
  assumes "sm_wf s"
  shows "safe_result (ProcessCharacter ops w s)"
proof (cases "isC1ControlCharacter w")
  case False
  with assms show ?thesis by (rule step_safe)
next
  case True
  from assms obtain s1 where s1: "ProcessCharacter ops ESC s = Some s1" "sm_wf s1"
    using ESC_safe safe_resultE by blast
  with True assms step_safe [OF s1(2) c1To7Bit_not_C1 [OF True]] show ?thesis
    by (simp add: ProcessCharacter_C1)
qed

end

end
