(* ===== verification/ParserTotality.thy ===== *)
theory ParserTotality
  imports ParserProgress
begin

text \<open>
  Processing a string runs to completion: the loops of \<^verbatim>\<open>ProcessString\<close> keep the parser well
  formed and the current run inside the string, and the heuristic at the end of the string only
  looks at a run that is not empty.
\<close>

lemma sm_wf_update:
  assumes "sm_wf s"
  shows "sm_wf (s\<lparr>sm_runSize := n, sm_processingLastCharacter := b\<rparr>)"
    "sm_wf (s\<lparr>sm_runOffset := m, sm_runSize := n\<rparr>)"
    "sm_wf (s\<lparr>sm_currentString := str, sm_runOffset := m, sm_runSize := n, sm_injections := js\<rparr>)"
    "sm_wf (s\<lparr>sm_cachedSequence := q\<rparr>)"
proof -
  let ?t = "s\<lparr>sm_runSize := n, sm_processingLastCharacter := b\<rparr>"
  have "values_ok ?t = values_ok s" by (simp add: values_ok_def)
  moreover have "collected_ok ?t = collected_ok s" by (simp add: collected_ok_def)
  then have "state_ok ?t = state_ok s" by (simp add: state_ok_def split: VTStates.split)
  ultimately show "sm_wf ?t" using assms by (simp add: sm_wf_def)
  show "sm_wf (s\<lparr>sm_runOffset := m, sm_runSize := n\<rparr>)"
    using sm_wf_position [OF assms, where x = "sm_currentString s" and y = m and z = n] by simp
  show "sm_wf (s\<lparr>sm_currentString := str, sm_runOffset := m, sm_runSize := n, sm_injections := js\<rparr>)"
    by (rule core_transfer(3) [OF _ sm_wf_position [OF assms, where x = str and y = m and z = n]]) (simp add: sm_core_def)
  show "sm_wf (s\<lparr>sm_cachedSequence := q\<rparr>)"
    by (rule core_transfer(3) [OF _ assms]) simp
qed

text \<open>Processing stands at index \<open>i\<close> of the string when the current run ends there.\<close>

definition at_index :: "wstring \<Rightarrow> nat \<Rightarrow> ('e, 'h, 'c) sm \<Rightarrow> bool" where
  "at_index str i s \<longleftrightarrow>
     sm_wf s \<and> sm_currentString s = str \<and> sm_runOffset s + sm_runSize s = i \<and> i \<le> length str"

text \<open>At the end, either the parser is back in the ground state or the characters of the
  unfinished sequence are the current run.\<close>

definition at_end :: "wstring \<Rightarrow> ('e, 'h, 'c) sm \<Rightarrow> bool" where
  "at_end str s \<longleftrightarrow>
     sm_wf s \<and> (sm_state s = Ground \<or> at_index str (length str) s \<and> 0 < sm_runSize s)"

context parser_engine
begin

lemma process_vt_safe:
  "at_index str i s \<Longrightarrow> i < length str \<Longrightarrow>
   \<exists>j s'. process_vt ops str i s = Some (j, s') \<and> at_index str j s' \<and> 0 < sm_runSize s' \<and>
     (j = length str \<or> sm_state s' = Ground)"
proof (induction "length str - i" arbitrary: i s)
  case 0
  then show ?case by simp
next
  case (Suc n)
  let ?s = "s\<lparr>sm_runSize := sm_runSize s + 1, sm_processingLastCharacter := (i + 1 \<ge> length str)\<rparr>"
  from Suc.prems have "sm_wf ?s" by (intro sm_wf_update) (simp add: at_index_def)
  then obtain s1 where s1: "ProcessCharacter ops (str ! i) ?s = Some s1" "sm_wf s1"
    using process_character_safe safe_resultE by blast
  then have "sm_pos s1 = sm_pos ?s" by (intro sm_pos_ProcessCharacter)
  with s1(2) Suc.prems have at: "at_index str (i + 1) s1" "0 < sm_runSize s1"
    by (auto simp: at_index_def sm_pos_def)
  show ?case
  proof (cases "i + 1 < length str \<and> sm_state s1 \<noteq> Ground")
    case True
    from Suc.hyps(2) have "n = length str - (i + 1)" by simp
    from Suc.hyps(1) [OF this at(1)] True s1(1) Suc.prems(2) show ?thesis
      by (simp add: process_vt.simps [of ops str i s])
  next
    case False
    with s1(1) at Suc.prems(2) show ?thesis
      by (auto simp: process_vt.simps [of ops str i s])
  qed
qed

lemma print_run_safe:
  assumes "sm_wf s" and "sm_currentString s = str" and "i \<le> length str" and "sm_state s = Ground"
  shows "\<exists>j s'. print_run ops str i s = Some (j, s') \<and> at_index str j s' \<and> sm_state s' = Ground"
proof -
  let ?n = "FindActionableControlCharacter (drop i str)"
  let ?s = "s\<lparr>sm_runOffset := i, sm_runSize := ?n\<rparr>"
  have n: "i + ?n \<le> length str" using FindActionable_le [of "drop i str"] assms(3) by simp
  have wf: "sm_wf ?s" using assms(1) by (rule sm_wf_update)
  show ?thesis
  proof (cases "?n = 0")
    case True
    with wf assms show ?thesis by (simp add: print_run_def at_index_def)
  next
    case False
    have "CurrentRun ?s = Some (take ?n (drop i str))" using assms by (simp add: CurrentRun_def)
    moreover obtain s1 where s1: "ActionPrintString ops (take ?n (drop i str)) ?s = Some s1"
      "sm_core s1 = sm_core ?s" using action_total(4) by blast
    moreover have "sm_wf (s1\<lparr>sm_runOffset := i + ?n, sm_runSize := 0\<rparr>)"
      by (rule sm_wf_update(2) [OF core_transfer(3) [OF s1(2) wf]])
    ultimately show ?thesis
      using False n assms sm_core_eqD(2,3) [OF s1(2)]
      by (simp add: print_run_def at_index_def Let_def)
  qed
qed

lemma process_loop_safe:
  "at_end str s \<Longrightarrow> sm_currentString s = str \<Longrightarrow> i < length str \<longrightarrow> sm_state s = Ground \<Longrightarrow>
   \<exists>s'. process_loop ops str i s = Some s' \<and> at_end str s'"
proof (induction "length str - i" arbitrary: i s rule: less_induct)
  case less
  show ?case
  proof (cases "i < length str")
    case False
    with less.prems show ?thesis by (simp add: process_loop.simps [of ops str i s])
  next
    case True
    with less.prems obtain j s1 where j: "print_run ops str i s = Some (j, s1)" "at_index str j s1"
      "sm_state s1 = Ground" using print_run_safe [of s str i] by (auto simp: at_end_def)
    show ?thesis
    proof (cases "j \<ge> length str")
      case True
      with j \<open>i < length str\<close> show ?thesis
        by (simp add: process_loop.simps [of ops str i s] at_end_def at_index_def)
    next
      case False
      with j(2) obtain k s2 where k: "process_vt ops str j s1 = Some (k, s2)" "at_index str k s2"
        "0 < sm_runSize s2" "k = length str \<or> sm_state s2 = Ground"
        using process_vt_safe [of str j s1] by auto
      from j(1) have "i \<le> j" by (rule print_run_advances)
      moreover from k(1) False have "j < k" using process_vt_advances [of ops str j s1 k s2] by simp
      ultimately have "length str - k < length str - i" using True by simp
      from less.hyps [OF this, of s2] k obtain s3 where
        "process_loop ops str k s2 = Some s3" "at_end str s3"
        by (auto simp: at_end_def at_index_def)
      with j k True False show ?thesis by (simp add: process_loop.simps [of ops str i s])
    qed
  qed
qed

lemma process_tail_safe:
  assumes "at_end str s"
  shows "safe_result (process_tail ops s)"
proof (cases "sm_state s = Ground")
  case True
  with assms show ?thesis by (simp add: process_tail_def at_end_def)
next
  case False
  with assms have wf: "sm_wf s" and at: "at_index str (length str) s" and n: "0 < sm_runSize s"
    by (auto simp: at_end_def)
  let ?run = "take (sm_runSize s) (drop (sm_runOffset s) str)"
  have run: "CurrentRun s = Some ?run" using at by (simp add: CurrentRun_def at_index_def)
  from at n have "?run \<noteq> []" by (auto simp: at_index_def)
  then obtain c cs where c: "?run = c # cs" by (cases ?run) auto
  have g: "values_ok (EnterGround s)" "values_ok (EnterEscape (EnterGround s))"
    using wf by (simp_all add: EnterGround_def EnterEscape_def sm_wf_values)
  have a: "\<exists>a. ActionExecute ops ESC (EnterGround s) = Some a \<and> sm_wf (EnterGround a)"
    using action_total(1) [of ESC "EnterGround s"] wf_EnterGround core_transfer(1) g(1) by metis
  obtain b where "ActionEscDispatch ops (last (c # cs)) (EnterEscape (EnterGround s)) = Some b"
    "sm_wf (EnterGround b)"
    using action_total(5) [of "last (c # cs)" "EnterEscape (EnterGround s)"] wf_EnterGround
      core_transfer(1) g(2) by metis
  with a False run c wf show ?thesis
    by (auto simp: process_tail_def Let_def sm_wf_update simp del: last.simps)
qed

lemma process_string_safe:
  assumes "sm_wf s" and "str \<noteq> [] \<or> sm_state s = Ground \<or> \<not> sm_isEngineForInput s"
  shows "safe_result (ProcessString ops str s)"
proof -
  let ?s = "s\<lparr>sm_currentString := str, sm_runOffset := 0, sm_runSize := 0, sm_injections := []\<rparr>"
  have wf: "sm_wf ?s" using assms(1) by (rule sm_wf_update)
  show ?thesis
  proof (cases "sm_state s = Ground")
    case True
    with wf obtain s1 where "process_loop ops str 0 ?s = Some s1" "at_end str s1"
      using process_loop_safe [of str ?s 0] by (auto simp: at_end_def)
    with True process_tail_safe show ?thesis by (simp add: ProcessString_def)
  next
    case False
    show ?thesis
    proof (cases "str = []")
      case True
      then have "sm_wf (?s\<lparr>sm_cachedSequence := q\<rparr>)" for q using sm_wf_update(4) [OF wf] by simp
      with True False wf assms(2) show ?thesis
        by (simp add: ProcessString_def Let_def process_vt.simps process_loop.simps process_tail_def
            CurrentRun_def)
    next
      case ne: False
      with wf obtain j s1 where j: "process_vt ops str 0 ?s = Some (j, s1)" "at_index str j s1"
        "0 < sm_runSize s1" "j = length str \<or> sm_state s1 = Ground"
        using process_vt_safe [of str 0 ?s] by (auto simp: at_index_def)
      then obtain s2 where "process_loop ops str j s1 = Some s2" "at_end str s2"
        using process_loop_safe [of str s1 j] by (auto simp: at_end_def at_index_def)
      with j(1) False process_tail_safe show ?thesis by (simp add: ProcessString_def)
    qed
  qed
qed

end

text \<open>The precondition on the string is not idle: given an empty string in the middle of a
  sequence, a machine for an input engine reads the first character of an empty run, which is
  undefined behaviour.\<close>

theorem ProcessString_empty_undefined:
  assumes "sm_state s \<noteq> Ground" and "sm_isEngineForInput s"
    and "\<not> eng_EncounteredWin32InputModeSequence ops (sm_engine s)"
  shows "ProcessString ops [] s = None"
  using assms
  by (simp add: ProcessString_def process_vt.simps process_loop.simps process_tail_def CurrentRun_def)

theorem ProcessString_empty_undefined_witness:
  "ProcessString refusing_ops [] (EnterEscape (StateMachine_init () True 0 0 False)) = None"
  by (rule ProcessString_empty_undefined)
    (simp_all add: refusing_ops_def Let_def EnterEscape_def StateMachine_init_def ActionClear_def SetParserMode_def)

end
