(* ===== verification/ParserRoundtrip.thy ===== *)
theory ParserRoundtrip
  imports ParserTotality
begin

text \<open>
  What the parser makes of the sequences an application sends: a printer for control sequences,
  with parameters, sub-parameters, a private marker and intermediates, and the theorem that the
  state machine reads back exactly what was printed. Operating system commands are treated the
  same way. The printers are reference definitions: they say what the text of a sequence is.
\<close>

subsection \<open>The text of a control sequence\<close>

definition param_text :: "VTParameter \<Rightarrow> wstring" where
  "param_text p = (if has_value p then decimal (nat (raw_value p)) else [])"

type_synonym csi_arg = "VTParameter \<times> VTParameter list"

definition subs_text :: "VTParameter list \<Rightarrow> wstring" where
  "subs_text qs = concat (map (\<lambda>q. 0x3A # param_text q) qs)"

definition arg_text :: "csi_arg \<Rightarrow> wstring" where
  "arg_text a = param_text (fst a) @ subs_text (snd a)"

fun args_text :: "csi_arg list \<Rightarrow> wstring" where
  "args_text [] = []"
| "args_text [a] = arg_text a"
| "args_text (a # b # as) = arg_text a @ 0x3B # args_text (b # as)"

definition csi_text :: "string \<Rightarrow> csi_arg list \<Rightarrow> string \<Rightarrow> char \<Rightarrow> wstring" where
  "csi_text marker args ins f = [ESC, 0x5B] @ wstr marker @ args_text args @ wstr ins @ [of_char f]"

text \<open>What is read back: a value above the limit of \<^verbatim>\<open>stateMachine.hpp\<close> is clamped to it.\<close>

definition clamped :: "VTParameter \<Rightarrow> VTParameter" where
  "clamped p = (if has_value p then VTParam (min (raw_value p) MAX_PARAMETER_VALUE) else omitted)"

definition clamped_arg :: "csi_arg \<Rightarrow> csi_arg" where
  "clamped_arg a = (clamped (fst a), map clamped (snd a))"

definition args_parameters :: "csi_arg list \<Rightarrow> VTParameters" where
  "args_parameters args =
     \<lparr>vt_params = map fst args, vt_subParams = concat (map snd args),
      vt_subParamRanges = ranges_of 0 (map (length \<circ> snd) args)\<rparr>"

text \<open>The arguments the parser can hold: at most 32 parameters with at most 6 sub-parameters
  each. A single omitted parameter has the same text as no parameter at all.\<close>

definition args_fit :: "csi_arg list \<Rightarrow> bool" where
  "args_fit args \<longleftrightarrow>
     length args \<le> MAX_PARAMETER_COUNT \<and>
     list_all (\<lambda>a. length (snd a) \<le> MAX_SUBPARAMETER_COUNT) args \<and> args_text args \<noteq> []"

subsection \<open>The parser with arguments collected\<close>

definition holding :: "csi_arg list \<Rightarrow> VTStates \<Rightarrow> ('e, 'h, 'c) sm \<Rightarrow> ('e, 'h, 'c) sm" where
  "holding args st s =
     s\<lparr>sm_state := st,
       sm_parameters := map fst args, sm_parameterLimitOverflowed := False,
       sm_subParameters := concat (map snd args),
       sm_subParameterRanges := ranges_of 0 (map (length \<circ> snd) args),
       sm_subParameterLimitOverflowed := False,
       sm_subParameterCounter := of_nat (if args = [] then 0 else length (snd (last args)))\<rparr>"

definition arg_state :: "csi_arg \<Rightarrow> VTStates" where
  "arg_state a = (if snd a = [] then CsiParam else CsiSubParam)"

lemma sm_state_holding [simp]: "sm_state (holding args st s) = st"
  by (simp add: holding_def)

definition param_char :: "wchar \<Rightarrow> bool" where
  "param_char w \<longleftrightarrow> isNumericParamValue w \<or> isParameterDelimiter w \<or> isSubParameterDelimiter w"

lemma step_param_char: "param_char w \<Longrightarrow> ProcessCharacter ops w s = state_event ops w s"
  by (rule ProcessCharacter_event)
    (auto simp: param_char_def char_class word_le_nat_alt wchar_eq_unat)

lemma digit_class:
  assumes "isNumericParamValue w"
  shows "param_char w" "\<not> isC0Code w" "\<not> isDelete w" "\<not> isIntermediate w"
    "\<not> isParameterDelimiter w" "\<not> isSubParameterDelimiter w"
  using assms by (auto simp: param_char_def char_class word_le_nat_alt wchar_eq_unat)

lemma delimiter_class:
  "param_char 0x3B" "\<not> isC0Code 0x3B" "\<not> isDelete 0x3B" "\<not> isIntermediate 0x3B"
  "isParameterDelimiter 0x3B" "\<not> isNumericParamValue 0x3B" "\<not> isSubParameterDelimiter 0x3B"
  "param_char 0x3A" "\<not> isC0Code 0x3A" "\<not> isDelete 0x3A" "\<not> isIntermediate 0x3A"
  "\<not> isParameterDelimiter 0x3A" "\<not> isNumericParamValue 0x3A" "isSubParameterDelimiter 0x3A"
  by (simp_all add: param_char_def char_class)

text \<open>The actions on collected arguments, in whatever state the parser is.\<close>

lemma holding_actions:
  "ensure_parameter (holding (as @ [a]) st s) = holding (as @ [a]) st s"
  "\<not> sm_parameterLimitOverflowed (holding args st s)"
  "\<not> sm_subParameterLimitOverflowed (holding args st s)"
  "EnterCsiParam (holding args st s) = holding args CsiParam s"
  "EnterCsiSubParam (holding args st s) = holding args CsiSubParam s"
  by (simp_all add: ensure_parameter_def EnterCsiParam_def EnterCsiSubParam_def holding_def)

lemma ActionParam_digit:
  assumes "isNumericParamValue w"
  shows "ActionParam w (holding (as @ [(p, [])]) st s) =
    holding (as @ [(VTParam (AccumulateTo w (value_or p 0)), [])]) st s"
proof -
  have "sm_parameters (holding (as @ [(p, [])]) st s) = map fst as @ [p]" by (simp add: holding_def)
  then show ?thesis
    by (simp add: ActionParam_def digit_class [OF assms] holding_actions Let_def)
      (simp add: holding_def)
qed

lemma ActionParam_delimiter:
  assumes "length (as @ [a]) < MAX_PARAMETER_COUNT"
  shows "ActionParam 0x3B (holding (as @ [a]) st s) = holding (as @ [a, (omitted, [])]) st s"
proof -
  have "length (sm_parameters (holding (as @ [a]) st s)) = length (as @ [a])"
    by (simp add: holding_def)
  moreover have "ranges_of 0 (map (length \<circ> snd) (as @ [a, (omitted, [])])) =
     ranges_of 0 (map (length \<circ> snd) (as @ [a])) @
     [(of_nat (length (concat (map snd (as @ [a])))), of_nat (length (concat (map snd (as @ [a])))))]"
    using ranges_of_snoc [of 0 "map (length \<circ> snd) (as @ [a])" 0] by (simp add: length_concat o_def)
  ultimately show ?thesis using assms
    by (simp add: ActionParam_def delimiter_class holding_actions Let_def) (simp add: holding_def)
qed

lemma ActionSubParam_digit:
  assumes "isNumericParamValue w"
  shows "ActionSubParam w (holding (as @ [(p, qs @ [q])]) st s) =
    Some (holding (as @ [(p, qs @ [VTParam (AccumulateTo w (value_or q 0))])]) st s)"
proof -
  have sub: "sm_subParameters (holding (as @ [(p, qs @ [q])]) st s) = (concat (map snd as) @ qs) @ [q]"
    by (simp add: holding_def)
  show ?thesis
    unfolding ActionSubParam_def holding_actions sub
    by (simp add: digit_class [OF assms] holding_actions Let_def) (simp add: holding_def)
qed

lemma ActionSubParam_delimiter:
  assumes "length qs < MAX_SUBPARAMETER_COUNT"
  shows "ActionSubParam 0x3A (holding (as @ [(p, qs)]) st s) =
    Some (holding (as @ [(p, qs @ [omitted])]) st s)"
proof -
  let ?h = "holding (as @ [(p, qs)]) st s"
  let ?l = "sum_list (map (length \<circ> snd) as)"
  have "unat (sm_subParameterCounter ?h) = length qs"
    "sm_subParameterRanges ?h = ranges_of 0 (map (length \<circ> snd) as) @ [(of_nat ?l, of_nat (?l + length qs))]"
    using assms
    by (simp_all add: holding_def ranges_of_snoc unat_of_nat_byte MAX_SUBPARAMETER_COUNT_def)
  with assms show ?thesis
    by (simp add: ActionSubParam_def delimiter_class holding_actions Let_def)
      (simp add: holding_def ranges_of_snoc add.assoc)
qed

text \<open>The transitions.\<close>

lemma step_digit:
  assumes "isNumericParamValue w"
  shows "ProcessCharacter ops w (holding (as @ [(p, [])]) CsiParam s) =
    Some (holding (as @ [(VTParam (AccumulateTo w (value_or p 0)), [])]) CsiParam s)"
  by (simp add: assms digit_class [OF assms] step_param_char state_event_def EventCsiParam_def
      ActionParam_digit)

lemma step_sub_digit:
  assumes "isNumericParamValue w"
  shows "ProcessCharacter ops w (holding (as @ [(p, qs @ [q])]) CsiSubParam s) =
    Some (holding (as @ [(p, qs @ [VTParam (AccumulateTo w (value_or q 0))])]) CsiSubParam s)"
  by (simp add: assms digit_class [OF assms] step_param_char state_event_def EventCsiSubParam_def
      ActionSubParam_digit)

lemma step_delimiter:
  assumes "length (as @ [a]) < MAX_PARAMETER_COUNT" and "st = CsiParam \<or> st = CsiSubParam"
  shows "ProcessCharacter ops 0x3B (holding (as @ [a]) st s) =
    Some (holding (as @ [a, (omitted, [])]) CsiParam s)"
  using assms(2)
  by (elim disjE) (simp_all add: delimiter_class step_param_char state_event_def EventCsiParam_def
      EventCsiSubParam_def ActionParam_delimiter [OF assms(1)] holding_actions)

lemma step_sub_delimiter:
  assumes "length qs < MAX_SUBPARAMETER_COUNT" and "st = CsiParam \<or> st = CsiSubParam"
  shows "ProcessCharacter ops 0x3A (holding (as @ [(p, qs)]) st s) =
    Some (holding (as @ [(p, qs @ [omitted])]) CsiSubParam s)"
  using assms(2)
  by (elim disjE) (simp_all add: delimiter_class step_param_char state_event_def EventCsiParam_def
      EventCsiSubParam_def ActionSubParam_delimiter [OF assms(1)] holding_actions)

lemma step_first:
  assumes "param_char w" and "st = CsiEntry \<or> st = CsiParam"
  shows "ProcessCharacter ops w (holding [] st s) =
    ProcessCharacter ops w (holding [(omitted, [])] CsiParam s)"
proof -
  have "ensure_parameter (holding [] st s) = ensure_parameter (holding [(omitted, [])] st s)" for st
    by (simp add: ensure_parameter_def holding_def)
  then have act: "ActionParam w (holding [] st s) = ActionParam w (holding [(omitted, [])] st s)"
    "ActionSubParam w (holding [] st s) = ActionSubParam w (holding [(omitted, [])] st s)" for st
    by (simp_all add: ActionParam_def ActionSubParam_def holding_actions)
  have one: "holding [(omitted, [])] st s = holding ([] @ [(omitted, [])]) st s" for st by simp
  from assms(1) consider "isNumericParamValue w" | "w = 0x3B" | "w = 0x3A"
    by (auto simp: param_char_def char_class)
  then show ?thesis
  proof cases
    case 1
    with assms(2) show ?thesis unfolding act one
      by (elim disjE) (simp_all add: digit_class [OF 1] step_param_char state_event_def act
          EventCsiEntry_def EventCsiParam_def ActionParam_digit [of _ "[]", simplified] holding_actions)
  next
    case 2
    with assms(2) show ?thesis
      by (elim disjE) (simp_all add: delimiter_class step_param_char state_event_def act [unfolded 2]
          EventCsiEntry_def EventCsiParam_def ActionParam_delimiter [of "[]", simplified]
          MAX_PARAMETER_COUNT_def holding_actions)
  next
    case 3
    with assms(2) show ?thesis
      by (elim disjE) (simp_all add: delimiter_class step_param_char state_event_def act [unfolded 3]
          EventCsiEntry_def EventCsiParam_def ActionSubParam_delimiter [of "[]" "[]", simplified]
          MAX_SUBPARAMETER_COUNT_def holding_actions)
  qed
qed

subsection \<open>Numbers\<close>

lemma AccumulateTo_digit:
  assumes "d < 10" and "0 \<le> n"
  shows "AccumulateTo (0x30 + of_nat d) (min n MAX_PARAMETER_VALUE) =
    min (n * 10 + int d) MAX_PARAMETER_VALUE"
proof -
  have "uint (0x30 + of_nat d :: wchar) = 48 + int d"
    using assms(1) by (simp add: uint_word_ariths unsigned_of_nat take_bit_nat_eq_self)
  with assms(2) show ?thesis
    by (simp add: AccumulateTo_def Let_def MAX_PARAMETER_VALUE_def min_def)
qed

lemma numeric_digit: "d < 10 \<Longrightarrow> isNumericParamValue (0x30 + of_nat d)"
  by (simp add: isNumericParamValue_def word_le_nat_alt unat_word_ariths unat_of_nat
      take_bit_nat_eq_self)

text \<open>A sequence of digit steps reads the number that was printed, clamped.\<close>

lemma read_decimal:
  assumes start: "\<And>d. d < 10 \<Longrightarrow>
      f (0x30 + of_nat d) (g omitted) = Some (g (VTParam (AccumulateTo (0x30 + of_nat d) 0)))"
    and digit: "\<And>d v. d < 10 \<Longrightarrow> 0 \<le> v \<Longrightarrow>
      f (0x30 + of_nat d) (g (VTParam v)) = Some (g (VTParam (AccumulateTo (0x30 + of_nat d) v)))"
  shows "foldM f (decimal n) (g omitted) = Some (g (VTParam (min (int n) MAX_PARAMETER_VALUE)))"
proof (induction n rule: decimal.induct)
  case (1 n)
  show ?case
  proof (cases "n < 10")
    case True
    then show ?thesis
      using start [of n] AccumulateTo_digit [of n 0]
      by (simp add: decimal.simps MAX_PARAMETER_VALUE_def)
  next
    case False
    let ?d = "n mod 10" and ?v = "min (int (n div 10)) MAX_PARAMETER_VALUE"
    have "AccumulateTo (0x30 + of_nat ?d) ?v = min (int n) MAX_PARAMETER_VALUE"
      using AccumulateTo_digit [of ?d "int (n div 10)"]
      by (simp add: zdiv_int zmod_int)
    with digit [of ?d ?v] have
      "f (0x30 + of_nat ?d) (g (VTParam ?v)) = Some (g (VTParam (min (int n) MAX_PARAMETER_VALUE)))"
      by (simp add: MAX_PARAMETER_VALUE_def)
    with False 1 show ?thesis by (simp add: decimal.simps [of n] foldM_append)
  qed
qed

lemma read_param_text:
  assumes "\<And>w p. isNumericParamValue w \<Longrightarrow>
      f w (g p) = Some (g (VTParam (AccumulateTo w (value_or p 0))))"
  shows "foldM f (param_text p) (g omitted) = Some (g (clamped p))"
proof (cases "has_value p")
  case True
  have "foldM f (decimal (nat (raw_value p))) (g omitted) =
    Some (g (VTParam (min (int (nat (raw_value p))) MAX_PARAMETER_VALUE)))"
    by (rule read_decimal) (simp_all add: assms numeric_digit value_or_def)
  with True show ?thesis by (simp add: param_text_def clamped_def has_value_def)
qed (simp add: param_text_def clamped_def)

subsection \<open>Arguments\<close>

lemma read_param:
  "foldM (ProcessCharacter ops) (param_text p) (holding (as @ [(omitted, [])]) CsiParam s) =
     Some (holding (as @ [(clamped p, [])]) CsiParam s)"
  by (rule read_param_text [where g = "\<lambda>p. holding (as @ [(p, [])]) CsiParam s"]) (rule step_digit)

lemma read_sub_param:
  "foldM (ProcessCharacter ops) (param_text q) (holding (as @ [(p, qs @ [omitted])]) CsiSubParam s) =
     Some (holding (as @ [(p, qs @ [clamped q])]) CsiSubParam s)"
  by (rule read_param_text [where g = "\<lambda>q. holding (as @ [(p, qs @ [q])]) CsiSubParam s"])
    (rule step_sub_digit)

lemma read_subs:
  "length qs + length rs \<le> MAX_SUBPARAMETER_COUNT \<Longrightarrow>
   foldM (ProcessCharacter ops) (subs_text rs) (holding (as @ [(p, qs)]) (arg_state (p, qs)) s) =
     Some (holding (as @ [(p, qs @ map clamped rs)]) (arg_state (p, qs @ map clamped rs)) s)"
proof (induction rs arbitrary: qs)
  case Nil
  then show ?case by (simp add: subs_text_def)
next
  case (Cons r rs)
  then have "ProcessCharacter ops 0x3A (holding (as @ [(p, qs)]) (arg_state (p, qs)) s) =
    Some (holding (as @ [(p, qs @ [omitted])]) CsiSubParam s)"
    by (intro step_sub_delimiter) (auto simp: arg_state_def)
  moreover have "subs_text (r # rs) = 0x3A # param_text r @ subs_text rs"
    by (simp add: subs_text_def)
  ultimately show ?case
    using Cons.IH [of "qs @ [clamped r]"] Cons.prems
    by (simp add: foldM_append read_sub_param arg_state_def)
qed

lemma read_arg:
  assumes "length (snd a) \<le> MAX_SUBPARAMETER_COUNT"
  shows "foldM (ProcessCharacter ops) (arg_text a) (holding (as @ [(omitted, [])]) CsiParam s) =
    Some (holding (as @ [clamped_arg a]) (arg_state (clamped_arg a)) s)"
  using assms read_subs [of "[]" "snd a" ops as "clamped (fst a)" s]
  by (simp add: arg_text_def foldM_append read_param clamped_arg_def arg_state_def)

lemma read_args:
  "args \<noteq> [] \<Longrightarrow> length as + length args \<le> MAX_PARAMETER_COUNT \<Longrightarrow>
   list_all (\<lambda>a. length (snd a) \<le> MAX_SUBPARAMETER_COUNT) args \<Longrightarrow>
   foldM (ProcessCharacter ops) (args_text args) (holding (as @ [(omitted, [])]) CsiParam s) =
     Some (holding (as @ map clamped_arg args) (arg_state (clamped_arg (last args))) s)"
proof (induction args arbitrary: as rule: args_text.induct)
  case 1
  then show ?case by simp
next
  case (2 a)
  then show ?case by (simp add: read_arg)
next
  case (3 a b bs)
  then have "ProcessCharacter ops 0x3B (holding (as @ [clamped_arg a]) (arg_state (clamped_arg a)) s) =
    Some (holding (as @ [clamped_arg a, (omitted, [])]) CsiParam s)"
    by (intro step_delimiter) (auto simp: arg_state_def)
  with 3 show ?case
    using "3.IH" [of "as @ [clamped_arg a]"] by (simp add: foldM_append read_arg)
qed

lemma decimal_chars: "w \<in> set (decimal n) \<Longrightarrow> isNumericParamValue w"
proof (induction n rule: decimal.induct)
  case (1 n)
  then show ?case
    by (cases "n < 10") (auto simp: decimal.simps [of n] numeric_digit)
qed

lemma param_text_chars: "w \<in> set (param_text p) \<Longrightarrow> param_char w"
  by (auto simp: param_text_def param_char_def decimal_chars split: if_splits)

lemma args_text_chars: "w \<in> set (args_text args) \<Longrightarrow> param_char w"
  by (induction args rule: args_text.induct)
    (auto simp: arg_text_def subs_text_def delimiter_class dest: param_text_chars split: if_splits)

text \<open>From the start of a control sequence.\<close>

lemma read_args_first:
  assumes "args_fit args" and "st = CsiEntry \<or> st = CsiParam"
  shows "foldM (ProcessCharacter ops) (args_text args) (holding [] st s) =
    Some (holding (map clamped_arg args) (arg_state (clamped_arg (last args))) s)"
proof -
  from assms(1) obtain w ws where w: "args_text args = w # ws"
    by (cases "args_text args") (auto simp: args_fit_def)
  then have "param_char w" by (intro args_text_chars [of w args]) simp
  then have "ProcessCharacter ops w (holding [] st s) =
      ProcessCharacter ops w (holding ([] @ [(omitted, [])]) CsiParam s)"
    using step_first assms(2) by simp
  then have "foldM (ProcessCharacter ops) (args_text args) (holding [] st s) =
      foldM (ProcessCharacter ops) (args_text args) (holding ([] @ [(omitted, [])]) CsiParam s)"
    by (simp add: w)
  also have "\<dots> = Some (holding ([] @ map clamped_arg args) (arg_state (clamped_arg (last args))) s)"
    by (rule read_args) (use assms(1) in \<open>auto simp: args_fit_def\<close>)
  finally show ?thesis by simp
qed

subsection \<open>The whole control sequence\<close>

lemma step_intermediate:
  assumes "isIntermediate w" and "sm_state s \<in> {CsiEntry, CsiParam, CsiSubParam, CsiIntermediate}"
  shows "ProcessCharacter ops w s =
    Some (s\<lparr>sm_state := CsiIntermediate, sm_identifier := AddIntermediate w (sm_identifier s)\<rparr>)"
proof -
  have "\<not> isC0Code w" "\<not> isDelete w" "\<not> isNumericParamValue w" "\<not> isParameterDelimiter w"
    "\<not> isSubParameterDelimiter w" and
    e: "w \<noteq> CAN" "w \<noteq> SUB" "\<not> isC1ControlCharacter w" "\<not> isEscape w"
    using assms(1) by (auto simp: char_class word_le_nat_alt wchar_eq_unat)
  with assms show ?thesis
    by (auto simp: ProcessCharacter_event [OF e] state_event_def EventCsiEntry_def EventCsiParam_def
        EventCsiSubParam_def EventCsiIntermediate_def EnterCsiIntermediate_def ActionCollect_def)
qed

lemma read_intermediates:
  assumes "list_all isIntermediate ws" and "ws \<noteq> []"
    and "sm_state s \<in> {CsiEntry, CsiParam, CsiSubParam, CsiIntermediate}"
  shows "foldM (ProcessCharacter ops) ws s =
    Some (s\<lparr>sm_state := CsiIntermediate,
            sm_identifier := foldl (\<lambda>b w. AddIntermediate w b) (sm_identifier s) ws\<rparr>)"
  using assms
proof (induction ws arbitrary: s)
  case Nil
  then show ?case by simp
next
  case (Cons w ws)
  let ?s = "s\<lparr>sm_state := CsiIntermediate, sm_identifier := AddIntermediate w (sm_identifier s)\<rparr>"
  have "ProcessCharacter ops w s = Some ?s"
    using Cons.prems by (intro step_intermediate) auto
  then show ?case using Cons.IH [of ?s] Cons.prems by (cases "ws = []") auto
qed

definition csi_final :: "wchar \<Rightarrow> bool" where
  "csi_final w \<longleftrightarrow> 0x40 \<le> w \<and> w \<le> 0x7E"

lemma step_final:
  assumes "csi_final w" and "sm_state s \<in> {CsiEntry, CsiParam, CsiSubParam, CsiIntermediate}"
  shows "ProcessCharacter ops w s = csi_dispatch_event ops w s"
proof -
  have "\<not> isC0Code w" "\<not> isDelete w" "\<not> isNumericParamValue w" "\<not> isParameterDelimiter w"
    "\<not> isSubParameterDelimiter w" "\<not> isIntermediate w" "\<not> isCsiPrivateMarker w"
    "\<not> isIntermediateInvalid w" "\<not> isParameterInvalid w" and
    e: "w \<noteq> CAN" "w \<noteq> SUB" "\<not> isC1ControlCharacter w" "\<not> isEscape w"
    using assms(1) by (auto simp: csi_final_def char_class word_le_nat_alt wchar_eq_unat)
  with assms(2) show ?thesis
    by (auto simp: ProcessCharacter_event [OF e] state_event_def EventCsiEntry_def EventCsiParam_def
        EventCsiSubParam_def EventCsiIntermediate_def)
qed

lemma step_csi_start:
  assumes "sm_state s \<notin> {OscString, OscParam, DcsPassThrough}" and "GetParserMode Ansi s"
  shows "foldM (ProcessCharacter ops) [ESC, 0x5B] s = Some (holding [] CsiEntry (ActionClear s))"
proof -
  have e: "ProcessCharacter ops ESC s = Some (EnterEscape s)"
    using assms(1) by (simp add: ProcessCharacter_ESC ActionInterrupt_def)
  have "ProcessCharacter ops 0x5B (EnterEscape s) = Some (EnterCsiEntry (EnterEscape s))"
    using assms(2)
    by (subst ProcessCharacter_event)
      (simp_all add: state_event_def EventEscape_def EnterEscape_def ActionClear_def char_class
        GetParserMode_def)
  moreover have "EnterCsiEntry (EnterEscape s) = holding [] CsiEntry (ActionClear s)"
    by (simp add: EnterCsiEntry_def EnterEscape_def ActionClear_def holding_def)
  ultimately show ?thesis by (simp add: e)
qed

lemma step_marker:
  assumes "isCsiPrivateMarker w"
  shows "ProcessCharacter ops w (holding [] CsiEntry s) =
    Some (holding [] CsiParam (s\<lparr>sm_identifier := AddIntermediate w (sm_identifier s)\<rparr>))"
proof -
  have "\<not> isC0Code w" "\<not> isDelete w" "\<not> isNumericParamValue w" "\<not> isParameterDelimiter w"
    "\<not> isSubParameterDelimiter w" "\<not> isIntermediate w" and
    e: "w \<noteq> CAN" "w \<noteq> SUB" "\<not> isC1ControlCharacter w" "\<not> isEscape w"
    using assms(1) by (auto simp: char_class word_le_nat_alt wchar_eq_unat)
  with assms show ?thesis
    by (simp add: ProcessCharacter_event [OF e] state_event_def EventCsiEntry_def EnterCsiParam_def
        ActionCollect_def) (simp add: holding_def)
qed

text \<open>The state in which the final character arrives.\<close>

definition csi_end_state :: "string \<Rightarrow> csi_arg list \<Rightarrow> string \<Rightarrow> VTStates" where
  "csi_end_state marker args ins =
     (if ins \<noteq> [] then CsiIntermediate else if args \<noteq> [] then arg_state (last args)
      else if marker \<noteq> [] then CsiParam else CsiEntry)"

definition marker_ok :: "string \<Rightarrow> bool" where
  "marker_ok marker \<longleftrightarrow> marker = [] \<or> (\<exists>m. marker = [m] \<and> isCsiPrivateMarker (of_char m))"

lemma arg_state_clamped [simp]: "arg_state (clamped_arg a) = arg_state a"
  by (simp add: arg_state_def clamped_arg_def)

lemma ActionClear_identifier:
  "sm_identifier (ActionClear s) = VTIDBuilder_Clear"
  "(ActionClear s)\<lparr>sm_identifier := VTIDBuilder_Clear\<rparr> = ActionClear s"
  by (simp_all add: ActionClear_def sm.equality)

lemma read_csi_prefix:
  assumes "sm_state s \<notin> {OscString, OscParam, DcsPassThrough}" and "GetParserMode Ansi s"
    and "marker_ok marker" and "args = [] \<or> args_fit args"
    and "list_all isIntermediate (wstr ins)"
  shows "foldM (ProcessCharacter ops) ([ESC, 0x5B] @ wstr marker @ args_text args @ wstr ins) s =
    Some ((holding (map clamped_arg args) (csi_end_state marker args ins) (ActionClear s))
            \<lparr>sm_identifier := collected (wstr (marker @ ins))\<rparr>)"
proof -
  let ?st = "if marker = [] then CsiEntry else CsiParam"
  let ?m = "(ActionClear s)\<lparr>sm_identifier := collected (wstr marker)\<rparr>"
  let ?a = "if args = [] then ?st else arg_state (last args)"
  have "foldM (ProcessCharacter ops) (wstr marker) (holding [] CsiEntry (ActionClear s)) =
    Some (holding [] ?st ?m)"
    using assms(3)
    by (auto simp: marker_ok_def step_marker ActionClear_identifier)
  moreover have "foldM (ProcessCharacter ops) (args_text args) (holding [] ?st ?m) =
    Some (holding (map clamped_arg args) ?a ?m)"
    using assms(4) read_args_first [of args ?st ops ?m] by (cases "args = []") (auto simp: args_fit_def)
  moreover have "foldM (ProcessCharacter ops) (wstr ins) (holding (map clamped_arg args) ?a ?m) =
    Some ((holding (map clamped_arg args) (csi_end_state marker args ins) (ActionClear s))
            \<lparr>sm_identifier := collected (wstr (marker @ ins))\<rparr>)"
  proof (cases "ins = []")
    case True
    then show ?thesis by (auto simp: csi_end_state_def holding_def)
  next
    case False
    have "sm_state (holding (map clamped_arg args) ?a ?m) \<in> {CsiEntry, CsiParam, CsiSubParam, CsiIntermediate}"
      by (simp add: arg_state_def)
    from read_intermediates [OF assms(5) _ this, of ops] False show ?thesis
      by (simp add: csi_end_state_def wstr_def) (simp add: holding_def)
  qed
  ultimately show ?thesis
    using step_csi_start [OF assms(1,2), of ops] by (simp only: foldM_append bind.bind_lunit)
qed

text \<open>The engine is given exactly the identifier and the parameters that were printed, and the
  parser is back in the ground state before the completion callback runs.\<close>

lemma csi_text_parsed:
  assumes "sm_state s \<notin> {OscString, OscParam, DcsPassThrough}" and "GetParserMode Ansi s"
    and "marker_ok marker" and "args = [] \<or> args_fit args"
    and "list_all isIntermediate (wstr ins)" and "length (marker @ ins) \<le> 6"
    and "csi_final (of_char f)"
  shows "foldM (ProcessCharacter ops) (csi_text marker args ins f) s =
    do {
      (_, s') \<leftarrow>
        SafeExecute ops
          (eng_ActionCsiDispatch ops (VTID (marker @ ins @ [f])) (args_parameters (map clamped_arg args)))
          ((holding (map clamped_arg args) (csi_end_state marker args ins) (ActionClear s))
             \<lparr>sm_identifier := collected (wstr (marker @ ins))\<rparr>);
      ExecuteCsiCompleteCallback ops (EnterGround s')
    }"
proof -
  let ?t = "(holding (map clamped_arg args) (csi_end_state marker args ins) (ActionClear s))
             \<lparr>sm_identifier := collected (wstr (marker @ ins))\<rparr>"
  have st: "sm_state ?t \<in> {CsiEntry, CsiParam, CsiSubParam, CsiIntermediate}"
    by (simp add: csi_end_state_def arg_state_def)
  have "foldM (ProcessCharacter ops) (csi_text marker args ins f) s =
      ProcessCharacter ops (of_char f) ?t"
    unfolding csi_text_def append_assoc [symmetric] foldM_append [of _ _ "[of_char f]"]
    unfolding append_assoc
    by (simp only: read_csi_prefix [OF assms(1-5)] bind.bind_lunit foldM_single)
  also have "\<dots> = csi_dispatch_event ops (of_char f) ?t"
    by (rule step_final [OF assms(7) st])
  finally have run: "foldM (ProcessCharacter ops) (csi_text marker args ins f) s =
      csi_dispatch_event ops (of_char f) ?t" .
  have id: "Finalize (of_char f) (sm_identifier ?t) = VTID (marker @ ins @ [f])"
    using Finalize_VTID [OF assms(6), of f] by simp
  have ps: "\<lparr>vt_params = sm_parameters ?t, vt_subParams = sm_subParameters ?t,
      vt_subParamRanges = sm_subParameterRanges ?t\<rparr> = args_parameters (map clamped_arg args)"
    by (simp add: holding_def args_parameters_def)
  have bind: "map_option snd m \<bind> g = m \<bind> (\<lambda>(_, s). g s)" for m and g :: "_ \<Rightarrow> _ option"
    by (cases m) auto
  show ?thesis
    unfolding run csi_dispatch_event_def ActionCsiDispatch_def id ps bind ..
qed

text \<open>The view over the parameters finds the sub-parameters of each one.\<close>

lemma take_concat_lengths:
  "i < length xss \<Longrightarrow>
   take (length (xss ! i)) (drop (sum_list (map length (take i xss))) (concat xss)) = xss ! i"
proof (induction xss arbitrary: i)
  case (Cons xs xss)
  then show ?case by (cases i) auto
qed simp

lemma args_subParams:
  assumes "args_fit args" and "i < length args"
  shows "param_at (args_parameters args) i = fst (args ! i)"
    and "subParamsFor (args_parameters args) i = snd (args ! i)"
proof -
  let ?ls = "map (length \<circ> snd) args"
  show "param_at (args_parameters args) i = fst (args ! i)"
    using assms(2) by (simp add: param_at_def args_parameters_def)
  have le: "sum_list ?ls \<le> 192"
    using assms(1) by (intro sum_lens_bound) (auto simp: args_fit_def list_all_iff)
  have part: "sum_list (take k ?ls) \<le> 192" for k
  proof -
    have "sum_list (take k ?ls) + sum_list (drop k ?ls) = sum_list ?ls"
      by (metis append_take_drop_id sum_list_append)
    with le show ?thesis by linarith
  qed
  let ?a = "sum_list (take i ?ls)"
  have "sum_list (take (Suc i) ?ls) = ?a + length (snd (args ! i))"
    using assms(2) by (simp add: take_Suc_conv_app_nth)
  moreover have "unat (of_nat ?a :: byte) = ?a"
    "unat (of_nat (sum_list (take (Suc i) ?ls)) :: byte) = sum_list (take (Suc i) ?ls)"
    using part [of i] part [of "Suc i"] by (simp_all add: unat_of_nat_byte)
  moreover have "take (length (snd (args ! i))) (drop ?a (concat (map snd args))) = snd (args ! i)"
    using take_concat_lengths [of i "map snd args"] assms(2) by (simp add: take_map)
  ultimately show "subParamsFor (args_parameters args) i = snd (args ! i)"
    using assms(2) by (simp add: subParamsFor_def args_parameters_def ranges_of_nth sub_subspan_def
        del: of_nat_add)
qed

subsection \<open>Operating system commands\<close>

datatype osc_terminator = BelTerminator | StTerminator

definition osc_text :: "nat \<Rightarrow> wstring \<Rightarrow> osc_terminator \<Rightarrow> wstring" where
  "osc_text n str term =
     [ESC, 0x5D] @ decimal n @ [0x3B] @ str @
     (case term of BelTerminator \<Rightarrow> [BEL] | StTerminator \<Rightarrow> [ESC, 0x5C])"

text \<open>The characters an operating system command collects.\<close>

definition osc_char :: "wchar \<Rightarrow> bool" where
  "osc_char w \<longleftrightarrow>
     \<not> isOscTerminator w \<and> \<not> isEscape w \<and> \<not> isOscInvalid w \<and> \<not> isC1ControlCharacter w \<and>
     w \<noteq> CAN \<and> w \<noteq> SUB"

definition osc_holding :: "VTStates \<Rightarrow> VTInt \<Rightarrow> wstring \<Rightarrow> ('e, 'h, 'c) sm \<Rightarrow> ('e, 'h, 'c) sm" where
  "osc_holding st n str s = s\<lparr>sm_state := st, sm_oscParameter := n, sm_oscString := str\<rparr>"

lemma osc_step_digit:
  assumes "isNumericParamValue w"
  shows "ProcessCharacter ops w (osc_holding OscParam v str s) =
    Some (osc_holding OscParam (AccumulateTo w v) str s)"
proof -
  have e: "w \<noteq> CAN" "w \<noteq> SUB" "\<not> isC1ControlCharacter w" "\<not> isEscape w" and "\<not> isOscTerminator w"
    using assms by (auto simp: char_class word_le_nat_alt wchar_eq_unat)
  with assms show ?thesis
    by (simp add: ProcessCharacter_event [OF e] state_event_def osc_holding_def EventOscParam_def
        ActionOscParam_def)
qed

lemma osc_read_number:
  "foldM (ProcessCharacter ops) (decimal n) (osc_holding OscParam 0 str s) =
     Some (osc_holding OscParam (min (int n) MAX_PARAMETER_VALUE) str s)"
proof (induction n rule: decimal.induct)
  case (1 n)
  show ?case
  proof (cases "n < 10")
    case True
    then show ?thesis
      using AccumulateTo_digit [of n 0]
      by (simp add: decimal.simps osc_step_digit numeric_digit MAX_PARAMETER_VALUE_def)
  next
    case False
    have "AccumulateTo (0x30 + of_nat (n mod 10)) (min (int (n div 10)) MAX_PARAMETER_VALUE) =
        min (int n) MAX_PARAMETER_VALUE"
      using AccumulateTo_digit [of "n mod 10" "int (n div 10)"] by (simp add: zdiv_int zmod_int)
    with False 1 show ?thesis
      by (simp add: decimal.simps [of n] foldM_append osc_step_digit numeric_digit)
  qed
qed

lemma osc_read_string:
  "list_all osc_char str \<Longrightarrow>
   foldM (ProcessCharacter ops) str (osc_holding OscString n pre s) =
     Some (osc_holding OscString n (pre @ str) s)"
proof (induction str arbitrary: pre)
  case (Cons w str)
  then have "ProcessCharacter ops w (osc_holding OscString n pre s) =
      Some (osc_holding OscString n (pre @ [w]) s)"
    by (subst ProcessCharacter_event)
      (auto simp: osc_char_def state_event_def osc_holding_def EventOscString_def ActionOscPut_def)
  with Cons show ?case by simp
qed simp

text \<open>The state in which the terminator is complete.\<close>

definition osc_collected ::
  "osc_terminator \<Rightarrow> nat \<Rightarrow> wstring \<Rightarrow> ('e, 'h, 'c) sm \<Rightarrow> ('e, 'h, 'c) sm" where
  "osc_collected term n str s =
     osc_holding (case term of BelTerminator \<Rightarrow> OscString | StTerminator \<Rightarrow> OscTermination)
       (min (int n) MAX_PARAMETER_VALUE) str (ActionClear s)"

lemma osc_terminated:
  "foldM (ProcessCharacter ops)
     (case term of BelTerminator \<Rightarrow> [BEL] | StTerminator \<Rightarrow> [ESC, 0x5C]) (osc_holding OscString v str s) =
   do { s \<leftarrow> ActionOscDispatch ops
              (osc_holding (case term of BelTerminator \<Rightarrow> OscString | StTerminator \<Rightarrow> OscTermination) v str s);
        Some (EnterGround s) }"
proof (cases "term")
  case BelTerminator
  have "ProcessCharacter ops BEL (osc_holding OscString v str s) =
      state_event ops BEL (osc_holding OscString v str s)"
    by (rule ProcessCharacter_event) (simp_all add: char_class)
  with BelTerminator show ?thesis
    by (simp add: foldM_single del: foldM.simps)
      (simp add: state_event_def osc_holding_def EventOscString_def isOscTerminator_def)
next
  case StTerminator
  have "ProcessCharacter ops ESC (osc_holding OscString v str s) =
      Some (osc_holding OscTermination v str s)"
    by (subst ProcessCharacter.simps)
      (simp add: osc_holding_def ESC_not_C1 state_event_def EventOscString_def EnterOscTermination_def
        char_class)
  moreover have "ProcessCharacter ops 0x5C (osc_holding OscTermination v str s) =
      state_event ops 0x5C (osc_holding OscTermination v str s)"
    by (rule ProcessCharacter_event) (simp_all add: char_class)
  ultimately show ?thesis using StTerminator
    by (simp add: foldM_pair state_event_def EventOscTermination_def isStringTerminatorIndicator_def
        osc_holding_def del: foldM.simps)
qed

lemma osc_text_parsed:
  assumes "sm_state s \<notin> {OscString, OscParam, DcsPassThrough}" and "GetParserMode Ansi s"
    and "list_all osc_char str"
  shows "foldM (ProcessCharacter ops) (osc_text n str term) s =
    do {
      (_, s') \<leftarrow>
        SafeExecute ops (eng_ActionOscDispatch ops (min (int n) MAX_PARAMETER_VALUE) str)
          (osc_collected term n str s);
      Some (EnterGround s')
    }"
proof -
  have esc: "ProcessCharacter ops ESC s = Some (EnterEscape s)"
    using assms(1) by (simp add: ProcessCharacter_ESC ActionInterrupt_def)
  have "ProcessCharacter ops 0x5D (EnterEscape s) = Some (EnterOscParam (EnterEscape s))"
    using assms(2)
    by (subst ProcessCharacter_event)
      (simp_all add: state_event_def EventEscape_def EnterEscape_def ActionClear_def char_class
        GetParserMode_def)
  moreover have "EnterOscParam (EnterEscape s) = osc_holding OscParam 0 [] (ActionClear s)"
    by (simp add: EnterOscParam_def EnterEscape_def ActionClear_def osc_holding_def)
  ultimately have start: "foldM (ProcessCharacter ops) [ESC, 0x5D] s =
      Some (osc_holding OscParam 0 [] (ActionClear s))" by (simp add: esc)
  have delim: "foldM (ProcessCharacter ops) [0x3B] (osc_holding OscParam v [] t) =
      Some (osc_holding OscString v [] t)" for v and t :: "('a, 'b, 'c) sm"
    by (simp, subst ProcessCharacter_event)
      (simp_all add: char_class state_event_def osc_holding_def EventOscParam_def EnterOscString_def)
  have bind: "map_option snd m \<bind> g = m \<bind> (\<lambda>(_, s). g s)" for m and g :: "_ \<Rightarrow> _ option"
    by (cases m) auto
  have "foldM (ProcessCharacter ops) (osc_text n str term) s =
      do { s \<leftarrow> ActionOscDispatch ops (osc_collected term n str s); Some (EnterGround s) }"
    unfolding osc_text_def osc_collected_def
    by (simp only: foldM_append start bind.bind_lunit osc_read_number delim
        osc_read_string [OF assms(3)] append_Nil osc_terminated)
  moreover have "sm_oscParameter (osc_collected term n str s) = min (int n) MAX_PARAMETER_VALUE"
    "sm_oscString (osc_collected term n str s) = str"
    by (simp_all add: osc_collected_def osc_holding_def)
  ultimately show ?thesis by (simp only: ActionOscDispatch_def bind)
qed

end
