(* ===== verification/ParserStream.thy ===== *)
theory ParserStream
  imports ParserPosition
begin

text \<open>
  The parser as a stream processor. Text reaches \<^verbatim>\<open>ProcessString\<close> in pieces whose borders mean
  nothing; runs of printable characters are handed to the engine in one piece. For an engine of
  the output kind both are only an optimisation: processing a string is the same as feeding its
  characters one by one, up to the bookkeeping of the position in the string, and therefore does
  not depend on where the string was cut.
\<close>

subsection \<open>The bookkeeping\<close>

text \<open>The fields that record where in the current string the parser is, what of it may have to be
  passed through, and where an escape sequence was to be injected.\<close>

definition sm_erase :: "('e, 'h, 'c) sm \<Rightarrow> ('e, 'h, 'c) sm" where
  "sm_erase s =
     s\<lparr>sm_currentString := [], sm_runOffset := 0, sm_runSize := 0, sm_cachedSequence := None,
       sm_injections := [], sm_processingLastCharacter := False\<rparr>"

lemma erase_sel [simp]:
  "sm_engine (sm_erase s) = sm_engine s" "sm_state (sm_erase s) = sm_state s"
  "sm_isEngineForInput (sm_erase s) = sm_isEngineForInput s"
  "sm_parserMode (sm_erase s) = sm_parserMode s" "sm_identifier (sm_erase s) = sm_identifier s"
  "sm_parameters (sm_erase s) = sm_parameters s"
  "sm_parameterLimitOverflowed (sm_erase s) = sm_parameterLimitOverflowed s"
  "sm_subParameters (sm_erase s) = sm_subParameters s"
  "sm_subParameterRanges (sm_erase s) = sm_subParameterRanges s"
  "sm_subParameterLimitOverflowed (sm_erase s) = sm_subParameterLimitOverflowed s"
  "sm_subParameterCounter (sm_erase s) = sm_subParameterCounter s"
  "sm_oscString (sm_erase s) = sm_oscString s" "sm_oscParameter (sm_erase s) = sm_oscParameter s"
  "sm_dcsStringHandler (sm_erase s) = sm_dcsStringHandler s"
  "sm_onCsiCompleteCallback (sm_erase s) = sm_onCsiCompleteCallback s"
  "GetParserMode m (sm_erase s) = GetParserMode m s"
  by (simp_all add: sm_erase_def GetParserMode_def)

lemma erase_erase [simp]: "sm_erase (sm_erase s) = sm_erase s"
  by (simp add: sm_erase_def)

lemma erase_update [simp]:
  "sm_erase (s\<lparr>sm_currentString := x\<rparr>) = sm_erase s" "sm_erase (s\<lparr>sm_runOffset := n\<rparr>) = sm_erase s"
  "sm_erase (s\<lparr>sm_runSize := n\<rparr>) = sm_erase s" "sm_erase (s\<lparr>sm_cachedSequence := q\<rparr>) = sm_erase s"
  "sm_erase (s\<lparr>sm_injections := js\<rparr>) = sm_erase s"
  "sm_erase (s\<lparr>sm_processingLastCharacter := b\<rparr>) = sm_erase s"
  by (simp_all add: sm_erase_def)

text \<open>On a machine that does not serve an input engine, a step depends on the bookkeeping only in
  the bookkeeping. The kind of the machine stays.\<close>

definition streams :: "(('e, 'h, 'c) sm \<Rightarrow> ('e, 'h, 'c) sm option) \<Rightarrow> bool" where
  "streams f \<longleftrightarrow>
     (\<forall>s. \<not> sm_isEngineForInput s \<longrightarrow>
        map_option sm_erase (f (sm_erase s)) = map_option sm_erase (f s)) \<and>
     (\<forall>s t. f s = Some t \<longrightarrow> sm_isEngineForInput t = sm_isEngineForInput s)"

lemma streamsI:
  "(\<And>s. \<not> sm_isEngineForInput s \<Longrightarrow>
      map_option sm_erase (f (sm_erase s)) = map_option sm_erase (f s)) \<Longrightarrow>
   (\<And>s t. f s = Some t \<Longrightarrow> sm_isEngineForInput t = sm_isEngineForInput s) \<Longrightarrow> streams f"
  by (simp add: streams_def)

lemma streamsD:
  "streams f \<Longrightarrow> \<not> sm_isEngineForInput s \<Longrightarrow>
   map_option sm_erase (f (sm_erase s)) = map_option sm_erase (f s)"
  by (simp add: streams_def)

lemma streams_kind: "streams f \<Longrightarrow> f s = Some t \<Longrightarrow> sm_isEngineForInput t = sm_isEngineForInput s"
  by (simp add: streams_def)

lemma erase_kind: "sm_erase s = sm_erase t \<Longrightarrow> sm_isEngineForInput s = sm_isEngineForInput t"
  by (metis erase_sel(3))

lemma streams_cong:
  assumes "streams f" and "sm_erase s = sm_erase t" and "\<not> sm_isEngineForInput s"
  shows "map_option sm_erase (f s) = map_option sm_erase (f t)"
  using streamsD [OF assms(1), of s] streamsD [OF assms(1), of t] erase_kind [OF assms(2)] assms(2,3)
  by simp

lemma streams_Some:
  "(\<And>s. sm_erase (g (sm_erase s)) = sm_erase (g s)) \<Longrightarrow>
   (\<And>s. sm_isEngineForInput (g s) = sm_isEngineForInput s) \<Longrightarrow> streams (\<lambda>s. Some (g s))"
  by (simp add: streams_def)

lemma streams_bind:
  fixes f g :: "('e, 'h, 'c) sm \<Rightarrow> ('e, 'h, 'c) sm option"
  assumes "streams f" and "streams g"
  shows "streams (\<lambda>s. f s \<bind> g)"
proof (rule streamsI)
  fix s :: "('e, 'h, 'c) sm" assume out: "\<not> sm_isEngineForInput s"
  from streamsD [OF assms(1) this] consider "f (sm_erase s) = None" "f s = None"
    | t u where "f (sm_erase s) = Some t" "f s = Some u" "sm_erase t = sm_erase u"
    by (cases "f (sm_erase s)"; cases "f s") auto
  then show "map_option sm_erase (f (sm_erase s) \<bind> g) = map_option sm_erase (f s \<bind> g)"
  proof cases
    case 2
    then have "\<not> sm_isEngineForInput t" using out streams_kind [OF assms(1)] erase_sel(3) by metis
    with 2 show ?thesis using streams_cong [OF assms(2)] by simp
  qed simp
next
  fix s t assume "f s \<bind> g = Some t"
  then show "sm_isEngineForInput t = sm_isEngineForInput s"
    using streams_kind [OF assms(1)] streams_kind [OF assms(2)] by (auto split: Option.bind_splits)
qed

lemma streams_if:
  "(\<And>s. P (sm_erase s) = P s) \<Longrightarrow> streams f \<Longrightarrow> streams g \<Longrightarrow> streams (\<lambda>s. if P s then f s else g s)"
  by (simp add: streams_def)

lemma streams_foldM: "(\<And>x. streams (f x)) \<Longrightarrow> streams (foldM f xs)"
proof (induction xs)
  case Nil
  then show ?case by (simp add: streams_def)
next
  case (Cons x xs)
  then have "streams (\<lambda>s. f x s \<bind> foldM f xs)" by (blast intro: streams_bind)
  then show ?case by (simp add: streams_def)
qed

text \<open>The reference: one character at a time. In the ground state a printable character goes to
  the engine as a string of one character.\<close>

definition feed ::
  "('e, 'h, 'c) engine_ops \<Rightarrow> wchar \<Rightarrow> ('e, 'h, 'c) sm \<Rightarrow> ('e, 'h, 'c) sm option" where
  "feed ops w s =
     (if sm_state s = Ground \<and> \<not> isActionableFromGround w then ActionPrintString ops [w] s
      else ProcessCharacter ops w s)"

subsection \<open>Engine calls\<close>

lemma erase_apply_request: "sm_erase (apply_request r s) = sm_erase (apply_request r (sm_erase s))"
  by (cases r) (simp_all add: SetParserMode_def InjectSequence_def OnCsiComplete_def, simp_all add: sm_erase_def)

lemma erase_requests:
  "sm_erase s = sm_erase t \<Longrightarrow> sm_erase (fold apply_request rs s) = sm_erase (fold apply_request rs t)"
proof (induction rs arbitrary: s t)
  case (Cons r rs)
  then have "sm_erase (apply_request r s) = sm_erase (apply_request r t)"
    by (metis erase_apply_request)
  from Cons.IH [OF this] show ?case by simp
qed simp

lemma call_erase:
  "fst (call f (sm_erase s)) = fst (call f s)"
  "sm_erase (snd (call f (sm_erase s))) = sm_erase (snd (call f s))"
  by (auto simp: call_def split: prod.split intro!: erase_requests) (simp add: sm_erase_def)

subsection \<open>The contract of an output engine\<close>

locale stream_engine = callback_kind ops
  for ops :: "('e, 'h, 'c) engine_ops" +
  assumes passes: "eng_ActionPassThroughString ops str e = (e, [], Handled)"
    and prints: "snd (eng_ActionPrintString ops str e) = ([], Handled)"
    and batch: "\<forall>w \<in> set (xs @ ys). \<not> isActionableFromGround w \<Longrightarrow>
      fst (eng_ActionPrintString ops (xs @ ys) e) =
      fst (eng_ActionPrintString ops ys (fst (eng_ActionPrintString ops xs e)))"
    and callback_streams: "\<not> sm_isEngineForInput s \<Longrightarrow>
      map_option sm_erase (eng_RunCallback ops cb (sm_erase s)) =
        map_option sm_erase (eng_RunCallback ops cb s)"
begin

lemma run_callback_streams: "streams (eng_RunCallback ops cb)"
  using callback_streams callback_kind by (auto intro: streamsI)


lemma call_passes: "call (eng_ActionPassThroughString ops str) s = (Handled, s)"
  by (simp add: call_def passes)

lemma flush_erase: "\<exists>b s'. FlushToTerminal ops s = Some (b, s') \<and> sm_erase s' = sm_erase s"
  by (subst FlushToTerminal_unfold)
    (auto simp: SafeExecute_def call_passes split: option.split)

lemma exec_streams: "streams (\<lambda>s. map_option snd (SafeExecute ops f s))"
proof (rule streamsI)
  fix s :: "('e, 'h, 'c) sm"
  obtain r t where t: "call f (sm_erase s) = (r, t)" by (cases "call f (sm_erase s)")
  with call_erase [of f s] obtain u where u: "call f s = (r, u)" "sm_erase t = sm_erase u"
    by (cases "call f s") simp
  obtain b t' where "FlushToTerminal ops t = Some (b, t')" "sm_erase t' = sm_erase t"
    using flush_erase by blast
  moreover obtain c u' where "FlushToTerminal ops u = Some (c, u')" "sm_erase u' = sm_erase u"
    using flush_erase by blast
  ultimately show "map_option sm_erase (map_option snd (SafeExecute ops f (sm_erase s))) =
      map_option sm_erase (map_option snd (SafeExecute ops f s))"
    using t u by (cases r) (auto simp: SafeExecute_def)
next
  fix s t assume "map_option snd (SafeExecute ops f s) = Some t"
  then show "sm_isEngineForInput t = sm_isEngineForInput s"
    by (auto dest!: SafeExecute_core sm_core_eqD(1))
qed

text \<open>The argument of the call may be read off the parser state.\<close>

lemma exec_streams_arg:
  assumes "\<And>s. f (sm_erase s) = f s"
  shows "streams (\<lambda>s. map_option snd (SafeExecute ops (f s) s))"
proof (rule streamsI)
  fix s :: "('e, 'h, 'c) sm" assume out: "\<not> sm_isEngineForInput s"
  show "map_option sm_erase (map_option snd (SafeExecute ops (f (sm_erase s)) (sm_erase s))) =
      map_option sm_erase (map_option snd (SafeExecute ops (f s) s))"
    unfolding assms using streamsD [OF exec_streams [of "f s"] out] .
next
  fix s t assume "map_option snd (SafeExecute ops (f s) s) = Some t"
  then show "sm_isEngineForInput t = sm_isEngineForInput s"
    using streams_kind [OF exec_streams] by blast
qed

lemma action_streams:
  "streams (ActionExecute ops w)" "streams (ActionExecuteFromEscape ops w)"
  "streams (ActionPrint ops w)" "streams (ActionPrintString ops str)"
  "streams (ActionEscDispatch ops w)" "streams (ActionVt52EscDispatch ops w)"
  "streams (ActionCsiDispatch ops w)" "streams (ActionOscDispatch ops)"
  "streams (ActionSs3Dispatch ops w)"
  unfolding ActionExecute_def [abs_def] ActionExecuteFromEscape_def [abs_def]
    ActionPrint_def [abs_def] ActionPrintString_def [abs_def] ActionEscDispatch_def [abs_def]
    ActionVt52EscDispatch_def [abs_def] ActionCsiDispatch_def [abs_def]
    ActionOscDispatch_def [abs_def] ActionSs3Dispatch_def [abs_def]
  by (rule exec_streams exec_streams_arg; simp)+

lemma enter_streams:
  "streams (\<lambda>s. Some (EnterGround s))" "streams (\<lambda>s. Some (EnterEscape s))"
  "streams (\<lambda>s. Some (EnterEscapeIntermediate s))" "streams (\<lambda>s. Some (EnterCsiEntry s))"
  "streams (\<lambda>s. Some (EnterCsiParam s))" "streams (\<lambda>s. Some (EnterCsiSubParam s))"
  "streams (\<lambda>s. Some (EnterCsiIgnore s))" "streams (\<lambda>s. Some (EnterCsiIntermediate s))"
  "streams (\<lambda>s. Some (EnterOscParam s))" "streams (\<lambda>s. Some (EnterOscString s))"
  "streams (\<lambda>s. Some (EnterOscTermination s))" "streams (\<lambda>s. Some (EnterSs3Entry s))"
  "streams (\<lambda>s. Some (EnterSs3Param s))" "streams (\<lambda>s. Some (EnterVt52Param s))"
  "streams (\<lambda>s. Some (EnterDcsEntry s))" "streams (\<lambda>s. Some (EnterDcsParam s))"
  "streams (\<lambda>s. Some (EnterDcsIgnore s))" "streams (\<lambda>s. Some (EnterDcsIntermediate s))"
  "streams (\<lambda>s. Some (EnterDcsPassThrough s))" "streams (\<lambda>s. Some (ActionIgnore s))"
  "streams (\<lambda>s. Some (ActionCollect w s))" "streams (\<lambda>s. Some (ActionOscParam w s))"
  "streams (\<lambda>s. Some (ActionOscPut w s))" "streams (\<lambda>s. Some (ensure_parameter s))"
  by (simp_all add: streams_def sm_erase_def EnterGround_def EnterEscape_def
      EnterEscapeIntermediate_def EnterCsiEntry_def EnterCsiParam_def EnterCsiSubParam_def
      EnterCsiIgnore_def EnterCsiIntermediate_def EnterOscParam_def EnterOscString_def
      EnterOscTermination_def EnterSs3Entry_def EnterSs3Param_def EnterVt52Param_def
      EnterDcsEntry_def EnterDcsParam_def EnterDcsIgnore_def EnterDcsIntermediate_def
      EnterDcsPassThrough_def ActionIgnore_def ActionCollect_def ActionOscParam_def
      ActionOscPut_def ActionClear_def ensure_parameter_def Let_def)

lemma streams_comp:
  "streams (\<lambda>s. Some (g s)) \<Longrightarrow> streams (\<lambda>s. Some (h s)) \<Longrightarrow> streams (\<lambda>s. Some (g (h s)))"
  using streams_bind [of "\<lambda>s. Some (h s)" "\<lambda>s. Some (g s)"] by simp

lemma pos_kind: "sm_pos t = sm_pos s \<Longrightarrow> sm_isEngineForInput t = sm_isEngineForInput s"
  by (simp add: sm_pos_def)

lemma erase_EnterDcs:
  "sm_erase (EnterDcsIgnore s) = (sm_erase s)\<lparr>sm_state := DcsIgnore\<rparr>"
  "sm_erase (EnterDcsPassThrough s) = (sm_erase s)\<lparr>sm_state := DcsPassThrough\<rparr>"
  by (simp_all add: EnterDcsIgnore_def EnterDcsPassThrough_def sm_erase_def)

lemma sos_streams: "streams (\<lambda>s. Some (EnterSosPmApcString ops s))"
proof (rule streams_Some)
  fix s :: "('e, 'h, 'c) sm"
  have "sm_erase (s\<lparr>sm_state := SosPmApcString, sm_cachedSequence := None\<rparr>) =
      sm_erase ((sm_erase s)\<lparr>sm_state := SosPmApcString, sm_cachedSequence := None\<rparr>)"
    by (simp add: sm_erase_def)
  then show "sm_erase (EnterSosPmApcString ops (sm_erase s)) = sm_erase (EnterSosPmApcString ops s)"
    unfolding EnterSosPmApcString_def by (metis call_erase(2))
qed (rule pos_kind, simp)

lemma param_streams: "streams (\<lambda>s. Some (ActionParam w s))"
  by (rule streams_Some)
    (simp add: ActionParam_def ensure_parameter_def Let_def sm_erase_def, rule pos_kind, simp)

lemma sub_param_streams: "streams (ActionSubParam w)"
  by (rule streamsI)
    (simp add: ActionSubParam_def ensure_parameter_def Let_def sm_erase_def,
      rule pos_kind, rule sm_pos_ActionSubParam)

lemma erase_handler:
  fixes t u :: "('e, 'h, 'c) sm"
  shows "sm_erase t = sm_erase u \<Longrightarrow>
   sm_erase (t\<lparr>sm_dcsStringHandler := h\<rparr>) = sm_erase (u\<lparr>sm_dcsStringHandler := h\<rparr>)"
proof -
  have e: "sm_erase (v\<lparr>sm_dcsStringHandler := h\<rparr>) = (sm_erase v)\<lparr>sm_dcsStringHandler := h\<rparr>"
    for v :: "('e, 'h, 'c) sm"
    by (simp add: sm_erase_def)
  assume "sm_erase t = sm_erase u"
  then show ?thesis by (simp only: e)
qed

lemma handler_streams:
  "streams (\<lambda>s. case sm_dcsStringHandler s of None \<Rightarrow> None
     | Some h \<Rightarrow> (case call (eng_CallStringHandler ops h w) s of
                    (ok, s1) \<Rightarrow> Some (if ok then s1 else EnterDcsIgnore s1)))"
proof (rule streamsI)
  fix s :: "('e, 'h, 'c) sm"
  have "map_option sm_erase (case call f (sm_erase s) of
        (ok, s1) \<Rightarrow> Some (if ok then s1 else EnterDcsIgnore s1)) =
      map_option sm_erase (case call f s of
        (ok, s1) \<Rightarrow> Some (if ok then s1 else EnterDcsIgnore s1))" for f
  proof -
    obtain r t where t: "call f (sm_erase s) = (r, t)" by (cases "call f (sm_erase s)")
    with call_erase [of f s] obtain u where "call f s = (r, u)" "sm_erase t = sm_erase u"
      by (cases "call f s") simp
    with t show ?thesis by (simp add: erase_EnterDcs)
  qed
  then show "map_option sm_erase (case sm_dcsStringHandler (sm_erase s) of None \<Rightarrow> None
     | Some h \<Rightarrow> (case call (eng_CallStringHandler ops h w) (sm_erase s) of
                    (ok, s1) \<Rightarrow> Some (if ok then s1 else EnterDcsIgnore s1))) =
    map_option sm_erase (case sm_dcsStringHandler s of None \<Rightarrow> None
     | Some h \<Rightarrow> (case call (eng_CallStringHandler ops h w) s of
                    (ok, s1) \<Rightarrow> Some (if ok then s1 else EnterDcsIgnore s1)))"
    by (cases "sm_dcsStringHandler s") simp_all
qed (auto simp: EnterDcsIgnore_def split: option.splits prod.splits if_splits
    dest!: sm_core_callD sm_core_eqD(1))

lemma interrupt_streams: "streams (ActionInterrupt ops)"
proof (rule streamsI)
  fix s :: "('e, 'h, 'c) sm"
  show "map_option sm_erase (ActionInterrupt ops (sm_erase s)) =
      map_option sm_erase (ActionInterrupt ops s)"
    by (cases "sm_dcsStringHandler s")
      (simp_all add: ActionInterrupt_def erase_handler [OF call_erase(2)])
qed (rule pos_kind, rule sm_pos_ActionInterrupt)

lemma dcs_dispatch_streams: "streams (\<lambda>s. Some (ActionDcsDispatch ops w s))"
proof (rule streams_Some)
  fix s :: "('e, 'h, 'c) sm"
  let ?f = "eng_ActionDcsDispatch ops (Finalize w (sm_identifier s)) (params_only (sm_parameters s))"
  obtain r t where t: "call ?f (sm_erase s) = (r, t)" by (cases "call ?f (sm_erase s)")
  with call_erase [of ?f s] obtain u where u: "call ?f s = (r, u)" "sm_erase t = sm_erase u"
    by (cases "call ?f s") simp
  let ?h = "\<lambda>v :: ('e, 'h, 'c) sm. case r of None \<Rightarrow> v | Some h \<Rightarrow> v\<lparr>sm_dcsStringHandler := h\<rparr>"
  have h: "sm_erase (?h t) = sm_erase (?h u)"
    using u(2) erase_handler [OF u(2)] by (cases r) simp_all
  have sh: "sm_dcsStringHandler (?h t) = sm_dcsStringHandler (?h u)"
    using arg_cong [OF h, of sm_dcsStringHandler] by (simp only: erase_sel)
  have "ActionDcsDispatch ops w s = (if sm_dcsStringHandler (?h u) \<noteq> None
      then EnterDcsPassThrough (?h u) else EnterDcsIgnore (?h u))"
    using u(1) by (simp add: ActionDcsDispatch_def Let_def split: option.split)
  moreover have "ActionDcsDispatch ops w (sm_erase s) = (if sm_dcsStringHandler (?h t) \<noteq> None
      then EnterDcsPassThrough (?h t) else EnterDcsIgnore (?h t))"
    using t by (simp add: ActionDcsDispatch_def Let_def split: option.split)
  ultimately show "sm_erase (ActionDcsDispatch ops w (sm_erase s)) = sm_erase (ActionDcsDispatch ops w s)"
    using h sh by (cases "sm_dcsStringHandler (?h u) = None") (simp_all add: erase_EnterDcs)
qed (rule pos_kind, simp)

lemma callback_execute_streams: "streams (ExecuteCsiCompleteCallback ops)"
proof (rule streamsI)
  fix s :: "('e, 'h, 'c) sm" assume out: "\<not> sm_isEngineForInput s"
  have e: "sm_erase ((sm_erase s)\<lparr>sm_onCsiCompleteCallback := None\<rparr>) =
      sm_erase (s\<lparr>sm_onCsiCompleteCallback := None\<rparr>)"
    by (simp add: sm_erase_def)
  have m: "map_option sm_erase (m \<bind> (\<lambda>s'. Some (s'\<lparr>sm_currentString := x, sm_runOffset := y,
      sm_runSize := z\<rparr>))) = map_option sm_erase m" for m :: "('e, 'h, 'c) sm option" and x y z
    by (cases m) auto
  show "map_option sm_erase (ExecuteCsiCompleteCallback ops (sm_erase s)) =
      map_option sm_erase (ExecuteCsiCompleteCallback ops s)"
    by (auto simp: ExecuteCsiCompleteCallback_def m split: option.split
        intro: streams_cong [OF run_callback_streams e] simp: out)
qed (auto simp: ExecuteCsiCompleteCallback_def split: option.splits Option.bind_splits
    dest!: callback_kind)

lemma csi_dispatch_streams: "streams (csi_dispatch_event ops w)"
proof -
  have "streams (\<lambda>s. ActionCsiDispatch ops w s \<bind>
      (\<lambda>s. Some (EnterGround s) \<bind> ExecuteCsiCompleteCallback ops))"
    by (intro streams_bind action_streams enter_streams callback_execute_streams)
  then show ?thesis by (simp add: csi_dispatch_event_def [abs_def])
qed

lemmas stream_intros =
  streams_if action_streams enter_streams sos_streams param_streams sub_param_streams
  handler_streams interrupt_streams dcs_dispatch_streams csi_dispatch_streams streams_bind
  streams_comp [OF enter_streams(3) enter_streams(21)]
  streams_comp [OF enter_streams(8) enter_streams(21)]
  streams_comp [OF enter_streams(5) enter_streams(21)]
  streams_comp [OF enter_streams(18) enter_streams(21)]
  streams_comp [OF enter_streams(5) param_streams] streams_comp [OF enter_streams(13) param_streams]
  streams_comp [OF enter_streams(16) param_streams]

lemma event_streams:
  "streams (EventGround ops w)" "streams (EventEscape ops w)"
  "streams (EventEscapeIntermediate ops w)" "streams (EventCsiEntry ops w)"
  "streams (EventCsiIntermediate ops w)" "streams (EventCsiIgnore ops w)"
  "streams (EventCsiParam ops w)" "streams (EventCsiSubParam ops w)"
  "streams (EventOscParam ops w)" "streams (EventOscString ops w)"
  "streams (EventSs3Entry ops w)" "streams (EventSs3Param ops w)"
  "streams (EventDcsEntry ops w)" "streams EventDcsIgnore"
  "streams (EventDcsIntermediate ops w)" "streams (EventDcsPassThrough ops w)"
  "streams EventSosPmApcString"
  unfolding EventGround_def [abs_def] EventEscape_def [abs_def] EventEscapeIntermediate_def [abs_def]
    EventCsiEntry_def [abs_def] EventCsiIntermediate_def [abs_def] EventCsiIgnore_def [abs_def]
    EventCsiParam_def [abs_def] EventCsiSubParam_def [abs_def] EventOscParam_def [abs_def]
    EventOscString_def [abs_def] EventSs3Entry_def [abs_def] EventSs3Param_def [abs_def]
    EventDcsEntry_def [abs_def] EventDcsIgnore_def [abs_def] EventDcsIntermediate_def [abs_def]
    EventDcsPassThrough_def [abs_def] EventSosPmApcString_def [abs_def]
  by (intro stream_intros; simp)+

lemmas event_streamsD = event_streams [THEN streamsD]

lemma vt52_streams: "streams (EventVt52Param ops w)"
proof -
  let ?p = "\<lambda>s :: ('e, 'h, 'c) sm. s\<lparr>sm_parameters := sm_parameters s @ [VTParam (uint w)]\<rparr>"
  have "streams (\<lambda>s. Some (?p s))" by (rule streams_Some) (simp_all add: sm_erase_def)
  then have "streams (\<lambda>s. Some (?p s) \<bind> ActionVt52EscDispatch ops 0x59 \<bind> (\<lambda>s. Some (EnterGround s)))"
    by (intro streams_bind action_streams enter_streams)
  with \<open>streams (\<lambda>s. Some (?p s))\<close> show ?thesis
    unfolding EventVt52Param_def [abs_def] Let_def
    by (intro streams_if action_streams enter_streams) simp_all
qed

lemma dcs_param_streams: "streams (EventDcsParam ops w)"
  unfolding EventDcsParam_def [abs_def] ActionIgnore_def Let_def if_cancel
  by (intro stream_intros; simp)

lemma osc_termination_streams: "streams (EventOscTermination ops w)"
proof -
  have "streams (\<lambda>s. Some (EnterEscape s) \<bind> EventEscape ops w)"
    by (intro streams_bind enter_streams event_streams)
  then show ?thesis
    unfolding EventOscTermination_def [abs_def]
    by (intro stream_intros) simp_all
qed

lemma state_event_streams: "streams (state_event ops w)"
proof (rule streamsI)
  fix s :: "('e, 'h, 'c) sm" assume out: "\<not> sm_isEngineForInput s"
  show "map_option sm_erase (state_event ops w (sm_erase s)) = map_option sm_erase (state_event ops w s)"
    by (cases "sm_state s") (simp_all add: state_event_def streamsD [OF event_streams(1)]
      streamsD [OF event_streams(2)] streamsD [OF event_streams(3)] streamsD [OF event_streams(4)]
      streamsD [OF event_streams(5)] streamsD [OF event_streams(6)] streamsD [OF event_streams(7)]
      streamsD [OF event_streams(8)] streamsD [OF event_streams(9)] streamsD [OF event_streams(10)]
      streamsD [OF event_streams(11)] streamsD [OF event_streams(12)] streamsD [OF event_streams(13)]
      streamsD [OF event_streams(14)] streamsD [OF event_streams(15)] streamsD [OF event_streams(16)]
      streamsD [OF event_streams(17)] streamsD [OF vt52_streams] streamsD [OF dcs_param_streams]
      streamsD [OF osc_termination_streams] out)
qed (rule pos_kind, rule sm_pos_state_event)

lemma step_streams: "\<not> isC1ControlCharacter w \<Longrightarrow> streams (ProcessCharacter ops w)"
proof -
  assume "\<not> isC1ControlCharacter w"
  then have "ProcessCharacter ops w =
    (\<lambda>s. if (w = CAN \<or> w = SUB) \<and> \<not> (sm_state s = Escape \<and> sm_isEngineForInput s)
         then do { s \<leftarrow> ActionInterrupt ops s; s \<leftarrow> ActionExecute ops w s; Some (EnterGround s) }
         else if isEscape w \<and> sm_state s \<noteq> OscString \<and> sm_state s \<noteq> OscParam
         then do { s \<leftarrow> ActionInterrupt ops s; Some (EnterEscape s) }
         else state_event ops w s)"
    by (intro ext, subst ProcessCharacter.simps) (simp add: Let_def)
  moreover have "streams \<dots>"
    by (intro streams_if streams_bind interrupt_streams action_streams enter_streams
        state_event_streams) simp_all
  ultimately show ?thesis by simp
qed

lemma character_streams: "streams (ProcessCharacter ops w)"
proof (cases "isC1ControlCharacter w")
  case False
  then show ?thesis by (rule step_streams)
next
  case True
  then have "ProcessCharacter ops w = (\<lambda>s. if GetParserMode AcceptC1 s
      then ProcessCharacter ops ESC s \<bind> ProcessCharacter ops (c1To7Bit w) else Some (ActionIgnore s))"
    by (intro ext) (simp add: ProcessCharacter_C1 ActionIgnore_def)
  moreover have "streams \<dots>"
    by (intro streams_if streams_bind step_streams ESC_not_C1 c1To7Bit_not_C1 True enter_streams) simp
  ultimately show ?thesis by simp
qed

lemma feed_streams: "streams (feed ops w)"
  unfolding feed_def [abs_def]
  by (intro streams_if action_streams character_streams) simp

lemma foldM_feed_cong:
  "sm_erase s = sm_erase t \<Longrightarrow> \<not> sm_isEngineForInput s \<Longrightarrow>
   map_option sm_erase (foldM (feed ops) xs s) = map_option sm_erase (foldM (feed ops) xs t)"
  by (rule streams_cong [OF streams_foldM [OF feed_streams]])

subsection \<open>Printing in one piece\<close>

lemma print_string: "ActionPrintString ops str s = Some (s\<lparr>sm_engine := fst (eng_ActionPrintString ops str (sm_engine s))\<rparr>)"
proof -
  obtain e where "eng_ActionPrintString ops str (sm_engine s) = (e, [], Handled)"
    using prints [of str "sm_engine s"] by (cases "eng_ActionPrintString ops str (sm_engine s)") auto
  then show ?thesis by (simp add: ActionPrintString_def SafeExecute_def call_def)
qed

lemma print_pieces:
  "sm_state s = Ground \<Longrightarrow> \<forall>w \<in> set (u # us). \<not> isActionableFromGround w \<Longrightarrow>
   foldM (feed ops) (u # us) s = ActionPrintString ops (u # us) s"
proof (induction us arbitrary: u s)
  case Nil
  then show ?case by (simp add: feed_def print_string)
next
  case (Cons v vs)
  let ?t = "s\<lparr>sm_engine := fst (eng_ActionPrintString ops [u] (sm_engine s))\<rparr>"
  have "foldM (feed ops) (u # v # vs) s = foldM (feed ops) (v # vs) ?t"
    using Cons.prems by (simp add: feed_def print_string)
  also have "\<dots> = ActionPrintString ops (v # vs) ?t"
    using Cons.prems by (intro Cons.IH) auto
  finally show ?case
    using batch [of "[u]" "v # vs" "sm_engine s"] Cons.prems(2) by (simp add: print_string)
qed

subsection \<open>The loops\<close>

definition in_string :: "wstring \<Rightarrow> ('e, 'h, 'c) sm \<Rightarrow> bool" where
  "in_string str s \<longleftrightarrow>
     \<not> sm_isEngineForInput s \<and> sm_currentString s = str \<and> sm_runOffset s \<le> length str"

lemma in_string_pos: "sm_pos s = sm_pos t \<Longrightarrow> in_string str s = in_string str t"
  by (simp add: in_string_def sm_pos_def)

lemma drop_nth: "i < length xs \<Longrightarrow> drop i xs = xs ! i # drop (i + 1) xs"
  by (simp add: Cons_nth_drop_Suc)

text \<open>Two computations agree when their results differ only in the bookkeeping.\<close>

lemma bind_erase_cong:
  assumes "map_option sm_erase m = map_option sm_erase n"
    and "\<And>s t. m = Some s \<Longrightarrow> n = Some t \<Longrightarrow> sm_erase s = sm_erase t \<Longrightarrow>
      map_option sm_erase (f s) = map_option sm_erase (g t)"
  shows "map_option sm_erase (m \<bind> f) = map_option sm_erase (n \<bind> g)"
  using assms by (cases m; cases n) auto

lemma process_vt_feed:
  "i < length str \<Longrightarrow> in_string str s \<Longrightarrow> (sm_state s = Ground \<longrightarrow> isActionableFromGround (str ! i)) \<Longrightarrow>
   map_option sm_erase (process_vt ops str i s \<bind> (\<lambda>(j, s). foldM (feed ops) (drop j str) s)) =
   map_option sm_erase (foldM (feed ops) (drop i str) s) \<and>
   (\<forall>j s'. process_vt ops str i s = Some (j, s') \<longrightarrow>
      in_string str s' \<and> (j < length str \<longrightarrow> sm_state s' = Ground))"
proof (induction "length str - i" arbitrary: i s)
  case 0
  then show ?case by simp
next
  case (Suc n)
  let ?s = "s\<lparr>sm_runSize := sm_runSize s + 1, sm_processingLastCharacter := (i + 1 \<ge> length str)\<rparr>"
  have drop: "foldM (feed ops) (drop i str) s =
      ProcessCharacter ops (str ! i) s \<bind> foldM (feed ops) (drop (i + 1) str)"
    using Suc.prems by (subst drop_nth) (auto simp: feed_def)
  have cong: "map_option sm_erase (ProcessCharacter ops (str ! i) ?s) =
      map_option sm_erase (ProcessCharacter ops (str ! i) s)"
    by (rule streams_cong [OF character_streams]) (use Suc.prems(2) in \<open>simp_all add: in_string_def\<close>)
  show ?case
  proof (cases "ProcessCharacter ops (str ! i) ?s")
    case None
    with cong Suc.prems show ?thesis
      unfolding drop by (simp add: process_vt.simps [of ops str i s])
  next
    case (Some s1)
    have inn: "in_string str s1"
      using in_string_pos [OF sm_pos_ProcessCharacter [OF Some]] Suc.prems(2)
      by (simp add: in_string_def)
    have rest: "map_option sm_erase (foldM (feed ops) (drop i str) s) =
        map_option sm_erase (foldM (feed ops) (drop (i + 1) str) s1)"
    proof -
      from cong Some obtain t where "ProcessCharacter ops (str ! i) s = Some t" "sm_erase t = sm_erase s1"
        by (cases "ProcessCharacter ops (str ! i) s") auto
      moreover from this(2) have "\<not> sm_isEngineForInput t"
        using erase_kind [of t s1] inn by (simp add: in_string_def)
      ultimately show ?thesis
        using foldM_feed_cong [of t s1 "drop (i + 1) str"] unfolding drop by simp
    qed
    show ?thesis
    proof (cases "i + 1 < length str \<and> sm_state s1 \<noteq> Ground")
      case True
      then have "process_vt ops str i s = process_vt ops str (i + 1) s1"
        using Some Suc.prems(1) by (simp add: process_vt.simps [of ops str i s])
      moreover have "n = length str - (i + 1)" using Suc.hyps(2) by simp
      ultimately show ?thesis
        using Suc.hyps(1) [of "i + 1" s1] True inn rest by simp
    next
      case False
      then have "process_vt ops str i s = Some (i + 1, s1)"
        using Some Suc.prems(1) by (auto simp: process_vt.simps [of ops str i s])
      with False inn rest show ?thesis by auto
    qed
  qed
qed

lemma print_run_feed:
  assumes "in_string str s" and "sm_state s = Ground" and "i \<le> length str"
  shows "\<exists>j s'. print_run ops str i s = Some (j, s') \<and> in_string str s' \<and> sm_state s' = Ground \<and>
    j \<le> length str \<and> (j < length str \<longrightarrow> isActionableFromGround (str ! j)) \<and>
    map_option sm_erase (foldM (feed ops) (drop j str) s') =
      map_option sm_erase (foldM (feed ops) (drop i str) s)"
proof -
  let ?n = "FindActionableControlCharacter (drop i str)"
  let ?run = "take ?n (drop i str)"
  let ?s = "s\<lparr>sm_runOffset := i, sm_runSize := ?n\<rparr>"
  have n: "i + ?n \<le> length str" using FindActionable_le [of "drop i str"] assms(3) by simp
  have stop: "i + ?n < length str \<longrightarrow> isActionableFromGround (str ! (i + ?n))"
    using FindActionable_stop [of "drop i str"] assms(3) by auto
  show ?thesis
  proof (cases "?n = 0")
    case True
    with assms stop show ?thesis
      by (auto simp: print_run_def Let_def in_string_def intro!: foldM_feed_cong)
  next
    case False
    let ?t = "?s\<lparr>sm_engine := fst (eng_ActionPrintString ops ?run (sm_engine s))\<rparr>"
    let ?u = "?t\<lparr>sm_runOffset := i + ?n, sm_runSize := 0\<rparr>"
    have "CurrentRun ?s = Some ?run" using assms by (simp add: CurrentRun_def in_string_def)
    then have "print_run ops str i s = Some (i + ?n, ?u)"
      using False by (simp add: print_run_def Let_def print_string)
    moreover from False n obtain u us where u: "?run = u # us"
      by (cases ?run) auto
    have "foldM (feed ops) ?run s = ActionPrintString ops ?run s"
      unfolding u using assms(2) FindActionable_prefix [of _ "drop i str"]
      by (intro print_pieces) (auto simp: u)
    then have "foldM (feed ops) (drop i str) s =
        foldM (feed ops) (drop (i + ?n) str) (s\<lparr>sm_engine := fst (eng_ActionPrintString ops ?run (sm_engine s))\<rparr>)"
    proof -
      have split: "drop i str = ?run @ drop (i + ?n) str"
        using append_take_drop_id [of ?n "drop i str"] by (simp add: add.commute)
      from \<open>foldM (feed ops) ?run s = ActionPrintString ops ?run s\<close> show ?thesis
        using foldM_append [of "feed ops" ?run "drop (i + ?n) str" s]
        by (simp only: split [symmetric] print_string bind.bind_lunit)
    qed
    moreover have "map_option sm_erase (foldM (feed ops) (drop (i + ?n) str) ?u) =
        map_option sm_erase (foldM (feed ops) (drop (i + ?n) str)
          (s\<lparr>sm_engine := fst (eng_ActionPrintString ops ?run (sm_engine s))\<rparr>))"
      by (rule foldM_feed_cong) (use assms(1) in \<open>simp_all add: sm_erase_def in_string_def\<close>)
    ultimately show ?thesis using assms n stop
      by (intro exI [of _ "i + ?n"] exI [of _ ?u]) (simp add: in_string_def)
  qed
qed

lemma process_loop_feed:
  "in_string str s \<Longrightarrow> i \<le> length str \<Longrightarrow> (i < length str \<longrightarrow> sm_state s = Ground) \<Longrightarrow>
   map_option sm_erase (process_loop ops str i s) =
     map_option sm_erase (foldM (feed ops) (drop i str) s) \<and>
   (\<forall>s'. process_loop ops str i s = Some s' \<longrightarrow> in_string str s')"
proof (induction "length str - i" arbitrary: i s rule: less_induct)
  case less
  show ?case
  proof (cases "i < length str")
    case False
    with less.prems show ?thesis by (simp add: process_loop.simps [of ops str "length str"])
  next
    case True
    with less.prems obtain j s1 where j: "print_run ops str i s = Some (j, s1)" "in_string str s1"
      "sm_state s1 = Ground" "j \<le> length str" "j < length str \<longrightarrow> isActionableFromGround (str ! j)"
      "map_option sm_erase (foldM (feed ops) (drop j str) s1) =
        map_option sm_erase (foldM (feed ops) (drop i str) s)"
      using print_run_feed [of str s i] by auto
    have ij: "i \<le> j" using j(1) by (rule print_run_advances)
    show ?thesis
    proof (cases "j < length str")
      case False
      with j True show ?thesis by (simp add: process_loop.simps [of ops str i s])
    next
      case jl: True
      note vt = process_vt_feed [OF jl j(2), rule_format]
      show ?thesis
      proof (cases "process_vt ops str j s1")
        case None
        with vt j True jl show ?thesis by (simp add: process_loop.simps [of ops str i s])
      next
        case (Some ks)
        obtain k s2 where k: "ks = (k, s2)" by (cases ks)
        with Some process_vt_advances [of ops str j s1 k s2] jl have jk: "j < k" "k \<le> length str" by auto
        then have "length str - k < length str - i" using ij True by simp
        from less.hyps [OF this, of s2] vt j(5) Some k jk jl j True show ?thesis
          by (simp add: process_loop.simps [of ops str i s])
      qed
    qed
  qed
qed

lemma process_tail_erase:
  assumes "in_string str s"
  shows "\<exists>s'. process_tail ops s = Some s' \<and> sm_erase s' = sm_erase s"
  using assms by (auto simp: process_tail_def in_string_def CurrentRun_def Let_def)

text \<open>A whole string is its characters.\<close>

lemma process_string_feed:
  assumes "\<not> sm_isEngineForInput s"
  shows "map_option sm_erase (ProcessString ops str s) = map_option sm_erase (foldM (feed ops) str s)"
proof -
  let ?s = "s\<lparr>sm_currentString := str, sm_runOffset := 0, sm_runSize := 0, sm_injections := []\<rparr>"
  let ?m = "if sm_state ?s = Ground then process_loop ops str 0 ?s
            else do { (i, s) \<leftarrow> process_vt ops str 0 ?s; process_loop ops str i s }"
  have inn: "in_string str ?s" using assms by (simp add: in_string_def)
  have tail: "map_option sm_erase (m \<bind> process_tail ops) = map_option sm_erase m"
    if "\<forall>s'. m = Some s' \<longrightarrow> in_string str s'" for m
    using that process_tail_erase [of str] by (cases m) auto
  have main: "map_option sm_erase ?m = map_option sm_erase (foldM (feed ops) str ?s) \<and>
      (\<forall>s'. ?m = Some s' \<longrightarrow> in_string str s')"
  proof (cases "sm_state s = Ground \<or> str = []")
    case True
    have "process_vt ops [] 0 s' = Some (0, s')" for s' by (subst process_vt.simps) simp
    with True have m: "?m = process_loop ops str 0 ?s" by auto
    have "0 < length str \<longrightarrow> sm_state ?s = Ground" using True by auto
    from process_loop_feed [OF inn le0 this] show ?thesis unfolding m drop_0 .
  next
    case False
    show ?thesis
    proof (cases "process_vt ops str 0 ?s")
      case None
      with False inn process_vt_feed [of 0 str ?s] show ?thesis by simp
    next
      case (Some js)
      obtain j s1 where j: "js = (j, s1)" by (cases js)
      with Some False process_vt_advances [of ops str 0 ?s j s1] have "j \<le> length str" by simp
      have m: "?m = process_loop ops str j s1" using Some j False by simp
      have vt: "map_option sm_erase (foldM (feed ops) (drop j str) s1) =
          map_option sm_erase (foldM (feed ops) str ?s)"
        "in_string str s1" "j < length str \<longrightarrow> sm_state s1 = Ground"
        using process_vt_feed [of 0 str ?s] Some j False inn by simp_all
      from process_loop_feed [OF vt(2) \<open>j \<le> length str\<close> vt(3)] show ?thesis unfolding m vt(1) .
    qed
  qed
  have "ProcessString ops str s = ?m \<bind> process_tail ops"
    by (simp add: ProcessString_def Let_def)
  then have "map_option sm_erase (ProcessString ops str s) =
      map_option sm_erase (foldM (feed ops) str ?s)"
    by (simp only: tail [OF conjunct2 [OF main]] conjunct1 [OF main])
  also have "\<dots> = map_option sm_erase (foldM (feed ops) str s)"
    by (rule foldM_feed_cong) (simp_all add: assms)
  finally show ?thesis .
qed

lemma foldM_feed_kind:
  "foldM (feed ops) str s = Some t \<Longrightarrow> sm_isEngineForInput t = sm_isEngineForInput s"
  by (rule streams_kind [OF streams_foldM [OF feed_streams]])

lemma process_string_kind:
  assumes "\<not> sm_isEngineForInput s" and "ProcessString ops str s = Some t"
  shows "\<not> sm_isEngineForInput t"
proof -
  from process_string_feed [OF assms(1), of str] assms(2) obtain u
    where "foldM (feed ops) str s = Some u" "sm_erase t = sm_erase u"
    by (cases "foldM (feed ops) str s") auto
  with assms(1) show ?thesis using foldM_feed_kind erase_kind by metis
qed

text \<open>Where a string is cut does not matter.\<close>

lemma process_string_append:
  assumes "\<not> sm_isEngineForInput s"
  shows "map_option sm_erase (ProcessString ops (xs @ ys) s) =
    map_option sm_erase (ProcessString ops xs s \<bind> ProcessString ops ys)"
proof -
  have "map_option sm_erase (ProcessString ops (xs @ ys) s) =
      map_option sm_erase (foldM (feed ops) xs s \<bind> foldM (feed ops) ys)"
    using process_string_feed [OF assms, of "xs @ ys"] by (simp only: foldM_append)
  also have "\<dots> = map_option sm_erase (ProcessString ops xs s \<bind> ProcessString ops ys)"
  proof (rule bind_erase_cong)
    show "map_option sm_erase (foldM (feed ops) xs s) = map_option sm_erase (ProcessString ops xs s)"
      using process_string_feed [OF assms, of xs] by simp
  next
    fix t u assume t: "foldM (feed ops) xs s = Some t" and u: "ProcessString ops xs s = Some u"
      and e: "sm_erase t = sm_erase u"
    have "\<not> sm_isEngineForInput u" using assms u by (rule process_string_kind)
    moreover have "\<not> sm_isEngineForInput t" using foldM_feed_kind [OF t] assms by simp
    ultimately show "map_option sm_erase (foldM (feed ops) ys t) = map_option sm_erase (ProcessString ops ys u)"
      using process_string_feed [of u ys] foldM_feed_cong [OF e, of ys] by simp
  qed
  finally show ?thesis .
qed

lemma process_string_streams:
  assumes "\<not> sm_isEngineForInput s"
  shows "map_option sm_erase (ProcessString ops str (sm_erase s)) =
    map_option sm_erase (ProcessString ops str s)"
proof -
  have "\<not> sm_isEngineForInput (sm_erase s)" using assms by simp
  from process_string_feed [OF this] process_string_feed [OF assms]
    foldM_feed_cong [of "sm_erase s" s str] assms
  show ?thesis by simp
qed

end

end
