(* ===== verification/OutputLaws.thy ===== *)
theory OutputLaws
  imports OutputEngine ParserRoundtrip ParserStream
begin

text \<open>
  The output engine behind the parser. Its tables of sequences are looked up by the text of the
  identifier; it meets the contracts of \<open>parser_engine\<close> and \<open>stream_engine\<close> as soon as the
  terminal behind it meets the corresponding one; and the sequences an application sends end up as
  the calls they stand for.
\<close>

subsection \<open>Identifiers\<close>

definition id_key :: "string \<Rightarrow> bool" where
  "id_key s \<longleftrightarrow> length s \<le> 7 \<and> list_all (\<lambda>c. c \<noteq> CHR 0x00) s"

definition keys_ok :: "(string \<times> 'a) list \<Rightarrow> bool" where
  "keys_ok table \<longleftrightarrow> list_all id_key (map fst table) \<and> distinct (map fst table)"

lemma of_char_pos: "c \<noteq> CHR 0x00 \<Longrightarrow> 0 < (of_char c :: nat)"
proof (rule ccontr)
  assume "c \<noteq> CHR 0x00" and "\<not> 0 < (of_char c :: nat)"
  then have "of_char c = (of_char (CHR 0x00) :: nat)" by simp
  then have "c = CHR 0x00" by (simp only: of_char_eq_iff)
  with \<open>c \<noteq> CHR 0x00\<close> show False ..
qed

lemma VTID_inject:
  assumes "id_key s" and "id_key t" and "VTID s = VTID t"
  shows "s = t"
proof -
  have "id_nat (map of_char s) = id_nat (map of_char t)"
    using assms unat_VTID [of s] unat_VTID [of t] by (simp add: id_key_def)
  then have "map of_char s = (map of_char t :: nat list)"
    using assms by (intro id_nat_inject) (auto simp: id_key_def list_all_iff of_char_pos)
  then show ?thesis by (rule map_injective) (auto intro: injI)
qed

lemma id_case_VTID:
  assumes "list_all id_key (map fst table)" and "id_key s"
  shows "id_case table (VTID s) = map_of table s"
  using assms
proof (induction table)
  case (Cons kx table)
  then show ?case
    using VTID_inject [of "fst kx" s] by (cases kx) (auto simp: id_case_def)
qed (simp add: id_case_def)

lemma Esc_keys: "keys_ok EscActionCodes"
  by (simp add: keys_ok_def EscActionCodes_def id_key_def)

lemma Csi_keys: "keys_ok CsiActionCodes"
  by (simp add: keys_ok_def csi_code_defs id_key_def)

lemma Vt52_keys: "keys_ok Vt52ActionCodes"
  by (simp add: keys_ok_def Vt52ActionCodes_def id_key_def)

lemma Dcs_keys: "keys_ok DcsActionCodes"
  by (simp add: keys_ok_def DcsActionCodes_def id_key_def)

subsection \<open>The terminal behind the engine\<close>

text \<open>The parser is safe with the output engine when the callbacks of the terminal are.\<close>

locale output_terminal =
  fixes env :: osc_env
    and D :: "('d, 'h, 'c) dispatch_ops"
    and run :: "'c \<Rightarrow> ('d output_engine, 'h, 'c) sm \<Rightarrow> ('d output_engine, 'h, 'c) sm option"
  assumes run_kind: "run cb s = Some s' \<Longrightarrow> sm_isEngineForInput s' = sm_isEngineForInput s"
    and run_safe: "sm_wf s \<Longrightarrow> safe_result (run cb s)"

sublocale output_terminal \<subseteq> parser_engine "output_ops env D run"
proof
  show "sm_isEngineForInput s' = sm_isEngineForInput s"
    if "eng_RunCallback (output_ops env D run) cb s = Some s'" for cb s s'
    using that run_kind by (simp add: output_ops_def)
  show "passthrough_accepts (output_ops env D run)"
    by (simp add: passthrough_accepts_def output_ops_def OutputEngine_ActionPassThroughString_def)
  show "safe_result (eng_RunCallback (output_ops env D run) cb s)" if "sm_wf s" for cb s
    using that run_safe by (simp add: output_ops_def)
qed

text \<open>Text may be cut anywhere when printing a string is printing its pieces. Not every terminal keeps the
  law on cuts; below is what holds of any terminal.\<close>

locale stream_terminal =
  fixes env :: osc_env
    and D :: "('d, 'h, 'c) dispatch_ops"
    and run :: "'c \<Rightarrow> ('d output_engine, 'h, 'c) sm \<Rightarrow> ('d output_engine, 'h, 'c) sm option"
  assumes print_returns: "snd (disp_call D (PrintString str) d) = ([], True)"
    and print_batch: "fst (disp_call D (PrintString (xs @ ys)) d) =
      fst (disp_call D (PrintString ys) (fst (disp_call D (PrintString xs) d)))"
    and stream_kind: "run cb s = Some s' \<Longrightarrow> sm_isEngineForInput s' = sm_isEngineForInput s"
    and run_streams: "\<not> sm_isEngineForInput s \<Longrightarrow>
      map_option sm_erase (run cb (sm_erase s)) = map_option sm_erase (run cb s)"
begin

lemma print_string_result:
  "OutputEngine_ActionPrintString D str e =
     (if str = [] then e
      else e\<lparr>oe_dispatch := fst (disp_call D (PrintString str) (oe_dispatch e)),
             oe_lastPrintedChar := if last str \<ge> SPC then last str else oe_lastPrintedChar e\<rparr>,
      [], Handled)"
proof (cases "str = []")
  case False
  obtain d where "disp_call D (PrintString str) (oe_dispatch e) = (d, [], True)"
    using print_returns [of str "oe_dispatch e"]
    by (cases "disp_call D (PrintString str) (oe_dispatch e)") auto
  with False show ?thesis by (simp add: OutputEngine_ActionPrintString_def print_and_keep_def Let_def)
qed (simp add: OutputEngine_ActionPrintString_def)

lemma printable_SPC: "\<not> isActionableFromGround w \<Longrightarrow> w \<ge> SPC"
  by (auto simp: isActionableFromGround_ranges word_le_nat_alt)

lemma print_string_pieces:
  assumes "\<forall>w \<in> set (xs @ ys). \<not> isActionableFromGround w"
  shows "fst (OutputEngine_ActionPrintString D (xs @ ys) e) =
    fst (OutputEngine_ActionPrintString D ys (fst (OutputEngine_ActionPrintString D xs e)))"
proof (cases "xs = [] \<or> ys = []")
  case False
  then have "last ys \<ge> SPC" "last (xs @ ys) = last ys"
    using assms printable_SPC by auto
  with False show ?thesis
    using print_batch [of xs ys "oe_dispatch e"] by (simp add: print_string_result)
qed (auto simp: print_string_result)

end

sublocale stream_terminal \<subseteq> stream: stream_engine "output_ops env D run"
proof
  show "sm_isEngineForInput s' = sm_isEngineForInput s"
    if "eng_RunCallback (output_ops env D run) cb s = Some s'" for cb s s'
    using that stream_kind by (simp add: output_ops_def)
  show "eng_ActionPassThroughString (output_ops env D run) str e = (e, [], Handled)" for str e
    by (simp add: output_ops_def OutputEngine_ActionPassThroughString_def)
  show "snd (eng_ActionPrintString (output_ops env D run) str e) = ([], Handled)" for str e
    by (simp add: output_ops_def print_string_result)
  show "fst (eng_ActionPrintString (output_ops env D run) (xs @ ys) e) =
      fst (eng_ActionPrintString (output_ops env D run) ys
        (fst (eng_ActionPrintString (output_ops env D run) xs e)))"
    if "\<forall>w \<in> set (xs @ ys). \<not> isActionableFromGround w" for xs ys e
    using print_string_pieces [OF that] by (simp add: output_ops_def)
  show "map_option sm_erase (eng_RunCallback (output_ops env D run) cb (sm_erase s)) =
      map_option sm_erase (eng_RunCallback (output_ops env D run) cb s)"
    if "\<not> sm_isEngineForInput s" for s cb
    using run_streams [OF that] by (simp add: output_ops_def)
qed

subsection \<open>Text taken together\<close>

text \<open>
  A terminal may notice how a text is cut into calls of \<^verbatim>\<open>PrintString\<close>: the shipped one replaces the halves
  of a surrogate pair that arrive apart, and a combining mark printed on its own after the last
  column goes to the next line. What the parser promises of the cuts is therefore stated for any
  terminal \<open>D\<close> behind an observer, \<open>gather D\<close>, that takes the texts printed between two other calls
  together: a print is kept, and every other call first gives the kept text to \<open>D\<close>, in one piece. The calls
  that \<open>D\<close> receives are those of the parser, in their order and with their arguments, results and
  requests, up to the cuts inside of a text. No law is asked of \<open>D\<close>: it may throw, and make requests,
  wherever it likes.
\<close>

definition gather_flush :: "('d, 'h, 'c) dispatch_ops \<Rightarrow> 'd \<times> wstring \<Rightarrow> 'd \<times> 'c sm_request list \<times> bool" where
  "gather_flush D = (\<lambda>(d, kept). if kept = [] then (d, [], True) else disp_call D (PrintString kept) d)"

definition gather_then ::
  "('d, 'h, 'c) dispatch_ops \<Rightarrow> 'r \<Rightarrow> ('d \<Rightarrow> 'd \<times> 'c sm_request list \<times> 'r) \<Rightarrow> 'd \<times> wstring \<Rightarrow>
   ('d \<times> wstring) \<times> 'c sm_request list \<times> 'r" where
  "gather_then D threw f g =
     (case gather_flush D g of
        (d, rs, returned) \<Rightarrow>
          (if returned then (case f d of (d', rs', r) \<Rightarrow> ((d', []), rs @ rs', r)) else ((d, []), rs, threw)))"

definition gather_call ::
  "('d, 'h, 'c) dispatch_ops \<Rightarrow> dispatch_call \<Rightarrow> 'd \<times> wstring \<Rightarrow> ('d \<times> wstring) \<times> 'c sm_request list \<times> bool" where
  "gather_call D x g =
     (case x of
        PrintString str \<Rightarrow> ((fst g, snd g @ str), [], True)
      | _ \<Rightarrow> gather_then D False (disp_call D x) g)"

definition gather :: "('d, 'h, 'c) dispatch_ops \<Rightarrow> ('d \<times> wstring, 'h, 'c) dispatch_ops" where
  "gather D =
     \<lparr>disp_call = gather_call D,
      disp_handler = (\<lambda>x. gather_then D None (disp_handler D x)),
      disp_string = (\<lambda>h w. gather_then D False (disp_string D h w))\<rparr>"

lemma gather_print [simp]: "disp_call (gather D) (PrintString str) g = ((fst g, snd g @ str), [], True)"
  by (simp add: gather_def gather_call_def)

text \<open>All that is asked of the callbacks of the terminal: they keep the kind of the machine, and they do
  not look at the position in the current string.\<close>

locale stream_callbacks =
  fixes env :: osc_env
    and D :: "('d, 'h, 'c) dispatch_ops"
    and run :: "'c \<Rightarrow> (('d \<times> wstring) output_engine, 'h, 'c) sm \<Rightarrow> (('d \<times> wstring) output_engine, 'h, 'c) sm option"
  assumes callback_kind: "run cb s = Some s' \<Longrightarrow> sm_isEngineForInput s' = sm_isEngineForInput s"
    and callback_erase: "\<not> sm_isEngineForInput s \<Longrightarrow>
      map_option sm_erase (run cb (sm_erase s)) = map_option sm_erase (run cb s)"

sublocale stream_callbacks \<subseteq> gathered: stream_terminal env "gather D" run
proof
  show "sm_isEngineForInput s' = sm_isEngineForInput s" if "run cb s = Some s'" for cb s s'
    using that by (rule callback_kind)
  show "map_option sm_erase (run cb (sm_erase s)) = map_option sm_erase (run cb s)"
    if "\<not> sm_isEngineForInput s" for s cb
    using that by (rule callback_erase)
qed simp_all

text \<open>What the observer changes: a sequence of calls reaches the terminal with neighbouring prints merged
  into one, and is otherwise the same, up to and including the first call that throws.\<close>

fun merged_prints :: "wstring \<Rightarrow> dispatch_call list \<Rightarrow> dispatch_call list" where
  "merged_prints kept [] = (if kept = [] then [] else [PrintString kept])"
| "merged_prints kept (PrintString str # xs) = merged_prints (kept @ str) xs"
| "merged_prints kept (x # xs) = (if kept = [] then [] else [PrintString kept]) @ x # merged_prints [] xs"

lemma gather_other:
  "\<not> (\<exists>str. x = PrintString str) \<Longrightarrow> disp_call (gather D) x g = gather_then D False (disp_call D x) g"
  by (cases x) (simp_all add: gather_def gather_call_def)

lemma gather_merges:
  "(case run_calls (gather D) xs (d, kept) of
      (g, rs, returned) \<Rightarrow>
        (if returned then (case gather_flush D g of (d', rs', ok) \<Rightarrow> (d', rs @ rs', ok)) else (fst g, rs, False))) =
   run_calls D (merged_prints kept xs) d"
proof (induction xs arbitrary: d kept)
  case Nil
  show ?case by (auto simp: gather_flush_def split: prod.split)
next
  case (Cons x xs)
  show ?case
  proof (cases "\<exists>str. x = PrintString str")
    case True
    then obtain str where x: "x = PrintString str" by blast
    from Cons.IH [of d "kept @ str"] show ?thesis by (simp add: x split: prod.split)
  next
    case False
    have m: "merged_prints kept (x # xs) = (if kept = [] then [] else [PrintString kept]) @ x # merged_prints [] xs"
      using False by (cases x) simp_all
    have step: "(case run_calls (gather D) (x # xs) (d, []) of
        (g, rs, returned) \<Rightarrow>
          (if returned then (case gather_flush D g of (d', rs', ok) \<Rightarrow> (d', rs @ rs', ok)) else (fst g, rs, False))) =
      run_calls D (x # merged_prints [] xs) d" for d
      using False Cons.IH [of _ "[]", symmetric]
      by (auto simp: gather_other gather_then_def gather_flush_def split: prod.split)
    show ?thesis
    proof (cases "kept = []")
      case True
      with m step [of d] show ?thesis by simp
    next
      case kept: False
      obtain d1 rs1 ok1 where p: "disp_call D (PrintString kept) d = (d1, rs1, ok1)"
        by (cases "disp_call D (PrintString kept) d")
      show ?thesis
        using False kept p step [of d1, symmetric] m
        by (auto simp: gather_other gather_then_def gather_flush_def split: prod.split)
    qed
  qed
qed

text \<open>The default terminal, with the printed text kept as its state. It registers no callbacks.\<close>

definition transcript :: "(wstring, unit, unit) dispatch_ops" where
  "transcript = TermDispatch (\<lambda>w d. d @ [w]) (\<lambda>s d. d @ s)"

definition no_callback ::
  "unit \<Rightarrow> (wstring output_engine, unit, unit) sm \<Rightarrow> (wstring output_engine, unit, unit) sm option" where
  "no_callback cb s = Some s"

definition plain_env :: osc_env where
  "plain_env = \<lparr>env_colorName = (\<lambda>_. None), env_u8u16 = (\<lambda>bs. Some (map ucast bs))\<rparr>"

interpretation transcript: output_terminal plain_env transcript no_callback
  by unfold_locales (simp_all add: no_callback_def)

interpretation transcript_stream: stream_terminal plain_env transcript no_callback
  by unfold_locales (simp_all add: no_callback_def transcript_def TermDispatch_def TermDispatch_call_def)

text \<open>A terminal that keeps the texts it was given apart, so that it shows every cut.\<close>

definition print_log :: "(wstring list, unit, unit) dispatch_ops" where
  "print_log = TermDispatch (\<lambda>w d. d @ [[w]]) (\<lambda>s d. d @ [s])"

definition log_callback ::
  "unit \<Rightarrow> ((wstring list \<times> wstring) output_engine, unit, unit) sm \<Rightarrow>
   ((wstring list \<times> wstring) output_engine, unit, unit) sm option" where
  "log_callback cb s = Some s"

interpretation logged: stream_callbacks plain_env print_log log_callback
  by unfold_locales (simp_all add: log_callback_def)

end
