(* ===== verification/OutputSequences.thy ===== *)
theory OutputSequences
  imports OutputLaws
begin

text \<open>
  Whole sequences on their way from \<^verbatim>\<open>ProcessString\<close> to the terminal: inside a control sequence or
  an operating system command the parser does not return to the ground state before the last
  character, so the shortcut of \<^verbatim>\<open>ProcessString\<close> for printable runs does not apply there, and the
  sequences of \<open>ParserRoundtrip\<close> reach the output engine.
\<close>

subsection \<open>Inside a sequence\<close>

abbreviation csi_states :: "VTStates set" where
  "csi_states \<equiv> {CsiEntry, CsiParam, CsiSubParam, CsiIntermediate, CsiIgnore}"

definition csi_body :: "wchar \<Rightarrow> bool" where
  "csi_body w \<longleftrightarrow> 0x20 \<le> w \<and> w \<le> 0x3F"

lemma ActionParam_state [simp]: "sm_state (ActionParam w s) = sm_state s"
  by (simp add: ActionParam_def ensure_parameter_def Let_def)

lemma csi_body_stays:
  assumes "csi_body w" and "sm_state s \<in> csi_states" and "ProcessCharacter ops w s = Some t"
  shows "sm_state t \<in> csi_states"
proof -
  have e: "w \<noteq> CAN" "w \<noteq> SUB" "\<not> isC1ControlCharacter w" "\<not> isEscape w"
    using assms(1) by (auto simp: csi_body_def char_class word_le_nat_alt wchar_eq_unat)
  have c: "\<not> isC0Code w" "\<not> isDelete w"
    "isNumericParamValue w \<or> isParameterDelimiter w \<or> isSubParameterDelimiter w \<or> isIntermediate w \<or>
     isCsiPrivateMarker w"
    "isIntermediate w \<or> isIntermediateInvalid w" "isCsiPrivateMarker w \<Longrightarrow> isParameterInvalid w"
    using assms(1) by (auto simp: csi_body_def char_class word_le_nat_alt wchar_eq_unat)
  from assms(2,3) c show ?thesis
    unfolding ProcessCharacter_event [OF e] state_event_def
    by (auto simp: EventCsiEntry_def EventCsiParam_def EventCsiSubParam_def EventCsiIntermediate_def
        EventCsiIgnore_def EnterCsiParam_def EnterCsiSubParam_def EnterCsiIntermediate_def
        EnterCsiIgnore_def ActionIgnore_def ActionCollect_def ActionSubParam_def ensure_parameter_def Let_def
        split: if_splits Option.bind_splits)
qed

lemma feed_csi_body:
  "list_all csi_body ws \<Longrightarrow> sm_state s \<in> csi_states \<Longrightarrow>
   foldM (feed ops) ws s = foldM (ProcessCharacter ops) ws s \<and>
   (\<forall>t. foldM (ProcessCharacter ops) ws s = Some t \<longrightarrow> sm_state t \<in> csi_states)"
proof (induction ws arbitrary: s)
  case (Cons w ws)
  have f: "feed ops w s = ProcessCharacter ops w s" using Cons.prems(2) by (auto simp: feed_def)
  show ?case
  proof (cases "ProcessCharacter ops w s")
    case None
    with f show ?thesis by simp
  next
    case (Some t)
    with Cons.prems have "sm_state t \<in> csi_states" using csi_body_stays [of w s ops t] by simp
    with Cons f Some show ?thesis by simp
  qed
qed simp

lemma ESC_actionable: "isActionableFromGround ESC"
  by (simp add: isActionableFromGround_ranges)

lemma feed_actionable: "sm_state s \<noteq> Ground \<or> isActionableFromGround w \<Longrightarrow> feed ops w s = ProcessCharacter ops w s"
  by (auto simp: feed_def)

text \<open>The characters of a control sequence.\<close>

lemma csi_body_text:
  assumes "marker_ok marker" and "list_all isIntermediate (wstr ins)"
  shows "list_all csi_body (wstr marker @ args_text args @ wstr ins)"
proof -
  have p: "csi_body w" if "param_char w" for w
    using that by (auto simp: param_char_def csi_body_def char_class word_le_nat_alt wchar_eq_unat)
  have m: "csi_body w" if "isCsiPrivateMarker w \<or> isIntermediate w" for w
    using that by (auto simp: csi_body_def char_class word_le_nat_alt wchar_eq_unat)
  have "list_all csi_body (args_text args)" using p args_text_chars by (auto simp: list_all_iff)
  with assms m show ?thesis by (auto simp: marker_ok_def list_all_iff)
qed

lemma feed_csi_text:
  assumes "sm_state s \<notin> {OscString, OscParam, DcsPassThrough}" and "GetParserMode Ansi s"
    and "marker_ok marker" and "list_all isIntermediate (wstr ins)"
  shows "foldM (feed ops) (csi_text marker args ins f) s =
    foldM (ProcessCharacter ops) (csi_text marker args ins f) s"
proof -
  let ?body = "wstr marker @ args_text args @ wstr ins"
  have esc: "ProcessCharacter ops ESC s = Some (EnterEscape s)"
    using assms(1) by (simp add: ProcessCharacter_ESC ActionInterrupt_def)
  have g: "sm_state (EnterEscape s) \<noteq> Ground" by (simp add: EnterEscape_def ActionClear_def)
  have start: "foldM (ProcessCharacter ops) [ESC, 0x5B] s = Some (holding [] CsiEntry (ActionClear s))"
    using step_csi_start [OF assms(1,2)] .
  have pre: "foldM (feed ops) [ESC, 0x5B] s = foldM (ProcessCharacter ops) [ESC, 0x5B] s"
    using g by (simp only: foldM_pair feed_actionable [OF disjI2 [OF ESC_actionable]] esc bind.bind_lunit)
      (simp add: feed_actionable)
  have rest: "foldM (feed ops) (?body @ [of_char f]) (holding [] CsiEntry (ActionClear s)) =
      foldM (ProcessCharacter ops) (?body @ [of_char f]) (holding [] CsiEntry (ActionClear s))"
  proof (cases "foldM (ProcessCharacter ops) ?body (holding [] CsiEntry (ActionClear s))")
    case None
    with feed_csi_body [OF csi_body_text [OF assms(3,4), of args], of "holding [] CsiEntry (ActionClear s)" ops]
    show ?thesis unfolding foldM_append by simp
  next
    case (Some t)
    with feed_csi_body [OF csi_body_text [OF assms(3,4), of args], of "holding [] CsiEntry (ActionClear s)" ops]
    have "sm_state t \<noteq> Ground"
      "foldM (feed ops) ?body (holding [] CsiEntry (ActionClear s)) = Some t" by auto
    with Some feed_actionable [of t "of_char f" ops] show ?thesis
      unfolding foldM_append by (simp add: foldM_single del: foldM.simps)
  qed
  show ?thesis
    unfolding csi_text_def foldM_append [of _ "[ESC, 0x5B]"] pre start bind.bind_lunit
    using rest by simp
qed


text \<open>The characters of an operating system command.\<close>

lemma osc_body_stays:
  assumes "osc_char w" and "sm_state s \<in> {OscParam, OscString}" and "ProcessCharacter ops w s = Some t"
  shows "sm_state t \<in> {OscParam, OscString}"
proof -
  have e: "w \<noteq> CAN" "w \<noteq> SUB" "\<not> isC1ControlCharacter w" "\<not> isEscape w" and t: "\<not> isOscTerminator w"
    using assms(1) by (simp_all add: osc_char_def)
  from assms(2,3) e t show ?thesis
    unfolding ProcessCharacter_event [OF e] state_event_def
    by (auto simp: EventOscParam_def EventOscString_def EnterOscString_def ActionIgnore_def
        ActionOscParam_def ActionOscPut_def split: if_splits)
qed

lemma feed_osc_body:
  "list_all osc_char ws \<Longrightarrow> sm_state s \<in> {OscParam, OscString} \<Longrightarrow>
   foldM (feed ops) ws s = foldM (ProcessCharacter ops) ws s \<and>
   (\<forall>t. foldM (ProcessCharacter ops) ws s = Some t \<longrightarrow> sm_state t \<in> {OscParam, OscString})"
proof (induction ws arbitrary: s)
  case (Cons w ws)
  have f: "feed ops w s = ProcessCharacter ops w s" using Cons.prems(2) by (auto simp: feed_def)
  show ?case
  proof (cases "ProcessCharacter ops w s")
    case None
    with f show ?thesis by simp
  next
    case (Some t)
    with Cons.prems have "sm_state t \<in> {OscParam, OscString}" using osc_body_stays [of w s ops t] by simp
    with Cons f Some show ?thesis by simp
  qed
qed simp

lemma digit_osc_char: "isNumericParamValue w \<Longrightarrow> osc_char w"
  by (auto simp: osc_char_def char_class word_le_nat_alt wchar_eq_unat)

lemma feed_osc_terminator:
  assumes "sm_state s \<in> {OscParam, OscString}"
  shows "foldM (feed ops) (case term of BelTerminator \<Rightarrow> [BEL] | StTerminator \<Rightarrow> [ESC, 0x5C]) s =
    foldM (ProcessCharacter ops) (case term of BelTerminator \<Rightarrow> [BEL] | StTerminator \<Rightarrow> [ESC, 0x5C]) s"
proof (cases "term")
  case BelTerminator
  with assms show ?thesis by (auto simp: foldM_single feed_actionable simp del: foldM.simps)
next
  case StTerminator
  have e: "feed ops ESC s = ProcessCharacter ops ESC s" by (simp add: feed_actionable ESC_actionable)
  have "ProcessCharacter ops ESC s = state_event ops ESC s"
    using assms by (subst ProcessCharacter.simps) (auto simp: ESC_not_C1)
  then have "ProcessCharacter ops ESC s = Some (EnterOscTermination s)"
    using assms by (auto simp: state_event_def EventOscString_def EventOscParam_def char_class)
  with StTerminator e show ?thesis
    by (simp add: foldM_pair feed_actionable EnterOscTermination_def del: foldM.simps)
qed

lemma feed_osc_text:
  assumes "sm_state s \<notin> {OscString, OscParam, DcsPassThrough}" and "GetParserMode Ansi s"
    and "list_all osc_char str"
  shows "foldM (feed ops) (osc_text n str term) s = foldM (ProcessCharacter ops) (osc_text n str term) s"
proof -
  let ?body = "decimal n @ [0x3B] @ str"
  let ?s = "EnterOscParam (EnterEscape s)"
  have body: "list_all osc_char ?body"
    using assms(3) decimal_chars digit_osc_char by (auto simp: list_all_iff osc_char_def char_class)
  have esc: "ProcessCharacter ops ESC s = Some (EnterEscape s)"
    using assms(1) by (simp add: ProcessCharacter_ESC ActionInterrupt_def)
  have st: "sm_state (EnterEscape s) = Escape" "sm_state ?s = OscParam"
    by (simp_all add: EnterEscape_def ActionClear_def EnterOscParam_def)
  have "ProcessCharacter ops 0x5D (EnterEscape s) = Some ?s"
    using assms(2)
    by (subst ProcessCharacter_event)
      (simp_all add: state_event_def EventEscape_def EnterEscape_def ActionClear_def char_class
        GetParserMode_def)
  then have start: "foldM (feed ops) [ESC, 0x5D] s = Some ?s" "foldM (ProcessCharacter ops) [ESC, 0x5D] s = Some ?s"
    using st by (simp_all add: feed_actionable ESC_actionable esc)
  note b = feed_osc_body [OF body, of ?s ops]
  let ?closing = "case term of BelTerminator \<Rightarrow> [BEL] | StTerminator \<Rightarrow> [ESC, 0x5C]"
  have "foldM (feed ops) (?body @ ?closing) ?s = foldM (ProcessCharacter ops) (?body @ ?closing) ?s"
  proof (cases "foldM (ProcessCharacter ops) ?body ?s")
    case None
    with b st show ?thesis unfolding foldM_append [of _ ?body] by simp
  next
    case (Some t)
    with b st have "sm_state t \<in> {OscParam, OscString}" "foldM (feed ops) ?body ?s = Some t" by auto
    with Some show ?thesis
      unfolding foldM_append [of _ ?body] by (simp only: bind.bind_lunit feed_osc_terminator)
  qed
  with start show ?thesis
    unfolding osc_text_def append_assoc [symmetric] unfolding append_assoc
    unfolding foldM_append [of _ "[ESC, 0x5D]"] by simp
qed


subsection \<open>From one sequence to the next\<close>

text \<open>An output machine between two sequences, and what a string makes of the engine there.\<close>

definition sm_ready :: "('e, 'h, 'c) sm \<Rightarrow> bool" where
  "sm_ready s \<longleftrightarrow>
     \<not> sm_isEngineForInput s \<and> sm_state s = Ground \<and> GetParserMode Ansi s \<and>
     sm_onCsiCompleteCallback s = None"

definition engine_after :: "('e, 'h, 'c) engine_ops \<Rightarrow> wstring \<Rightarrow> ('e, 'h, 'c) sm \<Rightarrow> 'e \<Rightarrow> bool" where
  "engine_after ops str s e \<longleftrightarrow>
     (case ProcessString ops str s of None \<Rightarrow> False | Some t \<Rightarrow> sm_ready t \<and> sm_engine t = e)"

lemma sm_ready_erase: "sm_erase s = sm_erase t \<Longrightarrow> sm_ready s = sm_ready t \<and> sm_engine s = sm_engine t"
  unfolding sm_ready_def by (metis erase_sel)

lemma engine_after_erase:
  assumes "map_option sm_erase (ProcessString ops str s) = map_option sm_erase m"
    and "m = Some t" "sm_ready t" "sm_engine t = e"
  shows "engine_after ops str s e"
proof -
  obtain z where z: "ProcessString ops str s = Some z" "sm_erase z = sm_erase t"
    using assms(1,2) by auto
  from sm_ready_erase [OF z(2)] z(1) assms(3,4) show ?thesis by (simp add: engine_after_def)
qed

lemma engine_afterE:
  assumes "engine_after ops str s e"
  obtains t where "ProcessString ops str s = Some t" "sm_ready t" "sm_engine t = e"
  using assms by (auto simp: engine_after_def split: option.splits)

text \<open>An engine call that makes no request and does not report failure.\<close>

lemma SafeExecute_quiet:
  assumes "f (sm_engine s) = (e, [], r)" and "r \<noteq> NotHandled"
  shows "SafeExecute ops f s = Some (r = Handled, s\<lparr>sm_engine := e\<rparr>)"
  using assms by (cases r) (simp_all add: SafeExecute_def call_def)

lemma dispatch_outcome: "dispatch_and_clear D calls e = (e', rs, r) \<Longrightarrow> r \<noteq> NotHandled"
  by (auto simp: dispatch_and_clear_def split: prod.splits if_splits)

lemma csi_outcome: "OutputEngine_ActionCsiDispatch D vtid p e = (e', rs, r) \<Longrightarrow> r \<noteq> NotHandled"
  by (auto simp: OutputEngine_ActionCsiDispatch_def split: if_splits dest: dispatch_outcome)

lemma ready_sequence_end:
  assumes "sm_ready s" and "sm_parserMode t = sm_parserMode s" and "sm_isEngineForInput t = sm_isEngineForInput s"
    and "sm_onCsiCompleteCallback t = sm_onCsiCompleteCallback s"
  shows "sm_ready (EnterGround (t\<lparr>sm_engine := e\<rparr>))" "sm_engine (EnterGround (t\<lparr>sm_engine := e\<rparr>)) = e"
    "ExecuteCsiCompleteCallback ops (EnterGround (t\<lparr>sm_engine := e\<rparr>)) = Some (EnterGround (t\<lparr>sm_engine := e\<rparr>))"
  using assms
  by (simp_all add: sm_ready_def EnterGround_def GetParserMode_def ExecuteCsiCompleteCallback_def)

lemma collected_frame:
  "sm_parserMode (holding args st (ActionClear s)) = sm_parserMode s"
  "sm_isEngineForInput (holding args st (ActionClear s)) = sm_isEngineForInput s"
  "sm_onCsiCompleteCallback (holding args st (ActionClear s)) = sm_onCsiCompleteCallback s"
  "sm_engine (holding args st (ActionClear s)) = sm_engine s"
  "sm_parserMode (osc_collected term n str s) = sm_parserMode s"
  "sm_isEngineForInput (osc_collected term n str s) = sm_isEngineForInput s"
  "sm_onCsiCompleteCallback (osc_collected term n str s) = sm_onCsiCompleteCallback s"
  "sm_engine (osc_collected term n str s) = sm_engine s"
  by (simp_all add: holding_def ActionClear_def osc_collected_def osc_holding_def)

context stream_terminal
begin

abbreviation machine_ops where "machine_ops \<equiv> output_ops env D run"

lemma after_append:
  assumes "sm_ready s" and "engine_after machine_ops xs s e1"
    and "\<And>t. sm_ready t \<Longrightarrow> sm_engine t = e1 \<Longrightarrow> engine_after machine_ops ys t e2"
  shows "engine_after machine_ops (xs @ ys) s e2"
proof -
  obtain t where t: "ProcessString machine_ops xs s = Some t" "sm_ready t" "sm_engine t = e1"
    using assms(2) by (rule engine_afterE)
  obtain u where "ProcessString machine_ops ys t = Some u" "sm_ready u" "sm_engine u = e2"
    using assms(3) [OF t(2,3)] by (rule engine_afterE)
  with t(1) stream.process_string_append [of s xs ys] assms(1) show ?thesis
    by (intro engine_after_erase [where m = "Some u"]) (simp_all add: sm_ready_def)
qed

lemma csi_after:
  assumes s: "sm_ready s" and "marker_ok marker" and "args = [] \<or> args_fit args"
    and "list_all isIntermediate (wstr ins)" and "length (marker @ ins) \<le> 6" and "csi_final (of_char f)"
    and quiet: "OutputEngine_ActionCsiDispatch D (VTID (marker @ ins @ [f]))
      (args_parameters (map clamped_arg args)) (sm_engine s) = (e, [], r)"
  shows "engine_after machine_ops (csi_text marker args ins f) s e"
proof -
  have st: "sm_state s \<notin> {OscString, OscParam, DcsPassThrough}" and ansi: "GetParserMode Ansi s"
    and out: "\<not> sm_isEngineForInput s" using s by (auto simp: sm_ready_def)
  let ?t = "(holding (map clamped_arg args) (csi_end_state marker args ins) (ActionClear s))
             \<lparr>sm_identifier := collected (wstr (marker @ ins))\<rparr>"
  let ?u = "EnterGround (?t\<lparr>sm_engine := e\<rparr>)"
  have "SafeExecute machine_ops
      (eng_ActionCsiDispatch machine_ops (VTID (marker @ ins @ [f])) (args_parameters (map clamped_arg args))) ?t =
      Some (r = Handled, ?t\<lparr>sm_engine := e\<rparr>)"
    using quiet csi_outcome [OF quiet] by (intro SafeExecute_quiet) (simp_all add: collected_frame output_ops_def)
  then have run: "foldM (ProcessCharacter machine_ops) (csi_text marker args ins f) s = Some ?u"
    using csi_text_parsed [OF st ansi assms(2-6), of machine_ops] ready_sequence_end(3) [OF s, of ?t]
    by (simp add: collected_frame)
  have same: "map_option sm_erase (ProcessString machine_ops (csi_text marker args ins f) s) =
      map_option sm_erase (foldM (ProcessCharacter machine_ops) (csi_text marker args ins f) s)"
    using stream.process_string_feed [OF out] feed_csi_text [OF st ansi assms(2,4)] by simp
  have "sm_ready ?u" "sm_engine ?u = e"
    by (intro ready_sequence_end [OF s], simp_all add: collected_frame)+
  with engine_after_erase [OF same run] show ?thesis by blast
qed

lemma osc_after:
  assumes s: "sm_ready s" and "list_all osc_char str"
    and quiet: "OutputEngine_ActionOscDispatch env D (min (int n) MAX_PARAMETER_VALUE) str (sm_engine s) = (e, [], r)"
  shows "engine_after machine_ops (osc_text n str term) s e"
proof -
  have st: "sm_state s \<notin> {OscString, OscParam, DcsPassThrough}" and ansi: "GetParserMode Ansi s"
    and out: "\<not> sm_isEngineForInput s" using s by (auto simp: sm_ready_def)
  let ?t = "osc_collected term n str s"
  let ?u = "EnterGround (?t\<lparr>sm_engine := e\<rparr>)"
  have "r \<noteq> NotHandled"
    using quiet unfolding OutputEngine_ActionOscDispatch_def by (rule dispatch_outcome)
  then have "SafeExecute machine_ops
      (eng_ActionOscDispatch machine_ops (min (int n) MAX_PARAMETER_VALUE) str) ?t =
      Some (r = Handled, ?t\<lparr>sm_engine := e\<rparr>)"
    using quiet by (intro SafeExecute_quiet) (simp_all add: collected_frame output_ops_def)
  then have run: "foldM (ProcessCharacter machine_ops) (osc_text n str term) s = Some ?u"
    using osc_text_parsed [OF st ansi assms(2), of machine_ops n "term"] by simp
  have same: "map_option sm_erase (ProcessString machine_ops (osc_text n str term) s) =
      map_option sm_erase (foldM (ProcessCharacter machine_ops) (osc_text n str term) s)"
    using stream.process_string_feed [OF out] feed_osc_text [OF st ansi assms(2)] by simp
  have "sm_ready ?u" "sm_engine ?u = e"
    by (intro ready_sequence_end [OF s], simp_all add: collected_frame)+
  with engine_after_erase [OF same run] show ?thesis by blast
qed

end

subsection \<open>The laws of the parser for the output engine\<close>

context output_terminal
begin

lemma output_string_safe:
  "sm_wf s \<Longrightarrow> str \<noteq> [] \<or> sm_state s = Ground \<or> \<not> sm_isEngineForInput s \<Longrightarrow>
   safe_result (ProcessString (output_ops env D run) str s)"
  by (rule process_string_safe)

lemma output_character_safe: "sm_wf s \<Longrightarrow> safe_result (ProcessCharacter (output_ops env D run) w s)"
  by (rule process_character_safe)

end

context stream_terminal
begin

lemma output_string_feed:
  "\<not> sm_isEngineForInput s \<Longrightarrow>
   map_option sm_erase (ProcessString (output_ops env D run) str s) =
     map_option sm_erase (foldM (feed (output_ops env D run)) str s)"
  by (rule stream.process_string_feed)

lemma output_string_append:
  "\<not> sm_isEngineForInput s \<Longrightarrow>
   map_option sm_erase (ProcessString (output_ops env D run) (xs @ ys) s) =
     map_option sm_erase (ProcessString (output_ops env D run) xs s \<bind> ProcessString (output_ops env D run) ys)"
  by (rule stream.process_string_append)

lemma output_string_kind:
  "\<not> sm_isEngineForInput s \<Longrightarrow> ProcessString (output_ops env D run) str s = Some t \<Longrightarrow> \<not> sm_isEngineForInput t"
  by (rule stream.process_string_kind)

text \<open>Where a text is cut into strings does not matter.\<close>

lemma output_strings:
  "\<not> sm_isEngineForInput s \<Longrightarrow>
   map_option sm_erase (foldM (ProcessString (output_ops env D run)) strs s) =
     map_option sm_erase (ProcessString (output_ops env D run) (concat strs) s)"
proof (induction strs arbitrary: s)
  case Nil
  from output_string_feed [OF this, of "[]"] show ?case by auto
next
  case (Cons c strs)
  let ?ops = "output_ops env D run"
  have eq: "map_option sm_erase (ProcessString ?ops (c @ concat strs) s) =
      map_option sm_erase (ProcessString ?ops c s \<bind> ProcessString ?ops (concat strs))"
    using Cons.prems by (rule output_string_append)
  show ?case
  proof (cases "ProcessString ?ops c s")
    case None
    with eq show ?thesis by simp
  next
    case (Some t)
    then have "\<not> sm_isEngineForInput t" using output_string_kind [OF Cons.prems] by blast
    from Cons.IH [OF this] eq Some show ?thesis by simp
  qed
qed

text \<open>Text goes to the terminal in one piece.\<close>

lemma text_after:
  assumes s: "sm_ready s" and "str \<noteq> []" and "\<forall>w \<in> set str. \<not> isActionableFromGround w"
  shows "engine_after (output_ops env D run) str s
    ((sm_engine s)\<lparr>oe_dispatch := fst (disp_call D (PrintString str) (oe_dispatch (sm_engine s))),
                   oe_lastPrintedChar := last str\<rparr>)"
proof -
  let ?n = "FindActionableControlCharacter str"
  have n: "?n = length str" using assms(3) by (induction str) auto
  let ?s = "s\<lparr>sm_currentString := str, sm_runOffset := 0, sm_runSize := ?n, sm_injections := []\<rparr>"
  have keep: "last str \<ge> SPC" using assms(2,3) printable_SPC by simp
  have "process_loop (output_ops env D run) str 0
      (s\<lparr>sm_currentString := str, sm_runOffset := 0, sm_runSize := 0, sm_injections := []\<rparr>) =
    Some (?s\<lparr>sm_engine := fst (OutputEngine_ActionPrintString D str (sm_engine s)),
      sm_runOffset := ?n, sm_runSize := 0\<rparr>)"
    using assms(2) n
    by (subst process_loop.simps) (simp add: print_run_def CurrentRun_def Let_def stream.print_string,
      simp add: output_ops_def)
  with s assms(2) keep show ?thesis
    by (simp add: engine_after_def ProcessString_def sm_ready_def process_tail_def GetParserMode_def
        print_string_result)
qed

end

subsection \<open>A machine to start from\<close>

definition start_machine :: "(wstring output_engine, unit, unit) sm" where
  "start_machine = StateMachine_init (OutputStateMachineEngine_init []) False 0 0 False"

lemma start_ready: "sm_ready start_machine"
  by (simp add: start_machine_def sm_ready_def StateMachine_init_def ActionClear_def SetParserMode_def
      GetParserMode_def)

lemma init_wf: "sm_wf (StateMachine_init e kind off sz lastc)"
  by (simp add: StateMachine_init_def SetParserMode_def sm_wf_def values_ok_def state_ok_def
      ActionClear_def VTIDBuilder_Clear_def MAX_PARAMETER_VALUE_def)

context stream_callbacks
begin

lemma gathered_feed:
  "\<not> sm_isEngineForInput s \<Longrightarrow>
   map_option sm_erase (ProcessString (output_ops env (gather D) run) str s) =
     map_option sm_erase (foldM (feed (output_ops env (gather D) run)) str s)"
  by (rule gathered.output_string_feed)

lemma gathered_strings:
  "\<not> sm_isEngineForInput s \<Longrightarrow>
   map_option sm_erase (foldM (ProcessString (output_ops env (gather D) run)) strs s) =
     map_option sm_erase (ProcessString (output_ops env (gather D) run) (concat strs) s)"
  by (rule gathered.output_strings)

end

text \<open>A machine with the observer and nothing kept.\<close>

definition log_machine :: "((wstring list \<times> wstring) output_engine, unit, unit) sm" where
  "log_machine = StateMachine_init (OutputStateMachineEngine_init ([], [])) False 0 0 False"

lemma log_output: "\<not> sm_isEngineForInput log_machine"
  by (simp add: log_machine_def StateMachine_init_def ActionClear_def SetParserMode_def)

end
