(* ===== verification/ParserReachability.thy ===== *)
theory ParserReachability
  imports OutputSequences
begin

text \<open>
  The states the parser can reach through its public interface, and the bounds on what it stores.
\<close>

inductive sm_reachable :: "('e, 'h, 'c) engine_ops \<Rightarrow> ('e, 'h, 'c) sm \<Rightarrow> bool" for ops where
  reach_init: "sm_reachable ops (StateMachine_init e kind off sz lastc)"
| reach_string: "sm_reachable ops s \<Longrightarrow> str \<noteq> [] \<or> sm_state s = Ground \<or> \<not> sm_isEngineForInput s \<Longrightarrow>
    ProcessString ops str s = Some s' \<Longrightarrow> sm_reachable ops s'"
| reach_character: "sm_reachable ops s \<Longrightarrow> ProcessCharacter ops w s = Some s' \<Longrightarrow> sm_reachable ops s'"
| reach_reset: "sm_reachable ops s \<Longrightarrow> sm_reachable ops (ResetState s)"
| reach_request: "sm_reachable ops s \<Longrightarrow> sm_reachable ops (apply_request req s)"

lemma apply_request_wf: "sm_wf s \<Longrightarrow> sm_wf (apply_request req s)"
  by (rule core_transfer(3) [OF sm_core_apply_request])

context output_terminal
begin

lemma reachable_wf: "sm_reachable (output_ops env D run) s \<Longrightarrow> sm_wf s"
proof (induction rule: sm_reachable.induct)
  case (reach_string s str s')
  then show ?case using output_string_safe [of s str] by simp
next
  case (reach_character s w s')
  then show ?case using output_character_safe [of s w] by simp
next
  case (reach_reset s)
  then show ?case by (simp add: ResetState_def wf_EnterGround sm_wf_values)
qed (simp_all add: init_wf apply_request_wf)

end

lemma collected_ranges:
  assumes "collected_ok s" and "length (sm_parameters s) \<le> MAX_PARAMETER_COUNT"
    and "(a, b) \<in> set (sm_subParameterRanges s)"
  shows "unat a \<le> unat b \<and> unat b \<le> length (sm_subParameters s)"
proof -
  let ?ls = "lens_of (sm_subParameterRanges s)"
  have ls: "length ?ls = length (sm_parameters s)" "list_all (\<lambda>l. l \<le> MAX_SUBPARAMETER_COUNT) ?ls"
    "sm_subParameterRanges s = ranges_of 0 ?ls" "sum_list ?ls = length (sm_subParameters s)"
    using assms(1) by (simp_all add: collected_ok_def Let_def)
  have le: "sum_list ?ls \<le> 192"
    using ls(1,2) assms(2) by (intro sum_lens_bound) (auto simp: list_all_iff)
  obtain i where i: "i < length ?ls" "(a, b) = ranges_of 0 ?ls ! i"
    using assms(3) ls(3) by (metis in_set_conv_nth length_ranges_of)
  have part: "sum_list (take k ?ls) \<le> sum_list ?ls" for k
    by (metis append_take_drop_id le_add1 sum_list_append)
  have "unat a = sum_list (take i ?ls)" "unat b = sum_list (take (Suc i) ?ls)"
    using i part [of i] part [of "Suc i"] le by (simp_all add: ranges_of_nth unat_of_nat_byte)
  moreover have "sum_list (take i ?ls) \<le> sum_list (take (Suc i) ?ls)"
    using i(1) by (simp add: take_Suc_conv_app_nth)
  ultimately show ?thesis using part [of "Suc i"] ls(4) by simp
qed

lemma collected_count:
  assumes "collected_ok s" and "length (sm_parameters s) \<le> MAX_PARAMETER_COUNT"
  shows "length (sm_subParameters s) \<le> 192"
proof -
  have "sum_list (lens_of (sm_subParameterRanges s)) \<le> 192"
    using assms by (intro sum_lens_bound) (auto simp: collected_ok_def Let_def list_all_iff)
  with assms(1) show ?thesis by (simp add: collected_ok_def Let_def)
qed

lemma wf_collected: "sm_wf s \<Longrightarrow> sm_state s \<notin> {Ground, Vt52Param} \<Longrightarrow> collected_ok s"
  by (cases "sm_state s") (simp_all add: sm_wf_def state_ok_def)

end
