(* ===== verification/MacroBuffer.thy ===== *)
theory MacroBuffer
  imports CharClass
begin

text \<open>
  The store of keyboard macros, \<^verbatim>\<open>src/src/terminal/adapter/MacroBuffer.cpp\<close>: 64 macros in a bounded
  space, the parser for their definitions (text or hex pairs with repeats), and their invocation,
  which feeds a macro to the state machine. The lemmas say that the space accounting is exact and
  never exceeds the limit, that no unsigned subtraction wraps around, that a definition stores what
  it spells, and that invocations are bounded in depth and in total length.
\<close>

subsection \<open>The buffer\<close>

definition MAX_SPACE :: nat where
  "MAX_SPACE = 0x40000"

definition MAX_MACRO_COUNT :: nat where
  "MAX_MACRO_COUNT = 64"

definition MAX_REPEAT_COUNT :: nat where
  "MAX_REPEAT_COUNT = 65535"

datatype MacroParseState =
    ExpectingText | ExpectingHexDigit | ExpectingSecondHexDigit | ExpectingRepeatCount

record MacroBuffer =
  mb_parseState :: MacroParseState
  mb_decodedChar :: wchar
  mb_repeatPending :: bool
  mb_repeatCount :: nat
  mb_repeatStart :: nat
  mb_macros :: "wstring list"
  mb_activeMacroId :: nat
  mb_spaceUsed :: nat
  mb_invokedDepth :: nat
  mb_invokedSequenceLength :: nat

definition MacroBuffer_init :: MacroBuffer where
  "MacroBuffer_init =
     \<lparr>mb_parseState = ExpectingText, mb_decodedChar = 0, mb_repeatPending = False,
      mb_repeatCount = 0, mb_repeatStart = 0, mb_macros = replicate MAX_MACRO_COUNT [],
      mb_activeMacroId = 0, mb_spaceUsed = 0, mb_invokedDepth = 0, mb_invokedSequenceLength = 0\<rparr>"

definition GetSpaceAvailable :: "MacroBuffer \<Rightarrow> nat" where
  "GetSpaceAvailable b = MAX_SPACE - mb_spaceUsed b"

definition CalculateChecksum :: "MacroBuffer \<Rightarrow> wchar" where
  "CalculateChecksum b = fold (\<lambda>macro checksum. fold (\<lambda>ch c. c - ch) macro checksum) (mb_macros b) 0"

definition activeMacro :: "MacroBuffer \<Rightarrow> wstring" where
  "activeMacro b = mb_macros b ! mb_activeMacroId b"

definition deleteMacro :: "nat \<Rightarrow> MacroBuffer \<Rightarrow> MacroBuffer" where
  "deleteMacro i b =
     b\<lparr>mb_spaceUsed := mb_spaceUsed b - length (mb_macros b ! i), mb_macros := (mb_macros b)[i := []]\<rparr>"

definition appendToActiveMacro :: "wchar \<Rightarrow> MacroBuffer \<Rightarrow> bool \<times> MacroBuffer" where
  "appendToActiveMacro ch b =
     (if GetSpaceAvailable b > 0
      then (True, b\<lparr>mb_macros := (mb_macros b)[mb_activeMacroId b := activeMacro b @ [ch]],
                    mb_spaceUsed := mb_spaceUsed b + 1\<rparr>)
      else (False, b))"

text \<open>The decoded character is shifted even when the digit is not valid.\<close>

definition decodeHexDigit :: "wchar \<Rightarrow> MacroBuffer \<Rightarrow> bool \<times> MacroBuffer" where
  "decodeHexDigit ch b =
     (let shifted = push_bit 4 (mb_decodedChar b)
      in if ch \<ge> 0x30 \<and> ch \<le> 0x39 then (True, b\<lparr>mb_decodedChar := shifted + (ch - 0x30)\<rparr>)
         else if ch \<ge> 0x41 \<and> ch \<le> 0x46 then (True, b\<lparr>mb_decodedChar := shifted + (ch - 0x41 + 10)\<rparr>)
         else if ch \<ge> 0x61 \<and> ch \<le> 0x66 then (True, b\<lparr>mb_decodedChar := shifted + (ch - 0x61 + 10)\<rparr>)
         else (False, b\<lparr>mb_decodedChar := shifted\<rparr>))"

text \<open>The loop that appends the copies of a repeated sequence, \<open>n\<close> of them.\<close>

fun append_copies :: "nat \<Rightarrow> nat \<Rightarrow> MacroBuffer \<Rightarrow> MacroBuffer" where
  "append_copies 0 sequenceLength b = b"
| "append_copies (Suc n) sequenceLength b =
     append_copies n sequenceLength
       (b\<lparr>mb_macros := (mb_macros b)[mb_activeMacroId b :=
              activeMacro b @ take sequenceLength (drop (mb_repeatStart b) (activeMacro b))],
          mb_spaceUsed := mb_spaceUsed b + sequenceLength\<rparr>)"

definition applyPendingRepeat :: "MacroBuffer \<Rightarrow> bool \<times> MacroBuffer" where
  "applyPendingRepeat b =
     (if mb_repeatCount b > 1
      then (let sequenceLength = length (activeMacro b) - mb_repeatStart b;
                spaceRequired = (mb_repeatCount b - 1) * sequenceLength
            in if spaceRequired > GetSpaceAvailable b then (False, b)
               else (True, (append_copies (mb_repeatCount b - 1) sequenceLength b)\<lparr>mb_repeatPending := False\<rparr>))
      else (True, b\<lparr>mb_repeatPending := False\<rparr>))"

subsection \<open>Definitions\<close>

text \<open>The arguments are the values of the enumerations \<^verbatim>\<open>MacroDeleteControl\<close> (0 deletes the macro, 1
  all of them) and \<^verbatim>\<open>MacroEncoding\<close> (0 is text, 1 hex pairs).\<close>

definition InitParser :: "int \<Rightarrow> int \<Rightarrow> int \<Rightarrow> MacroBuffer \<Rightarrow> bool \<times> MacroBuffer" where
  "InitParser macroId deleteControl encoding b =
     (if 0 \<le> macroId \<and> macroId < int (length (mb_macros b)) \<and> mb_invokedDepth b = 0
      then (let b1 = b\<lparr>mb_activeMacroId := nat macroId, mb_decodedChar := 0, mb_repeatPending := False\<rparr>
            in if encoding \<noteq> 0 \<and> encoding \<noteq> 1 then (False, b1)
               else (let b2 = b1\<lparr>mb_parseState := if encoding = 1 then ExpectingHexDigit else ExpectingText\<rparr>
                     in if deleteControl = 0 then (True, deleteMacro (mb_activeMacroId b2) b2)
                        else if deleteControl = 1
                        then (True, fold deleteMacro [0..<length (mb_macros b2)] b2)
                        else (False, b2)))
      else (False, b))"

text \<open>One character in each parse state.\<close>

definition parse_step :: "wchar \<Rightarrow> MacroBuffer \<Rightarrow> bool \<times> MacroBuffer" where
  "parse_step ch b =
     (case mb_parseState b of
        ExpectingText \<Rightarrow> appendToActiveMacro ch b
      | ExpectingHexDigit \<Rightarrow>
          (case decodeHexDigit ch b of
             (True, b1) \<Rightarrow> (True, b1\<lparr>mb_parseState := ExpectingSecondHexDigit\<rparr>)
           | (False, b1) \<Rightarrow>
               (if ch = 0x21 \<and> \<not> mb_repeatPending b1
                then (True, b1\<lparr>mb_parseState := ExpectingRepeatCount, mb_repeatCount := 0\<rparr>)
                else if ch = 0x3B \<and> mb_repeatPending b1 then applyPendingRepeat b1
                else (False, b1)))
      | ExpectingSecondHexDigit \<Rightarrow>
          (case decodeHexDigit ch b of
             (ok, b1) \<Rightarrow>
               (case (if ok then appendToActiveMacro (mb_decodedChar b1) b1 else (False, b1)) of
                  (ok', b2) \<Rightarrow> (ok', b2\<lparr>mb_decodedChar := 0, mb_parseState := ExpectingHexDigit\<rparr>)))
      | ExpectingRepeatCount \<Rightarrow>
          (if ch \<ge> 0x30 \<and> ch \<le> 0x39
           then (True, b\<lparr>mb_repeatCount :=
                           min (mb_repeatCount b * 10 + (unat ch - 0x30)) MAX_REPEAT_COUNT\<rparr>)
           else if ch = 0x3B
           then (True, b\<lparr>mb_repeatPending := True, mb_repeatStart := length (activeMacro b),
                         mb_parseState := ExpectingHexDigit\<rparr>)
           else (False, b)))"

definition ParseDefinition :: "wchar \<Rightarrow> MacroBuffer \<Rightarrow> bool \<times> MacroBuffer" where
  "ParseDefinition ch b =
     (if ch = ESC
      then (if mb_repeatPending b
            then (case applyPendingRepeat b of
                    (True, b1) \<Rightarrow> (False, b1)
                  | (False, b1) \<Rightarrow> (False, deleteMacro (mb_activeMacroId b1) b1))
            else (False, b))
      else if ch < 0x20 then (True, b)
      else (case parse_step ch b of
              (success, b1) \<Rightarrow>
                (success, if success then b1 else deleteMacro (mb_activeMacroId b1) b1)))"

subsection \<open>Invocation\<close>

text \<open>The buffer lives in some state \<open>'w\<close> together with the state machine; \<open>getb\<close> and \<open>setb\<close>
  access it there, and \<open>process\<close> is \<^verbatim>\<open>stateMachine.ProcessString\<close>, which may invoke macros in turn.
  The \<^verbatim>\<open>scope_exit\<close> runs when the string has been processed.\<close>

definition begin_invoke :: "nat \<Rightarrow> MacroBuffer \<Rightarrow> (wstring \<times> MacroBuffer) option" where
  "begin_invoke macroId b =
     (if macroId < length (mb_macros b)
      then (let macroSequence = mb_macros b ! macroId;
                allowedLength = MAX_SPACE - mb_invokedSequenceLength b
            in if mb_invokedDepth b < 16 \<and> length macroSequence < allowedLength
               then Some (macroSequence,
                          b\<lparr>mb_invokedSequenceLength := mb_invokedSequenceLength b + length macroSequence,
                            mb_invokedDepth := mb_invokedDepth b + 1\<rparr>)
               else None)
      else None)"

definition resetInvokeDepth :: "MacroBuffer \<Rightarrow> MacroBuffer" where
  "resetInvokeDepth b =
     (if mb_invokedDepth b - 1 = 0
      then b\<lparr>mb_invokedDepth := mb_invokedDepth b - 1, mb_invokedSequenceLength := 0\<rparr>
      else b\<lparr>mb_invokedDepth := mb_invokedDepth b - 1\<rparr>)"

definition MacroBuffer_InvokeMacro ::
  "('w \<Rightarrow> MacroBuffer) \<Rightarrow> (MacroBuffer \<Rightarrow> 'w \<Rightarrow> 'w) \<Rightarrow> (wstring \<Rightarrow> 'w \<Rightarrow> 'w option) \<Rightarrow>
   nat \<Rightarrow> 'w \<Rightarrow> 'w option" where
  "MacroBuffer_InvokeMacro getb setb process macroId w =
     (case begin_invoke macroId (getb w) of
        None \<Rightarrow> Some w
      | Some (macroSequence, b) \<Rightarrow>
          (case process macroSequence (setb b w) of
             None \<Rightarrow> None
           | Some w' \<Rightarrow> Some (setb (resetInvokeDepth (getb w')) w')))"

definition ClearMacrosIfInUse :: "MacroBuffer \<Rightarrow> MacroBuffer" where
  "ClearMacrosIfInUse b =
     (if mb_invokedDepth b > 0
      then b\<lparr>mb_macros := map (map (\<lambda>_. NUL)) (mb_macros b)\<rparr> else b)"

subsection \<open>The space accounting\<close>

definition space_ok :: "MacroBuffer \<Rightarrow> bool" where
  "space_ok b \<longleftrightarrow>
     length (mb_macros b) = MAX_MACRO_COUNT \<and> mb_activeMacroId b < MAX_MACRO_COUNT \<and>
     mb_spaceUsed b = sum_list (map length (mb_macros b)) \<and> mb_spaceUsed b \<le> MAX_SPACE \<and>
     mb_repeatCount b \<le> MAX_REPEAT_COUNT"

text \<open>While a definition is being parsed, a pending repeat starts inside the macro.\<close>

definition repeat_ok :: "MacroBuffer \<Rightarrow> bool" where
  "repeat_ok b \<longleftrightarrow> (mb_repeatPending b \<longrightarrow> mb_repeatStart b \<le> length (activeMacro b))"

text \<open>Invocations are counted, and their total length stays below the limit.\<close>

definition invoke_ok :: "MacroBuffer \<Rightarrow> bool" where
  "invoke_ok b \<longleftrightarrow>
     mb_invokedDepth b \<le> 16 \<and> mb_invokedSequenceLength b \<le> MAX_SPACE \<and>
     (mb_invokedDepth b = 0 \<longrightarrow> mb_invokedSequenceLength b = 0)"

lemma sum_list_map_update:
  "i < length xs \<Longrightarrow>
   sum_list (map f (xs[i := y])) + f (xs ! i) = sum_list (map f xs) + (f y :: nat)"
  by (induction xs arbitrary: i) (auto split: nat.split)

lemma deleteMacro_fields [simp]:
  "mb_macros (deleteMacro i b) = (mb_macros b)[i := []]"
  "mb_activeMacroId (deleteMacro i b) = mb_activeMacroId b"
  "mb_repeatCount (deleteMacro i b) = mb_repeatCount b"
  "mb_repeatPending (deleteMacro i b) = mb_repeatPending b"
  "mb_parseState (deleteMacro i b) = mb_parseState b"
  "mb_invokedDepth (deleteMacro i b) = mb_invokedDepth b"
  "mb_decodedChar (deleteMacro i b) = mb_decodedChar b"
  by (simp_all add: deleteMacro_def)

lemma space_deleteMacro:
  assumes "space_ok b" and "i < MAX_MACRO_COUNT"
  shows "space_ok (deleteMacro i b)"
  using assms sum_list_map_update [of i "mb_macros b" length "[]"]
  by (auto simp: space_ok_def deleteMacro_def)

lemma space_set_macro:
  assumes "space_ok b" and "n \<le> GetSpaceAvailable b" and "length m = length (activeMacro b) + n"
  shows "space_ok (b\<lparr>mb_macros := (mb_macros b)[mb_activeMacroId b := m], mb_spaceUsed := mb_spaceUsed b + n\<rparr>)"
  using assms sum_list_map_update [of "mb_activeMacroId b" "mb_macros b" length m]
  by (auto simp: space_ok_def GetSpaceAvailable_def activeMacro_def)

lemma space_append:
  "space_ok b \<Longrightarrow> appendToActiveMacro ch b = (ok, b') \<Longrightarrow> space_ok b'"
  using space_set_macro [of b 1 "activeMacro b @ [ch]"]
  by (auto simp: appendToActiveMacro_def split: if_splits)

lemma activeMacro_set:
  "mb_activeMacroId b < length (mb_macros b) \<Longrightarrow>
   activeMacro (b\<lparr>mb_macros := (mb_macros b)[mb_activeMacroId b := m], mb_spaceUsed := n\<rparr>) = m"
  by (simp add: activeMacro_def)

lemma append_copies_result:
  assumes "mb_activeMacroId b < length (mb_macros b)" and "mb_repeatStart b + l \<le> length (activeMacro b)"
  shows "append_copies n l b =
    b\<lparr>mb_macros := (mb_macros b)[mb_activeMacroId b :=
        activeMacro b @ concat (replicate n (take l (drop (mb_repeatStart b) (activeMacro b))))],
      mb_spaceUsed := mb_spaceUsed b + n * l\<rparr>"
  using assms
proof (induction n arbitrary: b)
  case 0
  then show ?case by (simp add: activeMacro_def)
next
  case (Suc n)
  let ?seg = "take l (drop (mb_repeatStart b) (activeMacro b))"
  let ?b = "b\<lparr>mb_macros := (mb_macros b)[mb_activeMacroId b := activeMacro b @ ?seg],
      mb_spaceUsed := mb_spaceUsed b + l\<rparr>"
  have a: "activeMacro ?b = activeMacro b @ ?seg" using Suc.prems(1) by (rule activeMacro_set)
  have "append_copies n l ?b = ?b\<lparr>mb_macros := (mb_macros ?b)[mb_activeMacroId ?b :=
        activeMacro ?b @ concat (replicate n (take l (drop (mb_repeatStart ?b) (activeMacro ?b))))],
      mb_spaceUsed := mb_spaceUsed ?b + n * l\<rparr>"
    using Suc.prems by (intro Suc.IH) (simp_all add: a)
  with Suc.prems show ?case unfolding a by (simp add: add.assoc)
qed

lemma applyPendingRepeat_result:
  assumes "space_ok b" and "mb_repeatStart b \<le> length (activeMacro b)"
    and "applyPendingRepeat b = (ok, b')"
  shows "space_ok b' \<and> mb_activeMacroId b' = mb_activeMacroId b \<and> mb_parseState b' = mb_parseState b \<and>
    mb_invokedDepth b' = mb_invokedDepth b \<and>
    (ok \<longrightarrow> \<not> mb_repeatPending b' \<and>
       activeMacro b' = activeMacro b @
         concat (replicate (mb_repeatCount b - 1) (drop (mb_repeatStart b) (activeMacro b))))"
proof -
  let ?l = "length (activeMacro b) - mb_repeatStart b"
  let ?n = "mb_repeatCount b - 1"
  let ?seg = "drop (mb_repeatStart b) (activeMacro b)"
  have i: "mb_activeMacroId b < length (mb_macros b)" using assms(1) by (simp add: space_ok_def)
  let ?c = "b\<lparr>mb_macros := (mb_macros b)[mb_activeMacroId b := activeMacro b @ concat (replicate ?n ?seg)],
      mb_spaceUsed := mb_spaceUsed b + ?n * ?l\<rparr>"
  have copies: "append_copies ?n ?l b = ?c"
    using append_copies_result [OF i, of ?l ?n] assms(2) by simp
  have up: "space_ok (x\<lparr>mb_repeatPending := r\<rparr>) = space_ok x" "activeMacro (x\<lparr>mb_repeatPending := r\<rparr>) = activeMacro x"
    for x r by (simp_all add: space_ok_def activeMacro_def)
  consider (fail) "mb_repeatCount b > 1" "?n * ?l > GetSpaceAvailable b" "ok = False" "b' = b"
    | (copy) "mb_repeatCount b > 1" "?n * ?l \<le> GetSpaceAvailable b" "ok = True" "b' = ?c\<lparr>mb_repeatPending := False\<rparr>"
    | (none) "mb_repeatCount b \<le> 1" "ok = True" "b' = b\<lparr>mb_repeatPending := False\<rparr>"
    using assms(3) copies by (auto simp: applyPendingRepeat_def Let_def split: if_splits)
  then show ?thesis
  proof cases
    case copy
    have "space_ok ?c"
      using copy(2) by (intro space_set_macro assms(1)) (simp_all add: length_concat sum_list_replicate)
    moreover have "activeMacro ?c = activeMacro b @ concat (replicate ?n ?seg)"
      using i by (rule activeMacro_set)
    ultimately show ?thesis using copy by (simp add: up)
  qed (use assms in \<open>simp_all add: up\<close>)
qed

lemma decodeHexDigit_fields:
  assumes "decodeHexDigit ch b = (ok, b')"
  shows "space_ok b' = space_ok b" "repeat_ok b' = repeat_ok b" "activeMacro b' = activeMacro b"
    "mb_repeatPending b' = mb_repeatPending b" "mb_repeatStart b' = mb_repeatStart b"
    "mb_activeMacroId b' = mb_activeMacroId b" "mb_invokedDepth b' = mb_invokedDepth b"
    "mb_spaceUsed b' = mb_spaceUsed b" "mb_macros b' = mb_macros b" "mb_parseState b' = mb_parseState b"
  using assms
  by (auto simp: decodeHexDigit_def Let_def space_ok_def repeat_ok_def activeMacro_def split: if_splits)

lemma append_fields:
  assumes "appendToActiveMacro ch b = (ok, b')" and "space_ok b"
  shows "repeat_ok b \<Longrightarrow> repeat_ok b'" "mb_activeMacroId b' = mb_activeMacroId b"
    "ok \<Longrightarrow> activeMacro b' = activeMacro b @ [ch]"
  using assms
  by (auto simp: appendToActiveMacro_def repeat_ok_def activeMacro_def space_ok_def split: if_splits)

lemma space_ok_update [simp]:
  "space_ok (b\<lparr>mb_parseState := st\<rparr>) = space_ok b"
  "space_ok (b\<lparr>mb_decodedChar := c\<rparr>) = space_ok b"
  "space_ok (b\<lparr>mb_repeatPending := r\<rparr>) = space_ok b"
  "space_ok (b\<lparr>mb_repeatStart := n\<rparr>) = space_ok b"
  "space_ok (b\<lparr>mb_invokedDepth := n\<rparr>) = space_ok b"
  "space_ok (b\<lparr>mb_invokedSequenceLength := n\<rparr>) = space_ok b"
  by (simp_all add: space_ok_def)

lemma activeMacro_update [simp]:
  "activeMacro (b\<lparr>mb_parseState := st\<rparr>) = activeMacro b"
  "activeMacro (b\<lparr>mb_decodedChar := c\<rparr>) = activeMacro b"
  "activeMacro (b\<lparr>mb_repeatPending := r\<rparr>) = activeMacro b"
  "activeMacro (b\<lparr>mb_repeatStart := n\<rparr>) = activeMacro b"
  "activeMacro (b\<lparr>mb_repeatCount := n\<rparr>) = activeMacro b"
  by (simp_all add: activeMacro_def)

text \<open>A character keeps the accounting, and when it is accepted the repeat stays inside the macro.\<close>

lemma parse_step_ok:
  assumes "space_ok b" and "repeat_ok b" and "parse_step ch b = (ok, b')"
  shows "space_ok b' \<and> (ok \<longrightarrow> repeat_ok b') \<and> mb_activeMacroId b' = mb_activeMacroId b"
proof (cases "mb_parseState b")
  case ExpectingText
  with assms show ?thesis
    by (auto simp: parse_step_def dest: space_append append_fields)
next
  case ExpectingHexDigit
  obtain hex b1 where d: "decodeHexDigit ch b = (hex, b1)" by (metis surj_pair)
  note f = decodeHexDigit_fields [OF d]
  show ?thesis
  proof (cases hex)
    case True
    with assms ExpectingHexDigit d f show ?thesis
      by (auto simp: parse_step_def repeat_ok_def)
  next
    case False
    show ?thesis
    proof (cases "ch = 0x3B \<and> mb_repeatPending b")
      case True
      with \<open>\<not> hex\<close> assms(3) ExpectingHexDigit d f have "applyPendingRepeat b1 = (ok, b')"
        by (simp add: parse_step_def)
      with True assms f applyPendingRepeat_result [of b1 ok b'] show ?thesis
        by (auto simp: repeat_ok_def)
    next
      case other: False
      with False assms ExpectingHexDigit d f show ?thesis
        by (auto simp: parse_step_def repeat_ok_def space_ok_def split: if_splits)
    qed
  qed
next
  case ExpectingSecondHexDigit
  obtain hex b1 where d: "decodeHexDigit ch b = (hex, b1)" by (metis surj_pair)
  note f = decodeHexDigit_fields [OF d]
  obtain ok' b2 where a: "(if hex then appendToActiveMacro (mb_decodedChar b1) b1 else (False, b1)) = (ok', b2)"
    by (metis surj_pair)
  with f assms have "space_ok b2 \<and> repeat_ok b2 \<and> mb_activeMacroId b2 = mb_activeMacroId b1"
    by (auto split: if_splits dest: space_append append_fields)
  with a d f assms(3) ExpectingSecondHexDigit show ?thesis
    by (auto simp: parse_step_def repeat_ok_def simp del: if_split split del: if_split)
next
  case ExpectingRepeatCount
  with assms show ?thesis
    by (auto simp: parse_step_def repeat_ok_def space_ok_def split: if_splits)
qed

lemma ParseDefinition_ok:
  assumes "space_ok b" and "repeat_ok b" and "ParseDefinition ch b = (ok, b')"
  shows "space_ok b' \<and> (ok \<longrightarrow> repeat_ok b') \<and> mb_activeMacroId b' = mb_activeMacroId b"
proof -
  have i: "mb_activeMacroId b < MAX_MACRO_COUNT" using assms(1) by (simp add: space_ok_def)
  consider (esc) "ch = ESC" "mb_repeatPending b" | (plain) "ch = ESC" "\<not> mb_repeatPending b"
    | (ctl) "ch \<noteq> ESC" "ch < 0x20" | (chr) "ch \<noteq> ESC" "\<not> ch < 0x20" by blast
  then show ?thesis
  proof cases
    case esc
    obtain ok1 b1 where r: "applyPendingRepeat b = (ok1, b1)" by (metis surj_pair)
    from applyPendingRepeat_result [OF assms(1) _ r] esc assms(2)
    have "space_ok b1" "mb_activeMacroId b1 = mb_activeMacroId b" by (auto simp: repeat_ok_def)
    with esc r assms(3) i show ?thesis
      by (cases ok1) (auto simp: ParseDefinition_def intro: space_deleteMacro)
  next
    case chr
    obtain ok1 b1 where s: "parse_step ch b = (ok1, b1)" by (metis surj_pair)
    from parse_step_ok [OF assms(1,2) s] chr s assms(3) i show ?thesis
      by (cases ok1) (auto simp: ParseDefinition_def intro: space_deleteMacro)
  qed (use assms in \<open>auto simp: ParseDefinition_def\<close>)
qed

subsection \<open>Starting a definition\<close>

lemma space_delete_all:
  "space_ok b \<Longrightarrow> k \<le> MAX_MACRO_COUNT \<Longrightarrow>
   space_ok (fold deleteMacro [0..<k] b) \<and>
   mb_macros (fold deleteMacro [0..<k] b) = replicate k [] @ drop k (mb_macros b) \<and>
   mb_activeMacroId (fold deleteMacro [0..<k] b) = mb_activeMacroId b \<and>
   mb_repeatPending (fold deleteMacro [0..<k] b) = mb_repeatPending b \<and>
   mb_parseState (fold deleteMacro [0..<k] b) = mb_parseState b \<and>
   mb_decodedChar (fold deleteMacro [0..<k] b) = mb_decodedChar b"
proof (induction k)
  case (Suc k)
  let ?b = "fold deleteMacro [0..<k] b"
  have IH: "space_ok ?b" "mb_macros ?b = replicate k [] @ drop k (mb_macros b)"
    using Suc by auto
  have "k < length (mb_macros b)" using Suc.prems by (simp add: space_ok_def)
  then have "(mb_macros ?b)[k := []] = replicate (Suc k) [] @ drop (Suc k) (mb_macros b)"
    unfolding IH(2) by (simp add: list_update_append Cons_nth_drop_Suc [symmetric] replicate_app_Cons_same)
  then show ?case using Suc IH(1) by (simp add: space_deleteMacro)
qed simp

lemma InitParser_ok:
  assumes "space_ok b" and "InitParser macroId deleteControl encoding b = (ok, b')"
  shows "space_ok b'"
    and "ok \<Longrightarrow> repeat_ok b' \<and> activeMacro b' = [] \<and> mb_activeMacroId b' = nat macroId \<and>
      mb_decodedChar b' = 0 \<and> \<not> mb_repeatPending b' \<and>
      mb_parseState b' = (if encoding = 1 then ExpectingHexDigit else ExpectingText)"
proof -
  let ?st = "if encoding = 1 then ExpectingHexDigit else ExpectingText"
  let ?b1 = "b\<lparr>mb_activeMacroId := nat macroId, mb_decodedChar := 0, mb_repeatPending := False\<rparr>"
  let ?b2 = "?b1\<lparr>mb_parseState := ?st\<rparr>"
  have len: "length (mb_macros b) = MAX_MACRO_COUNT" using assms(1) by (simp add: space_ok_def)
  consider (reject) "\<not> ok" "b' = b" | (fail) "\<not> ok" "nat macroId < MAX_MACRO_COUNT" "b' = ?b1 \<or> b' = ?b2"
    | (one) "ok" "nat macroId < MAX_MACRO_COUNT" "b' = deleteMacro (nat macroId) ?b2"
    | (all) "ok" "nat macroId < MAX_MACRO_COUNT" "b' = fold deleteMacro [0..<MAX_MACRO_COUNT] ?b2"
    using assms(2) len by (auto simp: InitParser_def Let_def split: if_splits)
  note cases = this
  have sp: "space_ok ?b1" "space_ok ?b2" if "nat macroId < MAX_MACRO_COUNT"
    using assms(1) that by (simp_all add: space_ok_def)
  from cases show "space_ok b'"
    by cases (use assms(1) sp space_delete_all [of ?b2 MAX_MACRO_COUNT] in \<open>auto intro: space_deleteMacro\<close>)
  assume ok: "ok"
  from cases show "repeat_ok b' \<and> activeMacro b' = [] \<and> mb_activeMacroId b' = nat macroId \<and>
      mb_decodedChar b' = 0 \<and> \<not> mb_repeatPending b' \<and> mb_parseState b' = ?st"
  proof cases
    case one
    then show ?thesis using len by (auto simp: repeat_ok_def activeMacro_def)
  next
    case all
    with sp(2) space_delete_all [of ?b2 MAX_MACRO_COUNT] len show ?thesis
      by (auto simp: repeat_ok_def activeMacro_def)
  qed (use ok in auto)
qed

subsection \<open>Invocation is bounded\<close>

lemma begin_invoke_ok:
  assumes "invoke_ok b" and "begin_invoke macroId b = Some (str, b')"
  shows "invoke_ok b' \<and> mb_invokedDepth b' = mb_invokedDepth b + 1 \<and> str = mb_macros b ! macroId \<and>
    mb_invokedSequenceLength b' = mb_invokedSequenceLength b + length str"
  using assms by (auto simp: begin_invoke_def invoke_ok_def Let_def split: if_splits)

lemma begin_invoke_limit: "mb_invokedDepth b \<ge> 16 \<Longrightarrow> begin_invoke macroId b = None"
  by (simp add: begin_invoke_def Let_def)

lemma resetInvokeDepth_ok:
  "invoke_ok b \<Longrightarrow> invoke_ok (resetInvokeDepth b) \<and> mb_invokedDepth (resetInvokeDepth b) = mb_invokedDepth b - 1"
  by (auto simp: invoke_ok_def resetInvokeDepth_def)

text \<open>An invocation leaves the nesting depth where it was, when the processing of the macro by the
  state machine does (which may invoke other macros): the depth is incremented before and
  decremented after, and an invocation beyond the limits does nothing.\<close>

theorem InvokeMacro_depth:
  assumes law: "\<And>b w. getb (setb b w) = b"
    and inner: "\<And>str w w'. process str w = Some w' \<Longrightarrow> invoke_ok (getb w) \<Longrightarrow>
      invoke_ok (getb w') \<and> mb_invokedDepth (getb w') = mb_invokedDepth (getb w)"
    and "invoke_ok (getb w)" and "MacroBuffer_InvokeMacro getb setb process macroId w = Some w'"
  shows "invoke_ok (getb w') \<and> mb_invokedDepth (getb w') = mb_invokedDepth (getb w)"
proof (cases "begin_invoke macroId (getb w)")
  case None
  with assms show ?thesis by (simp add: MacroBuffer_InvokeMacro_def)
next
  case (Some p)
  obtain str b where p: "p = (str, b)" by (cases p)
  from begin_invoke_ok [OF assms(3)] Some p have b: "invoke_ok b"
    "mb_invokedDepth b = mb_invokedDepth (getb w) + 1" by auto
  from assms(4) Some p obtain v where v: "process str (setb b w) = Some v"
    "w' = setb (resetInvokeDepth (getb v)) v"
    by (auto simp: MacroBuffer_InvokeMacro_def split: option.splits)
  from inner [OF v(1)] b have "invoke_ok (getb v)" "mb_invokedDepth (getb v) = mb_invokedDepth b"
    by (simp_all add: law)
  with v(2) b(2) resetInvokeDepth_ok [of "getb v"] show ?thesis by (simp add: law)
qed

theorem InvokeMacro_depth_witness:
  "invoke_ok (ClearMacrosIfInUse MacroBuffer_init) \<and>
   mb_invokedDepth (ClearMacrosIfInUse MacroBuffer_init) = mb_invokedDepth MacroBuffer_init"
proof (rule InvokeMacro_depth [where getb = "\<lambda>b. b" and setb = "\<lambda>b _. b" and process = "\<lambda>_. Some"])
  show "MacroBuffer_InvokeMacro (\<lambda>b. b) (\<lambda>b _. b) (\<lambda>_. Some) 5 MacroBuffer_init =
      Some (ClearMacrosIfInUse MacroBuffer_init)"
    by (simp add: MacroBuffer_InvokeMacro_def begin_invoke_def resetInvokeDepth_def ClearMacrosIfInUse_def
        MacroBuffer_init_def MAX_MACRO_COUNT_def MAX_SPACE_def)
qed (simp_all add: invoke_ok_def MacroBuffer_init_def)

subsection \<open>A definition stores what it spells\<close>

text \<open>The characters of a definition go to the parser until it reports the end.\<close>

fun feed_definition :: "wstring \<Rightarrow> MacroBuffer \<Rightarrow> bool \<times> MacroBuffer" where
  "feed_definition [] b = (True, b)"
| "feed_definition (c # cs) b =
     (case ParseDefinition c b of
        (True, b1) \<Rightarrow> feed_definition cs b1
      | (False, b1) \<Rightarrow> (False, b1))"

lemma feed_definition_append:
  "feed_definition (xs @ ys) b =
     (case feed_definition xs b of
        (True, b1) \<Rightarrow> feed_definition ys b1
      | (False, b1) \<Rightarrow> (False, b1))"
  by (induction xs arbitrary: b) (auto split: prod.split bool.split)

text \<open>The buffer with \<open>m\<close> in the active macro, which was empty.\<close>

definition with_macro :: "wstring \<Rightarrow> MacroBuffer \<Rightarrow> MacroBuffer" where
  "with_macro m b =
     b\<lparr>mb_macros := (mb_macros b)[mb_activeMacroId b := m], mb_spaceUsed := mb_spaceUsed b + length m\<rparr>"

definition fresh :: "MacroBuffer \<Rightarrow> bool" where
  "fresh b \<longleftrightarrow> mb_activeMacroId b < length (mb_macros b) \<and> activeMacro b = []"

lemma with_macro_Nil: "fresh b \<Longrightarrow> with_macro [] b = b"
  using list_update_id [of "mb_macros b" "mb_activeMacroId b"]
  by (simp add: with_macro_def fresh_def activeMacro_def)

lemma with_macro_fields [simp]:
  "mb_parseState (with_macro m b) = mb_parseState b" "mb_decodedChar (with_macro m b) = mb_decodedChar b"
  "mb_repeatPending (with_macro m b) = mb_repeatPending b" "mb_repeatCount (with_macro m b) = mb_repeatCount b"
  "mb_repeatStart (with_macro m b) = mb_repeatStart b" "mb_spaceUsed (with_macro m b) = mb_spaceUsed b + length m"
  "mb_activeMacroId (with_macro m b) = mb_activeMacroId b"
  by (simp_all add: with_macro_def)

lemma with_macro_active [simp]: "fresh b \<Longrightarrow> activeMacro (with_macro m b) = m"
  by (simp add: with_macro_def fresh_def activeMacro_def)

lemma append_with_macro:
  "fresh b \<Longrightarrow> mb_spaceUsed b + length m < MAX_SPACE \<Longrightarrow>
   appendToActiveMacro ch (with_macro m b) = (True, with_macro (m @ [ch]) b)"
  by (simp add: appendToActiveMacro_def GetSpaceAvailable_def) (simp add: with_macro_def)

text \<open>Text.\<close>

lemma feed_text:
  "fresh b \<Longrightarrow> mb_parseState b = ExpectingText \<Longrightarrow> \<forall>c \<in> set cs. 0x20 \<le> c \<Longrightarrow>
   mb_spaceUsed b + length m + length cs \<le> MAX_SPACE \<Longrightarrow>
   feed_definition cs (with_macro m b) = (True, with_macro (m @ cs) b)"
proof (induction cs arbitrary: m)
  case (Cons c cs)
  then have "c \<noteq> ESC" "\<not> c < 0x20" by (auto simp: word_le_nat_alt word_less_nat_alt)
  with Cons.prems have "ParseDefinition c (with_macro m b) = (True, with_macro (m @ [c]) b)"
    by (simp add: ParseDefinition_def parse_step_def append_with_macro)
  with Cons show ?case by simp
qed simp

text \<open>Hex pairs.\<close>

definition hex_digit :: "nat \<Rightarrow> wchar" where
  "hex_digit d = (if d < 10 then 0x30 + of_nat d else 0x41 + of_nat (d - 10))"

definition hex_pair :: "wchar \<Rightarrow> wstring" where
  "hex_pair c = [hex_digit (unat c div 16), hex_digit (unat c mod 16)]"

definition hex_text :: "wstring \<Rightarrow> wstring" where
  "hex_text cs = concat (map hex_pair cs)"

lemma decode_hex_digit:
  assumes "d < 16"
  shows "decodeHexDigit (hex_digit d) b =
      (True, b\<lparr>mb_decodedChar := push_bit 4 (mb_decodedChar b) + of_nat d\<rparr>)"
    and "0x20 \<le> hex_digit d" "hex_digit d \<noteq> ESC"
proof -
  have cases: "d = 0 \<or> d = 1 \<or> d = 2 \<or> d = 3 \<or> d = 4 \<or> d = 5 \<or> d = 6 \<or> d = 7 \<or> d = 8 \<or> d = 9 \<or>
      d = 10 \<or> d = 11 \<or> d = 12 \<or> d = 13 \<or> d = 14 \<or> d = 15"
    using assms by presburger
  from cases show "decodeHexDigit (hex_digit d) b =
      (True, b\<lparr>mb_decodedChar := push_bit 4 (mb_decodedChar b) + of_nat d\<rparr>)"
    by (elim disjE) (simp_all add: hex_digit_def decodeHexDigit_def Let_def)
  from cases show "0x20 \<le> hex_digit d" by (elim disjE) (simp_all add: hex_digit_def)
  from cases show "hex_digit d \<noteq> ESC" by (elim disjE) (simp_all add: hex_digit_def)
qed

lemma hex_pair_value:
  assumes "unat (c :: wchar) < 256"
  shows "push_bit 4 (push_bit 4 0 + of_nat (unat c div 16)) + of_nat (unat c mod 16) = c"
proof -
  have "c = of_nat (16 * (unat c div 16) + unat c mod 16)" by (simp only: mult_div_mod_eq) simp
  also have "\<dots> = 16 * of_nat (unat c div 16) + of_nat (unat c mod 16)"
    by (simp only: of_nat_add of_nat_mult of_nat_numeral)
  finally show ?thesis by (simp add: push_bit_eq_mult mult.commute)
qed

text \<open>Ready for the next pair.\<close>

definition hex_ready :: "MacroBuffer \<Rightarrow> bool" where
  "hex_ready b \<longleftrightarrow> fresh b \<and> mb_parseState b = ExpectingHexDigit \<and> mb_decodedChar b = 0"

lemma feed_hex_pair:
  assumes "hex_ready b" and "mb_spaceUsed b + length m < MAX_SPACE" and "unat c < 256"
  shows "feed_definition (hex_pair c) (with_macro m b) = (True, with_macro (m @ [c]) b)"
proof -
  let ?hi = "unat c div 16" and ?lo = "unat c mod 16"
  have hi: "?hi < 16" and lo: "?lo < 16" using assms(3) by (simp_all add: div_less_iff_less_mult)
  let ?x = "push_bit 4 0 + of_nat ?hi :: wchar"
  let ?b = "b\<lparr>mb_parseState := ExpectingSecondHexDigit, mb_decodedChar := ?x\<rparr>"
  have nc: "\<not> hex_digit ?hi < 0x20" "\<not> hex_digit ?lo < 0x20"
    using decode_hex_digit(2) [OF hi] decode_hex_digit(2) [OF lo] by (simp_all add: not_less)
  have "ParseDefinition (hex_digit ?hi) (with_macro m b) = (True, with_macro m ?b)"
    using assms(1) decode_hex_digit [OF hi] nc
    by (simp add: ParseDefinition_def parse_step_def hex_ready_def) (simp add: with_macro_def)
  moreover have "fresh (b\<lparr>mb_parseState := ExpectingSecondHexDigit, mb_decodedChar := y\<rparr>)" for y
    using assms(1) by (simp add: hex_ready_def fresh_def activeMacro_def)
  then have "appendToActiveMacro c (with_macro m (b\<lparr>mb_parseState := ExpectingSecondHexDigit, mb_decodedChar := c\<rparr>)) =
      (True, with_macro (m @ [c]) (b\<lparr>mb_parseState := ExpectingSecondHexDigit, mb_decodedChar := c\<rparr>))"
    using assms(2) by (intro append_with_macro) simp_all
  moreover have "(with_macro m ?b)\<lparr>mb_decodedChar := c\<rparr> =
      with_macro m (b\<lparr>mb_parseState := ExpectingSecondHexDigit, mb_decodedChar := c\<rparr>)"
    by (simp add: with_macro_def)
  moreover have "(with_macro (m @ [c]) (b\<lparr>mb_parseState := ExpectingSecondHexDigit, mb_decodedChar := c\<rparr>))
      \<lparr>mb_decodedChar := 0, mb_parseState := ExpectingHexDigit\<rparr> = with_macro (m @ [c]) b"
    using assms(1) by (simp add: with_macro_def hex_ready_def)
  ultimately show ?thesis
    using decode_hex_digit(1) [OF lo, of "with_macro m ?b"] decode_hex_digit(3) [OF lo] nc hex_pair_value [OF assms(3)]
    by (simp add: hex_pair_def ParseDefinition_def parse_step_def)
qed

lemma feed_hex:
  "hex_ready b \<Longrightarrow> \<forall>c \<in> set cs. unat c < 256 \<Longrightarrow> mb_spaceUsed b + length m + length cs \<le> MAX_SPACE \<Longrightarrow>
   feed_definition (hex_text cs) (with_macro m b) = (True, with_macro (m @ cs) b)"
proof (induction cs arbitrary: m)
  case (Cons c cs)
  have "hex_text (c # cs) = hex_pair c @ hex_text cs" by (simp add: hex_text_def)
  with Cons feed_hex_pair [of b m c] show ?case by (simp add: feed_definition_append)
qed (simp add: hex_text_def)

text \<open>Repeats.\<close>

lemma numeral_digit:
  assumes "d < 10"
  shows "unat (0x30 + of_nat d :: wchar) = 0x30 + d"
  using assms by (simp add: unat_word_ariths unat_of_nat take_bit_nat_eq_self)

lemma feed_repeat_digit:
  assumes "d < 10" and "mb_parseState b = ExpectingRepeatCount"
  shows "ParseDefinition (0x30 + of_nat d) b =
    (True, b\<lparr>mb_repeatCount := min (mb_repeatCount b * 10 + d) MAX_REPEAT_COUNT\<rparr>)"
proof -
  note u = numeral_digit [OF assms(1)]
  have "(0x30 + of_nat d :: wchar) \<noteq> ESC" "\<not> (0x30 + of_nat d :: wchar) < 0x20"
    "(0x30 :: wchar) \<le> 0x30 + of_nat d" "(0x30 + of_nat d :: wchar) \<le> 0x39"
    using u assms(1) by (simp_all add: wchar_eq_unat word_less_nat_alt word_le_nat_alt)
  with assms(2) u show ?thesis by (simp add: ParseDefinition_def parse_step_def)
qed

lemma feed_repeat_count:
  assumes "mb_parseState b = ExpectingRepeatCount" and "mb_repeatCount b = 0"
  shows "feed_definition (decimal n) b = (True, b\<lparr>mb_repeatCount := min n MAX_REPEAT_COUNT\<rparr>)"
  using assms
proof (induction n rule: decimal.induct)
  case (1 n)
  show ?case
  proof (cases "n < 10")
    case True
    with "1.prems" show ?thesis by (simp add: decimal.simps feed_repeat_digit)
  next
    case False
    have "min (min (n div 10) MAX_REPEAT_COUNT * 10 + n mod 10) MAX_REPEAT_COUNT = min n MAX_REPEAT_COUNT"
      unfolding MAX_REPEAT_COUNT_def min_def by presburger
    with False 1 show ?thesis
      by (simp add: decimal.simps [of n] feed_definition_append feed_repeat_digit)
  qed
qed

datatype macro_item = Plain wstring | Repeat nat wstring

fun item_text :: "macro_item \<Rightarrow> wstring" where
  "item_text (Plain cs) = hex_text cs"
| "item_text (Repeat n cs) = [0x21] @ decimal n @ [0x3B] @ hex_text cs @ [0x3B]"

fun item_chars :: "macro_item \<Rightarrow> wstring" where
  "item_chars (Plain cs) = cs"
| "item_chars (Repeat n cs) = concat (replicate (max 1 (min n MAX_REPEAT_COUNT)) cs)"

lemma decode_punctuation:
  "decodeHexDigit 0x21 b = (False, b\<lparr>mb_decodedChar := push_bit 4 (mb_decodedChar b)\<rparr>)"
  "decodeHexDigit 0x3B b = (False, b\<lparr>mb_decodedChar := push_bit 4 (mb_decodedChar b)\<rparr>)"
  by (simp_all add: decodeHexDigit_def Let_def)

lemma hex_ready_decoded: "hex_ready b \<Longrightarrow> (with_macro m b)\<lparr>mb_decodedChar := 0\<rparr> = with_macro m b"
  by (simp add: hex_ready_def with_macro_def)

text \<open>The start and the end of a repeat.\<close>

lemma feed_repeat_start:
  assumes "hex_ready b" and "\<not> mb_repeatPending b"
  shows "feed_definition ([0x21] @ decimal n @ [0x3B]) (with_macro m b) =
    (True, with_macro m (b\<lparr>mb_repeatCount := min n MAX_REPEAT_COUNT, mb_repeatPending := True,
                          mb_repeatStart := length m\<rparr>))"
proof -
  let ?b1 = "b\<lparr>mb_parseState := ExpectingRepeatCount, mb_repeatCount := 0\<rparr>"
  let ?b2 = "?b1\<lparr>mb_repeatCount := min n MAX_REPEAT_COUNT\<rparr>"
  have wb: "(with_macro m b)\<lparr>mb_decodedChar := 0\<rparr> = with_macro m b"
    using assms(1) by (intro hex_ready_decoded)
  have "fresh b" using assms(1) by (simp add: hex_ready_def)
  have "ParseDefinition 0x21 (with_macro m b) = (True, with_macro m ?b1)"
    using assms wb by (simp add: ParseDefinition_def parse_step_def hex_ready_def decode_punctuation)
      (simp add: with_macro_def)
  moreover have "feed_definition (decimal n) (with_macro m ?b1) = (True, with_macro m ?b2)"
    by (subst feed_repeat_count) (simp_all, simp add: with_macro_def)
  moreover have "ParseDefinition 0x3B (with_macro m ?b2) =
      (True, with_macro m (b\<lparr>mb_repeatCount := min n MAX_REPEAT_COUNT, mb_repeatPending := True,
                             mb_repeatStart := length m\<rparr>))"
  proof -
    have "activeMacro (with_macro m ?b2) = m"
      using \<open>fresh b\<close> by (intro with_macro_active) (simp add: fresh_def activeMacro_def)
    then show ?thesis
      using assms(1) by (simp add: ParseDefinition_def parse_step_def) (simp add: with_macro_def hex_ready_def)
  qed
  ultimately show ?thesis by (simp add: feed_definition_append)
qed

lemma feed_repeat_end:
  assumes "hex_ready b" and "mb_repeatPending b" and "mb_repeatStart b = length m"
    and "mb_spaceUsed b + length m + max 1 (mb_repeatCount b) * length cs \<le> MAX_SPACE"
  shows "ParseDefinition 0x3B (with_macro (m @ cs) b) =
    (True, with_macro (m @ concat (replicate (max 1 (mb_repeatCount b)) cs)) (b\<lparr>mb_repeatPending := False\<rparr>))"
proof -
  let ?w = "with_macro (m @ cs) b"
  have fresh: "fresh b" using assms(1) by (simp add: hex_ready_def)
  have i: "mb_activeMacroId ?w < length (mb_macros ?w)" using fresh by (simp add: fresh_def with_macro_def)
  have act: "activeMacro ?w = m @ cs" using fresh by simp
  have wb: "?w\<lparr>mb_decodedChar := 0\<rparr> = ?w"
    using assms(1) by (intro hex_ready_decoded)
  have step: "ParseDefinition 0x3B ?w =
      (case applyPendingRepeat ?w of
         (success, b1) \<Rightarrow> (success, if success then b1 else deleteMacro (mb_activeMacroId b1) b1))"
    using assms(1,2) by (simp add: ParseDefinition_def parse_step_def hex_ready_def decode_punctuation wb)
  show ?thesis
  proof (cases "mb_repeatCount b > 1")
    case False
    then have "max 1 (mb_repeatCount b) = 1" by simp
    with False step show ?thesis by (simp add: applyPendingRepeat_def) (simp add: with_macro_def)
  next
    case True
    let ?n = "mb_repeatCount b - 1"
    have mx: "max 1 (mb_repeatCount b) = Suc ?n" using True by simp
    have "append_copies ?n (length cs) ?w =
      ?w\<lparr>mb_macros := (mb_macros ?w)[mb_activeMacroId ?w := (m @ cs) @ concat (replicate ?n cs)],
         mb_spaceUsed := mb_spaceUsed ?w + ?n * length cs\<rparr>"
      using append_copies_result [OF i, of "length cs" ?n] assms(3) by (simp add: act)
    moreover have "?n * length cs \<le> GetSpaceAvailable ?w"
      using assms(4) unfolding mx by (simp add: GetSpaceAvailable_def)
    ultimately have "applyPendingRepeat ?w =
      (True, (?w\<lparr>mb_macros := (mb_macros ?w)[mb_activeMacroId ?w := (m @ cs) @ concat (replicate ?n cs)],
         mb_spaceUsed := mb_spaceUsed ?w + ?n * length cs\<rparr>)\<lparr>mb_repeatPending := False\<rparr>)"
      using True assms(3) by (simp add: applyPendingRepeat_def Let_def act)
    with step show ?thesis unfolding mx
      by (simp add: with_macro_def length_concat sum_list_replicate)
  qed
qed


text \<open>What an item needs: byte-sized characters and room for the copies.\<close>

fun item_bytes :: "macro_item \<Rightarrow> wstring" where
  "item_bytes (Plain cs) = cs"
| "item_bytes (Repeat n cs) = cs"

definition items_text :: "macro_item list \<Rightarrow> wstring" where
  "items_text items = concat (map item_text items)"

definition items_chars :: "macro_item list \<Rightarrow> wstring" where
  "items_chars items = concat (map item_chars items)"

text \<open>The count and the start of the last repeat stay behind in the buffer.\<close>

definition with_repeat :: "nat \<Rightarrow> nat \<Rightarrow> MacroBuffer \<Rightarrow> MacroBuffer" where
  "with_repeat n k b = b\<lparr>mb_repeatCount := n, mb_repeatStart := k\<rparr>"

lemma with_repeat_ready [simp]:
  "hex_ready (with_repeat n k b) = hex_ready b"
  "mb_repeatPending (with_repeat n k b) = mb_repeatPending b"
  "mb_spaceUsed (with_repeat n k b) = mb_spaceUsed b"
  "with_repeat n k (with_repeat n' k' b) = with_repeat n k b"
  by (simp_all add: with_repeat_def hex_ready_def fresh_def activeMacro_def)

lemma with_repeat_same: "\<exists>n k. with_repeat n k b = b"
  by (rule exI [of _ "mb_repeatCount b"], rule exI [of _ "mb_repeatStart b"]) (simp add: with_repeat_def)

lemma feed_item:
  assumes "hex_ready b" and "\<not> mb_repeatPending b" and "\<forall>c \<in> set (item_bytes item). unat c < 256"
    and "mb_spaceUsed b + length m + length (item_chars item) \<le> MAX_SPACE"
  shows "\<exists>n k. feed_definition (item_text item) (with_macro m b) =
    (True, with_macro (m @ item_chars item) (with_repeat n k b))"
proof (cases item)
  case (Plain cs)
  with assms feed_hex [of b cs m] with_repeat_same [of b] show ?thesis by (metis item_text.simps(1)
    item_chars.simps(1) item_bytes.simps(1))
next
  case (Repeat n cs)
  let ?c = "min n MAX_REPEAT_COUNT"
  let ?b = "b\<lparr>mb_repeatCount := ?c, mb_repeatPending := True, mb_repeatStart := length m\<rparr>"
  have ready: "hex_ready ?b" using assms(1) by (simp add: hex_ready_def fresh_def activeMacro_def)
  have room: "mb_spaceUsed b + length m + max 1 ?c * length cs \<le> MAX_SPACE"
    using assms(4) Repeat by (simp add: length_concat sum_list_replicate)
  moreover have "length cs \<le> max 1 ?c * length cs" by simp
  ultimately have "mb_spaceUsed b + length m + length cs \<le> MAX_SPACE" by linarith
  then have hex: "feed_definition (hex_text cs) (with_macro m ?b) = (True, with_macro (m @ cs) ?b)"
    using assms(3) Repeat ready by (intro feed_hex) simp_all
  have "ParseDefinition 0x3B (with_macro (m @ cs) ?b) =
    (True, with_macro (m @ concat (replicate (max 1 ?c) cs)) (?b\<lparr>mb_repeatPending := False\<rparr>))"
    using feed_repeat_end [OF ready, of m cs] room by simp
  moreover have "?b\<lparr>mb_repeatPending := False\<rparr> = with_repeat ?c (length m) b"
    using assms(2) by (simp add: with_repeat_def)
  ultimately have "feed_definition (item_text item) (with_macro m b) =
    (True, with_macro (m @ item_chars item) (with_repeat ?c (length m) b))"
    using feed_repeat_start [OF assms(1,2), of n m] hex Repeat
    by (simp only: item_text.simps append_assoc [symmetric] feed_definition_append) simp
  then show ?thesis by blast
qed

lemma feed_items:
  "hex_ready b \<Longrightarrow> \<not> mb_repeatPending b \<Longrightarrow> \<forall>item \<in> set items. \<forall>c \<in> set (item_bytes item). unat c < 256 \<Longrightarrow>
   mb_spaceUsed b + length m + length (items_chars items) \<le> MAX_SPACE \<Longrightarrow>
   \<exists>n k. feed_definition (items_text items) (with_macro m b) =
     (True, with_macro (m @ items_chars items) (with_repeat n k b))"
proof (induction items arbitrary: b m)
  case Nil
  obtain n k where "with_macro m (with_repeat n k b) = with_macro m b" by (metis with_repeat_same)
  then have "feed_definition (items_text []) (with_macro m b) =
      (True, with_macro (m @ items_chars []) (with_repeat n k b))"
    by (simp add: items_text_def items_chars_def)
  then show ?case by blast
next
  case (Cons item items)
  have chars: "items_chars (item # items) = item_chars item @ items_chars items"
    and spelled: "items_text (item # items) = item_text item @ items_text items"
    by (simp_all add: items_chars_def items_text_def)
  obtain n k where 1: "feed_definition (item_text item) (with_macro m b) =
      (True, with_macro (m @ item_chars item) (with_repeat n k b))"
    using Cons.prems feed_item [of b item m] by (auto simp: chars)
  obtain n' k' where "feed_definition (items_text items) (with_macro (m @ item_chars item) (with_repeat n k b)) =
      (True, with_macro ((m @ item_chars item) @ items_chars items) (with_repeat n' k' b))"
    using Cons.prems Cons.IH [of "with_repeat n k b" "m @ item_chars item"] by (auto simp: chars)
  with 1 show ?case by (auto simp: chars spelled feed_definition_append)
qed

text \<open>The buffer a definition starts from.\<close>

lemma sum_list_member_le: "i < length xs \<Longrightarrow> f (xs ! i) \<le> (sum_list (map f xs) :: nat)"
  by (induction xs arbitrary: i) (auto split: nat.split simp: less_Suc_eq_0_disj trans_le_add2)

lemma InitParser_start:
  assumes "space_ok b" and "i < MAX_MACRO_COUNT" and "mb_invokedDepth b = 0" and "enc = 0 \<or> enc = 1"
  obtains b0 where "InitParser (int i) 0 enc b = (True, b0)" and "fresh b0" and "\<not> mb_repeatPending b0"
    and "mb_parseState b0 = (if enc = 1 then ExpectingHexDigit else ExpectingText)"
    and "mb_decodedChar b0 = 0" and "mb_activeMacroId b0 = i"
    and "mb_macros b0 = (mb_macros b)[i := []]"
    and "mb_spaceUsed b0 + length (mb_macros b ! i) = mb_spaceUsed b"
proof -
  have l: "length (mb_macros b) = MAX_MACRO_COUNT" using assms(1) by (simp add: space_ok_def)
  then have "length (mb_macros b ! i) \<le> mb_spaceUsed b"
    using assms(1,2) sum_list_member_le [of i "mb_macros b" length] by (simp add: space_ok_def)
  with assms l show ?thesis
    by (intro that) (auto simp: InitParser_def Let_def fresh_def activeMacro_def deleteMacro_def)
qed

end
