(* ===== verification/MacroLaws.thy ===== *)
theory MacroLaws
  imports MacroBuffer
begin

text \<open>
  The macro buffer over its lifetime: the states it can reach through its public operations, with
  the invariants that hold in all of them, and what a complete definition leaves in the store.
\<close>

subsection \<open>The checksum\<close>

lemma fold_minus: "fold (\<lambda>ch c. c - ch) xs (a :: wchar) = a - sum_list xs"
  by (induction xs arbitrary: a) (simp_all add: algebra_simps)

lemma fold_minus_macros:
  "fold (\<lambda>macro checksum. fold (\<lambda>ch c. c - ch) macro checksum) ms (a :: wchar) = a - sum_list (concat ms)"
  by (induction ms arbitrary: a) (simp_all add: fold_minus algebra_simps)

text \<open>The checksum reported for the macros is the negated sum of all their characters, modulo
  2 to the power 16, in whatever order they were defined.\<close>

theorem checksum_value:
  "CalculateChecksum b = - sum_list (concat (mb_macros b))"
  by (simp add: CalculateChecksum_def fold_minus_macros)

subsection \<open>Reachable buffers\<close>

text \<open>The flag says whether a definition is in progress: characters only arrive between a successful
  \<^verbatim>\<open>InitParser\<close> and the first \<^verbatim>\<open>ParseDefinition\<close> that returns \<^verbatim>\<open>false\<close>.\<close>

inductive macro_reachable :: "bool \<Rightarrow> MacroBuffer \<Rightarrow> bool" where
  macro_init: "macro_reachable False MacroBuffer_init"
| macro_start: "macro_reachable p b \<Longrightarrow> InitParser macroId deleteControl encoding b = (ok, b') \<Longrightarrow>
    macro_reachable ok b'"
| macro_char: "macro_reachable True b \<Longrightarrow> ParseDefinition ch b = (ok, b') \<Longrightarrow> macro_reachable ok b'"
| macro_begin: "macro_reachable p b \<Longrightarrow> begin_invoke macroId b = Some (str, b') \<Longrightarrow> macro_reachable p b'"
| macro_end: "macro_reachable p b \<Longrightarrow> 0 < mb_invokedDepth b \<Longrightarrow> macro_reachable p (resetInvokeDepth b)"
| macro_clear: "macro_reachable p b \<Longrightarrow> macro_reachable p (ClearMacrosIfInUse b)"

definition macro_ok :: "bool \<Rightarrow> MacroBuffer \<Rightarrow> bool" where
  "macro_ok p b \<longleftrightarrow> space_ok b \<and> invoke_ok b \<and> (p \<longrightarrow> repeat_ok b)"

lemma init_macro_ok: "macro_ok False MacroBuffer_init"
  by (simp add: macro_ok_def MacroBuffer_init_def space_ok_def invoke_ok_def sum_list_replicate MAX_MACRO_COUNT_def)

lemma applyPendingRepeat_invoke:
  "mb_invokedDepth (snd (applyPendingRepeat b)) = mb_invokedDepth b"
  "mb_invokedSequenceLength (snd (applyPendingRepeat b)) = mb_invokedSequenceLength b"
proof -
  have c: "mb_invokedDepth (append_copies n l b) = mb_invokedDepth b \<and>
      mb_invokedSequenceLength (append_copies n l b) = mb_invokedSequenceLength b" for n l
    by (induction n l b rule: append_copies.induct) simp_all
  show "mb_invokedDepth (snd (applyPendingRepeat b)) = mb_invokedDepth b"
    "mb_invokedSequenceLength (snd (applyPendingRepeat b)) = mb_invokedSequenceLength b"
    using c by (simp_all add: applyPendingRepeat_def Let_def)
qed

lemma ParseDefinition_invoke:
  assumes "ParseDefinition ch b = (ok, b')"
  shows "mb_invokedDepth b' = mb_invokedDepth b \<and> mb_invokedSequenceLength b' = mb_invokedSequenceLength b"
proof -
  have s: "mb_invokedDepth (snd (parse_step ch b)) = mb_invokedDepth b \<and>
      mb_invokedSequenceLength (snd (parse_step ch b)) = mb_invokedSequenceLength b"
    by (auto simp: parse_step_def appendToActiveMacro_def decodeHexDigit_def Let_def applyPendingRepeat_invoke
        split: MacroParseState.split)
  have d: "mb_invokedDepth (deleteMacro i b) = mb_invokedDepth b \<and>
      mb_invokedSequenceLength (deleteMacro i b) = mb_invokedSequenceLength b" for i b
    by (simp add: deleteMacro_def)
  from assms s d applyPendingRepeat_invoke [of b] show ?thesis
    by (auto simp: ParseDefinition_def split: if_splits prod.splits bool.splits)
qed

lemma InitParser_invoke:
  assumes "InitParser macroId deleteControl encoding b = (ok, b')"
  shows "mb_invokedDepth b' = mb_invokedDepth b \<and> mb_invokedSequenceLength b' = mb_invokedSequenceLength b"
proof -
  have d: "mb_invokedDepth (deleteMacro i b) = mb_invokedDepth b \<and>
      mb_invokedSequenceLength (deleteMacro i b) = mb_invokedSequenceLength b" for i b
    by (simp add: deleteMacro_def)
  have f: "mb_invokedDepth (fold deleteMacro is b) = mb_invokedDepth b \<and>
      mb_invokedSequenceLength (fold deleteMacro is b) = mb_invokedSequenceLength b" for "is" b
    by (induction "is" arbitrary: b) (simp_all add: d)
  from assms show ?thesis
    by (auto simp: InitParser_def Let_def d f split: if_splits)
qed

lemma space_ok_clear: "space_ok b \<Longrightarrow> space_ok (ClearMacrosIfInUse b)"
  by (simp add: space_ok_def ClearMacrosIfInUse_def o_def)

lemma reachable_macro_ok: "macro_reachable p b \<Longrightarrow> macro_ok p b"
proof (induction rule: macro_reachable.induct)
  case (macro_start p b macroId deleteControl encoding ok b')
  then show ?case
    using InitParser_ok [OF _ macro_start.hyps(2)] InitParser_invoke [OF macro_start.hyps(2)]
    by (auto simp: macro_ok_def invoke_ok_def)
next
  case (macro_char b ch ok b')
  then show ?case
    using ParseDefinition_ok [OF _ _ macro_char.hyps(2)] ParseDefinition_invoke [OF macro_char.hyps(2)]
    by (auto simp: macro_ok_def invoke_ok_def)
next
  case (macro_begin p b macroId str b')
  then show ?case using begin_invoke_ok [OF _ macro_begin.hyps(2)]
    by (auto simp: macro_ok_def begin_invoke_def Let_def repeat_ok_def activeMacro_def split: if_splits)
next
  case (macro_end p b)
  then show ?case using resetInvokeDepth_ok [of b]
    by (auto simp: macro_ok_def resetInvokeDepth_def repeat_ok_def activeMacro_def)
next
  case (macro_clear p b)
  then show ?case
    by (auto simp: macro_ok_def space_ok_clear ClearMacrosIfInUse_def repeat_ok_def activeMacro_def
        invoke_ok_def space_ok_def o_def)
qed (rule init_macro_ok)

text \<open>C19: In every state the macro buffer can reach, the space accounted for is exactly the length of
  the stored macros, it never exceeds the limit, and at most 16 invocations are nested; so none of
  the unsigned subtractions of the code wraps around.\<close>

theorem macro_space_exact:
  assumes "macro_reachable p b"
  shows "length (mb_macros b) = 64 \<and> mb_spaceUsed b = sum_list (map length (mb_macros b)) \<and>
    mb_spaceUsed b \<le> 0x40000 \<and> mb_invokedDepth b \<le> 16"
  using reachable_macro_ok [OF assms]
  by (simp add: macro_ok_def space_ok_def invoke_ok_def MAX_MACRO_COUNT_def MAX_SPACE_def)

theorem macro_space_exact_witness:
  "length (mb_macros (snd (InitParser 3 1 1 MacroBuffer_init))) = 64 \<and>
   mb_spaceUsed (snd (InitParser 3 1 1 MacroBuffer_init)) =
     sum_list (map length (mb_macros (snd (InitParser 3 1 1 MacroBuffer_init)))) \<and>
   mb_spaceUsed (snd (InitParser 3 1 1 MacroBuffer_init)) \<le> 0x40000 \<and>
   mb_invokedDepth (snd (InitParser 3 1 1 MacroBuffer_init)) \<le> 16"
  by (rule macro_space_exact [OF macro_start [OF macro_init prod.collapse [symmetric]]])

subsection \<open>Complete definitions\<close>

lemma define_after:
  assumes "feed_definition cs b0 = (True, with_macro m b1)"
    and "\<not> mb_repeatPending b1"
  shows "feed_definition (cs @ [ESC]) b0 = (False, with_macro m b1)"
  using assms by (simp add: feed_definition_append ParseDefinition_def)

lemma with_macro_macros: "mb_macros (with_macro m b) = (mb_macros b)[mb_activeMacroId b := m]"
  by (simp add: with_macro_def)

text \<open>A macro defined as text, terminated by ESC, is stored as it was sent, in place of the old
  one, and no other macro changes, as long as it fits the space left.\<close>

theorem macro_text_round_trip:
  assumes b: "space_ok b" and i: "i < 64" and d: "mb_invokedDepth b = 0"
    and cs: "\<forall>c \<in> set cs. 0x20 \<le> c"
    and room: "mb_spaceUsed b + length cs \<le> 0x40000 + length (mb_macros b ! i)"
  shows "\<exists>b0 b1. InitParser (int i) 0 0 b = (True, b0) \<and> feed_definition (cs @ [ESC]) b0 = (False, b1) \<and>
    mb_macros b1 = (mb_macros b)[i := cs]"
proof -
  have "i < MAX_MACRO_COUNT" using i by (simp add: MAX_MACRO_COUNT_def)
  from InitParser_start [OF b this d, of 0] obtain b0 where b0: "InitParser (int i) 0 0 b = (True, b0)"
    "fresh b0" "\<not> mb_repeatPending b0" "mb_parseState b0 = ExpectingText" "mb_activeMacroId b0 = i"
    "mb_macros b0 = (mb_macros b)[i := []]" "mb_spaceUsed b0 + length (mb_macros b ! i) = mb_spaceUsed b"
    by auto
  have "feed_definition cs (with_macro [] b0) = (True, with_macro ([] @ cs) b0)"
    using b0 cs room by (intro feed_text) (simp_all add: MAX_SPACE_def)
  then have "feed_definition (cs @ [ESC]) b0 = (False, with_macro cs b0)"
    using b0 by (intro define_after) (simp_all add: with_macro_Nil)
  with b0 show ?thesis by (auto simp: with_macro_macros)
qed

theorem macro_text_round_trip_witness:
  "\<exists>b0 b1. InitParser (int 5) 0 0 MacroBuffer_init = (True, b0) \<and>
     feed_definition (wstr ''ls'' @ [ESC]) b0 = (False, b1) \<and>
     mb_macros b1 = (mb_macros MacroBuffer_init)[5 := wstr ''ls'']"
  by (rule macro_text_round_trip)
    (use init_macro_ok in \<open>simp_all add: macro_ok_def MacroBuffer_init_def\<close>)

text \<open>C20: A macro defined in hex pairs, with repeated groups, is stored as the characters the pairs
  and repeats spell (a repeat count of 0 counts as 1, and counts are limited to 65535).\<close>

theorem macro_hex_round_trip:
  assumes b: "space_ok b" and i: "i < 64" and d: "mb_invokedDepth b = 0"
    and bytes: "\<forall>item \<in> set items. \<forall>c \<in> set (item_bytes item). unat c < 256"
    and room: "mb_spaceUsed b + length (items_chars items) \<le> 0x40000 + length (mb_macros b ! i)"
  shows "\<exists>b0 b1. InitParser (int i) 0 1 b = (True, b0) \<and> feed_definition (items_text items @ [ESC]) b0 = (False, b1) \<and>
    mb_macros b1 = (mb_macros b)[i := items_chars items]"
proof -
  have "i < MAX_MACRO_COUNT" using i by (simp add: MAX_MACRO_COUNT_def)
  from InitParser_start [OF b this d, of 1] obtain b0 where b0: "InitParser (int i) 0 1 b = (True, b0)"
    "fresh b0" "\<not> mb_repeatPending b0" "mb_parseState b0 = ExpectingHexDigit" "mb_decodedChar b0 = 0"
    "mb_activeMacroId b0 = i" "mb_macros b0 = (mb_macros b)[i := []]"
    "mb_spaceUsed b0 + length (mb_macros b ! i) = mb_spaceUsed b"
    by auto
  then have "hex_ready b0" by (simp add: hex_ready_def)
  then obtain n k where "feed_definition (items_text items) (with_macro [] b0) =
      (True, with_macro ([] @ items_chars items) (with_repeat n k b0))"
    using feed_items [of b0 items "[]"] b0 bytes room by (auto simp: MAX_SPACE_def)
  then have "feed_definition (items_text items @ [ESC]) b0 = (False, with_macro (items_chars items) (with_repeat n k b0))"
    using b0 by (intro define_after) (simp_all add: with_macro_Nil)
  moreover have "mb_macros (with_macro (items_chars items) (with_repeat n k b0)) = (mb_macros b)[i := items_chars items]"
    using b0 by (simp add: with_macro_macros) (simp add: with_repeat_def)
  ultimately show ?thesis using b0 by blast
qed

theorem macro_hex_round_trip_witness:
  "\<exists>b0 b1. InitParser (int 0) 0 1 MacroBuffer_init = (True, b0) \<and>
     feed_definition (items_text [Plain [0x1B], Repeat 3 (wstr ''ab'')] @ [ESC]) b0 = (False, b1) \<and>
     mb_macros b1 = (mb_macros MacroBuffer_init)[0 := items_chars [Plain [0x1B], Repeat 3 (wstr ''ab'')]]"
  by (rule macro_hex_round_trip)
    (use init_macro_ok in \<open>simp_all add: macro_ok_def MacroBuffer_init_def items_chars_def MAX_REPEAT_COUNT_def MAX_MACRO_COUNT_def length_concat sum_list_replicate\<close>)

end
