(* ===== verification/TextColor.thy ===== *)
theory TextColor
  imports Prelude
begin

text \<open>
  The colour of a text attribute, \<^verbatim>\<open>src/src/buffer/out/TextColor.h\<close> and \<^verbatim>\<open>TextColor.cpp\<close>: default, one
  of 16, one of 256, or RGB. The lemmas say that every colour has a legacy index below 16, that the
  order of the legacy indices is an involution, and that the two tables agree on the 16 colours.
\<close>

subsection \<open>The data\<close>

datatype ColorType = IsDefault | IsIndex16 | IsIndex256 | IsRgb

text \<open>The red component and the index share their byte.\<close>

record TextColor =
  tc_red :: byte
  tc_green :: byte
  tc_blue :: byte
  tc_meta :: ColorType

definition TextColor_default :: TextColor where
  "TextColor_default = \<lparr>tc_red = 0, tc_green = 0, tc_blue = 0, tc_meta = IsDefault\<rparr>"

definition TextColor_index :: "byte \<Rightarrow> bool \<Rightarrow> TextColor" where
  "TextColor_index index isIndex256 =
     \<lparr>tc_red = index, tc_green = 0, tc_blue = 0, tc_meta = (if isIndex256 then IsIndex256 else IsIndex16)\<rparr>"

text \<open>The 16 colours in the order of ANSI.\<close>

abbreviation DARK_BLACK :: byte where
  "DARK_BLACK \<equiv> 0"

abbreviation DARK_RED :: byte where
  "DARK_RED \<equiv> 1"

abbreviation DARK_GREEN :: byte where
  "DARK_GREEN \<equiv> 2"

abbreviation DARK_YELLOW :: byte where
  "DARK_YELLOW \<equiv> 3"

abbreviation DARK_BLUE :: byte where
  "DARK_BLUE \<equiv> 4"

abbreviation DARK_MAGENTA :: byte where
  "DARK_MAGENTA \<equiv> 5"

abbreviation DARK_CYAN :: byte where
  "DARK_CYAN \<equiv> 6"

abbreviation DARK_WHITE :: byte where
  "DARK_WHITE \<equiv> 7"

abbreviation BRIGHT_BLACK :: byte where
  "BRIGHT_BLACK \<equiv> 8"

abbreviation BRIGHT_RED :: byte where
  "BRIGHT_RED \<equiv> 9"

abbreviation BRIGHT_GREEN :: byte where
  "BRIGHT_GREEN \<equiv> 10"

abbreviation BRIGHT_YELLOW :: byte where
  "BRIGHT_YELLOW \<equiv> 11"

abbreviation BRIGHT_BLUE :: byte where
  "BRIGHT_BLUE \<equiv> 12"

abbreviation BRIGHT_MAGENTA :: byte where
  "BRIGHT_MAGENTA \<equiv> 13"

abbreviation BRIGHT_CYAN :: byte where
  "BRIGHT_CYAN \<equiv> 14"

abbreviation BRIGHT_WHITE :: byte where
  "BRIGHT_WHITE \<equiv> 15"

text \<open>The macros on a \<^verbatim>\<open>COLORREF\<close>, whose lowest byte is the red component.\<close>

definition RGB :: "byte \<Rightarrow> byte \<Rightarrow> byte \<Rightarrow> u32" where
  "RGB r g b = ucast r OR push_bit 8 (ucast g) OR push_bit 16 (ucast b)"

definition GetRValue :: "u32 \<Rightarrow> byte" where
  "GetRValue rgb = ucast rgb"

definition GetGValue :: "u32 \<Rightarrow> byte" where
  "GetGValue rgb = ucast (drop_bit 8 rgb)"

definition GetBValue :: "u32 \<Rightarrow> byte" where
  "GetBValue rgb = ucast (drop_bit 16 rgb)"

definition TextColor_rgb :: "u32 \<Rightarrow> TextColor" where
  "TextColor_rgb rgb =
     \<lparr>tc_red = GetRValue rgb, tc_green = GetGValue rgb, tc_blue = GetBValue rgb, tc_meta = IsRgb\<rparr>"

definition TextColor_SetColor :: "u32 \<Rightarrow> TextColor \<Rightarrow> TextColor" where
  "TextColor_SetColor rgbColor c =
     c\<lparr>tc_meta := IsRgb, tc_red := GetRValue rgbColor, tc_green := GetGValue rgbColor,
       tc_blue := GetBValue rgbColor\<rparr>"

definition TextColor_SetIndex :: "byte \<Rightarrow> bool \<Rightarrow> TextColor \<Rightarrow> TextColor" where
  "TextColor_SetIndex index isIndex256 c =
     c\<lparr>tc_meta := (if isIndex256 then IsIndex256 else IsIndex16), tc_red := index, tc_green := 0,
       tc_blue := 0\<rparr>"

definition TextColor_SetDefault :: "TextColor \<Rightarrow> TextColor" where
  "TextColor_SetDefault c = c\<lparr>tc_meta := IsDefault, tc_red := 0, tc_green := 0, tc_blue := 0\<rparr>"

definition TextColor_GetRGB :: "TextColor \<Rightarrow> u32" where
  "TextColor_GetRGB c = RGB (tc_red c) (tc_green c) (tc_blue c)"

subsection \<open>What kind of colour\<close>

definition tc_IsIndex16 :: "TextColor \<Rightarrow> bool" where
  "tc_IsIndex16 c \<longleftrightarrow> tc_meta c = IsIndex16"

definition tc_IsIndex256 :: "TextColor \<Rightarrow> bool" where
  "tc_IsIndex256 c \<longleftrightarrow> tc_meta c = IsIndex256"

definition tc_IsDefault :: "TextColor \<Rightarrow> bool" where
  "tc_IsDefault c \<longleftrightarrow> tc_meta c = IsDefault"

definition tc_IsRgb :: "TextColor \<Rightarrow> bool" where
  "tc_IsRgb c \<longleftrightarrow> tc_meta c = IsRgb"

definition CanBeBrightened :: "TextColor \<Rightarrow> bool" where
  "CanBeBrightened c \<longleftrightarrow> tc_IsIndex16 c \<or> tc_IsDefault c"

definition tc_IsLegacy :: "TextColor \<Rightarrow> bool" where
  "tc_IsLegacy c \<longleftrightarrow> (tc_IsIndex16 c \<or> tc_IsIndex256 c) \<and> tc_red c < 16"

definition IsDefaultOrLegacy :: "TextColor \<Rightarrow> bool" where
  "IsDefaultOrLegacy c \<longleftrightarrow> tc_meta c \<noteq> IsRgb \<and> tc_red c < 16"

subsection \<open>The real colour\<close>

text \<open>The scalar loop over the dark half of the colour table; the vectorised variants look for the
  same first match.\<close>

fun brighten_default :: "u32 list \<Rightarrow> u32 \<Rightarrow> nat \<Rightarrow> nat \<Rightarrow> u32" where
  "brighten_default colorTable defaultColor i 0 = defaultColor"
| "brighten_default colorTable defaultColor i (Suc n) =
     (if colorTable ! i = defaultColor then colorTable ! (i + 8)
      else brighten_default colorTable defaultColor (i + 1) n)"

definition GetColor :: "u32 list \<Rightarrow> nat \<Rightarrow> bool \<Rightarrow> TextColor \<Rightarrow> u32" where
  "GetColor colorTable defaultIndex brighten c =
     (if tc_IsDefault c
      then (let defaultColor = colorTable ! defaultIndex
            in if brighten then brighten_default colorTable defaultColor 0 8 else defaultColor)
      else if tc_IsRgb c then TextColor_GetRGB c
      else if tc_IsIndex16 c \<and> brighten then colorTable ! unat (tc_red c OR 8)
      else colorTable ! unat (tc_red c))"

subsection \<open>Legacy indices\<close>

definition CompressedRgbToIndex16 :: "byte list" where
  "CompressedRgbToIndex16 =
    [
     0, 1, 1, 9, 0, 0, 1, 1, 2, 1, 1, 1, 2, 8, 1, 9, 2, 2, 3, 3, 2, 2, 11, 3, 10, 10, 11, 11, 10, 10, 10, 11,
     0, 5, 1, 1, 0, 0, 1, 1, 8, 1, 1, 1, 2, 8, 1, 9, 2, 2, 3, 3, 2, 2, 11, 3, 10, 10, 10, 11, 10, 10, 10, 11,
     5, 5, 5, 1, 4, 5, 1, 1, 8, 8, 1, 9, 2, 8, 9, 9, 2, 2, 3, 3, 2, 2, 11, 3, 10, 10, 11, 11, 10, 10, 10, 11,
     4, 5, 5, 1, 4, 5, 5, 1, 8, 5, 5, 1, 8, 8, 9, 9, 2, 2, 8, 9, 10, 2, 11, 3, 10, 10, 11, 11, 10, 10, 10, 11,
     4, 13, 5, 5, 4, 13, 5, 5, 4, 13, 13, 13, 6, 8, 13, 9, 6, 8, 8, 9, 10, 10, 11, 3, 10, 10, 11, 11, 10, 10, 10, 11,
     4, 13, 13, 13, 4, 13, 13, 13, 4, 12, 13, 13, 6, 12, 13, 13, 6, 6, 8, 9, 6, 6, 7, 7, 10, 14, 14, 7, 10, 10, 14, 11,
     4, 12, 13, 13, 4, 12, 13, 13, 4, 12, 13, 13, 6, 12, 12, 13, 6, 6, 12, 7, 6, 6, 7, 7, 6, 14, 14, 7, 14, 14, 14, 15,
     12, 12, 13, 13, 12, 12, 13, 13, 12, 12, 12, 13, 12, 12, 12, 13, 6, 12, 12, 7, 6, 6, 7, 7, 6, 14, 14, 7, 14, 14, 14, 15]"

definition Index256ToIndex16 :: "byte list" where
  "Index256ToIndex16 =
    [
     0, 4, 2, 6, 1, 5, 3, 7, 8, 12, 10, 14, 9, 13, 11, 15, 0, 1, 1, 1, 9, 9, 2, 1, 1, 1, 1, 1, 2, 2, 3, 3,
     3, 3, 2, 2, 11, 11, 3, 3, 10, 10, 11, 11, 11, 11, 10, 10, 10, 10, 11, 11, 5, 5, 5, 5, 1, 1, 8, 8, 1, 1, 9, 9,
     2, 2, 3, 3, 3, 3, 2, 2, 11, 11, 3, 3, 10, 10, 11, 11, 11, 11, 10, 10, 10, 10, 11, 11, 4, 13, 5, 5, 5, 5, 4, 13,
     13, 13, 13, 13, 6, 8, 8, 8, 9, 9, 10, 10, 11, 11, 3, 3, 10, 10, 11, 11, 11, 11, 10, 10, 10, 10, 11, 11, 4, 13, 13, 13,
     13, 13, 4, 12, 13, 13, 13, 13, 6, 6, 8, 8, 9, 9, 6, 6, 7, 7, 7, 7, 10, 14, 14, 14, 7, 7, 10, 10, 14, 14, 11, 11,
     4, 12, 13, 13, 13, 13, 4, 12, 13, 13, 13, 13, 6, 6, 12, 12, 7, 7, 6, 6, 7, 7, 7, 7, 6, 14, 14, 14, 7, 7, 14, 14,
     14, 14, 15, 15, 12, 12, 13, 13, 13, 13, 12, 12, 12, 12, 13, 13, 6, 12, 12, 12, 7, 7, 6, 6, 7, 7, 7, 7, 6, 14, 14, 14,
     7, 7, 14, 14, 14, 14, 15, 15, 0, 0, 0, 0, 0, 0, 8, 8, 8, 8, 8, 8, 8, 8, 8, 8, 7, 7, 7, 7, 7, 7, 15, 15]"

definition compressedRgb :: "TextColor \<Rightarrow> byte" where
  "compressedRgb c =
     (tc_red c AND 0xE0) + (drop_bit 3 (tc_green c) AND 0x1C) + (drop_bit 6 (tc_blue c) AND 0x03)"

definition GetLegacyIndex :: "byte \<Rightarrow> TextColor \<Rightarrow> byte" where
  "GetLegacyIndex defaultIndex c =
     (if tc_IsDefault c then defaultIndex
      else if tc_IsIndex16 c \<or> tc_IsIndex256 c then Index256ToIndex16 ! unat (tc_red c)
      else CompressedRgbToIndex16 ! unat (compressedRgb c))"

definition TransposeLegacyIndex :: "byte \<Rightarrow> byte" where
  "TransposeLegacyIndex index =
     (let oneBitSet = (index XOR drop_bit 2 index) AND 1
      in index XOR oneBitSet XOR push_bit 2 oneBitSet)"

subsection \<open>Laws\<close>

lemma RGB_parts [simp]:
  "GetRValue (RGB r g b) = r" "GetGValue (RGB r g b) = g" "GetBValue (RGB r g b) = b"
  by (simp_all add: GetRValue_def GetGValue_def GetBValue_def RGB_def)
    (rule bit_word_eqI; auto simp: bit_simps dest: bit_imp_le_length)+

lemma table_length [simp]: "length Index256ToIndex16 = 256" "length CompressedRgbToIndex16 = 256"
  by (simp_all add: Index256ToIndex16_def CompressedRgbToIndex16_def)

lemma tables_bound:
  "list_all (\<lambda>i. i < 16) Index256ToIndex16" "list_all (\<lambda>i. i < 16) CompressedRgbToIndex16"
  by (simp_all add: Index256ToIndex16_def CompressedRgbToIndex16_def)

lemma GetLegacyIndex_bound: "d < 16 \<Longrightarrow> GetLegacyIndex d c < 16"
  using tables_bound by (simp add: GetLegacyIndex_def list_all_length)

text \<open>A byte below 16 is one of 16.\<close>

lemma nibble_cases:
  assumes "(i :: byte) < 16"
  shows "i \<in> {0, 1, 2, 3, 4, 5, 6, 7, 8, 9, 10, 11, 12, 13, 14, 15}"
proof -
  have "unat i < 16" using assms by (simp add: word_less_nat_alt)
  then have "unat i = 0 \<or> unat i = 1 \<or> unat i = 2 \<or> unat i = 3 \<or> unat i = 4 \<or> unat i = 5 \<or> unat i = 6 \<or>
      unat i = 7 \<or> unat i = 8 \<or> unat i = 9 \<or> unat i = 10 \<or> unat i = 11 \<or> unat i = 12 \<or> unat i = 13 \<or>
      unat i = 14 \<or> unat i = 15" by presburger
  then show ?thesis by (elim disjE) (simp_all add: word_unat_eq_iff)
qed

lemma Transpose_bound: "i < 16 \<Longrightarrow> TransposeLegacyIndex i < 16"
  using nibble_cases [of i] by (auto simp: TransposeLegacyIndex_def Let_def)

lemma Transpose_Transpose: "i < 16 \<Longrightarrow> TransposeLegacyIndex (TransposeLegacyIndex i) = i"
  using nibble_cases [of i] by (auto simp: TransposeLegacyIndex_def Let_def)

lemma table_Transpose: "i < 16 \<Longrightarrow> Index256ToIndex16 ! unat (TransposeLegacyIndex i) = i"
  using nibble_cases [of i] by (auto simp: TransposeLegacyIndex_def Let_def Index256ToIndex16_def)

end
