(* ===== verification/TextAttribute.thy ===== *)
theory TextAttribute
  imports TextColor
begin

text \<open>
  The attributes of a character cell, \<^verbatim>\<open>src/src/buffer/out/TextAttribute.hpp\<close> and
  \<^verbatim>\<open>TextAttribute.cpp\<close> with the flags of \<^verbatim>\<open>src/src/inc/conattrs.hpp\<close>: every getter and setter, and
  the translation from and to the 16-bit attributes of the legacy console with its settable default
  colours. The lemmas say which bits each setter touches, and that the translation loses nothing.
\<close>

subsection \<open>The flags\<close>

type_synonym WORD = "16 word"

named_theorems attr_flags \<open>the values of the attribute flags\<close>

definition CA_Normal :: WORD where
  [attr_flags]: "CA_Normal = 0x00"

definition CA_Intense :: WORD where
  [attr_flags]: "CA_Intense = 0x01"

definition CA_Italics :: WORD where
  [attr_flags]: "CA_Italics = 0x02"

definition CA_Blinking :: WORD where
  [attr_flags]: "CA_Blinking = 0x04"

definition CA_Invisible :: WORD where
  [attr_flags]: "CA_Invisible = 0x08"

definition CA_CrossedOut :: WORD where
  [attr_flags]: "CA_CrossedOut = 0x10"

definition CA_Faint :: WORD where
  [attr_flags]: "CA_Faint = 0x20"

definition CA_UnderlineStyle :: WORD where
  [attr_flags]: "CA_UnderlineStyle = 0x1C0"

definition CA_TopGridline :: WORD where
  [attr_flags]: "CA_TopGridline = 0x400"

definition CA_LeftGridline :: WORD where
  [attr_flags]: "CA_LeftGridline = 0x800"

definition CA_RightGridline :: WORD where
  [attr_flags]: "CA_RightGridline = 0x1000"

definition CA_Protected :: WORD where
  [attr_flags]: "CA_Protected = 0x2000"

definition CA_ReverseVideo :: WORD where
  [attr_flags]: "CA_ReverseVideo = 0x4000"

definition CA_BottomGridline :: WORD where
  [attr_flags]: "CA_BottomGridline = 0x8000"

definition CA_Rendition :: WORD where
  [attr_flags]: "CA_Rendition = 0xFFFF AND NOT 0x2000"

definition FG_ATTRS :: WORD where
  [attr_flags]: "FG_ATTRS = 0x000F"

definition BG_ATTRS :: WORD where
  [attr_flags]: "BG_ATTRS = 0x00F0"

text \<open>The grid lines, reverse video and underscore, without the leading and trailing byte flags.\<close>

definition USED_META_ATTRS :: WORD where
  [attr_flags]: "USED_META_ATTRS = 0xDC00"

definition FOREGROUND_INTENSITY :: WORD where
  [attr_flags]: "FOREGROUND_INTENSITY = 0x0008"

text \<open>The macros that read, set, clear and toggle flags.\<close>

definition WI_IsFlagSet :: "WORD \<Rightarrow> WORD \<Rightarrow> bool" where
  "WI_IsFlagSet attrs flag \<longleftrightarrow> attrs AND flag \<noteq> 0"

definition WI_UpdateFlag :: "WORD \<Rightarrow> WORD \<Rightarrow> bool \<Rightarrow> WORD" where
  "WI_UpdateFlag attrs flag isSet = (if isSet then attrs OR flag else attrs AND NOT flag)"

definition WI_ToggleFlag :: "WORD \<Rightarrow> WORD \<Rightarrow> WORD" where
  "WI_ToggleFlag attrs flag = attrs XOR flag"

subsection \<open>The attribute\<close>

text \<open>A style read back from the flags may be none of the six that are named, so it stays a number.\<close>

type_synonym UnderlineStyle = "16 word"

definition NoUnderline :: UnderlineStyle where
  [attr_flags]: "NoUnderline = 0"

definition SinglyUnderlined :: UnderlineStyle where
  [attr_flags]: "SinglyUnderlined = 1"

definition DoublyUnderlined :: UnderlineStyle where
  [attr_flags]: "DoublyUnderlined = 2"

definition UnderlineStyle_Max :: UnderlineStyle where
  [attr_flags]: "UnderlineStyle_Max = 5"

datatype MarkKind = MarkNone | Prompt | Command | Output

record TextAttribute =
  ta_attrs :: WORD
  ta_hyperlinkId :: "16 word"
  ta_foreground :: TextColor
  ta_background :: TextColor
  ta_underlineColor :: TextColor
  ta_markKind :: MarkKind

definition TextAttribute_default :: TextAttribute where
  "TextAttribute_default =
     \<lparr>ta_attrs = CA_Normal, ta_hyperlinkId = 0, ta_foreground = TextColor_default,
      ta_background = TextColor_default, ta_underlineColor = TextColor_default, ta_markKind = MarkNone\<rparr>"

definition TextAttribute_rgb :: "u32 \<Rightarrow> u32 \<Rightarrow> u32 \<Rightarrow> TextAttribute" where
  "TextAttribute_rgb rgbForeground rgbBackground rgbUnderline =
     \<lparr>ta_attrs = CA_Normal, ta_hyperlinkId = 0, ta_foreground = TextColor_rgb rgbForeground,
      ta_background = TextColor_rgb rgbBackground, ta_underlineColor = TextColor_rgb rgbUnderline,
      ta_markKind = MarkNone\<rparr>"

definition TextAttribute_parts ::
    "WORD \<Rightarrow> TextColor \<Rightarrow> TextColor \<Rightarrow> 16 word \<Rightarrow> TextColor \<Rightarrow> TextAttribute" where
  "TextAttribute_parts attrs foreground background hyperlinkId underlineColor =
     \<lparr>ta_attrs = attrs, ta_hyperlinkId = hyperlinkId, ta_foreground = foreground,
      ta_background = background, ta_underlineColor = underlineColor, ta_markKind = MarkNone\<rparr>"

subsection \<open>Legacy attributes\<close>

text \<open>The static members: the colour of each legacy index, the legacy indices that stand for the
  default colours, and these as ANSI indices.\<close>

record LegacyDefaults =
  legacyForegroundColorMap :: "TextColor list"
  legacyBackgroundColorMap :: "TextColor list"
  legacyDefaultForeground :: byte
  legacyDefaultBackground :: byte
  ansiDefaultForeground :: byte
  ansiDefaultBackground :: byte

definition initLegacyColorMap :: "byte \<Rightarrow> TextColor list" where
  "initLegacyColorMap defaultIndex =
     map (\<lambda>i. let legacyIndex = TransposeLegacyIndex (of_nat i)
               in if i = unat defaultIndex then TextColor_default else TextColor_index legacyIndex True) [0..<16]"

definition LegacyDefaults_init :: LegacyDefaults where
  "LegacyDefaults_init =
     \<lparr>legacyForegroundColorMap = initLegacyColorMap 7, legacyBackgroundColorMap = initLegacyColorMap 0,
      legacyDefaultForeground = 7, legacyDefaultBackground = 0,
      ansiDefaultForeground = 7, ansiDefaultBackground = 0\<rparr>"

definition SetLegacyDefaultAttributes :: "WORD \<Rightarrow> LegacyDefaults \<Rightarrow> LegacyDefaults" where
  "SetLegacyDefaultAttributes defaultAttributes d =
     (let fgMap = (legacyForegroundColorMap d)
            [unat (legacyDefaultForeground d) := TextColor_index (ansiDefaultForeground d) True];
          bgMap = (legacyBackgroundColorMap d)
            [unat (legacyDefaultBackground d) := TextColor_index (ansiDefaultBackground d) True];
          fg = ucast (defaultAttributes AND FG_ATTRS);
          bg = ucast (drop_bit 4 (defaultAttributes AND BG_ATTRS))
      in \<lparr>legacyForegroundColorMap = fgMap[unat fg := TextColor_default],
          legacyBackgroundColorMap = bgMap[unat bg := TextColor_default],
          legacyDefaultForeground = fg, legacyDefaultBackground = bg,
          ansiDefaultForeground = TransposeLegacyIndex fg,
          ansiDefaultBackground = TransposeLegacyIndex bg\<rparr>)"

definition TextAttribute_legacy :: "LegacyDefaults \<Rightarrow> WORD \<Rightarrow> TextAttribute" where
  "TextAttribute_legacy d wLegacyAttr =
     \<lparr>ta_attrs = wLegacyAttr AND USED_META_ATTRS, ta_hyperlinkId = 0,
      ta_foreground = legacyForegroundColorMap d ! unat (wLegacyAttr AND FG_ATTRS),
      ta_background = legacyBackgroundColorMap d ! unat (drop_bit 4 (wLegacyAttr AND BG_ATTRS)),
      ta_underlineColor = TextColor_default, ta_markKind = MarkNone\<rparr>"

subsection \<open>Getters\<close>

definition IsHyperlink :: "TextAttribute \<Rightarrow> bool" where
  "IsHyperlink a \<longleftrightarrow> ta_hyperlinkId a \<noteq> 0"

definition GetUnderlineStyle :: "TextAttribute \<Rightarrow> UnderlineStyle" where
  "GetUnderlineStyle a = drop_bit 6 (ta_attrs a AND CA_UnderlineStyle)"

definition IsTopHorizontalDisplayed :: "TextAttribute \<Rightarrow> bool" where
  "IsTopHorizontalDisplayed a \<longleftrightarrow> WI_IsFlagSet (ta_attrs a) CA_TopGridline"

definition IsBottomHorizontalDisplayed :: "TextAttribute \<Rightarrow> bool" where
  "IsBottomHorizontalDisplayed a \<longleftrightarrow> WI_IsFlagSet (ta_attrs a) CA_BottomGridline"

definition IsLeftVerticalDisplayed :: "TextAttribute \<Rightarrow> bool" where
  "IsLeftVerticalDisplayed a \<longleftrightarrow> WI_IsFlagSet (ta_attrs a) CA_LeftGridline"

definition IsRightVerticalDisplayed :: "TextAttribute \<Rightarrow> bool" where
  "IsRightVerticalDisplayed a \<longleftrightarrow> WI_IsFlagSet (ta_attrs a) CA_RightGridline"

definition IsIntense :: "TextAttribute \<Rightarrow> bool" where
  "IsIntense a \<longleftrightarrow> WI_IsFlagSet (ta_attrs a) CA_Intense"

definition IsBold :: "bool \<Rightarrow> TextAttribute \<Rightarrow> bool" where
  "IsBold intenseIsBold a \<longleftrightarrow> IsIntense a \<and> (intenseIsBold \<or> \<not> CanBeBrightened (ta_foreground a))"

definition IsFaint :: "TextAttribute \<Rightarrow> bool" where
  "IsFaint a \<longleftrightarrow> WI_IsFlagSet (ta_attrs a) CA_Faint"

definition IsItalic :: "TextAttribute \<Rightarrow> bool" where
  "IsItalic a \<longleftrightarrow> WI_IsFlagSet (ta_attrs a) CA_Italics"

definition IsBlinking :: "TextAttribute \<Rightarrow> bool" where
  "IsBlinking a \<longleftrightarrow> WI_IsFlagSet (ta_attrs a) CA_Blinking"

definition IsInvisible :: "TextAttribute \<Rightarrow> bool" where
  "IsInvisible a \<longleftrightarrow> WI_IsFlagSet (ta_attrs a) CA_Invisible"

definition IsCrossedOut :: "TextAttribute \<Rightarrow> bool" where
  "IsCrossedOut a \<longleftrightarrow> WI_IsFlagSet (ta_attrs a) CA_CrossedOut"

definition IsUnderlined :: "TextAttribute \<Rightarrow> bool" where
  "IsUnderlined a \<longleftrightarrow> GetUnderlineStyle a \<noteq> NoUnderline"

definition IsOverlined :: "TextAttribute \<Rightarrow> bool" where
  "IsOverlined a \<longleftrightarrow> WI_IsFlagSet (ta_attrs a) CA_TopGridline"

definition IsReverseVideo :: "TextAttribute \<Rightarrow> bool" where
  "IsReverseVideo a \<longleftrightarrow> WI_IsFlagSet (ta_attrs a) CA_ReverseVideo"

definition IsProtected :: "TextAttribute \<Rightarrow> bool" where
  "IsProtected a \<longleftrightarrow> WI_IsFlagSet (ta_attrs a) CA_Protected"

definition ta_IsLegacy :: "TextAttribute \<Rightarrow> bool" where
  "ta_IsLegacy a \<longleftrightarrow> tc_IsLegacy (ta_foreground a) \<and> tc_IsLegacy (ta_background a)"

definition BackgroundIsDefault :: "TextAttribute \<Rightarrow> bool" where
  "BackgroundIsDefault a \<longleftrightarrow> tc_IsDefault (ta_background a)"

definition IsAnyGridLineEnabled :: "TextAttribute \<Rightarrow> bool" where
  "IsAnyGridLineEnabled a \<longleftrightarrow>
     WI_IsFlagSet (ta_attrs a) (CA_TopGridline OR CA_LeftGridline OR CA_RightGridline OR CA_BottomGridline)"

definition HasAnyVisualAttributes :: "TextAttribute \<Rightarrow> bool" where
  "HasAnyVisualAttributes a \<longleftrightarrow> ta_attrs a \<noteq> CA_Normal \<or> ta_hyperlinkId a \<noteq> 0"

definition HasIdenticalVisualRepresentationForBlankSpace ::
    "TextAttribute \<Rightarrow> bool \<Rightarrow> TextAttribute \<Rightarrow> bool" where
  "HasIdenticalVisualRepresentationForBlankSpace other inverted a \<longleftrightarrow>
     (let checkForeground = (inverted \<noteq> IsReverseVideo a)
      in \<not> IsAnyGridLineEnabled a \<and> \<not> IsUnderlined a \<and> \<not> WI_IsFlagSet (ta_attrs a) CA_CrossedOut \<and>
         \<not> IsHyperlink a \<and> ta_attrs a = ta_attrs other \<and>
         (checkForeground \<and> ta_foreground a = ta_foreground other \<or>
          \<not> checkForeground \<and> ta_background a = ta_background other) \<and>
         IsHyperlink a = IsHyperlink other)"

definition GetLegacyAttributes :: "LegacyDefaults \<Rightarrow> TextAttribute \<Rightarrow> WORD" where
  "GetLegacyAttributes d a =
     (let fgIndex = GetLegacyIndex (legacyDefaultForeground d) (ta_foreground a);
          bgIndex = GetLegacyIndex (legacyDefaultBackground d) (ta_background a);
          metaAttrs = ta_attrs a AND USED_META_ATTRS;
          brighten = (IsIntense a \<and> CanBeBrightened (ta_foreground a))
      in ucast fgIndex OR push_bit 4 (ucast bgIndex) OR metaAttrs OR
         (if brighten then FOREGROUND_INTENSITY else 0))"

subsection \<open>Setters\<close>

definition SetFlag :: "WORD \<Rightarrow> bool \<Rightarrow> TextAttribute \<Rightarrow> TextAttribute" where
  "SetFlag flag isSet a = a\<lparr>ta_attrs := WI_UpdateFlag (ta_attrs a) flag isSet\<rparr>"

definition SetForeground :: "TextColor \<Rightarrow> TextAttribute \<Rightarrow> TextAttribute" where
  "SetForeground foreground a = a\<lparr>ta_foreground := foreground\<rparr>"

definition SetBackground :: "TextColor \<Rightarrow> TextAttribute \<Rightarrow> TextAttribute" where
  "SetBackground background a = a\<lparr>ta_background := background\<rparr>"

text \<open>The assertion of \<^verbatim>\<open>SetUnderlineColor\<close>, that the colour is not one of 16, is not compiled into
  release builds; that it holds at every call is a lemma of the client.\<close>

definition SetUnderlineColor :: "TextColor \<Rightarrow> TextAttribute \<Rightarrow> TextAttribute" where
  "SetUnderlineColor color a = a\<lparr>ta_underlineColor := color\<rparr>"

definition SetForeground_rgb :: "u32 \<Rightarrow> TextAttribute \<Rightarrow> TextAttribute" where
  "SetForeground_rgb rgbForeground a = a\<lparr>ta_foreground := TextColor_rgb rgbForeground\<rparr>"

definition SetBackground_rgb :: "u32 \<Rightarrow> TextAttribute \<Rightarrow> TextAttribute" where
  "SetBackground_rgb rgbBackground a = a\<lparr>ta_background := TextColor_rgb rgbBackground\<rparr>"

definition SetIndexedForeground :: "byte \<Rightarrow> TextAttribute \<Rightarrow> TextAttribute" where
  "SetIndexedForeground fgIndex a = a\<lparr>ta_foreground := TextColor_index fgIndex False\<rparr>"

definition SetIndexedBackground :: "byte \<Rightarrow> TextAttribute \<Rightarrow> TextAttribute" where
  "SetIndexedBackground bgIndex a = a\<lparr>ta_background := TextColor_index bgIndex False\<rparr>"

definition SetIndexedForeground256 :: "byte \<Rightarrow> TextAttribute \<Rightarrow> TextAttribute" where
  "SetIndexedForeground256 fgIndex a = a\<lparr>ta_foreground := TextColor_index fgIndex True\<rparr>"

definition SetIndexedBackground256 :: "byte \<Rightarrow> TextAttribute \<Rightarrow> TextAttribute" where
  "SetIndexedBackground256 bgIndex a = a\<lparr>ta_background := TextColor_index bgIndex True\<rparr>"

definition ta_SetColor :: "u32 \<Rightarrow> bool \<Rightarrow> TextAttribute \<Rightarrow> TextAttribute" where
  "ta_SetColor rgbColor fIsForeground a =
     (if fIsForeground then SetForeground_rgb rgbColor a else SetBackground_rgb rgbColor a)"

definition SetHyperlinkId :: "16 word \<Rightarrow> TextAttribute \<Rightarrow> TextAttribute" where
  "SetHyperlinkId linkId a = a\<lparr>ta_hyperlinkId := linkId\<rparr>"

definition SetCharacterAttributes :: "WORD \<Rightarrow> TextAttribute \<Rightarrow> TextAttribute" where
  "SetCharacterAttributes attrs a = a\<lparr>ta_attrs := attrs\<rparr>"

definition SetMarkAttributes :: "MarkKind \<Rightarrow> TextAttribute \<Rightarrow> TextAttribute" where
  "SetMarkAttributes attrs a = a\<lparr>ta_markKind := attrs\<rparr>"

definition SetLeftVerticalDisplayed :: "bool \<Rightarrow> TextAttribute \<Rightarrow> TextAttribute" where
  "SetLeftVerticalDisplayed = SetFlag CA_LeftGridline"

definition SetRightVerticalDisplayed :: "bool \<Rightarrow> TextAttribute \<Rightarrow> TextAttribute" where
  "SetRightVerticalDisplayed = SetFlag CA_RightGridline"

definition SetIntense :: "bool \<Rightarrow> TextAttribute \<Rightarrow> TextAttribute" where
  "SetIntense = SetFlag CA_Intense"

definition SetFaint :: "bool \<Rightarrow> TextAttribute \<Rightarrow> TextAttribute" where
  "SetFaint = SetFlag CA_Faint"

definition SetItalic :: "bool \<Rightarrow> TextAttribute \<Rightarrow> TextAttribute" where
  "SetItalic = SetFlag CA_Italics"

definition SetBlinking :: "bool \<Rightarrow> TextAttribute \<Rightarrow> TextAttribute" where
  "SetBlinking = SetFlag CA_Blinking"

definition SetInvisible :: "bool \<Rightarrow> TextAttribute \<Rightarrow> TextAttribute" where
  "SetInvisible = SetFlag CA_Invisible"

definition SetCrossedOut :: "bool \<Rightarrow> TextAttribute \<Rightarrow> TextAttribute" where
  "SetCrossedOut = SetFlag CA_CrossedOut"

definition SetOverlined :: "bool \<Rightarrow> TextAttribute \<Rightarrow> TextAttribute" where
  "SetOverlined = SetFlag CA_TopGridline"

definition SetReverseVideo :: "bool \<Rightarrow> TextAttribute \<Rightarrow> TextAttribute" where
  "SetReverseVideo = SetFlag CA_ReverseVideo"

definition SetProtected :: "bool \<Rightarrow> TextAttribute \<Rightarrow> TextAttribute" where
  "SetProtected = SetFlag CA_Protected"

definition Invert :: "TextAttribute \<Rightarrow> TextAttribute" where
  "Invert a = a\<lparr>ta_attrs := WI_ToggleFlag (ta_attrs a) CA_ReverseVideo\<rparr>"

definition SetUnderlineStyle :: "UnderlineStyle \<Rightarrow> TextAttribute \<Rightarrow> TextAttribute" where
  "SetUnderlineStyle style a =
     (let shiftedStyle = push_bit 6 style
      in a\<lparr>ta_attrs := (ta_attrs a AND NOT CA_UnderlineStyle) OR shiftedStyle\<rparr>)"

definition SetDefaultForeground :: "TextAttribute \<Rightarrow> TextAttribute" where
  "SetDefaultForeground a = a\<lparr>ta_foreground := TextColor_default\<rparr>"

definition SetDefaultBackground :: "TextAttribute \<Rightarrow> TextAttribute" where
  "SetDefaultBackground a = a\<lparr>ta_background := TextColor_default\<rparr>"

definition SetDefaultUnderlineColor :: "TextAttribute \<Rightarrow> TextAttribute" where
  "SetDefaultUnderlineColor a = a\<lparr>ta_underlineColor := TextColor_default\<rparr>"

definition SetDefaultRenditionAttributes :: "TextAttribute \<Rightarrow> TextAttribute" where
  "SetDefaultRenditionAttributes a = a\<lparr>ta_attrs := ta_attrs a AND NOT CA_Rendition\<rparr>"

definition SetStandardErase :: "TextAttribute \<Rightarrow> TextAttribute" where
  "SetStandardErase a = a\<lparr>ta_attrs := CA_Normal, ta_hyperlinkId := 0, ta_markKind := MarkNone\<rparr>"

subsection \<open>Parts of an attribute\<close>

text \<open>What a getter and its setter promise each other: a value that is put is read back, putting
  again overwrites, and putting what is there changes nothing.\<close>

locale attribute_part =
  fixes get :: "'a \<Rightarrow> 'v" and put :: "'v \<Rightarrow> 'a \<Rightarrow> 'a" and valid :: "'v \<Rightarrow> bool"
  assumes get_put: "valid v \<Longrightarrow> get (put v a) = v"
    and put_put: "valid u \<Longrightarrow> put v (put u a) = put v a"
    and put_get: "put (get a) a = a"
    and get_valid: "valid (get a)"
begin

text \<open>Copying the part from one attribute to another.\<close>

lemma get_copy: "get (put (get b) a) = get b"
  by (rule get_put [OF get_valid])

lemma copy_copy: "valid v \<Longrightarrow> put (get a) (put v a) = a"
  by (simp add: put_put put_get)

lemma copy_iff: "put (get b) a = a \<longleftrightarrow> get a = get b"
  using get_copy [of b a] put_get [of a] by auto

end

lemma single_flag:
  assumes "n < 16"
  shows "WI_IsFlagSet a (push_bit n 1) \<longleftrightarrow> bit a n"
    and "bit (WI_UpdateFlag a (push_bit n 1) b) m \<longleftrightarrow> (if m = n then b else bit a m)"
proof -
  have f: "bit (push_bit n (1 :: WORD)) m \<longleftrightarrow> m = n" for m
    using assms by (auto simp: bit_simps)
  show "WI_IsFlagSet a (push_bit n 1) \<longleftrightarrow> bit a n"
    unfolding WI_IsFlagSet_def bit_eq_iff [of _ "0 :: WORD"] bit_and_iff f
    using assms by (auto dest: bit_imp_le_length)
  show "bit (WI_UpdateFlag a (push_bit n 1) b) m \<longleftrightarrow> (if m = n then b else bit a m)"
    using assms by (auto simp: WI_UpdateFlag_def bit_simps dest: bit_imp_le_length)
qed

lemma flag_part:
  assumes "n < 16" and "flag = push_bit n 1"
  shows "attribute_part (\<lambda>a. WI_IsFlagSet (ta_attrs a) flag) (SetFlag flag) (\<lambda>_. True)"
proof -
  note flag = single_flag [OF assms(1), folded assms(2)]
  have "WI_UpdateFlag (WI_UpdateFlag w flag u) flag v = WI_UpdateFlag w flag v" for w u v
    by (rule bit_word_eqI) (simp add: flag)
  moreover have "WI_UpdateFlag w flag (WI_IsFlagSet w flag) = w" for w
    by (rule bit_word_eqI) (simp add: flag)
  ultimately show ?thesis
    by unfold_locales (simp_all add: SetFlag_def flag)
qed

text \<open>The same fact for the pairs of the class, each flag being one bit.\<close>

lemmas flag_defs =
  IsIntense_def IsFaint_def IsItalic_def IsBlinking_def IsInvisible_def IsCrossedOut_def IsOverlined_def
  IsReverseVideo_def IsProtected_def IsLeftVerticalDisplayed_def IsRightVerticalDisplayed_def
  SetIntense_def SetFaint_def SetItalic_def SetBlinking_def SetInvisible_def SetCrossedOut_def
  SetOverlined_def SetReverseVideo_def SetProtected_def SetLeftVerticalDisplayed_def
  SetRightVerticalDisplayed_def

interpretation intense: attribute_part IsIntense SetIntense "\<lambda>_. True"
  using flag_part [of 0 CA_Intense] by (simp add: flag_defs [abs_def] attr_flags)

interpretation faint: attribute_part IsFaint SetFaint "\<lambda>_. True"
  using flag_part [of 5 CA_Faint] by (simp add: flag_defs [abs_def] attr_flags)

interpretation italic: attribute_part IsItalic SetItalic "\<lambda>_. True"
  using flag_part [of 1 CA_Italics] by (simp add: flag_defs [abs_def] attr_flags)

interpretation blinking: attribute_part IsBlinking SetBlinking "\<lambda>_. True"
  using flag_part [of 2 CA_Blinking] by (simp add: flag_defs [abs_def] attr_flags)

interpretation invisible: attribute_part IsInvisible SetInvisible "\<lambda>_. True"
  using flag_part [of 3 CA_Invisible] by (simp add: flag_defs [abs_def] attr_flags)

interpretation crossed_out: attribute_part IsCrossedOut SetCrossedOut "\<lambda>_. True"
  using flag_part [of 4 CA_CrossedOut] by (simp add: flag_defs [abs_def] attr_flags)

interpretation overlined: attribute_part IsOverlined SetOverlined "\<lambda>_. True"
  using flag_part [of 10 CA_TopGridline] by (simp add: flag_defs [abs_def] attr_flags)

interpretation reverse_video: attribute_part IsReverseVideo SetReverseVideo "\<lambda>_. True"
  using flag_part [of 14 CA_ReverseVideo] by (simp add: flag_defs [abs_def] attr_flags)

interpretation protected: attribute_part IsProtected SetProtected "\<lambda>_. True"
  using flag_part [of 13 CA_Protected] by (simp add: flag_defs [abs_def] attr_flags)

interpretation left_vertical: attribute_part IsLeftVerticalDisplayed SetLeftVerticalDisplayed "\<lambda>_. True"
  using flag_part [of 11 CA_LeftGridline] by (simp add: flag_defs [abs_def] attr_flags)

interpretation right_vertical: attribute_part IsRightVerticalDisplayed SetRightVerticalDisplayed "\<lambda>_. True"
  using flag_part [of 12 CA_RightGridline] by (simp add: flag_defs [abs_def] attr_flags)

lemma flag_positions:
  "CA_Intense = push_bit 0 1" "CA_Italics = push_bit 1 1" "CA_Blinking = push_bit 2 1"
  "CA_Invisible = push_bit 3 1" "CA_CrossedOut = push_bit 4 1" "CA_Faint = push_bit 5 1"
  "CA_TopGridline = push_bit 10 1" "CA_LeftGridline = push_bit 11 1" "CA_RightGridline = push_bit 12 1"
  "CA_Protected = push_bit 13 1" "CA_ReverseVideo = push_bit 14 1"
  by (simp_all add: attr_flags)

lemma bit_SetFlag:
  "n < 16 \<Longrightarrow> bit (ta_attrs (SetFlag (push_bit n 1) v a)) m \<longleftrightarrow> (if m = n then v else bit (ta_attrs a) m)"
  using single_flag(2) [of n "ta_attrs a" v m] by (simp add: SetFlag_def)

text \<open>The flags as bits.\<close>

lemma flag_bits:
  "IsIntense a \<longleftrightarrow> bit (ta_attrs a) 0" "IsItalic a \<longleftrightarrow> bit (ta_attrs a) 1" "IsBlinking a \<longleftrightarrow> bit (ta_attrs a) 2"
  "IsInvisible a \<longleftrightarrow> bit (ta_attrs a) 3" "IsCrossedOut a \<longleftrightarrow> bit (ta_attrs a) 4" "IsFaint a \<longleftrightarrow> bit (ta_attrs a) 5"
  "IsOverlined a \<longleftrightarrow> bit (ta_attrs a) 10" "IsProtected a \<longleftrightarrow> bit (ta_attrs a) 13"
  "IsReverseVideo a \<longleftrightarrow> bit (ta_attrs a) 14"
  unfolding flag_defs flag_positions by (rule single_flag, simp)+

lemma flag_set_bits:
  "bit (ta_attrs (SetIntense v a)) m \<longleftrightarrow> (if m = 0 then v else bit (ta_attrs a) m)"
  "bit (ta_attrs (SetItalic v a)) m \<longleftrightarrow> (if m = 1 then v else bit (ta_attrs a) m)"
  "bit (ta_attrs (SetBlinking v a)) m \<longleftrightarrow> (if m = 2 then v else bit (ta_attrs a) m)"
  "bit (ta_attrs (SetInvisible v a)) m \<longleftrightarrow> (if m = 3 then v else bit (ta_attrs a) m)"
  "bit (ta_attrs (SetCrossedOut v a)) m \<longleftrightarrow> (if m = 4 then v else bit (ta_attrs a) m)"
  "bit (ta_attrs (SetFaint v a)) m \<longleftrightarrow> (if m = 5 then v else bit (ta_attrs a) m)"
  "bit (ta_attrs (SetOverlined v a)) m \<longleftrightarrow> (if m = 10 then v else bit (ta_attrs a) m)"
  "bit (ta_attrs (SetProtected v a)) m \<longleftrightarrow> (if m = 13 then v else bit (ta_attrs a) m)"
  "bit (ta_attrs (SetReverseVideo v a)) m \<longleftrightarrow> (if m = 14 then v else bit (ta_attrs a) m)"
  unfolding flag_defs flag_positions by (rule bit_SetFlag, simp)+

text \<open>The setters of the flags leave the other members.\<close>

lemma SetFlag_fields [simp]:
  "ta_foreground (SetFlag f v a) = ta_foreground a" "ta_background (SetFlag f v a) = ta_background a"
  "ta_underlineColor (SetFlag f v a) = ta_underlineColor a" "ta_hyperlinkId (SetFlag f v a) = ta_hyperlinkId a"
  "ta_markKind (SetFlag f v a) = ta_markKind a"
  by (simp_all add: SetFlag_def)

lemma SetUnderlineStyle_fields [simp]:
  "ta_foreground (SetUnderlineStyle v a) = ta_foreground a" "ta_background (SetUnderlineStyle v a) = ta_background a"
  "ta_underlineColor (SetUnderlineStyle v a) = ta_underlineColor a"
  "ta_hyperlinkId (SetUnderlineStyle v a) = ta_hyperlinkId a" "ta_markKind (SetUnderlineStyle v a) = ta_markKind a"
  by (simp_all add: SetUnderlineStyle_def Let_def)

text \<open>A style of three bits is read back; a larger one would spill over into other flags.\<close>

lemma style_bits: "bit CA_UnderlineStyle n \<longleftrightarrow> 6 \<le> n \<and> n < 9"
proof -
  have "CA_UnderlineStyle = push_bit 6 (mask 3)"
    by (simp add: attr_flags mask_eq_exp_minus_1)
  then have "bit CA_UnderlineStyle n = bit (push_bit 6 (mask 3 :: WORD)) n" by (rule arg_cong)
  then show ?thesis by (auto simp: bit_push_bit_iff bit_mask_iff)
qed

lemma style_valid: "(v :: UnderlineStyle) < 8 \<longleftrightarrow> take_bit 3 v = v"
  by (simp add: word_less_nat_alt word_unat_eq_iff [of "take_bit 3 v"] unsigned_take_bit_eq
      take_bit_nat_eq_self_iff)

lemma bit_style: "(v :: UnderlineStyle) < 8 \<Longrightarrow> bit v n \<Longrightarrow> n < 3"
  by (metis style_valid bit_take_bit_iff)

lemma bit_GetUnderlineStyle: "bit (GetUnderlineStyle a) n \<longleftrightarrow> n < 3 \<and> bit (ta_attrs a) (6 + n)"
  by (auto simp: GetUnderlineStyle_def bit_drop_bit_eq bit_and_iff style_bits)

lemma bit_SetUnderlineStyle:
  assumes "v < 8"
  shows "bit (ta_attrs (SetUnderlineStyle v a)) n \<longleftrightarrow> (if 6 \<le> n \<and> n < 9 then bit v (n - 6) else bit (ta_attrs a) n)"
  using bit_style [OF assms, of "n - 6"]
  by (auto simp: SetUnderlineStyle_def Let_def bit_or_iff bit_and_iff bit_not_iff bit_push_bit_iff style_bits
      dest: bit_imp_le_length)

lemma SetUnderlineStyle_attrs: "SetUnderlineStyle v a = a\<lparr>ta_attrs := ta_attrs (SetUnderlineStyle v a)\<rparr>"
  by (simp add: SetUnderlineStyle_def Let_def)

interpretation underline_style: attribute_part GetUnderlineStyle SetUnderlineStyle "\<lambda>v. v < 8"
proof unfold_locales
  fix v u :: UnderlineStyle and a
  show valid: "GetUnderlineStyle a < 8"
    unfolding style_valid by (rule bit_word_eqI) (auto simp: bit_take_bit_iff bit_GetUnderlineStyle)
  show "GetUnderlineStyle (SetUnderlineStyle v a) = v" if "v < 8"
    by (rule bit_word_eqI) (auto simp: bit_GetUnderlineStyle bit_SetUnderlineStyle [OF that] dest: bit_style [OF that])
  show "SetUnderlineStyle v (SetUnderlineStyle u a) = SetUnderlineStyle v a" if "u < 8"
  proof -
    have "ta_attrs (SetUnderlineStyle u a) AND NOT CA_UnderlineStyle = ta_attrs a AND NOT CA_UnderlineStyle"
      by (rule bit_word_eqI) (auto simp: bit_and_iff bit_not_iff style_bits bit_SetUnderlineStyle [OF that])
    then show ?thesis
      by (simp add: SetUnderlineStyle_def Let_def)
  qed
  have "ta_attrs (SetUnderlineStyle (GetUnderlineStyle a) a) = ta_attrs a"
    by (rule bit_word_eqI) (auto simp: bit_SetUnderlineStyle [OF valid] bit_GetUnderlineStyle)
  then show "SetUnderlineStyle (GetUnderlineStyle a) a = a"
    by (subst SetUnderlineStyle_attrs) simp
qed

interpretation foreground: attribute_part ta_foreground SetForeground "\<lambda>_. True"
  by unfold_locales (simp_all add: SetForeground_def)

interpretation background: attribute_part ta_background SetBackground "\<lambda>_. True"
  by unfold_locales (simp_all add: SetBackground_def)

interpretation underline_color: attribute_part ta_underlineColor SetUnderlineColor "\<lambda>_. True"
  by unfold_locales (simp_all add: SetUnderlineColor_def)

subsection \<open>Legacy attributes\<close>

text \<open>What holds of the static members between calls.\<close>

definition map_ok :: "TextColor list \<Rightarrow> byte \<Rightarrow> byte \<Rightarrow> bool" where
  "map_ok m legacyDefault ansiDefault \<longleftrightarrow>
     length m = 16 \<and> legacyDefault < 16 \<and> ansiDefault = TransposeLegacyIndex legacyDefault \<and>
     (\<forall>i < 16. m ! i = (if i = unat legacyDefault then TextColor_default
                        else TextColor_index (TransposeLegacyIndex (of_nat i)) True))"

definition defaults_ok :: "LegacyDefaults \<Rightarrow> bool" where
  "defaults_ok d \<longleftrightarrow>
     map_ok (legacyForegroundColorMap d) (legacyDefaultForeground d) (ansiDefaultForeground d) \<and>
     map_ok (legacyBackgroundColorMap d) (legacyDefaultBackground d) (ansiDefaultBackground d)"

lemma map_ok_init: "k < 16 \<Longrightarrow> map_ok (initLegacyColorMap k) k (TransposeLegacyIndex k)"
  by (simp add: map_ok_def initLegacyColorMap_def Let_def)

lemma map_ok_update:
  assumes "map_ok m l a" and "l' < 16"
  shows "map_ok ((m[unat l := TextColor_index a True])[unat l' := TextColor_default]) l' (TransposeLegacyIndex l')"
  using assms by (auto simp: map_ok_def nth_list_update word_less_nat_alt)

lemma map_ok_index:
  assumes "map_ok m l a" and "i < 16"
  shows "GetLegacyIndex l (m ! unat i) = i"
proof -
  from assms(2) have "unat i < 16" by (simp add: word_less_nat_alt)
  with assms show ?thesis
    by (auto simp: map_ok_def GetLegacyIndex_def TextColor_default_def TextColor_index_def tc_IsDefault_def
        tc_IsIndex16_def tc_IsIndex256_def table_Transpose word_unat_eq_iff)
qed

text \<open>The two colour indices of a legacy attribute.\<close>

lemma fg_nibble: "w AND FG_ATTRS = take_bit 4 w"
  by (simp add: attr_flags take_bit_eq_mask mask_eq_exp_minus_1)

lemma bg_nibble: "drop_bit 4 (w AND BG_ATTRS) = take_bit 4 (drop_bit 4 w)"
  by (simp add: attr_flags take_bit_eq_mask mask_eq_exp_minus_1)

lemma nibble_bound: "(ucast (take_bit 4 (w :: WORD)) :: byte) < 16"
  using take_bit_nat_less_exp [of 4 "unat w"]
  by (simp add: word_less_nat_alt unsigned_ucast_eq unsigned_take_bit_eq)

lemma unat_nibble: "unat (take_bit 4 (w :: WORD)) = unat (ucast (take_bit 4 w) :: byte)"
  by (simp add: unsigned_ucast_eq unsigned_take_bit_eq)

lemma nibbles_combine:
  "ucast (ucast (take_bit 4 w) :: byte) OR push_bit 4 (ucast (ucast (take_bit 4 (drop_bit 4 w)) :: byte)) =
   (w :: WORD) AND (FG_ATTRS OR BG_ATTRS)"
proof -
  have m: "FG_ATTRS OR BG_ATTRS = mask 8"
    by (simp add: attr_flags mask_eq_exp_minus_1)
  show ?thesis
    unfolding m by (rule bit_word_eqI) (auto simp: bit_simps)
qed

lemma defaults_init: "defaults_ok LegacyDefaults_init"
  using map_ok_init [of 7] map_ok_init [of 0]
  by (simp add: defaults_ok_def LegacyDefaults_init_def TransposeLegacyIndex_def)

lemma defaults_set: "defaults_ok d \<Longrightarrow> defaults_ok (SetLegacyDefaultAttributes w d)"
  unfolding defaults_ok_def SetLegacyDefaultAttributes_def Let_def fg_nibble bg_nibble
  by (simp add: map_ok_update nibble_bound)

text \<open>Every setting of the defaults that calls can produce.\<close>

lemma defaults_reachable: "defaults_ok (fold SetLegacyDefaultAttributes ws LegacyDefaults_init)"
proof -
  have fold: "defaults_ok d \<Longrightarrow> defaults_ok (fold SetLegacyDefaultAttributes ws d)" for d
    by (induction ws arbitrary: d) (simp_all add: defaults_set)
  show ?thesis by (rule fold [OF defaults_init])
qed

lemma legacy_round_trip:
  assumes "defaults_ok d"
  shows "GetLegacyAttributes d (TextAttribute_legacy d w) = w AND (FG_ATTRS OR BG_ATTRS OR USED_META_ATTRS)"
proof -
  from assms have maps:
    "map_ok (legacyForegroundColorMap d) (legacyDefaultForeground d) (ansiDefaultForeground d)"
    "map_ok (legacyBackgroundColorMap d) (legacyDefaultBackground d) (ansiDefaultBackground d)"
    by (simp_all add: defaults_ok_def)
  have fg: "GetLegacyIndex (legacyDefaultForeground d) (ta_foreground (TextAttribute_legacy d w)) =
      ucast (take_bit 4 w)"
    using map_ok_index [OF maps(1) nibble_bound, of w]
    by (simp add: TextAttribute_legacy_def fg_nibble unat_nibble del: drop_bit_and)
  have bg: "GetLegacyIndex (legacyDefaultBackground d) (ta_background (TextAttribute_legacy d w)) =
      ucast (take_bit 4 (drop_bit 4 w))"
    using map_ok_index [OF maps(2) nibble_bound, of "drop_bit 4 w"]
    by (simp add: TextAttribute_legacy_def bg_nibble unat_nibble del: drop_bit_and)
  have meta: "ta_attrs (TextAttribute_legacy d w) AND USED_META_ATTRS = w AND USED_META_ATTRS"
    by (simp add: TextAttribute_legacy_def and.assoc)
  have "\<not> IsIntense (TextAttribute_legacy d w)"
    by (simp add: IsIntense_def WI_IsFlagSet_def TextAttribute_legacy_def and.assoc attr_flags)
  then show ?thesis
    unfolding GetLegacyAttributes_def Let_def fg bg meta
    by (simp add: nibbles_combine [unfolded or.assoc] bit.conj_disj_distrib or.assoc [symmetric])
qed

lemma GetLegacyAttributes_fits:
  assumes "defaults_ok d"
  shows "GetLegacyAttributes d a AND (FG_ATTRS OR BG_ATTRS OR USED_META_ATTRS) = GetLegacyAttributes d a"
    (is "_ AND ?all = _")
proof -
  have sub: "x AND m = x \<Longrightarrow> m AND ?all = m \<Longrightarrow> x AND ?all = x" for x m
    by (metis and.assoc)
  have all: "FG_ATTRS AND ?all = FG_ATTRS" "BG_ATTRS AND ?all = BG_ATTRS" "USED_META_ATTRS AND ?all = USED_META_ATTRS"
    "FOREGROUND_INTENSITY AND ?all = FOREGROUND_INTENSITY"
    by (simp_all add: attr_flags)
  have small: "ucast i AND FG_ATTRS = ucast i \<and> push_bit 4 (ucast i) AND BG_ATTRS = push_bit 4 (ucast i)"
    if "i < 16" for i :: byte
    using nibble_cases [OF that] by (auto simp: attr_flags)
  have fg: "ucast (GetLegacyIndex (legacyDefaultForeground d) c) AND ?all = ucast (GetLegacyIndex (legacyDefaultForeground d) c)" for c
    using assms by (intro sub [OF conjunct1 [OF small] all(1)] GetLegacyIndex_bound) (simp add: defaults_ok_def map_ok_def)
  have bg: "push_bit 4 (ucast (GetLegacyIndex (legacyDefaultBackground d) c)) AND ?all =
      push_bit 4 (ucast (GetLegacyIndex (legacyDefaultBackground d) c))" for c
    using assms by (intro sub [OF conjunct2 [OF small] all(2)] GetLegacyIndex_bound) (simp add: defaults_ok_def map_ok_def)
  have meta: "(ta_attrs a AND USED_META_ATTRS) AND ?all = ta_attrs a AND USED_META_ATTRS"
    by (simp only: and.assoc all(3))
  show ?thesis
    unfolding GetLegacyAttributes_def Let_def by (simp only: bit.conj_disj_distrib2 fg bg meta) (simp add: all(4))
qed

text \<open>C16: The legacy console attributes survive the translation: whatever default colours the calls
  of \<^verbatim>\<open>SetLegacyDefaultAttributes\<close> have chosen, making a \<^verbatim>\<open>TextAttribute\<close> from a legacy attribute word
  and reading it back gives its colours and its line and reverse flags unchanged (the other bits are
  dropped), and what is read from any attribute is stable under a further round trip.\<close>

theorem legacy_attributes_survive:
  "let d = fold SetLegacyDefaultAttributes ws LegacyDefaults_init
   in GetLegacyAttributes d (TextAttribute_legacy d w) = w AND 0xDCFF \<and>
      GetLegacyAttributes d (TextAttribute_legacy d (GetLegacyAttributes d a)) = GetLegacyAttributes d a"
proof -
  have all: "FG_ATTRS OR BG_ATTRS OR USED_META_ATTRS = 0xDCFF"
    by (simp add: attr_flags)
  show ?thesis
    using legacy_round_trip [OF defaults_reachable [of ws]] GetLegacyAttributes_fits [OF defaults_reachable [of ws], of a]
    by (simp add: Let_def all)
qed

end
