(* ===== verification/SgrStack.thy ===== *)
theory SgrStack
  imports TextAttribute DispatchTypes
begin

text \<open>
  The stack of saved renditions, \<^verbatim>\<open>src/src/types/sgrStack.cpp\<close> with \<^verbatim>\<open>src/src/types/inc/sgrStack.hpp\<close> and the
  option set of \<^verbatim>\<open>src/src/inc/til/enumset.h\<close>: a ring of ten slots. The contract of a bounded stack is
  the locale \<open>bounded_stack\<close>; the ring refines a list cut to its ten newest elements.
\<close>

subsection \<open>Sets of options\<close>

text \<open>\<^verbatim>\<open>til::enumset\<close>: position n is bit n of a word.\<close>

definition enumset_set :: "nat \<Rightarrow> u64 \<Rightarrow> u64" where
  "enumset_set pos s = s OR push_bit pos 1"

definition enumset_test :: "u64 \<Rightarrow> nat \<Rightarrow> bool" where
  "enumset_test s pos \<longleftrightarrow> s AND push_bit pos 1 \<noteq> 0"

text \<open>\<^verbatim>\<open>SgrSaveRestoreStackOptions\<close>: any value between \<^verbatim>\<open>All\<close> and \<^verbatim>\<open>Max\<close> may be in a set, the
  named ones are read back.\<close>

named_theorems sgr_options \<open>the values of the save and restore options\<close>

definition Opt_All :: nat where
  [sgr_options]: "Opt_All = 0"

definition Opt_Intense :: nat where
  [sgr_options]: "Opt_Intense = 1"

definition Opt_Faintness :: nat where
  [sgr_options]: "Opt_Faintness = 2"

definition Opt_Italics :: nat where
  [sgr_options]: "Opt_Italics = 3"

definition Opt_Underline :: nat where
  [sgr_options]: "Opt_Underline = 4"

definition Opt_Blink :: nat where
  [sgr_options]: "Opt_Blink = 5"

definition Opt_Negative :: nat where
  [sgr_options]: "Opt_Negative = 7"

definition Opt_Invisible :: nat where
  [sgr_options]: "Opt_Invisible = 8"

definition Opt_CrossedOut :: nat where
  [sgr_options]: "Opt_CrossedOut = 9"

definition Opt_DoublyUnderlined :: nat where
  [sgr_options]: "Opt_DoublyUnderlined = 21"

definition Opt_SaveForegroundColor :: nat where
  [sgr_options]: "Opt_SaveForegroundColor = 30"

definition Opt_SaveBackgroundColor :: nat where
  [sgr_options]: "Opt_SaveBackgroundColor = 31"

definition Opt_Max :: nat where
  [sgr_options]: "Opt_Max = 31"

subsection \<open>The stack\<close>

definition c_MaxStoredSgrPushes :: nat where
  "c_MaxStoredSgrPushes = 10"

record SavedSgrAttributes =
  saved_attributes :: TextAttribute
  saved_parts :: u64

record SgrStack =
  nextPushIndex :: nat
  numSavedAttrs :: nat
  storedSgrAttributes :: "SavedSgrAttributes list"

definition SgrStack_init :: SgrStack where
  "SgrStack_init =
     \<lparr>nextPushIndex = 0, numSavedAttrs = 0,
      storedSgrAttributes =
        replicate c_MaxStoredSgrPushes \<lparr>saved_attributes = TextAttribute_default, saved_parts = 0\<rparr>\<rparr>"

text \<open>The parts that an option list asks to save.\<close>

fun add_parts :: "VTParameter list \<Rightarrow> u64 \<Rightarrow> u64" where
  "add_parts [] parts = parts"
| "add_parts (p # ps) parts =
     (let option = value_or p 0
      in add_parts ps (if int Opt_All < option \<and> option \<le> int Opt_Max then enumset_set (nat option) parts
                       else parts))"

definition valid_parts :: "VTParameters \<Rightarrow> u64" where
  "valid_parts options =
     (if params_empty options then enumset_set Opt_All 0 else add_parts (vt_params options) 0)"

text \<open>The ring: a slot outside the array makes \<^verbatim>\<open>at\<close> throw in a \<^verbatim>\<open>noexcept\<close> function.\<close>

definition ring_push :: "SavedSgrAttributes \<Rightarrow> SgrStack \<Rightarrow> SgrStack option" where
  "ring_push x s =
     (let size = length (storedSgrAttributes s);
          s = (if numSavedAttrs s < size then s\<lparr>numSavedAttrs := numSavedAttrs s + 1\<rparr> else s)
      in if nextPushIndex s < size
         then Some (s\<lparr>storedSgrAttributes := (storedSgrAttributes s)[nextPushIndex s := x],
                      nextPushIndex := (nextPushIndex s + 1) mod size\<rparr>)
         else None)"

definition ring_pop :: "SgrStack \<Rightarrow> (SavedSgrAttributes option \<times> SgrStack) option" where
  "ring_pop s =
     (if 0 < numSavedAttrs s
      then (let s = s\<lparr>numSavedAttrs := numSavedAttrs s - 1\<rparr>;
                s = (if nextPushIndex s = 0 then s\<lparr>nextPushIndex := length (storedSgrAttributes s) - 1\<rparr>
                     else s\<lparr>nextPushIndex := nextPushIndex s - 1\<rparr>)
            in if nextPushIndex s < length (storedSgrAttributes s)
               then Some (Some (storedSgrAttributes s ! nextPushIndex s), s)
               else None)
      else Some (None, s))"

definition Push :: "TextAttribute \<Rightarrow> VTParameters \<Rightarrow> SgrStack \<Rightarrow> SgrStack option" where
  "Push currentAttributes options s =
     ring_push \<lparr>saved_attributes = currentAttributes, saved_parts = valid_parts options\<rparr> s"

definition combine_underline :: "TextAttribute \<Rightarrow> u64 \<Rightarrow> TextAttribute \<Rightarrow> TextAttribute" where
  "combine_underline savedAttribute validParts result =
     (let isUnderlinedValid = enumset_test validParts Opt_Underline;
          isDoublyUnderlinedValid = enumset_test validParts Opt_DoublyUnderlined
      in if isUnderlinedValid \<and> isDoublyUnderlinedValid
         then SetUnderlineStyle (GetUnderlineStyle savedAttribute) result
         else if isUnderlinedValid
         then (let savedUl = GetUnderlineStyle savedAttribute
               in if savedUl \<noteq> NoUnderline \<and> savedUl \<noteq> DoublyUnderlined
                  then SetUnderlineStyle savedUl result
                  else if GetUnderlineStyle result \<noteq> DoublyUnderlined
                  then SetUnderlineStyle NoUnderline result
                  else result)
         else if isDoublyUnderlinedValid
         then (if GetUnderlineStyle savedAttribute = DoublyUnderlined
               then SetUnderlineStyle DoublyUnderlined result
               else if GetUnderlineStyle result = DoublyUnderlined
               then SetUnderlineStyle NoUnderline result
               else result)
         else result)"

definition combine_parts :: "TextAttribute \<Rightarrow> TextAttribute \<Rightarrow> u64 \<Rightarrow> TextAttribute" where
  "combine_parts currentAttributes savedAttribute validParts =
     (let copy = (\<lambda>opt f result. if enumset_test validParts opt then f result else result);
          result = currentAttributes;
          result = copy Opt_Intense (SetIntense (IsIntense savedAttribute)) result;
          result = copy Opt_Faintness (SetFaint (IsFaint savedAttribute)) result;
          result = copy Opt_Italics (SetItalic (IsItalic savedAttribute)) result;
          result = combine_underline savedAttribute validParts result;
          result = copy Opt_Blink (SetBlinking (IsBlinking savedAttribute)) result;
          result = copy Opt_Negative (SetReverseVideo (IsReverseVideo savedAttribute)) result;
          result = copy Opt_Invisible (SetInvisible (IsInvisible savedAttribute)) result;
          result = copy Opt_CrossedOut (SetCrossedOut (IsCrossedOut savedAttribute)) result;
          result = copy Opt_SaveForegroundColor (SetForeground (ta_foreground savedAttribute)) result;
          result = copy Opt_SaveBackgroundColor (SetBackground (ta_background savedAttribute)) result
      in result)"

text \<open>The check at the start fails fast.\<close>

definition CombineWithCurrentAttributes ::
    "TextAttribute \<Rightarrow> TextAttribute \<Rightarrow> u64 \<Rightarrow> TextAttribute option" where
  "CombineWithCurrentAttributes currentAttributes savedAttribute validParts =
     (if enumset_test validParts Opt_All then None
      else Some (combine_parts currentAttributes savedAttribute validParts))"

text \<open>What a saved entry makes of the current attributes.\<close>

definition restore_saved :: "SavedSgrAttributes \<Rightarrow> TextAttribute \<Rightarrow> TextAttribute option" where
  "restore_saved restoreMe currentAttributes =
     (if enumset_test (saved_parts restoreMe) Opt_All then Some (saved_attributes restoreMe)
      else CombineWithCurrentAttributes currentAttributes (saved_attributes restoreMe) (saved_parts restoreMe))"

definition Pop :: "TextAttribute \<Rightarrow> SgrStack \<Rightarrow> (TextAttribute \<times> SgrStack) option" where
  "Pop currentAttributes s =
     do {
       (restoreMe, s) \<leftarrow> ring_pop s;
       (case restoreMe of
          None \<Rightarrow> Some (currentAttributes, s)
        | Some saved \<Rightarrow> map_option (\<lambda>a. (a, s)) (restore_saved saved currentAttributes))
     }"

subsection \<open>A bounded stack\<close>

text \<open>The contract: the state stands for a list, newest first; a push on a full stack drops the
  oldest element, a pop of an empty stack finds nothing; neither fails.\<close>

locale bounded_stack =
  fixes contents :: "'s \<Rightarrow> 'a list" and ok :: "'s \<Rightarrow> bool" and init :: 's
    and push :: "'a \<Rightarrow> 's \<Rightarrow> 's option" and pop :: "'s \<Rightarrow> ('a option \<times> 's) option" and cap :: nat
  assumes init_ok: "ok init" and init_contents: "contents init = []"
    and push_law: "ok s \<Longrightarrow> \<exists>s'. push x s = Some s' \<and> ok s' \<and> contents s' = take cap (x # contents s)"
    and pop_empty: "ok s \<Longrightarrow> contents s = [] \<Longrightarrow> pop s = Some (None, s)"
    and pop_law: "ok s \<Longrightarrow> contents s = x # xs \<Longrightarrow> \<exists>s'. pop s = Some (Some x, s') \<and> ok s' \<and> contents s' = xs"
    and bounded: "ok s \<Longrightarrow> length (contents s) \<le> cap"
begin

lemma push_then_pop:
  assumes "ok s" and "0 < cap"
  shows "\<exists>s' s''. push x s = Some s' \<and> pop s' = Some (Some x, s'') \<and> ok s'' \<and>
    contents s'' = take (cap - 1) (contents s)"
proof -
  from push_law [OF assms(1)] obtain s' where s': "push x s = Some s'" "ok s'"
    "contents s' = take cap (x # contents s)" by blast
  with assms(2) have "contents s' = x # take (cap - 1) (contents s)" by (cases cap) auto
  from pop_law [OF s'(2) this] s'(1) show ?thesis by auto
qed

text \<open>However many pushes, the newest ones are there.\<close>

lemma pushes:
  "ok s \<Longrightarrow> \<exists>s'. foldM push xs s = Some s' \<and> ok s' \<and> contents s' = take cap (rev xs @ contents s)"
proof (induction xs arbitrary: s)
  case Nil
  with bounded show ?case by simp
next
  case (Cons x xs)
  from push_law [OF Cons.prems] obtain s1 where s1: "push x s = Some s1" "ok s1"
    "contents s1 = take cap (x # contents s)" by blast
  from Cons.IH [OF s1(2)] obtain s' where "foldM push xs s1 = Some s'" "ok s'"
    "contents s' = take cap (rev xs @ take cap (x # contents s))" by (auto simp: s1(3))
  then show ?case by (auto simp: s1(1) min_def)
qed

end

subsection \<open>The ring is a bounded stack\<close>

definition ring_ok :: "SgrStack \<Rightarrow> bool" where
  "ring_ok s \<longleftrightarrow> length (storedSgrAttributes s) = 10 \<and> numSavedAttrs s \<le> 10 \<and> nextPushIndex s < 10"

definition ring_contents :: "SgrStack \<Rightarrow> SavedSgrAttributes list" where
  "ring_contents s =
     map (\<lambda>i. storedSgrAttributes s ! ((nextPushIndex s + 9 - i) mod 10)) [0..<numSavedAttrs s]"

lemma mod_once: "(m :: nat) < 20 \<Longrightarrow> m mod 10 = (if m < 10 then m else m - 10)"
  by (auto simp: le_mod_geq)

lemma ring_index:
  fixes n i :: nat
  assumes "n < 10"
  shows "((n + 1) mod 10 + 9) mod 10 = n"
    and "i < 9 \<Longrightarrow> ((n + 1) mod 10 + 9 - Suc i) mod 10 = (n + 9 - i) mod 10"
    and "i < 9 \<Longrightarrow> (n + 9 - i) mod 10 \<noteq> n"
    and "i < 9 \<Longrightarrow> ((n + 9) mod 10 + 9 - i) mod 10 = (n + 9 - Suc i) mod 10"
    and "(if n = 0 then 9 else n - 1) = (n + 9) mod 10"
  using assms by (auto simp: mod_once)

lemma ring_init: "ring_ok SgrStack_init" "ring_contents SgrStack_init = []"
  by (simp_all add: ring_ok_def ring_contents_def SgrStack_init_def c_MaxStoredSgrPushes_def)

lemma ring_push_law:
  assumes "ring_ok s"
  shows "\<exists>s'. ring_push x s = Some s' \<and> ring_ok s' \<and> ring_contents s' = take 10 (x # ring_contents s)"
proof -
  let ?n = "nextPushIndex s" and ?k = "numSavedAttrs s"
  let ?s = "\<lparr>nextPushIndex = (?n + 1) mod 10, numSavedAttrs = min 10 (?k + 1),
    storedSgrAttributes = (storedSgrAttributes s)[?n := x]\<rparr>"
  from assms have n: "?n < 10" "?k \<le> 10" "length (storedSgrAttributes s) = 10"
    by (simp_all add: ring_ok_def)
  have push: "ring_push x s = Some ?s"
    using n by (cases s) (auto simp: ring_push_def Let_def)
  have "ring_contents ?s ! i = take 10 (x # ring_contents s) ! i" if i: "i < min 10 (?k + 1)" for i
  proof (cases i)
    case 0
    with n ring_index(1) [OF n(1)] i show ?thesis by (simp add: ring_contents_def del: upt_Suc)
  next
    case (Suc j)
    with i have "j < 9" "j < ?k" by auto
    with Suc n i ring_index(2,3) [OF n(1) \<open>j < 9\<close>] show ?thesis
      by (simp add: ring_contents_def nth_list_update del: upt_Suc)
  qed
  then have "ring_contents ?s = take 10 (x # ring_contents s)"
    by (intro nth_equalityI) (auto simp: ring_contents_def)
  with push n show ?thesis by (auto simp: ring_ok_def)
qed

lemma ring_pop_law:
  assumes "ring_ok s" and "ring_contents s = x # xs"
  shows "\<exists>s'. ring_pop s = Some (Some x, s') \<and> ring_ok s' \<and> ring_contents s' = xs"
proof -
  let ?n = "nextPushIndex s" and ?k = "numSavedAttrs s"
  let ?s = "s\<lparr>nextPushIndex := (?n + 9) mod 10, numSavedAttrs := ?k - 1\<rparr>"
  from assms have n: "?n < 10" "?k \<le> 10" "length (storedSgrAttributes s) = 10"
    by (simp_all add: ring_ok_def)
  from assms(2) have k: "0 < ?k" by (cases "?k = 0") (auto simp: ring_contents_def)
  have hd: "x = storedSgrAttributes s ! ((?n + 9) mod 10)"
    using assms(2) k by (simp add: ring_contents_def upt_conv_Cons)
  have tl: "xs = map (\<lambda>i. storedSgrAttributes s ! ((?n + 9 - Suc i) mod 10)) [0..<?k - 1]"
    using assms(2) k by (cases ?k) (auto simp: ring_contents_def upt_conv_Cons map_Suc_upt [symmetric] simp del: upt_Suc)
  have "ring_contents ?s = xs"
    unfolding tl using n(2) ring_index(4) [OF n(1)] by (auto simp: ring_contents_def intro!: map_cong)
  moreover have "ring_pop s = Some (Some x, ?s)"
    using n k ring_index(5) [OF n(1)] hd by (cases "?n = 0") (auto simp: ring_pop_def Let_def)
  ultimately show ?thesis using n by (auto simp: ring_ok_def)
qed

interpretation sgr: bounded_stack ring_contents ring_ok SgrStack_init ring_push ring_pop 10
proof unfold_locales
  show "ring_ok s \<Longrightarrow> ring_contents s = [] \<Longrightarrow> ring_pop s = Some (None, s)" for s
    by (simp add: ring_contents_def ring_pop_def)
  show "ring_ok s \<Longrightarrow> length (ring_contents s) \<le> 10" for s
    by (simp add: ring_contents_def ring_ok_def)
qed (fact ring_init ring_push_law ring_pop_law)+

subsection \<open>What is saved\<close>

lemma enumset_test_bit: "k < 64 \<Longrightarrow> enumset_test s k \<longleftrightarrow> bit s k"
proof -
  assume "k < 64"
  then have "bit (push_bit k (1 :: u64)) m \<longleftrightarrow> m = k" for m by (auto simp: bit_simps)
  with \<open>k < 64\<close> show ?thesis
    unfolding enumset_test_def bit_eq_iff [of _ "0 :: u64"] bit_and_iff by (auto dest: bit_imp_le_length)
qed

lemma bit_enumset_set: "k < 64 \<Longrightarrow> bit (enumset_set k s) m \<longleftrightarrow> m = k \<or> bit s m"
  by (auto simp: enumset_set_def bit_simps)

text \<open>The options that a parameter list names.\<close>

definition asked :: "VTParameters \<Rightarrow> nat \<Rightarrow> bool" where
  "asked options n \<longleftrightarrow> (\<exists>p \<in> set (vt_params options). value_or p 0 = int n)"

lemma bit_add_parts:
  "bit (add_parts ps parts) m \<longleftrightarrow> bit parts m \<or> 0 < m \<and> m \<le> 31 \<and> (\<exists>p \<in> set ps. value_or p 0 = int m)"
proof (induction ps arbitrary: parts)
  case (Cons p ps)
  let ?o = "value_or p 0"
  have "bit (if 0 < ?o \<and> ?o \<le> 31 then enumset_set (nat ?o) parts else parts) m \<longleftrightarrow>
      bit parts m \<or> 0 < m \<and> m \<le> 31 \<and> ?o = int m"
    by (auto simp: bit_enumset_set)
  then show ?case by (auto simp: Cons.IH sgr_options Let_def)
qed simp

lemma valid_parts_all: "vt_params options = [] \<Longrightarrow> enumset_test (valid_parts options) Opt_All"
  by (simp add: valid_parts_def params_empty_def enumset_test_bit bit_enumset_set sgr_options)

lemma valid_parts_some:
  assumes "vt_params options \<noteq> []"
  shows "\<not> enumset_test (valid_parts options) Opt_All"
    and "0 < n \<Longrightarrow> n \<le> 31 \<Longrightarrow> enumset_test (valid_parts options) n \<longleftrightarrow> asked options n"
  using assms
  by (simp_all add: valid_parts_def params_empty_def enumset_test_bit bit_add_parts sgr_options asked_def)

subsection \<open>What is restored\<close>

text \<open>The colour setters and the underline style, bit by bit.\<close>

lemma color_set_bits [simp]:
  "ta_attrs (SetForeground c a) = ta_attrs a" "ta_attrs (SetBackground c a) = ta_attrs a"
  by (simp_all add: SetForeground_def SetBackground_def)

lemma combine_underline_bits:
  assumes "n \<notin> {6, 7, 8}"
  shows "bit (ta_attrs (combine_underline s v a)) n \<longleftrightarrow> bit (ta_attrs a) n"
proof -
  have "NoUnderline < 8" "DoublyUnderlined < 8" by (simp_all add: attr_flags)
  with assms underline_style.get_valid show ?thesis
    by (simp add: combine_underline_def Let_def bit_SetUnderlineStyle) auto
qed

lemma combine_underline_fields [simp]:
  "ta_foreground (combine_underline s v a) = ta_foreground a"
  "ta_background (combine_underline s v a) = ta_background a"
  "ta_underlineColor (combine_underline s v a) = ta_underlineColor a"
  "ta_hyperlinkId (combine_underline s v a) = ta_hyperlinkId a"
  "ta_markKind (combine_underline s v a) = ta_markKind a"
  by (simp_all add: combine_underline_def Let_def)

lemma combine_flags:
  "IsIntense (combine_parts c a v) = IsIntense (if enumset_test v Opt_Intense then a else c)"
  "IsFaint (combine_parts c a v) = IsFaint (if enumset_test v Opt_Faintness then a else c)"
  "IsItalic (combine_parts c a v) = IsItalic (if enumset_test v Opt_Italics then a else c)"
  "IsBlinking (combine_parts c a v) = IsBlinking (if enumset_test v Opt_Blink then a else c)"
  "IsReverseVideo (combine_parts c a v) = IsReverseVideo (if enumset_test v Opt_Negative then a else c)"
  "IsInvisible (combine_parts c a v) = IsInvisible (if enumset_test v Opt_Invisible then a else c)"
  "IsCrossedOut (combine_parts c a v) = IsCrossedOut (if enumset_test v Opt_CrossedOut then a else c)"
  "IsOverlined (combine_parts c a v) = IsOverlined c"
  "IsProtected (combine_parts c a v) = IsProtected c"
  by (simp_all add: combine_parts_def Let_def flag_bits flag_set_bits combine_underline_bits
      if_distrib [of "\<lambda>x. bit (ta_attrs x) _"] cong: if_cong)

lemma combine_members:
  "ta_foreground (combine_parts c a v) = ta_foreground (if enumset_test v Opt_SaveForegroundColor then a else c)"
  "ta_background (combine_parts c a v) = ta_background (if enumset_test v Opt_SaveBackgroundColor then a else c)"
  "ta_underlineColor (combine_parts c a v) = ta_underlineColor c"
  "ta_hyperlinkId (combine_parts c a v) = ta_hyperlinkId c"
  "ta_markKind (combine_parts c a v) = ta_markKind c"
  by (simp_all add: combine_parts_def Let_def flag_defs SetForeground_def SetBackground_def)

lemma style_of_bits:
  "(\<And>n. 6 \<le> n \<Longrightarrow> n < 9 \<Longrightarrow> bit (ta_attrs b) n = bit (ta_attrs a) n) \<Longrightarrow>
   GetUnderlineStyle b = GetUnderlineStyle a"
  by (rule bit_word_eqI) (auto simp: bit_GetUnderlineStyle)

lemma style_flags:
  "GetUnderlineStyle (SetIntense v a) = GetUnderlineStyle a" "GetUnderlineStyle (SetFaint v a) = GetUnderlineStyle a"
  "GetUnderlineStyle (SetItalic v a) = GetUnderlineStyle a" "GetUnderlineStyle (SetBlinking v a) = GetUnderlineStyle a"
  "GetUnderlineStyle (SetReverseVideo v a) = GetUnderlineStyle a"
  "GetUnderlineStyle (SetInvisible v a) = GetUnderlineStyle a"
  "GetUnderlineStyle (SetCrossedOut v a) = GetUnderlineStyle a"
  "GetUnderlineStyle (SetOverlined v a) = GetUnderlineStyle a"
  "GetUnderlineStyle (SetForeground c a) = GetUnderlineStyle a"
  "GetUnderlineStyle (SetBackground c a) = GetUnderlineStyle a"
  by (rule style_of_bits, simp add: flag_set_bits)+

text \<open>The style as two flags, doubly underlined and underlined in another way.\<close>

definition combined_style :: "UnderlineStyle \<Rightarrow> UnderlineStyle \<Rightarrow> bool \<Rightarrow> bool \<Rightarrow> UnderlineStyle" where
  "combined_style current saved underline doubly =
     (if underline \<and> doubly then saved
      else if underline
      then (if saved \<noteq> 0 \<and> saved \<noteq> 2 then saved else if current \<noteq> 2 then 0 else 2)
      else if doubly
      then (if saved = 2 then 2 else if current = 2 then 0 else current)
      else current)"

lemma combine_style:
  "GetUnderlineStyle (combine_parts c a v) =
   combined_style (GetUnderlineStyle c) (GetUnderlineStyle a) (enumset_test v Opt_Underline)
     (enumset_test v Opt_DoublyUnderlined)"
proof -
  have "GetUnderlineStyle (combine_underline a v r) =
      combined_style (GetUnderlineStyle r) (GetUnderlineStyle a) (enumset_test v Opt_Underline)
        (enumset_test v Opt_DoublyUnderlined)" for r
    by (simp add: combine_underline_def combined_style_def Let_def underline_style.get_copy
        underline_style.get_put attr_flags)
  then show ?thesis
    by (simp add: combine_parts_def Let_def style_flags if_distrib [of GetUnderlineStyle] cong: if_cong)
qed

text \<open>Putting back what has not changed changes nothing.\<close>

lemma combine_same: "combine_parts a a v = a"
proof -
  have "combine_underline a v a = a"
    using underline_style.put_get [of a] by (auto simp: combine_underline_def Let_def)
  then show ?thesis
    by (simp add: combine_parts_def Let_def intense.put_get faint.put_get italic.put_get blinking.put_get
        reverse_video.put_get invisible.put_get crossed_out.put_get foreground.put_get background.put_get)
qed

lemma push_pop:
  assumes "ring_ok s"
  shows "\<exists>s' s''. Push a options s = Some s' \<and>
    Pop c s' = Some (if vt_params options = [] then a else combine_parts c a (valid_parts options), s'') \<and>
    ring_ok s'' \<and> ring_contents s'' = take 9 (ring_contents s)"
proof -
  let ?x = "\<lparr>saved_attributes = a, saved_parts = valid_parts options\<rparr>"
  from sgr.push_then_pop [OF assms, of ?x] obtain s' s'' where
    "ring_push ?x s = Some s'" "ring_pop s' = Some (Some ?x, s'')" "ring_ok s''"
    "ring_contents s'' = take 9 (ring_contents s)" by auto
  then show ?thesis
    by (cases "vt_params options = []")
      (auto simp: Push_def Pop_def restore_saved_def CombineWithCurrentAttributes_def valid_parts_all valid_parts_some)
qed

text \<open>Restoring saved attributes. Saving with no options and restoring gives the saved attributes,
  whatever has been set since. Saving with options restores exactly the parts asked for (the
  underline style as two flags, options 4 and 21) and leaves every other part as it is now, so
  restoring over unchanged attributes changes nothing. Neither operation fails.\<close>

theorem push_pop_restores:
  assumes "ring_ok s"
  shows "\<exists>s' s'' r. Push a options s = Some s' \<and> Pop c s' = Some (r, s'') \<and>
    ring_contents s'' = take 9 (ring_contents s) \<and>
    (if vt_params options = [] then r = a
     else (let from = \<lambda>n. if asked options n then a else c
           in (IsIntense r, IsFaint r, IsItalic r) = (IsIntense (from 1), IsFaint (from 2), IsItalic (from 3)) \<and>
              (IsBlinking r, IsReverseVideo r) = (IsBlinking (from 5), IsReverseVideo (from 7)) \<and>
              (IsInvisible r, IsCrossedOut r) = (IsInvisible (from 8), IsCrossedOut (from 9)) \<and>
              (ta_foreground r, ta_background r) = (ta_foreground (from 30), ta_background (from 31)) \<and>
              GetUnderlineStyle r = combined_style (GetUnderlineStyle c) (GetUnderlineStyle a)
                (asked options 4) (asked options 21) \<and>
              (IsOverlined r, IsProtected r, ta_underlineColor r) = (IsOverlined c, IsProtected c, ta_underlineColor c) \<and>
              (ta_hyperlinkId r, ta_markKind r) = (ta_hyperlinkId c, ta_markKind c))) \<and>
    (a = c \<longrightarrow> r = c)"
proof -
  let ?r = "if vt_params options = [] then a else combine_parts c a (valid_parts options)"
  from push_pop [OF assms, of a options c] obtain s' s'' where
    "Push a options s = Some s'" "Pop c s' = Some (?r, s'')" "ring_contents s'' = take 9 (ring_contents s)"
    by blast
  then show ?thesis
    by (intro exI [of _ s'] exI [of _ s''] exI [of _ ?r])
      (auto simp: combine_flags combine_members combine_style combine_same valid_parts_some sgr_options Let_def)
qed

theorem push_pop_restores_witness:
  "\<exists>s' s'' r. Push (SetItalic True (SetIntense True TextAttribute_default)) (params_only [VTParam 1, VTParam 30]) SgrStack_init = Some s' \<and>
     Pop (SetForeground (TextColor_index 4 True) TextAttribute_default) s' = Some (r, s'') \<and>
     IsIntense r \<and> \<not> IsItalic r \<and> ta_foreground r = TextColor_default"
proof -
  let ?a = "SetItalic True (SetIntense True TextAttribute_default)"
  let ?c = "SetForeground (TextColor_index 4 True) TextAttribute_default"
  let ?o = "params_only [VTParam 1, VTParam 30]"
  have "asked ?o 1" "asked ?o 30" "\<not> asked ?o 3" "vt_params ?o \<noteq> []"
    by (simp_all add: asked_def params_only_def value_or_def)
  moreover have "IsIntense ?a" "\<not> IsItalic ?c"
    by (simp_all add: flag_bits flag_set_bits TextAttribute_default_def attr_flags)
  moreover have "ta_foreground ?a = TextColor_default"
    by (simp add: flag_defs TextAttribute_default_def)
  ultimately show ?thesis
    using push_pop_restores [OF ring_init(1), of ?a ?o ?c] by (auto simp: Let_def)
qed

subsection \<open>Refinement\<close>

text \<open>Any sequence of the two operations, with the attributes that the restores give back.\<close>

datatype SgrOp = OpPush TextAttribute VTParameters | OpPop TextAttribute

fun sgr_run :: "SgrOp list \<Rightarrow> SgrStack \<Rightarrow> (TextAttribute list \<times> SgrStack) option" where
  "sgr_run [] s = Some ([], s)"
| "sgr_run (OpPush a options # ops) s = Push a options s \<bind> sgr_run ops"
| "sgr_run (OpPop c # ops) s =
     do { (r, s) \<leftarrow> Pop c s; (rs, s) \<leftarrow> sgr_run ops s; Some (r # rs, s) }"

text \<open>The specification: a list of saved attributes, newest first, of which only the ten newest are
  kept.\<close>

fun spec_restore :: "TextAttribute \<times> VTParameters \<Rightarrow> TextAttribute \<Rightarrow> TextAttribute" where
  "spec_restore (a, options) c =
     (if vt_params options = [] then a else combine_parts c a (valid_parts options))"

fun spec_run :: "SgrOp list \<Rightarrow> (TextAttribute \<times> VTParameters) list \<Rightarrow> TextAttribute list" where
  "spec_run [] st = []"
| "spec_run (OpPush a options # ops) st = spec_run ops (take 10 ((a, options) # st))"
| "spec_run (OpPop c # ops) [] = c # spec_run ops []"
| "spec_run (OpPop c # ops) (x # st) = spec_restore x c # spec_run ops st"

definition saved_entry :: "TextAttribute \<times> VTParameters \<Rightarrow> SavedSgrAttributes" where
  "saved_entry x = \<lparr>saved_attributes = fst x, saved_parts = valid_parts (snd x)\<rparr>"

lemma restore_saved_entry: "restore_saved (saved_entry x) c = Some (spec_restore x c)"
  by (cases x; cases "vt_params (snd x) = []")
    (simp_all add: restore_saved_def CombineWithCurrentAttributes_def saved_entry_def valid_parts_all valid_parts_some)

lemma sgr_run_refines:
  "ring_ok s \<Longrightarrow> ring_contents s = map saved_entry st \<Longrightarrow>
   \<exists>s'. sgr_run ops s = Some (spec_run ops st, s') \<and> ring_ok s'"
proof (induction ops st arbitrary: s rule: spec_run.induct)
  case (2 a options ops st)
  from sgr.push_law [OF 2(2), of "saved_entry (a, options)"] obtain s1 where
    "Push a options s = Some s1" "ring_ok s1" "ring_contents s1 = map saved_entry (take 10 ((a, options) # st))"
    by (auto simp: Push_def saved_entry_def 2(3) take_map)
  with 2(1) [of s1] show ?case by auto
next
  case (3 c ops)
  from sgr.pop_empty [OF 3(2)] 3(3) have "Pop c s = Some (c, s)" by (simp add: Pop_def)
  with 3(1) [OF 3(2,3)] show ?case by auto
next
  case (4 c ops x st)
  from sgr.pop_law [OF 4(2)] 4(3) obtain s1 where
    "ring_pop s = Some (Some (saved_entry x), s1)" "ring_ok s1" "ring_contents s1 = map saved_entry st" by auto
  moreover from this have "Pop c s = Some (spec_restore x c, s1)" by (simp add: Pop_def restore_saved_entry)
  ultimately show ?case using 4(1) [of s1] by auto
qed simp

text \<open>C14: The ring of ten slots with its two counters implements a stack that forgets its oldest
  entry when an eleventh is saved: every sequence of saves and restores, from a fresh stack, completes
  and gives back the same attributes as the list specification, with restores of an empty stack
  giving the current attributes.\<close>

theorem sgr_stack_refines:
  "map_option fst (sgr_run ops SgrStack_init) = Some (spec_run ops [])"
  using sgr_run_refines [OF ring_init(1), of "[]" ops] by (auto simp: ring_init(2))

end
