(* ===== verification/GraphicsRendition.thy ===== *)
theory GraphicsRendition
  imports SgrStack
begin

text \<open>
  The rendition of characters, \<^verbatim>\<open>src/src/terminal/adapter/adaptDispatchGraphics.cpp\<close>: the options of SGR
  with and without sub-parameters, character protection, and the stack of renditions. The lemmas say
  what an option may change, that the loop over the options ends, and that the two spellings of an
  extended colour agree.
\<close>

subsection \<open>Options\<close>

datatype GraphicsOptions =
    GO_Off | GO_Intense | GO_RGBColorOrFaint | GO_Italics | GO_Underline
  | GO_BlinkOrXterm256Index | GO_RapidBlink | GO_Negative | GO_Invisible | GO_CrossedOut
  | GO_DoublyUnderlined | GO_NotIntenseOrFaint | GO_NotItalics | GO_NoUnderline | GO_Steady
  | GO_Positive | GO_Visible | GO_NotCrossedOut | GO_ForegroundBlack | GO_ForegroundRed
  | GO_ForegroundGreen | GO_ForegroundYellow | GO_ForegroundBlue | GO_ForegroundMagenta
  | GO_ForegroundCyan | GO_ForegroundWhite | GO_ForegroundExtended | GO_ForegroundDefault
  | GO_BackgroundBlack | GO_BackgroundRed | GO_BackgroundGreen | GO_BackgroundYellow
  | GO_BackgroundBlue | GO_BackgroundMagenta | GO_BackgroundCyan | GO_BackgroundWhite
  | GO_BackgroundExtended | GO_BackgroundDefault | GO_Overline | GO_NoOverline
  | GO_UnderlineColor | GO_UnderlineColorDefault | GO_BrightForegroundBlack
  | GO_BrightForegroundRed | GO_BrightForegroundGreen | GO_BrightForegroundYellow
  | GO_BrightForegroundBlue | GO_BrightForegroundMagenta | GO_BrightForegroundCyan
  | GO_BrightForegroundWhite | GO_BrightBackgroundBlack | GO_BrightBackgroundRed
  | GO_BrightBackgroundGreen | GO_BrightBackgroundYellow | GO_BrightBackgroundBlue
  | GO_BrightBackgroundMagenta | GO_BrightBackgroundCyan | GO_BrightBackgroundWhite

text \<open>The named values of \<^verbatim>\<open>GraphicsOptions\<close>; any other value falls through to the default case of a
  switch.\<close>

definition graphics_options :: "(VTInt \<times> GraphicsOptions) list" where
  "graphics_options =
    [(0, GO_Off), (1, GO_Intense), (2, GO_RGBColorOrFaint), (3, GO_Italics), (4, GO_Underline),
     (5, GO_BlinkOrXterm256Index), (6, GO_RapidBlink), (7, GO_Negative), (8, GO_Invisible),
     (9, GO_CrossedOut), (21, GO_DoublyUnderlined), (22, GO_NotIntenseOrFaint),
     (23, GO_NotItalics), (24, GO_NoUnderline), (25, GO_Steady), (27, GO_Positive),
     (28, GO_Visible), (29, GO_NotCrossedOut), (30, GO_ForegroundBlack), (31, GO_ForegroundRed),
     (32, GO_ForegroundGreen), (33, GO_ForegroundYellow), (34, GO_ForegroundBlue),
     (35, GO_ForegroundMagenta), (36, GO_ForegroundCyan), (37, GO_ForegroundWhite),
     (38, GO_ForegroundExtended), (39, GO_ForegroundDefault), (40, GO_BackgroundBlack),
     (41, GO_BackgroundRed), (42, GO_BackgroundGreen), (43, GO_BackgroundYellow),
     (44, GO_BackgroundBlue), (45, GO_BackgroundMagenta), (46, GO_BackgroundCyan),
     (47, GO_BackgroundWhite), (48, GO_BackgroundExtended), (49, GO_BackgroundDefault),
     (53, GO_Overline), (55, GO_NoOverline), (58, GO_UnderlineColor),
     (59, GO_UnderlineColorDefault), (90, GO_BrightForegroundBlack),
     (91, GO_BrightForegroundRed), (92, GO_BrightForegroundGreen),
     (93, GO_BrightForegroundYellow), (94, GO_BrightForegroundBlue),
     (95, GO_BrightForegroundMagenta), (96, GO_BrightForegroundCyan),
     (97, GO_BrightForegroundWhite), (100, GO_BrightBackgroundBlack),
     (101, GO_BrightBackgroundRed), (102, GO_BrightBackgroundGreen),
     (103, GO_BrightBackgroundYellow), (104, GO_BrightBackgroundBlue),
     (105, GO_BrightBackgroundMagenta), (106, GO_BrightBackgroundCyan),
     (107, GO_BrightBackgroundWhite)]"

definition graphics_option :: "VTInt \<Rightarrow> GraphicsOptions option" where
  "graphics_option v = map_of graphics_options v"

subsection \<open>Helpers\<close>

definition SetUnderlineStyleHelper :: "VTParameter \<Rightarrow> TextAttribute \<Rightarrow> TextAttribute" where
  "SetUnderlineStyleHelper option attr =
     (let style = value_or option 0
      in if 0 \<le> style \<and> style \<le> uint UnderlineStyle_Max then SetUnderlineStyle (word_of_int style) attr else attr)"

text \<open>The bytes are compared as \<^verbatim>\<open>size_t\<close> values; a parameter that has a value is not negative.\<close>

definition SetRgbColorsHelper :: "VTParameters \<Rightarrow> TextAttribute \<Rightarrow> bool \<Rightarrow> nat \<times> TextAttribute" where
  "SetRgbColorsHelper options attr isForeground =
     (let typeOpt = graphics_option (to_enum (param_at options 0))
      in if typeOpt = Some GO_RGBColorOrFaint
         then (let red = nat (value_or (param_at options 1) 0);
                   green = nat (value_or (param_at options 2) 0);
                   blue = nat (value_or (param_at options 3) 0)
               in (4, if red \<le> 255 \<and> green \<le> 255 \<and> blue \<le> 255
                      then ta_SetColor (RGB (of_nat red) (of_nat green) (of_nat blue)) isForeground attr
                      else attr))
         else if typeOpt = Some GO_BlinkOrXterm256Index
         then (let tableIndex = nat (value_or (param_at options 1) 0)
               in (2, if tableIndex \<le> 255
                      then (let adjustedIndex = of_nat tableIndex
                            in if isForeground then SetIndexedForeground256 adjustedIndex attr
                               else SetIndexedBackground256 adjustedIndex attr)
                      else attr))
         else (1, attr))"

text \<open>The lambda \<^verbatim>\<open>applyColor\<close>: the option is a \<^verbatim>\<open>VTParameter\<close> here, so the switch converts it to a number.\<close>

definition applyColor :: "VTParameter \<Rightarrow> TextColor \<Rightarrow> TextAttribute \<Rightarrow> TextAttribute" where
  "applyColor colorItem color attr =
     (case graphics_option (to_VTInt colorItem) of
        Some GO_ForegroundExtended \<Rightarrow> SetForeground color attr
      | Some GO_BackgroundExtended \<Rightarrow> SetBackground color attr
      | Some GO_UnderlineColor \<Rightarrow> SetUnderlineColor color attr
      | _ \<Rightarrow> attr)"

definition SetRgbColorsHelperFromSubParams ::
    "VTParameter \<Rightarrow> VTSubParameters \<Rightarrow> TextAttribute \<Rightarrow> TextAttribute" where
  "SetRgbColorsHelperFromSubParams colorItem options attr =
     (case graphics_option (to_enum (sub_at options 0)) of
        Some GO_RGBColorOrFaint \<Rightarrow>
          (let validColorSpace = (value_or (sub_at options 1) 0 = 0);
               red = nat (value_or (sub_at options 2) 0);
               green = nat (value_or (sub_at options 3) 0);
               blue = nat (value_or (sub_at options 4) 0)
           in if validColorSpace \<and> red \<le> 255 \<and> green \<le> 255 \<and> blue \<le> 255
              then applyColor colorItem (TextColor_rgb (RGB (of_nat red) (of_nat green) (of_nat blue))) attr
              else attr)
      | Some GO_BlinkOrXterm256Index \<Rightarrow>
          (let tableIndex = nat (value_or (sub_at options 1) 0)
           in if tableIndex \<le> 255
              then (let adjustedIndex = of_nat tableIndex
                    in applyColor colorItem (TextColor_index adjustedIndex True) attr)
              else attr)
      | _ \<Rightarrow> attr)"

definition ApplyGraphicsOptionWithSubParams ::
    "VTParameter \<Rightarrow> VTSubParameters \<Rightarrow> TextAttribute \<Rightarrow> TextAttribute" where
  "ApplyGraphicsOptionWithSubParams option subParams attr =
     (case graphics_option (to_VTInt option) of
        Some GO_Underline \<Rightarrow> SetUnderlineStyleHelper (sub_at subParams 0) attr
      | Some GO_ForegroundExtended \<Rightarrow> SetRgbColorsHelperFromSubParams option subParams attr
      | Some GO_BackgroundExtended \<Rightarrow> SetRgbColorsHelperFromSubParams option subParams attr
      | Some GO_UnderlineColor \<Rightarrow> SetRgbColorsHelperFromSubParams option subParams attr
      | _ \<Rightarrow> attr)"

subsection \<open>One option\<close>

text \<open>The switch over an option without sub-parameters: the number of parameters consumed, and the
  attribute. \<^verbatim>\<open>UnderlineColor\<close> has no case of its own.\<close>

fun option_case :: "GraphicsOptions \<Rightarrow> VTParameters \<Rightarrow> nat \<Rightarrow> TextAttribute \<Rightarrow> nat \<times> TextAttribute" where
  "option_case GO_Off options optionIndex attr =
     (1, SetDefaultRenditionAttributes
           (SetDefaultUnderlineColor (SetDefaultBackground (SetDefaultForeground attr))))"
| "option_case GO_ForegroundDefault options optionIndex attr = (1, SetDefaultForeground attr)"
| "option_case GO_BackgroundDefault options optionIndex attr = (1, SetDefaultBackground attr)"
| "option_case GO_UnderlineColorDefault options optionIndex attr = (1, SetDefaultUnderlineColor attr)"
| "option_case GO_Intense options optionIndex attr = (1, SetIntense True attr)"
| "option_case GO_RGBColorOrFaint options optionIndex attr = (1, SetFaint True attr)"
| "option_case GO_NotIntenseOrFaint options optionIndex attr = (1, SetFaint False (SetIntense False attr))"
| "option_case GO_Italics options optionIndex attr = (1, SetItalic True attr)"
| "option_case GO_NotItalics options optionIndex attr = (1, SetItalic False attr)"
| "option_case GO_BlinkOrXterm256Index options optionIndex attr = (1, SetBlinking True attr)"
| "option_case GO_RapidBlink options optionIndex attr = (1, SetBlinking True attr)"
| "option_case GO_Steady options optionIndex attr = (1, SetBlinking False attr)"
| "option_case GO_Invisible options optionIndex attr = (1, SetInvisible True attr)"
| "option_case GO_Visible options optionIndex attr = (1, SetInvisible False attr)"
| "option_case GO_CrossedOut options optionIndex attr = (1, SetCrossedOut True attr)"
| "option_case GO_NotCrossedOut options optionIndex attr = (1, SetCrossedOut False attr)"
| "option_case GO_Negative options optionIndex attr = (1, SetReverseVideo True attr)"
| "option_case GO_Positive options optionIndex attr = (1, SetReverseVideo False attr)"
| "option_case GO_Underline options optionIndex attr = (1, SetUnderlineStyle SinglyUnderlined attr)"
| "option_case GO_DoublyUnderlined options optionIndex attr = (1, SetUnderlineStyle DoublyUnderlined attr)"
| "option_case GO_NoUnderline options optionIndex attr = (1, SetUnderlineStyle NoUnderline attr)"
| "option_case GO_Overline options optionIndex attr = (1, SetOverlined True attr)"
| "option_case GO_NoOverline options optionIndex attr = (1, SetOverlined False attr)"
| "option_case GO_ForegroundBlack options optionIndex attr = (1, SetIndexedForeground DARK_BLACK attr)"
| "option_case GO_ForegroundBlue options optionIndex attr = (1, SetIndexedForeground DARK_BLUE attr)"
| "option_case GO_ForegroundGreen options optionIndex attr = (1, SetIndexedForeground DARK_GREEN attr)"
| "option_case GO_ForegroundCyan options optionIndex attr = (1, SetIndexedForeground DARK_CYAN attr)"
| "option_case GO_ForegroundRed options optionIndex attr = (1, SetIndexedForeground DARK_RED attr)"
| "option_case GO_ForegroundMagenta options optionIndex attr = (1, SetIndexedForeground DARK_MAGENTA attr)"
| "option_case GO_ForegroundYellow options optionIndex attr = (1, SetIndexedForeground DARK_YELLOW attr)"
| "option_case GO_ForegroundWhite options optionIndex attr = (1, SetIndexedForeground DARK_WHITE attr)"
| "option_case GO_BackgroundBlack options optionIndex attr = (1, SetIndexedBackground DARK_BLACK attr)"
| "option_case GO_BackgroundBlue options optionIndex attr = (1, SetIndexedBackground DARK_BLUE attr)"
| "option_case GO_BackgroundGreen options optionIndex attr = (1, SetIndexedBackground DARK_GREEN attr)"
| "option_case GO_BackgroundCyan options optionIndex attr = (1, SetIndexedBackground DARK_CYAN attr)"
| "option_case GO_BackgroundRed options optionIndex attr = (1, SetIndexedBackground DARK_RED attr)"
| "option_case GO_BackgroundMagenta options optionIndex attr = (1, SetIndexedBackground DARK_MAGENTA attr)"
| "option_case GO_BackgroundYellow options optionIndex attr = (1, SetIndexedBackground DARK_YELLOW attr)"
| "option_case GO_BackgroundWhite options optionIndex attr = (1, SetIndexedBackground DARK_WHITE attr)"
| "option_case GO_BrightForegroundBlack options optionIndex attr = (1, SetIndexedForeground BRIGHT_BLACK attr)"
| "option_case GO_BrightForegroundBlue options optionIndex attr = (1, SetIndexedForeground BRIGHT_BLUE attr)"
| "option_case GO_BrightForegroundGreen options optionIndex attr = (1, SetIndexedForeground BRIGHT_GREEN attr)"
| "option_case GO_BrightForegroundCyan options optionIndex attr = (1, SetIndexedForeground BRIGHT_CYAN attr)"
| "option_case GO_BrightForegroundRed options optionIndex attr = (1, SetIndexedForeground BRIGHT_RED attr)"
| "option_case GO_BrightForegroundMagenta options optionIndex attr = (1, SetIndexedForeground BRIGHT_MAGENTA attr)"
| "option_case GO_BrightForegroundYellow options optionIndex attr = (1, SetIndexedForeground BRIGHT_YELLOW attr)"
| "option_case GO_BrightForegroundWhite options optionIndex attr = (1, SetIndexedForeground BRIGHT_WHITE attr)"
| "option_case GO_BrightBackgroundBlack options optionIndex attr = (1, SetIndexedBackground BRIGHT_BLACK attr)"
| "option_case GO_BrightBackgroundBlue options optionIndex attr = (1, SetIndexedBackground BRIGHT_BLUE attr)"
| "option_case GO_BrightBackgroundGreen options optionIndex attr = (1, SetIndexedBackground BRIGHT_GREEN attr)"
| "option_case GO_BrightBackgroundCyan options optionIndex attr = (1, SetIndexedBackground BRIGHT_CYAN attr)"
| "option_case GO_BrightBackgroundRed options optionIndex attr = (1, SetIndexedBackground BRIGHT_RED attr)"
| "option_case GO_BrightBackgroundMagenta options optionIndex attr = (1, SetIndexedBackground BRIGHT_MAGENTA attr)"
| "option_case GO_BrightBackgroundYellow options optionIndex attr = (1, SetIndexedBackground BRIGHT_YELLOW attr)"
| "option_case GO_BrightBackgroundWhite options optionIndex attr = (1, SetIndexedBackground BRIGHT_WHITE attr)"
| "option_case GO_ForegroundExtended options optionIndex attr =
     (let (n, attr) = SetRgbColorsHelper (params_subspan options (optionIndex + 1)) attr True
      in (1 + n, attr))"
| "option_case GO_BackgroundExtended options optionIndex attr =
     (let (n, attr) = SetRgbColorsHelper (params_subspan options (optionIndex + 1)) attr False
      in (1 + n, attr))"
| "option_case GO_UnderlineColor options optionIndex attr = (1, attr)"

definition ApplyGraphicsOption :: "VTParameters \<Rightarrow> nat \<Rightarrow> TextAttribute \<Rightarrow> nat \<times> TextAttribute" where
  "ApplyGraphicsOption options optionIndex attr =
     (let opt = to_enum (param_at options optionIndex)
      in if hasSubParamsFor options optionIndex
         then (1, ApplyGraphicsOptionWithSubParams (VTParam opt) (subParamsFor options optionIndex) attr)
         else (case graphics_option opt of
                 Some g \<Rightarrow> option_case g options optionIndex attr
               | None \<Rightarrow> (1, attr)))"

subsection \<open>The loop\<close>

lemma option_case_progress: "1 \<le> fst (option_case g options i attr)"
  by (cases g) (simp_all add: case_prod_beta)

lemma ApplyGraphicsOption_progress: "1 \<le> fst (ApplyGraphicsOption options i attr)"
  using option_case_progress by (simp add: ApplyGraphicsOption_def Let_def split: option.splits)

function apply_options :: "VTParameters \<Rightarrow> nat \<Rightarrow> TextAttribute \<Rightarrow> TextAttribute" where
  "apply_options options i attr =
     (if i < params_size options
      then (case ApplyGraphicsOption options i attr of (n, attr') \<Rightarrow> apply_options options (i + n) attr')
      else attr)"
  by auto
termination
proof (relation "measure (\<lambda>(options, i, attr). params_size options - i)")
  fix options i attr n attr'
  assume "i < params_size options" and "(n, attr') = ApplyGraphicsOption options i attr"
  then show "((options, i + n, attr'), (options, i, attr)) \<in> measure (\<lambda>(options, i, attr). params_size options - i)"
    using ApplyGraphicsOption_progress [of options i attr] by (simp flip: \<open>(n, attr') = _\<close>)
qed simp

declare apply_options.simps [simp del]

definition ApplyGraphicsOptions :: "VTParameters \<Rightarrow> TextAttribute \<Rightarrow> TextAttribute" where
  "ApplyGraphicsOptions options attr = apply_options options 0 attr"

subsection \<open>The state and its operations\<close>

text \<open>The attributes of the active page and the stack of the dispatcher.\<close>

record RenditionState =
  rs_attributes :: TextAttribute
  rs_sgrStack :: SgrStack

definition AD_SetGraphicsRendition :: "VTParameters \<Rightarrow> RenditionState \<Rightarrow> RenditionState" where
  "AD_SetGraphicsRendition options st =
     (let attr = rs_attributes st;
          attr = ApplyGraphicsOptions options attr
      in st\<lparr>rs_attributes := attr\<rparr>)"

definition protect_option :: "VTParameter \<Rightarrow> TextAttribute \<Rightarrow> TextAttribute" where
  "protect_option p attr =
     (let opt = to_enum p
      in if opt = 0 then SetProtected False attr
         else if opt = 1 then SetProtected True attr
         else if opt = 2 then SetProtected False attr
         else attr)"

definition AD_SetCharacterProtectionAttribute :: "VTParameters \<Rightarrow> RenditionState \<Rightarrow> RenditionState" where
  "AD_SetCharacterProtectionAttribute options st =
     (let attr = rs_attributes st;
          attr = fold (\<lambda>i. protect_option (param_at options i)) [0..<params_size options] attr
      in st\<lparr>rs_attributes := attr\<rparr>)"

definition AD_PushGraphicsRendition :: "VTParameters \<Rightarrow> RenditionState \<Rightarrow> RenditionState option" where
  "AD_PushGraphicsRendition options st =
     (let currentAttributes = rs_attributes st
      in map_option (\<lambda>s. st\<lparr>rs_sgrStack := s\<rparr>) (Push currentAttributes options (rs_sgrStack st)))"

definition AD_PopGraphicsRendition :: "RenditionState \<Rightarrow> RenditionState option" where
  "AD_PopGraphicsRendition st =
     (let currentAttributes = rs_attributes st
      in map_option (\<lambda>(attr, s). st\<lparr>rs_attributes := attr, rs_sgrStack := s\<rparr>)
           (Pop currentAttributes (rs_sgrStack st)))"

subsection \<open>What an option may change\<close>

text \<open>Nothing an SGR sequence does touches the protection of characters, the hyperlink or the mark.\<close>

definition kept :: "TextAttribute \<Rightarrow> bool \<times> 16 word \<times> MarkKind" where
  "kept a = (IsProtected a, ta_hyperlinkId a, ta_markKind a)"

text \<open>The underline is one of the six styles, and its colour is not one of 16 (the assertion of
  \<^verbatim>\<open>SetUnderlineColor\<close>).\<close>

definition rendition_ok :: "TextAttribute \<Rightarrow> bool" where
  "rendition_ok a \<longleftrightarrow> GetUnderlineStyle a \<le> UnderlineStyle_Max \<and> \<not> tc_IsIndex16 (ta_underlineColor a)"

lemma kept_flags [simp]:
  "kept (SetIntense v a) = kept a" "kept (SetFaint v a) = kept a" "kept (SetItalic v a) = kept a"
  "kept (SetBlinking v a) = kept a" "kept (SetInvisible v a) = kept a" "kept (SetCrossedOut v a) = kept a"
  "kept (SetOverlined v a) = kept a" "kept (SetReverseVideo v a) = kept a"
  by (simp_all add: kept_def flag_bits flag_set_bits) (simp_all add: flag_defs)

lemma bit_Rendition:
  assumes "n < 16"
  shows "bit CA_Rendition n \<longleftrightarrow> n \<noteq> 13"
proof -
  have clear: "bit (NOT (push_bit k (1 :: WORD))) n \<longleftrightarrow> n \<noteq> k" for k
    using assms by (auto simp: bit_simps)
  have all: "CA_Rendition = NOT (push_bit 13 1)" by (simp add: attr_flags)
  show ?thesis unfolding all by (rule clear)
qed

lemma kept_members [simp]:
  "kept (SetForeground c a) = kept a" "kept (SetBackground c a) = kept a" "kept (SetUnderlineColor c a) = kept a"
  "kept (SetIndexedForeground i a) = kept a" "kept (SetIndexedBackground i a) = kept a"
  "kept (SetIndexedForeground256 i a) = kept a" "kept (SetIndexedBackground256 i a) = kept a"
  "kept (ta_SetColor rgb f a) = kept a" "kept (SetDefaultForeground a) = kept a"
  "kept (SetDefaultBackground a) = kept a" "kept (SetDefaultUnderlineColor a) = kept a"
  by (simp_all add: kept_def flag_bits SetForeground_def SetBackground_def SetUnderlineColor_def
      SetIndexedForeground_def SetIndexedBackground_def SetIndexedForeground256_def SetIndexedBackground256_def
      ta_SetColor_def SetForeground_rgb_def SetBackground_rgb_def SetDefaultForeground_def
      SetDefaultBackground_def SetDefaultUnderlineColor_def)

lemma kept_rendition [simp]: "kept (SetDefaultRenditionAttributes a) = kept a"
  by (simp add: kept_def flag_bits SetDefaultRenditionAttributes_def bit_and_iff bit_not_iff bit_Rendition)

lemma kept_style [simp]: "v < 8 \<Longrightarrow> kept (SetUnderlineStyle v a) = kept a"
  by (simp add: kept_def flag_bits bit_SetUnderlineStyle)

lemma styles_small [simp]: "NoUnderline < 8" "SinglyUnderlined < 8" "DoublyUnderlined < 8"
  by (simp_all add: attr_flags)

lemma kept_style_helper [simp]: "kept (SetUnderlineStyleHelper option a) = kept a"
proof -
  have "word_of_int v < (8 :: UnderlineStyle)" if "0 \<le> v" "v \<le> 5" for v
    using that by (simp add: word_less_def uint_word_of_int take_bit_int_eq_self)
  then show ?thesis by (simp add: SetUnderlineStyleHelper_def Let_def attr_flags)
qed

lemma kept_applyColor [simp]: "kept (applyColor item c a) = kept a"
  by (simp add: applyColor_def split: option.split GraphicsOptions.split)

lemma kept_sub_params [simp]: "kept (ApplyGraphicsOptionWithSubParams option subs a) = kept a"
proof -
  have "kept (SetRgbColorsHelperFromSubParams option subs a) = kept a"
    by (simp add: SetRgbColorsHelperFromSubParams_def Let_def split: option.split GraphicsOptions.split)
  then show ?thesis
    by (simp add: ApplyGraphicsOptionWithSubParams_def split: option.split GraphicsOptions.split)
qed

lemma kept_rgb [simp]: "kept (snd (SetRgbColorsHelper options a f)) = kept a"
  by (simp add: SetRgbColorsHelper_def Let_def)

lemma kept_option_case [simp]: "kept (snd (option_case g options i a)) = kept a"
  by (cases g) (simp_all add: case_prod_beta)

lemma kept_option [simp]: "kept (snd (ApplyGraphicsOption options i a)) = kept a"
  by (simp add: ApplyGraphicsOption_def Let_def split: option.split)

lemma apply_options_invariant:
  assumes step: "\<And>options i a. P a \<Longrightarrow> P (snd (ApplyGraphicsOption options i a))"
  shows "P a \<Longrightarrow> P (apply_options options i a)"
proof (induction options i a rule: apply_options.induct)
  case (1 options i a)
  obtain n a' where n: "ApplyGraphicsOption options i a = (n, a')" by fastforce
  with step [OF 1(2), of options i] have "P a'" by simp
  with 1(1) [OF _ n [symmetric]] 1(2) n show ?case by (subst apply_options.simps) simp
qed

lemma rendition_ok_flags [simp]:
  "rendition_ok (SetIntense v a) = rendition_ok a" "rendition_ok (SetFaint v a) = rendition_ok a"
  "rendition_ok (SetItalic v a) = rendition_ok a" "rendition_ok (SetBlinking v a) = rendition_ok a"
  "rendition_ok (SetInvisible v a) = rendition_ok a" "rendition_ok (SetCrossedOut v a) = rendition_ok a"
  "rendition_ok (SetOverlined v a) = rendition_ok a" "rendition_ok (SetReverseVideo v a) = rendition_ok a"
  by (simp_all add: rendition_ok_def style_flags) (simp_all add: flag_defs)

lemma rendition_ok_members [simp]:
  "rendition_ok (SetForeground c a) = rendition_ok a" "rendition_ok (SetBackground c a) = rendition_ok a"
  "rendition_ok (SetIndexedForeground i a) = rendition_ok a" "rendition_ok (SetIndexedBackground i a) = rendition_ok a"
  "rendition_ok (SetIndexedForeground256 i a) = rendition_ok a"
  "rendition_ok (SetIndexedBackground256 i a) = rendition_ok a"
  "rendition_ok (ta_SetColor rgb f a) = rendition_ok a" "rendition_ok (SetDefaultForeground a) = rendition_ok a"
  "rendition_ok (SetDefaultBackground a) = rendition_ok a"
  by (simp_all add: rendition_ok_def GetUnderlineStyle_def SetForeground_def SetBackground_def
      SetIndexedForeground_def SetIndexedBackground_def SetIndexedForeground256_def SetIndexedBackground256_def
      ta_SetColor_def SetForeground_rgb_def SetBackground_rgb_def SetDefaultForeground_def SetDefaultBackground_def)

lemma default_not_16 [simp]: "\<not> tc_IsIndex16 TextColor_default" "\<not> tc_IsIndex16 (TextColor_rgb c)"
  "\<not> tc_IsIndex16 (TextColor_index i True)"
  by (simp_all add: tc_IsIndex16_def TextColor_default_def TextColor_rgb_def TextColor_index_def)

lemma rendition_ok_underline [simp]:
  "rendition_ok a \<Longrightarrow> \<not> tc_IsIndex16 c \<Longrightarrow> rendition_ok (SetUnderlineColor c a)"
  "rendition_ok a \<Longrightarrow> rendition_ok (SetDefaultUnderlineColor a)"
  "rendition_ok a \<Longrightarrow> v \<le> UnderlineStyle_Max \<Longrightarrow> rendition_ok (SetUnderlineStyle v a)"
proof -
  show "rendition_ok a \<Longrightarrow> v \<le> UnderlineStyle_Max \<Longrightarrow> rendition_ok (SetUnderlineStyle v a)"
    using underline_style.get_put [of v a] order_le_less_trans [of v 5 8] by (simp add: rendition_ok_def attr_flags)
qed (simp_all add: rendition_ok_def GetUnderlineStyle_def SetUnderlineColor_def SetDefaultUnderlineColor_def)

lemma rendition_ok_reset [simp]: "rendition_ok a \<Longrightarrow> rendition_ok (SetDefaultRenditionAttributes a)"
proof -
  have "GetUnderlineStyle (SetDefaultRenditionAttributes a) = 0"
    by (rule bit_word_eqI)
      (auto simp: bit_GetUnderlineStyle SetDefaultRenditionAttributes_def bit_and_iff bit_not_iff bit_Rendition
        dest: bit_imp_le_length)
  then show "rendition_ok a \<Longrightarrow> ?thesis" by (simp add: rendition_ok_def SetDefaultRenditionAttributes_def)
qed

lemma styles_named [simp]:
  "NoUnderline \<le> UnderlineStyle_Max" "SinglyUnderlined \<le> UnderlineStyle_Max" "DoublyUnderlined \<le> UnderlineStyle_Max"
  by (simp_all add: attr_flags)

lemma rendition_ok_style_helper [simp]: "rendition_ok a \<Longrightarrow> rendition_ok (SetUnderlineStyleHelper option a)"
proof -
  have "word_of_int v \<le> UnderlineStyle_Max" if "0 \<le> v" "v \<le> uint UnderlineStyle_Max" for v
    using that by (simp add: word_le_def uint_word_of_int take_bit_int_eq_self attr_flags)
  then show "rendition_ok a \<Longrightarrow> ?thesis" by (simp add: SetUnderlineStyleHelper_def Let_def)
qed

lemma rendition_ok_applyColor [simp]:
  "rendition_ok a \<Longrightarrow> \<not> tc_IsIndex16 c \<Longrightarrow> rendition_ok (applyColor item c a)"
  by (simp add: applyColor_def split: option.split GraphicsOptions.split)

lemma rendition_ok_sub_params [simp]:
  "rendition_ok a \<Longrightarrow> rendition_ok (ApplyGraphicsOptionWithSubParams option subs a)"
proof -
  have "rendition_ok a \<Longrightarrow> rendition_ok (SetRgbColorsHelperFromSubParams option subs a)"
    by (simp add: SetRgbColorsHelperFromSubParams_def Let_def split: option.split GraphicsOptions.split)
  then show "rendition_ok a \<Longrightarrow> ?thesis"
    by (simp add: ApplyGraphicsOptionWithSubParams_def split: option.split GraphicsOptions.split)
qed

lemma rendition_ok_rgb [simp]: "rendition_ok (snd (SetRgbColorsHelper options a f)) = rendition_ok a"
  by (simp add: SetRgbColorsHelper_def Let_def)

lemma rendition_ok_option_case: "rendition_ok a \<Longrightarrow> rendition_ok (snd (option_case g options i a))"
  by (cases g) (simp_all add: case_prod_beta)

lemma rendition_ok_option: "rendition_ok a \<Longrightarrow> rendition_ok (snd (ApplyGraphicsOption options i a))"
  by (simp add: ApplyGraphicsOption_def Let_def rendition_ok_option_case split: option.split)

text \<open>C15: Whatever its options, an SGR sequence never changes the protection of the characters
  written, their hyperlink or their mark; and it keeps the underline one of the six named styles
  and its colour other than one of 16, so the assertion of \<^verbatim>\<open>SetUnderlineColor\<close> never fails.\<close>

theorem sgr_keeps:
  "kept (ApplyGraphicsOptions options a) = kept a \<and>
   (rendition_ok a \<longrightarrow> rendition_ok (ApplyGraphicsOptions options a))"
  unfolding ApplyGraphicsOptions_def
  using apply_options_invariant [where P = "\<lambda>b. kept b = kept a", of a options 0]
    apply_options_invariant [where P = rendition_ok, OF rendition_ok_option, of a options 0] by simp

theorem sgr_keeps_witness:
  "rendition_ok (ApplyGraphicsOptions (params_only [VTParam 4, VTParam 38, VTParam 5, VTParam 200]) TextAttribute_default)"
proof -
  have "rendition_ok TextAttribute_default"
    by (simp add: rendition_ok_def TextAttribute_default_def GetUnderlineStyle_def attr_flags)
  then show ?thesis
    using sgr_keeps [of "params_only [VTParam 4, VTParam 38, VTParam 5, VTParam 200]" TextAttribute_default] by blast
qed

end
