(* ===== verification/OutputCalls.thy ===== *)
theory OutputCalls
  imports OutputSequences
begin

text \<open>
  What single sequences make the output engine call: the lookup of identifiers by their text, the
  repetition of a character, the clipboard and the colour table.
\<close>

subsection \<open>Looking up sequences\<close>

lemma csi_calls_VTID:
  "id_key s \<Longrightarrow> csi_calls (VTID s) p c =
     (case map_of CsiActionCodes s of Some f \<Rightarrow> f p c | None \<Rightarrow> [UnknownSequence])"
  using Csi_keys by (simp add: csi_calls_def id_case_VTID keys_ok_def)

lemma collected_shift: "idShift (collected is) = 8 * min 6 (length is)"
proof (induction "is" rule: rev_induct)
  case (snoc w ws)
  then show ?case by (auto simp: AddIntermediate_def min_def)
qed (simp add: VTIDBuilder_Clear_def)

lemma collected_overlong: "length is > 6 \<Longrightarrow> idAccumulator (collected is) = 0"
proof (induction "is" rule: rev_induct)
  case (snoc w ws)
  then have "idShift (collected ws) = 48" by (simp add: collected_shift)
  then show ?case by (simp add: AddIntermediate_def)
qed simp

lemma overlong_low_byte:
  assumes "length is > 6"
  shows "unat (Finalize c (collected is)) mod 256 = 0"
proof -
  have "Finalize c (collected is) = VTID_of_value (push_bit 48 (ucast c))"
    using assms by (simp add: Finalize_def collected_overlong collected_shift)
  moreover have "unat (push_bit 48 (ucast c :: u64)) mod 256 = 0"
    by (subst unsigned_push_bit_eq) (simp add: push_bit_eq_mult take_bit_nat_def mod_mod_cancel)
  ultimately show ?thesis by (simp add: unat_VTID_of_value mod_mod_cancel)
qed

lemma key_low_byte:
  assumes "id_key s" and "s \<noteq> []"
  shows "unat (VTID s) mod 256 \<noteq> 0"
proof -
  obtain c cs where s: "s = c # cs" using assms(2) by (cases s) auto
  with assms(1) have "unat (VTID s) = of_char c + 256 * id_nat (map of_char cs)" "c \<noteq> CHR 0x00"
    by (simp_all add: unat_VTID id_key_def)
  then show ?thesis using of_char_pos [of c] by (simp add: mod_less)
qed

lemma id_case_overlong:
  assumes "list_all id_key (map fst table)" and "[] \<notin> fst ` set table" and "length is > 6"
  shows "id_case table (Finalize c (collected is)) = None"
proof -
  have "Finalize c (collected is) \<noteq> VTID k" if "k \<in> fst ` set table" for k
  proof -
    have "id_key k" using that assms(1) by (auto simp: list_all_iff)
    moreover have "k \<noteq> []" using that assms(2) by metis
    ultimately have "unat (VTID k) mod 256 \<noteq> 0" by (rule key_low_byte)
    with overlong_low_byte [OF assms(3), of c] show ?thesis by auto
  qed
  then have "Finalize c (collected is) \<notin> fst ` set (map (\<lambda>(k, x). (VTID k, x)) table)"
    by (auto simp: image_iff case_prod_beta)
  then show ?thesis unfolding id_case_def by (simp only: map_of_eq_None_iff not_False_eq_True)
qed

subsection \<open>Repeating a character\<close>

definition rep_text :: "nat \<Rightarrow> wstring" where
  "rep_text n = csi_text [] [(VTParam (int n), [])] [] (CHR ''b'')"

lemma rep_calls:
  assumes "1 \<le> n" "n \<le> 65535"
  shows "csi_calls (VTID ''b'') (args_parameters (map clamped_arg [(VTParam (int n), [])])) c =
    (if c \<noteq> NUL then [PrintString (replicate n c)] else [])"
  using assms
  by (simp add: csi_calls_VTID id_key_def csi_code_defs args_parameters_def clamped_arg_def clamped_def
      has_value_def MAX_PARAMETER_VALUE_def num_param_def param_at_def to_VTInt_def)

context stream_terminal
begin

lemma rep_after:
  assumes "sm_ready s" and n: "1 \<le> n" "n \<le> 65535"
    and "sm_engine s = \<lparr>oe_dispatch = d, oe_lastPrintedChar = c\<rparr>"
  shows "engine_after (output_ops env D run) (rep_text n) s
    \<lparr>oe_dispatch = if c = NUL then d else fst (disp_call D (PrintString (replicate n c)) d),
     oe_lastPrintedChar = NUL\<rparr>"
  unfolding rep_text_def
proof (rule csi_after [OF assms(1)])
  let ?p = "args_parameters (map clamped_arg [(VTParam (int n), [])])"
  have "\<not> hasSubParams ?p" by (simp add: hasSubParams_def args_parameters_def clamped_arg_def)
  moreover obtain d' where "disp_call D (PrintString (replicate n c)) d = (d', [], True)"
    using print_returns [of "replicate n c" d] by (metis prod.collapse)
  ultimately show "OutputEngine_ActionCsiDispatch D (VTID ([] @ [] @ ''b'')) ?p (sm_engine s) =
      (\<lparr>oe_dispatch = if c = NUL then d else fst (disp_call D (PrintString (replicate n c)) d),
        oe_lastPrintedChar = NUL\<rparr>, [], Handled)"
    using rep_calls [OF n, of c]
    by (simp add: OutputEngine_ActionCsiDispatch_def assms(4) dispatch_and_clear_def ClearLastChar_def)
qed (simp_all add: marker_ok_def args_fit_def arg_text_def param_text_def has_value_def subs_text_def
    csi_final_def MAX_PARAMETER_COUNT_def)

end

subsection \<open>The clipboard\<close>

lemma alphabet_osc: "list_all osc_char (alphabet url)"
  by (cases url) (simp_all add: alphabet_def osc_char_def char_class)

lemma sextet_alphabet: "sextet url n \<in> set (alphabet url)"
proof -
  have "length (alphabet url) = 64" by (simp add: alphabet_def)
  then show ?thesis unfolding sextet_def using sextet_less [of n] by (intro nth_mem) simp
qed

lemma encode_chars: "w \<in> set (encode url pad bs) \<Longrightarrow> w \<in> set (alphabet url) \<or> w = 0x3D"
  by (induction url pad bs rule: encode.induct) (auto simp: sextet_alphabet split: if_splits)

lemma encode_osc: "list_all osc_char (encode url pad bs)"
proof -
  have "osc_char 0x3D" by (simp add: osc_char_def char_class)
  with alphabet_osc [of url] show ?thesis by (auto simp: list_all_iff dest!: encode_chars)
qed

lemma encode_not_query: "encode url pad bs \<noteq> [0x3F]"
proof
  assume "encode url pad bs = [0x3F]"
  moreover then have "bs \<noteq> []" by auto
  ultimately show False using encode_length [of bs url pad] by simp
qed

lemma decode_clipboard:
  "GetOscSetClipboard env (0x63 # 0x3B # encode url pad bs) =
     map_option ClipboardContent (env_u8u16 env bs)"
  using decode_encode [of url pad bs] encode_not_query [of url pad bs]
  by (simp add: GetOscSetClipboard_def Decode_def)

subsection \<open>Colours\<close>

lemma color_not_inquiry: "color_COLORREF c \<noteq> COLOR_INQUIRY_COLOR"
proof -
  obtain r g b where c: "c = (r, g, b)" by (cases c)
  have "\<not> bit (color_COLORREF c) 25" unfolding c by (simp add: color_COLORREF_def bit_simps)
  moreover have "bit COLOR_INQUIRY_COLOR 25" by (simp add: COLOR_INQUIRY_COLOR_def)
  ultimately show ?thesis by metis
qed

subsection \<open>A machine that has printed a character\<close>

definition typed_machine :: "(wstring output_engine, unit, unit) sm" where
  "typed_machine = start_machine\<lparr>sm_engine := \<lparr>oe_dispatch = [0x41], oe_lastPrintedChar = 0x41\<rparr>\<rparr>"

lemma typed_ready: "sm_ready typed_machine"
  using start_ready by (simp add: typed_machine_def sm_ready_def GetParserMode_def)

lemma run_calls_transcript:
  "run_calls transcript [PrintString str] d = (d @ str, [], True)"
  by (simp add: transcript_def TermDispatch_def TermDispatch_call_def)

end
