(* ===== verification/RenditionSequences.thy ===== *)
theory RenditionSequences
  imports GraphicsRendition OutputCalls
begin

text \<open>
  Renditions from the text of a sequence to the attributes of the page: a terminal that keeps its
  attributes as \<open>GraphicsRendition\<close> says, behind the parser and the output engine. The lemmas say
  what a reset forgets, that the two spellings of an extended colour agree, and that a pair of save
  and restore sequences undoes what is in between.
\<close>

subsection \<open>A terminal with renditions\<close>

text \<open>The four methods of \<^verbatim>\<open>AdaptDispatch\<close> on a terminal that does everything else in some way \<open>D\<close>.
  The stack never fails on a state that calls can reach.\<close>

definition rendition_call ::
    "('d, 'h, 'c) dispatch_ops \<Rightarrow> dispatch_call \<Rightarrow> 'd \<times> RenditionState \<Rightarrow>
     ('d \<times> RenditionState) \<times> 'c sm_request list \<times> bool" where
  "rendition_call D x ds =
     (let (d, st) = ds;
          finish = (\<lambda>r. case r of Some st' \<Rightarrow> ((d, st'), [], True) | None \<Rightarrow> ((d, st), [], False))
      in case x of
           Render (SetGraphicsRendition p) \<Rightarrow> ((d, AD_SetGraphicsRendition p st), [], True)
         | Render (SetCharacterProtectionAttribute p) \<Rightarrow> ((d, AD_SetCharacterProtectionAttribute p st), [], True)
         | Render (PushGraphicsRendition p) \<Rightarrow> finish (AD_PushGraphicsRendition p st)
         | Render PopGraphicsRendition \<Rightarrow> finish (AD_PopGraphicsRendition st)
         | _ \<Rightarrow> (case disp_call D x d of (d', rs, ok) \<Rightarrow> ((d', st), rs, ok)))"

definition with_rendition ::
    "('d, 'h, 'c) dispatch_ops \<Rightarrow> ('d \<times> RenditionState, 'h, 'c) dispatch_ops" where
  "with_rendition D =
     \<lparr>disp_call = rendition_call D,
      disp_handler = (\<lambda>x (d, st). case disp_handler D x d of (d', rs, h) \<Rightarrow> ((d', st), rs, h)),
      disp_string = (\<lambda>h w (d, st). case disp_string D h w d of (d', rs, ok) \<Rightarrow> ((d', st), rs, ok))\<rparr>"

lemma with_rendition_print:
  "disp_call (with_rendition D) (PrintString str) (d, st) =
     ((fst (disp_call D (PrintString str) d), st), snd (disp_call D (PrintString str) d))"
  by (simp add: with_rendition_def rendition_call_def split: prod.split)

text \<open>Printing is left to \<open>D\<close>, so text may be cut anywhere when it may be with \<open>D\<close>.\<close>

lemma with_rendition_stream:
  assumes "\<And>str d. snd (disp_call D (PrintString str) d) = ([], True)"
    and "\<And>xs ys d. fst (disp_call D (PrintString (xs @ ys)) d) =
      fst (disp_call D (PrintString ys) (fst (disp_call D (PrintString xs) d)))"
    and "\<And>cb s s'. run cb s = Some s' \<Longrightarrow> sm_isEngineForInput s' = sm_isEngineForInput s"
    and "\<And>cb s. \<not> sm_isEngineForInput s \<Longrightarrow>
      map_option sm_erase (run cb (sm_erase s)) = map_option sm_erase (run cb s)"
  shows "stream_terminal (with_rendition D) run"
  by unfold_locales (auto simp: with_rendition_print assms)

subsection \<open>Resetting\<close>

text \<open>Attributes with nothing but what SGR keeps.\<close>

definition fresh_attribute :: "bool \<times> 16 word \<times> MarkKind \<Rightarrow> TextAttribute" where
  "fresh_attribute = (\<lambda>(protected, link, mark).
     TextAttribute_default\<lparr>ta_attrs := if protected then CA_Protected else 0, ta_hyperlinkId := link, ta_markKind := mark\<rparr>)"

lemma reset_fresh:
  "SetDefaultRenditionAttributes (SetDefaultUnderlineColor (SetDefaultBackground (SetDefaultForeground a))) =
   fresh_attribute (kept a)"
proof -
  have "ta_attrs a AND NOT CA_Rendition = (if IsProtected a then CA_Protected else 0)"
  proof (rule bit_word_eqI)
    fix n
    assume "n < LENGTH(16)"
    then have n: "n < 16" by simp
    have single: "bit (push_bit k (1 :: WORD)) n \<longleftrightarrow> n = k" for k
      using n by (auto simp: bit_simps)
    have p: "bit CA_Protected n \<longleftrightarrow> n = 13"
      unfolding flag_positions by (rule single)
    from n show "bit (ta_attrs a AND NOT CA_Rendition) n = bit (if IsProtected a then CA_Protected else 0) n"
      by (auto simp: bit_and_iff bit_not_iff bit_Rendition p flag_bits)
  qed
  then show ?thesis
    by (simp add: fresh_attribute_def kept_def SetDefaultRenditionAttributes_def SetDefaultUnderlineColor_def
        SetDefaultBackground_def SetDefaultForeground_def TextAttribute_default_def)
qed

lemma no_sub_params [simp]: "\<not> hasSubParamsFor (params_only ps) i"
  by (simp add: hasSubParamsFor_def params_only_def)

lemma graphics_option_0 [simp]: "graphics_option 0 = Some GO_Off"
  by (simp add: graphics_option_def graphics_options_def)

lemma apply_reset:
  assumes "to_enum (param_at options i) = 0" and "\<not> hasSubParamsFor options i" and "i < params_size options"
  shows "apply_options options i a = apply_options options (i + 1) (fresh_attribute (kept a))"
  using assms by (subst apply_options.simps) (simp add: ApplyGraphicsOption_def Let_def reset_fresh)

lemma option_shift:
  "option_case g (params_only (p # ps)) (Suc i) a = option_case g (params_only ps) i a"
  by (cases g) (simp_all add: params_subspan_def params_only_def)

lemma apply_shift:
  assumes "ps \<noteq> []"
  shows "apply_options (params_only (p # ps)) (Suc i) a = apply_options (params_only ps) i a"
proof (induction "length ps - i" arbitrary: i a rule: less_induct)
  case less
  have size: "params_size (params_only ps) = length ps" "params_size (params_only (p # ps)) = Suc (length ps)"
    using assms by (cases ps; simp add: params_size_def params_only_def)+
  have step: "ApplyGraphicsOption (params_only (p # ps)) (Suc i) a = ApplyGraphicsOption (params_only ps) i a"
  proof -
    have "param_at (params_only (p # ps)) (Suc i) = param_at (params_only ps) i"
      by (simp add: param_at_def params_only_def)
    then show ?thesis by (simp add: ApplyGraphicsOption_def option_shift split: option.split)
  qed
  show ?case
  proof (cases "i < length ps")
    case True
    obtain n a' where n: "ApplyGraphicsOption (params_only ps) i a = (n, a')" by fastforce
    then have "1 \<le> n" using ApplyGraphicsOption_progress [of "params_only ps" i a] by simp
    with True less [of "i + n" a'] have "apply_options (params_only (p # ps)) (Suc (i + n)) a' = apply_options (params_only ps) (i + n) a'"
      by simp
    with True n step show ?thesis
      by (subst (1 2) apply_options.simps) (simp add: size)
  next
    case False
    then show ?thesis by (subst (1 2) apply_options.simps) (simp add: size)
  qed
qed

text \<open>A reset forgets the rendition: SGR with no parameters, and SGR whose first parameter is 0 or
  omitted, give default colours and no rendition flags, and what follows the 0 is applied to that;
  so the outcome depends on the old attributes only through the protection, the hyperlink and the
  mark, which stay.\<close>

theorem sgr_reset:
  assumes "value_or p 0 = 0"
  shows "ApplyGraphicsOptions (params_only []) a = fresh_attribute (kept a) \<and>
    ApplyGraphicsOptions (params_only (p # ps)) a =
      (if ps = [] then fresh_attribute (kept a)
       else ApplyGraphicsOptions (params_only ps) (fresh_attribute (kept a)))"
proof -
  have stop: "\<not> i < params_size options \<Longrightarrow> apply_options options i b = b" for options i b
    by (subst apply_options.simps) simp
  have "ApplyGraphicsOptions (params_only []) a = apply_options (params_only []) 1 (fresh_attribute (kept a))"
    unfolding ApplyGraphicsOptions_def
    by (subst apply_reset) (simp_all add: to_enum_def value_or_def params_size_def params_only_def hasSubParamsFor_def)
  moreover have "ApplyGraphicsOptions (params_only (p # ps)) a =
      apply_options (params_only (p # ps)) 1 (fresh_attribute (kept a))"
    using assms unfolding ApplyGraphicsOptions_def
    by (subst apply_reset) (simp_all add: to_enum_def params_size_def params_only_def param_at_def hasSubParamsFor_def)
  ultimately show ?thesis
    using apply_shift [of ps p 0] by (simp add: stop params_size_def params_only_def ApplyGraphicsOptions_def)
qed

theorem sgr_reset_witness:
  "value_or omitted 0 = 0 \<and>
   ApplyGraphicsOptions (params_only [omitted, VTParam 1]) (SetProtected True (SetItalic True TextAttribute_default)) =
   ApplyGraphicsOptions (params_only [VTParam 1])
     (fresh_attribute (kept (SetProtected True (SetItalic True TextAttribute_default))))"
proof -
  have v: "value_or omitted 0 = 0" by (simp add: value_or_def)
  show ?thesis
    using sgr_reset [OF v, of "SetProtected True (SetItalic True TextAttribute_default)" "[VTParam 1]"] v by simp
qed

subsection \<open>Extended colours\<close>

definition extended_color :: "VTInt \<Rightarrow> bool" where
  "extended_color item \<longleftrightarrow> item = 38 \<or> item = 48"

text \<open>The two spellings of an RGB colour and of a colour of 256, as parameters and as
  sub-parameters.\<close>

definition rgb_params :: "VTInt \<Rightarrow> VTParameter \<Rightarrow> VTParameter \<Rightarrow> VTParameter \<Rightarrow> csi_arg list" where
  "rgb_params item r g b = [(VTParam item, []), (VTParam 2, []), (r, []), (g, []), (b, [])]"

definition rgb_sub_params :: "VTInt \<Rightarrow> VTParameter \<Rightarrow> VTParameter \<Rightarrow> VTParameter \<Rightarrow> csi_arg list" where
  "rgb_sub_params item r g b = [(VTParam item, [VTParam 2, omitted, r, g, b])]"

definition index_params :: "VTInt \<Rightarrow> VTParameter \<Rightarrow> csi_arg list" where
  "index_params item n = [(VTParam item, []), (VTParam 5, []), (n, [])]"

definition index_sub_params :: "VTInt \<Rightarrow> VTParameter \<Rightarrow> csi_arg list" where
  "index_sub_params item n = [(VTParam item, [VTParam 5, n])]"

lemma option_values:
  "graphics_option 38 = Some GO_ForegroundExtended" "graphics_option 48 = Some GO_BackgroundExtended"
  "graphics_option 2 = Some GO_RGBColorOrFaint" "graphics_option 5 = Some GO_BlinkOrXterm256Index"
  by (simp_all add: graphics_option_def graphics_options_def)

lemmas spelling_defs = args_parameters_def ApplyGraphicsOption_def hasSubParamsFor_def
  subParamsFor_def sub_subspan_def sub_at_def param_at_def params_subspan_def to_enum_def to_VTInt_def value_or_def
  SetRgbColorsHelper_def ApplyGraphicsOptionWithSubParams_def SetRgbColorsHelperFromSubParams_def applyColor_def
  option_values ta_SetColor_def SetForeground_rgb_def SetBackground_rgb_def SetForeground_def SetBackground_def
  SetIndexedForeground256_def SetIndexedBackground256_def

lemma rgb_steps:
  assumes "extended_color item"
  shows "\<exists>a'. ApplyGraphicsOption (args_parameters (rgb_params item r g b)) 0 a = (5, a') \<and>
    ApplyGraphicsOption (args_parameters (rgb_sub_params item r g b)) 0 a = (1, a')"
  using assms unfolding extended_color_def
  by (elim disjE) (simp_all add: rgb_params_def rgb_sub_params_def spelling_defs Let_def)

lemma index_steps:
  assumes "extended_color item"
  shows "\<exists>a'. ApplyGraphicsOption (args_parameters (index_params item n)) 0 a = (3, a') \<and>
    ApplyGraphicsOption (args_parameters (index_sub_params item n)) 0 a = (1, a')"
  using assms unfolding extended_color_def
  by (elim disjE) (simp_all add: index_params_def index_sub_params_def spelling_defs Let_def)

lemma one_step:
  assumes "ApplyGraphicsOption options 0 a = (params_size options, a')"
  shows "ApplyGraphicsOptions options a = a'"
proof -
  have "apply_options options (params_size options) a' = a'"
    by (subst apply_options.simps) simp
  moreover have "0 < params_size options" by (simp add: params_size_def)
  ultimately show ?thesis
    unfolding ApplyGraphicsOptions_def using assms by (subst apply_options.simps) simp
qed

lemma spellings:
  assumes "extended_color item"
  shows "ApplyGraphicsOptions (args_parameters (rgb_params item r g b)) a =
      ApplyGraphicsOptions (args_parameters (rgb_sub_params item r g b)) a"
    and "ApplyGraphicsOptions (args_parameters (index_params item n)) a =
      ApplyGraphicsOptions (args_parameters (index_sub_params item n)) a"
proof -
  have sizes: "params_size (args_parameters (rgb_params item r g b)) = 5"
    "params_size (args_parameters (rgb_sub_params item r g b)) = 1"
    "params_size (args_parameters (index_params item n)) = 3"
    "params_size (args_parameters (index_sub_params item n)) = 1"
    by (simp_all add: params_size_def args_parameters_def rgb_params_def rgb_sub_params_def index_params_def
        index_sub_params_def)
  from rgb_steps [OF assms, of r g b a] obtain a1 where
    "ApplyGraphicsOption (args_parameters (rgb_params item r g b)) 0 a = (5, a1)"
    "ApplyGraphicsOption (args_parameters (rgb_sub_params item r g b)) 0 a = (1, a1)" by blast
  then show "ApplyGraphicsOptions (args_parameters (rgb_params item r g b)) a =
      ApplyGraphicsOptions (args_parameters (rgb_sub_params item r g b)) a"
    using one_step [of "args_parameters (rgb_params item r g b)" a a1]
      one_step [of "args_parameters (rgb_sub_params item r g b)" a a1] by (simp add: sizes)
  from index_steps [OF assms, of n a] obtain a2 where
    "ApplyGraphicsOption (args_parameters (index_params item n)) 0 a = (3, a2)"
    "ApplyGraphicsOption (args_parameters (index_sub_params item n)) 0 a = (1, a2)" by blast
  then show "ApplyGraphicsOptions (args_parameters (index_params item n)) a =
      ApplyGraphicsOptions (args_parameters (index_sub_params item n)) a"
    using one_step [of "args_parameters (index_params item n)" a a2]
      one_step [of "args_parameters (index_sub_params item n)" a a2] by (simp add: sizes)
qed

subsection \<open>From text to attributes\<close>

definition sgr_text :: "csi_arg list \<Rightarrow> wstring" where
  "sgr_text args = csi_text [] args [] (CHR ''m'')"

definition push_text :: wstring where
  "push_text = csi_text [] [] ''#'' (CHR 0x7B)"

definition pop_text :: wstring where
  "pop_text = csi_text [] [] ''#'' (CHR 0x7D)"

text \<open>The engine after a sequence that changed the rendition: the character to repeat is forgotten.\<close>

definition rendered :: "'d \<times> RenditionState \<Rightarrow> ('d \<times> RenditionState) output_engine" where
  "rendered ds = \<lparr>oe_dispatch = ds, oe_lastPrintedChar = NUL\<rparr>"

definition set_rendition :: "csi_arg list \<Rightarrow> RenditionState \<Rightarrow> RenditionState" where
  "set_rendition args st =
     st\<lparr>rs_attributes := ApplyGraphicsOptions (args_parameters (map clamped_arg args)) (rs_attributes st)\<rparr>"

lemma sgr_after:
  assumes "stream_terminal (with_rendition D) run" and "sm_ready s" and "args = [] \<or> args_fit args"
    and "oe_dispatch (sm_engine s) = (d, st)"
  shows "engine_after (output_ops env (with_rendition D) run) (sgr_text args) s (rendered (d, set_rendition args st))"
  unfolding sgr_text_def
proof (rule stream_terminal.csi_after [OF assms(1,2)])
  let ?p = "args_parameters (map clamped_arg args)"
  have "csi_calls (VTID ''m'') ?p c = [Render (SetGraphicsRendition ?p)]" for c
    by (simp add: csi_calls_VTID id_key_def csi_code_defs)
  moreover have "CanSeqAcceptSubParam (VTID ''m'') ?p" by (simp add: CanSeqAcceptSubParam_def)
  ultimately show "OutputEngine_ActionCsiDispatch (with_rendition D) (VTID ([] @ [] @ ''m'')) ?p (sm_engine s) =
      (rendered (d, set_rendition args st), [], Handled)"
    using assms(4)
    by (simp add: OutputEngine_ActionCsiDispatch_def dispatch_and_clear_def with_rendition_def rendition_call_def
        AD_SetGraphicsRendition_def ClearLastChar_def rendered_def set_rendition_def Let_def)
qed (simp_all add: assms(3) marker_ok_def csi_final_def)

lemma render_after:
  assumes "stream_terminal (with_rendition D) run" and "sm_ready s"
    and "csi_calls (VTID [CHR ''#'', f]) (args_parameters []) (oe_lastPrintedChar (sm_engine s)) = [x]"
    and "csi_final (of_char f)"
    and "rendition_call D x (oe_dispatch (sm_engine s)) = (ds, [], True)"
  shows "engine_after (output_ops env (with_rendition D) run) (csi_text [] [] ''#'' f) s (rendered ds)"
proof (rule stream_terminal.csi_after [OF assms(1,2)])
  show "OutputEngine_ActionCsiDispatch (with_rendition D) (VTID ([] @ ''#'' @ [f])) (args_parameters (map clamped_arg []))
      (sm_engine s) = (rendered ds, [], Handled)"
    using assms(3,5)
    by (simp add: OutputEngine_ActionCsiDispatch_def dispatch_and_clear_def with_rendition_def ClearLastChar_def
        rendered_def hasSubParams_def args_parameters_def)
qed (simp_all add: marker_ok_def assms(4) char_class)

lemma push_after:
  assumes "stream_terminal (with_rendition D) run" and "sm_ready s" and "oe_dispatch (sm_engine s) = (d, st)"
    and "AD_PushGraphicsRendition (args_parameters []) st = Some st'"
  shows "engine_after (output_ops env (with_rendition D) run) push_text s (rendered (d, st'))"
  unfolding push_text_def using assms
  by (intro render_after [where x = "Render (PushGraphicsRendition (args_parameters []))"])
    (simp_all add: csi_calls_VTID id_key_def csi_code_defs rendition_call_def csi_final_def)

lemma pop_after:
  assumes "stream_terminal (with_rendition D) run" and "sm_ready s" and "oe_dispatch (sm_engine s) = (d, st)"
    and "AD_PopGraphicsRendition st = Some st'"
  shows "engine_after (output_ops env (with_rendition D) run) pop_text s (rendered (d, st'))"
  unfolding pop_text_def using assms
  by (intro render_after [where x = "Render PopGraphicsRendition"])
    (simp_all add: csi_calls_VTID id_key_def csi_code_defs rendition_call_def csi_final_def)

lemma sgr_list_after:
  assumes "stream_terminal (with_rendition D) run"
  shows "sm_ready s \<Longrightarrow> sm_engine s = rendered (d, st) \<Longrightarrow> list_all (\<lambda>args. args = [] \<or> args_fit args) argss \<Longrightarrow>
    engine_after (output_ops env (with_rendition D) run) (concat (map sgr_text argss)) s
      (rendered (d, fold set_rendition argss st))"
proof (induction argss arbitrary: s st)
  case Nil
  then show ?case
    by (simp add: engine_after_def sm_ready_def ProcessString_def process_vt.simps process_loop.simps process_tail_def
        CurrentRun_def Let_def GetParserMode_def)
next
  case (Cons args argss)
  have "oe_dispatch (sm_engine s) = (d, st)" using Cons.prems(2) by (simp add: rendered_def)
  from sgr_after [OF assms Cons.prems(1) _ this] Cons.prems(3)
  have one: "engine_after (output_ops env (with_rendition D) run) (sgr_text args) s (rendered (d, set_rendition args st))"
    by simp
  show ?case
    using stream_terminal.after_append [OF assms Cons.prems(1) one Cons.IH] Cons.prems(3) by simp
qed

lemma fold_set_rendition_stack: "rs_sgrStack (fold set_rendition argss st) = rs_sgrStack st"
  by (induction argss arbitrary: st) (simp_all add: set_rendition_def)

text \<open>C12: Saving and restoring, from end to end: when a save sequence, any number of SGR sequences and a
  restore sequence are sent to a terminal between two sequences, the attributes of the page are
  those before the save, and the stack has lost at most its oldest entry.\<close>

theorem saved_rendition_restored:
  assumes stream: "stream_terminal (with_rendition D) run" and ready: "sm_ready s"
    and st: "oe_dispatch (sm_engine s) = (d, st)" and ring: "ring_ok (rs_sgrStack st)"
    and args: "list_all (\<lambda>args. args = [] \<or> args_fit args) argss"
  shows "\<exists>st'. engine_after (output_ops env (with_rendition D) run)
      (push_text @ concat (map sgr_text argss) @ pop_text) s (rendered (d, st')) \<and>
    rs_attributes st' = rs_attributes st \<and> ring_contents (rs_sgrStack st') = take 9 (ring_contents (rs_sgrStack st))"
proof -
  let ?a = "rs_attributes st"
  from push_pop [OF ring, of ?a "args_parameters []"] obtain s1 where
    push: "Push ?a (args_parameters []) (rs_sgrStack st) = Some s1" by blast
  let ?st1 = "st\<lparr>rs_sgrStack := s1\<rparr>"
  let ?st2 = "fold set_rendition argss ?st1"
  from push_pop [OF ring, of ?a "args_parameters []" "rs_attributes ?st2"] push obtain s2 where
    pop: "Pop (rs_attributes ?st2) s1 = Some (?a, s2)" "ring_contents s2 = take 9 (ring_contents (rs_sgrStack st))"
    by (auto simp: args_parameters_def)
  let ?st3 = "?st2\<lparr>rs_attributes := ?a, rs_sgrStack := s2\<rparr>"
  have p1: "engine_after (output_ops env (with_rendition D) run) push_text s (rendered (d, ?st1))"
    by (rule push_after [OF stream ready st]) (simp add: AD_PushGraphicsRendition_def push)
  have p3: "engine_after (output_ops env (with_rendition D) run) pop_text t (rendered (d, ?st3))"
    if "sm_ready t" "sm_engine t = rendered (d, ?st2)" for t
    by (rule pop_after [OF stream that(1), where st = ?st2])
      (simp_all add: that(2) rendered_def AD_PopGraphicsRendition_def fold_set_rendition_stack pop)
  have p2: "engine_after (output_ops env (with_rendition D) run) (concat (map sgr_text argss) @ pop_text) t
      (rendered (d, ?st3))" if t: "sm_ready t" "sm_engine t = rendered (d, ?st1)" for t
    by (rule stream_terminal.after_append [OF stream t(1) sgr_list_after [OF stream t args] p3])
  show ?thesis
    using stream_terminal.after_append [OF stream ready p1 p2] pop(2) by (intro exI [of _ ?st3]) simp
qed

text \<open>A terminal that keeps the text and the renditions, freshly started.\<close>

definition page_run ::
    "unit \<Rightarrow> ((wstring \<times> RenditionState) output_engine, unit, unit) sm \<Rightarrow>
     ((wstring \<times> RenditionState) output_engine, unit, unit) sm option" where
  "page_run cb s = Some s"

interpretation page: stream_terminal plain_env "with_rendition transcript" page_run
  using transcript_stream.print_returns transcript_stream.print_batch
  by (intro with_rendition_stream) (simp_all add: page_run_def)

definition page_start :: RenditionState where
  "page_start = \<lparr>rs_attributes = TextAttribute_default, rs_sgrStack = SgrStack_init\<rparr>"

definition page_machine :: "((wstring \<times> RenditionState) output_engine, unit, unit) sm" where
  "page_machine = StateMachine_init (OutputStateMachineEngine_init ([], page_start)) False 0 0 False"

lemma page_ready: "sm_ready page_machine"
  by (simp add: page_machine_def sm_ready_def StateMachine_init_def ActionClear_def SetParserMode_def
      GetParserMode_def)

lemma page_engine: "oe_dispatch (sm_engine page_machine) = ([], page_start)"
  by (simp add: page_machine_def StateMachine_init_def ActionClear_def SetParserMode_def OutputStateMachineEngine_init_def)

theorem saved_rendition_restored_witness:
  "\<exists>st'. engine_after (output_ops plain_env (with_rendition transcript) page_run)
      (push_text @ concat (map sgr_text [[(VTParam 31, [])], []]) @ pop_text) page_machine (rendered ([], st')) \<and>
    rs_attributes st' = TextAttribute_default \<and> ring_contents (rs_sgrStack st') = []"
proof -
  have ring: "ring_ok (rs_sgrStack page_start)" by (simp add: page_start_def ring_init)
  have args: "list_all (\<lambda>args. args = [] \<or> args_fit args) [[(VTParam 31, [])], []]"
    by (simp add: args_fit_def arg_text_def param_text_def has_value_def decimal.simps MAX_PARAMETER_COUNT_def)
  show ?thesis
    using saved_rendition_restored [OF page.stream_terminal_axioms page_ready page_engine ring args, of plain_env]
    by (simp add: page_start_def ring_init)
qed

text \<open>C13: The two spellings of an extended colour agree from end to end: \<^verbatim>\<open>38;2;r;g;b\<close> and \<^verbatim>\<open>38:2::r:g:b\<close>,
  \<^verbatim>\<open>38;5;n\<close> and \<^verbatim>\<open>38:5:n\<close>, and the same with 48 for the background, leave the terminal in the same
  state, also when a value is omitted or does not fit a byte.\<close>

theorem color_spellings_agree:
  assumes "stream_terminal (with_rendition D) run" and "sm_ready s" and "extended_color item"
  shows "\<exists>e e'. engine_after (output_ops env (with_rendition D) run) (sgr_text (rgb_params item r g b)) s e \<and>
    engine_after (output_ops env (with_rendition D) run) (sgr_text (rgb_sub_params item r g b)) s e \<and>
    engine_after (output_ops env (with_rendition D) run) (sgr_text (index_params item n)) s e' \<and>
    engine_after (output_ops env (with_rendition D) run) (sgr_text (index_sub_params item n)) s e'"
proof -
  obtain d st where st: "oe_dispatch (sm_engine s) = (d, st)" by fastforce
  have item: "clamped (VTParam item) = VTParam item" "has_value (VTParam item)"
    using assms(3) by (auto simp: extended_color_def clamped_def has_value_def MAX_PARAMETER_VALUE_def)
  have two: "clamped (VTParam 2) = VTParam 2" "clamped (VTParam 5) = VTParam 5" "clamped omitted = omitted"
    by (simp_all add: clamped_def has_value_def MAX_PARAMETER_VALUE_def)
  have maps: "map clamped_arg (rgb_params item r g b) = rgb_params item (clamped r) (clamped g) (clamped b)"
    "map clamped_arg (rgb_sub_params item r g b) = rgb_sub_params item (clamped r) (clamped g) (clamped b)"
    "map clamped_arg (index_params item n) = index_params item (clamped n)"
    "map clamped_arg (index_sub_params item n) = index_sub_params item (clamped n)"
    by (simp_all add: rgb_params_def rgb_sub_params_def index_params_def index_sub_params_def clamped_arg_def item two)
  have chars: "arg_text (VTParam item, qs) \<noteq> []" for qs
    using item(2) by (simp add: arg_text_def param_text_def)
  have fit: "args_fit (rgb_params item r g b)" "args_fit (rgb_sub_params item r g b)" "args_fit (index_params item n)"
    "args_fit (index_sub_params item n)"
    by (simp_all add: args_fit_def rgb_params_def rgb_sub_params_def index_params_def index_sub_params_def chars
        MAX_PARAMETER_COUNT_def MAX_SUBPARAMETER_COUNT_def)
  have same: "set_rendition (rgb_params item r g b) st = set_rendition (rgb_sub_params item r g b) st"
    "set_rendition (index_params item n) st = set_rendition (index_sub_params item n) st"
    unfolding set_rendition_def maps by (simp_all add: spellings [OF assms(3)])
  note after = sgr_after [OF assms(1,2) disjI2 st, of _ env]
  show ?thesis
    using after [OF fit(1)] after [OF fit(2)] after [OF fit(3)] after [OF fit(4)] unfolding same by blast
qed

theorem color_spellings_agree_witness:
  "\<exists>e. engine_after (output_ops plain_env (with_rendition transcript) page_run)
      (sgr_text (rgb_params 38 (VTParam 10) omitted (VTParam 300))) page_machine e \<and>
    engine_after (output_ops plain_env (with_rendition transcript) page_run)
      (sgr_text (rgb_sub_params 38 (VTParam 10) omitted (VTParam 300))) page_machine e"
proof -
  have "extended_color 38" by (simp add: extended_color_def)
  from color_spellings_agree [OF page.stream_terminal_axioms page_ready this] show ?thesis by blast
qed

end
