(* ===== verification/Utf8Stream.thy ===== *)
theory Utf8Stream
  imports Prelude
begin

text \<open>
  The decoder between a session's bytes and the terminal: \<^verbatim>\<open>til::u8u16\<close> with its state for incomplete
  code points, \<^verbatim>\<open>src/src/inc/til/u8u16convert.h\<close>, and the session stream
  \<^verbatim>\<open>src/src/vt7/VT7.Native/utf8_terminal_stream.hpp\<close>. The conversion of whole code points is the system
  function \<^verbatim>\<open>MultiByteToWideChar\<close>, a parameter here. The lemmas say that the cache never overflows, that
  cutting UTF-8 text into chunks in any way does not change what is decoded, and that a failed write
  leaves the decoder as it was.
\<close>

subsection \<open>Results\<close>

type_synonym HRESULT = u32

definition S_OK :: HRESULT where
  "S_OK = 0"

definition E_ABORT :: HRESULT where
  "E_ABORT = 0x80004004"

definition E_UNEXPECTED :: HRESULT where
  "E_UNEXPECTED = 0x8000FFFF"

text \<open>\<^verbatim>\<open>HRESULT_FROM_WIN32\<close> of two system errors.\<close>

definition ERROR_INVALID_STATE :: HRESULT where
  "ERROR_INVALID_STATE = 0x8007139F"

definition ERROR_NO_UNICODE_TRANSLATION :: HRESULT where
  "ERROR_NO_UNICODE_TRANSLATION = 0x80070459"

definition FAILED :: "HRESULT \<Rightarrow> bool" where
  "FAILED hr \<longleftrightarrow> bit hr 31"

definition INT_MAX :: nat where
  "INT_MAX = 2147483647"

subsection \<open>Decoding with a cache\<close>

record u8state =
  u8_partials :: "byte list"
  u8_have :: nat
  u8_want :: nat

definition u8state_reset :: u8state where
  "u8state_reset = \<lparr>u8_partials = [0, 0, 0, 0], u8_have = 0, u8_want = 0\<rparr>"

text \<open>Writing into the four bytes of the cache; a write outside of them is undefined.\<close>

definition put_partials :: "nat \<Rightarrow> byte list \<Rightarrow> u8state \<Rightarrow> u8state option" where
  "put_partials k bs st =
     (if k + length bs \<le> length (u8_partials st)
      then Some (st\<lparr>u8_partials := take k (u8_partials st) @ bs @ drop (k + length bs) (u8_partials st)\<rparr>)
      else None)"

text \<open>\<^verbatim>\<open>MultiByteToWideChar\<close> into a buffer with room for \<open>capa\<close> units: it writes nothing and returns 0 when
  the result does not fit.\<close>

definition MultiByteToWideChar :: "(byte list \<Rightarrow> wstring) \<Rightarrow> byte list \<Rightarrow> nat \<Rightarrow> wstring" where
  "MultiByteToWideChar conv bs capa = (if length (conv bs) \<le> capa then conv bs else [])"

definition isContinuation :: "byte \<Rightarrow> bool" where
  "isContinuation b \<longleftrightarrow> b AND 0xC0 = 0x80"

definition lengths :: "nat list" where
  "lengths = [1, 1, 1, 1, 1, 1, 1, 1, 1, 1, 1, 1, 1, 1, 1, 1, 0, 0, 0, 0, 0, 0, 0, 0, 2, 2, 2, 2, 3, 3, 4, 0]"

text \<open>From the last byte back over continuation bytes: the position reached, and the number of bytes
  from there to the end.\<close>

fun scan_back :: "byte list \<Rightarrow> nat \<Rightarrow> nat \<Rightarrow> nat \<times> nat" where
  "scan_back bs 0 sequenceLen = (0, sequenceLen)"
| "scan_back bs (Suc i) sequenceLen =
     (if isContinuation (bs ! Suc i) then scan_back bs i (sequenceLen + 1) else (Suc i, sequenceLen))"

text \<open>Completing the cached code point. An early return is \<open>Inl\<close>; otherwise the decoded units, the
  remaining capacity and the remaining bytes.\<close>

definition complete_partial ::
    "(byte list \<Rightarrow> wstring) \<Rightarrow> byte list \<Rightarrow> nat \<Rightarrow> u8state \<Rightarrow>
     (HRESULT \<times> u8state + wstring \<times> nat \<times> byte list \<times> u8state) option" where
  "complete_partial conv ins capa16 st =
     (if u8_have st \<noteq> 0
      then (let copyable = min (u8_want st) (length ins)
            in do {
              st \<leftarrow> put_partials (u8_have st) (take copyable ins) st;
              let st = st\<lparr>u8_have := u8_have st + copyable, u8_want := u8_want st - copyable\<rparr>;
              (if u8_want st \<noteq> 0 then Some (Inl (S_OK, st))
               else (let units = MultiByteToWideChar conv (take (u8_have st) (u8_partials st)) capa16
                     in if units = [] then Some (Inl (E_UNEXPECTED, st))
                        else Some (Inr (units, capa16 - length units, drop copyable ins, st\<lparr>u8_have := 0\<rparr>)))) })
      else Some (Inr ([], capa16, ins, st)))"

text \<open>Caching an incomplete code point at the end: the bytes to convert now, and the state.\<close>

definition cache_partial :: "byte list \<Rightarrow> u8state \<Rightarrow> (byte list \<times> u8state) option" where
  "cache_partial bs st =
     (if bs = [] then Some (bs, st)
      else (let (backIter, sequenceLen) = scan_back bs (length bs - 1) 1;
                codePointLen = lengths ! unat (drop_bit 3 (bs ! backIter))
            in if codePointLen > sequenceLen
               then do {
                 st \<leftarrow> put_partials 0 (take sequenceLen (drop backIter bs)) st;
                 Some (take (length bs - sequenceLen) bs,
                       st\<lparr>u8_have := sequenceLen, u8_want := codePointLen - sequenceLen\<rparr>) }
               else Some (bs, st)))"

text \<open>The result code, the units and the new state. On failure the units are not used.\<close>

definition u8u16 ::
    "(byte list \<Rightarrow> wstring) \<Rightarrow> byte list \<Rightarrow> u8state \<Rightarrow> (HRESULT \<times> wstring \<times> u8state) option" where
  "u8u16 conv ins st =
     (if ins = [] then Some (S_OK, [], st)
      else if length ins + u8_have st > INT_MAX then Some (E_ABORT, [], st)
      else do {
        r \<leftarrow> complete_partial conv ins (length ins + u8_have st) st;
        (case r of
           Inl (hr, st) \<Rightarrow> Some (hr, [], st)
         | Inr (units, capa16, cursor8, st) \<Rightarrow> do {
             (bs, st) \<leftarrow> cache_partial cursor8 st;
             (if bs = [] then Some (S_OK, units, st)
              else (let conved = MultiByteToWideChar conv bs capa16
                    in if conved = [] then Some (E_UNEXPECTED, [], st) else Some (S_OK, units @ conved, st))) }) })"

subsection \<open>The session stream\<close>

record Utf8TerminalStreamSnapshot =
  snap_bytes :: u64
  snap_utf16Units :: u64
  snap_writes :: u32
  snap_generation :: u32
  snap_pendingBytes :: u32
  snap_ended :: bool
  snap_lastError :: HRESULT

definition Snapshot_init :: Utf8TerminalStreamSnapshot where
  "Snapshot_init =
     \<lparr>snap_bytes = 0, snap_utf16Units = 0, snap_writes = 0, snap_generation = 0, snap_pendingBytes = 0,
      snap_ended = True, snap_lastError = S_OK\<rparr>"

record Utf8TerminalStream =
  us_state :: u8state
  us_snapshot :: Utf8TerminalStreamSnapshot
  us_generation :: u32

definition Utf8TerminalStream_init :: Utf8TerminalStream where
  "Utf8TerminalStream_init = \<lparr>us_state = u8state_reset, us_snapshot = Snapshot_init, us_generation = 0\<rparr>"

definition stream_Begin :: "Utf8TerminalStream \<Rightarrow> Utf8TerminalStream" where
  "stream_Begin u =
     (let g = us_generation u + 1
      in \<lparr>us_state = u8state_reset,
          us_snapshot = Snapshot_init\<lparr>snap_generation := g, snap_ended := False\<rparr>, us_generation = g\<rparr>)"

definition stream_Abandon :: "Utf8TerminalStream \<Rightarrow> Utf8TerminalStream" where
  "stream_Abandon u =
     u\<lparr>us_state := u8state_reset, us_snapshot := (us_snapshot u)\<lparr>snap_pendingBytes := 0, snap_ended := True\<rparr>\<rparr>"

definition set_lastError :: "HRESULT \<Rightarrow> Utf8TerminalStream \<Rightarrow> Utf8TerminalStream" where
  "set_lastError hr u = u\<lparr>us_snapshot := (us_snapshot u)\<lparr>snap_lastError := hr\<rparr>\<rparr>"

text \<open>The end of a successful write: the new decoder state is taken over.\<close>

definition accept_write :: "byte list \<Rightarrow> wstring \<Rightarrow> u8state \<Rightarrow> Utf8TerminalStream \<Rightarrow> Utf8TerminalStream" where
  "accept_write bytes decoded candidate u =
     (let s = us_snapshot u
      in u\<lparr>us_state := candidate,
           us_snapshot := s\<lparr>snap_bytes := snap_bytes s + of_nat (length bytes),
                            snap_utf16Units := snap_utf16Units s + of_nat (length decoded),
                            snap_writes := snap_writes s + 1,
                            snap_pendingBytes := of_nat (u8_have candidate),
                            snap_lastError := S_OK\<rparr>\<rparr>)"

text \<open>What is written goes to a writer with a state of its own. It may not complete (\<open>None\<close>), and it
  may throw: the second component of its result is then the error the exception stands for.\<close>

definition stream_Write ::
    "(byte list \<Rightarrow> wstring) \<Rightarrow> (wstring \<Rightarrow> 't \<Rightarrow> ('t \<times> HRESULT option) option) \<Rightarrow> byte list \<Rightarrow>
     Utf8TerminalStream \<Rightarrow> 't \<Rightarrow> (HRESULT \<times> Utf8TerminalStream \<times> 't) option" where
  "stream_Write conv writer bytes u t =
     (if snap_ended (us_snapshot u) then Some (ERROR_INVALID_STATE, set_lastError ERROR_INVALID_STATE u, t)
      else if bytes = [] then Some (S_OK, u, t)
      else do {
        (conversion, decoded, candidate) \<leftarrow> u8u16 conv bytes (us_state u);
        (if FAILED conversion then Some (conversion, set_lastError conversion u, t)
         else do {
           (t, thrown) \<leftarrow> (if decoded \<noteq> [] then writer decoded t else Some (t, None));
           (case thrown of
              Some hr \<Rightarrow> Some (hr, set_lastError hr u, t)
            | None \<Rightarrow> Some (S_OK, accept_write bytes decoded candidate u, t)) }) })"

definition stream_End :: "Utf8TerminalStream \<Rightarrow> HRESULT \<times> Utf8TerminalStream" where
  "stream_End u =
     (if snap_ended (us_snapshot u) then (snap_lastError (us_snapshot u), u)
      else (let u = u\<lparr>us_snapshot := (us_snapshot u)\<lparr>snap_ended := True\<rparr>\<rparr>
            in if u8_have (us_state u) \<noteq> 0
               then (ERROR_NO_UNICODE_TRANSLATION,
                     u\<lparr>us_state := u8state_reset,
                       us_snapshot := (us_snapshot u)\<lparr>snap_pendingBytes := 0,
                                                      snap_lastError := ERROR_NO_UNICODE_TRANSLATION\<rparr>\<rparr>)
               else (S_OK, set_lastError S_OK u)))"

subsection \<open>UTF-8 and UTF-16\<close>

text \<open>The encodings of a Unicode scalar value, as the standards define them.\<close>

definition scalar :: "nat \<Rightarrow> bool" where
  "scalar c \<longleftrightarrow> c < 0xD800 \<or> 0xE000 \<le> c \<and> c < 0x110000"

definition utf8 :: "nat \<Rightarrow> byte list" where
  "utf8 c =
     (if c < 0x80 then [of_nat c]
      else if c < 0x800 then [of_nat (0xC0 + c div 64), of_nat (0x80 + c mod 64)]
      else if c < 0x10000
      then [of_nat (0xE0 + c div 4096), of_nat (0x80 + c div 64 mod 64), of_nat (0x80 + c mod 64)]
      else [of_nat (0xF0 + c div 262144), of_nat (0x80 + c div 4096 mod 64), of_nat (0x80 + c div 64 mod 64),
            of_nat (0x80 + c mod 64)])"

definition utf16 :: "nat \<Rightarrow> wstring" where
  "utf16 c =
     (if c < 0x10000 then [of_nat c]
      else [of_nat (0xD800 + (c - 0x10000) div 1024), of_nat (0xDC00 + (c - 0x10000) mod 1024)])"

definition utf8_text :: "nat list \<Rightarrow> byte list" where
  "utf8_text cs = concat (map utf8 cs)"

definition utf16_text :: "nat list \<Rightarrow> wstring" where
  "utf16_text cs = concat (map utf16 cs)"

lemma utf_texts [simp]:
  "utf8_text [] = []" "utf8_text (c # cs) = utf8 c @ utf8_text cs" "utf8_text (cs @ ds) = utf8_text cs @ utf8_text ds"
  "utf16_text [] = []" "utf16_text (c # cs) = utf16 c @ utf16_text cs"
  "utf16_text (cs @ ds) = utf16_text cs @ utf16_text ds"
  by (simp_all add: utf8_text_def utf16_text_def)

lemma unat_byte: "n < 256 \<Longrightarrow> unat (of_nat n :: byte) = n"
  by (simp add: unat_of_nat take_bit_nat_eq_self)

lemma unat_drop_byte: "unat (drop_bit k (b :: byte)) = unat b div 2 ^ k"
proof -
  have "unat b < 2 ^ 8" using unsigned_less [of b, where ?'a = nat] by simp
  then show ?thesis
    unfolding unsigned_drop_bit_eq by (simp add: drop_bit_eq_div take_bit_nat_eq_self)
qed

lemma continuation_iff: "isContinuation b \<longleftrightarrow> unat b div 64 = 2"
proof -
  have m: "0xC0 = push_bit 6 (mask 2 :: byte)"
    by (simp add: mask_eq_exp_minus_1)
  have "b AND push_bit k (mask 2) = push_bit k (drop_bit k b)" if "k = 6" for k
    by (rule bit_word_eqI) (auto simp: bit_simps that)
  from this [OF refl] have "b AND 0xC0 = push_bit 6 (drop_bit 6 b)"
    unfolding m .
  moreover have "push_bit 6 (drop_bit 6 b) = 0x80 \<longleftrightarrow> drop_bit 6 b = 2"
  proof
    assume "push_bit 6 (drop_bit 6 b) = 0x80"
    then have "drop_bit 6 (push_bit 6 (drop_bit 6 b)) = (2 :: byte)" by simp
    moreover have "drop_bit 6 (push_bit 6 (drop_bit 6 b)) = drop_bit 6 b"
      by (rule bit_word_eqI) (auto simp: bit_simps dest: bit_imp_le_length)
    ultimately show "drop_bit 6 b = 2" by simp
  qed simp
  moreover have "drop_bit 6 b = 2 \<longleftrightarrow> unat b div 64 = 2"
    unfolding word_unat_eq_iff unat_drop_byte by simp
  ultimately show ?thesis by (simp add: isContinuation_def)
qed

lemma lead_index: "unat (drop_bit 3 (b :: byte)) = unat b div 8"
  by (simp only: unat_drop_byte) simp

lemma lengths_ranges:
  "n < 16 \<Longrightarrow> lengths ! n = 1" "24 \<le> n \<Longrightarrow> n < 28 \<Longrightarrow> lengths ! n = 2" "28 \<le> n \<Longrightarrow> n < 30 \<Longrightarrow> lengths ! n = 3"
  "lengths ! 30 = 4"
proof -
  have l: "lengths = replicate 16 1 @ replicate 8 0 @ replicate 4 2 @ [3, 3, 4, 0]"
    by (simp add: lengths_def numeral_eq_Suc)
  show "n < 16 \<Longrightarrow> lengths ! n = 1" "24 \<le> n \<Longrightarrow> n < 28 \<Longrightarrow> lengths ! n = 2" "lengths ! 30 = 4"
    unfolding l by (auto simp: nth_append)
  show "28 \<le> n \<Longrightarrow> n < 30 \<Longrightarrow> lengths ! n = 3"
    unfolding l by (auto simp: nth_append nth_Cons')
qed

text \<open>A code point is a leading byte that tells the length, and continuation bytes.\<close>

lemma utf8_shape:
  assumes "scalar c"
  shows "\<exists>lead conts. utf8 c = lead # conts \<and> \<not> isContinuation lead \<and> list_all isContinuation conts \<and>
    lengths ! unat (drop_bit 3 lead) = length (utf8 c) \<and> length (utf8 c) \<le> 4"
proof -
  have cont: "isContinuation (of_nat (0x80 + n))" if "n < 64" for n
    using that unat_byte [of "128 + n"] by (simp add: continuation_iff)
  have c: "c < 0x110000" using assms by (auto simp: scalar_def)
  consider "c < 0x80" | "0x80 \<le> c" "c < 0x800" | "0x800 \<le> c" "c < 0x10000" | "0x10000 \<le> c" by linarith
  then show ?thesis
  proof cases
    case 1
    then have "unat (of_nat c :: byte) = c" by (intro unat_byte) simp
    with 1 show ?thesis by (simp add: utf8_def continuation_iff lead_index lengths_ranges)
  next
    case 2
    then have "unat (of_nat (0xC0 + c div 64) :: byte) = 0xC0 + c div 64" by (intro unat_byte) simp
    with 2 cont show ?thesis
      by (simp add: utf8_def continuation_iff lead_index lengths_ranges)
  next
    case 3
    then have "unat (of_nat (0xE0 + c div 4096) :: byte) = 0xE0 + c div 4096" by (intro unat_byte) simp
    with 3 cont show ?thesis
      by (simp add: utf8_def continuation_iff lead_index lengths_ranges)
  next
    case 4
    then have "unat (of_nat (0xF0 + c div 262144) :: byte) = 0xF0 + c div 262144"
      using c by (intro unat_byte) simp
    moreover have "(0xF0 + c div 262144) div 8 = 30" "(0xF0 + c div 262144) div 64 = 3" using c by simp_all
    ultimately show ?thesis
      using 4 cont by (simp add: utf8_def continuation_iff lead_index lengths_ranges)
  qed
qed

lemma utf16_length: "length (utf16 c) \<le> length (utf8 c)" "utf16 c \<noteq> []" "utf8 c \<noteq> []"
  by (simp_all add: utf16_def utf8_def)

lemma utf16_text_length: "length (utf16_text cs) \<le> length (utf8_text cs)"
  using utf16_length(1) by (induction cs) (auto intro: add_mono)

lemma utf16_text_Nil [simp]: "utf16_text cs = [] \<longleftrightarrow> cs = []" "utf8_text cs = [] \<longleftrightarrow> cs = []"
  using utf16_length(2,3) by (cases cs; simp)+

subsection \<open>Cutting a text\<close>

lemma scan_back_lead:
  "\<not> isContinuation lead \<Longrightarrow> list_all isContinuation conts \<Longrightarrow>
   scan_back (pre @ lead # conts @ suf) (length pre + length conts) n = (length pre, n + length conts)"
proof (induction conts arbitrary: suf n rule: rev_induct)
  case Nil
  then show ?case by (cases "length pre") (simp_all add: nth_append)
next
  case (snoc x conts)
  have "(pre @ lead # conts @ x # suf) ! Suc (length pre + length conts) = x"
    by (simp add: nth_append)
  with snoc.prems snoc.IH [of "x # suf" "n + 1"] show ?case by simp
qed

text \<open>Wherever a text is cut, the cut is between two code points or inside one.\<close>

lemma text_cut:
  "x @ rest = utf8_text cs \<Longrightarrow>
   \<exists>cs1 cs2 q. cs = cs1 @ cs2 \<and> x = utf8_text cs1 @ q \<and> q @ rest = utf8_text cs2 \<and>
     (q = [] \<or> (\<exists>c cs3. cs2 = c # cs3 \<and> length q < length (utf8 c)))"
proof (induction cs arbitrary: x)
  case Nil
  then show ?case by simp
next
  case (Cons c cs)
  show ?case
  proof (cases "length x < length (utf8 c)")
    case True
    with Cons.prems show ?thesis
      by (intro exI [of _ "[]"] exI [of _ "c # cs"] exI [of _ x]) simp
  next
    case False
    let ?n = "length (utf8 c)"
    from False Cons.prems have "take ?n x = utf8 c" "drop ?n x @ rest = utf8_text cs"
      by (auto simp: append_eq_append_conv_if split: if_splits)
    then obtain x' where x: "x = utf8 c @ x'" "x' @ rest = utf8_text cs"
      by (metis append_take_drop_id)
    from Cons.IH [OF x(2)] obtain cs1 cs2 q where "cs = cs1 @ cs2" "x' = utf8_text cs1 @ q" "q @ rest = utf8_text cs2"
      "q = [] \<or> (\<exists>c cs3. cs2 = c # cs3 \<and> length q < length (utf8 c))" by blast
    with x(1) show ?thesis
      by (intro exI [of _ "c # cs1"] exI [of _ cs2] exI [of _ q]) simp
  qed
qed

text \<open>The bytes \<open>q\<close> of the next code point of the text \<open>cs\<close> are in the cache.\<close>

definition cached :: "byte list \<Rightarrow> nat list \<Rightarrow> u8state \<Rightarrow> bool" where
  "cached q cs st \<longleftrightarrow>
     length (u8_partials st) = 4 \<and> u8_have st = length q \<and> take (length q) (u8_partials st) = q \<and>
     (if q = [] then u8_want st = 0
      else cs \<noteq> [] \<and> length q < length (utf8 (hd cs)) \<and> u8_want st = length (utf8 (hd cs)) - length q)"

lemma cache_boundary:
  assumes "list_all scalar cs" and "cs \<noteq> []"
  shows "cache_partial (utf8_text cs) st = Some (utf8_text cs, st)"
proof -
  obtain ds d where cs: "cs = ds @ [d]" using assms(2) by (cases cs rule: rev_cases) auto
  with assms(1) obtain lead conts where d: "utf8 d = lead # conts" "\<not> isContinuation lead"
    "list_all isContinuation conts" "lengths ! unat (drop_bit 3 lead) = length (utf8 d)"
    using utf8_shape [of d] by auto
  have "scan_back (utf8_text cs) (length (utf8_text cs) - 1) 1 = (length (utf8_text ds), 1 + length conts)"
    using scan_back_lead [OF d(2,3), of "utf8_text ds" "[]" 1] by (simp add: cs d(1))
  with d assms(2) show ?thesis
    by (simp add: cache_partial_def cs nth_append)
qed

lemma cache_inside:
  assumes "scalar c" and "q \<noteq> []" and "length q < length (utf8 c)" and "q @ rest = utf8 c @ after"
    and "length (u8_partials st) = 4"
  shows "\<exists>st'. cache_partial (utf8_text cs @ q) st = Some (utf8_text cs, st') \<and> cached q (c # cs') st'"
proof -
  obtain lead conts where c: "utf8 c = lead # conts" "\<not> isContinuation lead" "list_all isContinuation conts"
    "lengths ! unat (drop_bit 3 lead) = length (utf8 c)" "length (utf8 c) \<le> 4"
    using utf8_shape [OF assms(1)] by auto
  from assms(3,4) have q: "q = take (length q) (utf8 c)"
    by (metis append_eq_append_conv_if less_imp_le_nat)
  with assms(2) obtain qs where qs: "q = lead # qs" "qs = take (length qs) conts"
    unfolding c(1) by (cases q) auto
  then have "list_all isContinuation qs"
    using c(3) by (metis append_take_drop_id list_all_append)
  from scan_back_lead [OF c(2) this, of "utf8_text cs" "[]" 1]
  have "scan_back (utf8_text cs @ q) (length (utf8_text cs @ q) - 1) 1 = (length (utf8_text cs), length q)"
    by (simp add: qs(1))
  moreover have "(utf8_text cs @ q) ! length (utf8_text cs) = lead" by (simp add: qs(1) nth_append)
  ultimately show ?thesis
    using assms c by (simp add: cache_partial_def put_partials_def cached_def)
qed

subsection \<open>The system conversion\<close>

text \<open>What the decoder relies on: well-formed UTF-8 is converted to the UTF-16 of the same text.\<close>

locale utf8_conversion =
  fixes conv :: "byte list \<Rightarrow> wstring"
  assumes conv_text: "list_all scalar cs \<Longrightarrow> conv (utf8_text cs) = utf16_text cs"
begin

lemma conv_fits: "list_all scalar cs \<Longrightarrow> length (utf8_text cs) \<le> capa \<Longrightarrow>
    MultiByteToWideChar conv (utf8_text cs) capa = utf16_text cs"
  using utf16_text_length [of cs] by (simp add: MultiByteToWideChar_def conv_text)

text \<open>The part of a call after the cache has been emptied.\<close>

lemma decode_rest:
  assumes "x @ rest = utf8_text cs" and "list_all scalar cs" and "length x \<le> capa"
    and st: "length (u8_partials st) = 4" "u8_have st = 0" "u8_want st = 0"
  shows "\<exists>cs1 cs2 q bs st'. cache_partial x st = Some (bs, st') \<and> cs = cs1 @ cs2 \<and> q @ rest = utf8_text cs2 \<and>
    cached q cs2 st' \<and> bs = utf8_text cs1 \<and> MultiByteToWideChar conv bs capa = utf16_text cs1"
proof -
  from text_cut [OF assms(1)] obtain cs1 cs2 q where cut: "cs = cs1 @ cs2" "x = utf8_text cs1 @ q"
    "q @ rest = utf8_text cs2" "q = [] \<or> (\<exists>c cs3. cs2 = c # cs3 \<and> length q < length (utf8 c))" by blast
  have units: "MultiByteToWideChar conv (utf8_text cs1) capa = utf16_text cs1"
    using assms(2,3) cut(1,2) by (intro conv_fits) simp_all
  show ?thesis
  proof (cases "q = []")
    case True
    have "cache_partial x st = Some (utf8_text cs1, st)"
      using cache_boundary [of cs1 st] assms(2) cut(1,2) True by (cases "cs1 = []") (auto simp: cache_partial_def)
    moreover have "cached [] cs2 st" using st by (simp add: cached_def)
    ultimately show ?thesis using cut(1,3) True units by blast
  next
    case False
    with cut(4) obtain c cs3 where c: "cs2 = c # cs3" "length q < length (utf8 c)" by blast
    moreover have "scalar c" using assms(2) cut(1) c(1) by simp
    ultimately obtain st' where "cache_partial x st = Some (utf8_text cs1, st')" "cached q cs2 st'"
      using cache_inside [of c q rest "utf8_text cs3" st cs1 cs3] False cut(2,3) st(1) by auto
    then show ?thesis using cut(1,3) units by blast
  qed
qed

lemma complete_empty: "cached [] cs st \<Longrightarrow> complete_partial conv x capa st = Some (Inr ([], capa, x, st))"
  by (simp add: complete_partial_def cached_def)

text \<open>A code point that stays incomplete.\<close>

lemma complete_short:
  assumes "cached q (c # cs) st" and "q \<noteq> []" and "length (q @ x) < length (utf8 c)" and "length (utf8 c) \<le> 4"
  shows "\<exists>st'. complete_partial conv x capa st = Some (Inl (S_OK, st')) \<and> cached (q @ x) (c # cs) st'"
  using assms by (auto simp: complete_partial_def put_partials_def cached_def Let_def min_def)

text \<open>A code point that is completed.\<close>

lemma complete_full:
  assumes "cached q (c # cs) st" and "q \<noteq> []" and "utf8 c = q @ take n x" and "n = length (utf8 c) - length q"
    and "length x \<ge> n" and "scalar c" and "length (utf8 c) \<le> capa"
  shows "\<exists>st'. complete_partial conv x capa st = Some (Inr (utf16 c, capa - length (utf16 c), drop n x, st')) \<and>
    length (u8_partials st') = 4 \<and> u8_have st' = 0 \<and> u8_want st' = 0"
proof -
  have units: "MultiByteToWideChar conv (q @ take n x) capa = utf16 c"
    using conv_fits [of "[c]" capa] assms(6,7) unfolding assms(3) [symmetric] by simp
  from assms(1,2) have st: "u8_have st = length q" "u8_want st = n" "take (length q) (u8_partials st) = q"
    "length (u8_partials st) = 4" and "length q < length (utf8 c)"
    by (simp_all add: cached_def assms(4))
  moreover have "length (utf8 c) \<le> 4" using utf8_shape [OF assms(6)] by blast
  ultimately have "length q + n \<le> 4" unfolding assms(4) by simp
  with st assms(5) have put: "put_partials (u8_have st) (take (min (u8_want st) (length x)) x) st =
      Some (st\<lparr>u8_partials := q @ take n x @ drop (length q + n) (u8_partials st)\<rparr>)"
    by (simp add: put_partials_def min_def)
  have "take (length q + n) (q @ take n x @ drop (length q + n) (u8_partials st)) = q @ take n x"
    using assms(5) by simp
  with put units st assms(2,5) utf16_length(2) [of c] \<open>length q + n \<le> 4\<close> show ?thesis
    by (simp add: complete_partial_def Let_def min_def)
qed

text \<open>The end of a call, from the decoded units of the cached code point on.\<close>

lemma finish_chunk:
  assumes "x @ rest = utf8_text cs" and "list_all scalar cs" and "length x \<le> capa"
    and "length (u8_partials st) = 4" "u8_have st = 0" "u8_want st = 0"
    and "ins \<noteq> []" and "length ins + u8_have st0 \<le> INT_MAX"
    and "complete_partial conv ins (length ins + u8_have st0) st0 = Some (Inr (units, capa, x, st))"
  shows "\<exists>cs1 cs2 q st'. u8u16 conv ins st0 = Some (S_OK, units @ utf16_text cs1, st') \<and> cs = cs1 @ cs2 \<and>
    q @ rest = utf8_text cs2 \<and> cached q cs2 st'"
proof -
  from decode_rest [OF assms(1-6)] obtain cs1 cs2 q bs st' where
    d: "cache_partial x st = Some (bs, st')" "cs = cs1 @ cs2" "q @ rest = utf8_text cs2" "cached q cs2 st'"
    "bs = utf8_text cs1" "MultiByteToWideChar conv bs capa = utf16_text cs1" by blast
  have "u8u16 conv ins st0 = Some (S_OK, units @ utf16_text cs1, st')"
    using assms(7-9) d(1,5,6) by (cases "cs1 = []") (simp_all add: u8u16_def)
  with d show ?thesis by blast
qed

text \<open>One chunk of a text: it is decoded up to the last code point that is complete, and the rest is
  in the cache.\<close>

lemma decode_chunk:
  assumes c: "cached q cs st" and scalars: "list_all scalar cs" and eq: "q @ x @ rest = utf8_text cs"
    and size: "length x + 4 \<le> INT_MAX"
  shows "\<exists>cs1 cs2 q' st'. u8u16 conv x st = Some (S_OK, utf16_text cs1, st') \<and> cs = cs1 @ cs2 \<and>
    q' @ rest = utf8_text cs2 \<and> cached q' cs2 st'"
proof (cases "x = []")
  case True
  with c eq show ?thesis by (intro exI [of _ "[]"] exI [of _ cs] exI [of _ q] exI [of _ st]) (simp add: u8u16_def)
next
  case x: False
  have have4: "u8_have st \<le> 4" "length (u8_partials st) = 4"
    using c take_all_iff by (auto simp: cached_def) (metis length_take min.bounded_iff order_refl)
  show ?thesis
  proof (cases "q = []")
    case True
    have h: "u8_have st = 0" and w: "u8_want st = 0" using c True by (simp_all add: cached_def)
    have "complete_partial conv x (length x + u8_have st) st = Some (Inr ([], length x, x, st))"
      using complete_empty [OF c [unfolded True]] h by simp
    from finish_chunk [OF _ scalars _ have4(2) h w x _ this, of rest] eq True size h show ?thesis by simp
  next
    case False
    then obtain d ds where cs: "cs = d # ds" using c by (cases cs) (auto simp: cached_def)
    have d: "scalar d" "list_all scalar ds" "length q < length (utf8 d)" "length (utf8 d) \<le> 4"
      using scalars c False utf8_shape [of d] by (auto simp: cs cached_def)
    show ?thesis
    proof (cases "length (q @ x) < length (utf8 d)")
      case True
      from complete_short [OF c [unfolded cs] False True d(4)] obtain st' where
        "complete_partial conv x (length x + u8_have st) st = Some (Inl (S_OK, st'))" "cached (q @ x) (d # ds) st'"
        by blast
      with x size have4(1) eq show ?thesis
        by (intro exI [of _ "[]"] exI [of _ cs] exI [of _ "q @ x"] exI [of _ st']) (simp add: u8u16_def cs)
    next
      case long: False
      let ?n = "length (utf8 d) - length q"
      have "(q @ x) @ rest = utf8 d @ utf8_text ds" using eq by (simp add: cs)
      with long have "take (length (utf8 d)) (q @ x) = utf8 d" "drop (length (utf8 d)) (q @ x) @ rest = utf8_text ds"
        by (auto simp only: append_eq_append_conv_if split: if_splits) simp_all
      with d(3) have n: "utf8 d = q @ take ?n x" "drop ?n x @ rest = utf8_text ds"
        by simp_all
      have "u8_have st = length q" using c by (simp add: cached_def)
      with long have fits: "?n \<le> length x" "length (utf8 d) \<le> length x + u8_have st" by simp_all
      from complete_full [OF c [unfolded cs] False n(1) refl fits(1) d(1) fits(2)] obtain st1 where
        st1: "complete_partial conv x (length x + u8_have st) st =
          Some (Inr (utf16 d, length x + u8_have st - length (utf16 d), drop ?n x, st1))"
        "length (u8_partials st1) = 4" "u8_have st1 = 0" "u8_want st1 = 0" by blast
      have "length (drop ?n x) \<le> length x + u8_have st - length (utf16 d)"
        using utf16_length(1) [of d] long \<open>u8_have st = length q\<close> d(3) by simp
      from finish_chunk [OF n(2) d(2) this st1(2-4) x _ st1(1)] size have4(1) obtain cs1 cs2 q' st' where
        "u8u16 conv x st = Some (S_OK, utf16 d @ utf16_text cs1, st')" "ds = cs1 @ cs2" "q' @ rest = utf8_text cs2"
        "cached q' cs2 st'" by auto
      then show ?thesis
        by (intro exI [of _ "d # cs1"] exI [of _ cs2] exI [of _ q'] exI [of _ st']) (simp add: cs)
    qed
  qed
qed

end

subsection \<open>A reference conversion\<close>

text \<open>A decoder of well-formed UTF-8, to show that the contract can be met.\<close>

function utf8_decode :: "byte list \<Rightarrow> nat list" where
  "utf8_decode [] = []"
| "utf8_decode (b # bs) =
     (let n = lengths ! unat (drop_bit 3 b);
          tail6 = (\<lambda>k. unat (bs ! k) mod 64)
      in if n = 2 then (unat b mod 32 * 64 + tail6 0) # utf8_decode (drop 1 bs)
         else if n = 3 then (unat b mod 16 * 4096 + tail6 0 * 64 + tail6 1) # utf8_decode (drop 2 bs)
         else if n = 4
         then (unat b mod 8 * 262144 + tail6 0 * 4096 + tail6 1 * 64 + tail6 2) # utf8_decode (drop 3 bs)
         else unat b # utf8_decode bs)"
  by pat_completeness auto
termination
  by (relation "measure length") auto

declare utf8_decode.simps(2) [simp del]

lemma decode_steps:
  "lengths ! (unat b div 8) = 1 \<Longrightarrow> utf8_decode (b # bs) = unat b # utf8_decode bs"
  "lengths ! (unat b div 8) = 2 \<Longrightarrow> utf8_decode (b # b1 # bs) = (unat b mod 32 * 64 + unat b1 mod 64) # utf8_decode bs"
  "lengths ! (unat b div 8) = 3 \<Longrightarrow> utf8_decode (b # b1 # b2 # bs) =
     (unat b mod 16 * 4096 + unat b1 mod 64 * 64 + unat b2 mod 64) # utf8_decode bs"
  "lengths ! (unat b div 8) = 4 \<Longrightarrow> utf8_decode (b # b1 # b2 # b3 # bs) =
     (unat b mod 8 * 262144 + unat b1 mod 64 * 4096 + unat b2 mod 64 * 64 + unat b3 mod 64) # utf8_decode bs"
  by (simp_all add: utf8_decode.simps(2) lead_index Let_def)

lemma sextets:
  "c div 64 * 64 + c mod 64 = (c :: nat)"
  "c div 4096 * 4096 + c div 64 mod 64 * 64 + c mod 64 = c"
  "c div 262144 * 262144 + c div 4096 mod 64 * 4096 + c div 64 mod 64 * 64 + c mod 64 = c"
proof -
  show a: "c div 64 * 64 + c mod 64 = c" by simp
  have b: "c div 4096 * 64 + c div 64 mod 64 = c div 64" "c div 262144 * 64 + c div 4096 mod 64 = c div 4096"
    using div_mult_mod_eq [of "c div 64" 64] div_mult_mod_eq [of "c div 4096" 64]
    by (simp_all add: div_mult2_eq [symmetric])
  from a b(1) show c: "c div 4096 * 4096 + c div 64 mod 64 * 64 + c mod 64 = c" by linarith
  from c b(2) show "c div 262144 * 262144 + c div 4096 mod 64 * 4096 + c div 64 mod 64 * 64 + c mod 64 = c" by linarith
qed

lemma sextet_byte:
  assumes "b = (of_nat (0x80 + n mod 64) :: byte)"
  shows "unat b mod 64 = n mod 64"
proof -
  have "unat b = 0x80 + n mod 64" unfolding assms by (rule unat_byte) (simp add: less_le_trans [of _ 64])
  then show ?thesis by (simp add: mod_add_left_eq [symmetric])
qed

lemma utf8_decode_one:
  assumes "scalar c"
  shows "utf8_decode (utf8 c @ bs) = c # utf8_decode bs"
proof -
  have c: "c < 0x110000" using assms by (auto simp: scalar_def)
  define b1 b2 b3 :: byte where "b1 = of_nat (0x80 + c div 4096 mod 64)" and "b2 = of_nat (0x80 + c div 64 mod 64)"
    and "b3 = of_nat (0x80 + c mod 64)"
  note t = sextet_byte [OF this(1)] sextet_byte [OF this(2)] sextet_byte [OF this(3)]
  consider "c < 0x80" | "0x80 \<le> c" "c < 0x800" | "0x800 \<le> c" "c < 0x10000" | "0x10000 \<le> c" by linarith
  then show ?thesis
  proof cases
    case 1
    then have "unat (of_nat c :: byte) = c" by (intro unat_byte) simp
    with 1 show ?thesis by (simp add: utf8_def decode_steps lengths_ranges)
  next
    case 2
    define b :: byte where "b = of_nat (0xC0 + c div 64)"
    have u: "unat b = 0xC0 + c div 64" unfolding b_def using 2 by (intro unat_byte) simp
    with 2 have "lengths ! (unat b div 8) = 2" by (intro lengths_ranges) simp_all
    moreover have "unat b mod 32 = c div 64" unfolding u using 2 by (simp add: mod_add_left_eq [symmetric])
    moreover have "utf8 c = [b, b3]" using 2 by (simp add: utf8_def b_def b3_def)
    ultimately show ?thesis by (simp add: decode_steps(2) t(3) sextets(1))
  next
    case 3
    define b :: byte where "b = of_nat (0xE0 + c div 4096)"
    have u: "unat b = 0xE0 + c div 4096" unfolding b_def using 3 by (intro unat_byte) simp
    with 3 have "lengths ! (unat b div 8) = 3" by (intro lengths_ranges) simp_all
    moreover have "unat b mod 16 = c div 4096" unfolding u using 3 by (simp add: mod_add_left_eq [symmetric])
    moreover have "utf8 c = [b, b2, b3]" using 3 by (simp add: utf8_def b_def b2_def b3_def)
    ultimately show ?thesis by (simp add: decode_steps(3) t(2,3) sextets(2))
  next
    case 4
    define b :: byte where "b = of_nat (0xF0 + c div 262144)"
    have u: "unat b = 0xF0 + c div 262144" unfolding b_def using c by (intro unat_byte) simp
    with c have "unat b div 8 = 30" by simp
    then have "lengths ! (unat b div 8) = 4" by (simp only: lengths_ranges)
    moreover have "unat b mod 8 = c div 262144" unfolding u using c by (simp add: mod_add_left_eq [symmetric])
    moreover have "utf8 c = [b, b1, b2, b3]" using 4 by (simp add: utf8_def b_def b1_def b2_def b3_def)
    ultimately show ?thesis by (simp add: decode_steps(4) t sextets(3))
  qed
qed

lemma utf8_decode_text: "list_all scalar cs \<Longrightarrow> utf8_decode (utf8_text cs) = cs"
  by (induction cs) (simp_all add: utf8_decode_one)

interpretation reference: utf8_conversion "\<lambda>bs. utf16_text (utf8_decode bs)"
  by unfold_locales (simp add: utf8_decode_text)

subsection \<open>The cache never overflows\<close>

definition u8_ok :: "u8state \<Rightarrow> bool" where
  "u8_ok st \<longleftrightarrow> length (u8_partials st) = 4 \<and> u8_have st + u8_want st \<le> 4 \<and> (u8_want st = 0 \<longleftrightarrow> u8_have st = 0)"

lemma scan_back_result:
  "i < length bs \<Longrightarrow> scan_back bs i n = (j, m) \<Longrightarrow> j + m = i + n \<and> j \<le> i"
  by (induction bs i n arbitrary: j m rule: scan_back.induct) (auto split: if_splits)

lemma lengths_bound: "n < 32 \<Longrightarrow> lengths ! n \<le> 4"
proof -
  have "list_all (\<lambda>l. l \<le> 4) lengths" "length lengths = 32" by (simp_all add: lengths_def)
  then show "n < 32 \<Longrightarrow> ?thesis" by (simp add: list_all_length)
qed

lemma cache_partial_ok:
  assumes "length (u8_partials st) = 4" "u8_have st = 0" "u8_want st = 0"
  shows "\<exists>bs' st'. cache_partial bs st = Some (bs', st') \<and> u8_ok st'"
proof (cases "bs = []")
  case False
  obtain j m where sc: "scan_back bs (length bs - 1) 1 = (j, m)" by fastforce
  from scan_back_result [OF _ this] False have j: "j + m = length bs" "1 \<le> m" by (cases bs; auto)+
  have "unat (bs ! j) < 32 * 8" using unsigned_less [of "bs ! j", where ?'a = nat] by simp
  then have "lengths ! unat (drop_bit 3 (bs ! j)) \<le> 4"
    unfolding lead_index by (intro lengths_bound less_mult_imp_div_less)
  with False j assms sc show ?thesis
    by (auto simp: cache_partial_def put_partials_def u8_ok_def Let_def)
qed (use assms in \<open>simp add: cache_partial_def u8_ok_def\<close>)

lemma FAILED_codes [simp]:
  "\<not> FAILED S_OK" "FAILED E_ABORT" "FAILED E_UNEXPECTED" "FAILED ERROR_INVALID_STATE"
  "FAILED ERROR_NO_UNICODE_TRANSLATION"
  by (simp_all add: FAILED_def S_OK_def E_ABORT_def E_UNEXPECTED_def ERROR_INVALID_STATE_def
      ERROR_NO_UNICODE_TRANSLATION_def)

lemma complete_partial_ok:
  assumes "u8_ok st" and "ins \<noteq> []"
  shows "\<exists>r. complete_partial conv ins capa st = Some r \<and>
    (case r of Inl (hr, st') \<Rightarrow> FAILED hr \<or> u8_ok st'
     | Inr (units, capa', x, st') \<Rightarrow> length (u8_partials st') = 4 \<and> u8_have st' = 0 \<and> u8_want st' = 0)"
proof (cases "u8_have st = 0")
  case True
  with assms(1) show ?thesis by (simp add: complete_partial_def u8_ok_def)
next
  case False
  let ?k = "min (u8_want st) (length ins)"
  have "u8_have st + length (take ?k ins) \<le> length (u8_partials st)" using assms(1) by (auto simp: u8_ok_def)
  then obtain ps where "put_partials (u8_have st) (take ?k ins) st = Some (st\<lparr>u8_partials := ps\<rparr>)" "length ps = 4"
    using assms(1) by (simp add: put_partials_def u8_ok_def)
  with False assms show ?thesis
    by (auto simp: complete_partial_def Let_def u8_ok_def)
qed

text \<open>Whatever the bytes: a call completes, and unless it fails the cache is in order again.\<close>

lemma u8u16_ok:
  assumes "u8_ok st"
  shows "\<exists>hr out st'. u8u16 conv ins st = Some (hr, out, st') \<and> (FAILED hr \<or> u8_ok st')"
proof (cases "ins = [] \<or> length ins + u8_have st > INT_MAX")
  case True
  with assms show ?thesis by (auto simp: u8u16_def)
next
  case False
  let ?c = "complete_partial conv ins (length ins + u8_have st) st"
  from complete_partial_ok [OF assms] False obtain r where r: "?c = Some r"
    "case r of Inl (hr, st') \<Rightarrow> FAILED hr \<or> u8_ok st'
     | Inr (units, capa', x, st') \<Rightarrow> length (u8_partials st') = 4 \<and> u8_have st' = 0 \<and> u8_want st' = 0" by blast
  show ?thesis
  proof (cases r)
    case (Inl l)
    with r False show ?thesis by (cases l) (auto simp: u8u16_def)
  next
    case (Inr rr)
    then obtain units capa' x st1 where rr: "r = Inr (units, capa', x, st1)" by (cases rr) auto
    with r(2) cache_partial_ok [of st1 x] obtain bs st' where "cache_partial x st1 = Some (bs, st')" "u8_ok st'" by auto
    with False r(1) rr show ?thesis by (simp add: u8u16_def Let_def)
  qed
qed

subsection \<open>Sessions\<close>

datatype session_op = SBegin | SAbandon | SWrite "byte list" | SEnd

text \<open>A sequence of calls on a stream, with the result of each.\<close>

fun session_run ::
    "(byte list \<Rightarrow> wstring) \<Rightarrow> (wstring \<Rightarrow> 't \<Rightarrow> ('t \<times> HRESULT option) option) \<Rightarrow> session_op list \<Rightarrow>
     Utf8TerminalStream \<Rightarrow> 't \<Rightarrow> (HRESULT list \<times> Utf8TerminalStream \<times> 't) option" where
  "session_run conv writer [] u t = Some ([], u, t)"
| "session_run conv writer (p # ops) u t =
     do {
       (hr, u, t) \<leftarrow> (case p of
          SBegin \<Rightarrow> Some (S_OK, stream_Begin u, t)
        | SAbandon \<Rightarrow> Some (S_OK, stream_Abandon u, t)
        | SWrite bytes \<Rightarrow> stream_Write conv writer bytes u t
        | SEnd \<Rightarrow> (case stream_End u of (hr, u) \<Rightarrow> Some (hr, u, t)));
       (hrs, u, t) \<leftarrow> session_run conv writer ops u t;
       Some (hr # hrs, u, t)
     }"

definition stream_ok :: "Utf8TerminalStream \<Rightarrow> bool" where
  "stream_ok u \<longleftrightarrow>
     u8_ok (us_state u) \<and>
     snap_pendingBytes (us_snapshot u) = of_nat (u8_have (us_state u))"

lemma reset_ok: "u8_ok u8state_reset" "u8_have u8state_reset = 0"
  by (simp_all add: u8_ok_def u8state_reset_def)

lemma set_lastError_ok [simp]: "stream_ok (set_lastError hr u) = stream_ok u"
  by (simp add: stream_ok_def set_lastError_def)

lemma stream_Write_ok:
  assumes "stream_ok u" and "\<And>str t. \<exists>r. writer str t = Some r"
  shows "\<exists>hr u' t'. stream_Write conv writer bytes u t = Some (hr, u', t') \<and> stream_ok u' \<and>
    (FAILED hr \<longrightarrow> u' = set_lastError hr u)"
proof -
  from assms(1) u8u16_ok [of "us_state u" conv bytes] obtain hr out st where
    d: "u8u16 conv bytes (us_state u) = Some (hr, out, st)" "FAILED hr \<or> u8_ok st" by (auto simp: stream_ok_def)
  obtain t' thrown where w: "writer out t = Some (t', thrown)" using assms(2) [of out t] by auto
  show ?thesis
  proof (cases "snap_ended (us_snapshot u) \<or> bytes = [] \<or> FAILED hr")
    case True
    with d assms(1) show ?thesis by (auto simp: stream_Write_def)
  next
    case False
    let ?r = "if out \<noteq> [] then writer out t else Some (t, None)"
    from w obtain t2 thrown2 where r: "?r = Some (t2, thrown2)" by (cases "out = []") auto
    have "stream_Write conv writer bytes u t = (case thrown2 of Some hr \<Rightarrow> Some (hr, set_lastError hr u, t2)
        | None \<Rightarrow> Some (S_OK, accept_write bytes out st u, t2))"
      using False d(1) r by (simp add: stream_Write_def)
    with False d(2) assms(1) show ?thesis
      by (cases thrown2) (simp_all add: stream_ok_def accept_write_def set_lastError_def Let_def)
  qed
qed

text \<open>C24: Whatever bytes a session receives and in whatever order its stream is begun, written, ended and
  abandoned: no call writes outside the four bytes of the decoder's cache, at most three bytes are
  ever pending (and the snapshot says how many), and a write that fails changes nothing but the
  recorded error.\<close>

theorem session_stream_safe:
  assumes "\<And>str t. \<exists>r. writer str t = Some r"
  shows "\<exists>hrs u' t'. session_run conv writer ops Utf8TerminalStream_init t = Some (hrs, u', t') \<and>
    u8_have (us_state u') \<le> 3 \<and> snap_pendingBytes (us_snapshot u') = of_nat (u8_have (us_state u')) \<and>
    (\<forall>bytes hr u'' t''. stream_Write conv writer bytes u' t' = Some (hr, u'', t'') \<and> FAILED hr \<longrightarrow>
       u'' = set_lastError hr u')"
proof -
  have run: "stream_ok u \<Longrightarrow> \<exists>hrs u' t'. session_run conv writer ops u t = Some (hrs, u', t') \<and> stream_ok u'" for u t ops
  proof (induction ops arbitrary: u t)
    case (Cons p ops)
    have "\<exists>hr u' t'. (case p of SBegin \<Rightarrow> Some (S_OK, stream_Begin u, t) | SAbandon \<Rightarrow> Some (S_OK, stream_Abandon u, t)
        | SWrite bytes \<Rightarrow> stream_Write conv writer bytes u t
        | SEnd \<Rightarrow> (case stream_End u of (hr, u) \<Rightarrow> Some (hr, u, t))) = Some (hr, u', t') \<and> stream_ok u'"
    proof (cases p)
      case (SWrite bytes)
      obtain hr u' t' where "stream_Write conv writer bytes u t = Some (hr, u', t')" "stream_ok u'"
        using stream_Write_ok [where writer = writer, OF Cons.prems assms] by blast
      with SWrite show ?thesis by simp
    qed (use Cons.prems reset_ok in \<open>auto simp: stream_Begin_def stream_Abandon_def stream_End_def stream_ok_def
        Snapshot_init_def set_lastError_def Let_def\<close>)
    then obtain hr u' t' where "(case p of SBegin \<Rightarrow> Some (S_OK, stream_Begin u, t)
        | SAbandon \<Rightarrow> Some (S_OK, stream_Abandon u, t) | SWrite bytes \<Rightarrow> stream_Write conv writer bytes u t
        | SEnd \<Rightarrow> (case stream_End u of (hr, u) \<Rightarrow> Some (hr, u, t))) = Some (hr, u', t')" "stream_ok u'" by blast
    with Cons.IH [of u' t'] show ?case by auto
  qed simp
  have "stream_ok Utf8TerminalStream_init"
    using reset_ok by (simp add: stream_ok_def Utf8TerminalStream_init_def Snapshot_init_def)
  from run [OF this, of ops t] obtain hrs u' t' where
    r: "session_run conv writer ops Utf8TerminalStream_init t = Some (hrs, u', t')" and ok: "stream_ok u'" by blast
  from ok have "u8_have (us_state u') \<le> 3" by (auto simp: stream_ok_def u8_ok_def)
  moreover from ok have "snap_pendingBytes (us_snapshot u') = of_nat (u8_have (us_state u'))" by (simp add: stream_ok_def)
  moreover have "\<forall>bytes hr u'' t''. stream_Write conv writer bytes u' t' = Some (hr, u'', t'') \<and> FAILED hr \<longrightarrow>
      u'' = set_lastError hr u'"
  proof (intro allI impI)
    fix bytes hr u'' t''
    assume "stream_Write conv writer bytes u' t' = Some (hr, u'', t'') \<and> FAILED hr"
    moreover obtain hr2 u2 t2 where "stream_Write conv writer bytes u' t' = Some (hr2, u2, t2)"
      "FAILED hr2 \<longrightarrow> u2 = set_lastError hr2 u'"
      using stream_Write_ok [where writer = writer, OF ok assms] by blast
    ultimately show "u'' = set_lastError hr u'" by simp
  qed
  ultimately show ?thesis using r by blast
qed

lemma session_stream_safe_witness:
  "\<exists>hrs u' t'. session_run (\<lambda>bs. utf16_text (utf8_decode bs)) (\<lambda>str t. Some (t @ str, None))
       [SBegin, SWrite [0x41, 0xE2, 0x82], SWrite [0xAC], SWrite [0xC3], SEnd] Utf8TerminalStream_init [] =
       Some (hrs, u', t') \<and>
    u8_have (us_state u') \<le> 3 \<and> snap_pendingBytes (us_snapshot u') = of_nat (u8_have (us_state u'))"
  using session_stream_safe [of "\<lambda>str t. Some (t @ str, None)" "\<lambda>bs. utf16_text (utf8_decode bs)"
      "[SBegin, SWrite [0x41, 0xE2, 0x82], SWrite [0xAC], SWrite [0xC3], SEnd]" "[]"] by blast

end
