(* ===== verification/SessionStream.thy ===== *)
theory SessionStream
  imports Utf8Stream OutputCalls
begin

text \<open>
  A session's bytes on their way to the parser: the stream of \<^verbatim>\<open>utf8_terminal_stream.hpp\<close> with
  \<^verbatim>\<open>StateMachine::ProcessString\<close> as its writer. However the bytes of a text are cut into writes, inside of
  code points and of control sequences, the terminal gets the calls it would get if the whole text had been
  processed at once, up to cuts inside of a printed text.
\<close>

text \<open>A writer that never throws.\<close>

definition quiet_writer :: "(wstring \<Rightarrow> 't \<Rightarrow> 't option) \<Rightarrow> wstring \<Rightarrow> 't \<Rightarrow> ('t \<times> HRESULT option) option" where
  "quiet_writer f str t = map_option (\<lambda>t. (t, None)) (f str t)"

text \<open>An open stream with the bytes \<open>q\<close> of the next code point of \<open>cs\<close> pending.\<close>

definition stream_open :: "byte list \<Rightarrow> nat list \<Rightarrow> Utf8TerminalStream \<Rightarrow> bool" where
  "stream_open q cs u \<longleftrightarrow>
     cached q cs (us_state u) \<and> \<not> snap_ended (us_snapshot u) \<and>
     snap_pendingBytes (us_snapshot u) = of_nat (u8_have (us_state u))"

context utf8_conversion
begin

lemma write_chunk:
  assumes "stream_open q cs u" and "list_all scalar cs" and "q @ x @ rest = utf8_text cs"
    and "length x + 4 \<le> INT_MAX"
  shows "\<exists>cs1 cs2 q' u'. cs = cs1 @ cs2 \<and> q' @ rest = utf8_text cs2 \<and> stream_open q' cs2 u' \<and>
    (\<forall>t. stream_Write conv (quiet_writer f) x u t =
       map_option (\<lambda>t. (S_OK, u', t)) (if cs1 = [] then Some t else f (utf16_text cs1) t))"
proof (cases "x = []")
  case True
  with assms show ?thesis
    by (intro exI [of _ "[]"] exI [of _ cs] exI [of _ q] exI [of _ u]) (simp add: stream_Write_def stream_open_def)
next
  case False
  have u: "cached q cs (us_state u)" "\<not> snap_ended (us_snapshot u)" using assms(1) by (simp_all add: stream_open_def)
  from decode_chunk [OF u(1) assms(2-4)] obtain cs1 cs2 q' st' where
    d: "u8u16 conv x (us_state u) = Some (S_OK, utf16_text cs1, st')" "cs = cs1 @ cs2" "q' @ rest = utf8_text cs2"
    "cached q' cs2 st'" by blast
  let ?u = "accept_write x (utf16_text cs1) st' u"
  have "stream_open q' cs2 ?u" using d(4) u(2) by (simp add: stream_open_def accept_write_def Let_def)
  moreover have "stream_Write conv (quiet_writer f) x u t =
      map_option (\<lambda>t. (S_OK, ?u, t)) (if cs1 = [] then Some t else f (utf16_text cs1) t)" for t
    using False u(2) d(1)
    by (cases "f (utf16_text cs1) t") (simp_all add: stream_Write_def quiet_writer_def)
  ultimately show ?thesis using d(2,3) by blast
qed

lemma write_chunks:
  assumes "stream_open q cs u" and "list_all scalar cs" and "q @ concat xs @ rest = utf8_text cs"
    and "\<forall>x \<in> set xs. length x + 4 \<le> INT_MAX"
  shows "\<exists>cs1 cs2 q' u' strs. cs = cs1 @ cs2 \<and> q' @ rest = utf8_text cs2 \<and> stream_open q' cs2 u' \<and> concat strs = utf16_text cs1 \<and>
    (\<forall>t. session_run conv (quiet_writer f) (map SWrite xs @ ops) u t =
      do { t \<leftarrow> foldM f strs t;
           (hrs, u, t) \<leftarrow> session_run conv (quiet_writer f) ops u' t;
           Some (replicate (length xs) S_OK @ hrs, u, t) })"
  using assms
proof (induction xs arbitrary: q cs u)
  case Nil
  then show ?case
    by (intro exI [of _ "[]"] exI [of _ cs] exI [of _ q] exI [of _ u] exI [of _ "[]"]) simp
next
  case (Cons x xs)
  have "q @ x @ (concat xs @ rest) = utf8_text cs" "length x + 4 \<le> INT_MAX" using Cons.prems(3,4) by simp_all
  from write_chunk [OF Cons.prems(1,2) this, of f] obtain cs1 ds q1 u1 where
    w: "cs = cs1 @ ds" "q1 @ concat xs @ rest = utf8_text ds" "stream_open q1 ds u1"
    "\<And>t. stream_Write conv (quiet_writer f) x u t =
      map_option (\<lambda>t. (S_OK, u1, t)) (if cs1 = [] then Some t else f (utf16_text cs1) t)" by blast
  have "list_all scalar ds" "\<forall>x \<in> set xs. length x + 4 \<le> INT_MAX" using Cons.prems(2,4) w(1) by simp_all
  from Cons.IH [OF w(3) this(1) w(2) this(2)] obtain cs2 cs3 q2 u2 strs where
    r: "ds = cs2 @ cs3" "q2 @ rest = utf8_text cs3" "stream_open q2 cs3 u2"
    "concat strs = utf16_text cs2" "\<And>t. session_run conv (quiet_writer f) (map SWrite xs @ ops) u1 t =
      do { t \<leftarrow> foldM f strs t;
           (hrs, u, t) \<leftarrow> session_run conv (quiet_writer f) ops u2 t;
           Some (replicate (length xs) S_OK @ hrs, u, t) }" by blast
  let ?strs = "(if cs1 = [] then [] else [utf16_text cs1]) @ strs"
  have "session_run conv (quiet_writer f) (map SWrite (x # xs) @ ops) u t =
      do { t \<leftarrow> foldM f ?strs t;
           (hrs, u, t) \<leftarrow> session_run conv (quiet_writer f) ops u2 t;
           Some (replicate (length (x # xs)) S_OK @ hrs, u, t) }" for t
    using w(4) r(5)
    by (cases "f (utf16_text cs1) t"; auto simp: bind_map_option foldM_append split: Option.bind_splits)
  moreover have "concat ?strs = utf16_text (cs1 @ cs2)" using r(4) by auto
  moreover have "cs = (cs1 @ cs2) @ cs3" using w(1) r(1) by simp
  ultimately show ?case using r(2,3) by blast
qed

text \<open>A whole session.\<close>

lemma session_text:
  assumes "list_all scalar cs" and "concat xs = utf8_text cs" and "\<forall>x \<in> set xs. length x + 4 \<le> INT_MAX"
  shows "\<exists>u' strs. concat strs = utf16_text cs \<and> snap_pendingBytes (us_snapshot u') = 0 \<and>
    (\<forall>t. session_run conv (quiet_writer f) (SBegin # map SWrite xs @ [SEnd]) u t =
       map_option (\<lambda>t. (replicate (length xs + 2) S_OK, u', t)) (foldM f strs t))"
proof -
  let ?u = "stream_Begin u"
  have "stream_open [] cs ?u"
    by (simp add: stream_open_def stream_Begin_def cached_def u8state_reset_def Snapshot_init_def Let_def)
  from write_chunks [OF this assms(1) _ assms(3), of "[]" f "[SEnd]"] assms(2) obtain cs1 cs2 q u2 strs where
    r: "cs = cs1 @ cs2" "q = utf8_text cs2" "stream_open q cs2 u2"
    "concat strs = utf16_text cs1" "\<And>t. session_run conv (quiet_writer f) (map SWrite xs @ [SEnd]) ?u t =
      do { t \<leftarrow> foldM f strs t;
           (hrs, u, t) \<leftarrow> session_run conv (quiet_writer f) [SEnd] u2 t;
           Some (replicate (length xs) S_OK @ hrs, u, t) }" by auto
  have "q = []" using r(2,3) by (cases cs2) (auto simp: stream_open_def cached_def split: if_splits)
  then have "cs2 = []" "snap_pendingBytes (us_snapshot (snd (stream_End u2))) = 0"
    "stream_End u2 = (S_OK, set_lastError S_OK (u2\<lparr>us_snapshot := (us_snapshot u2)\<lparr>snap_ended := True\<rparr>\<rparr>))"
    using r(2,3) by (simp_all add: stream_End_def stream_open_def cached_def set_lastError_def)
  with r(1,4,5) show ?thesis
    by (intro exI [of _ "snd (stream_End u2)"] exI [of _ strs])
      (auto simp: replicate_append_same split: Option.bind_splits)
qed

end

subsection \<open>Into the parser\<close>

text \<open>C23: However a session's output is cut into writes, inside of code points, of surrogate pairs or of
  control sequences: every call succeeds, no byte stays pending at the end, and for any terminal the parser
  is as if the UTF-16 of the whole text had been processed at once, the text printed between two other calls being taken
  together (\<open>gather\<close>; a terminal may notice that a text was printed in several pieces). A surrogate pair is
  never cut. The callbacks of the terminal keep the kind of the machine and do not look at the position.\<close>

theorem session_split_anywhere:
  fixes D :: "('d, 'h, 'c) dispatch_ops"
  assumes "\<And>cb s s'. run cb s = Some s' \<Longrightarrow> sm_isEngineForInput s' = sm_isEngineForInput s"
    and "\<And>cb s. \<not> sm_isEngineForInput s \<Longrightarrow>
      map_option sm_erase (run cb (sm_erase s)) = map_option sm_erase (run cb s)"
    and "utf8_conversion conv" and "\<not> sm_isEngineForInput s"
    and "list_all scalar cs" and "concat chunks = utf8_text cs" and "\<forall>x \<in> set chunks. length x \<le> 1024 * 1024"
  shows "map_option (\<lambda>(hrs, u', s'). (hrs, snap_pendingBytes (us_snapshot u'), sm_erase s'))
      (session_run conv (quiet_writer (ProcessString (output_ops env (gather D) run)))
        (SBegin # map SWrite chunks @ [SEnd]) u s) =
    map_option (\<lambda>s'. (replicate (length chunks + 2) S_OK, 0, sm_erase s'))
      (ProcessString (output_ops env (gather D) run) (utf16_text cs) s)"
proof -
  let ?f = "ProcessString (output_ops env (gather D) run)"
  have r: "stream_callbacks run" using assms(1,2) by (rule stream_callbacks.intro)
  have "\<forall>x \<in> set chunks. length x + 4 \<le> INT_MAX" using assms(7) by (auto simp: INT_MAX_def)
  from utf8_conversion.session_text [OF assms(3,5,6) this, of ?f u] obtain u' strs where
    t: "concat strs = utf16_text cs" "snap_pendingBytes (us_snapshot u') = 0"
    "session_run conv (quiet_writer ?f) (SBegin # map SWrite chunks @ [SEnd]) u s =
      map_option (\<lambda>t. (replicate (length chunks + 2) S_OK, u', t)) (foldM ?f strs s)" by blast
  have "map_option (\<lambda>(hrs, u', s'). (hrs, snap_pendingBytes (us_snapshot u'), sm_erase s'))
      (session_run conv (quiet_writer ?f) (SBegin # map SWrite chunks @ [SEnd]) u s) =
    map_option (\<lambda>e. (replicate (length chunks + 2) S_OK, 0, e)) (map_option sm_erase (foldM ?f strs s))"
    unfolding t(3) by (simp add: option.map_comp comp_def t(2))
  also have "map_option sm_erase (foldM ?f strs s) = map_option sm_erase (?f (utf16_text cs) s)"
    using stream_callbacks.gathered_strings [OF r assms(4), of env D strs] t(1) by simp
  finally show ?thesis by (simp add: option.map_comp comp_def)
qed

lemma session_split_anywhere_witness:
  "map_option (\<lambda>(hrs, u', s'). (hrs, snap_pendingBytes (us_snapshot u'), sm_erase s'))
      (session_run (\<lambda>bs. utf16_text (utf8_decode bs))
        (quiet_writer (ProcessString (output_ops plain_env (gather print_log) log_callback)))
        (SBegin # map SWrite [[0x1B, 0x5B], [0x31, 0x6D, 0xF0, 0x9F], [0x98], [], [0x80]] @ [SEnd])
        Utf8TerminalStream_init log_machine) =
    map_option (\<lambda>s'. (replicate (length [[0x1B, 0x5B], [0x31, 0x6D, 0xF0, 0x9F], [0x98], [], [0x80 :: byte]] + 2) S_OK, 0,
        sm_erase s'))
      (ProcessString (output_ops plain_env (gather print_log) log_callback)
        (utf16_text [0x1B, 0x5B, 0x31, 0x6D, 0x1F600]) log_machine)"
  by (rule session_split_anywhere [OF _ _ reference.utf8_conversion_axioms])
    (simp_all add: log_callback_def log_output scalar_def utf8_def)

end
