(* ===== verification/TerminalDocument.thy ===== *)
theory TerminalDocument
  imports Utf8Stream
begin

text \<open>
  A terminal document of \<^verbatim>\<open>src/src/vt7/VT7.Native/surface.cpp\<close>: the stream of a session with its generation
  and the sequence numbers of its producers, the queue of the terminal's replies, and the functions of
  the native interface that work on them. The terminal core itself, the system's text conversion and
  the windows of the views are parameters. The lemmas say what every reachable document guarantees: the
  reply queue stays within its limits and its accounting is exact, and the sequence numbers accepted from
  one producer increase.
\<close>

subsection \<open>Result codes\<close>

definition S_FALSE :: HRESULT where
  "S_FALSE = 1"

definition E_POINTER :: HRESULT where
  "E_POINTER = 0x80004003"

definition E_INVALIDARG :: HRESULT where
  "E_INVALIDARG = 0x80070057"

definition E_HANDLE :: HRESULT where
  "E_HANDLE = 0x80070006"

definition RPC_E_WRONG_THREAD :: HRESULT where
  "RPC_E_WRONG_THREAD = 0x8001010E"

text \<open>\<^verbatim>\<open>HRESULT_FROM_WIN32\<close> of three more system errors.\<close>

definition ERROR_BUFFER_OVERFLOW :: HRESULT where
  "ERROR_BUFFER_OVERFLOW = 0x8007006F"

definition ERROR_BUSY :: HRESULT where
  "ERROR_BUSY = 0x800700AA"

definition ERROR_INSUFFICIENT_BUFFER :: HRESULT where
  "ERROR_INSUFFICIENT_BUFFER = 0x8007007A"

lemma FAILED_more [simp]:
  "\<not> FAILED S_FALSE" "FAILED E_POINTER" "FAILED E_INVALIDARG" "FAILED E_HANDLE" "FAILED RPC_E_WRONG_THREAD"
  "FAILED ERROR_BUFFER_OVERFLOW" "FAILED ERROR_BUSY" "FAILED ERROR_INSUFFICIENT_BUFFER"
  by (simp_all add: FAILED_def S_FALSE_def E_POINTER_def E_INVALIDARG_def E_HANDLE_def RPC_E_WRONG_THREAD_def
      ERROR_BUFFER_OVERFLOW_def ERROR_BUSY_def ERROR_INSUFFICIENT_BUFFER_def)

subsection \<open>What a document works with\<close>

text \<open>The terminal core. A call that writes to it returns the responses the core produced, in order, and
  the error of an exception if there was one; it may also not complete. The encoders of input return
  the text to send, if the event is handled.\<close>

record 't terminal_ops =
  term_Create :: "u32 \<Rightarrow> u32 \<Rightarrow> u32 \<Rightarrow> 't"
  term_Write :: "wstring \<Rightarrow> 't \<Rightarrow> ('t \<times> wstring list \<times> HRESULT option) option"
  term_HardResetWithoutErase :: "'t \<Rightarrow> ('t \<times> wstring list \<times> HRESULT option) option"
  term_UserResize :: "u32 \<Rightarrow> u32 \<Rightarrow> 't \<Rightarrow> HRESULT \<times> 't"
  term_GetViewport :: "'t \<Rightarrow> int \<times> int"
  term_SendKeyEvent :: "u32 \<Rightarrow> u32 \<Rightarrow> u32 \<Rightarrow> bool \<Rightarrow> 't \<Rightarrow> 't \<times> wstring option"
  term_SendCharEvent :: "wchar \<Rightarrow> u32 \<Rightarrow> u32 \<Rightarrow> 't \<Rightarrow> 't \<times> wstring option"
  term_FocusChanged :: "bool \<Rightarrow> 't \<Rightarrow> 't \<times> wstring option"

text \<open>The system: the conversions of texts (\<^verbatim>\<open>WideCharToMultiByte\<close> fails on an unpaired surrogate) and the
  result code an exception of \<^verbatim>\<open>gsl::narrow\<close> is reported as.\<close>

record document_env =
  env_MultiByteToWideChar :: "byte list \<Rightarrow> wstring"
  env_WideCharToMultiByte :: "wstring \<Rightarrow> HRESULT + byte list"
  env_narrowing_error :: HRESULT

record Reply =
  reply_origin :: u64
  reply_sequence :: u64
  reply_bytes :: "byte list"

record 't TerminalDocument =
  doc_cookie :: u64
  doc_creatingThread :: u32
  doc_terminal :: 't
  doc_outputStream :: Utf8TerminalStream
  doc_attachedView :: "nat option"
  doc_attachmentGeneration :: u64
  doc_mutationSequence :: u64
  doc_streamGeneration :: u64
  doc_originGeneration :: u64
  doc_lastSequence :: u64
  doc_producerSequences :: "u64 \<rightharpoonup> u64"
  doc_replies :: "Reply list"
  doc_replyBytes :: u64
  doc_replySequence :: u64
  doc_currentOrigin :: u64
  doc_replyFailure :: HRESULT
  doc_streamActive :: bool
  doc_initialized :: bool
  doc_scrollbackLines :: u32
  doc_loadDemo :: bool

definition expectedCookie :: u64 where
  "expectedCookie = 0x544437444f43554d"

definition VT7_TERMINAL_REPLY_BYTES :: nat where
  "VT7_TERMINAL_REPLY_BYTES = 4096"

definition VT7_INPUT_RESULT_BYTES :: nat where
  "VT7_INPUT_RESULT_BYTES = 256"

subsection \<open>Replies\<close>

text \<open>The text of a response as UTF-8, as \<^verbatim>\<open>QueueReply\<close> and \<^verbatim>\<open>CompleteInputResult\<close> obtain it.\<close>

definition encode_response :: "document_env \<Rightarrow> wstring \<Rightarrow> HRESULT + byte list" where
  "encode_response env response =
     (if length response > INT_MAX then Inl (env_narrowing_error env)
      else if response = [] then Inr []
      else env_WideCharToMultiByte env response)"

text \<open>The loop over pieces of at most 4096 bytes: the error that ended it, if any.\<close>

function queue_pieces :: "byte list \<Rightarrow> 't TerminalDocument \<Rightarrow> HRESULT option \<times> 't TerminalDocument" where
  "queue_pieces encoded doc =
     (if encoded = [] then (None, doc)
      else (let piece = take VT7_TERMINAL_REPLY_BYTES encoded
            in if length (doc_replies doc) \<ge> 64 \<or> doc_replyBytes doc + of_nat (length piece) > 64 * 1024
               then (Some ERROR_BUFFER_OVERFLOW, doc)
               else (let n = doc_replySequence doc + 1
                     in queue_pieces (drop VT7_TERMINAL_REPLY_BYTES encoded)
                          (doc\<lparr>doc_replySequence := n,
                               doc_replyBytes := doc_replyBytes doc + of_nat (length piece),
                               doc_replies := doc_replies doc @
                                 [\<lparr>reply_origin = doc_currentOrigin doc, reply_sequence = n, reply_bytes = piece\<rparr>]\<rparr>))))"
  by pat_completeness auto
termination
  by (relation "measure (\<lambda>(encoded, doc). length encoded)") (auto simp: VT7_TERMINAL_REPLY_BYTES_def)

declare queue_pieces.simps [simp del]

definition QueueReply :: "document_env \<Rightarrow> wstring \<Rightarrow> 't TerminalDocument \<Rightarrow> 't TerminalDocument" where
  "QueueReply env response doc =
     (let (thrown, doc) =
        (if doc_currentOrigin doc = 0 then (Some E_UNEXPECTED, doc)
         else (case encode_response env response of
                 Inl hr \<Rightarrow> (Some hr, doc)
               | Inr encoded \<Rightarrow> queue_pieces encoded doc))
      in case thrown of
           None \<Rightarrow> doc
         | Some hr \<Rightarrow> (if FAILED (doc_replyFailure doc) then doc else doc\<lparr>doc_replyFailure := hr\<rparr>))"

text \<open>Writing to the core: each response goes to \<^verbatim>\<open>QueueReply\<close> through the callback.\<close>

definition terminal_Write ::
    "document_env \<Rightarrow> 't terminal_ops \<Rightarrow> wstring \<Rightarrow> 't TerminalDocument \<Rightarrow>
     ('t TerminalDocument \<times> HRESULT option) option" where
  "terminal_Write env T str doc =
     do { (t, responses, thrown) \<leftarrow> term_Write T str (doc_terminal doc);
          Some (fold (QueueReply env) responses (doc\<lparr>doc_terminal := t\<rparr>), thrown) }"

definition terminal_HardReset ::
    "document_env \<Rightarrow> 't terminal_ops \<Rightarrow> 't TerminalDocument \<Rightarrow> ('t TerminalDocument \<times> HRESULT option) option" where
  "terminal_HardReset env T doc =
     do { (t, responses, thrown) \<leftarrow> term_HardResetWithoutErase T (doc_terminal doc);
          Some (fold (QueueReply env) responses (doc\<lparr>doc_terminal := t\<rparr>), thrown) }"

subsection \<open>The stream of a document\<close>

definition reset_text :: wstring where
  "reset_text =
     0x1B # wstr ''[?1049l'' @ 0x1B # wstr ''[?2026l'' @ 0x1B # wstr ''[0m'' @ 0x1B # wstr ''[3J'' @
     0x1B # wstr ''[2J'' @ 0x1B # wstr ''[H''"

definition begin_stream :: "u64 \<Rightarrow> 't TerminalDocument \<Rightarrow> 't TerminalDocument" where
  "begin_stream generation doc =
     doc\<lparr>doc_outputStream := stream_Begin (doc_outputStream doc),
         doc_streamGeneration := generation,
         doc_originGeneration := 0,
         doc_lastSequence := 0,
         doc_producerSequences := Map.empty,
         doc_replies := [],
         doc_replyBytes := 0,
         doc_replySequence := 0,
         doc_replyFailure := S_OK,
         doc_streamActive := True,
         doc_mutationSequence := doc_mutationSequence doc + 1\<rparr>"

text \<open>A function that throws has the error as its result; \<^verbatim>\<open>CATCH_RETURN\<close> of its callers returns it.\<close>

definition BeginDocumentStream ::
    "document_env \<Rightarrow> 't terminal_ops \<Rightarrow> u64 \<Rightarrow> 't TerminalDocument \<Rightarrow> (HRESULT \<times> 't TerminalDocument) option" where
  "BeginDocumentStream env T generation doc =
     (if generation = 0 then Some (E_INVALIDARG, doc)
      else if \<not> doc_initialized doc then Some (ERROR_INVALID_STATE, doc)
      else do {
        (doc, thrown) \<leftarrow> terminal_HardReset env T doc;
        (case thrown of
           Some hr \<Rightarrow> Some (hr, doc)
         | None \<Rightarrow> do {
             (doc, thrown) \<leftarrow> terminal_Write env T reset_text doc;
             (case thrown of
                Some hr \<Rightarrow> Some (hr, doc)
              | None \<Rightarrow> Some (S_OK, begin_stream generation doc)) }) })"

definition accept_sequence :: "u64 \<Rightarrow> u64 \<Rightarrow> 't TerminalDocument \<Rightarrow> 't TerminalDocument" where
  "accept_sequence origin sequence doc =
     doc\<lparr>doc_originGeneration := origin,
         doc_lastSequence := sequence,
         doc_producerSequences := (doc_producerSequences doc)(origin \<mapsto> sequence),
         doc_mutationSequence := doc_mutationSequence doc + 1\<rparr>"

definition stale_sequence :: "u64 \<Rightarrow> u64 \<Rightarrow> 't TerminalDocument \<Rightarrow> bool" where
  "stale_sequence origin sequence doc \<longleftrightarrow>
     (case doc_producerSequences doc origin of None \<Rightarrow> False | Some prior \<Rightarrow> sequence \<le> prior)"

definition WriteDocumentStream ::
    "document_env \<Rightarrow> 't terminal_ops \<Rightarrow> u64 \<Rightarrow> u64 \<Rightarrow> u64 \<Rightarrow> byte list \<Rightarrow> 't TerminalDocument \<Rightarrow>
     (HRESULT \<times> 't TerminalDocument) option" where
  "WriteDocumentStream env T generation origin sequence bytes doc =
     (if \<not> doc_streamActive doc \<or> generation = 0 \<or> generation \<noteq> doc_streamGeneration doc \<or> origin = 0 \<or> sequence = 0
      then Some (E_INVALIDARG, doc)
      else if stale_sequence origin sequence doc then Some (ERROR_INVALID_STATE, doc)
      else do {
        (hr, u, doc) \<leftarrow> stream_Write (env_MultiByteToWideChar env) (terminal_Write env T) bytes
                           (doc_outputStream doc) (doc\<lparr>doc_currentOrigin := origin\<rparr>);
        let doc = doc\<lparr>doc_outputStream := u, doc_currentOrigin := 0\<rparr>;
        (if FAILED hr then Some (hr, doc)
         else if FAILED (doc_replyFailure doc) then Some (doc_replyFailure doc, doc)
         else Some (S_OK, accept_sequence origin sequence doc)) })"

definition EndDocumentStream :: "u64 \<Rightarrow> u32 \<Rightarrow> 't TerminalDocument \<Rightarrow> HRESULT \<times> 't TerminalDocument" where
  "EndDocumentStream generation eofKind doc =
     (if generation = 0 \<or> generation \<noteq> doc_streamGeneration doc \<or> eofKind > 1 then (E_INVALIDARG, doc)
      else (let doc = doc\<lparr>doc_streamActive := False, doc_mutationSequence := doc_mutationSequence doc + 1\<rparr>
            in if eofKind \<noteq> 0
               then (S_OK, doc\<lparr>doc_outputStream := stream_Abandon (doc_outputStream doc)\<rparr>)
               else (let (hr, u) = stream_End (doc_outputStream doc) in (hr, doc\<lparr>doc_outputStream := u\<rparr>))))"

subsection \<open>Creation\<close>

definition ansi :: "string \<Rightarrow> wstring" where
  "ansi str = 0x1B # wstr (CHR ''['' # str)"

definition crlf :: wstring where
  "crlf = [0x0D, 0x0A]"

definition demo_head :: wstring where
  "demo_head =
     ansi ''0m'' @ ansi ''2J'' @ ansi ''H'' @
     ansi ''1;38;2;101;184;255m'' @ wstr ''VT7 - the first terminal viewport'' @ ansi ''0m'' @ crlf @
     wstr ''Windows 7 deserves a terminal built with care.'' @ crlf @ crlf @
     wstr ''This text lives in Microsoft TerminalCore'' @ [0x27] @ wstr ''s text buffer.'' @ crlf @
     wstr ''Resize the window: the core reflows the content.'' @ crlf @ crlf @
     wstr ''Standard and bright colors:'' @ crlf"

definition demo_color :: "nat \<Rightarrow> wstring" where
  "demo_color index =
     0x1B # 0x5B # decimal (if index < 8 then 40 + index else 100 + index - 8) @ wstr ''m '' @
     (if index < 10 then [0x30] else []) @ decimal index @ wstr '' ''"

definition demo_ramp :: "nat \<Rightarrow> wstring" where
  "demo_ramp index = ansi ''48;5;'' @ decimal index @ wstr ''m ''"

definition demo_tail :: wstring where
  "demo_tail =
     ansi ''0m'' @ crlf @ crlf @
     ansi ''38;2;255;170;80m'' @ wstr ''True color'' @ ansi ''0m'' @ wstr ''   '' @
     ansi ''1m'' @ wstr ''Bold'' @ ansi ''0m'' @ wstr ''   '' @ ansi ''4m'' @ wstr ''Underline'' @ ansi ''0m'' @ wstr ''   '' @
     ansi ''7m'' @ wstr ''Reverse'' @ ansi ''0m'' @ crlf @
     wstr ''Unicode: caf'' @ [0xE9] @ wstr ''  '' @ [0x3B1, 0x3B2, 0x3B3] @ wstr ''  e'' @ [0x301] @ wstr ''  '' @
     [0x4E2D, 0x6587] @ crlf @
     wstr ''Fallback: '' @ [0x262F] @ wstr '' '' @ [0xD83D, 0xDE00] @ wstr '' | Arabic (logical cells): '' @
     [0x633, 0x644, 0x627, 0x645] @ crlf @
     [0x250C] @ replicate 15 0x2500 @ [0x2510] @ crlf @
     [0x2502] @ wstr '' Windows 7, VT7 '' @ [0x2502] @ crlf @
     [0x2514] @ replicate 16 0x2500 @ [0x2518] @ crlf @ crlf @
     wstr ''Static proof - interactive sessions are coming later.''"

definition demo_strings :: "wstring list" where
  "demo_strings =
     [demo_head] @ map demo_color [0..<16] @ [ansi ''0m'' @ crlf @ crlf @ wstr ''256-color ramp:'' @ crlf] @
     map demo_ramp [16..<52] @ [demo_tail]"

text \<open>Several writes, up to the first that throws.\<close>

fun terminal_Writes ::
    "document_env \<Rightarrow> 't terminal_ops \<Rightarrow> wstring list \<Rightarrow> 't TerminalDocument \<Rightarrow>
     ('t TerminalDocument \<times> HRESULT option) option" where
  "terminal_Writes env T [] doc = Some (doc, None)"
| "terminal_Writes env T (str # strs) doc =
     do { (doc, thrown) \<leftarrow> terminal_Write env T str doc;
          (case thrown of Some hr \<Rightarrow> Some (doc, Some hr) | None \<Rightarrow> terminal_Writes env T strs doc) }"

definition FillDemo ::
    "document_env \<Rightarrow> 't terminal_ops \<Rightarrow> 't TerminalDocument \<Rightarrow> ('t TerminalDocument \<times> HRESULT option) option" where
  "FillDemo env T doc =
     do { (doc, thrown) \<leftarrow> terminal_Writes env T demo_strings doc;
          Some (case thrown of
                  Some hr \<Rightarrow> (doc, Some hr)
                | None \<Rightarrow> (doc\<lparr>doc_mutationSequence := doc_mutationSequence doc + 1\<rparr>, None)) }"

definition empty_document :: "'t terminal_ops \<Rightarrow> u32 \<Rightarrow> u32 \<Rightarrow> u32 \<Rightarrow> u32 \<Rightarrow> bool \<Rightarrow> 't TerminalDocument" where
  "empty_document T thread columns rows scrollback demonstration =
     \<lparr>doc_cookie = expectedCookie, doc_creatingThread = thread, doc_terminal = term_Create T columns rows scrollback,
      doc_outputStream = Utf8TerminalStream_init, doc_attachedView = None, doc_attachmentGeneration = 0,
      doc_mutationSequence = 0, doc_streamGeneration = 0, doc_originGeneration = 0, doc_lastSequence = 0,
      doc_producerSequences = Map.empty, doc_replies = [], doc_replyBytes = 0, doc_replySequence = 0,
      doc_currentOrigin = 0, doc_replyFailure = S_OK, doc_streamActive = False, doc_initialized = True,
      doc_scrollbackLines = scrollback, doc_loadDemo = demonstration\<rparr>"

text \<open>The constructor: the document, or the error it throws.\<close>

definition TerminalDocument_create ::
    "document_env \<Rightarrow> 't terminal_ops \<Rightarrow> u32 \<Rightarrow> u32 \<Rightarrow> u32 \<Rightarrow> u32 \<Rightarrow> bool \<Rightarrow> (HRESULT + 't TerminalDocument) option" where
  "TerminalDocument_create env T thread columns rows scrollback demonstration =
     (let doc = empty_document T thread columns rows scrollback demonstration
      in if doc_loadDemo doc
         then do { (doc, thrown) \<leftarrow> FillDemo env T doc;
                   Some (case thrown of Some hr \<Rightarrow> Inl hr | None \<Rightarrow> Inr doc) }
         else Some (Inr doc))"

subsection \<open>The native interface\<close>

text \<open>A handle is a pointer to a document, or null.\<close>

definition LookupDocument :: "u32 \<Rightarrow> 't TerminalDocument option \<Rightarrow> HRESULT + 't TerminalDocument" where
  "LookupDocument thread handle =
     (case handle of
        None \<Rightarrow> Inl E_HANDLE
      | Some doc \<Rightarrow>
          (if doc_cookie doc \<noteq> expectedCookie then Inl E_HANDLE
           else if doc_creatingThread doc \<noteq> thread then Inl RPC_E_WRONG_THREAD
           else Inr doc))"

record VT7_TERMINAL_DOCUMENT_SETTINGS =
  ds_struct_size :: u32
  ds_columns :: u32
  ds_rows :: u32
  ds_scrollback_lines :: u32
  ds_load_demonstration :: u32

definition sizeof_DOCUMENT_SETTINGS :: u32 where
  "sizeof_DOCUMENT_SETTINGS = 20"

text \<open>The result code and the handle that was stored. Both pointers may be null.\<close>

definition VT7_CreateTerminalDocument ::
    "document_env \<Rightarrow> 't terminal_ops \<Rightarrow> u32 \<Rightarrow> VT7_TERMINAL_DOCUMENT_SETTINGS option \<Rightarrow> bool \<Rightarrow>
     (HRESULT \<times> 't TerminalDocument option) option" where
  "VT7_CreateTerminalDocument env T thread settings has_result =
     (case settings of
        None \<Rightarrow> Some (E_POINTER, None)
      | Some ds \<Rightarrow>
          (if \<not> has_result then Some (E_POINTER, None)
           else if ds_struct_size ds \<noteq> sizeof_DOCUMENT_SETTINGS \<or> ds_columns ds < 1 \<or> ds_columns ds > 512 \<or>
                   ds_rows ds < 1 \<or> ds_rows ds > 256 \<or> ds_scrollback_lines ds > 32767 \<or> ds_load_demonstration ds > 1
           then Some (E_INVALIDARG, None)
           else do {
             r \<leftarrow> TerminalDocument_create env T thread (ds_columns ds) (ds_rows ds) (ds_scrollback_lines ds)
                     (ds_load_demonstration ds \<noteq> 0);
             Some (case r of Inl hr \<Rightarrow> (hr, None) | Inr doc \<Rightarrow> (S_OK, Some doc)) }))"

definition VT7_DestroyTerminalDocument ::
    "u32 \<Rightarrow> 't TerminalDocument option \<Rightarrow> HRESULT \<times> 't TerminalDocument option" where
  "VT7_DestroyTerminalDocument thread handle =
     (case LookupDocument thread handle of
        Inl hr \<Rightarrow> (hr, handle)
      | Inr doc \<Rightarrow> (if doc_attachedView doc \<noteq> None then (ERROR_BUSY, handle) else (S_OK, None)))"

record VT7_TERMINAL_DOCUMENT_INFO =
  di_struct_size :: u32
  di_columns :: u32
  di_rows :: u32
  di_attached :: u32
  di_attachment_generation :: u64
  di_mutation_sequence :: u64
  di_stream_generation :: u64
  di_received_bytes :: u64
  di_decoded_utf16_units :: u64
  di_write_count :: u32
  di_pending_utf8_bytes :: u32
  di_ended :: u32
  di_last_hresult :: HRESULT

definition sizeof_DOCUMENT_INFO :: u32 where
  "sizeof_DOCUMENT_INFO = 72"

text \<open>\<^verbatim>\<open>gsl::narrow<uint32_t>\<close> of a coordinate: it throws when the value is negative.\<close>

definition narrow_u32 :: "int \<Rightarrow> u32 option" where
  "narrow_u32 i = (if 0 \<le> i \<and> i < 2 ^ 32 then Some (of_int i) else None)"

text \<open>The size the caller put into the structure is all that is read of it.\<close>

definition VT7_GetTerminalDocumentInfo ::
    "document_env \<Rightarrow> 't terminal_ops \<Rightarrow> u32 \<Rightarrow> 't TerminalDocument option \<Rightarrow> u32 option \<Rightarrow>
     HRESULT \<times> VT7_TERMINAL_DOCUMENT_INFO option" where
  "VT7_GetTerminalDocumentInfo env T thread handle info_size =
     (case info_size of
        None \<Rightarrow> (E_POINTER, None)
      | Some n \<Rightarrow>
          (if n \<noteq> sizeof_DOCUMENT_INFO then (E_INVALIDARG, None)
           else (case LookupDocument thread handle of
                   Inl hr \<Rightarrow> (hr, None)
                 | Inr doc \<Rightarrow>
                     (let (width, height) =
                        (if doc_initialized doc then term_GetViewport T (doc_terminal doc) else (0, 0));
                          snapshot = us_snapshot (doc_outputStream doc)
                      in case (narrow_u32 width, narrow_u32 height) of
                           (Some columns, Some rows) \<Rightarrow>
                             (S_OK, Some \<lparr>di_struct_size = sizeof_DOCUMENT_INFO, di_columns = columns, di_rows = rows,
                                di_attached = (if doc_attachedView doc \<noteq> None then 1 else 0),
                                di_attachment_generation = doc_attachmentGeneration doc,
                                di_mutation_sequence = doc_mutationSequence doc,
                                di_stream_generation = doc_streamGeneration doc,
                                di_received_bytes = snap_bytes snapshot,
                                di_decoded_utf16_units = snap_utf16Units snapshot,
                                di_write_count = snap_writes snapshot,
                                di_pending_utf8_bytes = snap_pendingBytes snapshot,
                                di_ended = (if snap_ended snapshot then 1 else 0),
                                di_last_hresult = snap_lastError snapshot\<rparr>)
                         | _ \<Rightarrow> (env_narrowing_error env, None)))))"

definition VT7_BeginDocumentStream ::
    "document_env \<Rightarrow> 't terminal_ops \<Rightarrow> u32 \<Rightarrow> 't TerminalDocument option \<Rightarrow> u64 \<Rightarrow>
     (HRESULT \<times> 't TerminalDocument option) option" where
  "VT7_BeginDocumentStream env T thread handle generation =
     (case LookupDocument thread handle of
        Inl hr \<Rightarrow> Some (hr, handle)
      | Inr doc \<Rightarrow> map_option (\<lambda>(hr, doc). (hr, Some doc)) (BeginDocumentStream env T generation doc))"

text \<open>\<open>bytes\<close> is the memory behind the pointer, which may be null.\<close>

definition VT7_WriteDocumentUtf8 ::
    "document_env \<Rightarrow> 't terminal_ops \<Rightarrow> u32 \<Rightarrow> 't TerminalDocument option \<Rightarrow> u64 \<Rightarrow> u64 \<Rightarrow> u64 \<Rightarrow> byte list option \<Rightarrow> u32 \<Rightarrow>
     (HRESULT \<times> 't TerminalDocument option) option" where
  "VT7_WriteDocumentUtf8 env T thread handle generation origin sequence bytes len =
     (if len \<noteq> 0 \<and> bytes = None then Some (E_POINTER, handle)
      else if len > 1024 * 1024 then Some (E_INVALIDARG, handle)
      else (case LookupDocument thread handle of
              Inl hr \<Rightarrow> Some (hr, handle)
            | Inr doc \<Rightarrow>
                map_option (\<lambda>(hr, doc). (hr, Some doc))
                  (WriteDocumentStream env T generation origin sequence
                     (case bytes of None \<Rightarrow> [] | Some bs \<Rightarrow> take (unat len) bs) doc)))"

definition VT7_EndDocumentStream ::
    "u32 \<Rightarrow> 't TerminalDocument option \<Rightarrow> u64 \<Rightarrow> u32 \<Rightarrow> HRESULT \<times> 't TerminalDocument option" where
  "VT7_EndDocumentStream thread handle generation eofKind =
     (case LookupDocument thread handle of
        Inl hr \<Rightarrow> (hr, handle)
      | Inr doc \<Rightarrow> (let (hr, doc) = EndDocumentStream generation eofKind doc in (hr, Some doc)))"

record VT7_TERMINAL_REPLY =
  tr_struct_size :: u32
  tr_byte_count :: u32
  tr_origin_transport_generation :: u64
  tr_sequence :: u64
  tr_bytes :: "byte list"

definition sizeof_TERMINAL_REPLY :: u32 where
  "sizeof_TERMINAL_REPLY = 4120"

text \<open>\<^verbatim>\<open>memcpy\<close> into an array; a copy past its end is undefined.\<close>

definition memcpy :: "byte list \<Rightarrow> byte list \<Rightarrow> byte list option" where
  "memcpy dest source = (if length source \<le> length dest then Some (source @ drop (length source) dest) else None)"

definition pop_reply :: "Reply \<Rightarrow> Reply list \<Rightarrow> 't TerminalDocument \<Rightarrow> 't TerminalDocument" where
  "pop_reply queued rest doc =
     doc\<lparr>doc_replyBytes := doc_replyBytes doc - of_nat (length (reply_bytes queued)), doc_replies := rest\<rparr>"

definition VT7_ReadDocumentReply ::
    "u32 \<Rightarrow> 't TerminalDocument option \<Rightarrow> u32 option \<Rightarrow>
     (HRESULT \<times> VT7_TERMINAL_REPLY option \<times> 't TerminalDocument option) option" where
  "VT7_ReadDocumentReply thread handle reply_size =
     (case reply_size of
        None \<Rightarrow> Some (E_POINTER, None, handle)
      | Some n \<Rightarrow>
          (if n \<noteq> sizeof_TERMINAL_REPLY then Some (E_INVALIDARG, None, handle)
           else (case LookupDocument thread handle of
                   Inl hr \<Rightarrow> Some (hr, None, handle)
                 | Inr doc \<Rightarrow>
                     (case doc_replies doc of
                        [] \<Rightarrow> Some (S_FALSE, None, handle)
                      | queued # rest \<Rightarrow> do {
                          bytes \<leftarrow> memcpy (replicate VT7_TERMINAL_REPLY_BYTES 0) (reply_bytes queued);
                          Some (S_OK,
                                Some \<lparr>tr_struct_size = sizeof_TERMINAL_REPLY,
                                      tr_byte_count = of_nat (length (reply_bytes queued)),
                                      tr_origin_transport_generation = reply_origin queued,
                                      tr_sequence = reply_sequence queued, tr_bytes = bytes\<rparr>,
                                Some (pop_reply queued rest doc)) }))))"

definition VT7_ResizeTerminalDocument ::
    "'t terminal_ops \<Rightarrow> u32 \<Rightarrow> 't TerminalDocument option \<Rightarrow> u64 \<Rightarrow> u32 \<Rightarrow> u32 \<Rightarrow> HRESULT \<times> 't TerminalDocument option" where
  "VT7_ResizeTerminalDocument T thread handle generation columns rows =
     (case LookupDocument thread handle of
        Inl hr \<Rightarrow> (hr, handle)
      | Inr doc \<Rightarrow>
          (if generation = 0 \<or> columns < 1 \<or> columns > 512 \<or> rows < 1 \<or> rows > 256 then (E_INVALIDARG, handle)
           else if generation \<noteq> doc_attachmentGeneration doc \<or> \<not> doc_initialized doc then (ERROR_INVALID_STATE, handle)
           else (let (hr, t) = term_UserResize T columns rows (doc_terminal doc);
                     doc = doc\<lparr>doc_terminal := t\<rparr>
                 in if FAILED hr then (hr, Some doc)
                    else (S_OK, Some (doc\<lparr>doc_mutationSequence := doc_mutationSequence doc + 1\<rparr>)))))"

subsection \<open>Encoding input\<close>

record VT7_INPUT_RESULT =
  ir_struct_size :: u32
  ir_handled :: u32
  ir_byte_count :: u32
  ir_reserved :: u32
  ir_bytes :: "byte list"

definition sizeof_INPUT_RESULT :: u32 where
  "sizeof_INPUT_RESULT = 272"

text \<open>The structure the caller gets, or the error. (The callers have checked its size.)\<close>

definition CompleteInputResult :: "document_env \<Rightarrow> bool \<Rightarrow> wstring \<Rightarrow> (HRESULT + VT7_INPUT_RESULT) option" where
  "CompleteInputResult env handled output =
     (let value = \<lparr>ir_struct_size = sizeof_INPUT_RESULT, ir_handled = (if handled then 1 else 0), ir_byte_count = 0,
                   ir_reserved = 0, ir_bytes = replicate VT7_INPUT_RESULT_BYTES 0\<rparr>
      in case encode_response env output of
           Inl hr \<Rightarrow> Some (Inl hr)
         | Inr encoded \<Rightarrow>
             (if length encoded > VT7_INPUT_RESULT_BYTES then Some (Inl ERROR_INSUFFICIENT_BUFFER)
              else do {
                bytes \<leftarrow> memcpy (ir_bytes value) encoded;
                Some (Inr (value\<lparr>ir_byte_count := of_nat (length encoded), ir_bytes := bytes\<rparr>)) }))"

text \<open>The loop over the repetitions of one event.\<close>

fun repeat_event :: "('t \<Rightarrow> 't \<times> wstring option) \<Rightarrow> nat \<Rightarrow> bool \<Rightarrow> wstring \<Rightarrow> 't \<Rightarrow> 't \<times> bool \<times> wstring" where
  "repeat_event send 0 handled output t = (t, handled, output)"
| "repeat_event send (Suc n) handled output t =
     (let (t, encoded) = send t
      in repeat_event send n (handled \<or> encoded \<noteq> None)
           (output @ (case encoded of None \<Rightarrow> [] | Some str \<Rightarrow> str)) t)"

definition encode_event ::
    "document_env \<Rightarrow> ('t \<Rightarrow> 't \<times> wstring option) \<Rightarrow> nat \<Rightarrow> u32 \<Rightarrow> 't TerminalDocument option \<Rightarrow>
     (HRESULT \<times> VT7_INPUT_RESULT option \<times> 't TerminalDocument option) option" where
  "encode_event env send repeatCount thread handle =
     (case LookupDocument thread handle of
        Inl hr \<Rightarrow> Some (hr, None, handle)
      | Inr doc \<Rightarrow>
          (if \<not> doc_initialized doc then Some (ERROR_INVALID_STATE, None, handle)
           else (let (t, handled, output) = repeat_event send repeatCount False [] (doc_terminal doc);
                     handle = Some (doc\<lparr>doc_terminal := t\<rparr>)
                 in do { r \<leftarrow> CompleteInputResult env handled output;
                         Some (case r of Inl hr \<Rightarrow> (hr, None, handle) | Inr value \<Rightarrow> (S_OK, Some value, handle)) })))"

definition VT7_EncodeTerminalKey ::
    "document_env \<Rightarrow> 't terminal_ops \<Rightarrow> u32 \<Rightarrow> 't TerminalDocument option \<Rightarrow> u32 \<Rightarrow> u32 \<Rightarrow> u32 \<Rightarrow> u32 \<Rightarrow> u32 \<Rightarrow> u32 option \<Rightarrow>
     (HRESULT \<times> VT7_INPUT_RESULT option \<times> 't TerminalDocument option) option" where
  "VT7_EncodeTerminalKey env T thread handle virtualKey scanCode controlKeyState keyDown repeatCount result_size =
     (case result_size of
        None \<Rightarrow> Some (E_POINTER, None, handle)
      | Some n \<Rightarrow>
          (if n \<noteq> sizeof_INPUT_RESULT \<or> virtualKey > 0xFFFF \<or> scanCode > 0xFFFF \<or> keyDown > 1 \<or> repeatCount = 0 \<or>
              repeatCount > 0xFFFF
           then Some (E_INVALIDARG, None, handle)
           else encode_event env (term_SendKeyEvent T virtualKey scanCode controlKeyState (keyDown \<noteq> 0))
                  (unat repeatCount) thread handle))"

definition VT7_EncodeTerminalChar ::
    "document_env \<Rightarrow> 't terminal_ops \<Rightarrow> u32 \<Rightarrow> 't TerminalDocument option \<Rightarrow> u32 \<Rightarrow> u32 \<Rightarrow> u32 \<Rightarrow> u32 \<Rightarrow> u32 option \<Rightarrow>
     (HRESULT \<times> VT7_INPUT_RESULT option \<times> 't TerminalDocument option) option" where
  "VT7_EncodeTerminalChar env T thread handle character scanCode controlKeyState repeatCount result_size =
     (case result_size of
        None \<Rightarrow> Some (E_POINTER, None, handle)
      | Some n \<Rightarrow>
          (if n \<noteq> sizeof_INPUT_RESULT \<or> character > 0xFFFF \<or> scanCode > 0xFFFF \<or> repeatCount = 0 \<or>
              repeatCount > 0xFFFF
           then Some (E_INVALIDARG, None, handle)
           else encode_event env (term_SendCharEvent T (ucast character) scanCode controlKeyState)
                  (unat repeatCount) thread handle))"

text \<open>A focus event is encoded once.\<close>

definition VT7_EncodeTerminalFocus ::
    "document_env \<Rightarrow> 't terminal_ops \<Rightarrow> u32 \<Rightarrow> 't TerminalDocument option \<Rightarrow> u32 \<Rightarrow> u32 option \<Rightarrow>
     (HRESULT \<times> VT7_INPUT_RESULT option \<times> 't TerminalDocument option) option" where
  "VT7_EncodeTerminalFocus env T thread handle focused result_size =
     (case result_size of
        None \<Rightarrow> Some (E_POINTER, None, handle)
      | Some n \<Rightarrow>
          (if n \<noteq> sizeof_INPUT_RESULT \<or> focused > 1 then Some (E_INVALIDARG, None, handle)
           else encode_event env (term_FocusChanged T (focused \<noteq> 0)) 1 thread handle))"

subsection \<open>The document behind a surface\<close>

text \<open>The functions on surfaces look up the window first; the outcome is a parameter: an error, or the
  document of the surface.\<close>

definition VT7_ResetSurface ::
    "document_env \<Rightarrow> 't terminal_ops \<Rightarrow> HRESULT + 't TerminalDocument \<Rightarrow> (HRESULT \<times> 't TerminalDocument option) option" where
  "VT7_ResetSurface env T found =
     (case found of
        Inl hr \<Rightarrow> Some (hr, None)
      | Inr doc \<Rightarrow>
          (let doc = doc\<lparr>doc_outputStream := stream_Abandon (doc_outputStream doc), doc_streamActive := False\<rparr>
           in do {
             (doc, thrown) \<leftarrow> terminal_HardReset env T doc;
             (case thrown of
                Some hr \<Rightarrow> Some (hr, Some doc)
              | None \<Rightarrow> do {
                  (doc, thrown) \<leftarrow> terminal_Writes env T demo_strings doc;
                  (case thrown of
                     Some hr \<Rightarrow> Some (hr, Some doc)
                   | None \<Rightarrow> Some (S_OK, Some (doc\<lparr>doc_mutationSequence := doc_mutationSequence doc + 1\<rparr>))) }) }))"

definition VT7_BeginSurfaceStream ::
    "document_env \<Rightarrow> 't terminal_ops \<Rightarrow> HRESULT + 't TerminalDocument \<Rightarrow> (HRESULT \<times> 't TerminalDocument option) option" where
  "VT7_BeginSurfaceStream env T found =
     (case found of
        Inl hr \<Rightarrow> Some (hr, None)
      | Inr doc \<Rightarrow>
          map_option (\<lambda>(hr, doc). (hr, Some doc))
            (BeginDocumentStream env T (ucast (snap_generation (us_snapshot (doc_outputStream doc))) + 1) doc))"

definition VT7_WriteSurfaceUtf8 ::
    "document_env \<Rightarrow> 't terminal_ops \<Rightarrow> HRESULT + 't TerminalDocument \<Rightarrow> byte list option \<Rightarrow> u32 \<Rightarrow>
     (HRESULT \<times> 't TerminalDocument option) option" where
  "VT7_WriteSurfaceUtf8 env T found bytes len =
     (if len \<noteq> 0 \<and> bytes = None then Some (E_POINTER, None)
      else if len > 1024 * 1024 then Some (E_INVALIDARG, None)
      else (case found of
              Inl hr \<Rightarrow> Some (hr, None)
            | Inr doc \<Rightarrow>
                map_option (\<lambda>(hr, doc). (hr, Some doc))
                  (WriteDocumentStream env T (doc_streamGeneration doc) 1 (doc_lastSequence doc + 1)
                     (case bytes of None \<Rightarrow> [] | Some bs \<Rightarrow> take (unat len) bs) doc)))"

definition VT7_EndSurfaceStream :: "HRESULT + 't TerminalDocument \<Rightarrow> HRESULT \<times> 't TerminalDocument option" where
  "VT7_EndSurfaceStream found =
     (case found of
        Inl hr \<Rightarrow> (hr, None)
      | Inr doc \<Rightarrow> (let (hr, doc) = EndDocumentStream (doc_streamGeneration doc) 0 doc in (hr, Some doc)))"

end
