(* ===== verification/DocumentLaws.thy ===== *)
theory DocumentLaws
  imports TerminalDocument
begin

text \<open>
  What a terminal document guarantees, over everything that can be done to it through the native
  interface.
\<close>

subsection \<open>The reply queue\<close>

definition reply_total :: "'t TerminalDocument \<Rightarrow> nat" where
  "reply_total doc = sum_list (map (\<lambda>r. length (reply_bytes r)) (doc_replies doc))"

definition reply_text :: "'t TerminalDocument \<Rightarrow> byte list" where
  "reply_text doc = concat (map reply_bytes (doc_replies doc))"

text \<open>The numbers of the queued replies are consecutive, up to the last number given.\<close>

fun numbered :: "u64 \<Rightarrow> Reply list \<Rightarrow> bool" where
  "numbered n [] = True"
| "numbered n (r # rs) \<longleftrightarrow> reply_sequence r = n - of_nat (length rs) \<and> numbered n rs"

definition replies_ok :: "'t TerminalDocument \<Rightarrow> bool" where
  "replies_ok doc \<longleftrightarrow>
     length (doc_replies doc) \<le> 64 \<and> reply_total doc \<le> 65536 \<and> doc_replyBytes doc = of_nat (reply_total doc) \<and>
     list_all (\<lambda>r. reply_bytes r \<noteq> [] \<and> length (reply_bytes r) \<le> VT7_TERMINAL_REPLY_BYTES \<and> reply_origin r \<noteq> 0)
       (doc_replies doc) \<and>
     numbered (doc_replySequence doc) (doc_replies doc)"

lemma numbered_snoc: "numbered n rs \<Longrightarrow> reply_sequence r = n + 1 \<Longrightarrow> numbered (n + 1) (rs @ [r])"
  by (induction rs) (auto simp: algebra_simps)

text \<open>One reply more.\<close>

definition push_reply :: "byte list \<Rightarrow> 't TerminalDocument \<Rightarrow> 't TerminalDocument" where
  "push_reply piece doc =
     doc\<lparr>doc_replySequence := doc_replySequence doc + 1,
         doc_replyBytes := doc_replyBytes doc + of_nat (length piece),
         doc_replies := doc_replies doc @
           [\<lparr>reply_origin = doc_currentOrigin doc, reply_sequence = doc_replySequence doc + 1, reply_bytes = piece\<rparr>]\<rparr>"

lemma queue_pieces_step:
  "queue_pieces encoded doc =
     (if encoded = [] then (None, doc)
      else (let piece = take VT7_TERMINAL_REPLY_BYTES encoded
            in if length (doc_replies doc) \<ge> 64 \<or> doc_replyBytes doc + of_nat (length piece) > 64 * 1024
               then (Some ERROR_BUFFER_OVERFLOW, doc)
               else queue_pieces (drop VT7_TERMINAL_REPLY_BYTES encoded) (push_reply piece doc)))"
  by (subst queue_pieces.simps) (simp add: push_reply_def Let_def)

lemma unat_small: "n < 2 ^ 64 \<Longrightarrow> unat (of_nat n :: u64) = n"
  by (simp add: unat_of_nat take_bit_nat_eq_self)

lemma u64_sum_limit:
  assumes "n \<le> 65536" and "m \<le> 4096"
  shows "of_nat n + (of_nat m :: u64) \<le> 65536 \<longleftrightarrow> n + m \<le> 65536"
proof -
  have "unat (of_nat (n + m) :: u64) = n + m" using assms by (intro unat_small) simp
  then show ?thesis by (simp add: word_le_nat_alt)
qed

lemma push_reply_ok:
  assumes "replies_ok doc" and "doc_currentOrigin doc \<noteq> 0" and "piece \<noteq> []" and "length piece \<le> 4096"
    and "length (doc_replies doc) < 64" and "doc_replyBytes doc + of_nat (length piece) \<le> 65536"
  shows "replies_ok (push_reply piece doc)"
  using assms u64_sum_limit [of "reply_total doc" "length piece"]
  by (auto simp: replies_ok_def push_reply_def reply_total_def VT7_TERMINAL_REPLY_BYTES_def intro: numbered_snoc)

lemma queue_pieces_ok:
  "replies_ok doc \<Longrightarrow> doc_currentOrigin doc \<noteq> 0 \<Longrightarrow> queue_pieces encoded doc = (thrown, doc') \<Longrightarrow>
   replies_ok doc' \<and> (case thrown of None \<Rightarrow> reply_text doc' = reply_text doc @ encoded | Some hr \<Rightarrow> FAILED hr)"
proof (induction encoded arbitrary: doc rule: measure_induct_rule [of length])
  case (less encoded)
  show ?case
  proof (cases "encoded = []")
    case True
    with less.prems show ?thesis by (auto simp: queue_pieces_step)
  next
    case False
    let ?p = "take VT7_TERMINAL_REPLY_BYTES encoded"
    show ?thesis
    proof (cases "length (doc_replies doc) \<ge> 64 \<or> doc_replyBytes doc + of_nat (length ?p) > 64 * 1024")
      case True
      with False less.prems have "queue_pieces encoded doc = (Some ERROR_BUFFER_OVERFLOW, doc)"
        by (subst queue_pieces_step) (simp only: Let_def if_False if_True)
      with less.prems show ?thesis by auto
    next
      case room: False
      have ne: "?p \<noteq> []" "length ?p \<le> 4096" using False by (simp_all add: VT7_TERMINAL_REPLY_BYTES_def)
      have ok: "replies_ok (push_reply ?p doc)"
        by (rule push_reply_ok [OF less.prems(1,2) ne]) (use room in \<open>auto simp: not_less\<close>)
      have shorter: "length (drop VT7_TERMINAL_REPLY_BYTES encoded) < length encoded"
        using False by (simp add: VT7_TERMINAL_REPLY_BYTES_def)
      have rest: "queue_pieces (drop VT7_TERMINAL_REPLY_BYTES encoded) (push_reply ?p doc) = (thrown, doc')"
        using less.prems(3) False room queue_pieces_step [of encoded doc] by (simp only: Let_def if_False)
      have origin: "doc_currentOrigin (push_reply ?p doc) \<noteq> 0" using less.prems(2) by (simp add: push_reply_def)
      have "reply_text (push_reply ?p doc) = reply_text doc @ ?p" by (simp add: push_reply_def reply_text_def)
      with less.IH [OF shorter ok origin rest] show ?thesis by (cases thrown) simp_all
    qed
  qed
qed

text \<open>Queueing a response touches the reply queue only.\<close>

definition doc_frame :: "'t TerminalDocument \<Rightarrow> 't TerminalDocument" where
  "doc_frame doc = doc\<lparr>doc_replies := [], doc_replyBytes := 0, doc_replySequence := 0, doc_replyFailure := 0\<rparr>"

lemma queue_pieces_frame: "doc_frame (snd (queue_pieces encoded doc)) = doc_frame doc"
proof (induction encoded arbitrary: doc rule: measure_induct_rule [of length])
  case (less encoded)
  show ?case
  proof (cases "encoded = []")
    case False
    then have "length (drop VT7_TERMINAL_REPLY_BYTES encoded) < length encoded"
      by (simp add: VT7_TERMINAL_REPLY_BYTES_def)
    from less.IH [OF this] show ?thesis
      by (subst queue_pieces_step) (simp add: Let_def, simp add: doc_frame_def push_reply_def)
  qed (simp add: queue_pieces_step)
qed

lemma QueueReply_frame: "doc_frame (QueueReply env response doc) = doc_frame doc"
proof -
  have "doc_frame (doc'\<lparr>doc_replyFailure := hr\<rparr>) = doc_frame doc'" for doc' :: "'a TerminalDocument" and hr
    by (simp add: doc_frame_def)
  then show ?thesis
    using queue_pieces_frame [of _ doc]
    by (auto simp: QueueReply_def Let_def split: prod.splits option.splits sum.splits) (metis snd_conv)+
qed

lemma QueueReplies_frame: "doc_frame (fold (QueueReply env) responses doc) = doc_frame doc"
  by (induction responses arbitrary: doc) (simp_all add: QueueReply_frame)

lemma frame_eqs:
  assumes "doc_frame a = doc_frame b"
  shows "doc_currentOrigin a = doc_currentOrigin b" "doc_outputStream a = doc_outputStream b"
    "doc_streamActive a = doc_streamActive b" "doc_streamGeneration a = doc_streamGeneration b"
    "doc_producerSequences a = doc_producerSequences b" "doc_originGeneration a = doc_originGeneration b"
    "doc_lastSequence a = doc_lastSequence b" "doc_terminal a = doc_terminal b"
  using assms by (auto simp: doc_frame_def dest: arg_cong [of _ _ doc_currentOrigin] arg_cong [of _ _ doc_outputStream]
      arg_cong [of _ _ doc_streamActive] arg_cong [of _ _ doc_streamGeneration] arg_cong [of _ _ doc_producerSequences]
      arg_cong [of _ _ doc_originGeneration] arg_cong [of _ _ doc_lastSequence] arg_cong [of _ _ doc_terminal])

lemmas QueueReplies_keeps [simp] = frame_eqs [OF QueueReplies_frame]
lemmas QueueReply_keeps [simp] = frame_eqs [OF QueueReply_frame]

text \<open>The errors of the system and of the core are failures.\<close>

definition errors_fail :: "document_env \<Rightarrow> 't terminal_ops \<Rightarrow> bool" where
  "errors_fail env T \<longleftrightarrow>
     FAILED (env_narrowing_error env) \<and> (\<forall>str hr. env_WideCharToMultiByte env str = Inl hr \<longrightarrow> FAILED hr) \<and>
     (\<forall>str t t' responses hr. term_Write T str t = Some (t', responses, Some hr) \<longrightarrow> FAILED hr) \<and>
     (\<forall>t t' responses hr. term_HardResetWithoutErase T t = Some (t', responses, Some hr) \<longrightarrow> FAILED hr)"

definition response_bytes :: "document_env \<Rightarrow> wstring \<Rightarrow> byte list" where
  "response_bytes env response = (case encode_response env response of Inl _ \<Rightarrow> [] | Inr bytes \<Rightarrow> bytes)"

lemma encode_fails: "errors_fail env T \<Longrightarrow> encode_response env response = Inl hr \<Longrightarrow> FAILED hr"
  by (auto simp: errors_fail_def encode_response_def split: if_splits)

lemma replies_ok_failure [simp]:
  "replies_ok (doc\<lparr>doc_replyFailure := hr\<rparr>) = replies_ok doc" "reply_text (doc\<lparr>doc_replyFailure := hr\<rparr>) = reply_text doc"
  by (simp_all add: replies_ok_def reply_total_def reply_text_def)

lemma queue_pieces_failure: "doc_replyFailure (snd (queue_pieces encoded doc)) = doc_replyFailure doc"
proof (induction encoded arbitrary: doc rule: measure_induct_rule [of length])
  case (less encoded)
  show ?case
  proof (cases "encoded = []")
    case False
    then have "length (drop VT7_TERMINAL_REPLY_BYTES encoded) < length encoded"
      by (simp add: VT7_TERMINAL_REPLY_BYTES_def)
    from less.IH [OF this] show ?thesis
      by (subst queue_pieces_step) (simp add: Let_def, simp add: push_reply_def)
  qed (simp add: queue_pieces_step)
qed

lemma QueueReply_ok:
  assumes "errors_fail env T" and "replies_ok doc"
  shows "replies_ok (QueueReply env response doc)"
    and "\<not> FAILED (doc_replyFailure (QueueReply env response doc)) \<Longrightarrow>
      \<not> FAILED (doc_replyFailure doc) \<and> reply_text (QueueReply env response doc) = reply_text doc @ response_bytes env response"
proof -
  have "replies_ok (QueueReply env response doc) \<and> (\<not> FAILED (doc_replyFailure (QueueReply env response doc)) \<longrightarrow>
      \<not> FAILED (doc_replyFailure doc) \<and> reply_text (QueueReply env response doc) = reply_text doc @ response_bytes env response)"
  proof (cases "doc_currentOrigin doc = 0")
    case True
    with assms(2) show ?thesis by (simp add: QueueReply_def)
  next
    case origin: False
    show ?thesis
    proof (cases "encode_response env response")
      case (Inl hr)
      with origin assms(2) encode_fails [OF assms(1) Inl] show ?thesis by (simp add: QueueReply_def)
    next
      case (Inr encoded)
      obtain thrown doc' where q: "queue_pieces encoded doc = (thrown, doc')" by fastforce
      with queue_pieces_ok [OF assms(2) origin q] queue_pieces_failure [of encoded doc] origin Inr show ?thesis
        by (cases thrown) (simp_all add: QueueReply_def response_bytes_def)
    qed
  qed
  then show "replies_ok (QueueReply env response doc)"
    "\<not> FAILED (doc_replyFailure (QueueReply env response doc)) \<Longrightarrow>
      \<not> FAILED (doc_replyFailure doc) \<and> reply_text (QueueReply env response doc) = reply_text doc @ response_bytes env response"
    by blast+
qed

lemma QueueReplies_ok:
  assumes "errors_fail env T"
  shows "replies_ok doc \<Longrightarrow> replies_ok (fold (QueueReply env) responses doc) \<and>
    (\<not> FAILED (doc_replyFailure (fold (QueueReply env) responses doc)) \<longrightarrow>
      \<not> FAILED (doc_replyFailure doc) \<and>
      reply_text (fold (QueueReply env) responses doc) = reply_text doc @ concat (map (response_bytes env) responses))"
proof (induction responses arbitrary: doc)
  case (Cons r responses)
  note q = QueueReply_ok [OF assms Cons.prems, of r]
  from Cons.IH [OF q(1)] q(2) show ?case by auto
qed simp

subsection \<open>Writing\<close>

text \<open>The responses of the core to the text that a chunk of bytes completes.\<close>

definition stream_responses ::
    "document_env \<Rightarrow> 't terminal_ops \<Rightarrow> byte list \<Rightarrow> Utf8TerminalStream \<Rightarrow> 't \<Rightarrow> wstring list" where
  "stream_responses env T bytes u t =
     (if snap_ended (us_snapshot u) \<or> bytes = [] then []
      else (case u8u16 (env_MultiByteToWideChar env) bytes (us_state u) of
              None \<Rightarrow> []
            | Some (hr, out, _) \<Rightarrow>
                (if FAILED hr \<or> out = [] then []
                 else (case term_Write T out t of None \<Rightarrow> [] | Some (_, responses, _) \<Rightarrow> responses))))"

definition write_rejected :: "u64 \<Rightarrow> u64 \<Rightarrow> u64 \<Rightarrow> 't TerminalDocument \<Rightarrow> bool" where
  "write_rejected generation origin sequence doc \<longleftrightarrow>
     \<not> doc_streamActive doc \<or> generation = 0 \<or> generation \<noteq> doc_streamGeneration doc \<or> origin = 0 \<or> sequence = 0 \<or>
     stale_sequence origin sequence doc"

definition write_responses ::
    "document_env \<Rightarrow> 't terminal_ops \<Rightarrow> u64 \<Rightarrow> u64 \<Rightarrow> u64 \<Rightarrow> byte list \<Rightarrow> 't TerminalDocument \<Rightarrow> wstring list" where
  "write_responses env T generation origin sequence bytes doc =
     (if write_rejected generation origin sequence doc then []
      else stream_responses env T bytes (doc_outputStream doc) (doc_terminal doc))"

lemma stream_Write_document:
  assumes "stream_Write (env_MultiByteToWideChar env) (terminal_Write env T) bytes u doc = Some (hr, u', doc')"
  shows "\<exists>t. doc' = fold (QueueReply env) (stream_responses env T bytes u (doc_terminal doc)) (doc\<lparr>doc_terminal := t\<rparr>)"
proof -
  have same: "doc = doc\<lparr>doc_terminal := doc_terminal doc\<rparr>" by simp
  show ?thesis
  proof (cases "snap_ended (us_snapshot u) \<or> bytes = []")
    case True
    with assms show ?thesis
      by (intro exI [of _ "doc_terminal doc"]) (auto simp: stream_Write_def stream_responses_def split: if_splits)
  next
    case False
    with assms obtain conversion out st where
      d: "u8u16 (env_MultiByteToWideChar env) bytes (us_state u) = Some (conversion, out, st)"
      by (auto simp: stream_Write_def split: Option.bind_splits)
    show ?thesis
    proof (cases "FAILED conversion \<or> out = []")
      case True
      with assms False d show ?thesis
        by (intro exI [of _ "doc_terminal doc"]) (auto simp: stream_Write_def stream_responses_def split: if_splits)
    next
      case out: False
      with assms False d obtain t responses thrown where
        "term_Write T out (doc_terminal doc) = Some (t, responses, thrown)"
        by (auto simp: stream_Write_def terminal_Write_def split: Option.bind_splits)
      with assms False d out show ?thesis
        by (intro exI [of _ t]) (auto simp: stream_Write_def terminal_Write_def stream_responses_def split: option.splits)
    qed
  qed
qed

lemma stream_Write_keeps:
  assumes "stream_ok u" and "stream_Write conv writer bytes u t = Some (hr, u', t')"
  shows "stream_ok u' \<and> snap_ended (us_snapshot u') = snap_ended (us_snapshot u)"
proof -
  from assms(1) u8u16_ok [of "us_state u" conv bytes] obtain conversion out st where
    d: "u8u16 conv bytes (us_state u) = Some (conversion, out, st)" "FAILED conversion \<or> u8_ok st"
    by (auto simp: stream_ok_def)
  from assms(2) d(1) have "u' = u \<or> (\<exists>hr. u' = set_lastError hr u) \<or>
      \<not> FAILED conversion \<and> u' = accept_write bytes out st u"
    by (auto simp: stream_Write_def split: if_splits Option.bind_splits option.splits)
  with assms(1) d(2) show ?thesis
    by (auto simp: stream_ok_def accept_write_def set_lastError_def Let_def)
qed

subsection \<open>What every document satisfies\<close>

definition doc_ok :: "'t TerminalDocument \<Rightarrow> bool" where
  "doc_ok doc \<longleftrightarrow>
     replies_ok doc \<and> doc_currentOrigin doc = 0 \<and> stream_ok (doc_outputStream doc) \<and>
     doc_streamActive doc = (\<not> snap_ended (us_snapshot (doc_outputStream doc))) \<and>
     (doc_streamActive doc \<longrightarrow> doc_streamGeneration doc \<noteq> 0)"

lemma doc_ok_terminal [simp]:
  "doc_ok (doc\<lparr>doc_terminal := t\<rparr>) = doc_ok doc" "reply_text (doc\<lparr>doc_terminal := t\<rparr>) = reply_text doc"
  "doc_ok (doc\<lparr>doc_mutationSequence := n\<rparr>) = doc_ok doc" "reply_text (doc\<lparr>doc_mutationSequence := n\<rparr>) = reply_text doc"
  "doc_ok (doc\<lparr>doc_attachedView := v\<rparr>) = doc_ok doc" "reply_text (doc\<lparr>doc_attachedView := v\<rparr>) = reply_text doc"
  "doc_ok (doc\<lparr>doc_attachmentGeneration := g\<rparr>) = doc_ok doc"
  "reply_text (doc\<lparr>doc_attachmentGeneration := g\<rparr>) = reply_text doc"
  by (simp_all add: doc_ok_def replies_ok_def reply_total_def reply_text_def)

text \<open>Responses outside of a write have no origin: they are not queued, and the failure is remembered.\<close>

lemma unexpected_replies:
  assumes "errors_fail env T" and "doc_ok doc"
  shows "doc_ok (fold (QueueReply env) responses doc) \<and>
    (\<not> FAILED (doc_replyFailure (fold (QueueReply env) responses doc)) \<longrightarrow>
      \<not> FAILED (doc_replyFailure doc) \<and> reply_text (fold (QueueReply env) responses doc) = reply_text doc)"
proof (cases responses)
  case (Cons r rs)
  have ok: "replies_ok doc" and o: "doc_currentOrigin doc = 0" using assms(2) by (simp_all add: doc_ok_def)
  have "FAILED (doc_replyFailure (QueueReply env r doc))" using o by (simp add: QueueReply_def)
  with QueueReplies_ok [OF assms(1) QueueReply_ok(1) [OF assms(1) ok], of rs r]
  have "FAILED (doc_replyFailure (fold (QueueReply env) responses doc))" by (auto simp: Cons)
  moreover have "doc_ok (fold (QueueReply env) responses doc)"
    using assms(2) QueueReplies_ok [OF assms(1) ok, of responses] by (simp add: doc_ok_def)
  ultimately show ?thesis by simp
qed (use assms in simp)

text \<open>Everything but the start of a stream, a write and a read leaves the queued replies and the producers
  alone.\<close>

definition quiet :: "'t TerminalDocument \<Rightarrow> 't TerminalDocument \<Rightarrow> bool" where
  "quiet doc doc' \<longleftrightarrow>
     (doc_ok doc \<longrightarrow>
        doc_ok doc' \<and>
        (\<not> FAILED (doc_replyFailure doc') \<longrightarrow> \<not> FAILED (doc_replyFailure doc) \<and> reply_text doc' = reply_text doc) \<and>
        doc_producerSequences doc' = doc_producerSequences doc)"

lemma quiet_trans: "quiet a b \<Longrightarrow> quiet b c \<Longrightarrow> quiet a c"
  by (auto simp: quiet_def)

lemma quiet_updates:
  "quiet doc doc" "quiet doc (doc\<lparr>doc_terminal := t\<rparr>)" "quiet doc (doc\<lparr>doc_mutationSequence := n\<rparr>)"
  "quiet doc (doc\<lparr>doc_attachedView := v\<rparr>)" "quiet doc (doc\<lparr>doc_attachmentGeneration := g\<rparr>)"
  by (simp_all add: quiet_def)

lemma quiet_replies:
  assumes "errors_fail env T"
  shows "quiet doc (fold (QueueReply env) responses (doc\<lparr>doc_terminal := t\<rparr>))"
proof (cases "doc_ok doc")
  case True
  then have "doc_ok (doc\<lparr>doc_terminal := t\<rparr>)" by simp
  from unexpected_replies [OF assms this, of responses] show ?thesis by (simp add: quiet_def)
qed (simp add: quiet_def)

lemma quiet_Write: "errors_fail env T \<Longrightarrow> terminal_Write env T str doc = Some (doc', thrown) \<Longrightarrow> quiet doc doc'"
  using quiet_replies [of env T doc] by (auto simp: terminal_Write_def split: Option.bind_splits)

lemma quiet_HardReset: "errors_fail env T \<Longrightarrow> terminal_HardReset env T doc = Some (doc', thrown) \<Longrightarrow> quiet doc doc'"
  using quiet_replies [of env T doc] by (auto simp: terminal_HardReset_def split: Option.bind_splits)

lemma quiet_Writes:
  assumes "errors_fail env T"
  shows "terminal_Writes env T strs doc = Some (doc', thrown) \<Longrightarrow> quiet doc doc'"
proof (induction strs arbitrary: doc)
  case Nil
  then show ?case by (simp add: quiet_updates)
next
  case (Cons str strs)
  from Cons.prems obtain doc1 thrown1 where w: "terminal_Write env T str doc = Some (doc1, thrown1)"
    by (auto split: Option.bind_splits)
  from quiet_Write [OF assms w] Cons w show ?case by (cases thrown1) (auto intro: quiet_trans)
qed

lemma quiet_FillDemo:
  assumes "errors_fail env T" and "FillDemo env T doc = Some (doc', thrown)"
  shows "quiet doc doc'"
proof -
  from assms(2) obtain doc1 thrown1 where "terminal_Writes env T demo_strings doc = Some (doc1, thrown1)"
    "doc' = doc1 \<or> doc' = doc1\<lparr>doc_mutationSequence := doc_mutationSequence doc1 + 1\<rparr>"
    by (auto simp: FillDemo_def split: Option.bind_splits option.splits)
  with quiet_Writes [OF assms(1)] quiet_trans quiet_updates show ?thesis by metis
qed

lemma quiet_End:
  assumes "EndDocumentStream generation eofKind doc = (hr, doc')"
  shows "quiet doc doc'"
proof -
  have ended: "stream_ok u \<Longrightarrow> stream_ok (stream_Abandon u) \<and> snap_ended (us_snapshot (stream_Abandon u)) \<and>
      stream_ok (snd (stream_End u)) \<and> snap_ended (us_snapshot (snd (stream_End u)))" for u
    using reset_ok by (auto simp: stream_ok_def stream_Abandon_def stream_End_def set_lastError_def Let_def)
  show ?thesis
    using assms ended [of "doc_outputStream doc"]
    by (auto simp: EndDocumentStream_def quiet_def doc_ok_def replies_ok_def reply_total_def reply_text_def Let_def
        split: if_splits prod.splits)
qed

lemma quiet_Reset:
  assumes "errors_fail env T" and "VT7_ResetSurface env T (Inr doc) = Some (hr, Some doc')"
  shows "quiet doc doc'"
proof -
  let ?doc = "doc\<lparr>doc_outputStream := stream_Abandon (doc_outputStream doc), doc_streamActive := False\<rparr>"
  have "quiet doc ?doc"
    using reset_ok
    by (auto simp: quiet_def doc_ok_def replies_ok_def reply_total_def reply_text_def stream_ok_def stream_Abandon_def)
  moreover from assms(2) obtain doc1 thrown1 where h: "terminal_HardReset env T ?doc = Some (doc1, thrown1)"
    by (auto simp: VT7_ResetSurface_def Let_def split: Option.bind_splits)
  moreover have "quiet doc1 doc'"
  proof (cases thrown1)
    case None
    with assms(2) h obtain doc2 thrown2 where "terminal_Writes env T demo_strings doc1 = Some (doc2, thrown2)"
      "doc' = doc2 \<or> doc' = doc2\<lparr>doc_mutationSequence := doc_mutationSequence doc2 + 1\<rparr>"
      by (auto simp: VT7_ResetSurface_def Let_def split: Option.bind_splits option.splits)
    with quiet_Writes [OF assms(1)] quiet_trans quiet_updates show ?thesis by metis
  next
    case (Some hr1)
    with assms(2) h show ?thesis by (simp add: VT7_ResetSurface_def Let_def quiet_updates)
  qed
  ultimately show ?thesis using quiet_HardReset [OF assms(1)] quiet_trans by metis
qed

lemma LookupDocument_same: "LookupDocument thread (Some doc) = Inr doc' \<Longrightarrow> doc' = doc"
  by (auto simp: LookupDocument_def split: if_splits)

lemma quiet_Resize:
  assumes "VT7_ResizeTerminalDocument T thread (Some doc) generation columns rows = (hr, Some doc')"
  shows "quiet doc doc'"
  using assms quiet_trans [OF quiet_updates(2) quiet_updates(3)]
  by (auto simp: VT7_ResizeTerminalDocument_def Let_def quiet_updates dest!: LookupDocument_same
      split: sum.splits if_splits prod.splits)

lemma quiet_event:
  assumes "encode_event env send n thread (Some doc) = Some (hr, out, Some doc')"
  shows "quiet doc doc'"
  using assms
  by (auto simp: encode_event_def Let_def quiet_updates dest!: LookupDocument_same
      split: sum.splits if_splits prod.splits Option.bind_splits)

subsection \<open>Histories\<close>

text \<open>What can be done to a document, with what was observed since its stream was begun: the origins and
  sequence numbers of the writes that succeeded, the bytes of the core's responses, and the bytes of the
  replies that were read. Views may be attached and detached at any time.\<close>

inductive document_history ::
    "document_env \<Rightarrow> 't terminal_ops \<Rightarrow> 't TerminalDocument \<Rightarrow> (u64 \<times> u64) list \<Rightarrow> byte list \<Rightarrow> byte list \<Rightarrow> bool"
  for env T where
  created: "TerminalDocument_create env T thread columns rows scrollback demonstration = Some (Inr doc) \<Longrightarrow>
     document_history env T doc [] [] []"
| begun: "document_history env T doc acc sent got \<Longrightarrow> BeginDocumentStream env T generation doc = Some (hr, doc') \<Longrightarrow>
     document_history env T doc' (if FAILED hr then acc else []) (if FAILED hr then sent else [])
       (if FAILED hr then got else [])"
| written: "document_history env T doc acc sent got \<Longrightarrow>
     WriteDocumentStream env T generation origin sequence bytes doc = Some (hr, doc') \<Longrightarrow>
     document_history env T doc' (if FAILED hr then acc else acc @ [(origin, sequence)])
       (sent @ concat (map (response_bytes env) (write_responses env T generation origin sequence bytes doc))) got"
| was_read: "document_history env T doc acc sent got \<Longrightarrow>
     VT7_ReadDocumentReply thread (Some doc) n = Some (hr, out, Some doc') \<Longrightarrow>
     document_history env T doc' acc sent
       (got @ (case out of None \<Rightarrow> [] | Some value \<Rightarrow> take (unat (tr_byte_count value)) (tr_bytes value)))"
| ended: "document_history env T doc acc sent got \<Longrightarrow> EndDocumentStream generation eofKind doc = (hr, doc') \<Longrightarrow>
     document_history env T doc' acc sent got"
| resized: "document_history env T doc acc sent got \<Longrightarrow>
     VT7_ResizeTerminalDocument T thread (Some doc) generation columns rows = (hr, Some doc') \<Longrightarrow>
     document_history env T doc' acc sent got"
| input_sent: "document_history env T doc acc sent got \<Longrightarrow>
     encode_event env send count thread (Some doc) = Some (hr, result, Some doc') \<Longrightarrow>
     document_history env T doc' acc sent got"
| was_reset: "document_history env T doc acc sent got \<Longrightarrow> VT7_ResetSurface env T (Inr doc) = Some (hr, Some doc') \<Longrightarrow>
     document_history env T doc' acc sent got"
| viewed: "document_history env T doc acc sent got \<Longrightarrow>
     document_history env T (doc\<lparr>doc_attachedView := view, doc_attachmentGeneration := generation\<rparr>) acc sent got"

definition accepted :: "u64 \<Rightarrow> (u64 \<times> u64) list \<Rightarrow> u64 list" where
  "accepted origin acc = map snd (filter (\<lambda>a. fst a = origin) acc)"

definition producers_ok :: "(u64 \<times> u64) list \<Rightarrow> 't TerminalDocument \<Rightarrow> bool" where
  "producers_ok acc doc \<longleftrightarrow>
     (\<forall>origin. sorted_wrt (<) (accepted origin acc) \<and>
        doc_producerSequences doc origin =
          (if accepted origin acc = [] then None else Some (last (accepted origin acc))))"

definition history_ok :: "'t TerminalDocument \<Rightarrow> (u64 \<times> u64) list \<Rightarrow> byte list \<Rightarrow> byte list \<Rightarrow> bool" where
  "history_ok doc acc sent got \<longleftrightarrow>
     doc_ok doc \<and> (\<not> FAILED (doc_replyFailure doc) \<longrightarrow> got @ reply_text doc = sent) \<and> producers_ok acc doc"

lemma history_quiet: "history_ok doc acc sent got \<Longrightarrow> quiet doc doc' \<Longrightarrow> history_ok doc' acc sent got"
  by (auto simp: history_ok_def quiet_def producers_ok_def)

lemma sorted_snoc:
  assumes "sorted_wrt (<) xs" and "xs \<noteq> [] \<longrightarrow> last xs < (x :: 'a :: linorder)"
  shows "sorted_wrt (<) (xs @ [x])"
proof -
  have "y \<le> last xs" if "y \<in> set xs" for y
    using that assms(1) by (induction xs) (auto split: if_splits intro: less_imp_le)
  with assms show ?thesis by (cases xs) (fastforce simp: sorted_wrt_append)+
qed

lemma producers_accept:
  assumes "producers_ok acc doc" and "\<not> stale_sequence origin sequence doc"
    and "doc_producerSequences doc' = (doc_producerSequences doc)(origin \<mapsto> sequence)"
  shows "producers_ok (acc @ [(origin, sequence)]) doc'"
proof -
  have more: "accepted o' (acc @ [(origin, sequence)]) = accepted o' acc @ (if o' = origin then [sequence] else [])" for o'
    by (simp add: accepted_def)
  have "sorted_wrt (<) (accepted origin acc @ [sequence])"
    using assms(1,2) by (intro sorted_snoc) (auto simp: producers_ok_def stale_sequence_def not_le split: if_splits)
  with assms(1,3) show ?thesis by (auto simp: producers_ok_def more)
qed

lemma history_created:
  assumes "errors_fail env T" and "TerminalDocument_create env T thread columns rows scrollback demonstration = Some (Inr doc)"
  shows "history_ok doc [] [] []"
proof -
  let ?doc = "empty_document T thread columns rows scrollback demonstration"
  have "history_ok ?doc [] [] []"
    using reset_ok
    by (simp add: history_ok_def doc_ok_def replies_ok_def reply_total_def reply_text_def producers_ok_def accepted_def
        empty_document_def stream_ok_def Utf8TerminalStream_init_def Snapshot_init_def)
  moreover have "quiet ?doc doc"
  proof (cases demonstration)
    case True
    with assms(2) have "FillDemo env T ?doc = Some (doc, None)"
      by (auto simp: TerminalDocument_create_def empty_document_def split: Option.bind_splits option.splits)
    then show ?thesis by (rule quiet_FillDemo [OF assms(1)])
  next
    case False
    with assms(2) show ?thesis by (simp add: TerminalDocument_create_def empty_document_def quiet_updates)
  qed
  ultimately show ?thesis by (rule history_quiet)
qed

lemma history_begun:
  assumes "errors_fail env T" and "history_ok doc acc sent got" and "BeginDocumentStream env T generation doc = Some (hr, doc')"
  shows "history_ok doc' (if FAILED hr then acc else []) (if FAILED hr then sent else []) (if FAILED hr then got else [])"
proof (cases "generation = 0 \<or> \<not> doc_initialized doc")
  case True
  with assms show ?thesis by (auto simp: BeginDocumentStream_def split: if_splits)
next
  case False
  with assms(3) obtain doc1 thrown1 where h: "terminal_HardReset env T doc = Some (doc1, thrown1)"
    by (auto simp: BeginDocumentStream_def split: Option.bind_splits)
  have q1: "history_ok doc1 acc sent got" by (rule history_quiet [OF assms(2) quiet_HardReset [OF assms(1) h]])
  show ?thesis
  proof (cases thrown1)
    case (Some hr1)
    then have "FAILED hr1" using assms(1) h
      by (auto simp: errors_fail_def terminal_HardReset_def split: Option.bind_splits)
    with Some False h assms(3) q1 show ?thesis by (auto simp: BeginDocumentStream_def)
  next
    case None
    with False h assms(3) obtain doc2 thrown2 where w: "terminal_Write env T reset_text doc1 = Some (doc2, thrown2)"
      by (auto simp: BeginDocumentStream_def split: Option.bind_splits)
    have q2: "history_ok doc2 acc sent got" by (rule history_quiet [OF q1 quiet_Write [OF assms(1) w]])
    show ?thesis
    proof (cases thrown2)
      case (Some hr2)
      then have "FAILED hr2" using assms(1) w
        by (auto simp: errors_fail_def terminal_Write_def split: Option.bind_splits)
      with Some None False h w assms(3) q2 show ?thesis by (auto simp: BeginDocumentStream_def)
    next
      case None2: None
      have "history_ok (begin_stream generation doc2) [] [] []"
        using False q2 reset_ok
        by (auto simp: begin_stream_def history_ok_def doc_ok_def replies_ok_def reply_total_def reply_text_def
            producers_ok_def accepted_def stream_ok_def stream_Begin_def Snapshot_init_def Let_def)
      with None None2 False h w assms(3) show ?thesis by (auto simp: BeginDocumentStream_def)
    qed
  qed
qed

lemma history_written:
  assumes "errors_fail env T" and "history_ok doc acc sent got"
    and "WriteDocumentStream env T generation origin sequence bytes doc = Some (hr, doc')"
  shows "history_ok doc' (if FAILED hr then acc else acc @ [(origin, sequence)])
    (sent @ concat (map (response_bytes env) (write_responses env T generation origin sequence bytes doc))) got"
proof (cases "write_rejected generation origin sequence doc")
  case True
  with assms have "FAILED hr" "doc' = doc"
    by (auto simp: write_rejected_def WriteDocumentStream_def split: if_splits)
  with True assms(2) show ?thesis by (simp add: write_responses_def)
next
  case False
  let ?doc = "doc\<lparr>doc_currentOrigin := origin\<rparr>"
  let ?rs = "stream_responses env T bytes (doc_outputStream doc) (doc_terminal doc)"
  from False assms(3) obtain hr1 u doc1 where
    w: "stream_Write (env_MultiByteToWideChar env) (terminal_Write env T) bytes (doc_outputStream doc) ?doc = Some (hr1, u, doc1)"
    by (auto simp: write_rejected_def WriteDocumentStream_def split: Option.bind_splits)
  let ?doc2 = "doc1\<lparr>doc_outputStream := u, doc_currentOrigin := 0\<rparr>"
  from stream_Write_document [OF w] obtain t where
    doc1: "doc1 = fold (QueueReply env) ?rs (?doc\<lparr>doc_terminal := t\<rparr>)" by auto
  have ok: "replies_ok doc" "stream_ok (doc_outputStream doc)"
    "doc_streamActive doc" "\<not> snap_ended (us_snapshot (doc_outputStream doc))" "doc_streamGeneration doc \<noteq> 0"
    using assms(2) False by (auto simp: history_ok_def doc_ok_def write_rejected_def)
  from ok(1) have "replies_ok (?doc\<lparr>doc_terminal := t\<rparr>)" by (simp add: replies_ok_def reply_total_def)
  from QueueReplies_ok [OF assms(1) this, of ?rs]
  have q: "replies_ok doc1" "\<not> FAILED (doc_replyFailure doc1) \<Longrightarrow> \<not> FAILED (doc_replyFailure doc) \<and>
      reply_text doc1 = reply_text doc @ concat (map (response_bytes env) ?rs)"
    unfolding doc1 [symmetric] by (auto simp: reply_text_def)
  have keeps: "doc_producerSequences doc1 = doc_producerSequences doc" "doc_streamActive doc1" "doc_streamGeneration doc1 \<noteq> 0"
    using ok(3,5) by (simp_all add: doc1)
  have "doc_ok ?doc2"
    using q(1) stream_Write_keeps [OF ok(2) w] ok(4) keeps by (simp add: doc_ok_def replies_ok_def reply_total_def)
  then have base: "history_ok ?doc2 acc (sent @ concat (map (response_bytes env) ?rs)) got"
    using q(2) assms(2) keeps(1) by (auto simp: history_ok_def producers_ok_def reply_text_def)
  have res: "(hr, doc') = (if FAILED hr1 then (hr1, ?doc2) else if FAILED (doc_replyFailure doc1) then (doc_replyFailure doc1, ?doc2)
      else (S_OK, accept_sequence origin sequence ?doc2))"
    using False assms(3) w by (auto simp: write_rejected_def WriteDocumentStream_def Let_def split: if_splits)
  show ?thesis
  proof (cases "FAILED hr")
    case True
    with res base False show ?thesis by (auto simp: write_responses_def split: if_splits)
  next
    case ok2: False
    with res have d: "doc' = accept_sequence origin sequence ?doc2" by (auto split: if_splits)
    have "producers_ok (acc @ [(origin, sequence)]) doc'"
    proof (rule producers_accept)
      show "producers_ok acc doc" using assms(2) by (simp add: history_ok_def)
      show "\<not> stale_sequence origin sequence doc" using False by (simp add: write_rejected_def)
    qed (simp add: d accept_sequence_def keeps(1))
    with base d ok2 False show ?thesis
      by (auto simp: history_ok_def write_responses_def accept_sequence_def doc_ok_def replies_ok_def reply_total_def
          reply_text_def)
  qed
qed

text \<open>A reply is read whole.\<close>

lemma read_first:
  assumes "replies_ok doc" and "VT7_ReadDocumentReply thread (Some doc) n = Some (hr, out, handle)"
  shows "(out = None \<and> handle = Some doc) \<or>
    (\<exists>queued rest v. doc_replies doc = queued # rest \<and> hr = S_OK \<and> out = Some v \<and>
      handle = Some (pop_reply queued rest doc) \<and> tr_origin_transport_generation v = reply_origin queued \<and>
      tr_sequence v = reply_sequence queued \<and> take (unat (tr_byte_count v)) (tr_bytes v) = reply_bytes queued)"
proof (cases "doc_replies doc")
  case Nil
  with assms(2) show ?thesis
    by (auto simp: VT7_ReadDocumentReply_def dest!: LookupDocument_same split: option.splits if_splits sum.splits)
next
  case (Cons queued rest)
  with assms(1) have len: "length (reply_bytes queued) \<le> 4096"
    by (simp add: replies_ok_def VT7_TERMINAL_REPLY_BYTES_def)
  then have "unat (of_nat (length (reply_bytes queued)) :: u32) = length (reply_bytes queued)"
    by (simp add: unat_of_nat take_bit_nat_eq_self)
  with Cons assms(2) len show ?thesis
    by (auto simp: VT7_ReadDocumentReply_def memcpy_def VT7_TERMINAL_REPLY_BYTES_def dest!: LookupDocument_same
        split: option.splits if_splits sum.splits)
qed

lemma pop_reply_ok:
  assumes "replies_ok doc" and "doc_replies doc = queued # rest"
  shows "replies_ok (pop_reply queued rest doc)" "reply_text doc = reply_bytes queued @ reply_text (pop_reply queued rest doc)"
  using assms by (auto simp: replies_ok_def pop_reply_def reply_total_def reply_text_def)

lemma history_read:
  assumes "history_ok doc acc sent got" and "VT7_ReadDocumentReply thread (Some doc) n = Some (hr, out, Some doc')"
  shows "history_ok doc' acc sent
    (got @ (case out of None \<Rightarrow> [] | Some value \<Rightarrow> take (unat (tr_byte_count value)) (tr_bytes value)))"
proof -
  have ok: "replies_ok doc" using assms(1) by (simp add: history_ok_def doc_ok_def)
  from read_first [OF ok assms(2)] show ?thesis
  proof (elim disjE exE conjE)
    fix queued rest v
    assume r: "doc_replies doc = queued # rest" "out = Some v" "Some doc' = Some (pop_reply queued rest doc)"
      "take (unat (tr_byte_count v)) (tr_bytes v) = reply_bytes queued"
    from pop_reply_ok [OF ok r(1)] r assms(1) show ?thesis
      by (simp add: history_ok_def doc_ok_def producers_ok_def) (simp add: pop_reply_def)
  qed (use assms(1) in simp)
qed

lemma history_invariant:
  assumes "errors_fail env T"
  shows "document_history env T doc acc sent got \<Longrightarrow> history_ok doc acc sent got"
proof (induction rule: document_history.induct)
  case (viewed doc acc sent got view generation)
  from history_quiet [OF viewed.IH quiet_trans [OF quiet_updates(4) quiet_updates(5)]] show ?case by simp
next
  case (begun doc acc sent got generation hr doc')
  then show ?case by (intro history_begun [OF assms])
next
  case (written doc acc sent got generation origin sequence bytes hr doc')
  then show ?case by (intro history_written [OF assms])
qed (auto intro: history_created [OF assms] history_read history_quiet
    dest: quiet_End quiet_Resize quiet_event quiet_Reset [OF assms])

subsection \<open>Properties\<close>

text \<open>C25: In every document that can arise through the native interface the reply queue holds at most 64
  replies of one to 4096 bytes, at most 65536 bytes in all and exactly as many as its counter says,
  numbered consecutively; and reading a reply never copies past the array of the caller's structure.\<close>

theorem reply_queue_bounded:
  assumes "errors_fail env T" and "document_history env T doc acc sent got"
  shows "length (doc_replies doc) \<le> 64 \<and> unat (doc_replyBytes doc) = length (reply_text doc) \<and>
    length (reply_text doc) \<le> 65536 \<and>
    (\<forall>r \<in> set (doc_replies doc). reply_bytes r \<noteq> [] \<and> length (reply_bytes r) \<le> 4096 \<and> reply_origin r \<noteq> 0) \<and>
    numbered (doc_replySequence doc) (doc_replies doc) \<and>
    (\<forall>thread n. VT7_ReadDocumentReply thread (Some doc) n \<noteq> None)"
proof -
  have ok: "replies_ok doc" using history_invariant [OF assms] by (simp add: history_ok_def doc_ok_def)
  have "length (reply_text doc) = reply_total doc"
    by (simp add: reply_text_def reply_total_def length_concat comp_def)
  moreover have "unat (doc_replyBytes doc) = reply_total doc"
    using ok unat_small [of "reply_total doc"] by (simp add: replies_ok_def)
  moreover have "VT7_ReadDocumentReply thread (Some doc) n \<noteq> None" for thread n
    using ok by (auto simp: VT7_ReadDocumentReply_def memcpy_def replies_ok_def dest!: LookupDocument_same
        split: option.splits sum.splits list.splits)
  ultimately show ?thesis using ok by (simp add: replies_ok_def list_all_iff VT7_TERMINAL_REPLY_BYTES_def)
qed

text \<open>C26: As long as no failure to queue a reply has been recorded, no reply is lost, repeated or reordered:
  the bytes of the replies read so far, followed by those still queued, are the UTF-8 of the core's
  responses to all writes since the stream was begun.\<close>

theorem replies_in_order:
  assumes "errors_fail env T" and "document_history env T doc acc sent got" and "\<not> FAILED (doc_replyFailure doc)"
  shows "got @ concat (map reply_bytes (doc_replies doc)) = sent"
  using history_invariant [OF assms(1,2)] assms(3) by (simp add: history_ok_def reply_text_def)

text \<open>C27: The sequence numbers of the writes accepted from one producer since the stream was begun strictly
  increase, whatever other producers write in between; a write that is not newer than the last one
  accepted from its producer is refused and changes nothing.\<close>

theorem producer_sequences_increase:
  assumes "errors_fail env T" and "document_history env T doc acc sent got"
  shows "sorted_wrt (<) (accepted origin acc) \<and>
    (\<forall>sequence bytes. accepted origin acc \<noteq> [] \<and> sequence \<le> last (accepted origin acc) \<longrightarrow>
       (\<exists>hr. FAILED hr \<and>
          WriteDocumentStream env T (doc_streamGeneration doc) origin sequence bytes doc = Some (hr, doc)))"
  using history_invariant [OF assms]
  by (auto simp: history_ok_def producers_ok_def WriteDocumentStream_def stale_sequence_def)

text \<open>Encoded input either fits the 256 bytes of the caller's structure, and is all there, or is refused;
  the copy never runs past the array.\<close>

theorem input_result_exact:
  "\<exists>r. CompleteInputResult env handled output = Some r \<and>
    (case r of
       Inl hr \<Rightarrow> encode_response env output = Inl hr \<or>
         (\<exists>bytes. encode_response env output = Inr bytes \<and> length bytes > 256 \<and> hr = ERROR_INSUFFICIENT_BUFFER)
     | Inr v \<Rightarrow> encode_response env output = Inr (take (unat (ir_byte_count v)) (ir_bytes v)) \<and>
         length (ir_bytes v) = 256 \<and> (ir_handled v = 1 \<longleftrightarrow> handled))"
proof (cases "encode_response env output")
  case (Inr bytes)
  have "length bytes \<le> 256 \<Longrightarrow> unat (of_nat (length bytes) :: u32) = length bytes"
    by (simp add: unat_of_nat take_bit_nat_eq_self)
  with Inr show ?thesis
    by (cases "length bytes \<le> 256") (auto simp: CompleteInputResult_def memcpy_def VT7_INPUT_RESULT_BYTES_def)
qed (simp add: CompleteInputResult_def)

subsection \<open>A document at work\<close>

text \<open>A core that keeps what is written to it and answers each text with a fixed reply, and a
  system with the reference conversion and ASCII replies.\<close>

definition echo_ops :: "wstring terminal_ops" where
  "echo_ops =
     \<lparr>term_Create = (\<lambda>_ _ _. []), term_Write = (\<lambda>str t. Some (t @ str, if str = [0x63] then [wstr ''ok''] else [], None)),
      term_HardResetWithoutErase = (\<lambda>t. Some (t, [], None)), term_UserResize = (\<lambda>_ _ t. (S_OK, t)),
      term_GetViewport = (\<lambda>_. (80, 24)), term_SendKeyEvent = (\<lambda>_ _ _ _ t. (t, None)),
      term_SendCharEvent = (\<lambda>w _ _ t. (t, Some [w])), term_FocusChanged = (\<lambda>_ t. (t, None))\<rparr>"

definition ascii_env :: document_env where
  "ascii_env =
     \<lparr>env_MultiByteToWideChar = (\<lambda>bs. utf16_text (utf8_decode bs)), env_WideCharToMultiByte = (\<lambda>str. Inr (map ucast str)),
      env_narrowing_error = E_UNEXPECTED\<rparr>"

lemma echo_errors_fail: "errors_fail ascii_env echo_ops"
  by (simp add: errors_fail_def ascii_env_def echo_ops_def)

definition echo_created :: "wstring TerminalDocument" where
  "echo_created = empty_document echo_ops 5 80 24 500 False"

definition echo_begun :: "wstring TerminalDocument" where
  "echo_begun = begin_stream 1 (echo_created\<lparr>doc_terminal := reset_text\<rparr>)"

definition echo_written :: "wstring TerminalDocument" where
  "echo_written =
     accept_sequence 7 3
       (push_reply [0x6F, 0x6B] (echo_begun\<lparr>doc_currentOrigin := 7, doc_terminal := reset_text @ [0x63]\<rparr>)
         \<lparr>doc_outputStream := accept_write [0x63] [0x63] u8state_reset (doc_outputStream echo_begun), doc_currentOrigin := 0\<rparr>)"

lemma echo_begin: "BeginDocumentStream ascii_env echo_ops 1 echo_created = Some (S_OK, echo_begun)"
  by (simp add: BeginDocumentStream_def terminal_HardReset_def terminal_Write_def echo_begun_def echo_created_def
      empty_document_def echo_ops_def reset_text_def)

lemma echo_decode: "u8u16 (\<lambda>bs. utf16_text (utf8_decode bs)) [0x63] u8state_reset = Some (S_OK, [0x63], u8state_reset)"
proof -
  have "utf8_text [0x63] = [0x63]" "utf16_text [0x63] = [0x63]" "scalar 0x63"
    by (simp_all add: utf8_def utf16_def scalar_def)
  then have c: "utf16_text (utf8_decode [0x63]) = [0x63]" "cache_partial [0x63] u8state_reset = Some ([0x63], u8state_reset)"
    using utf8_decode_text [of "[0x63]"] cache_boundary [of "[0x63]" u8state_reset] by simp_all
  then show ?thesis
    by (simp add: u8u16_def complete_partial_def MultiByteToWideChar_def INT_MAX_def) (simp add: u8state_reset_def)
qed

lemma echo_write: "WriteDocumentStream ascii_env echo_ops 1 7 3 [0x63] echo_begun = Some (S_OK, echo_written)"
proof -
  let ?doc = "echo_begun\<lparr>doc_currentOrigin := 7, doc_terminal := reset_text @ [0x63]\<rparr>"
  have u: "us_state (doc_outputStream echo_begun) = u8state_reset" "\<not> snap_ended (us_snapshot (doc_outputStream echo_begun))"
    by (simp_all add: echo_begun_def begin_stream_def stream_Begin_def Let_def)
  have "QueueReply ascii_env (wstr ''ok'') ?doc = push_reply [0x6F, 0x6B] ?doc"
    by (simp add: QueueReply_def encode_response_def INT_MAX_def ascii_env_def queue_pieces_step
        VT7_TERMINAL_REPLY_BYTES_def echo_begun_def begin_stream_def)
  then have t: "terminal_Write ascii_env echo_ops [0x63] (echo_begun\<lparr>doc_currentOrigin := 7\<rparr>) =
      Some (push_reply [0x6F, 0x6B] ?doc, None)"
    by (simp add: terminal_Write_def echo_ops_def) (simp add: echo_begun_def begin_stream_def)
  have "stream_Write (env_MultiByteToWideChar ascii_env) (terminal_Write ascii_env echo_ops) [0x63] (doc_outputStream echo_begun)
      (echo_begun\<lparr>doc_currentOrigin := 7\<rparr>) =
    Some (S_OK, accept_write [0x63] [0x63] u8state_reset (doc_outputStream echo_begun), push_reply [0x6F, 0x6B] ?doc)"
    using u echo_decode t by (simp add: stream_Write_def) (simp add: ascii_env_def)
  then show ?thesis
    by (simp add: WriteDocumentStream_def echo_written_def)
      (simp add: echo_begun_def begin_stream_def stale_sequence_def push_reply_def)
qed

lemma echo_begun_fields:
  "doc_outputStream echo_begun = stream_Begin Utf8TerminalStream_init" "doc_terminal echo_begun = reset_text"
  "doc_streamActive echo_begun" "doc_streamGeneration echo_begun = 1" "doc_producerSequences echo_begun = Map.empty"
  "doc_replies echo_begun = []" "doc_replyFailure echo_begun = S_OK" "doc_replySequence echo_begun = 0"
  by (simp_all add: echo_begun_def begin_stream_def echo_created_def empty_document_def)

lemma echo_responses: "write_responses ascii_env echo_ops 1 7 3 [0x63] echo_begun = [wstr ''ok'']"
  using echo_decode
  by (simp add: write_responses_def write_rejected_def stale_sequence_def stream_responses_def echo_begun_fields
      stream_Begin_def Let_def echo_ops_def) (simp add: ascii_env_def)

lemma echo_history:
  "document_history ascii_env echo_ops echo_written [(7, 3)] [0x6F, 0x6B] []"
proof -
  have "document_history ascii_env echo_ops echo_created [] [] []"
    by (rule document_history.created [where thread = 5 and columns = 80 and rows = 24 and scrollback = 500
          and demonstration = False]) (simp add: TerminalDocument_create_def echo_created_def empty_document_def)
  from document_history.begun [OF this echo_begin] have "document_history ascii_env echo_ops echo_begun [] [] []" by simp
  from document_history.written [OF this echo_write] echo_responses show ?thesis
    by (simp add: response_bytes_def encode_response_def INT_MAX_def ascii_env_def)
qed

lemma echo_written_fields:
  "doc_replies echo_written = [\<lparr>reply_origin = 7, reply_sequence = 1, reply_bytes = [0x6F, 0x6B]\<rparr>]"
  "doc_replyFailure echo_written = S_OK"
  by (simp_all add: echo_written_def accept_sequence_def push_reply_def echo_begun_fields)

lemma reply_queue_bounded_witness:
  "unat (doc_replyBytes echo_written) = length (reply_text echo_written) \<and>
    numbered (doc_replySequence echo_written) (doc_replies echo_written) \<and>
    (\<exists>r. doc_replies echo_written = [r] \<and> reply_bytes r \<noteq> [] \<and> reply_origin r \<noteq> 0) \<and>
    VT7_ReadDocumentReply 5 (Some echo_written) (Some sizeof_TERMINAL_REPLY) \<noteq> None"
  using reply_queue_bounded [OF echo_errors_fail echo_history] by (auto simp: echo_written_fields)

lemma replies_in_order_witness:
  "[] @ concat (map reply_bytes (doc_replies echo_written)) = [0x6F, 0x6B]"
  by (rule replies_in_order [OF echo_errors_fail echo_history]) (simp add: echo_written_fields)

lemma producer_sequences_increase_witness:
  "sorted_wrt (<) (accepted 7 [(7, 3)]) \<and>
    (\<exists>hr. FAILED hr \<and> WriteDocumentStream ascii_env echo_ops (doc_streamGeneration echo_written) 7 3 [0x41] echo_written =
       Some (hr, echo_written))"
  using producer_sequences_increase [OF echo_errors_fail echo_history, of 7] by (auto simp: accepted_def)

theorem input_result_exact_witness:
  "\<exists>v. CompleteInputResult ascii_env True (wstr ''ok'') = Some (Inr v) \<and>
     take (unat (ir_byte_count v)) (ir_bytes v) = [0x6F, 0x6B]"
proof -
  obtain r where r: "CompleteInputResult ascii_env True (wstr ''ok'') = Some r" and
    "(case r of
       Inl hr \<Rightarrow> encode_response ascii_env (wstr ''ok'') = Inl hr \<or>
         (\<exists>bytes. encode_response ascii_env (wstr ''ok'') = Inr bytes \<and> length bytes > 256 \<and> hr = ERROR_INSUFFICIENT_BUFFER)
     | Inr v \<Rightarrow> encode_response ascii_env (wstr ''ok'') = Inr (take (unat (ir_byte_count v)) (ir_bytes v)) \<and>
         length (ir_bytes v) = 256 \<and> (ir_handled v = 1 \<longleftrightarrow> True))"
    using input_result_exact [of ascii_env True "wstr ''ok''"] by blast
  moreover have "encode_response ascii_env (wstr ''ok'') = Inr [0x6F, 0x6B]"
    by (simp add: encode_response_def ascii_env_def INT_MAX_def)
  ultimately show ?thesis by (cases r) simp_all
qed

end

