(* ===== verification/EscapeSequences.thy ===== *)
theory EscapeSequences
  imports OutputCalls
begin

text \<open>
  Escape sequences without parameters, from their text to the call of the output engine: \<^verbatim>\<open>ESC\<close>,
  intermediates and a final character.
\<close>

subsection \<open>Parsing\<close>

definition esc_text :: "string \<Rightarrow> char \<Rightarrow> wstring" where
  "esc_text ins f = ESC # wstr ins @ [of_char f]"

text \<open>A final character is not one that introduces another kind of sequence.\<close>

definition esc_final :: "string \<Rightarrow> char \<Rightarrow> bool" where
  "esc_final ins f \<longleftrightarrow>
     (let w = of_char f :: wchar
      in 0x30 \<le> w \<and> w \<le> 0x7E \<and>
         (ins = [] \<longrightarrow> \<not> (isCsiIndicator w \<or> isOscIndicator w \<or> isDcsIndicator w \<or> isSosIndicator w \<or> isPmIndicator w \<or>
                       isApcIndicator w)))"

definition esc_collected :: "string \<Rightarrow> ('e, 'h, 'c) sm \<Rightarrow> ('e, 'h, 'c) sm" where
  "esc_collected ins s =
     (if ins = [] then EnterEscape s
      else (EnterEscape s)\<lparr>sm_state := EscapeIntermediate, sm_identifier := collected (wstr ins)\<rparr>)"

lemma feed_esc_intermediate:
  assumes "isIntermediate w" and "sm_state s \<in> {Escape, EscapeIntermediate}" and "\<not> sm_isEngineForInput s"
  shows "feed ops w s = Some (s\<lparr>sm_state := EscapeIntermediate, sm_identifier := AddIntermediate w (sm_identifier s)\<rparr>)"
proof -
  have "\<not> isC0Code w" "\<not> isDelete w" and e: "w \<noteq> CAN" "w \<noteq> SUB" "\<not> isC1ControlCharacter w" "\<not> isEscape w"
    using assms(1) by (auto simp: char_class word_le_nat_alt wchar_eq_unat)
  with assms show ?thesis
    by (auto simp: feed_def ProcessCharacter_event [OF e] state_event_def EventEscape_def EventEscapeIntermediate_def
        EnterEscapeIntermediate_def ActionCollect_def)
qed

lemma feed_esc_intermediates:
  assumes "list_all isIntermediate ws" and "sm_state s \<in> {Escape, EscapeIntermediate}" and "\<not> sm_isEngineForInput s"
    and "ws \<noteq> []"
  shows "foldM (feed ops) ws s =
    Some (s\<lparr>sm_state := EscapeIntermediate, sm_identifier := foldl (\<lambda>b w. AddIntermediate w b) (sm_identifier s) ws\<rparr>)"
  using assms
proof (induction ws arbitrary: s)
  case (Cons w ws)
  let ?s = "s\<lparr>sm_state := EscapeIntermediate, sm_identifier := AddIntermediate w (sm_identifier s)\<rparr>"
  have "feed ops w s = Some ?s" using Cons.prems by (intro feed_esc_intermediate) auto
  with Cons.IH [of ?s] Cons.prems show ?case by (cases "ws = []") auto
qed simp

lemma feed_esc_prefix:
  assumes "sm_ready s" and "list_all isIntermediate (wstr ins)"
  shows "foldM (feed ops) (ESC # wstr ins) s = Some (esc_collected ins s)"
proof -
  have "feed ops ESC s = Some (EnterEscape s)"
    using assms(1) by (simp add: sm_ready_def feed_actionable ESC_actionable ProcessCharacter_ESC ActionInterrupt_def)
  moreover have "foldM (feed ops) (wstr ins) (EnterEscape s) = Some (esc_collected ins s)"
  proof (cases "ins = []")
    case False
    then have "foldM (feed ops) (wstr ins) (EnterEscape s) = Some ((EnterEscape s)\<lparr>sm_state := EscapeIntermediate,
        sm_identifier := foldl (\<lambda>b w. AddIntermediate w b) (sm_identifier (EnterEscape s)) (wstr ins)\<rparr>)"
      using assms by (intro feed_esc_intermediates)
        (auto simp: EnterEscape_def ActionClear_def sm_ready_def wstr_def)
    with False show ?thesis by (simp add: esc_collected_def EnterEscape_def ActionClear_def)
  qed (simp add: esc_collected_def)
  ultimately show ?thesis by simp
qed

lemma feed_esc_final:
  assumes "sm_ready s" and "esc_final ins f" and "length ins \<le> 6"
  shows "feed ops (of_char f) (esc_collected ins s) =
    SafeExecute ops (eng_ActionEscDispatch ops (VTID (ins @ [f]))) (esc_collected ins s) \<bind> (\<lambda>(_, s). Some (EnterGround s))"
proof -
  let ?w = "of_char f :: wchar"
  have c: "\<not> isC0Code ?w" "\<not> isDelete ?w" "\<not> isIntermediate ?w" and
    e: "?w \<noteq> CAN" "?w \<noteq> SUB" "\<not> isC1ControlCharacter ?w" "\<not> isEscape ?w"
    using assms(2) by (auto simp: esc_final_def Let_def char_class word_le_nat_alt wchar_eq_unat)
  have st: "sm_state (esc_collected ins s) = (if ins = [] then Escape else EscapeIntermediate)"
    "GetParserMode Ansi (esc_collected ins s)" "\<not> sm_isEngineForInput (esc_collected ins s)"
    using assms(1) by (simp_all add: esc_collected_def EnterEscape_def ActionClear_def sm_ready_def GetParserMode_def)
  have "sm_identifier (esc_collected ins s) = collected (wstr ins)"
    by (simp add: esc_collected_def EnterEscape_def ActionClear_def)
  then have id: "Finalize ?w (sm_identifier (esc_collected ins s)) = VTID (ins @ [f])"
    using Finalize_VTID [OF assms(3), of f] by simp
  have bind: "map_option snd m \<bind> g = m \<bind> (\<lambda>(_, s). g s)" for m and g :: "_ \<Rightarrow> _ option"
    by (cases m) auto
  have "feed ops ?w (esc_collected ins s) = ActionEscDispatch ops ?w (esc_collected ins s) \<bind> (\<lambda>s. Some (EnterGround s))"
    using assms(2) c st
    by (cases "ins = []") (simp_all add: feed_def ProcessCharacter_event [OF e] state_event_def EventEscape_def EventEscapeIntermediate_def
        esc_final_def Let_def)
  then show ?thesis by (simp only: ActionEscDispatch_def id bind)
qed

lemma esc_frame:
  "sm_parserMode (esc_collected ins s) = sm_parserMode s" "sm_isEngineForInput (esc_collected ins s) = sm_isEngineForInput s"
  "sm_onCsiCompleteCallback (esc_collected ins s) = sm_onCsiCompleteCallback s"
  "sm_engine (esc_collected ins s) = sm_engine s"
  by (simp_all add: esc_collected_def EnterEscape_def ActionClear_def)

context stream_terminal
begin

lemma esc_after:
  assumes s: "sm_ready s" and "list_all isIntermediate (wstr ins)" and "length ins \<le> 6" and "esc_final ins f"
    and quiet: "OutputEngine_ActionEscDispatch D (VTID (ins @ [f])) (sm_engine s) = (e, [], r)"
  shows "engine_after (output_ops env D run) (esc_text ins f) s e"
proof -
  let ?ops = "output_ops env D run"
  let ?t = "esc_collected ins s"
  have "dispatch_and_clear D (esc_calls (VTID (ins @ [f]))) (sm_engine s) = (e, [], r)"
    using quiet by (simp add: OutputEngine_ActionEscDispatch_def)
  then have "r \<noteq> NotHandled" by (rule dispatch_outcome)
  with quiet have "SafeExecute ?ops (eng_ActionEscDispatch ?ops (VTID (ins @ [f]))) ?t = Some (r = Handled, ?t\<lparr>sm_engine := e\<rparr>)"
    by (intro SafeExecute_quiet) (simp_all add: esc_frame output_ops_def)
  then have "foldM (feed ?ops) (esc_text ins f) s = Some (EnterGround (?t\<lparr>sm_engine := e\<rparr>))"
    using feed_esc_prefix [OF s assms(2), of ?ops] feed_esc_final [OF s assms(4,3), of ?ops]
    unfolding esc_text_def append_Cons [symmetric] foldM_append
    by (simp only: bind.bind_lunit foldM_single) simp
  moreover have "map_option sm_erase (ProcessString ?ops (esc_text ins f) s) =
      map_option sm_erase (foldM (feed ?ops) (esc_text ins f) s)"
    using s by (intro output_string_feed) (simp add: sm_ready_def)
  ultimately show ?thesis
    using ready_sequence_end [OF s esc_frame(1,2,3)] by (intro engine_after_erase)
qed

end

subsection \<open>The first character of an identifier\<close>

lemma VTID_Cons:
  assumes "length s \<le> 6"
  shows "VTID_at (VTID (c # s)) 0 = of_char c" "VTID_SubSequence (VTID (c # s)) 1 = VTID s"
proof -
  have all: "unat (VTID (c # s)) = of_char c + 256 * unat (VTID s)"
    using assms by (simp add: unat_VTID)
  have small: "unat (VTID s) < 2 ^ 56"
  proof -
    have "id_nat (map of_char s) < 256 ^ length s" using id_nat_bound [of "map of_char s"] by simp
    also have "\<dots> \<le> 2 ^ 48" unfolding pow256 using assms by (intro power_increasing) auto
    finally show ?thesis using assms by (simp add: unat_VTID)
  qed
  have c: "of_char c < (256 :: nat)" by simp
  have shift: "unat (drop_bit k (v :: u64)) = unat v div 2 ^ k" for k v
  proof -
    have "unat v < 2 ^ 64" using unsigned_less [of v, where ?'a = nat] by simp
    then show ?thesis
      unfolding unsigned_drop_bit_eq by (simp add: drop_bit_eq_div take_bit_nat_eq_self)
  qed
  show "VTID_SubSequence (VTID (c # s)) 1 = VTID s"
    unfolding VTID_SubSequence_def word_unat_eq_iff unat_VTID_of_value shift all using small c by simp
  have "VTID_SubSequence (VTID (c # s)) 0 AND 0xFF = take_bit 8 (VTID_SubSequence (VTID (c # s)) 0)"
    by (simp add: take_bit_eq_mask mask_eq_exp_minus_1)
  then have "unat (VTID_SubSequence (VTID (c # s)) 0 AND 0xFF) = of_char c"
    using all c
    by (simp add: VTID_SubSequence_def unsigned_take_bit_eq take_bit_nat_def unat_VTID_of_value mod_mod_cancel)
  then have "VTID_SubSequence (VTID (c # s)) 0 AND 0xFF = of_char c"
    by (simp add: word_unat_eq_iff unat_of_char_u64)
  moreover have "ucast (of_char c :: u64) = (of_char c :: byte)"
  proof -
    have "unat (of_char c :: byte) = of_char c" using unat_of_nat_byte [OF c] by (simp add: of_nat_of_char)
    then show ?thesis
      by (simp add: word_unat_eq_iff unsigned_ucast_eq unat_of_char_u64 take_bit_nat_eq_self)
  qed
  ultimately show "VTID_at (VTID (c # s)) 0 = of_char c"
    by (simp add: VTID_at_def)
qed

end
