(* ===== verification/Charsets.thy ===== *)
theory Charsets
  imports Prelude
begin

text \<open>
  The character sets of \<^verbatim>\<open>src/src/terminal/adapter/charsets.hpp\<close>: each is a table of 95 or 96 characters,
  built from a row of consecutive characters by a list of replacements. The sources compare tables by
  the address of their data; here a table is named by a constructor.
\<close>

subsection \<open>Building a table\<close>

definition build_charset :: "wchar \<Rightarrow> nat \<Rightarrow> (wchar \<times> wchar) list \<Rightarrow> wstring" where
  "build_charset base n replacements =
     fold (\<lambda>(from, to) t. t[unat (from - base) := to]) replacements (map (\<lambda>i. base + of_nat i) [0..<n])"

subsection \<open>The replacements\<close>

definition Latin2_replacements :: "(wchar \<times> wchar) list" where
  "Latin2_replacements =
    [(0xA1, 0x104), (0xA2, 0x2D8), (0xA3, 0x141), (0xA5, 0x13D), (0xA6, 0x15A), (0xA9, 0x160),
     (0xAA, 0x15E), (0xAB, 0x164), (0xAC, 0x179), (0xAE, 0x17D), (0xAF, 0x17B), (0xB1, 0x105),
     (0xB2, 0x2DB), (0xB3, 0x142), (0xB5, 0x13E), (0xB6, 0x15B), (0xB7, 0x2C7), (0xB9, 0x161),
     (0xBA, 0x15F), (0xBB, 0x165), (0xBC, 0x17A), (0xBD, 0x2DD), (0xBE, 0x17E), (0xBF, 0x17C),
     (0xC0, 0x154), (0xC3, 0x102), (0xC5, 0x139), (0xC6, 0x106), (0xC8, 0x10C), (0xCA, 0x118),
     (0xCC, 0x11A), (0xCF, 0x10E), (0xD0, 0x110), (0xD1, 0x143), (0xD2, 0x147), (0xD5, 0x150),
     (0xD8, 0x158), (0xD9, 0x16E), (0xDB, 0x170), (0xDE, 0x162), (0xE0, 0x155), (0xE3, 0x103),
     (0xE5, 0x13A), (0xE6, 0x107), (0xE8, 0x10D), (0xEA, 0x119), (0xEC, 0x11B), (0xEF, 0x10F),
     (0xF0, 0x111), (0xF1, 0x144), (0xF2, 0x148), (0xF5, 0x151), (0xF8, 0x159), (0xF9, 0x16F),
     (0xFB, 0x171), (0xFE, 0x163), (0xFF, 0x2D9)]"

definition LatinCyrillic_replacements :: "(wchar \<times> wchar) list" where
  "LatinCyrillic_replacements =
    [(0xA1, 0x401), (0xA2, 0x402), (0xA3, 0x403), (0xA4, 0x404), (0xA5, 0x405), (0xA6, 0x406),
     (0xA7, 0x407), (0xA8, 0x408), (0xA9, 0x409), (0xAA, 0x40A), (0xAB, 0x40B), (0xAC, 0x40C),
     (0xAE, 0x40E), (0xAF, 0x40F), (0xB0, 0x410), (0xB1, 0x411), (0xB2, 0x412), (0xB3, 0x413),
     (0xB4, 0x414), (0xB5, 0x415), (0xB6, 0x416), (0xB7, 0x417), (0xB8, 0x418), (0xB9, 0x419),
     (0xBA, 0x41A), (0xBB, 0x41B), (0xBC, 0x41C), (0xBD, 0x41D), (0xBE, 0x41E), (0xBF, 0x41F),
     (0xC0, 0x420), (0xC1, 0x421), (0xC2, 0x422), (0xC3, 0x423), (0xC4, 0x424), (0xC5, 0x425),
     (0xC6, 0x426), (0xC7, 0x427), (0xC8, 0x428), (0xC9, 0x429), (0xCA, 0x42A), (0xCB, 0x42B),
     (0xCC, 0x42C), (0xCD, 0x42D), (0xCE, 0x42E), (0xCF, 0x42F), (0xD0, 0x430), (0xD1, 0x431),
     (0xD2, 0x432), (0xD3, 0x433), (0xD4, 0x434), (0xD5, 0x435), (0xD6, 0x436), (0xD7, 0x437),
     (0xD8, 0x438), (0xD9, 0x439), (0xDA, 0x43A), (0xDB, 0x43B), (0xDC, 0x43C), (0xDD, 0x43D),
     (0xDE, 0x43E), (0xDF, 0x43F), (0xE0, 0x440), (0xE1, 0x441), (0xE2, 0x442), (0xE3, 0x443),
     (0xE4, 0x444), (0xE5, 0x445), (0xE6, 0x446), (0xE7, 0x447), (0xE8, 0x448), (0xE9, 0x449),
     (0xEA, 0x44A), (0xEB, 0x44B), (0xEC, 0x44C), (0xED, 0x44D), (0xEE, 0x44E), (0xEF, 0x44F),
     (0xF0, 0x2116), (0xF1, 0x451), (0xF2, 0x452), (0xF3, 0x453), (0xF4, 0x454), (0xF5, 0x455),
     (0xF6, 0x456), (0xF7, 0x457), (0xF8, 0x458), (0xF9, 0x459), (0xFA, 0x45A), (0xFB, 0x45B),
     (0xFC, 0x45C), (0xFD, 0xA7), (0xFE, 0x45E), (0xFF, 0x45F)]"

definition LatinGreek_replacements :: "(wchar \<times> wchar) list" where
  "LatinGreek_replacements =
    [(0xA1, 0x2018), (0xA2, 0x2019), (0xA4, 0x2426), (0xA5, 0x2426), (0xAA, 0x2426), (0xAE, 0x2426),
     (0xAF, 0x2015), (0xB4, 0x384), (0xB5, 0x385), (0xB6, 0x386), (0xB8, 0x388), (0xB9, 0x389),
     (0xBA, 0x38A), (0xBC, 0x38C), (0xBE, 0x38E), (0xBF, 0x38F), (0xC0, 0x390), (0xC1, 0x391),
     (0xC2, 0x392), (0xC3, 0x393), (0xC4, 0x394), (0xC5, 0x395), (0xC6, 0x396), (0xC7, 0x397),
     (0xC8, 0x398), (0xC9, 0x399), (0xCA, 0x39A), (0xCB, 0x39B), (0xCC, 0x39C), (0xCD, 0x39D),
     (0xCE, 0x39E), (0xCF, 0x39F), (0xD0, 0x3A0), (0xD1, 0x3A1), (0xD2, 0x2426), (0xD3, 0x3A3),
     (0xD4, 0x3A4), (0xD5, 0x3A5), (0xD6, 0x3A6), (0xD7, 0x3A7), (0xD8, 0x3A8), (0xD9, 0x3A9),
     (0xDA, 0x3AA), (0xDB, 0x3AB), (0xDC, 0x3AC), (0xDD, 0x3AD), (0xDE, 0x3AE), (0xDF, 0x3AF),
     (0xE0, 0x3B0), (0xE1, 0x3B1), (0xE2, 0x3B2), (0xE3, 0x3B3), (0xE4, 0x3B4), (0xE5, 0x3B5),
     (0xE6, 0x3B6), (0xE7, 0x3B7), (0xE8, 0x3B8), (0xE9, 0x3B9), (0xEA, 0x3BA), (0xEB, 0x3BB),
     (0xEC, 0x3BC), (0xED, 0x3BD), (0xEE, 0x3BE), (0xEF, 0x3BF), (0xF0, 0x3C0), (0xF1, 0x3C1),
     (0xF2, 0x3C2), (0xF3, 0x3C3), (0xF4, 0x3C4), (0xF5, 0x3C5), (0xF6, 0x3C6), (0xF7, 0x3C7),
     (0xF8, 0x3C8), (0xF9, 0x3C9), (0xFA, 0x3CA), (0xFB, 0x3CB), (0xFC, 0x3CC), (0xFD, 0x3CD),
     (0xFE, 0x3CE), (0xFF, 0x2426)]"

definition LatinHebrew_replacements :: "(wchar \<times> wchar) list" where
  "LatinHebrew_replacements =
    [(0xA1, 0x2426), (0xAA, 0xD7), (0xBA, 0xF7), (0xBF, 0x2426), (0xC0, 0x2426), (0xC1, 0x2426),
     (0xC2, 0x2426), (0xC3, 0x2426), (0xC4, 0x2426), (0xC5, 0x2426), (0xC6, 0x2426), (0xC7, 0x2426),
     (0xC8, 0x2426), (0xC9, 0x2426), (0xCA, 0x2426), (0xCB, 0x2426), (0xCC, 0x2426), (0xCD, 0x2426),
     (0xCE, 0x2426), (0xCF, 0x2426), (0xD0, 0x2426), (0xD1, 0x2426), (0xD2, 0x2426), (0xD3, 0x2426),
     (0xD4, 0x2426), (0xD5, 0x2426), (0xD6, 0x2426), (0xD7, 0x2426), (0xD8, 0x2426), (0xD9, 0x2426),
     (0xDA, 0x2426), (0xDB, 0x2426), (0xDC, 0x2426), (0xDD, 0x2426), (0xDE, 0x2426), (0xDF, 0x2017),
     (0xE0, 0x5D0), (0xE1, 0x5D1), (0xE2, 0x5D2), (0xE3, 0x5D3), (0xE4, 0x5D4), (0xE5, 0x5D5),
     (0xE6, 0x5D6), (0xE7, 0x5D7), (0xE8, 0x5D8), (0xE9, 0x5D9), (0xEA, 0x5DA), (0xEB, 0x5DB),
     (0xEC, 0x5DC), (0xED, 0x5DD), (0xEE, 0x5DE), (0xEF, 0x5DF), (0xF0, 0x5E0), (0xF1, 0x5E1),
     (0xF2, 0x5E2), (0xF3, 0x5E3), (0xF4, 0x5E4), (0xF5, 0x5E5), (0xF6, 0x5E6), (0xF7, 0x5E7),
     (0xF8, 0x5E8), (0xF9, 0x5E9), (0xFA, 0x5EA), (0xFB, 0x2426), (0xFC, 0x2426), (0xFD, 0x200E),
     (0xFE, 0x200F), (0xFF, 0x2426)]"

definition Latin5_replacements :: "(wchar \<times> wchar) list" where
  "Latin5_replacements =
    [(0xD0, 0x11E), (0xDD, 0x130), (0xDE, 0x15E), (0xF0, 0x11F), (0xFD, 0x131), (0xFE, 0x15F)]"

definition DecSupplemental_replacements :: "(wchar \<times> wchar) list" where
  "DecSupplemental_replacements =
    [(0xA4, 0x2426), (0xA6, 0x2426), (0xA8, 0xA4), (0xAC, 0x2426), (0xAD, 0x2426), (0xAE, 0x2426),
     (0xAF, 0x2426), (0xB4, 0x2426), (0xB8, 0x2426), (0xBE, 0x2426), (0xD0, 0x2426), (0xD7, 0x152),
     (0xDD, 0x178), (0xDE, 0x2426), (0xF0, 0x2426), (0xF7, 0x153), (0xFD, 0xFF), (0xFE, 0x2426)]"

definition DecSpecialGraphics_replacements :: "(wchar \<times> wchar) list" where
  "DecSpecialGraphics_replacements =
    [(0x5F, 0x20), (0x60, 0x2666), (0x61, 0x2592), (0x62, 0x2409), (0x63, 0x240C), (0x64, 0x240D),
     (0x65, 0x240A), (0x66, 0xB0), (0x67, 0xB1), (0x68, 0x2424), (0x69, 0x240B), (0x6A, 0x2518),
     (0x6B, 0x2510), (0x6C, 0x250C), (0x6D, 0x2514), (0x6E, 0x253C), (0x6F, 0x23BA), (0x70, 0x23BB),
     (0x71, 0x2500), (0x72, 0x23BC), (0x73, 0x23BD), (0x74, 0x251C), (0x75, 0x2524), (0x76, 0x2534),
     (0x77, 0x252C), (0x78, 0x2502), (0x79, 0x2264), (0x7A, 0x2265), (0x7B, 0x3C0), (0x7C, 0x2260),
     (0x7D, 0xA3), (0x7E, 0xB7)]"

definition DecCyrillic_replacements :: "(wchar \<times> wchar) list" where
  "DecCyrillic_replacements =
    [(0xA1, 0x2426), (0xA2, 0x2426), (0xA3, 0x2426), (0xA4, 0x2426), (0xA5, 0x2426), (0xA6, 0x2426),
     (0xA7, 0x2426), (0xA8, 0x2426), (0xA9, 0x2426), (0xAA, 0x2426), (0xAB, 0x2426), (0xAC, 0x2426),
     (0xAD, 0x2426), (0xAE, 0x2426), (0xAF, 0x2426), (0xB0, 0x2426), (0xB1, 0x2426), (0xB2, 0x2426),
     (0xB3, 0x2426), (0xB4, 0x2426), (0xB5, 0x2426), (0xB6, 0x2426), (0xB7, 0x2426), (0xB8, 0x2426),
     (0xB9, 0x2426), (0xBA, 0x2426), (0xBB, 0x2426), (0xBC, 0x2426), (0xBD, 0x2426), (0xBE, 0x2426),
     (0xBF, 0x2426), (0xC0, 0x44E), (0xC1, 0x430), (0xC2, 0x431), (0xC3, 0x446), (0xC4, 0x434),
     (0xC5, 0x435), (0xC6, 0x444), (0xC7, 0x433), (0xC8, 0x445), (0xC9, 0x438), (0xCA, 0x439),
     (0xCB, 0x43A), (0xCC, 0x43B), (0xCD, 0x43C), (0xCE, 0x43D), (0xCF, 0x43E), (0xD0, 0x43F),
     (0xD1, 0x44F), (0xD2, 0x440), (0xD3, 0x441), (0xD4, 0x442), (0xD5, 0x443), (0xD6, 0x436),
     (0xD7, 0x432), (0xD8, 0x44C), (0xD9, 0x44B), (0xDA, 0x437), (0xDB, 0x448), (0xDC, 0x44D),
     (0xDD, 0x449), (0xDE, 0x447), (0xDF, 0x44A), (0xE0, 0x42E), (0xE1, 0x410), (0xE2, 0x411),
     (0xE3, 0x426), (0xE4, 0x414), (0xE5, 0x415), (0xE6, 0x424), (0xE7, 0x413), (0xE8, 0x425),
     (0xE9, 0x418), (0xEA, 0x419), (0xEB, 0x41A), (0xEC, 0x41B), (0xED, 0x41C), (0xEE, 0x41D),
     (0xEF, 0x41E), (0xF0, 0x41F), (0xF1, 0x42F), (0xF2, 0x420), (0xF3, 0x421), (0xF4, 0x422),
     (0xF5, 0x423), (0xF6, 0x416), (0xF7, 0x412), (0xF8, 0x42C), (0xF9, 0x42B), (0xFA, 0x417),
     (0xFB, 0x428), (0xFC, 0x42D), (0xFD, 0x429), (0xFE, 0x427)]"

definition DecGreek_replacements :: "(wchar \<times> wchar) list" where
  "DecGreek_replacements =
    [(0xA4, 0x2426), (0xA6, 0x2426), (0xA8, 0xA4), (0xAC, 0x2426), (0xAD, 0x2426), (0xAE, 0x2426),
     (0xAF, 0x2426), (0xB4, 0x2426), (0xB8, 0x2426), (0xBE, 0x2426), (0xC0, 0x3CA), (0xC1, 0x391),
     (0xC2, 0x392), (0xC3, 0x393), (0xC4, 0x394), (0xC5, 0x395), (0xC6, 0x396), (0xC7, 0x397),
     (0xC8, 0x398), (0xC9, 0x399), (0xCA, 0x39A), (0xCB, 0x39B), (0xCC, 0x39C), (0xCD, 0x39D),
     (0xCE, 0x39E), (0xCF, 0x39F), (0xD0, 0x2426), (0xD1, 0x3A0), (0xD2, 0x3A1), (0xD3, 0x3A3),
     (0xD4, 0x3A4), (0xD5, 0x3A5), (0xD6, 0x3A6), (0xD7, 0x3A7), (0xD8, 0x3A8), (0xD9, 0x3A9),
     (0xDA, 0x3AC), (0xDB, 0x3AD), (0xDC, 0x3AE), (0xDD, 0x3AF), (0xDE, 0x2426), (0xDF, 0x3CC),
     (0xE0, 0x3CB), (0xE1, 0x3B1), (0xE2, 0x3B2), (0xE3, 0x3B3), (0xE4, 0x3B4), (0xE5, 0x3B5),
     (0xE6, 0x3B6), (0xE7, 0x3B7), (0xE8, 0x3B8), (0xE9, 0x3B9), (0xEA, 0x3BA), (0xEB, 0x3BB),
     (0xEC, 0x3BC), (0xED, 0x3BD), (0xEE, 0x3BE), (0xEF, 0x3BF), (0xF0, 0x2426), (0xF1, 0x3C0),
     (0xF2, 0x3C1), (0xF3, 0x3C3), (0xF4, 0x3C4), (0xF5, 0x3C5), (0xF6, 0x3C6), (0xF7, 0x3C7),
     (0xF8, 0x3C8), (0xF9, 0x3C9), (0xFA, 0x3C2), (0xFB, 0x3CD), (0xFC, 0x3CE), (0xFD, 0x384),
     (0xFE, 0x2426)]"

definition DecHebrew_replacements :: "(wchar \<times> wchar) list" where
  "DecHebrew_replacements =
    [(0xA4, 0x2426), (0xA6, 0x2426), (0xA8, 0xA4), (0xAC, 0x2426), (0xAD, 0x2426), (0xAE, 0x2426),
     (0xAF, 0x2426), (0xB4, 0x2426), (0xB8, 0x2426), (0xBE, 0x2426), (0xC0, 0x2426), (0xC1, 0x2426),
     (0xC2, 0x2426), (0xC3, 0x2426), (0xC4, 0x2426), (0xC5, 0x2426), (0xC6, 0x2426), (0xC7, 0x2426),
     (0xC8, 0x2426), (0xC9, 0x2426), (0xCA, 0x2426), (0xCB, 0x2426), (0xCC, 0x2426), (0xCD, 0x2426),
     (0xCE, 0x2426), (0xCF, 0x2426), (0xD0, 0x2426), (0xD1, 0x2426), (0xD2, 0x2426), (0xD3, 0x2426),
     (0xD4, 0x2426), (0xD5, 0x2426), (0xD6, 0x2426), (0xD7, 0x2426), (0xD8, 0x2426), (0xD9, 0x2426),
     (0xDA, 0x2426), (0xDB, 0x2426), (0xDC, 0x2426), (0xDD, 0x2426), (0xDE, 0x2426), (0xDF, 0x2426),
     (0xE0, 0x5D0), (0xE1, 0x5D1), (0xE2, 0x5D2), (0xE3, 0x5D3), (0xE4, 0x5D4), (0xE5, 0x5D5),
     (0xE6, 0x5D6), (0xE7, 0x5D7), (0xE8, 0x5D8), (0xE9, 0x5D9), (0xEA, 0x5DA), (0xEB, 0x5DB),
     (0xEC, 0x5DC), (0xED, 0x5DD), (0xEE, 0x5DE), (0xEF, 0x5DF), (0xF0, 0x5E0), (0xF1, 0x5E1),
     (0xF2, 0x5E2), (0xF3, 0x5E3), (0xF4, 0x5E4), (0xF5, 0x5E5), (0xF6, 0x5E6), (0xF7, 0x5E7),
     (0xF8, 0x5E8), (0xF9, 0x5E9), (0xFA, 0x5EA), (0xFB, 0x2426), (0xFC, 0x2426), (0xFD, 0x2426),
     (0xFE, 0x2426)]"

definition DecTurkish_replacements :: "(wchar \<times> wchar) list" where
  "DecTurkish_replacements =
    [(0xA4, 0x2426), (0xA6, 0x2426), (0xA8, 0xA4), (0xAC, 0x2426), (0xAD, 0x2426), (0xAE, 0x130),
     (0xAF, 0x2426), (0xB4, 0x2426), (0xB8, 0x2426), (0xBE, 0x131), (0xD0, 0x11E), (0xD7, 0x152),
     (0xDD, 0x178), (0xDE, 0x15E), (0xF0, 0x11F), (0xF7, 0x153), (0xFD, 0xFF), (0xFE, 0x15F)]"

definition BritishNrcs_replacements :: "(wchar \<times> wchar) list" where
  "BritishNrcs_replacements =
    [(0x23, 0xA3)]"

definition DutchNrcs_replacements :: "(wchar \<times> wchar) list" where
  "DutchNrcs_replacements =
    [(0x23, 0xA3), (0x40, 0xBE), (0x5B, 0x133), (0x5C, 0xBD), (0x5D, 0x7C), (0x7B, 0xA8), (0x7C, 0x192),
     (0x7D, 0xBC), (0x7E, 0xB4)]"

definition FinnishNrcs_replacements :: "(wchar \<times> wchar) list" where
  "FinnishNrcs_replacements =
    [(0x5B, 0xC4), (0x5C, 0xD6), (0x5D, 0xC5), (0x5E, 0xDC), (0x60, 0xE9), (0x7B, 0xE4), (0x7C, 0xF6),
     (0x7D, 0xE5), (0x7E, 0xFC)]"

definition FrenchNrcs_replacements :: "(wchar \<times> wchar) list" where
  "FrenchNrcs_replacements =
    [(0x23, 0xA3), (0x40, 0xE0), (0x5B, 0xB0), (0x5C, 0xE7), (0x5D, 0xA7), (0x7B, 0xE9), (0x7C, 0xF9),
     (0x7D, 0xE8), (0x7E, 0xA8)]"

definition FrenchNrcsIso_replacements :: "(wchar \<times> wchar) list" where
  "FrenchNrcsIso_replacements =
    [(0x23, 0xA3), (0x40, 0xE0), (0x5B, 0xB0), (0x5C, 0xE7), (0x5D, 0xA7), (0x60, 0xB5), (0x7B, 0xE9),
     (0x7C, 0xF9), (0x7D, 0xE8), (0x7E, 0xA8)]"

definition FrenchCanadianNrcs_replacements :: "(wchar \<times> wchar) list" where
  "FrenchCanadianNrcs_replacements =
    [(0x40, 0xE0), (0x5B, 0xE2), (0x5C, 0xE7), (0x5D, 0xEA), (0x5E, 0xEE), (0x60, 0xF4), (0x7B, 0xE9),
     (0x7C, 0xF9), (0x7D, 0xE8), (0x7E, 0xFB)]"

definition GermanNrcs_replacements :: "(wchar \<times> wchar) list" where
  "GermanNrcs_replacements =
    [(0x40, 0xA7), (0x5B, 0xC4), (0x5C, 0xD6), (0x5D, 0xDC), (0x7B, 0xE4), (0x7C, 0xF6), (0x7D, 0xFC),
     (0x7E, 0xDF)]"

definition GreekNrcs_replacements :: "(wchar \<times> wchar) list" where
  "GreekNrcs_replacements =
    [(0x40, 0x3CA), (0x41, 0x391), (0x42, 0x392), (0x43, 0x393), (0x44, 0x394), (0x45, 0x395),
     (0x46, 0x396), (0x47, 0x397), (0x48, 0x398), (0x49, 0x399), (0x4A, 0x39A), (0x4B, 0x39B),
     (0x4C, 0x39C), (0x4D, 0x39D), (0x4E, 0x39E), (0x4F, 0x39F), (0x50, 0x2426), (0x51, 0x3A0),
     (0x52, 0x3A1), (0x53, 0x3A3), (0x54, 0x3A4), (0x55, 0x3A5), (0x56, 0x3A6), (0x57, 0x3A7),
     (0x58, 0x3A8), (0x59, 0x3A9), (0x5A, 0x3AC), (0x5B, 0x3AD), (0x5C, 0x3AE), (0x5D, 0x3AF),
     (0x5E, 0x2426), (0x5F, 0x3CC), (0x60, 0x3CB), (0x61, 0x3B1), (0x62, 0x3B2), (0x63, 0x3B3),
     (0x64, 0x3B4), (0x65, 0x3B5), (0x66, 0x3B6), (0x67, 0x3B7), (0x68, 0x3B8), (0x69, 0x3B9),
     (0x6A, 0x3BA), (0x6B, 0x3BB), (0x6C, 0x3BC), (0x6D, 0x3BD), (0x6E, 0x3BE), (0x6F, 0x3BF),
     (0x70, 0x2426), (0x71, 0x3C0), (0x72, 0x3C1), (0x73, 0x3C3), (0x74, 0x3C4), (0x75, 0x3C5),
     (0x76, 0x3C6), (0x77, 0x3C7), (0x78, 0x3C8), (0x79, 0x3C9), (0x7A, 0x3C2), (0x7B, 0x3CD),
     (0x7C, 0x3CE), (0x7D, 0x384), (0x7E, 0x2426)]"

definition HebrewNrcs_replacements :: "(wchar \<times> wchar) list" where
  "HebrewNrcs_replacements =
    [(0x60, 0x5D0), (0x61, 0x5D1), (0x62, 0x5D2), (0x63, 0x5D3), (0x64, 0x5D4), (0x65, 0x5D5),
     (0x66, 0x5D6), (0x67, 0x5D7), (0x68, 0x5D8), (0x69, 0x5D9), (0x6A, 0x5DA), (0x6B, 0x5DB),
     (0x6C, 0x5DC), (0x6D, 0x5DD), (0x6E, 0x5DE), (0x6F, 0x5DF), (0x70, 0x5E0), (0x71, 0x5E1),
     (0x72, 0x5E2), (0x73, 0x5E3), (0x74, 0x5E4), (0x75, 0x5E5), (0x76, 0x5E6), (0x77, 0x5E7),
     (0x78, 0x5E8), (0x79, 0x5E9), (0x7A, 0x5EA)]"

definition ItalianNrcs_replacements :: "(wchar \<times> wchar) list" where
  "ItalianNrcs_replacements =
    [(0x23, 0xA3), (0x40, 0xA7), (0x5B, 0xB0), (0x5C, 0xE7), (0x5D, 0xE9), (0x60, 0xF9), (0x7B, 0xE0),
     (0x7C, 0xF2), (0x7D, 0xE8), (0x7E, 0xEC)]"

definition NorwegianDanishNrcs_replacements :: "(wchar \<times> wchar) list" where
  "NorwegianDanishNrcs_replacements =
    [(0x40, 0xC4), (0x5B, 0xC6), (0x5C, 0xD8), (0x5D, 0xC5), (0x5E, 0xDC), (0x60, 0xE4), (0x7B, 0xE6),
     (0x7C, 0xF8), (0x7D, 0xE5), (0x7E, 0xFC)]"

definition NorwegianDanishNrcsIso_replacements :: "(wchar \<times> wchar) list" where
  "NorwegianDanishNrcsIso_replacements =
    [(0x5B, 0xC6), (0x5C, 0xD8), (0x5D, 0xC5), (0x7B, 0xE6), (0x7C, 0xF8), (0x7D, 0xE5)]"

definition PortugueseNrcs_replacements :: "(wchar \<times> wchar) list" where
  "PortugueseNrcs_replacements =
    [(0x5B, 0xC3), (0x5C, 0xC7), (0x5D, 0xD5), (0x7B, 0xE3), (0x7C, 0xE7), (0x7D, 0xF5)]"

definition RussianNrcs_replacements :: "(wchar \<times> wchar) list" where
  "RussianNrcs_replacements =
    [(0x60, 0x42E), (0x61, 0x410), (0x62, 0x411), (0x63, 0x426), (0x64, 0x414), (0x65, 0x415),
     (0x66, 0x424), (0x67, 0x413), (0x68, 0x425), (0x69, 0x418), (0x6A, 0x419), (0x6B, 0x41A),
     (0x6C, 0x41B), (0x6D, 0x41C), (0x6E, 0x41D), (0x6F, 0x41E), (0x70, 0x41F), (0x71, 0x42F),
     (0x72, 0x420), (0x73, 0x421), (0x74, 0x422), (0x75, 0x423), (0x76, 0x416), (0x77, 0x412),
     (0x78, 0x42C), (0x79, 0x42B), (0x7A, 0x417), (0x7B, 0x428), (0x7C, 0x42D), (0x7D, 0x429),
     (0x7E, 0x427)]"

definition SpanishNrcs_replacements :: "(wchar \<times> wchar) list" where
  "SpanishNrcs_replacements =
    [(0x23, 0xA3), (0x40, 0xA7), (0x5B, 0xA1), (0x5C, 0xD1), (0x5D, 0xBF), (0x7B, 0xB0), (0x7C, 0xF1),
     (0x7D, 0xE7)]"

definition SwedishNrcs_replacements :: "(wchar \<times> wchar) list" where
  "SwedishNrcs_replacements =
    [(0x40, 0xC9), (0x5B, 0xC4), (0x5C, 0xD6), (0x5D, 0xC5), (0x5E, 0xDC), (0x60, 0xE9), (0x7B, 0xE4),
     (0x7C, 0xF6), (0x7D, 0xE5), (0x7E, 0xFC)]"

definition SwissNrcs_replacements :: "(wchar \<times> wchar) list" where
  "SwissNrcs_replacements =
    [(0x23, 0xF9), (0x40, 0xE0), (0x5B, 0xE9), (0x5C, 0xE7), (0x5D, 0xEA), (0x5E, 0xEE), (0x5F, 0xE8),
     (0x60, 0xF4), (0x7B, 0xE4), (0x7C, 0xF6), (0x7D, 0xFC), (0x7E, 0xFB)]"

definition TurkishNrcs_replacements :: "(wchar \<times> wchar) list" where
  "TurkishNrcs_replacements =
    [(0x21, 0x131), (0x26, 0x11F), (0x40, 0x130), (0x5B, 0x15E), (0x5C, 0xD6), (0x5D, 0xC7),
     (0x5E, 0xDC), (0x60, 0x11E), (0x7B, 0x15F), (0x7C, 0xF6), (0x7D, 0xE7), (0x7E, 0xFC)]"

definition DRCS_BASE_CHAR :: wchar where
  "DRCS_BASE_CHAR = 0xEF20"

subsection \<open>The sets\<close>

datatype CharSet =
    Ascii | Latin1 | Latin2 | LatinCyrillic | LatinGreek
  | LatinHebrew | Latin5 | DecSupplemental | DecSpecialGraphics | DecCyrillic
  | DecGreek | DecHebrew | DecTurkish | BritishNrcs | DutchNrcs
  | FinnishNrcs | FrenchNrcs | FrenchNrcsIso | FrenchCanadianNrcs | GermanNrcs
  | GreekNrcs | HebrewNrcs | ItalianNrcs | NorwegianDanishNrcs | NorwegianDanishNrcsIso
  | PortugueseNrcs | RussianNrcs | SpanishNrcs | SwedishNrcs | SwissNrcs
  | TurkishNrcs | Drcs94 | Drcs96

text \<open>The base character, the size and the replacements of each set.\<close>

primrec charset_spec :: "CharSet \<Rightarrow> wchar \<times> nat \<times> (wchar \<times> wchar) list" where
  "charset_spec Ascii = (0x20, 95, [])"
| "charset_spec Latin1 = (0xA0, 96, [])"
| "charset_spec Latin2 = (0xA0, 96, Latin2_replacements)"
| "charset_spec LatinCyrillic = (0xA0, 96, LatinCyrillic_replacements)"
| "charset_spec LatinGreek = (0xA0, 96, LatinGreek_replacements)"
| "charset_spec LatinHebrew = (0xA0, 96, LatinHebrew_replacements)"
| "charset_spec Latin5 = (0xA0, 96, Latin5_replacements)"
| "charset_spec DecSupplemental = (0xA0, 95, DecSupplemental_replacements)"
| "charset_spec DecSpecialGraphics = (0x20, 95, DecSpecialGraphics_replacements)"
| "charset_spec DecCyrillic = (0xA0, 95, DecCyrillic_replacements)"
| "charset_spec DecGreek = (0xA0, 95, DecGreek_replacements)"
| "charset_spec DecHebrew = (0xA0, 95, DecHebrew_replacements)"
| "charset_spec DecTurkish = (0xA0, 95, DecTurkish_replacements)"
| "charset_spec BritishNrcs = (0x20, 95, BritishNrcs_replacements)"
| "charset_spec DutchNrcs = (0x20, 95, DutchNrcs_replacements)"
| "charset_spec FinnishNrcs = (0x20, 95, FinnishNrcs_replacements)"
| "charset_spec FrenchNrcs = (0x20, 95, FrenchNrcs_replacements)"
| "charset_spec FrenchNrcsIso = (0x20, 95, FrenchNrcsIso_replacements)"
| "charset_spec FrenchCanadianNrcs = (0x20, 95, FrenchCanadianNrcs_replacements)"
| "charset_spec GermanNrcs = (0x20, 95, GermanNrcs_replacements)"
| "charset_spec GreekNrcs = (0x20, 95, GreekNrcs_replacements)"
| "charset_spec HebrewNrcs = (0x20, 95, HebrewNrcs_replacements)"
| "charset_spec ItalianNrcs = (0x20, 95, ItalianNrcs_replacements)"
| "charset_spec NorwegianDanishNrcs = (0x20, 95, NorwegianDanishNrcs_replacements)"
| "charset_spec NorwegianDanishNrcsIso = (0x20, 95, NorwegianDanishNrcsIso_replacements)"
| "charset_spec PortugueseNrcs = (0x20, 95, PortugueseNrcs_replacements)"
| "charset_spec RussianNrcs = (0x20, 95, RussianNrcs_replacements)"
| "charset_spec SpanishNrcs = (0x20, 95, SpanishNrcs_replacements)"
| "charset_spec SwedishNrcs = (0x20, 95, SwedishNrcs_replacements)"
| "charset_spec SwissNrcs = (0x20, 95, SwissNrcs_replacements)"
| "charset_spec TurkishNrcs = (0x20, 95, TurkishNrcs_replacements)"
| "charset_spec Drcs94 = (DRCS_BASE_CHAR, 95, [(DRCS_BASE_CHAR, 0x20)])"
| "charset_spec Drcs96 = (DRCS_BASE_CHAR, 96, [])"

definition charset_table :: "CharSet \<Rightarrow> wstring" where
  "charset_table cs = (let (base, n, replacements) = charset_spec cs in build_charset base n replacements)"

definition charset_size :: "CharSet \<Rightarrow> nat" where
  "charset_size cs = fst (snd (charset_spec cs))"

lemmas replacement_defs =
  Latin2_replacements_def LatinCyrillic_replacements_def
  LatinGreek_replacements_def LatinHebrew_replacements_def Latin5_replacements_def DecSupplemental_replacements_def
  DecSpecialGraphics_replacements_def DecCyrillic_replacements_def DecGreek_replacements_def DecHebrew_replacements_def
  DecTurkish_replacements_def BritishNrcs_replacements_def DutchNrcs_replacements_def FinnishNrcs_replacements_def
  FrenchNrcs_replacements_def FrenchNrcsIso_replacements_def FrenchCanadianNrcs_replacements_def GermanNrcs_replacements_def
  GreekNrcs_replacements_def HebrewNrcs_replacements_def ItalianNrcs_replacements_def NorwegianDanishNrcs_replacements_def
  NorwegianDanishNrcsIso_replacements_def PortugueseNrcs_replacements_def RussianNrcs_replacements_def SpanishNrcs_replacements_def
  SwedishNrcs_replacements_def SwissNrcs_replacements_def TurkishNrcs_replacements_def
  

subsection \<open>The tables are in order\<close>

lemma length_build [simp]: "length (build_charset base n replacements) = n"
proof -
  have "length (fold (\<lambda>(from, to) t. t[unat (from - base) := to]) rs xs) = length xs" for rs and xs :: wstring
    by (induction rs arbitrary: xs) auto
  then show ?thesis by (simp add: build_charset_def)
qed

lemma length_table [simp]: "length (charset_table cs) = charset_size cs"
  by (simp add: charset_table_def charset_size_def split: prod.split)

lemma charset_size_cases: "charset_size cs = 95 \<or> charset_size cs = 96"
  by (cases cs) (simp_all add: charset_size_def)

text \<open>No replacement is outside of its table, and none is overridden by a later one.\<close>

lemma replacements_in_range:
  "list_all (\<lambda>(from, to). from - fst (charset_spec cs) < of_nat (charset_size cs)) (snd (snd (charset_spec cs)))"
  by (cases cs) (simp_all add: replacement_defs charset_size_def DRCS_BASE_CHAR_def)

lemma replacements_distinct: "distinct (map fst (snd (snd (charset_spec cs))))"
  by (cases cs) (simp_all add: replacement_defs)

lemma build_update:
  "distinct (map fst rs) \<Longrightarrow> i < n \<Longrightarrow> n < 2 ^ 16 \<Longrightarrow>
   build_charset base n rs ! i = (case map_of rs (base + of_nat i) of Some w \<Rightarrow> w | None \<Rightarrow> base + of_nat i)"
proof (induction rs rule: rev_induct)
  case Nil
  then show ?case by (simp add: build_charset_def)
next
  case (snoc r rs)
  obtain a b where r: "r = (a, b)" by fastforce
  have i: "unat (of_nat i :: wchar) = i" using snoc.prems by (simp add: unat_of_nat take_bit_nat_eq_self)
  have hit: "unat (a - base) = i \<longleftrightarrow> a = base + of_nat i"
  proof
    assume "unat (a - base) = i"
    then have "a - base = of_nat i" using i by (simp add: word_unat_eq_iff)
    then show "a = base + of_nat i" by (simp add: algebra_simps)
  qed (use i in simp)
  have "build_charset base n (rs @ [r]) ! i = (if unat (a - base) = i then b else build_charset base n rs ! i)"
    using snoc.prems length_build [of base n rs] by (auto simp: build_charset_def r nth_list_update)
  moreover have "map_of rs a = None" using snoc.prems(1) by (auto simp: r map_of_eq_None_iff)
  ultimately show ?case using snoc.IH snoc.prems by (auto simp: hit r map_add_def split: option.splits)
qed

text \<open>What a table holds at each position: the replacement for the character of that position, or that
  character itself.\<close>

lemma table_nth:
  assumes "i < charset_size cs"
  shows "charset_table cs ! i =
    (let base = fst (charset_spec cs); w = base + of_nat i
     in case map_of (snd (snd (charset_spec cs))) w of Some v \<Rightarrow> v | None \<Rightarrow> w)"
proof -
  have "charset_size cs < 2 ^ 16" using charset_size_cases [of cs] by auto
  from build_update [OF replacements_distinct [of cs] assms this, of "fst (charset_spec cs)"] show ?thesis
    by (simp add: charset_table_def charset_size_def Let_def case_prod_unfold)
qed

text \<open>C28: Every character set is well formed: a table of 95 or 96 entries none of whose replacements lies
  outside of it or is overridden by another, which holds at each position the replacement for that
  character or the character itself; and the first entry of a 94-character set is a space, so that
  not testing the lower bound is invisible.\<close>

theorem charsets_well_formed:
  "charset_size cs \<in> {95, 96} \<and> length (charset_table cs) = charset_size cs \<and>
   (\<forall>i < charset_size cs. charset_table cs ! i =
      (case map_of (snd (snd (charset_spec cs))) (fst (charset_spec cs) + of_nat i) of
         Some w \<Rightarrow> w | None \<Rightarrow> fst (charset_spec cs) + of_nat i)) \<and>
   list_all (\<lambda>(from, to). from - fst (charset_spec cs) < of_nat (charset_size cs)) (snd (snd (charset_spec cs))) \<and>
   distinct (map fst (snd (snd (charset_spec cs)))) \<and>
   (charset_size cs = 95 \<longrightarrow> charset_table cs ! 0 \<in> {0x20, 0xA0})"
proof -
  have "charset_size cs = 95 \<Longrightarrow> charset_table cs ! 0 \<in> {0x20, 0xA0}"
    using table_nth [of 0 cs] by (cases cs) (simp_all add: charset_size_def replacement_defs DRCS_BASE_CHAR_def)
  with charset_size_cases [of cs] table_nth [of _ cs] replacements_in_range [of cs] replacements_distinct [of cs]
  show ?thesis by (simp add: Let_def)
qed

theorem charsets_well_formed_witness:
  "charset_size DecSpecialGraphics = 95 \<and> charset_table DecSpecialGraphics ! 0x4A = 0x2518 \<and>
   charset_table DecSpecialGraphics ! 0 = 0x20"
proof -
  have [simp]: "charset_size DecSpecialGraphics = 95" by (simp add: charset_size_def)
  have "charset_table DecSpecialGraphics ! 0x4A = 0x2518" "charset_table DecSpecialGraphics ! 0 = 0x20"
    using charsets_well_formed [of DecSpecialGraphics]
    by (auto simp: replacement_defs)
  then show ?thesis by simp
qed

end
