(* ===== verification/TerminalOutput.thy ===== *)
theory TerminalOutput
  imports Charsets OutputLaws
begin

text \<open>
  The translation of characters by the designated character sets,
  \<^verbatim>\<open>src/src/terminal/adapter/terminalOutput.cpp\<close>. A \<^verbatim>\<open>std::wstring_view\<close> of a table is the name of the set,
  or \<open>None\<close> for an empty view. An index outside of the four G-sets throws: the result is then \<open>None\<close>.
\<close>

subsection \<open>The state\<close>

record TerminalOutput =
  to_upssId :: VTID
  to_upssTranslationTable :: CharSet
  to_gsetTranslationTables :: "CharSet list"
  to_gsetIds :: "VTID list"
  to_glSetNumber :: nat
  to_grSetNumber :: nat
  to_glTranslationTable :: "CharSet option"
  to_grTranslationTable :: "CharSet option"
  to_ssSetNumber :: nat
  to_grTranslationEnabled :: bool
  to_drcsId :: VTID
  to_drcsTranslationTable :: "CharSet option"

definition TerminalOutput_create :: "bool \<Rightarrow> TerminalOutput" where
  "TerminalOutput_create grEnabled =
     (let grTranslationTable = (if grEnabled then Latin1 else Ascii);
          grId = (if grEnabled then VTID ''<'' else VTID ''B'')
      in \<lparr>to_upssId = VTID ''A'', to_upssTranslationTable = Latin1,
          to_gsetTranslationTables = [Ascii, Ascii, grTranslationTable, grTranslationTable],
          to_gsetIds = [VTID ''B'', VTID ''B'', grId, grId],
          to_glSetNumber = 0, to_grSetNumber = 2, to_glTranslationTable = None, to_grTranslationTable = None,
          to_ssSetNumber = 0, to_grTranslationEnabled = grEnabled, to_drcsId = 0, to_drcsTranslationTable = None\<rparr>)"

definition TO_SoftReset :: "TerminalOutput \<Rightarrow> TerminalOutput" where
  "TO_SoftReset st = TerminalOutput_create (to_grTranslationEnabled st)"

definition TO_RestoreFrom :: "TerminalOutput \<Rightarrow> TerminalOutput \<Rightarrow> TerminalOutput" where
  "TO_RestoreFrom savedState st = savedState\<lparr>to_grTranslationEnabled := to_grTranslationEnabled st\<rparr>"

subsection \<open>Shifts\<close>

definition TO_LockingShift :: "nat \<Rightarrow> TerminalOutput \<Rightarrow> TerminalOutput option" where
  "TO_LockingShift gsetNumber st =
     (if gsetNumber < length (to_gsetTranslationTables st)
      then (let table = to_gsetTranslationTables st ! gsetNumber
            in Some (st\<lparr>to_glSetNumber := gsetNumber,
                        to_glTranslationTable := (if table = Ascii then None else Some table)\<rparr>))
      else None)"

definition TO_LockingShiftRight :: "nat \<Rightarrow> TerminalOutput \<Rightarrow> TerminalOutput option" where
  "TO_LockingShiftRight gsetNumber st =
     (if gsetNumber < length (to_gsetTranslationTables st)
      then (let table = to_gsetTranslationTables st ! gsetNumber
            in Some (st\<lparr>to_grSetNumber := gsetNumber,
                        to_grTranslationTable :=
                          (if table = Latin1 \<or> \<not> to_grTranslationEnabled st then None else Some table)\<rparr>))
      else None)"

definition TO_SingleShift :: "nat \<Rightarrow> TerminalOutput \<Rightarrow> TerminalOutput" where
  "TO_SingleShift gsetNumber st = st\<lparr>to_ssSetNumber := gsetNumber\<rparr>"

text \<open>Both locking shifts are applied again when a G-set may have changed.\<close>

definition reapply_shifts :: "TerminalOutput \<Rightarrow> TerminalOutput option" where
  "reapply_shifts st = TO_LockingShift (to_glSetNumber st) st \<bind> (\<lambda>st. TO_LockingShiftRight (to_grSetNumber st) st)"

subsection \<open>Finding a set\<close>

definition charsets_94 :: "(string \<times> CharSet) list" where
  "charsets_94 =
     [(''B'', Ascii), (''1'', Ascii),
      (''0'', DecSpecialGraphics), (''2'', DecSpecialGraphics),
      (''A'', BritishNrcs), (''4'', DutchNrcs),
      (''5'', FinnishNrcs), (''C'', FinnishNrcs),
      (''R'', FrenchNrcs), (''f'', FrenchNrcsIso),
      (''9'', FrenchCanadianNrcs), (''Q'', FrenchCanadianNrcs),
      (''K'', GermanNrcs), (''Y'', ItalianNrcs),
      (''6'', NorwegianDanishNrcs), (''E'', NorwegianDanishNrcs),
      (''`'', NorwegianDanishNrcsIso), (''Z'', SpanishNrcs),
      (''7'', SwedishNrcs), (''H'', SwedishNrcs),
      (''='', SwissNrcs), (''&4'', DecCyrillic),
      (''&5'', RussianNrcs), ([CHR 0x22, CHR ''?''], DecGreek),
      ([CHR 0x22, CHR ''>''], GreekNrcs), ([CHR 0x22, CHR ''4''], DecHebrew),
      (''%='', HebrewNrcs), (''%0'', DecTurkish),
      (''%2'', TurkishNrcs), (''%5'', DecSupplemental),
      (''%6'', PortugueseNrcs)]"

definition charsets_96 :: "(string \<times> CharSet) list" where
  "charsets_96 =
     [(''A'', Latin1), (''B'', Latin2), (''L'', LatinCyrillic), (''F'', LatinGreek), (''H'', LatinHebrew), (''M'', Latin5)]"

definition TO_LookupTranslationTable94 :: "VTID \<Rightarrow> TerminalOutput \<Rightarrow> CharSet option" where
  "TO_LookupTranslationTable94 charset st =
     (if charset = to_drcsId st then to_drcsTranslationTable st
      else if charset = VTID ''<'' then Some (to_upssTranslationTable st)
      else id_case charsets_94 charset)"

definition TO_LookupTranslationTable96 :: "VTID \<Rightarrow> TerminalOutput \<Rightarrow> CharSet option" where
  "TO_LookupTranslationTable96 charset st =
     (if charset = to_drcsId st then to_drcsTranslationTable st
      else if charset = VTID ''<'' then Some (to_upssTranslationTable st)
      else id_case charsets_96 charset)"

subsection \<open>Designating\<close>

definition TO_AssignUserPreferenceCharset :: "VTID \<Rightarrow> bool \<Rightarrow> TerminalOutput \<Rightarrow> TerminalOutput option" where
  "TO_AssignUserPreferenceCharset charset size96 st =
     (case (if size96 then TO_LookupTranslationTable96 charset st else TO_LookupTranslationTable94 charset st) of
        None \<Rightarrow> Some st
      | Some table \<Rightarrow>
          reapply_shifts
            (st\<lparr>to_upssId := charset, to_upssTranslationTable := table,
                to_gsetTranslationTables :=
                  map2 (\<lambda>gid t. if gid = VTID ''<'' then table else t) (to_gsetIds st) (to_gsetTranslationTables st)\<rparr>))"

definition TO_GetUserPreferenceCharsetSize :: "TerminalOutput \<Rightarrow> nat" where
  "TO_GetUserPreferenceCharsetSize st = (if charset_size (to_upssTranslationTable st) = 96 then 96 else 94)"

definition TO_SetTranslationTable :: "nat \<Rightarrow> CharSet \<Rightarrow> TerminalOutput \<Rightarrow> TerminalOutput option" where
  "TO_SetTranslationTable gsetNumber table st =
     (if gsetNumber < length (to_gsetTranslationTables st)
      then reapply_shifts (st\<lparr>to_gsetTranslationTables := (to_gsetTranslationTables st)[gsetNumber := table]\<rparr>)
      else None)"

definition designate :: "nat \<Rightarrow> VTID \<Rightarrow> CharSet option \<Rightarrow> TerminalOutput \<Rightarrow> TerminalOutput option" where
  "designate gsetNumber charset found st =
     (case found of
        None \<Rightarrow> Some st
      | Some table \<Rightarrow>
          (if gsetNumber < length (to_gsetIds st)
           then TO_SetTranslationTable gsetNumber table (st\<lparr>to_gsetIds := (to_gsetIds st)[gsetNumber := charset]\<rparr>)
           else None))"

definition TO_Designate94Charset :: "nat \<Rightarrow> VTID \<Rightarrow> TerminalOutput \<Rightarrow> TerminalOutput option" where
  "TO_Designate94Charset gsetNumber charset st =
     designate gsetNumber charset (TO_LookupTranslationTable94 charset st) st"

definition TO_Designate96Charset :: "nat \<Rightarrow> VTID \<Rightarrow> TerminalOutput \<Rightarrow> TerminalOutput option" where
  "TO_Designate96Charset gsetNumber charset st =
     designate gsetNumber charset (TO_LookupTranslationTable96 charset st) st"

text \<open>One G-set when the dynamic set is replaced.\<close>

definition replace_drcs_gset :: "CharSet option \<Rightarrow> CharSet \<Rightarrow> nat \<Rightarrow> CharSet \<Rightarrow> CharSet" where
  "replace_drcs_gset oldTable newTable gsetNumber gsetTable =
     (let gsetTable = (if gsetTable = Drcs94 \<or> gsetTable = Drcs96
                       then (if gsetNumber < 2 then Ascii else Latin1) else gsetTable)
      in if Some gsetTable = oldTable then newTable else gsetTable)"

definition TO_ReplaceDrcsTable :: "CharSet option \<Rightarrow> CharSet \<Rightarrow> TerminalOutput \<Rightarrow> TerminalOutput option" where
  "TO_ReplaceDrcsTable oldTable newTable st =
     (if Some newTable \<noteq> oldTable
      then reapply_shifts
             (st\<lparr>to_gsetTranslationTables :=
                  map2 (replace_drcs_gset oldTable newTable) [0..<4] (to_gsetTranslationTables st)\<rparr>)
      else Some st)"

definition TO_SetDrcs94Designation :: "VTID \<Rightarrow> TerminalOutput \<Rightarrow> TerminalOutput option" where
  "TO_SetDrcs94Designation charset st =
     map_option (\<lambda>st. st\<lparr>to_drcsId := charset, to_drcsTranslationTable := Some Drcs94\<rparr>)
       (TO_ReplaceDrcsTable (TO_LookupTranslationTable94 charset st) Drcs94 st)"

definition TO_SetDrcs96Designation :: "VTID \<Rightarrow> TerminalOutput \<Rightarrow> TerminalOutput option" where
  "TO_SetDrcs96Designation charset st =
     map_option (\<lambda>st. st\<lparr>to_drcsId := charset, to_drcsTranslationTable := Some Drcs96\<rparr>)
       (TO_ReplaceDrcsTable (TO_LookupTranslationTable96 charset st) Drcs96 st)"

definition TO_GetCharsetId :: "nat \<Rightarrow> TerminalOutput \<Rightarrow> VTID option" where
  "TO_GetCharsetId gsetNumber st =
     (if gsetNumber < length (to_gsetIds st) then Some (to_gsetIds st ! gsetNumber) else None)"

definition TO_GetCharsetSize :: "nat \<Rightarrow> TerminalOutput \<Rightarrow> nat option" where
  "TO_GetCharsetSize gsetNumber st =
     (if gsetNumber < length (to_gsetTranslationTables st)
      then Some (if charset_size (to_gsetTranslationTables st ! gsetNumber) = 96 then 96 else 94) else None)"

definition TO_IsSingleShiftPending :: "nat \<Rightarrow> TerminalOutput \<Rightarrow> bool" where
  "TO_IsSingleShiftPending gsetNumber st \<longleftrightarrow> to_ssSetNumber st = gsetNumber"

definition TO_EnableGrTranslation :: "bool \<Rightarrow> TerminalOutput \<Rightarrow> TerminalOutput option" where
  "TO_EnableGrTranslation enabled st =
     (let table = (if enabled then to_upssTranslationTable st else Ascii);
          gid = (if enabled then VTID ''<'' else VTID ''B'')
      in reapply_shifts
           (st\<lparr>to_grTranslationEnabled := enabled,
               to_gsetTranslationTables := (to_gsetTranslationTables st)[2 := table, 3 := table],
               to_gsetIds := (to_gsetIds st)[2 := gid, 3 := gid]\<rparr>))"

subsection \<open>Translating\<close>

definition TO_NeedToTranslate :: "TerminalOutput \<Rightarrow> bool" where
  "TO_NeedToTranslate st \<longleftrightarrow>
     to_glTranslationTable st \<noteq> None \<or> to_grTranslationTable st \<noteq> None \<or> to_ssSetNumber st \<noteq> 0"

text \<open>\<^verbatim>\<open>wch - base < size\<close> in unsigned arithmetic, and the entry then.\<close>

definition table_entry :: "u32 \<Rightarrow> CharSet option \<Rightarrow> wchar \<Rightarrow> wchar option" where
  "table_entry base table wch =
     (case table of
        None \<Rightarrow> None
      | Some cs \<Rightarrow>
          (if ucast wch - base < of_nat (charset_size cs) then Some (charset_table cs ! unat (ucast wch - base))
           else None))"

definition TO_TranslateKey :: "wchar \<Rightarrow> TerminalOutput \<Rightarrow> wchar \<times> TerminalOutput" where
  "TO_TranslateKey wch st =
     (if to_ssSetNumber st = 2 \<or> to_ssSetNumber st = 3
      then (let table = Some (to_gsetTranslationTables st ! to_ssSetNumber st)
            in (case table_entry 0x20 table wch of
                  Some w \<Rightarrow> w
                | None \<Rightarrow> (case table_entry 0xA0 table wch of Some w \<Rightarrow> w | None \<Rightarrow> wch),
                st\<lparr>to_ssSetNumber := 0\<rparr>))
      else (case table_entry 0x20 (to_glTranslationTable st) wch of
              Some w \<Rightarrow> w
            | None \<Rightarrow> (case table_entry 0xA0 (to_grTranslationTable st) wch of Some w \<Rightarrow> w | None \<Rightarrow> wch),
            st))"

end
