(* ===== verification/CharsetLaws.thy ===== *)
theory CharsetLaws
  imports TerminalOutput
begin

text \<open>
  What the translation of characters guarantees: the cached tables of the shifts agree with the
  designated sets, so that skipping them when they are empty is only an optimisation.
\<close>

subsection \<open>The cached tables\<close>

definition to_sized :: "TerminalOutput \<Rightarrow> bool" where
  "to_sized st \<longleftrightarrow>
     length (to_gsetTranslationTables st) = 4 \<and> length (to_gsetIds st) = 4 \<and> to_glSetNumber st < 4 \<and> to_grSetNumber st < 4"

text \<open>The caches, the one of the right half being set up with GR translation as \<open>gr\<close> says.\<close>

definition to_cached :: "bool \<Rightarrow> TerminalOutput \<Rightarrow> bool" where
  "to_cached gr st \<longleftrightarrow>
     to_sized st \<and>
     to_glTranslationTable st =
       (let t = to_gsetTranslationTables st ! to_glSetNumber st in if t = Ascii then None else Some t) \<and>
     to_grTranslationTable st =
       (let t = to_gsetTranslationTables st ! to_grSetNumber st in if t = Latin1 \<or> \<not> gr then None else Some t)"

abbreviation gr_flag :: "TerminalOutput \<Rightarrow> bool" where
  "gr_flag \<equiv> to_grTranslationEnabled"

lemma create_cached: "to_cached gr (TerminalOutput_create gr)"
  by (simp add: TerminalOutput_create_def to_cached_def to_sized_def Let_def)

lemma cached_sized: "to_cached gr st \<Longrightarrow> to_sized st"
  by (simp add: to_cached_def)

lemma shift_cached:
  assumes "to_cached gr st" and "g < 4"
  shows "\<exists>st'. TO_LockingShift g st = Some st' \<and> to_cached gr st'"
    "\<exists>st'. TO_LockingShiftRight g st = Some st' \<and> to_cached (gr_flag st) st'"
  using assms by (simp_all add: to_cached_def to_sized_def TO_LockingShift_def TO_LockingShiftRight_def Let_def)

lemma reapply_cached: "to_sized st \<Longrightarrow> \<exists>st'. reapply_shifts st = Some st' \<and> to_cached (gr_flag st) st'"
  by (simp add: reapply_shifts_def to_cached_def to_sized_def TO_LockingShift_def TO_LockingShiftRight_def Let_def)

lemma single_shift_cached: "to_cached gr (TO_SingleShift g st) = to_cached gr st"
  by (simp add: TO_SingleShift_def to_cached_def to_sized_def)

lemma set_table_cached:
  "to_sized st \<Longrightarrow> g < 4 \<Longrightarrow> \<exists>st'. TO_SetTranslationTable g t st = Some st' \<and> to_cached (gr_flag st) st'"
  using reapply_cached [of "st\<lparr>to_gsetTranslationTables := (to_gsetTranslationTables st)[g := t]\<rparr>"]
  by (simp add: TO_SetTranslationTable_def to_sized_def)

lemma designate_cached:
  assumes "to_cached gr st" and "g < 4"
  shows "\<exists>st'. designate g charset found st = Some st' \<and> to_cached (if found = None then gr else gr_flag st) st'"
proof (cases found)
  case (Some table)
  have sized: "to_sized (st\<lparr>to_gsetIds := (to_gsetIds st)[g := charset]\<rparr>)"
    using assms(1) by (simp add: to_cached_def to_sized_def)
  have "g < length (to_gsetIds st)" using assms by (simp add: to_cached_def to_sized_def)
  with Some set_table_cached [OF sized assms(2)] show ?thesis by (simp add: designate_def)
qed (use assms in \<open>simp add: designate_def\<close>)

lemma enable_cached:
  assumes "to_cached gr st"
  shows "\<exists>st'. TO_EnableGrTranslation b st = Some st' \<and> to_cached b st'"
proof -
  let ?st = "st\<lparr>to_grTranslationEnabled := b,
    to_gsetTranslationTables := (to_gsetTranslationTables st)
      [2 := if b then to_upssTranslationTable st else Ascii, 3 := if b then to_upssTranslationTable st else Ascii],
    to_gsetIds := (to_gsetIds st)[2 := if b then VTID ''<'' else VTID ''B'', 3 := if b then VTID ''<'' else VTID ''B'']\<rparr>"
  have "to_sized ?st" using assms by (simp add: to_cached_def to_sized_def)
  from reapply_cached [OF this] show ?thesis by (simp add: TO_EnableGrTranslation_def Let_def)
qed

abbreviation upss_found :: "VTID \<Rightarrow> bool \<Rightarrow> TerminalOutput \<Rightarrow> CharSet option" where
  "upss_found charset size96 st \<equiv>
     (if size96 then TO_LookupTranslationTable96 charset st else TO_LookupTranslationTable94 charset st)"

lemma assign_cached:
  assumes "to_cached gr st"
  shows "\<exists>st'. TO_AssignUserPreferenceCharset charset b st = Some st' \<and>
    to_cached (if upss_found charset b st = None then gr else gr_flag st) st'"
proof (cases "upss_found charset b st")
  case (Some table)
  let ?st = "st\<lparr>to_upssId := charset, to_upssTranslationTable := table,
    to_gsetTranslationTables :=
      map2 (\<lambda>gid t. if gid = VTID ''<'' then table else t) (to_gsetIds st) (to_gsetTranslationTables st)\<rparr>"
  have "to_sized ?st" using assms by (simp add: to_cached_def to_sized_def)
  from reapply_cached [OF this] Some show ?thesis by (simp add: TO_AssignUserPreferenceCharset_def)
qed (use assms in \<open>simp add: TO_AssignUserPreferenceCharset_def\<close>)

lemma replace_cached:
  assumes "to_cached gr st"
  shows "\<exists>st'. TO_ReplaceDrcsTable old new st = Some st' \<and> to_cached (if old = Some new then gr else gr_flag st) st'"
proof (cases "old = Some new")
  case False
  let ?st = "st\<lparr>to_gsetTranslationTables := map2 (replace_drcs_gset old new) [0..<4] (to_gsetTranslationTables st)\<rparr>"
  have "to_sized ?st" using assms by (simp add: to_cached_def to_sized_def)
  from reapply_cached [OF this] False show ?thesis by (auto simp: TO_ReplaceDrcsTable_def)
qed (use assms in \<open>simp add: TO_ReplaceDrcsTable_def\<close>)

lemma drcs_keep: "to_cached gr (st\<lparr>to_drcsId := i, to_drcsTranslationTable := t\<rparr>) = to_cached gr st"
  by (simp add: to_cached_def to_sized_def)

lemma drcs_cached:
  assumes "to_cached gr st"
  shows "\<exists>st'. TO_SetDrcs94Designation charset st = Some st' \<and>
      to_cached (if TO_LookupTranslationTable94 charset st = Some Drcs94 then gr else gr_flag st) st'"
    "\<exists>st'. TO_SetDrcs96Designation charset st = Some st' \<and>
      to_cached (if TO_LookupTranslationTable96 charset st = Some Drcs96 then gr else gr_flag st) st'"
  using replace_cached [OF assms, of "TO_LookupTranslationTable94 charset st" Drcs94]
    replace_cached [OF assms, of "TO_LookupTranslationTable96 charset st" Drcs96]
  by (auto simp: TO_SetDrcs94Designation_def TO_SetDrcs96Designation_def drcs_keep)

lemma translate_cached: "to_cached gr st \<Longrightarrow> to_cached gr (snd (TO_TranslateKey wch st))"
  by (simp add: TO_TranslateKey_def to_cached_def to_sized_def Let_def)

lemma restore_cached: "to_cached gr saved \<Longrightarrow> to_cached gr (TO_RestoreFrom saved st)"
  by (simp add: TO_RestoreFrom_def to_cached_def to_sized_def)

subsection \<open>Reachable states\<close>

text \<open>Everything the dispatcher does to its character sets, the shifts and designations with a G-set number
  below four. With the state goes the setting of GR translation that the right half of the code table was last
  set up under: a right shift, a designation that finds its set, a soft reset and switching GR translation take the current setting;
  restoring a saved state, which \<^verbatim>\<open>CursorRestoreState\<close> does whatever the setting is by then, brings back the one the
  saved state had.\<close>

inductive to_history :: "bool \<Rightarrow> TerminalOutput \<Rightarrow> bool" where
  start: "to_history gr (TerminalOutput_create gr)"
| soft_reset: "to_history gr st \<Longrightarrow> to_history (gr_flag st) (TO_SoftReset st)"
| designated_94: "to_history gr st \<Longrightarrow> g < 4 \<Longrightarrow> TO_Designate94Charset g charset st = Some st' \<Longrightarrow>
    to_history (if TO_LookupTranslationTable94 charset st = None then gr else gr_flag st) st'"
| designated_96: "to_history gr st \<Longrightarrow> g < 4 \<Longrightarrow> TO_Designate96Charset g charset st = Some st' \<Longrightarrow>
    to_history (if TO_LookupTranslationTable96 charset st = None then gr else gr_flag st) st'"
| shifted_left: "to_history gr st \<Longrightarrow> g < 4 \<Longrightarrow> TO_LockingShift g st = Some st' \<Longrightarrow> to_history gr st'"
| shifted_right: "to_history gr st \<Longrightarrow> g < 4 \<Longrightarrow> TO_LockingShiftRight g st = Some st' \<Longrightarrow> to_history (gr_flag st) st'"
| shifted_once: "to_history gr st \<Longrightarrow> g \<in> {0, 2, 3} \<Longrightarrow> to_history gr (TO_SingleShift g st)"
| gr_switched: "to_history gr st \<Longrightarrow> TO_EnableGrTranslation b st = Some st' \<Longrightarrow> to_history b st'"
| upss_assigned: "to_history gr st \<Longrightarrow> TO_AssignUserPreferenceCharset charset b st = Some st' \<Longrightarrow>
    to_history (if upss_found charset b st = None then gr else gr_flag st) st'"
| drcs_94: "to_history gr st \<Longrightarrow> TO_SetDrcs94Designation charset st = Some st' \<Longrightarrow>
    to_history (if TO_LookupTranslationTable94 charset st = Some Drcs94 then gr else gr_flag st) st'"
| drcs_96: "to_history gr st \<Longrightarrow> TO_SetDrcs96Designation charset st = Some st' \<Longrightarrow>
    to_history (if TO_LookupTranslationTable96 charset st = Some Drcs96 then gr else gr_flag st) st'"
| translated: "to_history gr st \<Longrightarrow> to_history gr (snd (TO_TranslateKey wch st))"
| restored: "to_history gr saved \<Longrightarrow> to_history gr' st \<Longrightarrow> to_history gr (TO_RestoreFrom saved st)"

definition to_reachable :: "TerminalOutput \<Rightarrow> bool" where
  "to_reachable st \<longleftrightarrow> (\<exists>gr. to_history gr st)"

lemma reachable_start: "to_reachable (TerminalOutput_create gr)"
  unfolding to_reachable_def by (blast intro: to_history.start)

lemma history_cached: "to_history gr st \<Longrightarrow> to_cached gr st"
proof (induction rule: to_history.induct)
  case (designated_94 gr st g charset st')
  then show ?case using designate_cached [OF designated_94.IH, of g charset "TO_LookupTranslationTable94 charset st"]
    by (simp add: TO_Designate94Charset_def)
next
  case (designated_96 gr st g charset st')
  then show ?case using designate_cached [OF designated_96.IH, of g charset "TO_LookupTranslationTable96 charset st"]
    by (simp add: TO_Designate96Charset_def)
next
  case (shifted_left gr st g st')
  then show ?case using shift_cached(1) [OF shifted_left.IH, of g] by simp
next
  case (shifted_right gr st g st')
  then show ?case using shift_cached(2) [OF shifted_right.IH, of g] by simp
next
  case (gr_switched gr st b st')
  then show ?case using enable_cached [OF gr_switched.IH, of b] by simp
next
  case (upss_assigned gr st charset b st')
  then show ?case using assign_cached [OF upss_assigned.IH, of charset b] by simp
next
  case (drcs_94 gr st charset st')
  then show ?case using drcs_cached(1) [OF drcs_94.IH, of charset] by simp
next
  case (drcs_96 gr st charset st')
  then show ?case using drcs_cached(2) [OF drcs_96.IH, of charset] by simp
qed (simp_all add: create_cached TO_SoftReset_def single_shift_cached translate_cached restore_cached)

subsection \<open>The reference translation\<close>

text \<open>A character in the half of the code table that starts at \<open>base\<close>, by a set.\<close>

definition in_half :: "nat \<Rightarrow> CharSet \<Rightarrow> wchar \<Rightarrow> bool" where
  "in_half base cs wch \<longleftrightarrow> base \<le> unat wch \<and> unat wch < base + charset_size cs"

definition half_char :: "nat \<Rightarrow> CharSet \<Rightarrow> wchar \<Rightarrow> wchar" where
  "half_char base cs wch = charset_table cs ! (unat wch - base)"

text \<open>What ISO 2022 asks for: a pending single shift invokes its G-set into both halves for one
  character; otherwise the left half is the set shifted into GL and the right half the one shifted
  into GR, where GR translation is enabled (\<open>gr\<close>).\<close>

definition translate_spec :: "bool \<Rightarrow> TerminalOutput \<Rightarrow> wchar \<Rightarrow> wchar" where
  "translate_spec gr st wch =
     (let gsets = to_gsetTranslationTables st;
          (left, right) = (if to_ssSetNumber st \<in> {2, 3} then (gsets ! to_ssSetNumber st, gsets ! to_ssSetNumber st)
                           else (gsets ! to_glSetNumber st, gsets ! to_grSetNumber st))
      in if in_half 0x20 left wch then half_char 0x20 left wch
         else if (gr \<or> to_ssSetNumber st \<in> {2, 3}) \<and> in_half 0xA0 right wch
         then half_char 0xA0 right wch
         else wch)"

lemma unat_offset:
  assumes "base \<le> 65535"
  shows "base \<le> unat (wch :: wchar) \<Longrightarrow> unat (ucast wch - of_nat base :: u32) = unat wch - base"
    and "unat wch < base \<Longrightarrow> 2 ^ 16 \<le> unat (ucast wch - of_nat base :: u32)"
proof -
  have "unat wch < 2 ^ 32" using unat_wchar_less [of wch] by (rule order_less_trans) simp
  then have w: "unat (ucast wch :: u32) = unat wch" by (simp add: unsigned_ucast_eq take_bit_nat_eq_self)
  have b: "unat (of_nat base :: u32) = base" using assms by (simp add: unat_of_nat take_bit_nat_eq_self)
  show "base \<le> unat wch \<Longrightarrow> unat (ucast wch - of_nat base :: u32) = unat wch - base"
    using w b by (simp add: unat_sub word_le_nat_alt)
  assume "unat wch < base"
  then have "unat (ucast wch - of_nat base :: u32) = 2 ^ 32 + unat wch - base"
    using w b assms by (simp add: unat_sub_if_size word_size)
  with assms show "2 ^ 16 \<le> unat (ucast wch - of_nat base :: u32)" by simp
qed

lemma entry_spec:
  assumes "base \<le> 65000"
  shows "table_entry (of_nat base) (Some cs) wch = (if in_half base cs wch then Some (half_char base cs wch) else None)"
proof -
  have size: "unat (of_nat (charset_size cs) :: u32) = charset_size cs" "charset_size cs < 2 ^ 16"
    using charset_size_cases [of cs] by auto
  show ?thesis
  proof (cases "base \<le> unat wch")
    case True
    then have "unat (ucast wch - of_nat base :: u32) = unat wch - base" using assms by (intro unat_offset) simp_all
    with True size show ?thesis
      by (auto simp: table_entry_def in_half_def half_char_def word_less_nat_alt)
  next
    case False
    then have "2 ^ 16 \<le> unat (ucast wch - of_nat base :: u32)" using assms by (intro unat_offset) simp_all
    with False size show ?thesis by (auto simp: table_entry_def in_half_def word_less_nat_alt)
  qed
qed

lemma half_identity:
  "in_half 0x20 Ascii wch \<Longrightarrow> half_char 0x20 Ascii wch = wch"
  "in_half 0xA0 Latin1 wch \<Longrightarrow> half_char 0xA0 Latin1 wch = wch"
proof -
  have eq: "of_nat base + of_nat (unat wch - base) = wch" if "base \<le> unat wch" for base
  proof -
    have "of_nat base + of_nat (unat wch - base) = (of_nat (unat wch) :: wchar)"
      unfolding of_nat_add [symmetric] using that by simp
    then show ?thesis by simp
  qed
  show "in_half 0x20 Ascii wch \<Longrightarrow> half_char 0x20 Ascii wch = wch"
    using eq [of "0x20"] table_nth [of "unat wch - 0x20" Ascii]
    by (auto simp: in_half_def half_char_def charset_size_def)
  show "in_half 0xA0 Latin1 wch \<Longrightarrow> half_char 0xA0 Latin1 wch = wch"
    using eq [of "0xA0"] table_nth [of "unat wch - 0xA0" Latin1]
    by (auto simp: in_half_def half_char_def charset_size_def)
qed

text \<open>A character of the left half of a set is not in the right half of any.\<close>

lemma halves_disjoint: "in_half 0x20 cs wch \<Longrightarrow> \<not> in_half 0xA0 cs' wch"
  using charset_size_cases [of cs] by (auto simp: in_half_def)

lemmas entry_left = entry_spec [of "0x20", simplified]
lemmas entry_right = entry_spec [of "0xA0", simplified]

lemma translate_cached_spec:
  assumes "to_cached gr st"
  shows "fst (TO_TranslateKey wch st) = translate_spec gr st wch"
proof (cases "to_ssSetNumber st \<in> {2, 3}")
  case True
  then show ?thesis by (auto simp: TO_TranslateKey_def translate_spec_def entry_left entry_right Let_def)
next
  case False
  let ?l = "to_gsetTranslationTables st ! to_glSetNumber st" and ?r = "to_gsetTranslationTables st ! to_grSetNumber st"
  have left: "table_entry 0x20 (to_glTranslationTable st) wch =
      (if ?l = Ascii then None else if in_half 0x20 ?l wch then Some (half_char 0x20 ?l wch) else None)"
    using assms by (simp add: to_cached_def Let_def entry_left) (simp add: table_entry_def)
  have right: "table_entry 0xA0 (to_grTranslationTable st) wch =
      (if ?r = Latin1 \<or> \<not> gr then None
       else if in_half 0xA0 ?r wch then Some (half_char 0xA0 ?r wch) else None)"
    using assms by (simp add: to_cached_def Let_def entry_right) (simp add: table_entry_def)
  from False show ?thesis
    using half_identity halves_disjoint [of Ascii wch ?r]
    by (auto simp: TO_TranslateKey_def translate_spec_def left right Let_def)
qed

text \<open>Without a table and without a pending shift nothing is translated.\<close>

lemma no_translation: "\<not> TO_NeedToTranslate st \<Longrightarrow> TO_TranslateKey wch st = (wch, st)"
  by (simp add: TO_NeedToTranslate_def TO_TranslateKey_def table_entry_def)

subsection \<open>Printing\<close>

text \<open>\<^verbatim>\<open>AdaptDispatch::Print\<close> and \<^verbatim>\<open>AdaptDispatch::PrintString\<close>: the text written to the buffer.\<close>

definition AD_Print :: "wchar \<Rightarrow> TerminalOutput \<Rightarrow> wstring \<times> TerminalOutput" where
  "AD_Print wchPrintable st =
     (let (w, st) = TO_TranslateKey wchPrintable st in (if w \<noteq> 0x7F then [w] else [], st))"

fun translate_string :: "wstring \<Rightarrow> TerminalOutput \<Rightarrow> wstring \<times> TerminalOutput" where
  "translate_string [] st = ([], st)"
| "translate_string (w # ws) st =
     (let (w', st) = TO_TranslateKey w st; (ws', st) = translate_string ws st in (w' # ws', st))"

definition AD_PrintString :: "wstring \<Rightarrow> TerminalOutput \<Rightarrow> wstring \<times> TerminalOutput" where
  "AD_PrintString str st = (if TO_NeedToTranslate st then translate_string str st else (str, st))"

lemma print_always_translates: "AD_PrintString str st = translate_string str st"
proof -
  have "\<not> TO_NeedToTranslate st \<Longrightarrow> translate_string str st = (str, st)"
    by (induction str) (simp_all add: no_translation)
  then show ?thesis by (simp add: AD_PrintString_def)
qed

lemma translate_string_append:
  "translate_string (xs @ ys) st =
     (let (xs', st) = translate_string xs st; (ys', st) = translate_string ys st in (xs' @ ys', st))"
  by (induction xs arbitrary: st) (simp_all add: Let_def case_prod_unfold)

lemma history_single: "to_history gr st \<Longrightarrow> to_ssSetNumber st \<in> {0, 2, 3}"
proof (induction rule: to_history.induct)
  case (restored gr saved gr' st)
  then show ?case by (simp add: TO_RestoreFrom_def)
qed (auto simp: TerminalOutput_create_def TO_SoftReset_def TO_Designate94Charset_def TO_Designate96Charset_def designate_def
    TO_SetTranslationTable_def reapply_shifts_def TO_LockingShift_def TO_LockingShiftRight_def TO_SingleShift_def
    TO_EnableGrTranslation_def TO_AssignUserPreferenceCharset_def TO_SetDrcs94Designation_def TO_SetDrcs96Designation_def
    TO_ReplaceDrcsTable_def TO_TranslateKey_def Let_def split: option.splits if_splits Option.bind_splits)

lemma translate_state:
  "to_ssSetNumber st \<in> {0, 2, 3} \<Longrightarrow> snd (TO_TranslateKey w st) = st\<lparr>to_ssSetNumber := 0\<rparr>"
  by (auto simp: TO_TranslateKey_def Let_def)

lemma translate_string_cached:
  "to_cached gr st \<Longrightarrow> to_ssSetNumber st = 0 \<Longrightarrow> translate_string ws st = (map (translate_spec gr st) ws, st)"
proof (induction ws)
  case (Cons w ws)
  have "TO_TranslateKey w st = (translate_spec gr st w, st)"
    using translate_cached_spec [OF Cons.prems(1), of w] translate_state [of st w] Cons.prems(2)
    by (cases "TO_TranslateKey w st") simp
  with Cons show ?case by simp
qed simp

lemma designate_known:
  assumes "to_sized st" and "g < 4" and "(s, cs) \<in> set charsets_94" and "VTID s \<noteq> to_drcsId st"
  shows "\<exists>st1. TO_Designate94Charset g (VTID s) st = Some st1 \<and>
    to_gsetTranslationTables st1 = (to_gsetTranslationTables st)[g := cs] \<and>
    to_gsetIds st1 = (to_gsetIds st)[g := VTID s] \<and> to_glSetNumber st1 = to_glSetNumber st \<and>
    to_ssSetNumber st1 = to_ssSetNumber st"
proof -
  have keys: "list_all id_key (map fst charsets_94)" "distinct (map fst charsets_94)"
    by (simp_all add: charsets_94_def id_key_def)
  have key: "id_key s" using assms(3) keys(1) by (auto simp: list_all_iff)
  have "\<not> (''<'', x) \<in> set charsets_94" for x by (simp add: charsets_94_def)
  then have "s \<noteq> ''<''" using assms(3) by blast
  then have "VTID s \<noteq> VTID ''<''" using VTID_inject [of s "''<''"] key by (auto simp: id_key_def)
  moreover have "id_case charsets_94 (VTID s) = Some cs"
    using id_case_VTID [OF keys(1) key] assms(3) keys(2) by (simp add: map_of_eq_Some_iff)
  ultimately have "TO_LookupTranslationTable94 (VTID s) st = Some cs"
    using assms(4) by (simp add: TO_LookupTranslationTable94_def)
  with assms(1,2) show ?thesis
    by (auto simp: TO_Designate94Charset_def designate_def TO_SetTranslationTable_def reapply_shifts_def
        TO_LockingShift_def TO_LockingShiftRight_def to_sized_def Let_def)
qed

subsection \<open>Properties\<close>

text \<open>C29: In every state the dispatcher can bring the character sets into, restoring saved states at any time
  included, what is printed is what ISO 2022 asks for: a pending single shift selects the set of the first character, all
  others are translated by the sets shifted into the two halves of the code table, the right half being
  translated if GR translation was enabled when it was last set up (\<open>to_history\<close>). The tables cached by the shifts, the empty
  tables for the identical sets and the fast path without translation change nothing.\<close>

theorem printed_text:
  assumes "to_history gr st"
  shows "AD_PrintString (w # ws) st =
    (translate_spec gr st w # map (translate_spec gr (st\<lparr>to_ssSetNumber := 0\<rparr>)) ws, st\<lparr>to_ssSetNumber := 0\<rparr>)"
proof -
  let ?st = "st\<lparr>to_ssSetNumber := 0\<rparr>"
  have c: "to_cached gr st" using assms by (rule history_cached)
  have "to_cached gr ?st" using c by (simp add: to_cached_def to_sized_def)
  moreover have "TO_TranslateKey w st = (translate_spec gr st w, ?st)"
    using translate_cached_spec [OF c, of w] translate_state [OF history_single [OF assms], of w]
    by (cases "TO_TranslateKey w st") simp
  ultimately show ?thesis
    unfolding print_always_translates by (simp add: translate_string_cached)
qed

lemma graphics_state:
  "\<exists>st. TO_Designate94Charset 0 (VTID ''0'') (TerminalOutput_create False) = Some st \<and>
     to_gsetTranslationTables st = [DecSpecialGraphics, Ascii, Ascii, Ascii] \<and> to_glSetNumber st = 0 \<and>
     to_ssSetNumber st = 0"
proof -
  have "id_case charsets_94 (VTID ''0'') = Some DecSpecialGraphics"
    by (subst id_case_VTID) (simp_all add: charsets_94_def id_key_def)
  moreover have "VTID ''0'' \<noteq> 0" "VTID ''0'' \<noteq> VTID ''<''" by (simp_all add: VTID_def)
  ultimately show ?thesis
    by (simp add: TO_Designate94Charset_def TO_LookupTranslationTable94_def TerminalOutput_create_def designate_def
        TO_SetTranslationTable_def reapply_shifts_def TO_LockingShift_def TO_LockingShiftRight_def Let_def)
qed

lemma printed_text_witness:
  "\<exists>gr st. to_history gr st \<and> fst (AD_PrintString [0x71, 0x41] st) = [0x2500, 0x41]"
proof -
  from graphics_state obtain st where d: "TO_Designate94Charset 0 (VTID ''0'') (TerminalOutput_create False) = Some st"
    and st: "to_gsetTranslationTables st = [DecSpecialGraphics, Ascii, Ascii, Ascii]" "to_glSetNumber st = 0"
      "to_ssSetNumber st = 0" by blast
  from to_history.designated_94 [OF to_history.start _ d] obtain gr where r: "to_history gr st" by auto
  have u: "unat (0x71 :: wchar) = 0x71" "unat (0x41 :: wchar) = 0x41" by simp_all
  have "translate_spec gr st 0x71 = 0x2500" "translate_spec gr (st\<lparr>to_ssSetNumber := 0\<rparr>) 0x41 = 0x41"
    using st table_nth [of 81 DecSpecialGraphics] table_nth [of 33 DecSpecialGraphics]
    by (simp_all add: translate_spec_def in_half_def half_char_def charset_size_def DecSpecialGraphics_replacements_def u)
  with printed_text [OF r, of "0x71" "[0x41]"] r show ?thesis
    by (intro exI [of _ gr] exI [of _ st]) simp
qed

text \<open>Designating a known set into a G-set and shifting that G-set into the left half of the code table
  makes exactly this set the one that printable characters are translated by.\<close>

theorem designated_set_translates:
  assumes "to_reachable st" and "g < 4" and "(s, cs) \<in> set charsets_94" and "VTID s \<noteq> to_drcsId st"
    and "to_ssSetNumber st = 0"
  shows "\<exists>st1 st2. TO_Designate94Charset g (VTID s) st = Some st1 \<and> TO_LockingShift g st1 = Some st2 \<and>
    TO_GetCharsetId g st2 = Some (VTID s) \<and>
    (\<forall>w. in_half 0x20 cs w \<longrightarrow> fst (TO_TranslateKey w st2) = half_char 0x20 cs w)"
proof -
  obtain gr where h: "to_history gr st" using assms(1) by (auto simp: to_reachable_def)
  have sized: "to_sized st" using history_cached [OF h] by (rule cached_sized)
  from designate_known [OF this assms(2-4)] obtain st1 where st1: "TO_Designate94Charset g (VTID s) st = Some st1"
    "to_gsetTranslationTables st1 = (to_gsetTranslationTables st)[g := cs]"
    "to_gsetIds st1 = (to_gsetIds st)[g := VTID s]" "to_ssSetNumber st1 = 0"
    using assms(5) by auto
  with sized assms(2) obtain st2 where st2: "TO_LockingShift g st1 = Some st2" "to_glSetNumber st2 = g"
    "to_gsetTranslationTables st2 = to_gsetTranslationTables st1" "to_gsetIds st2 = to_gsetIds st1" "to_ssSetNumber st2 = 0"
    by (auto simp: TO_LockingShift_def to_sized_def Let_def)
  from to_history.shifted_left [OF to_history.designated_94 [OF h assms(2) st1(1)] assms(2) st2(1)]
  obtain gr2 where "to_history gr2 st2" by blast
  then have spec: "fst (TO_TranslateKey w st2) = translate_spec gr2 st2 w" for w
    by (intro translate_cached_spec history_cached)
  have "to_gsetTranslationTables st2 ! g = cs" "TO_GetCharsetId g st2 = Some (VTID s)"
    using st1(2,3) st2(3,4) sized assms(2) by (simp_all add: to_sized_def TO_GetCharsetId_def)
  with spec st1(1) st2(1,2,5) show ?thesis by (auto simp: translate_spec_def)
qed

lemma designated_set_translates_witness:
  "\<exists>st1 st2. TO_Designate94Charset 1 (VTID ''%2'') (TerminalOutput_create True) = Some st1 \<and>
    TO_LockingShift 1 st1 = Some st2 \<and> TO_GetCharsetId 1 st2 = Some (VTID ''%2'') \<and>
    fst (TO_TranslateKey 0x26 st2) = half_char 0x20 TurkishNrcs 0x26"
proof -
  have "\<exists>st1 st2. TO_Designate94Charset 1 (VTID ''%2'') (TerminalOutput_create True) = Some st1 \<and>
    TO_LockingShift 1 st1 = Some st2 \<and> TO_GetCharsetId 1 st2 = Some (VTID ''%2'') \<and>
    (\<forall>w. in_half 0x20 TurkishNrcs w \<longrightarrow> fst (TO_TranslateKey w st2) = half_char 0x20 TurkishNrcs w)"
    by (rule designated_set_translates [OF reachable_start])
      (simp_all add: charsets_94_def TerminalOutput_create_def VTID_def Let_def)
  moreover have "in_half 0x20 TurkishNrcs 0x26" by (simp add: in_half_def charset_size_def)
  ultimately show ?thesis by blast
qed

text \<open>C30: Restoring a saved state under another GR setting keeps the cached right table of the saved state, in
  both directions. Take any saved state, with its right half set up under the setting \<open>gr\<close>, and any state whose
  setting is the other one; after restoring the setting is that other one, but every character of the right half
  that the set there changes is translated exactly when \<open>gr\<close> says so: with GR translation switched off it is
  still translated, and with GR translation switched on it is still printed as it is, unlike what ISO 2022 asks for
  under the setting in force.\<close>

theorem restore_keeps_stale_right_table:
  assumes "to_history gr saved" and "to_history gr' st" and "to_grTranslationEnabled st \<noteq> gr"
    and "to_ssSetNumber saved = 0" and "cs = to_gsetTranslationTables saved ! to_grSetNumber saved"
    and "in_half 0xA0 cs w" and "half_char 0xA0 cs w \<noteq> w"
  shows "to_grTranslationEnabled (TO_RestoreFrom saved st) = (\<not> gr) \<and>
    fst (TO_TranslateKey w (TO_RestoreFrom saved st)) = (if gr then half_char 0xA0 cs w else w) \<and>
    translate_spec (\<not> gr) (TO_RestoreFrom saved st) w = (if gr then w else half_char 0xA0 cs w)"
proof -
  let ?st = "TO_RestoreFrom saved st"
  have r: "to_history gr ?st" using assms(1,2) by (rule to_history.restored)
  have f: "to_ssSetNumber ?st = 0" "to_gsetTranslationTables ?st = to_gsetTranslationTables saved"
    "to_grSetNumber ?st = to_grSetNumber saved" "to_grTranslationEnabled ?st = (\<not> gr)"
    using assms(3,4) by (auto simp: TO_RestoreFrom_def)
  have "\<not> in_half 0x20 l w" for l using halves_disjoint [of l w cs] assms(6) by blast
  then have "translate_spec b ?st w = (if b then half_char 0xA0 cs w else w)" for b
    using f assms(5,6) by (simp add: translate_spec_def)
  with translate_cached_spec [OF history_cached [OF r], of w] f(4) show ?thesis by simp
qed

lemma latin2_state:
  "\<exists>st. TO_Designate96Charset 2 (VTID ''B'') (TerminalOutput_create True) = Some st \<and> to_history True st \<and>
     to_ssSetNumber st = 0 \<and> to_gsetTranslationTables st ! to_grSetNumber st = Latin2"
proof -
  have "id_case charsets_96 (VTID ''B'') = Some Latin2"
    by (subst id_case_VTID) (simp_all add: charsets_96_def id_key_def)
  moreover have "VTID ''B'' \<noteq> 0" "VTID ''B'' \<noteq> VTID ''<''" by (simp_all add: VTID_def)
  ultimately have l: "TO_LookupTranslationTable96 (VTID ''B'') (TerminalOutput_create True) = Some Latin2"
    by (simp add: TO_LookupTranslationTable96_def TerminalOutput_create_def Let_def)
  then obtain st where d: "TO_Designate96Charset 2 (VTID ''B'') (TerminalOutput_create True) = Some st"
    and "to_ssSetNumber st = 0" "to_gsetTranslationTables st ! to_grSetNumber st = Latin2"
    by (simp add: TO_Designate96Charset_def designate_def TO_SetTranslationTable_def reapply_shifts_def
        TO_LockingShift_def TO_LockingShiftRight_def TerminalOutput_create_def Let_def)
  moreover have "to_history True st"
    using to_history.designated_96 [OF to_history.start [of True] _ d] l by (simp add: TerminalOutput_create_def Let_def)
  ultimately show ?thesis by blast
qed

lemma restore_keeps_stale_right_table_witness:
  "\<exists>saved. TO_Designate96Charset 2 (VTID ''B'') (TerminalOutput_create True) = Some saved \<and>
     \<not> to_grTranslationEnabled (TO_RestoreFrom saved (TerminalOutput_create False)) \<and>
     fst (TO_TranslateKey 0xA1 (TO_RestoreFrom saved (TerminalOutput_create False))) = 0x104"
proof -
  obtain saved where s: "TO_Designate96Charset 2 (VTID ''B'') (TerminalOutput_create True) = Some saved"
    "to_history True saved" "to_ssSetNumber saved = 0" "Latin2 = to_gsetTranslationTables saved ! to_grSetNumber saved"
    using latin2_state by auto
  have h: "in_half 0xA0 Latin2 0xA1" "half_char 0xA0 Latin2 0xA1 = 0x104"
    using table_nth [of 1 Latin2] by (simp_all add: in_half_def half_char_def charset_size_def Latin2_replacements_def)
  have off: "to_grTranslationEnabled (TerminalOutput_create False) \<noteq> True"
    by (simp add: TerminalOutput_create_def Let_def)
  from restore_keeps_stale_right_table [OF s(2) to_history.start off s(3,4) h(1)] h(2) s(1) show ?thesis by auto
qed

end
