(* ===== verification/CharsetSequences.thy ===== *)
theory CharsetSequences
  imports EscapeSequences CharsetLaws
begin

text \<open>
  Character sets from the text of a designation to the printed characters: a terminal that keeps its
  sets as \<open>TerminalOutput\<close> says, behind the parser and the output engine.
\<close>

subsection \<open>A terminal with character sets\<close>

text \<open>The conversion of a G-set number to \<^verbatim>\<open>size_t\<close>.\<close>

definition size_of_VTInt :: "VTInt \<Rightarrow> nat" where
  "size_of_VTInt n = (if 0 \<le> n then nat n else nat (n + 2 ^ 64))"

definition ISO2022_system :: VTID where
  "ISO2022_system = VTID ''@''"

definition UTF8_system :: VTID where
  "UTF8_system = VTID ''G''"

text \<open>The methods of \<^verbatim>\<open>AdaptDispatch\<close> on character sets and for printing. Writing to the buffer, the code
  page and the acceptance of C1 controls are left to a terminal \<open>D\<close>, which also does everything else.\<close>

definition AD_charset :: "charset_call \<Rightarrow> TerminalOutput \<Rightarrow> TerminalOutput option" where
  "AD_charset c st =
     (case c of
        DesignateCodingSystem codingSystem \<Rightarrow>
          (if codingSystem = ISO2022_system then TO_EnableGrTranslation True st
           else if codingSystem = UTF8_system then TO_EnableGrTranslation False st
           else Some st)
      | Designate94Charset gsetNumber charset \<Rightarrow> TO_Designate94Charset (size_of_VTInt gsetNumber) charset st
      | Designate96Charset gsetNumber charset \<Rightarrow> TO_Designate96Charset (size_of_VTInt gsetNumber) charset st
      | LockingShift gsetNumber \<Rightarrow> TO_LockingShift (size_of_VTInt gsetNumber) st
      | LockingShiftRight gsetNumber \<Rightarrow> TO_LockingShiftRight (size_of_VTInt gsetNumber) st
      | SingleShift gsetNumber \<Rightarrow> Some (TO_SingleShift (size_of_VTInt gsetNumber) st))"

definition charset_dispatch ::
    "('d, 'h, 'c) dispatch_ops \<Rightarrow> dispatch_call \<Rightarrow> 'd \<times> TerminalOutput \<Rightarrow>
     ('d \<times> TerminalOutput) \<times> 'c sm_request list \<times> bool" where
  "charset_dispatch D x ds =
     (let (d, st) = ds;
          on_D = (\<lambda>x st. case disp_call D x d of (d', rs, ok) \<Rightarrow> ((d', st), rs, ok));
          finish = (\<lambda>r. case r of Some st' \<Rightarrow> ((d, st'), [], True) | None \<Rightarrow> ((d, st), [], False))
      in case x of
           Print w \<Rightarrow> (let (str, st') = AD_Print w st in if str = [] then ((d, st'), [], True) else on_D (PrintString str) st')
         | PrintString str \<Rightarrow> (let (str', st') = AD_PrintString str st in on_D (PrintString str') st')
         | Charset (DesignateCodingSystem codingSystem) \<Rightarrow>
             (case AD_charset (DesignateCodingSystem codingSystem) st of
                Some st' \<Rightarrow> on_D x st'
              | None \<Rightarrow> (case on_D x st of (ds, rs, _) \<Rightarrow> (ds, rs, False)))
         | Charset c \<Rightarrow> finish (AD_charset c st)
         | _ \<Rightarrow> on_D x st)"

definition with_charsets :: "('d, 'h, 'c) dispatch_ops \<Rightarrow> ('d \<times> TerminalOutput, 'h, 'c) dispatch_ops" where
  "with_charsets D =
     \<lparr>disp_call = charset_dispatch D,
      disp_handler = (\<lambda>x (d, st). case disp_handler D x d of (d', rs, h) \<Rightarrow> ((d', st), rs, h)),
      disp_string = (\<lambda>h w (d, st). case disp_string D h w d of (d', rs, ok) \<Rightarrow> ((d', st), rs, ok))\<rparr>"

lemma with_charsets_print:
  "disp_call (with_charsets D) (PrintString str) (d, st) =
     ((fst (disp_call D (PrintString (fst (translate_string str st))) d), snd (translate_string str st)),
      snd (disp_call D (PrintString (fst (translate_string str st))) d))"
  by (simp add: with_charsets_def charset_dispatch_def print_always_translates case_prod_unfold Let_def)

text \<open>Translated text may be cut anywhere, as the sets and a pending shift are carried from one piece
  to the next.\<close>

lemma with_charsets_stream:
  assumes "\<And>str d. snd (disp_call D (PrintString str) d) = ([], True)"
    and "\<And>xs ys d. fst (disp_call D (PrintString (xs @ ys)) d) =
      fst (disp_call D (PrintString ys) (fst (disp_call D (PrintString xs) d)))"
    and "\<And>cb s s'. run cb s = Some s' \<Longrightarrow> sm_isEngineForInput s' = sm_isEngineForInput s"
    and "\<And>cb s. \<not> sm_isEngineForInput s \<Longrightarrow>
      map_option sm_erase (run cb (sm_erase s)) = map_option sm_erase (run cb s)"
  shows "stream_terminal (with_charsets D) run"
  by unfold_locales
    (auto simp: with_charsets_print assms translate_string_append case_prod_unfold Let_def)

subsection \<open>Designations\<close>

lemma esc_94_call:
  assumes "id_key s"
  shows "length s \<le> 6 \<Longrightarrow> esc_calls (VTID (CHR ''('' # s)) = [Charset (Designate94Charset 0 (VTID s))]"
proof -
  assume len: "length s \<le> 6"
  have "list_all id_key (map fst EscActionCodes)" by (simp add: EscActionCodes_def id_key_def)
  moreover have "id_key (CHR ''('' # s)" using assms len by (auto simp: id_key_def)
  moreover have "map_of EscActionCodes (CHR ''('' # s) = None" by (simp add: EscActionCodes_def)
  ultimately have "id_case EscActionCodes (VTID (CHR ''('' # s)) = None" by (simp add: id_case_VTID)
  with VTID_Cons [OF len, of "CHR ''(''"] show ?thesis by (simp add: esc_calls_def esc_default_def)
qed

text \<open>The spelling of the known sets: intermediates and a final character.\<close>

lemma charsets_94_spelling:
  assumes "(ids, cs) \<in> set charsets_94"
  shows "ids \<noteq> []" "length ids \<le> 2" "id_key ids" "list_all isIntermediate (wstr (CHR ''('' # butlast ids))"
    "esc_final (CHR ''('' # butlast ids) (last ids)" "charset_size cs = 95"
proof -
  have "list_all (\<lambda>(ids, cs). ids \<noteq> [] \<and> length ids \<le> 2 \<and> id_key ids \<and> list_all isIntermediate (wstr (CHR ''('' # butlast ids)) \<and>
      esc_final (CHR ''('' # butlast ids) (last ids) \<and> charset_size cs = 95) charsets_94"
    by (simp add: charsets_94_def id_key_def esc_final_def char_class charset_size_def)
  with assms show "ids \<noteq> []" "length ids \<le> 2" "id_key ids" "list_all isIntermediate (wstr (CHR ''('' # butlast ids))"
    "esc_final (CHR ''('' # butlast ids) (last ids)" "charset_size cs = 95"
    by (auto simp: list_all_iff)
qed

text \<open>C31: A character set designated by its escape sequence is the one the following text is printed with:
  the terminal is asked to print the table's entries for the characters, in one piece.\<close>

theorem designated_text_end_to_end:
  assumes t: "stream_terminal (with_charsets D) run" and s: "sm_ready s"
    and d: "oe_dispatch (sm_engine s) = (d, st)" and "to_reachable st" and "to_glSetNumber st = 0"
    and "to_ssSetNumber st = 0" and "(ids, cs) \<in> set charsets_94" and "VTID ids \<noteq> to_drcsId st"
    and "ws \<noteq> []" and ws: "\<forall>w \<in> set ws. 0x20 \<le> w \<and> w < 0x7F"
  shows "\<exists>st'. engine_after (output_ops env (with_charsets D) run)
      (esc_text (CHR ''('' # butlast ids) (last ids) @ ws) s
      ((sm_engine s)\<lparr>oe_dispatch := (fst (disp_call D (PrintString (map (half_char 0x20 cs) ws)) d), st'),
                      oe_lastPrintedChar := last ws\<rparr>)"
proof -
  note sp = charsets_94_spelling [OF assms(7)]
  obtain gr where h: "to_history gr st" using assms(4) by (auto simp: to_reachable_def)
  have cur: "to_sized st" using history_cached [OF h] by (rule cached_sized)
  from designate_known [OF cur _ assms(7,8), of 0] obtain st1 where
    st1: "TO_Designate94Charset 0 (VTID ids) st = Some st1" "to_gsetTranslationTables st1 = (to_gsetTranslationTables st)[0 := cs]"
      "to_glSetNumber st1 = 0" "to_ssSetNumber st1 = 0" using assms(5,6) by auto
  from to_history.designated_94 [OF h _ st1(1)] obtain gr1 where "to_history gr1 st1" by auto
  then have cur1: "to_cached gr1 st1" by (rule history_cached)
  let ?e1 = "ClearLastChar ((sm_engine s)\<lparr>oe_dispatch := (d, st1)\<rparr>)"
  have "OutputEngine_ActionEscDispatch (with_charsets D) (VTID ((CHR ''('' # butlast ids) @ [last ids])) (sm_engine s) =
      (?e1, [], Handled)"
    using esc_94_call [OF sp(3)] sp(1,2) st1(1) d
    by (simp add: OutputEngine_ActionEscDispatch_def dispatch_and_clear_def with_charsets_def charset_dispatch_def AD_charset_def
        size_of_VTInt_def)
  then have esc: "engine_after (output_ops env (with_charsets D) run) (esc_text (CHR ''('' # butlast ids) (last ids)) s ?e1"
    using sp by (intro stream_terminal.esc_after [OF t s]) simp_all
  have spec: "translate_spec gr1 st1 w = half_char 0x20 cs w" if "w \<in> set ws" for w
  proof -
    have "in_half 0x20 cs w" using ws that sp(6) by (auto simp: in_half_def word_le_nat_alt word_less_nat_alt)
    moreover have "to_gsetTranslationTables st1 ! 0 = cs"
      using st1(2) cur by (simp add: to_sized_def)
    ultimately show ?thesis using st1(3,4) by (simp add: translate_spec_def)
  qed
  have tr: "translate_string ws st1 = (map (half_char 0x20 cs) ws, st1)"
    using translate_string_cached [OF cur1 st1(4), of ws] spec by simp
  have plain: "\<forall>w \<in> set ws. \<not> isActionableFromGround w"
    using ws by (auto simp: isActionableFromGround_ranges word_le_nat_alt word_less_nat_alt)
  have printed: "engine_after (output_ops env (with_charsets D) run) ws u
      ((sm_engine s)\<lparr>oe_dispatch := (fst (disp_call D (PrintString (map (half_char 0x20 cs) ws)) d), st1),
                      oe_lastPrintedChar := last ws\<rparr>)"
    if "sm_ready u" "sm_engine u = ?e1" for u
    using stream_terminal.text_after [OF t that(1) assms(9) plain, of env] that(2)
    by (simp add: ClearLastChar_def with_charsets_print tr)
  from stream_terminal.after_append [OF t s esc printed] show ?thesis by blast
qed

subsection \<open>A machine to start from\<close>

definition sets_run ::
    "unit \<Rightarrow> ((wstring \<times> TerminalOutput) output_engine, unit, unit) sm \<Rightarrow>
     ((wstring \<times> TerminalOutput) output_engine, unit, unit) sm option" where
  "sets_run cb s = Some s"

interpretation sets: stream_terminal plain_env "with_charsets transcript" sets_run
  using transcript_stream.print_returns transcript_stream.print_batch
  by (intro with_charsets_stream) (simp_all add: sets_run_def)

definition sets_machine :: "((wstring \<times> TerminalOutput) output_engine, unit, unit) sm" where
  "sets_machine =
     StateMachine_init (OutputStateMachineEngine_init ([], TerminalOutput_create False)) False 0 0 False"

lemma sets_ready: "sm_ready sets_machine"
  by (simp add: sets_machine_def sm_ready_def StateMachine_init_def ActionClear_def SetParserMode_def
      GetParserMode_def)

lemma sets_engine: "oe_dispatch (sm_engine sets_machine) = ([], TerminalOutput_create False)"
  by (simp add: sets_machine_def StateMachine_init_def ActionClear_def SetParserMode_def OutputStateMachineEngine_init_def)

lemma designated_text_end_to_end_witness:
  "\<exists>st'. engine_after (output_ops plain_env (with_charsets transcript) sets_run)
      (esc_text (CHR ''('' # butlast ''0'') (last ''0'') @ wstr ''lqk'') sets_machine
      ((sm_engine sets_machine)\<lparr>oe_dispatch :=
          (fst (disp_call transcript (PrintString (map (half_char 0x20 DecSpecialGraphics) (wstr ''lqk''))) []), st'),
        oe_lastPrintedChar := last (wstr ''lqk'')\<rparr>)"
  by (rule designated_text_end_to_end [OF sets.stream_terminal_axioms sets_ready sets_engine reachable_start])
    (simp_all add: TerminalOutput_create_def charsets_94_def VTID_def Let_def)

end
