(* ===== verification/Rle.thy ===== *)
theory Rle
  imports Prelude
begin

text \<open>
  The run-length encoded vector, \<^verbatim>\<open>src/src/inc/til/rle.h\<close>. Iterators are indices; \<open>None\<close> is an access
  outside of the container, which is undefined in the source. The lengths of runs are words of any
  width, like the size type of the template.
\<close>

subsection \<open>Runs\<close>

record ('a, 's) rle_pair =
  rle_value :: 'a
  rle_length :: 's

record ('a, 's) basic_rle =
  rle_runs :: "('a, 's) rle_pair list"
  rle_total_length :: 's

type_synonym ('a, 's) run = "('a, 's word) rle_pair"
type_synonym ('a, 's) rle = "('a, 's word) basic_rle"

definition rle_of_runs :: "('a, 's :: len) run list \<Rightarrow> ('a, 's) rle" where
  "rle_of_runs runs = \<lparr>rle_runs = runs, rle_total_length = fold (\<lambda>run tot. tot + rle_length run) runs 0\<rparr>"

definition rle_fill :: "'s :: len word \<Rightarrow> 'a \<Rightarrow> ('a, 's) rle" where
  "rle_fill n v =
     \<lparr>rle_runs = (if n \<noteq> 0 then [\<lparr>rle_value = v, rle_length = n\<rparr>] else []), rle_total_length = n\<rparr>"

definition rle_empty :: "('a, 's :: len) rle \<Rightarrow> bool" where
  "rle_empty r \<longleftrightarrow> rle_total_length r = 0"

definition rle_equal :: "('a, 's :: len) rle \<Rightarrow> ('a, 's) rle \<Rightarrow> bool" where
  "rle_equal r other \<longleftrightarrow> rle_total_length r = rle_total_length other \<and> rle_runs r = rle_runs other"

subsection \<open>The scanner\<close>

text \<open>What is left of the container, the iterator and the total so far: the scan yields the iterator,
  the position inside of its run and the new total.\<close>

fun scan_loop :: "('a, 's :: len) run list \<Rightarrow> nat \<Rightarrow> 's word \<Rightarrow> 's word \<Rightarrow> nat \<times> 's word \<times> 's word" where
  "scan_loop [] it tot index = (it, 0, tot)"
| "scan_loop (run # runs) it tot index =
     (let new_total = tot + rle_length run
      in if new_total > index then (it, index - tot, tot) else scan_loop runs (Suc it) new_total index)"

definition rle_scan :: "('a, 's :: len) run list \<Rightarrow> nat \<Rightarrow> 's word \<Rightarrow> 's word \<Rightarrow> nat \<times> 's word \<times> 's word" where
  "rle_scan runs it tot index = scan_loop (drop it runs) it tot index"

subsection \<open>Iterators and containers\<close>

definition deref :: "'x list \<Rightarrow> nat \<Rightarrow> 'x option" where
  "deref xs it = (if it < length xs then Some (xs ! it) else None)"

definition prev_it :: "nat \<Rightarrow> nat option" where
  "prev_it it = (if it = 0 then None else Some (it - 1))"

definition set_length :: "nat \<Rightarrow> 's :: len word \<Rightarrow> ('a, 's) run list \<Rightarrow> ('a, 's) run list option" where
  "set_length it n runs = (if it < length runs then Some (runs[it := (runs ! it)\<lparr>rle_length := n\<rparr>]) else None)"

definition erase_range :: "nat \<Rightarrow> nat \<Rightarrow> 'x list \<Rightarrow> 'x list option" where
  "erase_range b e xs = (if b \<le> e \<and> e \<le> length xs then Some (take b xs @ drop e xs) else None)"

definition insert_range :: "nat \<Rightarrow> 'x list \<Rightarrow> 'x list \<Rightarrow> 'x list option" where
  "insert_range b ys xs = (if b \<le> length xs then Some (take b xs @ ys @ drop b xs) else None)"

text \<open>\<^verbatim>\<open>std::copy\<close> into the container, with the iterator it returns.\<close>

definition copy_range :: "'x list \<Rightarrow> nat \<Rightarrow> 'x list \<Rightarrow> (nat \<times> 'x list) option" where
  "copy_range ys b xs =
     (if b + length ys \<le> length xs then Some (b + length ys, take b xs @ ys @ drop (b + length ys) xs) else None)"

subsection \<open>Reading\<close>

text \<open>\<open>None\<close> is the exception \<^verbatim>\<open>std::out_of_range\<close>.\<close>

definition rle_at :: "('a, 's :: len) rle \<Rightarrow> 's word \<Rightarrow> 'a option" where
  "rle_at r position = map_option rle_value (deref (rle_runs r) (fst (rle_scan (rle_runs r) 0 0 position)))"

definition rle_slice :: "('a, 's :: len) rle \<Rightarrow> 's word \<Rightarrow> 's word \<Rightarrow> ('a, 's) rle option" where
  "rle_slice r start_index end_index =
     (let end_index = (if end_index > rle_total_length r then rle_total_length r else end_index)
      in if start_index \<ge> end_index then Some \<lparr>rle_runs = [], rle_total_length = 0\<rparr>
         else (let runs = rle_runs r;
                   (begin_run, start_run_pos, tot) = rle_scan runs 0 0 start_index;
                   (end_run, end_run_pos, _) = rle_scan runs begin_run tot (end_index - 1)
               in if end_run < length runs
                  then do {
                    let slice = drop begin_run (take (end_run + 1) runs);
                    slice \<leftarrow> set_length (length slice - 1) (end_run_pos + 1) slice;
                    front \<leftarrow> deref slice 0;
                    slice \<leftarrow> set_length 0 (rle_length front - start_run_pos) slice;
                    Some \<lparr>rle_runs = slice, rle_total_length = end_index - start_index\<rparr> }
                  else None))"

subsection \<open>Replacing\<close>

definition previous_run :: "nat \<Rightarrow> 's :: len word \<Rightarrow> nat option" where
  "previous_run begin begin_pos = (if begin_pos \<noteq> 0 then Some begin else prev_it begin)"

text \<open>The new lengths of the runs at both ends of the range; the first one is kept.\<close>

definition adjust_lengths ::
    "nat \<Rightarrow> 's :: len word \<Rightarrow> nat \<Rightarrow> 's word \<Rightarrow> ('a, 's) run list \<Rightarrow> (nat \<times> ('a, 's) run list) option" where
  "adjust_lengths b b_pos e e_pos runs = do {
     (b, runs) \<leftarrow>
       (if b_pos \<noteq> 0 then do { runs \<leftarrow> set_length b b_pos runs; Some (b + 1, runs) } else Some (b, runs));
     runs \<leftarrow>
       (if e_pos \<noteq> 0 then do { erun \<leftarrow> deref runs e; set_length e (rle_length erun - e_pos) runs } else Some runs);
     Some (b, runs) }"

text \<open>The removal of a range, for no replacements.\<close>

definition remove_range ::
    "'s :: len word \<Rightarrow> 's word \<Rightarrow> nat \<Rightarrow> 's word \<Rightarrow> nat \<Rightarrow> 's word \<Rightarrow> ('a, 's) rle \<Rightarrow> ('a, 's) rle option" where
  "remove_range start_index end_index b b_pos e e_pos r = do {
     let removed = end_index - start_index;
     let runs = rle_runs r;
     (b, b_pos, e_pos, runs) \<leftarrow>
       (if start_index \<noteq> 0 \<and> end_index \<noteq> rle_total_length r
        then do {
          previous \<leftarrow> previous_run b b_pos;
          prun \<leftarrow> deref runs previous;
          erun \<leftarrow> deref runs e;
          if rle_value prun = rle_value erun
          then do {
            runs \<leftarrow> set_length e (rle_length erun - (e_pos - (if b_pos \<noteq> 0 then b_pos else rle_length prun))) runs;
            Some (previous, 0, 0, runs) }
          else Some (b, b_pos, e_pos, runs) }
        else Some (b, b_pos, e_pos, runs));
     (b, runs) \<leftarrow> adjust_lengths b b_pos e e_pos runs;
     runs \<leftarrow> erase_range b e runs;
     Some \<lparr>rle_runs = runs, rle_total_length = rle_total_length r - removed\<rparr> }"

text \<open>Step 1: the run before the range and the run after it may go on with the value of the first and of
  the last replacement.\<close>

definition join_begin ::
    "('a, 's :: len) run list \<Rightarrow> 's word \<Rightarrow> 'a \<Rightarrow> nat \<Rightarrow> 's word \<Rightarrow> (nat \<times> 's word \<times> 's word) option" where
  "join_begin runs start_index front b b_pos =
     (if start_index \<noteq> 0
      then do {
        previous \<leftarrow> previous_run b b_pos;
        prun \<leftarrow> deref runs previous;
        Some (if rle_value prun = front then (previous, 0, if b_pos \<noteq> 0 then b_pos else rle_length prun)
              else (b, b_pos, 0)) }
      else Some (b, b_pos, 0))"

definition join_end ::
    "('a, 's :: len) run list \<Rightarrow> 's word \<Rightarrow> 's word \<Rightarrow> 'a \<Rightarrow> nat \<Rightarrow> 's word \<Rightarrow> (nat \<times> 's word \<times> 's word) option" where
  "join_end runs end_index tot lst e e_pos =
     (if end_index \<noteq> tot
      then do {
        erun \<leftarrow> deref runs e;
        Some (if rle_value erun = lst then (e + 1, 0, rle_length erun - e_pos) else (e, e_pos, 0)) }
      else Some (e, e_pos, 0))"

text \<open>Step 2: the trailer of a run that is split; step 3 is \<open>adjust_lengths\<close>.\<close>

definition split_run ::
    "('a, 's :: len) run list \<Rightarrow> nat \<Rightarrow> 's word \<Rightarrow> nat \<Rightarrow> 's word \<Rightarrow> ('s word \<times> ('a, 's) run option) option" where
  "split_run runs b b_pos e e_pos =
     (if b = e \<and> b_pos \<noteq> 0
      then do { brun \<leftarrow> deref runs b; Some (0, Some (brun\<lparr>rle_length := rle_length brun - e_pos\<rparr>)) }
      else Some (e_pos, None))"

text \<open>Steps 4 to 6: the replacements go into the space of the replaced runs as far as they fit; the rest of
  the space is removed, or room is made for the rest of the replacements and the trailer. The value
  \<open>dflt\<close> is that of a default-initialized run.\<close>

definition place_runs ::
    "'a \<Rightarrow> ('a, 's :: len) run list \<Rightarrow> ('a, 's) run option \<Rightarrow> nat \<Rightarrow> nat \<Rightarrow> ('a, 's) run list \<Rightarrow>
     ('a, 's) run list option" where
  "place_runs dflt replacements trailer b e runs = do {
     let available_space = (if b < e then e - b else 0);
     let required_space = length replacements + (if trailer \<noteq> None then 1 else 0);
     let begin_index = b;
     let direct = take (min available_space (length replacements)) replacements;
     let rest = drop (min available_space (length replacements)) replacements;
     (b, runs) \<leftarrow> copy_range direct b runs;
     if available_space \<ge> required_space then erase_range b e runs
     else (case trailer of
             Some t \<Rightarrow> do {
               runs \<leftarrow> insert_range b
                 (replicate (required_space - available_space) \<lparr>rle_value = dflt, rle_length = 0\<rparr>) runs;
               (b, runs) \<leftarrow> copy_range rest begin_index runs;
               (b, runs) \<leftarrow> copy_range [t] b runs;
               Some runs }
           | None \<Rightarrow> insert_range b rest runs) }"

text \<open>Step 7.\<close>

definition lengthen :: "nat \<Rightarrow> 's :: len word \<Rightarrow> ('a, 's) run list \<Rightarrow> ('a, 's) run list option" where
  "lengthen it n runs =
     (if n \<noteq> 0 then do { run \<leftarrow> deref runs it; set_length it (rle_length run + n) runs } else Some runs)"

definition replace_unchecked ::
    "'a \<Rightarrow> 's :: len word \<Rightarrow> 's word \<Rightarrow> ('a, 's) run list \<Rightarrow> ('a, 's) rle \<Rightarrow> ('a, 's) rle option" where
  "replace_unchecked dflt start_index end_index replacements r =
     (let runs = rle_runs r;
          (b, b_pos, tot) = rle_scan runs 0 0 start_index;
          (e, e_pos, _) = rle_scan runs b tot end_index
      in if replacements = [] then remove_range start_index end_index b b_pos e e_pos r
         else do {
           (b, b_pos, begin_additional_length) \<leftarrow> join_begin runs start_index (rle_value (hd replacements)) b b_pos;
           (e, e_pos, end_additional_length) \<leftarrow>
             join_end runs end_index (rle_total_length r) (rle_value (last replacements)) e e_pos;
           (e_pos, trailer) \<leftarrow> split_run runs b b_pos e e_pos;
           (b, runs) \<leftarrow> adjust_lengths b b_pos e e_pos runs;
           runs \<leftarrow> place_runs dflt replacements trailer b e runs;
           runs \<leftarrow> lengthen b begin_additional_length runs;
           runs \<leftarrow> lengthen (b + (length replacements + (if trailer \<noteq> None then 1 else 0)) - 1) end_additional_length runs;
           Some \<lparr>rle_runs = runs,
                 rle_total_length =
                   fold (\<lambda>run tot. tot + rle_length run) replacements (rle_total_length r - (end_index - start_index))\<rparr> })"

text \<open>The public operations throw \<^verbatim>\<open>std::out_of_range\<close> for a range that ends before it starts.\<close>

datatype rle_fault = Out_of_range | Undefined

definition rle_result :: "'x option \<Rightarrow> rle_fault + 'x" where
  "rle_result x = (case x of None \<Rightarrow> Inl Undefined | Some y \<Rightarrow> Inr y)"

definition check_indices :: "'s :: len word \<Rightarrow> 's word \<Rightarrow> ('a, 's) rle \<Rightarrow> rle_fault + 's word" where
  "check_indices start_index end_index r =
     (let end_index = (if end_index > rle_total_length r then rle_total_length r else end_index)
      in if start_index > end_index then Inl Out_of_range else Inr end_index)"

definition rle_replace ::
    "'a \<Rightarrow> 's :: len word \<Rightarrow> 's word \<Rightarrow> ('a, 's) run list \<Rightarrow> ('a, 's) rle \<Rightarrow> rle_fault + ('a, 's) rle" where
  "rle_replace dflt start_index end_index replacements r =
     (case check_indices start_index end_index r of
        Inl fault \<Rightarrow> Inl fault
      | Inr end_index \<Rightarrow> rle_result (replace_unchecked dflt start_index end_index replacements r))"

definition rle_replace_value ::
    "'a \<Rightarrow> 's :: len word \<Rightarrow> 's word \<Rightarrow> 'a \<Rightarrow> ('a, 's) rle \<Rightarrow> rle_fault + ('a, 's) rle" where
  "rle_replace_value dflt start_index end_index v r =
     (case check_indices start_index end_index r of
        Inl fault \<Rightarrow> Inl fault
      | Inr end_index \<Rightarrow>
          rle_result (replace_unchecked dflt start_index end_index
            [\<lparr>rle_value = v, rle_length = end_index - start_index\<rparr>] r))"

subsection \<open>Joining equal neighbours\<close>

text \<open>The inner loop of \<^verbatim>\<open>_compact\<close>: runs are joined to the one at \<open>ref\<close> or moved behind it.\<close>

function compact_join :: "nat \<Rightarrow> nat \<Rightarrow> ('a, 's :: len) run list \<Rightarrow> ('a, 's) run list" where
  "compact_join ref it runs =
     (if it < length runs
      then (if rle_value (runs ! ref) = rle_value (runs ! it)
            then compact_join ref (it + 1)
                   (runs[ref := (runs ! ref)\<lparr>rle_length := rle_length (runs ! ref) + rle_length (runs ! it)\<rparr>])
            else compact_join (ref + 1) (it + 1) (runs[ref + 1 := runs ! it]))
      else take (ref + 1) runs)"
  by pat_completeness auto
termination
  by (relation "measure (\<lambda>(ref, it, runs). length runs - it)") auto

function compact_find :: "nat \<Rightarrow> nat \<Rightarrow> ('a, 's :: len) run list \<Rightarrow> ('a, 's) run list" where
  "compact_find ref it runs =
     (if it < length runs
      then (if rle_value (runs ! ref) = rle_value (runs ! it)
            then compact_join ref (it + 1)
                   (runs[ref := (runs ! ref)\<lparr>rle_length := rle_length (runs ! ref) + rle_length (runs ! it)\<rparr>])
            else compact_find it (it + 1) runs)
      else runs)"
  by pat_completeness auto
termination
  by (relation "measure (\<lambda>(ref, it, runs). length runs - it)") auto

definition rle_compact :: "('a, 's :: len) rle \<Rightarrow> ('a, 's) rle" where
  "rle_compact r = (if rle_runs r = [] then r else r\<lparr>rle_runs := compact_find 0 1 (rle_runs r)\<rparr>)"

definition replace_values :: "'a \<Rightarrow> 'a \<Rightarrow> ('a, 's :: len) rle \<Rightarrow> ('a, 's) rle" where
  "replace_values old_value new_value r =
     rle_compact (r\<lparr>rle_runs :=
       map (\<lambda>run. if rle_value run = old_value then run\<lparr>rle_value := new_value\<rparr> else run) (rle_runs r)\<rparr>)"

text \<open>\<open>None\<close> is the violated expectation that a vector which grows is not empty.\<close>

definition resize_trailing_extent :: "'s :: len word \<Rightarrow> ('a, 's) rle \<Rightarrow> ('a, 's) rle option" where
  "resize_trailing_extent new_size r = do {
     let runs = rle_runs r;
     runs \<leftarrow>
       (if new_size = 0 then Some []
        else if new_size < rle_total_length r
        then (let (it, pos, _) = rle_scan runs 0 0 (new_size - 1)
              in do { runs \<leftarrow> set_length it (pos + 1) runs; erase_range (it + 1) (length runs) runs })
        else if new_size > rle_total_length r
        then (if runs = [] then None
              else set_length (length runs - 1) (rle_length (last runs) + (new_size - rle_total_length r)) runs)
        else Some runs);
     Some \<lparr>rle_runs = runs, rle_total_length = new_size\<rparr> }"

end
