(* ===== verification/RleLaws.thy ===== *)
theory RleLaws
  imports Rle
begin

text \<open>
  What a run-length encoded vector stands for, and that its operations are those of the plain list. The
  in-place algorithm of \<^verbatim>\<open>_replace_unchecked\<close> is first brought into a closed form over the runs before and
  after the range; both the meaning of the result and its canonical form are read off from there.
\<close>

subsection \<open>The list of a vector\<close>

definition run_list :: "('a, 's :: len) run \<Rightarrow> 'a list" where
  "run_list run = replicate (unat (rle_length run)) (rle_value run)"

definition expand :: "('a, 's :: len) run list \<Rightarrow> 'a list" where
  "expand runs = concat (map run_list runs)"

definition rle_list :: "('a, 's :: len) rle \<Rightarrow> 'a list" where
  "rle_list r = expand (rle_runs r)"

text \<open>The total length is that of all runs: in particular their sum does not wrap around.\<close>

definition rle_ok :: "('a, 's :: len) rle \<Rightarrow> bool" where
  "rle_ok r \<longleftrightarrow> unat (rle_total_length r) = length (rle_list r)"

text \<open>No run is empty and neighbours differ.\<close>

definition canonical :: "('a, 's :: len) run list \<Rightarrow> bool" where
  "canonical runs \<longleftrightarrow> list_all (\<lambda>run. rle_length run \<noteq> 0) runs \<and> distinct_adj (map rle_value runs)"

lemma length_run_list [simp]: "length (run_list run) = unat (rle_length run)"
  by (simp add: run_list_def)

lemma run_list_parts [simp]: "run_list (run\<lparr>rle_length := n\<rparr>) = replicate (unat n) (rle_value run)"
  by (simp add: run_list_def)

lemma expand_simps [simp]:
  "expand [] = []" "expand (run # runs) = run_list run @ expand runs" "expand (xs @ ys) = expand xs @ expand ys"
  by (simp_all add: expand_def)

lemma expand_split: "expand (take k runs) @ expand (drop k runs) = expand runs"
  by (simp flip: expand_simps(3))

lemma expand_length_le: "length (expand (take k runs)) \<le> length (expand runs)"
  by (simp flip: expand_split [of k runs])

lemma rle_ok_fits: "rle_ok (r :: ('a, 's :: len) rle) \<Longrightarrow> length (expand (rle_runs r)) < 2 ^ LENGTH('s)"
  using unsigned_less [of "rle_total_length r", where ?'a = nat] by (simp add: rle_ok_def rle_list_def)

subsection \<open>Positions\<close>

text \<open>Index \<open>i\<close> of the list is at position \<open>p\<close> of run \<open>k\<close>.\<close>

definition positioned :: "('a, 's :: len) run list \<Rightarrow> nat \<Rightarrow> nat \<Rightarrow> 's word \<Rightarrow> bool" where
  "positioned runs i k p \<longleftrightarrow>
     k \<le> length runs \<and> length (expand (take k runs)) + unat p = i \<and>
     (if k < length runs then unat p < unat (rle_length (runs ! k)) else p = 0)"

lemma scan_loop_positions:
  fixes rest :: "('a, 's :: len) run list"
  assumes "unat tot + length (expand rest) < 2 ^ LENGTH('s)" and "tot \<le> index"
  shows "\<exists>k p tot'. scan_loop rest it tot index = (it + k, p, tot') \<and> k \<le> length rest \<and>
    unat tot' = unat tot + length (expand (take k rest)) \<and>
    (if k < length rest then unat p < unat (rle_length (rest ! k)) \<and> unat index = unat tot' + unat p
     else p = 0 \<and> unat tot + length (expand rest) \<le> unat index)"
  using assms
proof (induction rest arbitrary: it tot)
  case Nil
  then show ?case by (simp add: word_le_nat_alt)
next
  case (Cons run rest)
  let ?new = "tot + rle_length run"
  have new: "unat ?new = unat tot + unat (rle_length run)"
    using Cons.prems(1) by (simp add: unat_plus_simple word_less_nat_alt unat_word_ariths)
  show ?case
  proof (cases "?new > index")
    case True
    have "unat (index - tot) = unat index - unat tot" using Cons.prems(2) by (simp add: unat_sub)
    with True Cons.prems(2) new show ?thesis
      by (intro exI [of _ 0] exI [of _ "index - tot"] exI [of _ tot]) (auto simp: word_order_nat Let_def)
  next
    case False
    then have "?new \<le> index" by simp
    from Cons.IH [OF _ this, of "Suc it"] Cons.prems(1) new obtain k p tot' where
      k: "scan_loop rest (Suc it) ?new index = (Suc it + k, p, tot')" "k \<le> length rest"
        "unat tot' = unat ?new + length (expand (take k rest))"
        "if k < length rest then unat p < unat (rle_length (rest ! k)) \<and> unat index = unat tot' + unat p
         else p = 0 \<and> unat ?new + length (expand rest) \<le> unat index" by auto
    with False new show ?thesis by (intro exI [of _ "Suc k"]) (auto simp: Let_def split: if_splits)
  qed
qed

lemma scan_next:
  fixes runs :: "('a, 's :: len) run list"
  assumes "positioned runs i k p" and "unat tot = length (expand (take k runs))" and "i \<le> unat index"
    and "unat index \<le> length (expand runs)" and "length (expand runs) < 2 ^ LENGTH('s)"
  shows "\<exists>k' p' tot'. rle_scan runs k tot index = (k', p', tot') \<and> positioned runs (unat index) k' p' \<and>
    unat tot' = length (expand (take k' runs)) \<and> k \<le> k' \<and> (k = k' \<longrightarrow> p \<le> p')"
proof -
  have k: "k \<le> length runs" "length (expand (take k runs)) + unat p = i" using assms(1) by (simp_all add: positioned_def)
  have e: "length (expand (take k runs)) + length (expand (drop k runs)) = length (expand runs)"
    by (simp flip: expand_split [of k runs])
  have "tot \<le> index" using k assms(2,3) by (simp add: word_le_nat_alt)
  with scan_loop_positions [of tot "drop k runs" index k] assms(2,5) e obtain n p' tot' where
    s: "scan_loop (drop k runs) k tot index = (k + n, p', tot')" "n \<le> length (drop k runs)"
      "unat tot' = unat tot + length (expand (take n (drop k runs)))"
      "if n < length (drop k runs) then unat p' < unat (rle_length (drop k runs ! n)) \<and> unat index = unat tot' + unat p'
       else p' = 0 \<and> unat tot + length (expand (drop k runs)) \<le> unat index" by auto
  have t: "unat tot' = length (expand (take (k + n) runs))" using s(3) assms(2) by (simp add: take_add)
  have pos: "positioned runs (unat index) (k + n) p'"
    using s(2,4) t assms(2,4) k(1) e by (auto simp: positioned_def split: if_splits)
  moreover have "n = 0 \<Longrightarrow> p \<le> p'"
    using pos k(2) assms(3) by (simp add: positioned_def word_le_nat_alt)
  ultimately show ?thesis using s(1) t by (auto simp: rle_scan_def)
qed

lemma scan_first:
  fixes runs :: "('a, 's :: len) run list"
  assumes "unat index \<le> length (expand runs)" and "length (expand runs) < 2 ^ LENGTH('s)"
  shows "\<exists>k p tot. rle_scan runs 0 0 index = (k, p, tot) \<and> positioned runs (unat index) k p \<and>
    unat tot = length (expand (take k runs))"
proof -
  obtain k p tot where s: "scan_loop runs 0 0 index = (0 + k, p, tot)" "k \<le> length runs"
      "unat tot = unat (0 :: 's word) + length (expand (take k runs))"
      "if k < length runs then unat p < unat (rle_length (runs ! k)) \<and> unat index = unat tot + unat p
       else p = 0 \<and> unat (0 :: 's word) + length (expand runs) \<le> unat index"
    using scan_loop_positions [of 0 runs index 0] assms(2) by auto
  then have "positioned runs (unat index) k p" using assms(1) by (auto simp: positioned_def split: if_splits)
  with s(1,3) show ?thesis by (simp add: rle_scan_def)
qed

text \<open>The runs before a position and those from it on.\<close>

definition head_runs :: "nat \<Rightarrow> 's :: len word \<Rightarrow> ('a, 's) run list \<Rightarrow> ('a, 's) run list" where
  "head_runs k p runs = take k runs @ (if p \<noteq> 0 then [(runs ! k)\<lparr>rle_length := p\<rparr>] else [])"

definition tail_runs :: "nat \<Rightarrow> 's :: len word \<Rightarrow> ('a, 's) run list \<Rightarrow> ('a, 's) run list" where
  "tail_runs k p runs =
     (if k < length runs then (runs ! k)\<lparr>rle_length := rle_length (runs ! k) - p\<rparr> # drop (Suc k) runs else [])"

lemma positioned_inside: "positioned runs i k p \<Longrightarrow> k < length runs \<longleftrightarrow> i < length (expand runs)"
proof -
  assume pos: "positioned runs i k p"
  have e: "expand runs = expand (take k runs) @ expand (drop k runs)" by (simp add: expand_split)
  show ?thesis
  proof (cases "k < length runs")
    case True
    have "length (expand runs) = length (expand (take k runs)) + unat (rle_length (runs ! k)) + length (expand (drop (Suc k) runs))"
      by (subst e) (simp flip: Cons_nth_drop_Suc [OF True])
    with True pos show ?thesis by (simp add: positioned_def)
  qed (use pos in \<open>auto simp: positioned_def\<close>)
qed

lemma expand_head: "positioned runs i k p \<Longrightarrow> expand (head_runs k p runs) = take i (expand runs)"
proof -
  assume pos: "positioned runs i k p"
  have "expand runs = expand (take k runs) @ expand (drop k runs)" by (simp add: expand_split)
  moreover have "take (unat p) (expand (drop k runs)) = replicate (unat p) (rle_value (runs ! k))" if "p \<noteq> 0"
    using that pos Cons_nth_drop_Suc [of k runs, symmetric]
    by (auto simp: positioned_def run_list_def min_def split: if_splits)
  ultimately show ?thesis using pos by (auto simp: head_runs_def positioned_def)
qed

lemma expand_tail: "positioned runs i k p \<Longrightarrow> expand (tail_runs k p runs) = drop i (expand runs)"
proof -
  assume pos: "positioned runs i k p"
  have e: "expand runs = expand (take k runs) @ expand (drop k runs)" by (simp add: expand_split)
  show ?thesis
  proof (cases "k < length runs")
    case True
    then have p: "unat p < unat (rle_length (runs ! k))" using pos by (simp add: positioned_def)
    have u: "unat (rle_length (runs ! k) - p) = unat (rle_length (runs ! k)) - unat p"
      using p by (simp add: unat_sub word_le_nat_alt)
    have "drop i (expand runs) = drop (unat p) (expand (drop k runs))"
      using pos by (subst e) (auto simp: positioned_def)
    then show ?thesis using True p u Cons_nth_drop_Suc [OF True, symmetric]
      by (simp add: tail_runs_def run_list_def)
  next
    case False
    then show ?thesis using pos by (auto simp: positioned_def tail_runs_def)
  qed
qed

subsection \<open>The steps of a replacement\<close>

lemma length_head: "k \<le> length runs \<Longrightarrow> length (head_runs k p runs) = (if p \<noteq> 0 then k + 1 else k)"
  by (simp add: head_runs_def)

lemma head_exact [simp]: "head_runs k 0 runs = take k runs"
  by (simp add: head_runs_def)

lemma tail_exact [simp]: "k \<le> length runs \<Longrightarrow> tail_runs k 0 runs = drop k runs"
  by (auto simp: tail_runs_def Cons_nth_drop_Suc)

text \<open>The last run before a position, as \<^verbatim>\<open>previous\<close> finds it.\<close>

lemma previous_run_last:
  assumes "positioned runs i k p" and "head_runs k p runs \<noteq> []"
  shows "\<exists>j < length runs. previous_run k p = Some j \<and> deref runs j = Some (runs ! j) \<and> j \<le> k \<and>
    butlast (head_runs k p runs) = take j runs \<and> rle_value (last (head_runs k p runs)) = rle_value (runs ! j) \<and>
    rle_length (last (head_runs k p runs)) = (if p \<noteq> 0 then p else rle_length (runs ! j))"
proof (cases "p = 0")
  case True
  with assms have "0 < k" "k \<le> length runs" by (auto simp: positioned_def)
  moreover from this have "last (take k runs) = runs ! (k - 1)" by (subst last_conv_nth) auto
  ultimately show ?thesis using True
    by (intro exI [of _ "k - 1"]) (auto simp: previous_run_def prev_it_def deref_def butlast_take)
next
  case False
  with assms have "k < length runs" by (auto simp: positioned_def split: if_splits)
  with False show ?thesis by (intro exI [of _ k]) (auto simp: previous_run_def deref_def head_runs_def)
qed

lemma middle_closed:
  assumes "b \<le> e" and "e \<le> length runs" and "bp \<noteq> 0 \<Longrightarrow> b < length runs" and "ep \<noteq> 0 \<Longrightarrow> e < length runs"
  shows "\<exists>ep' trailer b' runs'. split_run runs b bp e ep = Some (ep', trailer) \<and>
    adjust_lengths b bp e ep' runs = Some (b', runs') \<and> b' = length (head_runs b bp runs) \<and>
    take b' runs' = head_runs b bp runs \<and> length runs' = length runs \<and> b' \<le> length runs \<and>
    (case trailer of None \<Rightarrow> [] | Some t \<Rightarrow> [t]) @ drop (max b' e) runs' = tail_runs e ep runs \<and>
    (trailer \<noteq> None \<longrightarrow> b = e \<and> bp \<noteq> 0 \<and> e \<le> b')"
proof (cases "b = e \<and> bp \<noteq> 0")
  case True
  with assms show ?thesis
    by (auto simp: split_run_def adjust_lengths_def deref_def set_length_def head_runs_def tail_runs_def
        take_Suc_conv_app_nth)
next
  case False
  then have "split_run runs b bp e ep = Some (ep, None)" by (auto simp: split_run_def)
  moreover have "tail_runs e ep runs = drop e (if ep \<noteq> 0 then runs[e := (runs ! e)\<lparr>rle_length := rle_length (runs ! e) - ep\<rparr>] else runs)"
    using assms(2,4) by (auto simp: tail_runs_def Cons_nth_drop_Suc simp flip: Cons_nth_drop_Suc)
  ultimately show ?thesis using False assms
    by (cases "bp = 0"; cases "ep = 0")
      (auto simp: adjust_lengths_def deref_def set_length_def head_runs_def take_Suc_conv_app_nth max_def
        drop_update_swap)
qed

lemma place_closed:
  assumes "b \<le> length runs" and "e \<le> length runs" and "trailer \<noteq> None \<Longrightarrow> e \<le> b" and "reps \<noteq> []"
  shows "place_runs dflt reps trailer b e runs =
    Some (take b runs @ reps @ (case trailer of None \<Rightarrow> [] | Some t \<Rightarrow> [t]) @ drop (max b e) runs)"
proof (cases "b < e")
  case True
  with assms have "trailer = None" by (cases trailer) auto
  with True assms show ?thesis
    by (cases "length reps \<le> e - b")
      (auto simp: place_runs_def copy_range_def erase_range_def insert_range_def max_def Let_def)
next
  case False
  then show ?thesis using assms
    by (cases trailer) (auto simp: place_runs_def copy_range_def erase_range_def insert_range_def max_def Let_def)
qed

lemma lengthen_closed: "i < length runs \<Longrightarrow>
  lengthen i n runs = Some (runs[i := (runs ! i)\<lparr>rle_length := rle_length (runs ! i) + n\<rparr>])"
  by (auto simp: lengthen_def deref_def set_length_def)

text \<open>What joining takes away from the runs before and after the range, and the length it adds to the
  replacements.\<close>

definition join_last :: "bool \<Rightarrow> 'a \<Rightarrow> ('a, 's :: len) run list \<Rightarrow> ('a, 's) run list \<times> 's word" where
  "join_last c v runs = (if c \<and> rle_value (last runs) = v then (butlast runs, rle_length (last runs)) else (runs, 0))"

definition join_first :: "bool \<Rightarrow> 'a \<Rightarrow> ('a, 's :: len) run list \<Rightarrow> ('a, 's) run list \<times> 's word" where
  "join_first c v runs = (if c \<and> rle_value (hd runs) = v then (tl runs, rle_length (hd runs)) else (runs, 0))"

definition lengthen_first :: "'s :: len word \<Rightarrow> ('a, 's) run list \<Rightarrow> ('a, 's) run list" where
  "lengthen_first n runs = runs[0 := (hd runs)\<lparr>rle_length := rle_length (hd runs) + n\<rparr>]"

definition lengthen_last :: "'s :: len word \<Rightarrow> ('a, 's) run list \<Rightarrow> ('a, 's) run list" where
  "lengthen_last n runs = runs[length runs - 1 := (last runs)\<lparr>rle_length := rle_length (last runs) + n\<rparr>]"

lemma head_not_Nil: "positioned runs i k p \<Longrightarrow> i \<noteq> 0 \<Longrightarrow> head_runs k p runs \<noteq> []"
  by (cases "k = 0") (auto simp: positioned_def head_runs_def split: if_splits)

lemma join_begin_closed:
  assumes "positioned runs (unat start_index) b bp"
  shows "\<exists>b' bp'. join_begin runs start_index front b bp =
      Some (b', bp', snd (join_last (start_index \<noteq> 0) front (head_runs b bp runs))) \<and>
    head_runs b' bp' runs = fst (join_last (start_index \<noteq> 0) front (head_runs b bp runs)) \<and> b' \<le> b \<and>
    (bp' \<noteq> 0 \<longrightarrow> b' = b \<and> bp' = bp)"
proof (cases "start_index = 0")
  case False
  then have "head_runs b bp runs \<noteq> []" using assms by (simp add: head_not_Nil unat_eq_0)
  from previous_run_last [OF assms this] obtain j where "previous_run b bp = Some j" "deref runs j = Some (runs ! j)"
    "j \<le> b" "butlast (head_runs b bp runs) = take j runs" "rle_value (last (head_runs b bp runs)) = rle_value (runs ! j)"
    "rle_length (last (head_runs b bp runs)) = (if bp \<noteq> 0 then bp else rle_length (runs ! j))" by blast
  then show ?thesis by (auto simp: join_begin_def join_last_def)
qed (simp add: join_begin_def join_last_def)

lemma join_end_closed:
  assumes "positioned runs (unat end_index) e ep" and "unat tot = length (expand runs)"
  shows "\<exists>e' ep'. join_end runs end_index tot lst e ep =
      Some (e', ep', snd (join_first (end_index \<noteq> tot) lst (tail_runs e ep runs))) \<and>
    tail_runs e' ep' runs = fst (join_first (end_index \<noteq> tot) lst (tail_runs e ep runs)) \<and>
    e \<le> e' \<and> e' \<le> length runs \<and> (ep' \<noteq> 0 \<longrightarrow> e' = e \<and> ep' = ep) \<and>
    (e' = e \<longrightarrow> snd (join_first (end_index \<noteq> tot) lst (tail_runs e ep runs)) = 0)"
proof (cases "end_index = tot")
  case False
  have "e < length runs"
  proof (rule ccontr)
    assume "\<not> e < length runs"
    then have "unat end_index = unat tot" using assms by (auto simp: positioned_def)
    then show False using False by (simp add: word_unat_eq_iff)
  qed
  then show ?thesis by (auto simp: join_end_def join_first_def deref_def tail_runs_def Cons_nth_drop_Suc)
qed (use assms in \<open>simp add: join_end_def join_first_def positioned_def\<close>)

lemma lengthen_none [simp]: "lengthen i 0 runs = Some runs"
  by (simp add: lengthen_def)

lemma lengthen_first_none [simp]: "reps \<noteq> [] \<Longrightarrow> lengthen_first 0 reps = reps"
  by (cases reps) (simp_all add: lengthen_first_def)

lemma lengthen_last_none [simp]: "reps \<noteq> [] \<Longrightarrow> lengthen_last 0 reps = reps"
  by (cases reps rule: rev_cases) (simp_all add: lengthen_last_def)

lemma lengthen_first_not_Nil [simp]: "lengthen_first n reps = [] \<longleftrightarrow> reps = []"
  by (simp add: lengthen_first_def)

lemma lengthen_placed_first:
  "reps \<noteq> [] \<Longrightarrow> lengthen (length xs) n (xs @ reps @ ys) = Some (xs @ lengthen_first n reps @ ys)"
  by (cases reps) (simp_all add: lengthen_closed lengthen_first_def nth_append)

lemma lengthen_placed_last:
  "reps \<noteq> [] \<Longrightarrow> lengthen (length xs + length reps - 1) n (xs @ reps @ ys) = Some (xs @ lengthen_last n reps @ ys)"
  by (cases reps rule: rev_cases) (simp_all add: lengthen_closed lengthen_last_def nth_append list_update_append)

lemma scanned:
  fixes r :: "('a, 's :: len) rle"
  assumes ok: "rle_ok r" and "unat start_index \<le> unat end_index" and "unat end_index \<le> length (rle_list r)"
  obtains b bp t e ep t' where "rle_scan (rle_runs r) 0 0 start_index = (b, bp, t)" "positioned (rle_runs r) (unat start_index) b bp"
    "rle_scan (rle_runs r) b t end_index = (e, ep, t')" "positioned (rle_runs r) (unat end_index) e ep"
    "b \<le> e" "b = e \<longrightarrow> bp \<le> ep"
proof -
  have fits: "length (expand (rle_runs r)) < 2 ^ LENGTH('s)" by (rule rle_ok_fits [OF ok])
  have le: "unat end_index \<le> length (expand (rle_runs r))" using assms(3) by (simp add: rle_list_def)
  obtain b bp t where b: "rle_scan (rle_runs r) 0 0 start_index = (b, bp, t)" "positioned (rle_runs r) (unat start_index) b bp"
    "unat t = length (expand (take b (rle_runs r)))" using scan_first [OF _ fits, of start_index] assms(2) le by auto
  from scan_next [OF b(2,3) assms(2) le fits] b that show ?thesis by blast
qed

text \<open>The closed form of a replacement.\<close>

lemma replace_closed:
  fixes r :: "('a, 's :: len) rle"
  defines "runs \<equiv> rle_runs r"
  assumes ok: "rle_ok r" and "unat start_index \<le> unat end_index" and "unat end_index \<le> length (rle_list r)" and "reps \<noteq> []"
  shows "\<exists>b bp e ep. positioned runs (unat start_index) b bp \<and> positioned runs (unat end_index) e ep \<and>
    replace_unchecked dflt start_index end_index reps r =
      Some \<lparr>rle_runs =
              fst (join_last (start_index \<noteq> 0) (rle_value (hd reps)) (head_runs b bp runs)) @
              lengthen_last (snd (join_first (end_index \<noteq> rle_total_length r) (rle_value (last reps)) (tail_runs e ep runs)))
                (lengthen_first (snd (join_last (start_index \<noteq> 0) (rle_value (hd reps)) (head_runs b bp runs))) reps) @
              fst (join_first (end_index \<noteq> rle_total_length r) (rle_value (last reps)) (tail_runs e ep runs)),
            rle_total_length =
              fold (\<lambda>run tot. tot + rle_length run) reps (rle_total_length r - (end_index - start_index))\<rparr>"
proof -
  have tot: "unat (rle_total_length r) = length (expand runs)" using ok by (simp add: rle_ok_def rle_list_def runs_def)
  obtain b bp t e ep t' where b: "rle_scan runs 0 0 start_index = (b, bp, t)" "positioned runs (unat start_index) b bp" and
    e: "rle_scan runs b t end_index = (e, ep, t')" "positioned runs (unat end_index) e ep" "b \<le> e" "b = e \<longrightarrow> bp \<le> ep"
    using scanned [OF assms(2-4)] unfolding runs_def by blast
  let ?H = "join_last (start_index \<noteq> 0) (rle_value (hd reps)) (head_runs b bp runs)"
  let ?T = "join_first (end_index \<noteq> rle_total_length r) (rle_value (last reps)) (tail_runs e ep runs)"
  obtain b1 bp1 where jb: "join_begin runs start_index (rle_value (hd reps)) b bp = Some (b1, bp1, snd ?H)"
    "head_runs b1 bp1 runs = fst ?H" "b1 \<le> b" "bp1 \<noteq> 0 \<longrightarrow> b1 = b \<and> bp1 = bp" using join_begin_closed [OF b(2)] by blast
  obtain e1 ep1 where je: "join_end runs end_index (rle_total_length r) (rle_value (last reps)) e ep = Some (e1, ep1, snd ?T)"
    "tail_runs e1 ep1 runs = fst ?T" "e \<le> e1" "e1 \<le> length runs" "ep1 \<noteq> 0 \<longrightarrow> e1 = e \<and> ep1 = ep" "e1 = e \<longrightarrow> snd ?T = 0"
    using join_end_closed [OF e(2) tot] by blast
  have "bp1 \<noteq> 0 \<Longrightarrow> b1 < length runs" "ep1 \<noteq> 0 \<Longrightarrow> e1 < length runs"
    using jb(4) je(5) b(2) e(2) by (auto simp: positioned_def split: if_splits)
  with middle_closed [of b1 e1 runs bp1 ep1] jb(3) je(3,4) e(3) obtain ep2 trailer b2 runs2 where
    m: "split_run runs b1 bp1 e1 ep1 = Some (ep2, trailer)" "adjust_lengths b1 bp1 e1 ep2 runs = Some (b2, runs2)"
      "b2 = length (fst ?H)" "take b2 runs2 = fst ?H" "length runs2 = length runs" "b2 \<le> length runs"
      "(case trailer of None \<Rightarrow> [] | Some t \<Rightarrow> [t]) @ drop (max b2 e1) runs2 = fst ?T"
      "trailer \<noteq> None \<longrightarrow> b1 = e1 \<and> bp1 \<noteq> 0 \<and> e1 \<le> b2" by (auto simp: jb(2) je(2))
  have p: "place_runs dflt reps trailer b2 e1 runs2 = Some (fst ?H @ reps @ fst ?T)"
    using place_closed [of b2 runs2 e1 trailer reps dflt] m je(4) assms(5) by auto
  have f: "lengthen b2 (snd ?H) (fst ?H @ reps @ fst ?T) = Some (fst ?H @ lengthen_first (snd ?H) reps @ fst ?T)"
    using lengthen_placed_first [OF assms(5)] m(3) by simp
  have l: "lengthen (b2 + (length reps + (if trailer \<noteq> None then 1 else 0)) - 1) (snd ?T)
      (fst ?H @ lengthen_first (snd ?H) reps @ fst ?T) =
      Some (fst ?H @ lengthen_last (snd ?T) (lengthen_first (snd ?H) reps) @ fst ?T)"
  proof (cases trailer)
    case None
    with m(3) assms(5) show ?thesis
      using lengthen_placed_last [of "lengthen_first (snd ?H) reps" "fst ?H" "snd ?T" "fst ?T"]
      by (simp add: lengthen_first_def)
  next
    case (Some t)
    with m(8) jb(3,4) je(3,6) e(3) have "snd ?T = 0" by auto
    then show ?thesis using assms(5) by simp
  qed
  have "replace_unchecked dflt start_index end_index reps r =
      Some \<lparr>rle_runs = fst ?H @ lengthen_last (snd ?T) (lengthen_first (snd ?H) reps) @ fst ?T,
            rle_total_length =
              fold (\<lambda>run tot. tot + rle_length run) reps (rle_total_length r - (end_index - start_index))\<rparr>"
    using l by (simp add: replace_unchecked_def b(1) e(1) assms(5) jb(1) je(1) m(1,2) p f flip: runs_def)
  with b(2) e(2) show ?thesis by blast
qed

text \<open>The closed form of a removal.\<close>

definition join_gap :: "bool \<Rightarrow> ('a, 's :: len) run list \<Rightarrow> ('a, 's) run list \<Rightarrow> ('a, 's) run list" where
  "join_gap c xs ys =
     (if c \<and> rle_value (last xs) = rle_value (hd ys) then butlast xs @ lengthen_first (rle_length (last xs)) ys else xs @ ys)"

lemma remove_closed:
  assumes b: "positioned runs (unat start_index) b bp" and e: "positioned runs (unat end_index) e ep"
    and "b \<le> e" and tot: "unat (rle_total_length r) = length (expand runs)" and runs: "rle_runs r = runs"
  shows "remove_range start_index end_index b bp e ep r =
    Some \<lparr>rle_runs = join_gap (start_index \<noteq> 0 \<and> end_index \<noteq> rle_total_length r) (head_runs b bp runs) (tail_runs e ep runs),
          rle_total_length = rle_total_length r - (end_index - start_index)\<rparr>"
proof -
  have le: "e \<le> length runs" "ep \<noteq> 0 \<Longrightarrow> e < length runs" "bp \<noteq> 0 \<Longrightarrow> b < length runs"
    using b e by (auto simp: positioned_def split: if_splits)
  have inside: "e < length runs" if "end_index \<noteq> rle_total_length r"
    using that e tot by (auto simp: positioned_def word_unat_eq_iff split: if_splits)
  have plain: "\<exists>b' runs'. adjust_lengths b bp e ep runs = Some (b', runs') \<and>
      erase_range b' e runs' = Some (head_runs b bp runs @ tail_runs e ep runs)" if "\<not> (b = e \<and> bp \<noteq> 0)"
  proof -
    have "split_run runs b bp e ep = Some (ep, None)" using that by (auto simp: split_run_def)
    with middle_closed [OF assms(3) le(1), of bp ep] le obtain b' runs' where m: "adjust_lengths b bp e ep runs = Some (b', runs')"
      "take b' runs' = head_runs b bp runs" "length runs' = length runs" "drop (max b' e) runs' = tail_runs e ep runs"
      "b' = length (head_runs b bp runs)" by auto
    have "b' \<le> e" using that assms(3) le m(5) by (auto simp: length_head split: if_splits)
    then show ?thesis using m le(1) by (simp add: erase_range_def max_def)
  qed
  have st: "start_index \<noteq> 0" if "bp \<noteq> 0" using that b by (auto simp: positioned_def word_unat_eq_iff)
  show ?thesis
  proof (cases "start_index \<noteq> 0 \<and> end_index \<noteq> rle_total_length r")
    case True
    then have ne: "head_runs b bp runs \<noteq> []" using b by (simp add: head_not_Nil unat_eq_0)
    from previous_run_last [OF b ne] obtain j where j: "j < length runs" "previous_run b bp = Some j"
      "deref runs j = Some (runs ! j)" "j \<le> b" "butlast (head_runs b bp runs) = take j runs"
      "rle_value (last (head_runs b bp runs)) = rle_value (runs ! j)"
      "rle_length (last (head_runs b bp runs)) = (if bp \<noteq> 0 then bp else rle_length (runs ! j))" by blast
    have d: "deref runs e = Some (runs ! e)" "hd (tail_runs e ep runs) = (runs ! e)\<lparr>rle_length := rle_length (runs ! e) - ep\<rparr>"
      using inside True by (simp_all add: deref_def tail_runs_def)
    show ?thesis
    proof (cases "rle_value (runs ! j) = rle_value (runs ! e)")
      case eq: True
      let ?runs = "runs[e := (runs ! e)\<lparr>rle_length := rle_length (runs ! e) - (ep - rle_length (last (head_runs b bp runs)))\<rparr>]"
      have "take j ?runs @ drop e ?runs = butlast (head_runs b bp runs) @
          lengthen_first (rle_length (last (head_runs b bp runs))) (tail_runs e ep runs)"
        using inside True j(4,5) assms(3)
        by (simp add: tail_runs_def lengthen_first_def flip: Cons_nth_drop_Suc)
      then show ?thesis using True eq j d inside assms(3) le
        by (auto simp: remove_range_def runs set_length_def adjust_lengths_def erase_range_def join_gap_def)
    next
      case False
      have "\<not> (b = e \<and> bp \<noteq> 0)" using False j(2) by (auto simp: previous_run_def split: if_splits)
      from plain [OF this] show ?thesis using True False j d
        by (auto simp: remove_range_def runs join_gap_def)
    qed
  next
    case False
    have "\<not> (b = e \<and> bp \<noteq> 0)"
      using False st le(3) positioned_inside [OF e] tot by auto
    from plain [OF this] show ?thesis
      by (auto simp: remove_range_def runs join_gap_def if_not_P [OF False]) (use False in simp)
  qed
qed

subsection \<open>The canonical form\<close>

lemma canonical_Nil [simp]: "canonical []"
  by (simp add: canonical_def)

lemma canonical_append:
  "canonical (xs @ ys) \<longleftrightarrow>
   canonical xs \<and> canonical ys \<and> (xs = [] \<or> ys = [] \<or> rle_value (last xs) \<noteq> rle_value (hd ys))"
  by (auto simp: canonical_def distinct_adj_append_iff last_map hd_map)

lemma canonical_take_drop: "canonical runs \<Longrightarrow> canonical (take k runs) \<and> canonical (drop k runs)"
  using canonical_append [of "take k runs" "drop k runs"] by simp

lemma canonical_same:
  "map rle_value xs = map rle_value ys \<Longrightarrow> list_all (\<lambda>run. rle_length run \<noteq> 0) xs \<Longrightarrow> canonical ys \<Longrightarrow> canonical xs"
  by (simp add: canonical_def)

lemma expand_Nil_iff: "canonical runs \<Longrightarrow> expand runs = [] \<longleftrightarrow> runs = []"
  by (cases runs) (auto simp: canonical_def run_list_def unat_eq_0)

lemma canonical_head:
  assumes "canonical runs" and "positioned runs i k p"
  shows "canonical (head_runs k p runs)"
proof (cases "p = 0")
  case False
  with assms have k: "k < length runs" by (auto simp: positioned_def split: if_splits)
  have "canonical (take (Suc k) runs)" using assms(1) canonical_take_drop by blast
  then show ?thesis using k False
    by (intro canonical_same [of "head_runs k p runs" "take (Suc k) runs"])
      (auto simp: head_runs_def take_Suc_conv_app_nth canonical_def list_all_iff)
qed (use assms canonical_take_drop in auto)

lemma canonical_tail:
  assumes "canonical runs" and "positioned runs i k p"
  shows "canonical (tail_runs k p runs)"
proof (cases "k < length runs")
  case True
  have "canonical (drop k runs)" using assms(1) canonical_take_drop by blast
  moreover have "rle_length (runs ! k) - p \<noteq> 0" using True assms(2) by (auto simp: positioned_def)
  ultimately show ?thesis using True Cons_nth_drop_Suc [OF True, symmetric]
    by (intro canonical_same [of "tail_runs k p runs" "drop k runs"])
      (auto simp: tail_runs_def canonical_def list_all_iff)
qed (simp add: tail_runs_def)

subsection \<open>What a replacement means\<close>

lemma expand_lengthen_first:
  "reps \<noteq> [] \<Longrightarrow> unat n + length (expand reps) < 2 ^ LENGTH('s) \<Longrightarrow>
   expand (lengthen_first (n :: 's :: len word) reps) = replicate (unat n) (rle_value (hd reps)) @ expand reps"
  by (cases reps) (auto simp: lengthen_first_def run_list_def unat_word_ariths add.commute simp flip: replicate_add)

lemma expand_lengthen_last:
  "reps \<noteq> [] \<Longrightarrow> unat n + length (expand reps) < 2 ^ LENGTH('s) \<Longrightarrow>
   expand (lengthen_last (n :: 's :: len word) reps) = expand reps @ replicate (unat n) (rle_value (last reps))"
  by (cases reps rule: rev_cases)
    (auto simp: lengthen_last_def run_list_def unat_word_ariths add.commute simp flip: replicate_add)

lemma lengthen_values [simp]:
  "map rle_value (lengthen_first n reps) = map rle_value reps" "map rle_value (lengthen_last n reps) = map rle_value reps"
  by (cases reps; simp add: lengthen_first_def) (cases reps rule: rev_cases; simp add: lengthen_last_def)

lemma map_ends: "map f xs = map f ys \<Longrightarrow> ys \<noteq> [] \<Longrightarrow> xs \<noteq> [] \<and> f (hd xs) = f (hd ys) \<and> f (last xs) = f (last ys)"
  by (metis hd_map last_map map_is_Nil_conv)

lemma lengthened:
  fixes reps :: "('a, 's :: len) run list"
  assumes ne: "reps \<noteq> []" and fits: "unat n + unat m + length (expand reps) < 2 ^ LENGTH('s)"
  defines "ys \<equiv> lengthen_last m (lengthen_first n reps)"
  shows "expand ys = replicate (unat n) (rle_value (hd reps)) @ expand reps @ replicate (unat m) (rle_value (last reps))"
    and "map rle_value ys = map rle_value reps" and "canonical reps \<Longrightarrow> canonical ys"
proof -
  have f: "expand (lengthen_first n reps) = replicate (unat n) (rle_value (hd reps)) @ expand reps"
    using fits ne by (intro expand_lengthen_first) auto
  have "rle_value (last (lengthen_first n reps)) = rle_value (last reps)"
    using lengthen_values(1) [of n reps] ne by (metis last_map lengthen_first_not_Nil)
  then show "expand ys = replicate (unat n) (rle_value (hd reps)) @ expand reps @ replicate (unat m) (rle_value (last reps))"
    unfolding ys_def using expand_lengthen_last [of "lengthen_first n reps" m] f fits ne by simp
  show vs: "map rle_value ys = map rle_value reps" by (simp add: ys_def)
  assume c: "canonical reps"
  have nz: "x + w \<noteq> 0" if "x \<noteq> 0" "unat w + unat x < 2 ^ LENGTH('s)" for x w :: "'s word"
  proof -
    have "unat (x + w) = unat x + unat w" using that(2) by (simp add: unat_word_ariths add.commute)
    then show ?thesis using that(1) by (metis add_is_0 unat_eq_0)
  qed
  have "list_all (\<lambda>run. rle_length run \<noteq> 0) (lengthen_first n reps)"
    using c ne fits nz [of "rle_length (hd reps)" n] by (cases reps) (auto simp: canonical_def lengthen_first_def)
  then have "list_all (\<lambda>run. rle_length run \<noteq> 0) ys"
    using ne arg_cong [OF f, of length] fits nz [of "rle_length (last (lengthen_first n reps))" m]
    by (cases "lengthen_first n reps" rule: rev_cases) (auto simp: ys_def lengthen_last_def run_list_def)
  then show "canonical ys" using canonical_same [OF vs _ c] by simp
qed

lemma join_last_list:
  "(c \<Longrightarrow> runs \<noteq> []) \<Longrightarrow>
   expand (fst (join_last c v runs)) @ replicate (unat (snd (join_last c v runs))) v = expand runs"
  by (cases runs rule: rev_cases) (auto simp: join_last_def run_list_def)

lemma join_first_list:
  "(c \<Longrightarrow> runs \<noteq> []) \<Longrightarrow>
   replicate (unat (snd (join_first c v runs))) v @ expand (fst (join_first c v runs)) = expand runs"
  by (cases runs) (auto simp: join_first_def run_list_def)

lemma join_last_canonical:
  assumes "canonical runs" and "c \<or> runs = []"
  shows "canonical (fst (join_last c v runs)) \<and>
    (fst (join_last c v runs) = [] \<or> rle_value (last (fst (join_last c v runs))) \<noteq> v)"
  using assms by (cases runs rule: rev_cases) (auto simp: join_last_def canonical_append)

lemma join_first_canonical:
  assumes "canonical runs" and "c \<or> runs = []"
  shows "canonical (fst (join_first c v runs)) \<and>
    (fst (join_first c v runs) = [] \<or> v \<noteq> rle_value (hd (fst (join_first c v runs))))"
  using assms canonical_append [of "[hd runs]" "tl runs"] by (cases runs) (auto simp: join_first_def)

lemma fold_lengths:
  "unat tot + length (expand runs) < 2 ^ LENGTH('s) \<Longrightarrow>
   unat (fold (\<lambda>run tot. tot + rle_length run) runs tot) = unat tot + length (expand runs)"
  for runs :: "('a, 's :: len) run list"
proof (induction runs arbitrary: tot)
  case (Cons run runs)
  then have "unat (tot + rle_length run) = unat tot + unat (rle_length run)" by (simp add: unat_word_ariths)
  with Cons show ?case by simp
qed simp

lemma replaced_list_runs:
  fixes r :: "('a, 's :: len) rle"
  assumes ok: "rle_ok r" and le: "unat start_index \<le> unat end_index" "unat end_index \<le> length (rle_list r)"
    and fits: "unat start_index + length (expand reps) + (length (rle_list r) - unat end_index) < 2 ^ LENGTH('s)"
    and ne: "reps \<noteq> []"
  shows "\<exists>r'. replace_unchecked dflt start_index end_index reps r = Some r' \<and> rle_ok r' \<and>
    rle_list r' = take (unat start_index) (rle_list r) @ expand reps @ drop (unat end_index) (rle_list r) \<and>
    (canonical (rle_runs r) \<and> canonical reps \<longrightarrow> canonical (rle_runs r'))"
proof -
  let ?xs = "rle_list r"
  let ?tot = "fold (\<lambda>run tot. tot + rle_length run) reps (rle_total_length r - (end_index - start_index))"
  obtain b bp e ep where
    b: "positioned (rle_runs r) (unat start_index) b bp" and e: "positioned (rle_runs r) (unat end_index) e ep" and
    eq: "replace_unchecked dflt start_index end_index reps r =
      Some \<lparr>rle_runs =
              fst (join_last (start_index \<noteq> 0) (rle_value (hd reps)) (head_runs b bp (rle_runs r))) @
              lengthen_last (snd (join_first (end_index \<noteq> rle_total_length r) (rle_value (last reps)) (tail_runs e ep (rle_runs r))))
                (lengthen_first (snd (join_last (start_index \<noteq> 0) (rle_value (hd reps)) (head_runs b bp (rle_runs r)))) reps) @
              fst (join_first (end_index \<noteq> rle_total_length r) (rle_value (last reps)) (tail_runs e ep (rle_runs r))),
            rle_total_length = ?tot\<rparr>"
    using replace_closed [OF ok le ne] by blast
  define H where "H = join_last (start_index \<noteq> 0) (rle_value (hd reps)) (head_runs b bp (rle_runs r))"
  define T where "T = join_first (end_index \<noteq> rle_total_length r) (rle_value (last reps)) (tail_runs e ep (rle_runs r))"
  have h: "expand (fst H) @ replicate (unat (snd H)) (rle_value (hd reps)) = take (unat start_index) ?xs"
    unfolding H_def using join_last_list [of "start_index \<noteq> 0" "head_runs b bp (rle_runs r)"] head_not_Nil [OF b] expand_head [OF b]
    by (simp add: rle_list_def unat_eq_0)
  have "end_index \<noteq> rle_total_length r \<Longrightarrow> tail_runs e ep (rle_runs r) \<noteq> []"
    using positioned_inside [OF e] le ok by (auto simp: tail_runs_def rle_ok_def rle_list_def word_unat_eq_iff)
  then have t: "replicate (unat (snd T)) (rle_value (last reps)) @ expand (fst T) = drop (unat end_index) ?xs"
    unfolding T_def using join_first_list [of "end_index \<noteq> rle_total_length r" "tail_runs e ep (rle_runs r)"] expand_tail [OF e]
    by (simp add: rle_list_def)
  from arg_cong [OF h, of length] arg_cong [OF t, of length] le
  have n: "unat (snd H) \<le> unat start_index" "unat (snd T) \<le> length ?xs - unat end_index" by simp_all
  let ?ys = "lengthen_last (snd T) (lengthen_first (snd H) reps)"
  have "unat (snd H) + unat (snd T) + length (expand reps) < 2 ^ LENGTH('s)" using n fits by simp
  note ys = lengthened [OF ne this]
  have ls: "expand (fst H @ ?ys @ fst T) = take (unat start_index) ?xs @ expand reps @ drop (unat end_index) ?xs"
    using h t ys(1) by simp
  have cs: "canonical (fst H @ ?ys @ fst T)" if c: "canonical (rle_runs r)" "canonical reps"
  proof -
    have "start_index \<noteq> 0 \<or> head_runs b bp (rle_runs r) = []"
      using expand_Nil_iff [OF canonical_head [OF c(1) b]] expand_head [OF b] by auto
    then have 1: "canonical (fst H) \<and> (fst H = [] \<or> rle_value (last (fst H)) \<noteq> rle_value (hd reps))"
      unfolding H_def using canonical_head [OF c(1) b] by (intro join_last_canonical)
    have "end_index \<noteq> rle_total_length r \<or> tail_runs e ep (rle_runs r) = []"
      using expand_Nil_iff [OF canonical_tail [OF c(1) e]] expand_tail [OF e] ok by (auto simp: rle_ok_def rle_list_def)
    then have 2: "canonical (fst T) \<and> (fst T = [] \<or> rle_value (last reps) \<noteq> rle_value (hd (fst T)))"
      unfolding T_def using canonical_tail [OF c(1) e] by (intro join_first_canonical)
    have v: "?ys \<noteq> []" "rle_value (hd ?ys) = rle_value (hd reps)" "rle_value (last ?ys) = rle_value (last reps)"
      using map_ends [OF ys(2) ne] by simp_all
    show ?thesis using 1 2 v ys(3) [OF c(2)] by (auto simp: canonical_append)
  qed
  have d: "unat (end_index - start_index) = unat end_index - unat start_index"
    using le by (simp add: unat_sub word_le_nat_alt)
  have u: "unat (rle_total_length r - (end_index - start_index)) = length ?xs - (unat end_index - unat start_index)"
    using le ok d by (subst unat_sub) (simp_all add: word_le_nat_alt rle_ok_def)
  have tot: "unat ?tot = length ?xs - (unat end_index - unat start_index) + length (expand reps)"
    using fold_lengths [of "rle_total_length r - (end_index - start_index)" reps] u fits le by simp
  show ?thesis using eq le ls tot cs by (simp add: rle_ok_def rle_list_def flip: H_def T_def)
qed

lemma expand_join_gap:
  "length (expand xs) + length (expand ys) < 2 ^ LENGTH('s) \<Longrightarrow> (c \<Longrightarrow> xs \<noteq> [] \<and> ys \<noteq> []) \<Longrightarrow>
   expand (join_gap c xs ys) = expand xs @ expand (ys :: ('a, 's :: len) run list)"
  by (cases xs rule: rev_cases) (auto simp: join_gap_def expand_lengthen_first run_list_def)

lemma canonical_join_gap:
  assumes "length (expand xs) + length (expand ys) < 2 ^ LENGTH('s)" and "c \<or> xs = [] \<or> ys = []"
    and "canonical xs" and "canonical (ys :: ('a, 's :: len) run list)" and "c \<Longrightarrow> xs \<noteq> [] \<and> ys \<noteq> []"
  shows "canonical (join_gap c xs ys)"
proof (cases "c \<and> rle_value (last xs) = rle_value (hd ys)")
  case True
  then obtain zs z where xs: "xs = zs @ [z]" using assms(5) by (metis append_butlast_last_id)
  let ?ys = "lengthen_last 0 (lengthen_first (rle_length z) ys)"
  have ne: "ys \<noteq> []" using True assms(5) by simp
  have fit: "unat (rle_length z) + unat (0 :: 's word) + length (expand ys) < 2 ^ LENGTH('s)" using assms(1) by (simp add: xs)
  have "canonical ?ys" "?ys \<noteq> []" "rle_value (hd ?ys) = rle_value (hd ys)"
    using lengthened(3) [OF ne fit assms(4)] map_ends [OF lengthened(2) [OF ne fit] ne] by simp_all
  then show ?thesis using True assms(3) ne by (auto simp: join_gap_def xs canonical_append)
qed (use assms in \<open>auto simp: join_gap_def canonical_append\<close>)

lemma removed_list:
  fixes r :: "('a, 's :: len) rle"
  assumes ok: "rle_ok r" and le: "unat start_index \<le> unat end_index" "unat end_index \<le> length (rle_list r)"
  shows "\<exists>r'. replace_unchecked dflt start_index end_index [] r = Some r' \<and> rle_ok r' \<and>
    rle_list r' = take (unat start_index) (rle_list r) @ drop (unat end_index) (rle_list r) \<and>
    (canonical (rle_runs r) \<longrightarrow> canonical (rle_runs r'))"
proof -
  obtain b bp t e ep t' where
    s: "rle_scan (rle_runs r) 0 0 start_index = (b, bp, t)" "rle_scan (rle_runs r) b t end_index = (e, ep, t')" and
    b: "positioned (rle_runs r) (unat start_index) b bp" and e: "positioned (rle_runs r) (unat end_index) e ep" and "b \<le> e"
    using scanned [OF assms] by metis
  have tot: "unat (rle_total_length r) = length (expand (rle_runs r))" using ok by (simp add: rle_ok_def rle_list_def)
  let ?runs = "join_gap (start_index \<noteq> 0 \<and> end_index \<noteq> rle_total_length r) (head_runs b bp (rle_runs r)) (tail_runs e ep (rle_runs r))"
  have ne: "end_index \<noteq> rle_total_length r \<Longrightarrow> tail_runs e ep (rle_runs r) \<noteq> []"
    using positioned_inside [OF e] le tot by (auto simp: tail_runs_def rle_list_def word_unat_eq_iff)
  have cs: "canonical ?runs" if c: "canonical (rle_runs r)"
  proof (rule canonical_join_gap)
    show "(start_index \<noteq> 0 \<and> end_index \<noteq> rle_total_length r) \<or> head_runs b bp (rle_runs r) = [] \<or> tail_runs e ep (rle_runs r) = []"
      using expand_Nil_iff [OF canonical_head [OF c b]] expand_head [OF b] expand_Nil_iff [OF canonical_tail [OF c e]]
        expand_tail [OF e] tot by auto
  qed (use canonical_head [OF c b] canonical_tail [OF c e] ne head_not_Nil [OF b] expand_head [OF b] expand_tail [OF e] le
      rle_ok_fits [OF ok] in \<open>auto simp: rle_list_def unat_eq_0\<close>)
  from ne have ls: "expand ?runs = take (unat start_index) (rle_list r) @ drop (unat end_index) (rle_list r)"
    using expand_join_gap [of "head_runs b bp (rle_runs r)" "tail_runs e ep (rle_runs r)"] head_not_Nil [OF b]
      expand_head [OF b] expand_tail [OF e] le rle_ok_fits [OF ok]
    by (simp add: rle_list_def unat_eq_0)
  have d: "unat (end_index - start_index) = unat end_index - unat start_index"
    using le by (simp add: unat_sub word_le_nat_alt)
  have "unat (rle_total_length r - (end_index - start_index)) = length (rle_list r) - (unat end_index - unat start_index)"
    using le tot d by (subst unat_sub) (simp_all add: word_le_nat_alt rle_list_def)
  then show ?thesis
    using remove_closed [OF b e \<open>b \<le> e\<close> tot refl] ls le cs by (simp add: replace_unchecked_def Let_def s rle_ok_def rle_list_def)
qed

lemma replaced_list:
  fixes r :: "('a, 's :: len) rle"
  assumes "rle_ok r" and "unat start_index \<le> unat end_index" and "unat end_index \<le> length (rle_list r)"
    and "unat start_index + length (expand reps) + (length (rle_list r) - unat end_index) < 2 ^ LENGTH('s)"
  shows "\<exists>r'. replace_unchecked dflt start_index end_index reps r = Some r' \<and> rle_ok r' \<and>
    rle_list r' = take (unat start_index) (rle_list r) @ expand reps @ drop (unat end_index) (rle_list r) \<and>
    (canonical (rle_runs r) \<and> canonical reps \<longrightarrow> canonical (rle_runs r'))"
proof (cases "reps = []")
  case True
  then show ?thesis using removed_list [OF assms(1-3)] by simp
qed (rule replaced_list_runs [OF assms])

text \<open>A vector in canonical form is determined by its list, so that comparing the runs compares the lists.\<close>

lemma hd_expand: "canonical runs \<Longrightarrow> runs \<noteq> [] \<Longrightarrow> expand runs \<noteq> [] \<and> hd (expand runs) = rle_value (hd runs)"
  by (cases runs) (auto simp: canonical_def run_list_def unat_eq_0)

lemma canonical_tl: "canonical (run # runs) \<Longrightarrow> rle_length run \<noteq> 0 \<and> canonical runs \<and> (runs \<noteq> [] \<longrightarrow> rle_value run \<noteq> rle_value (hd runs))"
  using canonical_append [of "[run]" runs] by (auto simp: canonical_def)

lemma first_run_le:
  assumes "canonical (x # xs)" and "canonical (y # ys)" and "expand (x # xs) = expand (y # ys)"
  shows "unat (rle_length y) \<le> unat (rle_length x)"
proof (rule ccontr)
  assume less: "\<not> unat (rle_length y) \<le> unat (rle_length x)"
  have v: "rle_value x = rle_value y" using hd_expand [OF assms(1)] hd_expand [OF assms(2)] assms(3) by simp
  have "drop (unat (rle_length x)) (expand (x # xs)) = drop (unat (rle_length x)) (expand (y # ys))" using assms(3) by simp
  then have e: "expand xs = replicate (unat (rle_length y) - unat (rle_length x)) (rle_value y) @ expand ys"
    using less by (simp add: run_list_def)
  then have ne: "xs \<noteq> []" "hd (expand xs) = rle_value y" using less by auto
  then show False using canonical_tl [OF assms(1)] hd_expand [of xs] v by simp
qed

lemma canonical_unique: "canonical xs \<Longrightarrow> canonical ys \<Longrightarrow> expand xs = expand ys \<Longrightarrow> xs = ys"
proof (induction xs arbitrary: ys)
  case Nil
  then show ?case using expand_Nil_iff [of ys] by simp
next
  case (Cons x xs)
  then obtain y ys' where ys: "ys = y # ys'" using expand_Nil_iff [OF Cons.prems(1)] by (cases ys) auto
  have v: "rle_value x = rle_value y" using hd_expand [OF Cons.prems(1)] hd_expand [OF Cons.prems(2)] Cons.prems(3) ys by simp
  have "unat (rle_length x) = unat (rle_length y)"
    using first_run_le [of x xs y ys'] first_run_le [of y ys' x xs] Cons.prems ys by simp
  with v have "x = y" by (simp add: word_unat_eq_iff)
  with Cons.IH [of ys'] canonical_tl [OF Cons.prems(1)] canonical_tl [of y ys'] Cons.prems ys show ?case by simp
qed

subsection \<open>Joining equal neighbours\<close>

text \<open>The reference: neighbours with the same value are added up from the left.\<close>

fun merge_runs :: "('a, 's :: len) run list \<Rightarrow> ('a, 's) run list" where
  "merge_runs [] = []"
| "merge_runs [x] = [x]"
| "merge_runs (x # y # runs) =
     (if rle_value x = rle_value y then merge_runs (x\<lparr>rle_length := rle_length x + rle_length y\<rparr> # runs)
      else x # merge_runs (y # runs))"

lemma merge_first: "runs \<noteq> [] \<Longrightarrow> merge_runs runs \<noteq> [] \<and> rle_value (hd (merge_runs runs)) = rle_value (hd runs)"
  by (induction runs rule: merge_runs.induct) auto

lemma merge_distinct: "distinct_adj (map rle_value (merge_runs runs))"
proof (induction runs rule: merge_runs.induct)
  case (3 x y runs)
  then show ?case using merge_first [of "y # runs"] by (auto simp: distinct_adj_Cons hd_map)
qed simp_all

lemma merge_list:
  "length (expand runs) < 2 ^ LENGTH('s) \<Longrightarrow> expand (merge_runs runs) = expand (runs :: ('a, 's :: len) run list) \<and>
   (list_all (\<lambda>run. rle_length run \<noteq> 0) runs \<longrightarrow> list_all (\<lambda>run. rle_length run \<noteq> 0) (merge_runs runs))"
proof (induction runs rule: merge_runs.induct)
  case (3 x y runs)
  show ?case
  proof (cases "rle_value x = rle_value y")
    case True
    have u: "unat (rle_length x + rle_length y) = unat (rle_length x) + unat (rle_length y)"
      using "3.prems" by (simp add: unat_word_ariths)
    then have "rle_length x \<noteq> 0 \<Longrightarrow> rle_length x + rle_length y \<noteq> 0" by (metis add_is_0 unat_eq_0)
    then show ?thesis using "3.IH"(1) [OF True] "3.prems" True u by (auto simp: run_list_def replicate_add)
  qed (use "3.IH"(2) "3.prems" in auto)
qed simp_all

declare compact_join.simps [simp del] compact_find.simps [simp del]

lemma compact_join_merge:
  "ref < it \<Longrightarrow> it \<le> length runs \<Longrightarrow> compact_join ref it runs = take ref runs @ merge_runs (runs ! ref # drop it runs)"
proof (induction ref it runs rule: compact_join.induct)
  case (1 ref it runs)
  show ?case
  proof (cases "it < length runs")
    case True
    then have d: "drop it runs = runs ! it # drop (it + 1) runs" by (simp add: Cons_nth_drop_Suc)
    show ?thesis using True 1 d
      by (subst compact_join.simps) (simp add: take_Suc_conv_app_nth nth_list_update)
  next
    case False
    then show ?thesis using 1 by (subst compact_join.simps) (simp add: take_Suc_conv_app_nth)
  qed
qed

lemma compact_find_merge:
  "it = Suc ref \<Longrightarrow> it \<le> length runs \<Longrightarrow> compact_find ref it runs = take ref runs @ merge_runs (drop ref runs)"
proof (induction ref it runs rule: compact_find.induct)
  case (1 ref it runs)
  have r: "drop ref runs = runs ! ref # drop it runs" using 1 by (simp add: Cons_nth_drop_Suc)
  show ?case
  proof (cases "it < length runs")
    case True
    then have d: "drop it runs = runs ! it # drop (it + 1) runs" by (simp add: Cons_nth_drop_Suc)
    show ?thesis using True 1 d r
      by (subst compact_find.simps) (simp add: take_Suc_conv_app_nth compact_join_merge)
  next
    case False
    then show ?thesis using 1 r by (subst compact_find.simps) (simp flip: take_Suc_conv_app_nth)
  qed
qed

lemma compact_merge: "rle_compact r = r\<lparr>rle_runs := merge_runs (rle_runs r)\<rparr>"
  by (auto simp: rle_compact_def compact_find_merge Suc_le_eq)

end
