(* ===== verification/RleRefinement.thy ===== *)
theory RleRefinement
  imports RleLaws
begin

text \<open>
  The public operations of the run-length encoded vector refine those of a plain list: each operation on
  the runs is the operation on the list they stand for, and every vector built by them is in
  canonical form.
\<close>

subsection \<open>Operations\<close>

lemma fill_refines: "rle_ok (rle_fill n v) \<and> rle_list (rle_fill n v) = replicate (unat n) v \<and> canonical (rle_runs (rle_fill n v))"
  by (auto simp: rle_ok_def rle_list_def rle_fill_def run_list_def canonical_def)

lemma runs_refine:
  "length (expand runs) < 2 ^ LENGTH('s) \<Longrightarrow> rle_ok (rle_of_runs (runs :: ('a, 's :: len) run list)) \<and>
   rle_list (rle_of_runs runs) = expand runs"
  using fold_lengths [of 0 runs] by (simp add: rle_ok_def rle_list_def rle_of_runs_def)

lemma at_refines: "rle_ok r \<Longrightarrow> rle_at r i = (if unat i < length (rle_list r) then Some (rle_list r ! unat i) else None)"
  for r :: "('a, 's :: len) rle"
proof -
  assume ok: "rle_ok r"
  have f: "unat (0 :: 's word) + length (expand (rle_runs r)) < 2 ^ LENGTH('s)" using rle_ok_fits [OF ok] by simp
  obtain k p t where s: "rle_scan (rle_runs r) 0 0 i = (k, p, t)" "k \<le> length (rle_runs r)"
    "unat t = length (expand (take k (rle_runs r)))"
    "if k < length (rle_runs r) then unat p < unat (rle_length (rle_runs r ! k)) \<and> unat i = unat t + unat p
     else p = 0 \<and> length (expand (rle_runs r)) \<le> unat i"
    using scan_loop_positions [OF f, of i 0] by (auto simp: rle_scan_def split: if_splits)
  show ?thesis
  proof (cases "k < length (rle_runs r)")
    case True
    then have pos: "positioned (rle_runs r) (unat i) k p" using s by (simp add: positioned_def)
    have "expand (tail_runs k p (rle_runs r)) = drop (unat i) (rle_list r)" using expand_tail [OF pos] by (simp add: rle_list_def)
    moreover have "expand (tail_runs k p (rle_runs r)) ! 0 = rle_value (rle_runs r ! k)" "expand (tail_runs k p (rle_runs r)) \<noteq> []"
      using True s(4) unat_sub [of p "rle_length (rle_runs r ! k)"]
      by (auto simp: tail_runs_def nth_append word_le_nat_alt)
    moreover have "unat i < length (rle_list r)" using positioned_inside [OF pos] True by (simp add: rle_list_def)
    ultimately show ?thesis using True by (simp add: rle_at_def s(1) deref_def)
  next
    case False
    then show ?thesis using s by (simp add: rle_at_def deref_def rle_list_def)
  qed
qed

lemma replace_values_refines:
  fixes r :: "('a, 's :: len) rle"
  assumes ok: "rle_ok r"
  shows "rle_ok (replace_values a b r) \<and> rle_list (replace_values a b r) = map (\<lambda>x. if x = a then b else x) (rle_list r) \<and>
    (canonical (rle_runs r) \<longrightarrow> canonical (rle_runs (replace_values a b r)))"
proof -
  let ?runs = "map (\<lambda>run. if rle_value run = a then run\<lparr>rle_value := b\<rparr> else run) (rle_runs r)"
  have e: "expand ?runs = map (\<lambda>x. if x = a then b else x) (rle_list r)"
    by (auto simp: expand_def rle_list_def run_list_def map_concat intro!: arg_cong [of _ _ concat])
  have fits: "length (expand ?runs) < 2 ^ LENGTH('s)" using rle_ok_fits [OF ok] by (simp add: e rle_list_def)
  show ?thesis
    using merge_list [OF fits] merge_distinct [of ?runs] ok
    by (auto simp: replace_values_def compact_merge e rle_ok_def rle_list_def canonical_def list_all_iff)
qed

text \<open>The runs up to and including a position.\<close>

definition cut_runs :: "nat \<Rightarrow> 's :: len word \<Rightarrow> ('a, 's) run list \<Rightarrow> ('a, 's) run list" where
  "cut_runs k p runs = take k runs @ [(runs ! k)\<lparr>rle_length := p + 1\<rparr>]"

lemma cut_refines:
  fixes runs :: "('a, 's :: len) run list"
  assumes pos: "positioned runs i k p" and k: "k < length runs"
  shows "unat (p + 1) = Suc (unat p)" and "expand (cut_runs k p runs) = take (Suc i) (expand runs)"
    and "canonical runs \<Longrightarrow> canonical (cut_runs k p runs)"
proof -
  have p: "unat p < unat (rle_length (runs ! k))" using pos k by (simp add: positioned_def)
  then have "Suc (unat p) < 2 ^ LENGTH('s)" by (rule order.strict_trans1 [OF Suc_leI unsigned_less])
  then show u: "unat (p + 1) = Suc (unat p)" by (simp add: unat_word_ariths)
  have e: "expand runs = expand (take k runs) @ run_list (runs ! k) @ expand (drop (Suc k) runs)"
    using expand_split [of k runs] Cons_nth_drop_Suc [OF k, symmetric] by simp
  have "take (Suc i) (expand runs) = expand (take k runs) @ take (Suc (unat p)) (run_list (runs ! k))"
    using pos p by (subst e) (auto simp: positioned_def Suc_diff_le)
  then show "expand (cut_runs k p runs) = take (Suc i) (expand runs)" using p u by (simp add: cut_runs_def run_list_def)
  assume c: "canonical runs"
  then have "canonical (take (Suc k) runs)" using canonical_take_drop by blast
  moreover have "p + 1 \<noteq> 0"
  proof
    assume "p + 1 = 0"
    with u show False by (simp only: unat_0)
  qed
  ultimately show "canonical (cut_runs k p runs)"
    using k by (intro canonical_same [of "cut_runs k p runs" "take (Suc k) runs"])
      (auto simp: cut_runs_def take_Suc_conv_app_nth canonical_def)
qed

lemma shrink_refines:
  fixes r :: "('a, 's :: len) rle"
  assumes ok: "rle_ok r" and n: "n \<noteq> 0" "unat n < length (rle_list r)"
  shows "\<exists>r'. resize_trailing_extent n r = Some r' \<and> rle_ok r' \<and> rle_list r' = take (unat n) (rle_list r) \<and>
    (canonical (rle_runs r) \<longrightarrow> canonical (rle_runs r'))"
proof -
  have u: "unat (n - 1) = unat n - 1" using n(1) by (simp add: unat_minus_one)
  have "0 < unat n" using n(1) by (simp add: unat_gt_0)
  have "unat (n - 1) \<le> length (expand (rle_runs r))" using n u by (simp add: rle_list_def)
  from scan_first [OF this rle_ok_fits [OF ok]] obtain k p t where
    s: "rle_scan (rle_runs r) 0 0 (n - 1) = (k, p, t)" and pos: "positioned (rle_runs r) (unat (n - 1)) k p" by blast
  have k: "k < length (rle_runs r)" using positioned_inside [OF pos] n u by (simp add: rle_list_def)
  have lt: "n < rle_total_length r" using n ok by (simp add: rle_ok_def word_less_nat_alt)
  have "resize_trailing_extent n r = Some \<lparr>rle_runs = cut_runs k p (rle_runs r), rle_total_length = n\<rparr>"
    using k n(1) lt by (simp add: resize_trailing_extent_def Let_def s set_length_def erase_range_def cut_runs_def take_Suc_conv_app_nth)
  then show ?thesis using cut_refines [OF pos k] u \<open>0 < unat n\<close> n(2) by (simp add: rle_ok_def rle_list_def)
qed

lemma grow_refines:
  fixes r :: "('a, 's :: len) rle"
  assumes ok: "rle_ok r" and n: "length (rle_list r) < unat n" "rle_list r \<noteq> []"
  shows "\<exists>r'. resize_trailing_extent n r = Some r' \<and> rle_ok r' \<and>
    rle_list r' = rle_list r @ replicate (unat n - length (rle_list r)) (rle_value (last (rle_runs r))) \<and>
    (canonical (rle_runs r) \<longrightarrow> canonical (rle_runs r'))"
proof -
  let ?runs = "lengthen_last (n - rle_total_length r) (lengthen_first 0 (rle_runs r))"
  have ne: "rle_runs r \<noteq> []" using n(2) by (auto simp: rle_list_def)
  have "rle_total_length r \<le> n" "rle_total_length r < n" "n \<noteq> 0" using n ok by (auto simp: rle_ok_def word_order_nat)
  then have u: "unat (n - rle_total_length r) = unat n - length (rle_list r)" using ok by (simp add: unat_sub rle_ok_def)
  have "resize_trailing_extent n r = Some \<lparr>rle_runs = ?runs, rle_total_length = n\<rparr>"
    using ne \<open>rle_total_length r < n\<close> \<open>n \<noteq> 0\<close> less_not_sym [OF \<open>rle_total_length r < n\<close>]
    by (simp add: resize_trailing_extent_def Let_def set_length_def lengthen_last_def last_conv_nth)
  moreover have "unat (0 :: 's word) + unat (n - rle_total_length r) + length (expand (rle_runs r)) < 2 ^ LENGTH('s)"
    using u n(1) unsigned_less [of n, where ?'a = nat] by (simp add: rle_list_def)
  note lengthened [OF ne this]
  ultimately show ?thesis using u n(1) by (simp add: rle_ok_def rle_list_def)
qed

lemma last_run_value: "canonical runs \<Longrightarrow> runs \<noteq> [] \<Longrightarrow> rle_value (last runs) = last (expand runs)"
  by (cases runs rule: rev_cases) (auto simp: canonical_def run_list_def last_append unat_eq_0)

text \<open>Growing repeats the value of the last run, which is the last element when that run is not empty, as in
  canonical form.\<close>

lemma resize_refines:
  fixes r :: "('a, 's :: len) rle"
  assumes ok: "rle_ok r" and c: "canonical (rle_runs r) \<or> unat n \<le> length (rle_list r)"
    and "rle_list r \<noteq> [] \<or> n = 0"
  shows "\<exists>r'. resize_trailing_extent n r = Some r' \<and> rle_ok r' \<and> (canonical (rle_runs r) \<longrightarrow> canonical (rle_runs r')) \<and>
    rle_list r' = take (unat n) (rle_list r) @ replicate (unat n - length (rle_list r)) (last (rle_list r))"
proof -
  consider "n = 0" | "n \<noteq> 0" "unat n < length (rle_list r)" | "length (rle_list r) < unat n" | "unat n = length (rle_list r)" "n \<noteq> 0"
    by linarith
  then show ?thesis
  proof cases
    case 1
    then show ?thesis by (simp add: resize_trailing_extent_def rle_ok_def rle_list_def)
  next
    case 2
    then show ?thesis using shrink_refines [OF ok] by auto
  next
    case 3
    then have "rle_list r \<noteq> []" using assms(3) by auto
    moreover from this have "rle_runs r \<noteq> []" by (auto simp: rle_list_def)
    moreover have "canonical (rle_runs r)" using c 3 by simp
    ultimately show ?thesis
      using 3 grow_refines [OF ok 3] last_run_value [of "rle_runs r"] by (auto simp: rle_list_def)
  next
    case 4
    then have "n = rle_total_length r" using ok by (simp add: rle_ok_def word_unat_eq_iff)
    then show ?thesis using 4 ok by (simp add: resize_trailing_extent_def rle_ok_def rle_list_def)
  qed
qed

text \<open>An empty vector in canonical form has no runs, and does not grow.\<close>

lemma resize_empty:
  assumes "rle_ok r" and "canonical (rle_runs r) \<or> unat n \<le> length (rle_list r)" and "resize_trailing_extent n r = Some r'"
  shows "rle_list r \<noteq> [] \<or> n = 0"
proof (rule ccontr)
  assume a: "\<not> (rle_list r \<noteq> [] \<or> n = 0)"
  then have "unat n \<noteq> 0" by (simp add: unat_eq_0)
  with a assms(2) have "rle_runs r = []" by (auto simp: rle_list_def expand_Nil_iff)
  moreover have "rle_total_length r = 0" using assms(1) a by (simp add: rle_ok_def unat_eq_0)
  ultimately show False using a assms(3) by (simp add: resize_trailing_extent_def word_gt_0)
qed

lemma slice_cut:
  assumes "e < length runs" and "b \<le> e"
  shows "set_length (length (drop b (take (e + 1) runs)) - 1) (ep + 1) (drop b (take (e + 1) runs)) = Some (drop b (cut_runs e ep runs))"
    and "deref (drop b (cut_runs e ep runs)) 0 = Some (cut_runs e ep runs ! b)"
    and "set_length 0 (rle_length (cut_runs e ep runs ! b) - bp) (drop b (cut_runs e ep runs)) =
      Some (tail_runs b bp (cut_runs e ep runs))"
proof -
  have n: "b < length (cut_runs e ep runs)" using assms by (simp add: cut_runs_def)
  have "take (e + 1) runs = take e runs @ [runs ! e]" using assms(1) by (simp add: take_Suc_conv_app_nth)
  moreover have "length (take e runs) = e" using assms(1) by simp
  ultimately show "set_length (length (drop b (take (e + 1) runs)) - 1) (ep + 1) (drop b (take (e + 1) runs)) =
      Some (drop b (cut_runs e ep runs))"
    using assms by (simp add: set_length_def cut_runs_def nth_append list_update_append)
  show "deref (drop b (cut_runs e ep runs)) 0 = Some (cut_runs e ep runs ! b)" using n by (simp add: deref_def)
  show "set_length 0 (rle_length (cut_runs e ep runs ! b) - bp) (drop b (cut_runs e ep runs)) =
      Some (tail_runs b bp (cut_runs e ep runs))"
    using n Cons_nth_drop_Suc [OF n, symmetric] by (simp add: set_length_def tail_runs_def)
qed

lemma slice_refines:
  fixes r :: "('a, 's :: len) rle"
  assumes ok: "rle_ok r"
  shows "\<exists>r'. rle_slice r s t = Some r' \<and> rle_ok r' \<and> rle_list r' = drop (unat s) (take (unat t) (rle_list r)) \<and>
    (canonical (rle_runs r) \<longrightarrow> canonical (rle_runs r'))"
proof -
  define t' where "t' = (if t > rle_total_length r then rle_total_length r else t)"
  have t': "unat t' \<le> length (rle_list r)" "take (unat t') (rle_list r) = take (unat t) (rle_list r)"
    "min (length (rle_list r)) (unat t) = unat t'"
    using ok by (auto simp: t'_def rle_ok_def word_order_nat)
  show ?thesis
  proof (cases "t' \<le> s")
    case True
    then have "drop (unat s) (take (unat t) (rle_list r)) = []"
      using t' by (metis drop_all length_take min.absorb2 word_le_nat_alt)
    then show ?thesis using True by (simp add: rle_slice_def rle_ok_def rle_list_def flip: t'_def)
  next
    case False
    then have st: "unat s < unat t'" by (simp add: word_order_nat)
    then have "t' \<noteq> 0" by auto
    then have u: "unat (t' - 1) = unat t' - 1" by (simp add: unat_minus_one)
    have sle: "unat s \<le> unat (t' - 1)" and tle: "unat (t' - 1) \<le> length (rle_list r)" using u st t' by simp_all
    obtain b bp x e ep y where
      b: "rle_scan (rle_runs r) 0 0 s = (b, bp, x)" "positioned (rle_runs r) (unat s) b bp" and
      e: "rle_scan (rle_runs r) b x (t' - 1) = (e, ep, y)" "positioned (rle_runs r) (unat (t' - 1)) e ep" and
      le: "b \<le> e" "b = e \<longrightarrow> bp \<le> ep"
      by (rule scanned [OF ok sle tle])
    have k: "e < length (rle_runs r)" using positioned_inside [OF e(2)] u st t' by (simp add: rle_list_def)
    note cut = cut_refines [OF e(2) k]
    let ?C = "cut_runs e ep (rle_runs r)"
    have pos: "positioned ?C (unat s) b bp"
      using b(2) le k cut(1) by (auto simp: positioned_def cut_runs_def nth_append word_le_nat_alt)
    have n: "b < length ?C" using le k by (simp add: cut_runs_def)
    have "rle_slice r s t = Some \<lparr>rle_runs = tail_runs b bp ?C, rle_total_length = t' - s\<rparr>"
      using False b(1) e(1) k slice_cut [OF k le(1)] by (simp add: rle_slice_def Let_def flip: t'_def)
    moreover have "unat (t' - s) = unat t' - unat s" using st by (simp add: unat_sub word_order_nat)
    ultimately show ?thesis using expand_tail [OF pos] cut canonical_tail [OF _ pos] u st t'
      by (simp add: rle_ok_def rle_list_def)
  qed
qed

lemma replace_refines:
  fixes r :: "('a, 's :: len) rle"
  assumes ok: "rle_ok r" and fits: "unat s + length (expand reps) + (length (rle_list r) - unat t) < 2 ^ LENGTH('s)"
  shows "case rle_replace dflt s t reps r of
      Inl fault \<Rightarrow> fault = Out_of_range \<and> min (unat t) (length (rle_list r)) < unat s
    | Inr r' \<Rightarrow> unat s \<le> min (unat t) (length (rle_list r)) \<and> rle_ok r' \<and>
        rle_list r' = take (unat s) (rle_list r) @ expand reps @ drop (unat t) (rle_list r) \<and>
        (canonical (rle_runs r) \<and> canonical reps \<longrightarrow> canonical (rle_runs r'))"
proof -
  define t' where "t' = (if t > rle_total_length r then rle_total_length r else t)"
  have t': "unat t' = min (unat t) (length (rle_list r))" using ok by (auto simp: t'_def rle_ok_def word_order_nat)
  show ?thesis
  proof (cases "s > t'")
    case True
    then have "rle_replace dflt s t reps r = Inl Out_of_range" by (simp add: rle_replace_def check_indices_def flip: t'_def)
    moreover have "unat t' < unat s" using True by (simp add: word_less_nat_alt)
    ultimately show ?thesis using t' by simp
  next
    case False
    then have le: "unat s \<le> unat t'" "unat t' \<le> length (rle_list r)" using t' by (auto simp: word_order_nat)
    have d: "drop (unat t') (rle_list r) = drop (unat t) (rle_list r)" using t' by (auto simp: min_def)
    have "unat s + length (expand reps) + (length (rle_list r) - unat t') < 2 ^ LENGTH('s)" using fits t' by (auto simp: min_def)
    from replaced_list [OF ok le this, of dflt] show ?thesis
      using False le d t' by (auto simp: rle_replace_def check_indices_def rle_result_def simp flip: t'_def)
  qed
qed

text \<open>Replacing by a value is replacing by one run as long as the range.\<close>

lemma replace_value_refines:
  fixes r :: "('a, 's :: len) rle"
  assumes ok: "rle_ok r"
  shows "case rle_replace_value dflt s t v r of
      Inl fault \<Rightarrow> fault = Out_of_range \<and> min (unat t) (length (rle_list r)) < unat s
    | Inr r' \<Rightarrow> unat s \<le> min (unat t) (length (rle_list r)) \<and> rle_ok r' \<and>
        rle_list r' = take (unat s) (rle_list r) @ replicate (min (unat t) (length (rle_list r)) - unat s) v @ drop (unat t) (rle_list r) \<and>
        (canonical (rle_runs r) \<and> unat s < min (unat t) (length (rle_list r)) \<longrightarrow> canonical (rle_runs r'))"
proof -
  define t' where "t' = (if t > rle_total_length r then rle_total_length r else t)"
  have t': "unat t' = min (unat t) (length (rle_list r))" using ok by (auto simp: t'_def rle_ok_def word_order_nat)
  show ?thesis
  proof (cases "s > t'")
    case True
    then have "rle_replace_value dflt s t v r = Inl Out_of_range" by (simp add: rle_replace_value_def check_indices_def flip: t'_def)
    moreover have "unat t' < unat s" using True by (simp add: word_less_nat_alt)
    ultimately show ?thesis using t' by simp
  next
    case False
    let ?reps = "[\<lparr>rle_value = v, rle_length = t' - s\<rparr>]"
    have le: "unat s \<le> unat t'" "unat t' \<le> length (rle_list r)" using t' False by (auto simp: word_order_nat)
    have n: "unat (t' - s) = unat t' - unat s" using le(1) by (simp add: unat_sub word_order_nat)
    have d: "drop (unat t') (rle_list r) = drop (unat t) (rle_list r)" using t' by (auto simp: min_def)
    have "length (rle_list r) < 2 ^ LENGTH('s)" using rle_ok_fits [OF ok] by (simp add: rle_list_def)
    then have "unat s + length (expand ?reps) + (length (rle_list r) - unat t') < 2 ^ LENGTH('s)" using n le by simp
    note replaced = replaced_list [OF ok le this, of dflt]
    have e: "expand ?reps = replicate (unat t' - unat s) v" using n by (simp add: run_list_def)
    have "canonical ?reps" if "unat s < unat t'"
      using that n by (auto simp: canonical_def)
    with replaced show ?thesis
      using False le d t' e by (auto simp: rle_replace_value_def check_indices_def rle_result_def simp flip: t'_def)
  qed
qed

subsection \<open>Properties\<close>

text \<open>Replacing a range of a run-length encoded vector is replacing it in the list the vector stands for,
  whatever runs are split, joined, overwritten or inserted for it; no access is outside of the
  container; the total length stays exact; and the result is in canonical form when the vector and
  the replacements are. Only a range that starts behind its end, or behind the end of the vector, is
  refused.\<close>

theorem replace_is_splice:
  fixes r :: "('a, 's :: len) rle"
  assumes ok: "rle_ok r" and fits: "unat s + length (expand reps) + (length (rle_list r) - unat t) < 2 ^ LENGTH('s)"
  shows "case rle_replace dflt s t reps r of
      Inl fault \<Rightarrow> fault = Out_of_range \<and> min (unat t) (length (rle_list r)) < unat s
    | Inr r' \<Rightarrow> unat s \<le> min (unat t) (length (rle_list r)) \<and> rle_ok r' \<and>
        rle_list r' = take (unat s) (rle_list r) @ expand reps @ drop (unat t) (rle_list r) \<and>
        (canonical (rle_runs r) \<and> canonical reps \<longrightarrow> canonical (rle_runs r'))"
  using assms by (rule replace_refines)

text \<open>Two vectors in canonical form compare equal exactly when they stand for the same list.\<close>

theorem equality_is_list_equality:
  assumes "rle_ok a" and "rle_ok b" and "canonical (rle_runs a)" and "canonical (rle_runs b)"
  shows "rle_equal a b \<longleftrightarrow> rle_list a = rle_list b"
proof
  assume "rle_list a = rle_list b"
  then show "rle_equal a b"
    using assms canonical_unique [OF assms(3,4)] by (simp add: rle_equal_def rle_ok_def rle_list_def word_unat_eq_iff)
qed (simp add: rle_equal_def rle_list_def)

text \<open>A vector and the plain list that has gone through the same operations, whatever runs they were given. The flag says
  that the vector was only given runs in canonical form, non-empty and with different neighbours, and
  that no empty range was replaced by a value. Only for growing does it matter: otherwise the last run may be empty, and its value
  and not the last element is repeated. Replacements are those whose result does not exceed the size type.\<close>

inductive vector_history :: "bool \<Rightarrow> ('a, 's :: len) rle \<Rightarrow> 'a list \<Rightarrow> bool" where
  filled: "vector_history True (rle_fill n v) (replicate (unat n) v)"
| from_runs: "length (expand runs) < 2 ^ LENGTH('s) \<Longrightarrow>
    vector_history (canonical runs) (rle_of_runs runs) (expand runs)" for runs :: "('a, 's :: len) run list"
| replaced: "vector_history c r xs \<Longrightarrow> unat s + length (expand reps) + (length xs - unat t) < 2 ^ LENGTH('s) \<Longrightarrow>
    rle_replace dflt s t reps r = Inr r' \<Longrightarrow>
    vector_history (c \<and> canonical reps) r' (take (unat s) xs @ expand reps @ drop (unat t) xs)" for r :: "('a, 's :: len) rle"
| replaced_by_value: "vector_history c r xs \<Longrightarrow> rle_replace_value dflt s t v r = Inr r' \<Longrightarrow>
    vector_history (c \<and> unat s < min (unat t) (length xs)) r'
      (take (unat s) xs @ replicate (min (unat t) (length xs) - unat s) v @ drop (unat t) xs)"
| values_replaced: "vector_history c r xs \<Longrightarrow> vector_history c (replace_values a b r) (map (\<lambda>x. if x = a then b else x) xs)"
| resized: "vector_history c r xs \<Longrightarrow> c \<or> unat n \<le> length xs \<Longrightarrow> resize_trailing_extent n r = Some r' \<Longrightarrow>
    vector_history c r' (take (unat n) xs @ replicate (unat n - length xs) (last xs))"
| sliced: "vector_history c r xs \<Longrightarrow> rle_slice r s t = Some r' \<Longrightarrow> vector_history c r' (drop (unat s) (take (unat t) xs))"

lemma history_refines:
  assumes "vector_history c r xs"
  shows "rle_ok r \<and> rle_list r = xs \<and> (c \<longrightarrow> canonical (rle_runs r))"
  using assms
proof (induction rule: vector_history.induct)
  case (filled n v)
  then show ?case by (simp add: fill_refines)
next
  case (from_runs runs)
  then show ?case using runs_refine [OF from_runs] by (simp add: rle_of_runs_def)
next
  case (replaced r c xs s reps t dflt r')
  then show ?case using replace_refines [of r s reps t dflt] by simp
next
  case (replaced_by_value c r xs dflt s t v r')
  then show ?case using replace_value_refines [where r = r and dflt = dflt and s = s and t = t and v = v] by simp
next
  case (values_replaced c r xs a b)
  then show ?case using replace_values_refines [of r a b] by simp
next
  case (resized c r xs n r')
  then have "canonical (rle_runs r) \<or> unat n \<le> length (rle_list r)" by blast
  with resized show ?case using resize_refines [of r n] resize_empty [of r n r'] by auto
next
  case (sliced c r xs s t r')
  then show ?case using slice_refines [of r s t] by auto
qed

text \<open>C32: A vector that was only changed through its operations stands for the list that has gone through the
  corresponding list operations: reading any position agrees, and reading past the end throws. Any runs may be
  given to it, empty ones and equal neighbours included, and a range, an empty one too, may be replaced by a value; such
  a vector may only not be grown afterwards. As long as it was given runs in canonical form and values for non-empty
  ranges (\<open>c\<close>), it is in canonical form, and growing repeats the last element. The operations are defined: a slice always is, growing and shrinking a canonical
  vector that is not empty is, and replacing throws exactly when the range ends before it starts.\<close>

theorem vector_refines_list:
  fixes r :: "('a, 's :: len) rle"
  assumes "vector_history c r xs"
  shows "rle_ok r \<and> rle_list r = xs \<and> (c \<longrightarrow> canonical (rle_runs r)) \<and>
    rle_at r i = (if unat i < length xs then Some (xs ! unat i) else None) \<and>
    rle_slice r s t \<noteq> None \<and> (c \<and> xs \<noteq> [] \<longrightarrow> resize_trailing_extent n r \<noteq> None) \<and>
    rle_replace_value dflt s t v r \<noteq> Inl Undefined \<and>
    (rle_replace_value dflt s t v r = Inl Out_of_range \<longleftrightarrow> min (unat t) (length xs) < unat s) \<and>
    (unat s + length (expand reps) + (length xs - unat t) < 2 ^ LENGTH('s) \<longrightarrow>
       rle_replace dflt s t reps r \<noteq> Inl Undefined \<and>
       (rle_replace dflt s t reps r = Inl Out_of_range \<longleftrightarrow> min (unat t) (length xs) < unat s))"
proof -
  have ok: "rle_ok r" "rle_list r = xs" and c: "c \<longrightarrow> canonical (rle_runs r)" using history_refines [OF assms] by blast+
  have "rle_slice r s t \<noteq> None" using slice_refines [OF ok(1), of s t] by auto
  moreover have "c \<and> xs \<noteq> [] \<longrightarrow> resize_trailing_extent n r \<noteq> None"
    using resize_refines [OF ok(1), of n] c ok(2) by auto
  moreover have "rle_replace_value dflt s t v r \<noteq> Inl Undefined \<and>
      (rle_replace_value dflt s t v r = Inl Out_of_range \<longleftrightarrow> min (unat t) (length xs) < unat s)"
    using replace_value_refines [OF ok(1), where dflt = dflt and s = s and t = t and v = v] ok(2) by (auto split: sum.splits)
  moreover have "unat s + length (expand reps) + (length xs - unat t) < 2 ^ LENGTH('s) \<longrightarrow>
      rle_replace dflt s t reps r \<noteq> Inl Undefined \<and>
      (rle_replace dflt s t reps r = Inl Out_of_range \<longleftrightarrow> min (unat t) (length xs) < unat s)"
    using replace_refines [OF ok(1), of s reps t dflt] ok(2) by (auto split: sum.splits)
  ultimately show ?thesis using ok c at_refines [OF ok(1), of i] by simp
qed

lemma value_in_list: "canonical runs \<Longrightarrow> run \<in> set runs \<Longrightarrow> rle_value run \<in> set (expand runs)"
  by (auto simp: canonical_def list_all_iff expand_def run_list_def unat_eq_0 intro!: bexI [of _ run])

text \<open>Replacing an empty range by a value puts a run of length zero into the vector: it stands for the same
  list as before, but it is no longer in canonical form and no longer compares equal.\<close>

theorem empty_range_leaves_empty_run:
  fixes r :: "('a, 's :: len) rle"
  assumes ok: "rle_ok r" and c: "canonical (rle_runs r)" and "unat s \<le> length (rle_list r)"
    and v: "\<forall>x \<in> set (rle_list r). x \<noteq> v"
  shows "\<exists>r'. rle_replace_value dflt s s v r = Inr r' \<and> rle_list r' = rle_list r \<and> \<not> canonical (rle_runs r') \<and>
    \<not> rle_equal r' r"
proof -
  let ?reps = "[\<lparr>rle_value = v, rle_length = 0\<rparr>] :: ('a, 's) run list"
  have st: "unat s \<le> unat s" by simp
  obtain b bp e ep where b: "positioned (rle_runs r) (unat s) b bp" and e: "positioned (rle_runs r) (unat s) e ep" and
    eq: "replace_unchecked dflt s s ?reps r =
      Some \<lparr>rle_runs = fst (join_last (s \<noteq> 0) v (head_runs b bp (rle_runs r))) @
              lengthen_last (snd (join_first (s \<noteq> rle_total_length r) v (tail_runs e ep (rle_runs r))))
                (lengthen_first (snd (join_last (s \<noteq> 0) v (head_runs b bp (rle_runs r)))) ?reps) @
              fst (join_first (s \<noteq> rle_total_length r) v (tail_runs e ep (rle_runs r))),
            rle_total_length = rle_total_length r\<rparr>"
    using replace_closed [OF ok st assms(3), of ?reps dflt] by auto
  have "head_runs b bp (rle_runs r) \<noteq> [] \<Longrightarrow> rle_value (last (head_runs b bp (rle_runs r))) \<noteq> v"
    using value_in_list [OF canonical_head [OF c b], of "last (head_runs b bp (rle_runs r))"] expand_head [OF b] v
    by (auto simp: rle_list_def dest: in_set_takeD)
  moreover have "tail_runs e ep (rle_runs r) \<noteq> [] \<Longrightarrow> rle_value (hd (tail_runs e ep (rle_runs r))) \<noteq> v"
    using value_in_list [OF canonical_tail [OF c e], of "hd (tail_runs e ep (rle_runs r))"] expand_tail [OF e] v
    by (auto simp: rle_list_def dest: in_set_dropD)
  moreover have "s \<noteq> 0 \<Longrightarrow> head_runs b bp (rle_runs r) \<noteq> []" using head_not_Nil [OF b] by (simp add: unat_eq_0)
  moreover have "s \<noteq> rle_total_length r \<Longrightarrow> tail_runs e ep (rle_runs r) \<noteq> []"
    using positioned_inside [OF e] assms(3) ok by (auto simp: tail_runs_def rle_ok_def rle_list_def word_unat_eq_iff)
  ultimately have r': "replace_unchecked dflt s s ?reps r =
      Some \<lparr>rle_runs = head_runs b bp (rle_runs r) @ ?reps @ tail_runs e ep (rle_runs r), rle_total_length = rle_total_length r\<rparr>"
    using eq by (auto simp: join_last_def join_first_def lengthen_first_def lengthen_last_def)
  have "\<not> canonical (head_runs b bp (rle_runs r) @ ?reps @ tail_runs e ep (rle_runs r))" by (simp add: canonical_def)
  moreover have "rle_replace_value dflt s s v r = rle_result (replace_unchecked dflt s s ?reps r)"
    using assms(3) ok by (auto simp: rle_replace_value_def check_indices_def rle_ok_def word_order_nat)
  ultimately show ?thesis using r' c expand_head [OF b] expand_tail [OF e]
    by (auto simp: rle_result_def rle_list_def rle_equal_def run_list_def)
qed

subsection \<open>The example of the source\<close>

text \<open>Nine elements in three runs, the third to the fifth of them replaced.\<close>

definition example_rle :: "(nat, 16) rle" where
  "example_rle = rle_of_runs [\<lparr>rle_value = 1, rle_length = 3\<rparr>, \<lparr>rle_value = 2, rle_length = 3\<rparr>, \<lparr>rle_value = 3, rle_length = 3\<rparr>]"

definition example_replacements :: "(nat, 16) run list" where
  "example_replacements = [\<lparr>rle_value = 1, rle_length = 2\<rparr>, \<lparr>rle_value = 4, rle_length = 1\<rparr>, \<lparr>rle_value = 2, rle_length = 1\<rparr>]"

definition example_result :: "(nat, 16) rle" where
  "example_result = rle_of_runs
     [\<lparr>rle_value = 1, rle_length = 4\<rparr>, \<lparr>rle_value = 4, rle_length = 1\<rparr>, \<lparr>rle_value = 2, rle_length = 2\<rparr>,
      \<lparr>rle_value = 3, rle_length = 3\<rparr>]"

lemma example_replaced: "rle_replace 0 2 5 example_replacements example_rle = Inr example_result"
  by code_simp

lemma example_facts:
  "rle_ok example_rle" "canonical (rle_runs example_rle)" "canonical example_replacements"
  "rle_list example_rle = [1, 1, 1, 2, 2, 2, 3, 3, 3]" "expand example_replacements = [1, 1, 4, 2]"
  by code_simp+

lemma replace_is_splice_witness:
  "rle_ok example_result \<and> rle_list example_result = [1, 1, 1, 1, 4, 2, 2, 3, 3, 3] \<and> canonical (rle_runs example_result)"
proof -
  have "unat (2 :: 16 word) + length (expand example_replacements) + (length (rle_list example_rle) - unat (5 :: 16 word)) < 2 ^ LENGTH(16)"
    by (simp add: example_facts)
  from replace_is_splice [OF example_facts(1) this, of 0] show ?thesis by (simp add: example_replaced example_facts)
qed

lemma equality_is_list_equality_witness:
  "rle_equal example_result example_rle \<longleftrightarrow> rle_list example_result = rle_list example_rle"
  by (rule equality_is_list_equality) code_simp+

lemma example_value: "rle_replace_value 0 4 20 9 example_rle = Inr (rle_of_runs
    [\<lparr>rle_value = 1, rle_length = 3\<rparr>, \<lparr>rle_value = 2, rle_length = 1\<rparr>, \<lparr>rle_value = 9, rle_length = 5\<rparr>])"
  by code_simp

lemma vector_refines_list_witness:
  "rle_at (rle_of_runs [\<lparr>rle_value = 1, rle_length = 3\<rparr>, \<lparr>rle_value = 2, rle_length = 1\<rparr>,
     \<lparr>rle_value = 9, rle_length = 5\<rparr>] :: (nat, 16) rle) 8 = Some 9"
proof -
  let ?runs = "[\<lparr>rle_value = 1, rle_length = 3\<rparr>, \<lparr>rle_value = 2, rle_length = 3\<rparr>, \<lparr>rle_value = 3, rle_length = 3\<rparr>] :: (nat, 16) run list"
  have e: "expand ?runs = [1, 1, 1, 2, 2, 2, 3, 3, 3]" using example_facts(4) by (simp add: rle_list_def example_rle_def rle_of_runs_def)
  have "vector_history (canonical ?runs) example_rle [1, 1, 1, 2, 2, 2, 3, 3, 3]"
    using vector_history.from_runs [of ?runs] unfolding e example_rle_def by simp
  from vector_refines_list [OF vector_history.replaced_by_value [OF this example_value], of 8] show ?thesis by simp
qed

lemma empty_range_leaves_empty_run_witness:
  "\<exists>r'. rle_replace_value 0 4 4 9 example_rle = Inr r' \<and> rle_list r' = rle_list example_rle \<and> \<not> canonical (rle_runs r') \<and>
    \<not> rle_equal r' example_rle"
  by (rule empty_range_leaves_empty_run [OF example_facts(1,2)]) (simp_all add: example_facts)

end
