(* ===== verification/RleIterator.thy ===== *)
theory RleIterator
  imports RleRefinement
begin

text \<open>
  The iterators of the run-length encoded vector, \<^verbatim>\<open>rle_iterator\<close> of \<^verbatim>\<open>src/src/inc/til/rle.h\<close>, and that they
  walk the list the vector stands for. The iterator of the container is an index.
\<close>

subsection \<open>Iterators\<close>

record 's rle_iterator =
  iter_it :: nat
  iter_pos :: 's

definition iter_begin :: "'s :: len word rle_iterator" where
  "iter_begin = \<lparr>iter_it = 0, iter_pos = 0\<rparr>"

definition iter_end :: "('a, 's :: len) run list \<Rightarrow> 's word rle_iterator" where
  "iter_end runs = \<lparr>iter_it = length runs, iter_pos = 0\<rparr>"

definition iter_value :: "('a, 's :: len) run list \<Rightarrow> 's word rle_iterator \<Rightarrow> 'a option" where
  "iter_value runs i = map_option rle_value (deref runs (iter_it i))"

definition iter_inc :: "('a, 's :: len) run list \<Rightarrow> 's word rle_iterator \<Rightarrow> 's word rle_iterator option" where
  "iter_inc runs i = do {
     let p = iter_pos i + 1;
     run \<leftarrow> deref runs (iter_it i);
     Some (if p = rle_length run then \<lparr>iter_it = iter_it i + 1, iter_pos = 0\<rparr> else i\<lparr>iter_pos := p\<rparr>) }"

definition iter_dec :: "('a, 's :: len) run list \<Rightarrow> 's word rle_iterator \<Rightarrow> 's word rle_iterator option" where
  "iter_dec runs i =
     (if iter_pos i = 0
      then do {
        it \<leftarrow> prev_it (iter_it i);
        run \<leftarrow> deref runs it;
        Some \<lparr>iter_it = it, iter_pos = rle_length run - 1\<rparr> }
      else Some (i\<lparr>iter_pos := iter_pos i - 1\<rparr>))"

text \<open>The postfix operators: the value of the expression, and the iterator itself afterwards.\<close>

definition iter_inc_postfix ::
    "('a, 's :: len) run list \<Rightarrow> 's word rle_iterator \<Rightarrow> ('s word rle_iterator \<times> 's word rle_iterator) option" where
  "iter_inc_postfix runs i = do { tmp \<leftarrow> iter_inc runs i; Some (tmp, i) }"

definition iter_dec_postfix ::
    "('a, 's :: len) run list \<Rightarrow> 's word rle_iterator \<Rightarrow> ('s word rle_iterator \<times> 's word rle_iterator) option" where
  "iter_dec_postfix runs i = do { tmp \<leftarrow> iter_dec runs i; Some (tmp, i) }"

text \<open>The two loops of \<^verbatim>\<open>operator+=\<close>. The differences are signed.\<close>

function move_forward :: "('a, 's :: len) run list \<Rightarrow> nat \<Rightarrow> 's word \<Rightarrow> int \<Rightarrow> 's word rle_iterator option" where
  "move_forward runs it p move =
     (if move > 0
      then (if it < length runs
            then (let space = int (unat (rle_length (runs ! it))) - int (unat p)
                  in if move < space then Some \<lparr>iter_it = it, iter_pos = p + word_of_int move\<rparr>
                     else move_forward runs (it + 1) 0 (move - space))
            else None)
      else Some \<lparr>iter_it = it, iter_pos = p\<rparr>)"
  by pat_completeness auto
termination
  by (relation "measure (\<lambda>(runs, it, p, move). length runs - it)") auto

function move_backward :: "('a, 's :: len) run list \<Rightarrow> nat \<Rightarrow> 's word \<Rightarrow> int \<Rightarrow> 's word rle_iterator option" where
  "move_backward runs it p move =
     (if move > 0
      then (let space = int (unat p)
            in if move \<le> space then Some \<lparr>iter_it = it, iter_pos = p - word_of_int move\<rparr>
               else if it = 0 \<or> it - 1 \<ge> length runs then None
               else move_backward runs (it - 1) (rle_length (runs ! (it - 1)) - 1) (move - (space + 1)))
      else Some \<lparr>iter_it = it, iter_pos = p\<rparr>)"
  by pat_completeness auto
termination
  by (relation "measure (\<lambda>(runs, it, p, move). it)") auto

definition iter_add :: "('a, 's :: len) run list \<Rightarrow> 's word rle_iterator \<Rightarrow> int \<Rightarrow> 's word rle_iterator option" where
  "iter_add runs i move =
     (if move \<ge> 0 then move_forward runs (iter_it i) (iter_pos i) move
      else move_backward runs (iter_it i) (iter_pos i) (- move))"

definition iter_sub :: "('a, 's :: len) run list \<Rightarrow> 's word rle_iterator \<Rightarrow> int \<Rightarrow> 's word rle_iterator option" where
  "iter_sub runs i offset = iter_add runs i (- offset)"

definition iter_less :: "'s :: len word rle_iterator \<Rightarrow> 's word rle_iterator \<Rightarrow> bool" where
  "iter_less i j \<longleftrightarrow> iter_it i < iter_it j \<or> (iter_it i = iter_it j \<and> iter_pos i < iter_pos j)"

text \<open>\<^verbatim>\<open>operator-\<close> of two iterators into the same container.\<close>

definition iter_diff :: "('a, 's :: len) run list \<Rightarrow> 's word rle_iterator \<Rightarrow> 's word rle_iterator \<Rightarrow> int" where
  "iter_diff runs i right =
     (let negative = iter_less i right;
          lower = (if negative then i else right);
          upper = (if negative then right else i);
          distance = fold (\<lambda>run d. d + int (unat (rle_length run))) (drop (iter_it lower) (take (iter_it upper) runs)) 0;
          distance = distance - int (unat (iter_pos lower));
          distance = distance + int (unat (iter_pos upper))
      in if negative then - distance else distance)"

subsection \<open>Iterators are indices of the list\<close>

declare move_forward.simps [simp del] move_backward.simps [simp del]

definition iter_at :: "('a, 's :: len) run list \<Rightarrow> nat \<Rightarrow> 's word rle_iterator \<Rightarrow> bool" where
  "iter_at runs n i \<longleftrightarrow> positioned runs n (iter_it i) (iter_pos i)"

text \<open>The start of a run of a vector without empty runs, and its last position.\<close>

lemma positioned_start:
  "canonical runs \<Longrightarrow> k \<le> length runs \<Longrightarrow> positioned runs (length (expand (take k runs))) k 0"
  by (auto simp: positioned_def canonical_def list_all_length unat_gt_0)

lemma expand_take_Suc: "k < length runs \<Longrightarrow> length (expand (take (Suc k) runs)) = length (expand (take k runs)) + unat (rle_length (runs ! k))"
  by (simp add: take_Suc_conv_app_nth)

lemma unat_plus_int:
  fixes p :: "'s :: len word"
  assumes "0 \<le> m" and "int (unat p) + m < int (unat (q :: 's word))"
  shows "unat (p + word_of_int m) = unat p + nat m"
proof -
  obtain k where k: "m = int k" using assms(1) nonneg_int_cases by blast
  have "unat p + k < unat q" using assms(2) unfolding k by linarith
  also have "\<dots> < 2 ^ LENGTH('s)" by (rule unsigned_less)
  finally have b: "unat p + k < 2 ^ LENGTH('s)" .
  then have "unat (of_nat k :: 's word) = k" by (simp add: unat_of_nat take_bit_nat_eq_self)
  then show ?thesis using b k by (simp add: unat_word_ariths)
qed

lemma unat_minus_int:
  fixes p :: "'s :: len word"
  assumes "0 \<le> m" and "m \<le> int (unat p)"
  shows "unat (p - word_of_int m) = unat p - nat m"
proof -
  obtain k where k: "m = int k" using assms(1) nonneg_int_cases by blast
  have "k \<le> unat p" using assms(2) unfolding k by linarith
  moreover from this have "unat (of_nat k :: 's word) = k"
    by (simp add: unat_of_nat take_bit_nat_eq_self order.strict_trans1 [OF _ unsigned_less])
  ultimately show ?thesis using k by (simp add: unat_sub word_le_nat_alt)
qed

lemma forward_refines:
  "canonical runs \<Longrightarrow> positioned runs n k p \<Longrightarrow> 0 \<le> move \<Longrightarrow> int n + move \<le> int (length (expand runs)) \<Longrightarrow>
   \<exists>i. move_forward runs k p move = Some i \<and> iter_at runs (n + nat move) i"
proof (induction runs k p move arbitrary: n rule: move_forward.induct)
  case (1 runs k p move)
  show ?case
  proof (cases "move > 0")
    case True
    then have k: "k < length runs" using positioned_inside [OF "1.prems"(2)] "1.prems"(4) by simp
    let ?space = "int (unat (rle_length (runs ! k))) - int (unat p)"
    have n: "n = length (expand (take k runs)) + unat p" "unat p < unat (rle_length (runs ! k))"
      using "1.prems"(2) k by (simp_all add: positioned_def)
    show ?thesis
    proof (cases "move < ?space")
      case less: True
      then have "unat (p + word_of_int move) = unat p + nat move"
        using True by (intro unat_plus_int [of _ _ "rle_length (runs ! k)"]) linarith+
      moreover have "unat p + nat move < unat (rle_length (runs ! k))" using less True by linarith
      ultimately have "positioned runs (n + nat move) k (p + word_of_int move)" using n k by (simp add: positioned_def)
      then show ?thesis using True less k by (simp add: move_forward.simps [of runs k p move] iter_at_def)
    next
      case False
      have e: "n + nat ?space = length (expand (take (k + 1) runs))"
        using expand_take_Suc [OF k] n unfolding Suc_eq_plus1 by linarith
      then have "positioned runs (n + nat ?space) (k + 1) 0" using positioned_start [OF "1.prems"(1), of "k + 1"] k by simp
      moreover have "0 \<le> move - ?space" "int (n + nat ?space) + (move - ?space) \<le> int (length (expand runs))"
        using False n(2) "1.prems"(4) by linarith+
      ultimately have "\<exists>i. move_forward runs (k + 1) 0 (move - ?space) = Some i \<and> iter_at runs (n + nat ?space + nat (move - ?space)) i"
        using "1.IH" [OF True k refl False "1.prems"(1)] by blast
      moreover have "n + nat ?space + nat (move - ?space) = n + nat move" using False n(2) by linarith
      moreover have "move_forward runs k p move = move_forward runs (k + 1) 0 (move - ?space)"
        by (subst move_forward.simps) (simp only: True False k if_True if_False Let_def)
      ultimately show ?thesis by metis
    qed
  next
    case False
    then have "move = 0" using "1.prems"(3) by simp
    then show ?thesis using "1.prems"(2) by (simp add: move_forward.simps [of runs k p 0] iter_at_def)
  qed
qed

lemma backward_refines:
  "canonical runs \<Longrightarrow> positioned runs n k p \<Longrightarrow> 0 \<le> move \<Longrightarrow> move \<le> int n \<Longrightarrow>
   \<exists>i. move_backward runs k p move = Some i \<and> iter_at runs (n - nat move) i"
proof (induction runs k p move arbitrary: n rule: move_backward.induct)
  case (1 runs k p move)
  have n: "n = length (expand (take k runs)) + unat p" "k \<le> length runs" using "1.prems"(2) by (auto simp: positioned_def)
  show ?case
  proof (cases "move > 0")
    case True
    show ?thesis
    proof (cases "move \<le> int (unat p)")
      case le: True
      then have u: "unat (p - word_of_int move) = unat p - nat move" using True by (intro unat_minus_int) simp_all
      have "p \<noteq> 0" using le True by auto
      then have "k < length runs" "unat p < unat (rle_length (runs ! k))"
        using "1.prems"(2) by (auto simp: positioned_def split: if_splits)
      moreover have "nat move \<le> unat p" using le by linarith
      ultimately have "positioned runs (n - nat move) k (p - word_of_int move)" using n u by (auto simp: positioned_def)
      then show ?thesis using True le by (simp add: move_backward.simps [of runs k p move] iter_at_def)
    next
      case False
      then have k: "k \<noteq> 0" using n "1.prems"(4) by (cases k) auto
      let ?q = "rle_length (runs ! (k - 1)) - 1"
      have l: "rle_length (runs ! (k - 1)) \<noteq> 0" using "1.prems"(1) k n(2) by (simp add: canonical_def list_all_length)
      then have q: "unat ?q = unat (rle_length (runs ! (k - 1))) - 1" "0 < unat (rle_length (runs ! (k - 1)))"
        by (simp_all add: unat_minus_one unat_gt_0)
      have e: "length (expand (take k runs)) = length (expand (take (k - 1) runs)) + unat (rle_length (runs ! (k - 1)))"
        using expand_take_Suc [of "k - 1" runs] k n(2) by simp
      have pos: "positioned runs (n - (unat p + 1)) (k - 1) ?q" using k n e q by (auto simp: positioned_def)
      have inside: "k \<noteq> 0" "\<not> k - 1 \<ge> length runs" using k n(2) by linarith+
      have step: "move_backward runs k p move = move_backward runs (k - 1) ?q (move - (int (unat p) + 1))"
        by (subst move_backward.simps) (simp only: True False inside if_True if_False Let_def simp_thms)
      have "\<exists>i. move_backward runs (k - 1) ?q (move - (int (unat p) + 1)) = Some i \<and>
          iter_at runs (n - (unat p + 1) - nat (move - (int (unat p) + 1))) i"
        using "1.IH" [OF True refl False _ "1.prems"(1) pos] False "1.prems"(4) k n by simp
      moreover have "n - (unat p + 1) - nat (move - (int (unat p) + 1)) = n - nat move" using False by linarith
      ultimately show ?thesis using step by simp
    qed
  next
    case False
    then have "move = 0" using "1.prems"(3) by simp
    then show ?thesis using "1.prems"(2) by (simp add: move_backward.simps [of runs k p 0] iter_at_def)
  qed
qed

lemma expand_take_mono: "k \<le> k' \<Longrightarrow> length (expand (take k runs)) \<le> length (expand (take k' runs))"
  using expand_length_le [of k "take k' runs"] by (simp add: min_def)

lemma positioned_less:
  assumes "positioned runs n k p" and "positioned runs m k' p'" and "k < k'"
  shows "n < m"
proof -
  have "k < length runs" using assms(2,3) by (simp add: positioned_def)
  then have "n < length (expand (take (Suc k) runs))" using assms(1) expand_take_Suc [of k runs] by (auto simp: positioned_def)
  also have "\<dots> \<le> length (expand (take k' runs))" using assms(3) by (intro expand_take_mono) simp
  also have "\<dots> \<le> m" using assms(2) by (auto simp: positioned_def)
  finally show ?thesis .
qed

lemma positioned_order:
  assumes "positioned runs n k p" and "positioned runs m k' p'"
  shows "n < m \<longleftrightarrow> k < k' \<or> (k = k' \<and> p < p')"
proof (cases k k' rule: linorder_cases)
  case equal
  then show ?thesis using assms by (auto simp: positioned_def word_less_nat_alt)
qed (use positioned_less [OF assms] positioned_less [OF assms(2,1)] in auto)

lemma positioned_unique: "positioned runs n k p \<Longrightarrow> positioned runs n k' p' \<Longrightarrow> k = k' \<and> p = p'"
  using positioned_order [of runs n k p n k' p'] positioned_order [of runs n k' p' n k p] by auto

lemma fold_run_lengths: "fold (\<lambda>run d. d + uint (rle_length run)) runs d = d + int (length (expand runs))"
  by (induction runs arbitrary: d) simp_all

lemma value_at_position:
  assumes "positioned runs n k p"
  shows "map_option rle_value (deref runs k) = (if n < length (expand runs) then Some (expand runs ! n) else None)"
proof (cases "k < length runs")
  case True
  then have "drop n (expand runs) = run_list ((runs ! k)\<lparr>rle_length := rle_length (runs ! k) - p\<rparr>) @ expand (drop (Suc k) runs)"
    using expand_tail [OF assms] by (simp add: tail_runs_def)
  moreover have "0 < unat (rle_length (runs ! k) - p)"
    using True assms by (auto simp: positioned_def unat_gt_0)
  moreover have "n < length (expand runs)" using positioned_inside [OF assms] True by simp
  ultimately have "expand runs ! n = rle_value (runs ! k)" using hd_drop_conv_nth [of n "expand runs"] by simp
  then show ?thesis using True \<open>n < length (expand runs)\<close> by (simp add: deref_def)
next
  case False
  then show ?thesis using positioned_inside [OF assms] by (simp add: deref_def)
qed

lemma diff_refines:
  assumes "iter_at runs n i" and "iter_at runs m j"
  shows "iter_diff runs i j = int n - int m"
proof -
  have d: "int (length (expand (drop a (take b runs)))) = int (length (expand (take b runs))) - int (length (expand (take a runs)))"
    if "a \<le> b" for a b
    using that expand_split [of a "take b runs"] by (simp add: min_def flip: length_append) (metis add_diff_cancel_left' length_append of_nat_add)
  have n: "int n = int (length (expand (take (iter_it i) runs))) + int (unat (iter_pos i))"
    "int m = int (length (expand (take (iter_it j) runs))) + int (unat (iter_pos j))"
    using assms by (auto simp: iter_at_def positioned_def)
  show ?thesis
  proof (cases "iter_less i j")
    case True
    then have "iter_it i \<le> iter_it j" by (auto simp: iter_less_def)
    then show ?thesis using True n d by (simp add: iter_diff_def fold_run_lengths Let_def)
  next
    case False
    then have "iter_it j \<le> iter_it i" by (auto simp: iter_less_def)
    then show ?thesis using False n d by (simp add: iter_diff_def fold_run_lengths Let_def)
  qed
qed

lemma add_refines:
  assumes "canonical runs" and "iter_at runs n i" and "0 \<le> int n + move" and "int n + move \<le> int (length (expand runs))"
  shows "\<exists>i'. iter_add runs i move = Some i' \<and> iter_at runs (nat (int n + move)) i'"
proof (cases "move \<ge> 0")
  case True
  then show ?thesis using forward_refines [of runs n "iter_it i" "iter_pos i" move] assms
    by (simp add: iter_add_def iter_at_def nat_add_distrib)
next
  case False
  then have "nat (int n + move) = n - nat (- move)" by linarith
  then show ?thesis using False backward_refines [of runs n "iter_it i" "iter_pos i" "- move"] assms
    by (simp add: iter_add_def iter_at_def)
qed

text \<open>C33: The iterators of a vector are the indices of its list: moving by any distance that stays within the
  list, in either direction and over any number of runs, gives the iterator of that index;
  dereferencing reads the element there; and comparing or subtracting iterators compares or
  subtracts indices.\<close>

theorem iterators_are_indices:
  assumes c: "canonical runs" and i: "iter_at runs n i" and j: "iter_at runs m j"
    and "0 \<le> int n + move" and "int n + move \<le> int (length (expand runs))"
  shows "(\<exists>i'. iter_add runs i move = Some i' \<and> iter_at runs (nat (int n + move)) i') \<and>
    iter_value runs i = (if n < length (expand runs) then Some (expand runs ! n) else None) \<and>
    (iter_less i j \<longleftrightarrow> n < m) \<and> (i = j \<longleftrightarrow> n = m) \<and> iter_diff runs i j = int n - int m"
proof (intro conjI)
  show "\<exists>i'. iter_add runs i move = Some i' \<and> iter_at runs (nat (int n + move)) i'" by (rule add_refines [OF c i assms(4,5)])
  show "iter_value runs i = (if n < length (expand runs) then Some (expand runs ! n) else None)"
    using i unfolding iter_value_def iter_at_def by (rule value_at_position)
  show "iter_less i j \<longleftrightarrow> n < m" using positioned_order [OF i [unfolded iter_at_def] j [unfolded iter_at_def]] by (simp add: iter_less_def)
  show "i = j \<longleftrightarrow> n = m"
    using positioned_unique [of runs n "iter_it i" "iter_pos i" "iter_it j" "iter_pos j"] i j by (auto simp: iter_at_def positioned_def)
  show "iter_diff runs i j = int n - int m" by (rule diff_refines [OF i j])
qed

lemma inc_refines:
  assumes c: "canonical runs" and i: "iter_at runs n i" and "n < length (expand runs)"
  shows "\<exists>j. iter_inc runs i = Some j \<and> iter_at runs (Suc n) j"
proof -
  have k: "iter_it i < length runs" using i assms(3) positioned_inside by (auto simp: iter_at_def)
  have n: "n = length (expand (take (iter_it i) runs)) + unat (iter_pos i)" "unat (iter_pos i) < unat (rle_length (runs ! iter_it i))"
    using i k by (simp_all add: iter_at_def positioned_def)
  have u: "unat (iter_pos i + 1) = Suc (unat (iter_pos i))" using cut_refines(1) i k by (simp add: iter_at_def)
  show ?thesis
  proof (cases "iter_pos i + 1 = rle_length (runs ! iter_it i)")
    case True
    then have "Suc n = length (expand (take (iter_it i + 1) runs))" using expand_take_Suc [OF k] n(1) u by simp
    then have "positioned runs (Suc n) (iter_it i + 1) 0" using positioned_start [OF c, of "iter_it i + 1"] k by simp
    then show ?thesis using True k by (simp add: iter_inc_def deref_def iter_at_def)
  next
    case False
    then have "unat (iter_pos i + 1) \<noteq> unat (rle_length (runs ! iter_it i))" by (simp add: word_unat_eq_iff)
    then have "positioned runs (Suc n) (iter_it i) (iter_pos i + 1)" using n u k by (simp add: positioned_def)
    then show ?thesis using False k by (simp add: iter_inc_def deref_def iter_at_def)
  qed
qed

text \<open>The postfix operators of the iterator do not move it: their value is the moved copy, and the iterator
  stays where it was, the other way round than the prefix operators and the postfix operators of
  every standard iterator.\<close>

theorem postfix_does_not_move:
  assumes "canonical runs" and "iter_at runs n i" and "n < length (expand runs)"
  shows "\<exists>next. iter_at runs (Suc n) next \<and> iter_inc_postfix runs i = Some (next, i)"
proof -
  obtain j where j: "iter_inc runs i = Some j" "iter_at runs (Suc n) j" using inc_refines [OF assms] by blast
  then show ?thesis by (simp add: iter_inc_postfix_def)
qed

lemma example_iterators:
  "iter_at (rle_runs example_rle) 4 \<lparr>iter_it = 1, iter_pos = 1\<rparr>" "iter_at (rle_runs example_rle) 8 \<lparr>iter_it = 2, iter_pos = 2\<rparr>"
  "expand (rle_runs example_rle) = [1, 1, 1, 2, 2, 2, 3, 3, 3]"
  by code_simp+

lemma iterators_are_indices_witness:
  "(\<exists>i. iter_add (rle_runs example_rle) \<lparr>iter_it = 1, iter_pos = 1\<rparr> 3 = Some i \<and> iter_at (rle_runs example_rle) 7 i) \<and>
   iter_value (rle_runs example_rle) \<lparr>iter_it = 1, iter_pos = 1\<rparr> = Some 2 \<and>
   iter_diff (rle_runs example_rle) \<lparr>iter_it = 1, iter_pos = 1\<rparr> \<lparr>iter_it = 2, iter_pos = 2\<rparr> = - 4"
  using iterators_are_indices [OF example_facts(2) example_iterators(1,2), of 3] by (simp add: example_iterators(3))

lemma postfix_does_not_move_witness:
  "\<exists>next. iter_at (rle_runs example_rle) (Suc 4) next \<and>
     iter_inc_postfix (rle_runs example_rle) \<lparr>iter_it = 1, iter_pos = 1\<rparr> = Some (next, \<lparr>iter_it = 1, iter_pos = 1\<rparr>)"
  by (rule postfix_does_not_move [OF example_facts(2) example_iterators(1)]) (simp add: example_iterators(3))

end
