(* ===== verification/CodepointTables.thy ===== *)
theory CodepointTables
  imports Prelude
begin

text \<open>
  The tables of \<^verbatim>\<open>src/src/types/CodepointWidthDetector.cpp\<close>: four stages that map a code point to its
  properties, and the rules that say which code points join into one cluster. The numbers are those
  of the source.
\<close>

definition s_stage0 :: "nat list" where
  "s_stage0 = concat
    [[0x0, 0x20, 0x40, 0x60, 0x80, 0x9F, 0xBF, 0xCA, 0xCA, 0xCA, 0xCA, 0xCA, 0xCA, 0xCA, 0xCA, 0xCA],
     [0xCA, 0xCA, 0xCA, 0xCA, 0xD8, 0xF8, 0x10A, 0x10E, 0x10B, 0x108, 0x113, 0x133, 0x153, 0x153, 0x153, 0x16F],
     [0x18F, 0x1A7, 0x1C7, 0x1E7, 0x133, 0x133, 0x205, 0x133, 0x133, 0x133, 0x133, 0x133, 0x221, 0x236, 0xCA, 0xCA],
     [0x256, 0x276, 0x133, 0x133, 0x133, 0x28B, 0x2AB, 0x2B9, 0x133, 0x2CC, 0x2EA, 0x302, 0x322, 0x33F, 0x35F, 0x37F],
     [0xCA, 0xCA, 0xCA, 0xCA, 0xCA, 0xCA, 0xCA, 0xCA, 0xCA, 0xCA, 0xCA, 0xCA, 0xCA, 0xCA, 0xCA, 0xCA],
     [0xCA, 0xCA, 0xCA, 0xCA, 0xCA, 0xCA, 0xCA, 0xCA, 0xCA, 0xCA, 0xCA, 0xCA, 0xCA, 0xCA, 0xCA, 0x39F],
     [0xCA, 0xCA, 0xCA, 0xCA, 0xCA, 0xCA, 0xCA, 0xCA, 0xCA, 0xCA, 0xCA, 0xCA, 0xCA, 0xCA, 0xCA, 0xCA],
     [0xCA, 0xCA, 0xCA, 0xCA, 0xCA, 0xCA, 0xCA, 0xCA, 0xCA, 0xCA, 0xCA, 0xCA, 0xCA, 0xCA, 0xCA, 0x39F],
     [0x133, 0x133, 0x133, 0x133, 0x133, 0x133, 0x133, 0x133, 0x133, 0x133, 0x133, 0x133, 0x133, 0x133, 0x133, 0x133],
     [0x133, 0x133, 0x133, 0x133, 0x133, 0x133, 0x133, 0x133, 0x133, 0x133, 0x133, 0x133, 0x133, 0x133, 0x133, 0x133],
     [0x133, 0x133, 0x133, 0x133, 0x133, 0x133, 0x133, 0x133, 0x133, 0x133, 0x133, 0x133, 0x133, 0x133, 0x133, 0x133],
     [0x133, 0x133, 0x133, 0x133, 0x133, 0x133, 0x133, 0x133, 0x133, 0x133, 0x133, 0x133, 0x133, 0x133, 0x133, 0x133],
     [0x133, 0x133, 0x133, 0x133, 0x133, 0x133, 0x133, 0x133, 0x133, 0x133, 0x133, 0x133, 0x133, 0x133, 0x133, 0x133],
     [0x133, 0x133, 0x133, 0x133, 0x133, 0x133, 0x133, 0x133, 0x133, 0x133, 0x133, 0x133, 0x133, 0x133, 0x133, 0x133],
     [0x133, 0x133, 0x133, 0x133, 0x133, 0x133, 0x133, 0x133, 0x133, 0x133, 0x133, 0x133, 0x133, 0x133, 0x133, 0x133],
     [0x133, 0x133, 0x133, 0x133, 0x133, 0x133, 0x133, 0x133, 0x133, 0x133, 0x133, 0x133, 0x133, 0x133, 0x133, 0x133],
     [0x133, 0x133, 0x133, 0x133, 0x133, 0x133, 0x133, 0x133, 0x133, 0x133, 0x133, 0x133, 0x133, 0x133, 0x133, 0x133],
     [0x133, 0x133, 0x133, 0x133, 0x133, 0x133, 0x133, 0x133, 0x133, 0x133, 0x133, 0x133, 0x133, 0x133, 0x133, 0x133],
     [0x133, 0x133, 0x133, 0x133, 0x133, 0x133, 0x133, 0x133, 0x133, 0x133, 0x133, 0x133, 0x133, 0x133, 0x133, 0x133],
     [0x133, 0x133, 0x133, 0x133, 0x133, 0x133, 0x133, 0x133, 0x133, 0x133, 0x133, 0x133, 0x133, 0x133, 0x133, 0x133],
     [0x133, 0x133, 0x133, 0x133, 0x133, 0x133, 0x133, 0x133, 0x133, 0x133, 0x133, 0x133, 0x133, 0x133, 0x133, 0x133],
     [0x133, 0x133, 0x133, 0x133, 0x133, 0x133, 0x133, 0x133, 0x133, 0x133, 0x133, 0x133, 0x133, 0x133, 0x133, 0x133],
     [0x133, 0x133, 0x133, 0x133, 0x133, 0x133, 0x133, 0x133, 0x133, 0x133, 0x133, 0x133, 0x133, 0x133, 0x133, 0x133],
     [0x133, 0x133, 0x133, 0x133, 0x133, 0x133, 0x133, 0x133, 0x133, 0x133, 0x133, 0x133, 0x133, 0x133, 0x133, 0x133],
     [0x133, 0x133, 0x133, 0x133, 0x133, 0x133, 0x133, 0x133, 0x133, 0x133, 0x133, 0x133, 0x133, 0x133, 0x133, 0x133],
     [0x133, 0x133, 0x133, 0x133, 0x133, 0x133, 0x133, 0x133, 0x133, 0x133, 0x133, 0x133, 0x133, 0x133, 0x133, 0x133],
     [0x133, 0x133, 0x133, 0x133, 0x133, 0x133, 0x133, 0x133, 0x133, 0x133, 0x133, 0x133, 0x133, 0x133, 0x133, 0x133],
     [0x133, 0x133, 0x133, 0x133, 0x133, 0x133, 0x133, 0x133, 0x133, 0x133, 0x133, 0x133, 0x133, 0x133, 0x133, 0x133],
     [0x3BF, 0x3C7, 0x133, 0x133, 0x133, 0x133, 0x133, 0x133, 0x133, 0x133, 0x133, 0x133, 0x133, 0x133, 0x133, 0x133],
     [0x133, 0x133, 0x133, 0x133, 0x133, 0x133, 0x133, 0x133, 0x133, 0x133, 0x133, 0x133, 0x133, 0x133, 0x133, 0x133],
     [0x153, 0x153, 0x153, 0x153, 0x153, 0x153, 0x153, 0x153, 0x153, 0x153, 0x153, 0x153, 0x153, 0x153, 0x153, 0x153],
     [0x153, 0x153, 0x153, 0x153, 0x153, 0x153, 0x153, 0x153, 0x153, 0x153, 0x153, 0x153, 0x153, 0x153, 0x153, 0x3E7],
     [0x153, 0x153, 0x153, 0x153, 0x153, 0x153, 0x153, 0x153, 0x153, 0x153, 0x153, 0x153, 0x153, 0x153, 0x153, 0x153],
     [0x153, 0x153, 0x153, 0x153, 0x153, 0x153, 0x153, 0x153, 0x153, 0x153, 0x153, 0x153, 0x153, 0x153, 0x153, 0x3E7]]"

definition s_stage1 :: "nat list" where
  "s_stage1 = concat
    [[0x0, 0x4, 0xC, 0x14, 0x1C, 0x24, 0x2A, 0x31, 0x2A, 0x37, 0x2A, 0x3F, 0x47, 0x49, 0x4F, 0x57],
     [0x5F, 0x65, 0x6D, 0x2A, 0x2A, 0x2A, 0x73, 0x7B, 0x83, 0x8A, 0x2A, 0x91, 0x98, 0x9F, 0xA3, 0xAA],
     [0xB2, 0xB8, 0xBE, 0xC5, 0xCD, 0xD5, 0xDD, 0xE5, 0xED, 0xF5, 0xFD, 0x105, 0x10D, 0x115, 0x11D, 0x125],
     [0x12D, 0x135, 0x13D, 0x145, 0x14D, 0x155, 0x15D, 0x164, 0x16B, 0x173, 0x175, 0x17D, 0x182, 0x18A, 0x192, 0x19A],
     [0x19D, 0x1A5, 0x1AD, 0x2A, 0x1B5, 0x1B9, 0x1BD, 0x1C2, 0x2A, 0x2A, 0x2A, 0x2A, 0x2A, 0x1CA, 0x2A, 0x2A],
     [0x2A, 0x2A, 0x2A, 0x2A, 0x2A, 0x2A, 0x2A, 0x2A, 0x2A, 0x2A, 0x2A, 0x2A, 0x1D0, 0x1D7, 0x1DE, 0x1E6],
     [0x1ED, 0x2A, 0x1F5, 0x2A, 0x1FB, 0x2A, 0x2A, 0x2A, 0x203, 0x209, 0x211, 0x218, 0x220, 0x228, 0x230, 0x236],
     [0x23D, 0x2A, 0x2A, 0x244, 0x2A, 0x2A, 0x2A, 0x47, 0x2A, 0x2A, 0x2A, 0x2A, 0x2A, 0x2A, 0x2A, 0x2A],
     [0x24C, 0x254, 0x25C, 0x262, 0x26A, 0x272, 0x27A, 0x282, 0x28A, 0x292, 0x29A, 0x2A, 0x2A2, 0x2A, 0x2A9, 0x2B0],
     [0x2A, 0x2B8, 0x2BC, 0x2C4, 0x2A, 0x2A, 0x2CC, 0x2D4, 0x2DC, 0x2E4, 0x2EC, 0x2F4, 0x2FC, 0x304, 0x30C, 0x2A],
     [0x2A, 0x2A, 0x2A, 0x314, 0x2A, 0x2A, 0x2A, 0x2A, 0x2A, 0x2A, 0x2A, 0x31C, 0x322, 0x2A, 0x2A, 0x2A],
     [0x2A, 0x2A, 0x326, 0x2A, 0x32D, 0x2A, 0x43, 0x2A, 0x2A, 0x335, 0x339, 0x341, 0x341, 0x341, 0x347, 0x34D],
     [0x355, 0x35B, 0x341, 0x363, 0x341, 0x36A, 0x36E, 0x374, 0x37B, 0x381, 0x341, 0x341, 0x341, 0x341, 0x341, 0x341],
     [0x341, 0x341, 0x341, 0x341, 0x341, 0x341, 0x341, 0x341, 0x341, 0x341, 0x341, 0x341, 0x341, 0x341, 0x341, 0x341],
     [0x341, 0x341, 0x341, 0x341, 0x341, 0x341, 0x341, 0x341, 0x341, 0x341, 0x388, 0x390, 0x2A, 0x2A, 0x2A, 0x2A],
     [0x2A, 0x393, 0x39B, 0x17F, 0x2A, 0x2A, 0x2A, 0x2A, 0x3A3, 0x2A, 0x3AB, 0x3B3, 0x3BB, 0x3C3, 0x3CB, 0x3D3],
     [0x3D8, 0x3E0, 0x3E8, 0x3F0, 0x2A, 0x2A, 0x2A, 0x3F7, 0x3FF, 0x400, 0x401, 0x402, 0x403, 0x404, 0x405, 0x3FF],
     [0x400, 0x401, 0x402, 0x403, 0x404, 0x405, 0x3FF, 0x400, 0x401, 0x402, 0x403, 0x404, 0x405, 0x3FF, 0x400, 0x401],
     [0x402, 0x403, 0x404, 0x405, 0x3FF, 0x400, 0x401, 0x402, 0x403, 0x404, 0x405, 0x3FF, 0x400, 0x401, 0x402, 0x403],
     [0x404, 0x40C, 0x414, 0x2A, 0x2A, 0x2A, 0x2A, 0x2A, 0x2A, 0x2A, 0x2A, 0x2A, 0x2A, 0x2A, 0x2A, 0x2A],
     [0x2A, 0x2A, 0x2A, 0x2A, 0x2A, 0x2A, 0x2A, 0x2A, 0x2A, 0x2A, 0x2A, 0x2A, 0x2A, 0x2A, 0x2A, 0x2A],
     [0x2A, 0x2A, 0x2A, 0x2BC, 0x2BC, 0x2BC, 0x2BC, 0x2BC, 0x2BC, 0x2BC, 0x2BC, 0x2BC, 0x2BC, 0x2BC, 0x2BC, 0x2BC],
     [0x2BC, 0x2BC, 0x2BC, 0x2BC, 0x2BC, 0x2BC, 0x2BC, 0x2BC, 0x2BC, 0x2BC, 0x2BC, 0x2BC, 0x2BC, 0x2BC, 0x2BC, 0x2BC],
     [0x2BC, 0x2BC, 0x2BC, 0x341, 0x341, 0x341, 0x341, 0x341, 0x341, 0x341, 0x341, 0x41C, 0x2A, 0x2A, 0x2A, 0x2A],
     [0x2A, 0x2A, 0x2A, 0x2A, 0x2A, 0x2A, 0x2A, 0x424, 0x42A, 0x2A, 0x32D, 0x355, 0x432, 0x437, 0x43B, 0x2A],
     [0x2A, 0x2A, 0x2A, 0x2A, 0x2A, 0x2A, 0x443, 0x2A, 0x2A, 0x2A, 0x44B, 0x2A, 0x450, 0x2A, 0x2A, 0x2A],
     [0x2A, 0x2A, 0x2A, 0x2A, 0x2A, 0x2A, 0x2A, 0x2A, 0x2A, 0x2A, 0x2A, 0x2A, 0x2A, 0x2A, 0x2A, 0x458],
     [0x2A, 0x2A, 0x1F1, 0x2A, 0x2A, 0x2A, 0x2A, 0x2A, 0x2A, 0x2A, 0x2A, 0x460, 0x465, 0x2A, 0x2A, 0x2A],
     [0x2A, 0x46B, 0x471, 0x2A, 0xA7, 0x479, 0x2A, 0x481, 0x489, 0x491, 0x499, 0x4A1, 0x4A9, 0x4B1, 0x4B9, 0x4BC],
     [0x4C4, 0x2A, 0x4C9, 0x4D1, 0x4D9, 0x4E0, 0x4E8, 0x4ED, 0x4F5, 0x4F9, 0x501, 0x2A, 0x2A, 0x504, 0x50C, 0x510],
     [0x518, 0x51B, 0x2A, 0x522, 0x2A, 0x2A, 0x2A, 0x528, 0x2A, 0x2A, 0x2A, 0x530, 0x538, 0x2A, 0x53E, 0x546],
     [0x54E, 0x556, 0x2A, 0x2A, 0x2A, 0x2A, 0x2A, 0x55A, 0x2A, 0x562, 0x2A, 0x569, 0x571, 0x578, 0x2A, 0x2A],
     [0x2A, 0x2A, 0x57B, 0x583, 0x58B, 0x2A, 0x2A, 0x2A, 0x2A, 0x2A, 0x2A, 0x2A, 0x2A, 0x2A, 0x2A, 0x2A],
     [0x2A, 0x2A, 0x2A, 0x2A, 0x2A, 0x211, 0x593, 0x2A, 0x2A, 0x2A, 0x2A, 0x2A, 0x2A, 0x2A, 0x2A, 0x2A],
     [0x2A, 0x2A, 0x2A, 0x2A, 0x2A, 0x598, 0x2A, 0x2A, 0x2A, 0x2A, 0x2A, 0x2A, 0x2A, 0x2A, 0x2A, 0x2A],
     [0x2A, 0x2A, 0x2A, 0x2A, 0x2A, 0x2A, 0x2A, 0x2A, 0x2A, 0x2A, 0x2A, 0x2A, 0x2A, 0x2A, 0x2A, 0x2A],
     [0x2A, 0x59E, 0x5A5, 0x2A, 0x2A, 0x2A, 0x2A, 0x2A, 0x2A, 0x2A, 0x2A, 0x5AC, 0x2A, 0x2A, 0x2A, 0x2A],
     [0x2A, 0x2A, 0x2A, 0x5B3, 0x5BA, 0x5BE, 0x341, 0x341, 0x341, 0x341, 0x341, 0x341, 0x341, 0x341, 0x341, 0x341],
     [0x341, 0x341, 0x341, 0x341, 0x341, 0x341, 0x341, 0x341, 0x341, 0x341, 0x341, 0x341, 0x341, 0x341, 0x341, 0x341],
     [0x341, 0x341, 0x341, 0x341, 0x341, 0x5C6, 0x341, 0x341, 0x341, 0x341, 0x341, 0x341, 0x341, 0x341, 0x341, 0x341],
     [0x341, 0x341, 0x341, 0x341, 0x341, 0x341, 0x341, 0x341, 0x341, 0x5CE, 0x5D6, 0x2A, 0x2A, 0x2A, 0x2A, 0x2A],
     [0x2A, 0x2A, 0x2A, 0x2A, 0x2A, 0x2A, 0x2A, 0x2A, 0x2A, 0x2A, 0x2A, 0x2A, 0x2A, 0x2A, 0x2A, 0x2A],
     [0x2A, 0x2A, 0x2A, 0x2A, 0x2A, 0x2A, 0x2A, 0x2A, 0x2A, 0x2A, 0x5D8, 0x341, 0x341, 0x341, 0x341, 0x5E0],
     [0x5E7, 0x341, 0x341, 0x341, 0x341, 0x341, 0x5ED, 0x2A, 0x2A, 0x2A, 0x2A, 0x2A, 0x2A, 0x2A, 0x2A, 0x2A],
     [0x2A, 0x2A, 0x2A, 0x2A, 0x2A, 0x2A, 0x2A, 0x2A, 0x2A, 0x2A, 0x2A, 0x5F5, 0x2A, 0x2A, 0x2A, 0x2A],
     [0x2A, 0x2A, 0x2A, 0x2A, 0x2A, 0x2A, 0x2A, 0x2A, 0x2A, 0x2A, 0x2A, 0x2A, 0x2A, 0x2A, 0x2A, 0x2A],
     [0x2A, 0x2A, 0x2A, 0x2A, 0x2A, 0x2A, 0x2A, 0x2A, 0x5FD, 0x605, 0x2A, 0x2A, 0x2A, 0x2A, 0x2A, 0x609],
     [0x611, 0x2A, 0x2A, 0x619, 0x2A, 0x2A, 0x341, 0x621, 0x2A, 0x2A, 0x2A, 0x2A, 0x2A, 0x2A, 0x2A, 0x2A],
     [0x2A, 0x2A, 0x2A, 0x2A, 0x2A, 0x2A, 0x2A, 0x2A, 0x2A, 0x2A, 0x629, 0x631, 0x639, 0x2A, 0x2A, 0x2A],
     [0x2A, 0x2A, 0x2A, 0x2A, 0x2A, 0x2A, 0x2A, 0x2A, 0x2A, 0x2A, 0x2A, 0x2A, 0x2A, 0x2A, 0x2A, 0x2A],
     [0x2A, 0x2A, 0x641, 0x2A, 0x648, 0x2A, 0x5A5, 0x2A, 0x2A, 0x2A, 0x2A, 0x2A, 0x64B, 0x651, 0x2A, 0x2A],
     [0x2A, 0x2A, 0x2A, 0x2A, 0x2A, 0x651, 0x2A, 0x2A, 0x2A, 0x657, 0x2A, 0x2A, 0x2A, 0x2A, 0x2A, 0x2A],
     [0x2A, 0x2A, 0x65D, 0x2A, 0x665, 0x2A, 0x2A, 0x2A, 0x2A, 0x2A, 0x2A, 0x2A, 0x2A, 0x2A, 0x2A, 0x2A],
     [0x2A, 0x2A, 0x2A, 0x2A, 0x2A, 0x2A, 0x2A, 0x2A, 0x2A, 0x2A, 0x2A, 0x2A, 0x2A, 0x2A, 0x2A, 0x66D],
     [0x66E, 0x66E, 0x675, 0x67D, 0x683, 0x68B, 0x691, 0x699, 0x6A1, 0x66E, 0x66E, 0x6A9, 0x6B0, 0x6B8, 0x6BF, 0x6C7],
     [0x6CF, 0x6D0, 0x6D1, 0x6D9, 0x6E1, 0x6E9, 0x6EE, 0x6D0, 0x6F6, 0x6D0, 0x6FE, 0x2A, 0x706, 0x2A, 0x70E, 0x716],
     [0x71D, 0x724, 0x66E, 0x72C, 0x734, 0x6D0, 0x6D0, 0x66E, 0x73C, 0x744, 0x74C, 0x2A, 0x2A, 0x2A, 0x2A, 0x66E],
     [0x66E, 0x66E, 0x66E, 0x66E, 0x66E, 0x66E, 0x66E, 0x66E, 0x66E, 0x66E, 0x66E, 0x66E, 0x66E, 0x66E, 0x754, 0x341],
     [0x341, 0x341, 0x341, 0x341, 0x341, 0x341, 0x341, 0x341, 0x341, 0x341, 0x341, 0x341, 0x341, 0x341, 0x341, 0x341],
     [0x341, 0x341, 0x341, 0x341, 0x341, 0x341, 0x341, 0x341, 0x341, 0x341, 0x341, 0x341, 0x341, 0x341, 0x342, 0x75C],
     [0x47, 0x764, 0x764, 0x47, 0x47, 0x47, 0x76C, 0x764, 0x764, 0x764, 0x764, 0x764, 0x764, 0x764, 0x764, 0x764],
     [0x764, 0x764, 0x764, 0x764, 0x764, 0x764, 0x764, 0x764, 0x764, 0x764, 0x764, 0x764, 0x764, 0x764, 0x764, 0x764],
     [0x764, 0x764, 0x764, 0x764, 0x764, 0x764, 0x764, 0x2BC, 0x2BC, 0x2BC, 0x2BC, 0x2BC, 0x2BC, 0x2BC, 0x2BC, 0x2BC],
     [0x2BC, 0x2BC, 0x2BC, 0x2BC, 0x2BC, 0x2BC, 0x2BC, 0x2BC, 0x2BC, 0x2BC, 0x2BC, 0x2BC, 0x2BC, 0x2BC, 0x2BC, 0x2BC],
     [0x2BC, 0x2BC, 0x2BC, 0x2BC, 0x2BC, 0x2BC, 0x774]]"

definition s_stage2 :: "nat list" where
  "s_stage2 = concat
    [[0x0, 0x0, 0x0, 0x0, 0x8, 0x8, 0x8, 0x8, 0x8, 0x8, 0x8, 0x9, 0x0, 0x0, 0x0, 0x0],
     [0x11, 0x18, 0x20, 0x22, 0x2A, 0x8, 0x29, 0x30, 0x36, 0x3E, 0x40, 0x47, 0x4C, 0x8, 0x4A, 0x2D],
     [0x4E, 0x2D, 0x53, 0x29, 0x5B, 0x63, 0x34, 0x8, 0x4E, 0x2D, 0x8, 0x8, 0x8, 0x8, 0x8, 0x8],
     [0x8, 0x8, 0x2A, 0x6B, 0x49, 0x8, 0x8, 0x8, 0x8, 0x4C, 0x8, 0x4C, 0x8, 0x8, 0x8, 0x72],
     [0x5A, 0x79, 0x81, 0x8, 0x8, 0x8, 0x8, 0x89, 0x89, 0x89, 0x89, 0x89, 0x89, 0x89, 0x89, 0x8],
     [0x8, 0x91, 0x92, 0x98, 0x28, 0x91, 0x92, 0x98, 0x28, 0x8, 0x8, 0x8, 0x8, 0x8, 0x8, 0x4C],
     [0x8, 0x92, 0x92, 0x92, 0x92, 0x92, 0x92, 0x4C, 0x8, 0x8, 0x8, 0x8, 0x8, 0xA0, 0xA6, 0x8],
     [0x8, 0x8, 0x8, 0x8, 0x8, 0xAD, 0x89, 0x89, 0x89, 0x89, 0xAF, 0xB5, 0x8, 0x8, 0x8, 0x8],
     [0x8, 0x8, 0x8, 0xBD, 0x8, 0x89, 0xC5, 0x8, 0x8, 0x8, 0x8, 0xA0, 0x89, 0x89, 0x8, 0x8],
     [0xC9, 0x8, 0x8, 0xA8, 0xD1, 0xD8, 0xDF, 0x8, 0x8, 0xE5, 0xC8, 0x8, 0x8, 0x8, 0x89, 0x89],
     [0xA5, 0x8, 0x8, 0x8, 0x8, 0x8, 0x8, 0xA8, 0x89, 0xC9, 0x8, 0x8, 0x8, 0x8, 0x8, 0xA0],
     [0xA4, 0xED, 0x8, 0x8, 0xA8, 0xF5, 0xF9, 0xA2, 0x8, 0x8, 0x8, 0xFD, 0x8, 0x8, 0x8, 0x8],
     [0x105, 0x89, 0x8, 0x8, 0x8, 0x8, 0xAC, 0x89, 0x89, 0x10C, 0x89, 0x89, 0x89, 0x111, 0x8, 0x115],
     [0x11A, 0x11A, 0x11A, 0x11A, 0x120, 0x127, 0x12E, 0xAD, 0x11A, 0x136, 0x8, 0x8, 0x11A, 0x13D, 0x8, 0x115],
     [0x11A, 0x11A, 0x145, 0x14C, 0x152, 0x159, 0x160, 0x166, 0x16E, 0x136, 0x8, 0x175, 0x177, 0x17E, 0x8, 0x8],
     [0x8, 0x8, 0x8, 0x8, 0x182, 0x189, 0x190, 0xC8, 0x8, 0x8, 0x8, 0x194, 0x8, 0x17E, 0x8, 0x115],
     [0x11A, 0x11A, 0x145, 0x19C, 0x152, 0x1A4, 0x1AB, 0x8, 0x8, 0x136, 0x8, 0x8, 0x1B2, 0x13D, 0x8, 0x115],
     [0x11A, 0x11A, 0x145, 0x19C, 0x1BA, 0x159, 0x160, 0x1C2, 0x16E, 0x136, 0x8, 0x1CA, 0x8, 0x1D0, 0x8, 0x8],
     [0x8, 0x8, 0x8, 0x8, 0x1D3, 0x1DB, 0x1E2, 0x166, 0x8, 0x8, 0x8, 0x8, 0x8, 0x1EA, 0x8, 0x115],
     [0x11A, 0x11A, 0x145, 0x11A, 0x1F2, 0x1F9, 0x200, 0x206, 0x20E, 0x136, 0x8, 0x8, 0x8, 0x13D, 0x8, 0x8],
     [0x8, 0x8, 0x8, 0x8, 0x212, 0x21A, 0x221, 0x227, 0x8, 0x136, 0x8, 0x16A, 0x8, 0x22F, 0x8, 0x115],
     [0x11A, 0x11A, 0x11A, 0x11A, 0x237, 0x23E, 0x245, 0x166, 0x8, 0x136, 0x8, 0x8, 0x8, 0x13D, 0x8, 0x8],
     [0x8, 0x8, 0x8, 0x8, 0x8, 0x24C, 0x253, 0x25B, 0x8, 0x8, 0x263, 0x8, 0x8, 0x8, 0x8, 0x8],
     [0x8, 0x26A, 0xA5, 0xCA, 0x8A, 0x8, 0x8, 0x8, 0x8, 0x8, 0x8, 0x26A, 0xA3, 0x8, 0x8A, 0x8],
     [0x8, 0x8, 0x8, 0x8, 0x8, 0xA6, 0x8, 0x8, 0x178, 0x24D, 0x8, 0x8, 0x8, 0x8, 0x8, 0x8],
     [0xAD, 0x128, 0xB0, 0xA9, 0x89, 0xAD, 0x89, 0x89, 0x89, 0xA3, 0x177, 0x8, 0x8, 0x8, 0x8, 0x8],
     [0x8, 0x8, 0xA9, 0x271, 0x279, 0x8, 0x8, 0x1D3, 0x27E, 0xC9, 0x8, 0xE0, 0x8, 0x286, 0xED, 0x8],
     [0xED, 0x8, 0x8, 0x8, 0x8, 0x28E, 0x28E, 0x28E, 0x28E, 0x28E, 0x28E, 0x28E, 0x28E, 0x296, 0x296, 0x296],
     [0x296, 0x296, 0x29E, 0x29E, 0x29E, 0x29E, 0x29E, 0x29E, 0x29E, 0x29E, 0x8, 0x8, 0x8, 0xA9, 0x8, 0x8],
     [0x8, 0x8, 0x2A6, 0x8, 0x8, 0x8, 0x2AC, 0x8, 0x8, 0x136, 0x8, 0x8, 0x8, 0x136, 0x8, 0x8],
     [0x8, 0x8, 0x8, 0x8, 0x2B1, 0x129, 0x2B9, 0x127, 0xA4, 0xED, 0x8, 0x8, 0x8, 0x8, 0xA0, 0x8],
     [0x8, 0x8, 0x8, 0x8, 0x8, 0x206, 0x8, 0x8, 0x8, 0x8, 0xC8, 0x8, 0x8, 0x8, 0x8, 0x2C1],
     [0x2C8, 0x2D0, 0x2D7, 0x8, 0x8, 0xCA, 0x2DF, 0x8, 0x8, 0x8, 0x8, 0x2E3, 0x8A, 0x2EB, 0x12A, 0x2F3],
     [0xD8, 0x8, 0x8, 0x8, 0x8, 0x8, 0x8, 0x89, 0x89, 0x8A, 0x8, 0x8, 0x8, 0x8, 0x8, 0x8],
     [0x110, 0x8, 0x8, 0x8, 0x8, 0x8, 0x2FB, 0x301, 0x1D9, 0x8, 0x8, 0x8, 0x8, 0xA0, 0xA4, 0x8],
     [0x112, 0x8, 0x8, 0x8, 0x309, 0x311, 0x8, 0x8, 0x8, 0x8, 0x317, 0x31F, 0x22F, 0x8, 0x8, 0x8],
     [0x8, 0x327, 0x32B, 0x30B, 0x8, 0x8, 0x330, 0x89, 0x271, 0x18B, 0x338, 0xA6, 0x8, 0x340, 0x348, 0x34D],
     [0x22, 0x355, 0x35D, 0x363, 0x8, 0x36A, 0x8, 0x8, 0x372, 0x89, 0x2C, 0x7A, 0x25, 0x8, 0x8, 0x8],
     [0x8, 0x2C, 0x8, 0x8, 0x89, 0x89, 0x89, 0x89, 0xC9, 0x8, 0x37A, 0x4C, 0x73, 0x8, 0x381, 0x2D],
     [0x8, 0x36A, 0x8, 0x8, 0x33, 0x60, 0x92, 0x26, 0x92, 0x28, 0x8, 0x4C, 0x389, 0x38F, 0x8, 0x396],
     [0x8, 0x28, 0x8, 0x8, 0x39C, 0x8, 0x7A, 0x8, 0x8, 0x8, 0x40, 0x3A4, 0x39F, 0x3A9, 0x68, 0x3AE],
     [0x7D, 0x32, 0x8, 0x3B4, 0x2E, 0x8, 0x3BC, 0x3BA, 0x8, 0x8, 0x3BA, 0x8, 0x2B, 0x4C, 0x2B, 0x8],
     [0x8, 0x7A, 0x8, 0x8, 0x2E, 0x3C4, 0x8, 0x3CC, 0x8, 0x8, 0x3D4, 0x8, 0x8, 0x8, 0x8, 0x8],
     [0x8, 0x3D5, 0x8, 0x8, 0x8, 0x3DD, 0x3E5, 0x3ED, 0x8, 0x8, 0x8, 0x8, 0x92, 0x92, 0x92, 0x92],
     [0x92, 0x92, 0x92, 0x92, 0x3F5, 0x92, 0x92, 0x92, 0x92, 0x98, 0x92, 0x92, 0x8, 0x8, 0x8, 0x8],
     [0x98, 0x3FB, 0x401, 0x32, 0x407, 0x40E, 0x28, 0x8, 0x349, 0x7A, 0x8, 0x416, 0x41E, 0x425, 0x42D, 0x433],
     [0x43A, 0x43A, 0x442, 0x43A, 0x437, 0x442, 0x446, 0x43A, 0x44E, 0x451, 0x43A, 0x43B, 0x459, 0x45F, 0x467, 0x46B],
     [0x469, 0x473, 0x43A, 0x477, 0x478, 0x47E, 0x480, 0x485, 0x455, 0x482, 0x48B, 0x491, 0x499, 0x473, 0x4A1, 0x3CF],
     [0x36A, 0x4A9, 0x394, 0x2B, 0x4AD, 0x4B5, 0x4BC, 0x8, 0x4C4, 0x8, 0x4E, 0x92, 0x8, 0x8, 0x4CC, 0x8],
     [0x36A, 0x8, 0x4A9, 0x4D4, 0x8, 0x8, 0x8, 0x8, 0x8, 0x8, 0x393, 0x8, 0x4DC, 0x8, 0x8, 0x4E4],
     [0x8, 0x8, 0x8, 0x8, 0x4E8, 0x28, 0x8, 0x8, 0x8, 0x8, 0x8, 0xCA, 0xA6, 0x8, 0x8, 0x8],
     [0x8, 0x8, 0x8, 0x8, 0xCA, 0x4F0, 0x4F0, 0x4F0, 0x4F6, 0x4F0, 0x4F0, 0x4F0, 0x4F0, 0x4F0, 0x4F0, 0x4FA],
     [0x8, 0x4F0, 0x4F0, 0x4F0, 0x4F0, 0x4F0, 0x4F0, 0x4F0, 0x4F0, 0x502, 0x8, 0x8, 0x8, 0x4F0, 0x4F0, 0x4F0],
     [0x4F0, 0x4F0, 0x50A, 0x512, 0x515, 0x51C, 0x4F0, 0x4F0, 0x4F0, 0x4F0, 0x4F0, 0x4F0, 0x4F0, 0x4F1, 0x524, 0x4F0],
     [0x4F0, 0x4F0, 0x4F0, 0x52C, 0x4F0, 0x4F0, 0x4F0, 0x4F0, 0x4F0, 0x51C, 0x4F0, 0x4F1, 0x4F0, 0x4F0, 0x4F0, 0x4F0],
     [0x4F0, 0x4F0, 0x502, 0x534, 0x4F0, 0x4F0, 0x4F0, 0x4F1, 0x4F0, 0x4F0, 0x4F0, 0x4F0, 0x92, 0x4F0, 0x4F0, 0x4F0],
     [0x4F0, 0x4F0, 0x4F0, 0x513, 0x53B, 0x4F0, 0x4F0, 0x4F0, 0x4F0, 0x4F9, 0x4F0, 0x4F0, 0x4F0, 0x4F0, 0x4F0, 0x4F0],
     [0x4F1, 0x8, 0x8, 0x8, 0x8, 0x8, 0x8, 0x8, 0xCA, 0x330, 0x543, 0x8, 0x8, 0x8, 0xA8, 0x8],
     [0x8, 0x8, 0x8, 0x549, 0x1CF, 0x8, 0x8, 0x550, 0x1CE, 0x8, 0x8, 0x557, 0x8, 0x8, 0x8, 0x8],
     [0x8, 0x327, 0x25B, 0x55F, 0x8, 0x8, 0x8, 0x89, 0x89, 0xA6, 0xCA, 0x8, 0x8, 0x8, 0x8, 0xA8],
     [0x543, 0x8, 0x8, 0xCA, 0x89, 0x22F, 0x8, 0x28E, 0x28E, 0x28E, 0x567, 0x111, 0x8, 0x8, 0x8, 0x8],
     [0x8, 0x56C, 0x572, 0x579, 0x8, 0x8, 0x8, 0xED, 0x8, 0x8, 0x8, 0x8, 0x8, 0x580, 0x587, 0x8],
     [0x1CF, 0x58E, 0x8, 0x8, 0x8, 0x8, 0x8, 0x1CE, 0x8, 0x8, 0x8, 0x8, 0x8, 0x8, 0x596, 0x1C1],
     [0xC8, 0x8, 0x8, 0x8, 0x8, 0x59E, 0x5A6, 0x8, 0x8, 0x8, 0x8, 0x1D6, 0x5AE, 0x8, 0x8, 0x5B6],
     [0x5B7, 0x5B7, 0x5BB, 0x5B7, 0x5B7, 0x5B7, 0x5B6, 0x5B7, 0x5B7, 0x5BB, 0x5B7, 0x5B7, 0x5B7, 0x5B6, 0x5B7, 0x5B7],
     [0x5C0, 0x8, 0x296, 0x296, 0x5C8, 0x5CF, 0x29E, 0x29E, 0x29E, 0x29E, 0x29E, 0x5D3, 0x8, 0x8, 0x8, 0x177],
     [0x8, 0x8, 0x8, 0x8, 0x89, 0x89, 0x4F0, 0x532, 0x89, 0x89, 0x4F0, 0x4F0, 0x4F5, 0x4F0, 0x4F1, 0x4FA],
     [0x8, 0x8, 0x4F0, 0x4F0, 0x4F0, 0x4F0, 0x533, 0x8, 0x8, 0x8, 0x1D3, 0x8, 0x8, 0x8, 0x8, 0x4F1],
     [0x8, 0x0, 0x5DB, 0x8, 0x8, 0x8, 0x8, 0x8, 0x8, 0x8, 0xED, 0x8, 0x8, 0x8, 0x8, 0xC9],
     [0x8, 0x8, 0x8, 0x8, 0x8, 0x8, 0xA8, 0xA5, 0x5E2, 0xAA, 0x8, 0x8, 0x8, 0x8, 0x8, 0x2D8],
     [0x8, 0x8, 0x8, 0x8, 0xAA, 0x8, 0x8, 0x8, 0x8, 0x8, 0xA2, 0x8, 0x8, 0x8, 0x8, 0x8],
     [0x5E9, 0x8, 0x8, 0x8, 0x8, 0x8, 0x8, 0x8, 0xAA, 0x5EF, 0x8, 0x8, 0x8, 0x8, 0x8, 0x8],
     [0x8, 0x5F7, 0x8, 0x8, 0x8, 0x8, 0x8, 0x8, 0x89, 0x8A, 0x8, 0x8, 0x8, 0x8, 0x8, 0x5FF],
     [0xCA, 0x112, 0x8, 0x8, 0x8, 0x8, 0x8, 0x607, 0x60E, 0x1D0, 0xE7, 0x8, 0x8, 0x8, 0x8, 0x8],
     [0x8, 0xA5, 0x8, 0x8, 0x8, 0xCA, 0x26E, 0xA3, 0x8, 0x227, 0x8, 0x8, 0x8, 0x8, 0x8, 0x1CF],
     [0x8, 0x112, 0x8, 0x8, 0x8, 0x8, 0x8, 0x604, 0x128, 0x616, 0x61D, 0x8, 0x8, 0x8, 0x8, 0x8],
     [0x8, 0x625, 0x62C, 0x177, 0xC8, 0x8, 0x8, 0x8, 0x8, 0x8, 0x8, 0x8, 0xCA, 0x2F3, 0xA5, 0x8],
     [0x8, 0x22F, 0x8, 0x8, 0x8, 0x8, 0x8, 0x8, 0x634, 0x63C, 0x640, 0x166, 0x8, 0x646, 0xA3, 0xA3],
     [0x8, 0x8, 0x8, 0x8, 0x8, 0x8, 0x8, 0x2F3, 0x64D, 0x654, 0x65C, 0x8, 0x663, 0x8, 0x8, 0x8],
     [0x8, 0x8, 0x8, 0x55A, 0x89, 0x66B, 0x8, 0x8, 0x177, 0x8, 0x8, 0x8, 0x8, 0x8, 0x8, 0x2F3],
     [0x673, 0x67A, 0x8, 0x8, 0x8, 0x8, 0x8, 0x8, 0x8, 0x166, 0x158, 0x682, 0xC9, 0x8, 0x8, 0x280],
     [0x8, 0x8, 0x8, 0x8, 0x8, 0x8, 0x2F3, 0x689, 0xC9, 0x8, 0x8, 0x8, 0x8, 0x8, 0x8, 0x8],
     [0x691, 0x581, 0x8, 0x8, 0x8, 0x318, 0x699, 0xA4, 0x8, 0x8, 0x8, 0x8, 0x8, 0x625, 0x89, 0x224],
     [0x8, 0x8, 0x8, 0x8, 0x8, 0x8, 0x6A1, 0x6A8, 0x6B0, 0x8, 0x8, 0x8, 0x8, 0x8, 0x8, 0x8],
     [0x606, 0x6B6, 0x6BE, 0x8, 0x8, 0x8, 0xAD, 0xA5, 0x8, 0x8, 0x8, 0x8, 0xA0, 0x6C6, 0xCA, 0x8],
     [0x580, 0x2D7, 0x8, 0x8, 0x8, 0x8, 0x6CD, 0x6D3, 0x128, 0xA6, 0x8, 0x8, 0x8, 0x8, 0x8, 0x166],
     [0x8A, 0x581, 0x8, 0x8, 0xAC, 0x89, 0x89, 0x6DB, 0x6E2, 0x8, 0x8, 0x8, 0x8, 0x8, 0x8, 0x6E9],
     [0x6F0, 0x6F7, 0x8, 0x8, 0x8, 0x8, 0x8, 0x8, 0x8, 0x6FF, 0x707, 0x8, 0x8, 0x8, 0x8, 0x8],
     [0x8, 0x70F, 0x8, 0x717, 0x8, 0x8, 0x8, 0x8, 0x8, 0x24F, 0x71F, 0x727, 0x8, 0x8, 0x1D0, 0x8],
     [0x8, 0x8, 0x8, 0xA7, 0x89, 0x543, 0x8, 0x8, 0x8, 0x8, 0x8, 0xA8, 0x89, 0x2F1, 0x8, 0x8],
     [0x8, 0x8, 0x8, 0x8, 0xA3, 0x8, 0x8, 0x8, 0x8, 0x8, 0x8, 0x8A, 0x8, 0x8, 0x8, 0x8],
     [0x72C, 0x733, 0x8, 0x8, 0xCA, 0x25A, 0x25B, 0x25B, 0x25B, 0x25B, 0x25B, 0xCA, 0xA5, 0x8, 0x8, 0x8],
     [0x8, 0x8, 0x73B, 0x8, 0x743, 0x8, 0x4F0, 0x4F0, 0x4F0, 0x4F0, 0x4F0, 0x4F0, 0x4F0, 0x8, 0x4F0, 0x4F0],
     [0x502, 0x8, 0x8, 0x8, 0x8, 0x534, 0x4F0, 0x533, 0x8, 0x8, 0x8, 0x8, 0x8, 0x8, 0x4F4, 0x74B],
     [0x4F0, 0x4F0, 0x4F0, 0x4F0, 0x529, 0x8, 0x752, 0x8, 0x8, 0x75A, 0x8, 0x4FE, 0x8, 0x4F0, 0x4F0, 0x4F0],
     [0x4F0, 0x4F0, 0x4F0, 0x4F0, 0x4FA, 0x8, 0x8, 0x8, 0x206, 0xA4, 0x8, 0x8, 0x8, 0x89, 0x89, 0x89],
     [0x89, 0x89, 0x543, 0x89, 0x89, 0x8A, 0x8, 0x8, 0x8, 0x8, 0x8, 0x8, 0x8, 0x1D4, 0x602, 0x2F3],
     [0x89, 0x762, 0xA4, 0x8, 0x8, 0x8, 0x5EF, 0x8, 0x8, 0x191, 0x8, 0x8, 0x8, 0x8, 0x8, 0x8],
     [0x8, 0x4F0, 0x4F0, 0x4F1, 0x8, 0x4F0, 0x4F0, 0x4F1, 0x8, 0x89, 0x89, 0x89, 0x89, 0x89, 0x89, 0x8A],
     [0xA0, 0x89, 0x89, 0x89, 0x89, 0x89, 0xA3, 0xED, 0x8, 0x1CE, 0x8, 0x8, 0xA0, 0xAD, 0x89, 0x8],
     [0x8, 0x8A, 0x89, 0x89, 0x764, 0xB3, 0xA5, 0x8, 0x8, 0xCA, 0x8, 0x8, 0x8, 0x8, 0x8, 0x8],
     [0x177, 0x8, 0x8, 0x8, 0x8, 0x8, 0xAA, 0x8, 0x8, 0x8, 0x8, 0x8, 0xA8, 0x8, 0x8, 0x8A],
     [0x8, 0x8, 0x8, 0x8, 0x8, 0xAA, 0xA5, 0x8, 0x8, 0x8, 0x8, 0x8, 0x8, 0x76C, 0x43A, 0x43A],
     [0x43A, 0x43A, 0x43A, 0x43A, 0x43A, 0x43A, 0x43B, 0x43A, 0x43A, 0x43A, 0x43A, 0x43A, 0x43A, 0x92, 0x774, 0x92],
     [0x92, 0x92, 0x77C, 0x92, 0x92, 0x92, 0x92, 0x92, 0x784, 0x78C, 0x78E, 0x92, 0x796, 0x79D, 0x7A2, 0x92],
     [0x7A5, 0x43A, 0x43A, 0x43A, 0x43A, 0x7AA, 0x7B0, 0x7B0, 0x7B0, 0x7B8, 0x43A, 0x4F0, 0x7C0, 0x4F0, 0x513, 0x7C6],
     [0x7CB, 0x4F0, 0x7CE, 0x7D6, 0x43A, 0x444, 0x43A, 0x43A, 0x43A, 0x442, 0x442, 0x442, 0x442, 0x7D7, 0x43D, 0x7DF],
     [0x442, 0x442, 0x442, 0x442, 0x442, 0x442, 0x442, 0x7E0, 0x442, 0x442, 0x446, 0x43A, 0x442, 0x442, 0x442, 0x442],
     [0x7E6, 0x446, 0x43A, 0x442, 0x442, 0x7ED, 0x7F5, 0x442, 0x442, 0x442, 0x442, 0x442, 0x442, 0x442, 0x443, 0x7FD],
     [0x442, 0x442, 0x442, 0x442, 0x442, 0x442, 0x442, 0x442, 0x800, 0x442, 0x442, 0x442, 0x442, 0x442, 0x442, 0x442],
     [0x807, 0x391, 0x80F, 0x442, 0x442, 0x442, 0x43A, 0x43A, 0x468, 0x43A, 0x43A, 0x7D1, 0x43A, 0x76C, 0x43A, 0x43A],
     [0x43A, 0x43A, 0x43A, 0x43A, 0x43A, 0x43F, 0x442, 0x442, 0x8, 0x8, 0x8, 0x8, 0x8, 0x8, 0x444, 0x76C],
     [0x802, 0x43E, 0x43A, 0x7D3, 0x43E, 0x445, 0x8, 0x8, 0x8, 0x8, 0x8, 0x8, 0x817, 0x43A, 0x8, 0x8],
     [0x4DC, 0x43A, 0x442, 0x446, 0x7D7, 0x43A, 0x8, 0x817, 0x8, 0x8, 0x8, 0x8, 0x8, 0x8, 0x43A, 0x8],
     [0x819, 0x8, 0x8, 0x8, 0x8, 0x43A, 0x8, 0x8, 0x8, 0x391, 0x43A, 0x43A, 0x8, 0x821, 0x442, 0x442],
     [0x442, 0x442, 0x442, 0x826, 0x82A, 0x442, 0x442, 0x442, 0x442, 0x442, 0x442, 0x442, 0x43A, 0x43A, 0x43A, 0x43A],
     [0x43A, 0x43A, 0x442, 0x445, 0x442, 0x475, 0x442, 0x442, 0x442, 0x442, 0x442, 0x442, 0x443, 0x43C, 0x442, 0x800],
     [0x442, 0x7D6, 0x442, 0x7D7, 0x43A, 0x43A, 0x43A, 0x43A, 0x43A, 0x43A, 0x43A, 0x459, 0x832, 0x0, 0x0, 0x0],
     [0x89, 0x89, 0x89, 0x89, 0x0, 0x0, 0x0, 0x0, 0x0, 0x0, 0x0, 0x0, 0x89, 0x89, 0x89, 0x89],
     [0x89, 0x89, 0x0, 0x0, 0x92, 0x92, 0x92, 0x92, 0x92, 0x92, 0x92, 0x83A]]"

definition s_stage3 :: "nat list" where
  "s_stage3 = concat
    [[0x41, 0x41, 0x41, 0x41, 0x41, 0x41, 0x41, 0x41, 0x40, 0x40, 0x40, 0x40, 0x40, 0x40, 0x40, 0x40],
     [0x41, 0x40, 0xC0, 0x40, 0x40, 0xC0, 0x40, 0x40, 0xC0, 0x4C, 0xC0, 0x40, 0x40, 0x41, 0xCC, 0x40],
     [0xC0, 0xC0, 0xC0, 0xC0, 0xC0, 0x40, 0xC0, 0xC0, 0xC0, 0xC0, 0x40, 0x40, 0x40, 0x40, 0x40, 0x40],
     [0xC0, 0x40, 0x40, 0x40, 0x40, 0x40, 0xC0, 0xC0, 0x40, 0x40, 0x40, 0x40, 0xC0, 0x40, 0xC0, 0xC0],
     [0xC0, 0x40, 0xC0, 0xC0, 0x40, 0x40, 0x40, 0xC0, 0xC0, 0xC0, 0x40, 0xC0, 0x40, 0xC0, 0x40, 0x40],
     [0x40, 0x40, 0x40, 0x40, 0xC0, 0xC0, 0xC0, 0x40, 0x40, 0x40, 0x40, 0xC0, 0xC0, 0xC0, 0x40, 0xC0],
     [0x40, 0x40, 0x40, 0xC0, 0xC0, 0xC0, 0xC0, 0x40, 0xC0, 0x40, 0x40, 0xC0, 0x40, 0xC0, 0x40, 0xC0],
     [0x40, 0xC0, 0x40, 0x40, 0x40, 0x40, 0xC0, 0x40, 0x40, 0xC0, 0x40, 0x40, 0x40, 0x40, 0x40, 0x40],
     [0x40, 0xC0, 0xC0, 0xC0, 0xC0, 0x40, 0xC0, 0x40, 0xC0, 0x2, 0x2, 0x2, 0x2, 0x2, 0x2, 0x2],
     [0x2, 0x40, 0xC0, 0xC0, 0xC0, 0xC0, 0xC0, 0xC0, 0xC0, 0xC0, 0x40, 0xC0, 0xC0, 0xC0, 0xC0, 0xC0],
     [0x40, 0x40, 0x40, 0x2, 0x2, 0x2, 0x2, 0x2, 0x40, 0x40, 0x40, 0x40, 0x40, 0x40, 0x2, 0x2],
     [0x2, 0x2, 0x2, 0x2, 0x2, 0x40, 0x2, 0x2, 0x40, 0x2, 0x2, 0x40, 0x2, 0x4, 0x4, 0x4],
     [0x4, 0x4, 0x4, 0x40, 0x40, 0x2, 0x2, 0x2, 0x40, 0x2, 0x40, 0x40, 0x40, 0x40, 0x40, 0x40],
     [0x40, 0x2, 0x2, 0x2, 0x2, 0x2, 0x4, 0x40, 0x2, 0x2, 0x2, 0x2, 0x2, 0x40, 0x40, 0x2],
     [0x40, 0x2, 0x2, 0x2, 0x2, 0x40, 0x40, 0x40, 0x40, 0x40, 0x40, 0x40, 0x4, 0x40, 0x40, 0x40],
     [0x40, 0x40, 0x2, 0x40, 0x40, 0x2, 0x2, 0x40, 0x2, 0x2, 0x2, 0x2, 0x2, 0x40, 0x2, 0x2],
     [0x2, 0x40, 0x40, 0x40, 0x40, 0x4, 0x4, 0x40, 0x40, 0x40, 0x40, 0x40, 0x2, 0x2, 0x4, 0x2],
     [0x2, 0x2, 0x2, 0x2, 0x42, 0x40, 0x40, 0x40, 0x40, 0x40, 0x4B, 0x4B, 0x4B, 0x4B, 0x4B, 0x4B],
     [0x4B, 0x4B, 0x2, 0x42, 0x2, 0x40, 0x42, 0x42, 0x2, 0x2, 0x2, 0x2, 0x2, 0x2, 0x2, 0x42],
     [0x42, 0x42, 0x42, 0xA, 0x42, 0x42, 0x40, 0x40, 0x2, 0x2, 0x40, 0x40, 0x40, 0x40, 0x2, 0x42],
     [0x42, 0x40, 0x40, 0x40, 0x40, 0x4B, 0x40, 0x4B, 0x4B, 0x4B, 0x4B, 0x4B, 0x4B, 0x40, 0x4B, 0x40],
     [0x40, 0x40, 0x4B, 0x4B, 0x40, 0x40, 0x2, 0x40, 0x42, 0x42, 0x2, 0x2, 0x2, 0x2, 0x40, 0x40],
     [0x42, 0x40, 0x40, 0x42, 0x42, 0xA, 0x40, 0x40, 0x40, 0x40, 0x40, 0x40, 0x40, 0x42, 0x40, 0x40],
     [0x40, 0x40, 0x4B, 0x4B, 0x40, 0x4B, 0x4B, 0x40, 0x40, 0x40, 0x40, 0x40, 0x40, 0x2, 0x40, 0x2],
     [0x2, 0x42, 0x40, 0x40, 0x40, 0x40, 0x2, 0x40, 0x42, 0x42, 0x2, 0x2, 0x40, 0x40, 0x40, 0x40],
     [0x2, 0x40, 0x40, 0x2, 0x2, 0x2, 0x40, 0x40, 0x40, 0x2, 0x40, 0x40, 0x4B, 0x40, 0x4B, 0x4B],
     [0x40, 0x4B, 0x4B, 0x4B, 0x42, 0x2, 0x2, 0x2, 0x2, 0x2, 0x40, 0x2, 0x42, 0x40, 0x42, 0x42],
     [0xA, 0x40, 0x40, 0x4B, 0x2, 0x2, 0x2, 0x2, 0x2, 0x2, 0x4B, 0x4B, 0x40, 0x40, 0x2, 0x40],
     [0x42, 0x2, 0x40, 0x40, 0x40, 0x40, 0x40, 0x2, 0x2, 0x42, 0x40, 0x4B, 0x40, 0x40, 0x40, 0x40],
     [0x40, 0x40, 0x2, 0x40, 0x40, 0x40, 0x40, 0x40, 0x40, 0x42, 0x42, 0x2, 0x42, 0x42, 0x40, 0x40],
     [0x40, 0x42, 0x42, 0x40, 0x42, 0x42, 0x42, 0x2, 0x40, 0x40, 0x2, 0x42, 0x42, 0x42, 0x2, 0x40],
     [0x40, 0x40, 0x4B, 0x4B, 0x40, 0x40, 0x2, 0x40, 0x2, 0x2, 0x42, 0x42, 0x42, 0x42, 0x40, 0x2],
     [0x2, 0x40, 0x2, 0x2, 0x2, 0xA, 0x40, 0x40, 0x40, 0x40, 0x40, 0x2, 0x2, 0x40, 0x4B, 0x4B],
     [0x4B, 0x40, 0x40, 0x40, 0x40, 0x40, 0x2, 0x40, 0x42, 0x2, 0x42, 0x42, 0x42, 0x42, 0x42, 0x40],
     [0x2, 0x42, 0x40, 0x42, 0x42, 0x2, 0x2, 0x40, 0x40, 0x40, 0x40, 0x40, 0x42, 0x42, 0x40, 0x2],
     [0x2, 0x42, 0x42, 0x40, 0x40, 0x40, 0x40, 0x4B, 0x4B, 0x4B, 0x2, 0x2, 0x40, 0x42, 0x42, 0x2],
     [0x2, 0x2, 0x2, 0x40, 0x42, 0x42, 0x40, 0x42, 0x42, 0x42, 0xA, 0x44, 0x40, 0x40, 0x2, 0x40],
     [0x40, 0x40, 0x40, 0x42, 0x42, 0x2, 0x2, 0x2, 0x40, 0x2, 0x40, 0x42, 0x42, 0x42, 0x42, 0x42],
     [0x42, 0x42, 0x42, 0x40, 0x40, 0x42, 0x42, 0x40, 0x40, 0x40, 0x40, 0x2, 0x40, 0x42, 0x2, 0x2],
     [0x2, 0x2, 0x42, 0x2, 0x2, 0x2, 0x2, 0x2, 0x2, 0x40, 0x2, 0x2, 0x42, 0x42, 0x2, 0x2],
     [0x40, 0x40, 0x40, 0x40, 0x2, 0x2, 0x40, 0x40, 0x2, 0x40, 0x42, 0x2, 0x2, 0x40, 0x85, 0x85],
     [0x85, 0x85, 0x85, 0x85, 0x85, 0x85, 0x46, 0x46, 0x46, 0x46, 0x46, 0x46, 0x46, 0x46, 0x47, 0x47],
     [0x47, 0x47, 0x47, 0x47, 0x47, 0x47, 0x40, 0x40, 0x2, 0x2, 0x2, 0x42, 0x40, 0x40, 0x2, 0x2],
     [0x42, 0x40, 0x40, 0x40, 0x40, 0x2, 0x2, 0x42, 0x2, 0x42, 0x42, 0x42, 0x42, 0x42, 0x42, 0x2],
     [0x42, 0x2, 0x2, 0x2, 0x42, 0x42, 0x42, 0x42, 0x2, 0x42, 0x42, 0x42, 0x40, 0x40, 0x40, 0x40],
     [0x42, 0x42, 0x2, 0x42, 0x42, 0x42, 0x42, 0x42, 0x2, 0x2, 0x2, 0x40, 0x40, 0x40, 0x40, 0x2],
     [0x42, 0x42, 0x2, 0x40, 0x40, 0x40, 0x40, 0x40, 0x42, 0x2, 0x42, 0x2, 0x40, 0x2, 0x40, 0x40],
     [0x2, 0x2, 0x2, 0x42, 0x42, 0x42, 0x2, 0x2, 0x2, 0x2, 0x2, 0x40, 0x40, 0x40, 0x40, 0x2],
     [0x42, 0x2, 0x2, 0x2, 0x42, 0x2, 0x42, 0x42, 0x42, 0x40, 0x42, 0x2, 0x2, 0x2, 0x2, 0x42],
     [0x42, 0x2, 0x2, 0x42, 0x2, 0x2, 0x2, 0x40, 0x40, 0x40, 0x40, 0x40, 0x40, 0x2, 0x42, 0x2],
     [0x2, 0x42, 0x42, 0x42, 0x2, 0x42, 0x2, 0x40, 0x40, 0x40, 0x40, 0x42, 0x42, 0x42, 0x42, 0x2],
     [0x2, 0x2, 0x2, 0x40, 0x2, 0x2, 0x2, 0x2, 0x40, 0x40, 0x40, 0x40, 0x2, 0x40, 0x40, 0x42],
     [0x40, 0x40, 0x40, 0x2, 0x2, 0xD, 0x2, 0x2, 0xC0, 0x40, 0x40, 0xC0, 0xC0, 0xC0, 0xC0, 0x40],
     [0x40, 0xC0, 0xC0, 0x40, 0x40, 0x41, 0x41, 0x2, 0x2, 0x2, 0x2, 0x2, 0x40, 0xC0, 0x40, 0xC0],
     [0xC0, 0x40, 0xC0, 0x40, 0x40, 0x40, 0xC0, 0x4C, 0x40, 0xC0, 0x40, 0x4C, 0x40, 0x40, 0x40, 0x40],
     [0x40, 0x40, 0x2, 0x2, 0x2, 0x2, 0x2, 0x41, 0x2, 0x2, 0x40, 0x40, 0x40, 0xC0, 0x40, 0xC0],
     [0x40, 0x40, 0xC0, 0xCC, 0x40, 0x40, 0x40, 0xC0, 0x40, 0xC0, 0xC0, 0xC0, 0xC0, 0xCC, 0xCC, 0xCC],
     [0xCC, 0x40, 0x40, 0x40, 0x40, 0x40, 0x40, 0x4C, 0x4C, 0x40, 0x40, 0x40, 0x40, 0x40, 0xC0, 0x40],
     [0xC0, 0x40, 0x40, 0x40, 0xC0, 0x40, 0x40, 0xC0, 0x40, 0x40, 0x40, 0xC0, 0x40, 0x40, 0xC0, 0xC0],
     [0xC0, 0xC0, 0xC0, 0x40, 0xC0, 0x40, 0x40, 0x40, 0xC0, 0x40, 0x40, 0x40, 0xC0, 0xC0, 0x40, 0x40],
     [0xC0, 0xC0, 0xC0, 0xC0, 0x40, 0x40, 0x8C, 0x8C, 0x40, 0x40, 0x40, 0x40, 0x4C, 0x80, 0x80, 0x40],
     [0x40, 0x40, 0x40, 0x40, 0x4C, 0x40, 0x40, 0x40, 0x40, 0x40, 0x40, 0x40, 0x4C, 0x40, 0x8C, 0x8C],
     [0x8C, 0x8C, 0x4C, 0x4C, 0x4C, 0x8C, 0x4C, 0x4C, 0x8C, 0x40, 0x40, 0x40, 0x40, 0x4C, 0x4C, 0x4C],
     [0x40, 0x40, 0x40, 0x40, 0x40, 0xC0, 0xC0, 0xCC, 0xC0, 0xC0, 0xC0, 0xC0, 0xC0, 0x4C, 0x4C, 0x40],
     [0x40, 0x40, 0x40, 0xC0, 0xC0, 0x40, 0x40, 0xCC, 0xC0, 0x40, 0x40, 0x40, 0x40, 0xC0, 0xC0, 0x40],
     [0x40, 0xC0, 0x40, 0x40, 0xC0, 0xC0, 0x40, 0x40, 0x40, 0x4C, 0x4C, 0x8C, 0x8C, 0x40, 0x4C, 0x4C],
     [0x4C, 0x4C, 0x4C, 0xCC, 0xC0, 0x4C, 0xCC, 0x4C, 0x4C, 0x4C, 0x4C, 0xCC, 0xCC, 0x4C, 0x4C, 0x4C],
     [0x40, 0x8C, 0x8C, 0x4C, 0x4C, 0x4C, 0x4C, 0xCC, 0x4C, 0xCC, 0x4C, 0x4C, 0x4C, 0x4C, 0x4C, 0x4C],
     [0x4C, 0x4C, 0x8C, 0x8C, 0x8C, 0x8C, 0x8C, 0x8C, 0x8C, 0x8C, 0x4C, 0x4C, 0x4C, 0x4C, 0xCC, 0xCC],
     [0x4C, 0xCC, 0xCC, 0xCC, 0x4C, 0xCC, 0xCC, 0x4C, 0xCC, 0x4C, 0x4C, 0x4C, 0x4C, 0x4C, 0x4C, 0x40],
     [0x40, 0x80, 0x80, 0x80, 0x80, 0x80, 0x80, 0x4C, 0x4C, 0x4C, 0x8C, 0x4C, 0x4C, 0x4C, 0x4C, 0x4C],
     [0x4C, 0xCC, 0xCC, 0x4C, 0x4C, 0x8C, 0x8C, 0x4C, 0x4C, 0x4C, 0x4C, 0x4C, 0x8C, 0x8C, 0xCC, 0xCC],
     [0xCC, 0xCC, 0xCC, 0xCC, 0x8C, 0xCC, 0xCC, 0xCC, 0xCC, 0xCC, 0xCC, 0xCC, 0xCC, 0x8C, 0x8C, 0xCC],
     [0x8C, 0xCC, 0xCC, 0x8C, 0xCC, 0xCC, 0x8C, 0xCC, 0xCC, 0x4C, 0x4C, 0x4C, 0x4C, 0x4C, 0x8C, 0x40],
     [0x40, 0x4C, 0x4C, 0x4C, 0x40, 0x4C, 0x40, 0x4C, 0x40, 0x8C, 0x40, 0x40, 0x40, 0x40, 0x40, 0x40],
     [0x40, 0x4C, 0x40, 0x40, 0x4C, 0x40, 0x40, 0x40, 0x40, 0x8C, 0x40, 0x8C, 0x40, 0x40, 0x40, 0x8C],
     [0x8C, 0x8C, 0x40, 0x8C, 0x40, 0x40, 0x40, 0x4C, 0x4C, 0x4C, 0x4C, 0x4C, 0x40, 0x40, 0x40, 0x40],
     [0x40, 0x8C, 0x8C, 0x8C, 0x40, 0x40, 0x40, 0x40, 0x40, 0x40, 0x40, 0x8C, 0x40, 0x40, 0x40, 0x40],
     [0x40, 0x4C, 0x4C, 0x4C, 0x40, 0x40, 0x40, 0x8C, 0x8C, 0x40, 0x40, 0x40, 0x40, 0x8C, 0xC0, 0xC0],
     [0x80, 0x80, 0x80, 0x80, 0x80, 0x80, 0x80, 0x80, 0x40, 0x80, 0x80, 0x80, 0x80, 0x80, 0x40, 0x40],
     [0x40, 0x40, 0x80, 0x80, 0x80, 0x80, 0x80, 0x80, 0x40, 0x40, 0x80, 0x80, 0x2, 0x2, 0x2, 0x2],
     [0x82, 0x82, 0x8C, 0x80, 0x80, 0x80, 0x80, 0x80, 0x80, 0x80, 0x8C, 0x80, 0x40, 0x80, 0x80, 0x80],
     [0x80, 0x80, 0x80, 0x80, 0x40, 0x2, 0x2, 0x80, 0x80, 0x80, 0x80, 0x80, 0x40, 0x40, 0x40, 0x40],
     [0x40, 0x80, 0x80, 0x80, 0x40, 0x40, 0x40, 0x40, 0x40, 0x40, 0x40, 0x80, 0x8C, 0x80, 0x80, 0x80],
     [0x80, 0x80, 0x80, 0x2, 0x2, 0x2, 0x2, 0x2, 0x2, 0x40, 0x40, 0x2, 0x40, 0x40, 0x40, 0x2],
     [0x40, 0x40, 0x40, 0x42, 0x42, 0x2, 0x2, 0x42, 0x42, 0x40, 0x40, 0x40, 0x40, 0x40, 0x40, 0x42],
     [0x42, 0x42, 0x42, 0x2, 0x2, 0x40, 0x40, 0x85, 0x85, 0x85, 0x85, 0x85, 0x40, 0x40, 0x40, 0x2],
     [0x42, 0x42, 0x2, 0x2, 0x42, 0x42, 0x2, 0x2, 0x42, 0x42, 0x40, 0x40, 0x40, 0x40, 0x40, 0x40],
     [0x40, 0x2, 0x2, 0x2, 0x2, 0x2, 0x2, 0x42, 0x2, 0x2, 0x42, 0x42, 0x2, 0x2, 0x40, 0x40],
     [0x40, 0x40, 0x2, 0x42, 0x40, 0x40, 0x2, 0x40, 0x2, 0x2, 0x2, 0x40, 0x40, 0x2, 0x40, 0x40],
     [0x40, 0x42, 0x2, 0x2, 0x42, 0x42, 0x40, 0x40, 0x40, 0x40, 0x40, 0x42, 0x2, 0x40, 0x2, 0x42],
     [0x42, 0x40, 0x42, 0x2, 0x40, 0x40, 0x88, 0x89, 0x89, 0x89, 0x89, 0x89, 0x89, 0x89, 0x89, 0x88],
     [0x89, 0x89, 0x89, 0x89, 0x40, 0x40, 0x40, 0x40, 0x46, 0x46, 0x46, 0x46, 0x46, 0x46, 0x46, 0x40],
     [0x40, 0x40, 0x47, 0x47, 0x47, 0x47, 0x47, 0x40, 0x40, 0x40, 0x40, 0x41, 0x2, 0x2, 0x2, 0x40],
     [0xC0, 0x40, 0x40, 0x2, 0x2, 0x2, 0x40, 0x2, 0x2, 0x40, 0x40, 0x40, 0x2, 0x2, 0x40, 0x40],
     [0x40, 0x2, 0x2, 0x2, 0x2, 0x40, 0x40, 0x42, 0x2, 0x42, 0x40, 0x40, 0x40, 0x40, 0x40, 0x2],
     [0x40, 0x40, 0x2, 0x2, 0x40, 0x40, 0x40, 0x42, 0x42, 0x42, 0x2, 0x2, 0x2, 0x2, 0x42, 0x2],
     [0x2, 0x40, 0x40, 0x4, 0x40, 0x40, 0x42, 0x40, 0x44, 0x44, 0x40, 0x40, 0x40, 0x40, 0x2, 0x2],
     [0x2, 0x2, 0x40, 0x42, 0x2, 0x40, 0x40, 0x40, 0x40, 0x42, 0x42, 0x42, 0x2, 0x2, 0x42, 0x42],
     [0x2, 0x42, 0x2, 0x2, 0x40, 0x40, 0x40, 0x2, 0x2, 0x40, 0x42, 0x42, 0x2, 0x42, 0x42, 0x42],
     [0x42, 0x40, 0x40, 0x42, 0x42, 0x42, 0x40, 0x40, 0x42, 0x42, 0x40, 0x40, 0x2, 0x2, 0x40, 0x42],
     [0x40, 0x40, 0x42, 0x40, 0x42, 0x42, 0x42, 0x40, 0x42, 0x42, 0x2, 0x42, 0x2, 0x44, 0x2, 0x40],
     [0x40, 0x40, 0x40, 0x40, 0x2, 0x2, 0x40, 0x40, 0x40, 0x40, 0x40, 0x42, 0x42, 0x2, 0x2, 0x2],
     [0x42, 0x2, 0x40, 0x2, 0x42, 0x2, 0x42, 0x42, 0x42, 0x42, 0x2, 0x42, 0x2, 0x2, 0x40, 0x40],
     [0x40, 0x40, 0x42, 0x42, 0x42, 0x42, 0x2, 0x2, 0x42, 0x2, 0x2, 0x2, 0x42, 0x42, 0x2, 0x42],
     [0x2, 0x40, 0x40, 0x40, 0x2, 0x42, 0x2, 0x42, 0x42, 0x40, 0x40, 0x2, 0x2, 0x2, 0x2, 0x42],
     [0x2, 0x42, 0x42, 0x42, 0x42, 0x42, 0x42, 0x40, 0x42, 0x40, 0x40, 0x2, 0x2, 0x42, 0x2, 0x44],
     [0x42, 0x44, 0x42, 0x2, 0x40, 0x40, 0x40, 0x40, 0x2, 0x2, 0x42, 0x42, 0x42, 0x42, 0x2, 0x40],
     [0x40, 0x40, 0x42, 0x40, 0x40, 0x40, 0x2, 0x42, 0x44, 0x2, 0x2, 0x2, 0x2, 0x40, 0x40, 0x40],
     [0x40, 0x44, 0x44, 0x44, 0x44, 0x2, 0x2, 0x2, 0x2, 0x2, 0x2, 0x40, 0x42, 0x2, 0x2, 0x2],
     [0x2, 0x2, 0x2, 0x42, 0x2, 0x2, 0x42, 0x2, 0x2, 0x40, 0x2, 0x2, 0x2, 0x2, 0x2, 0x2],
     [0x40, 0x40, 0x2, 0x40, 0x2, 0x2, 0x40, 0x2, 0x2, 0x2, 0x2, 0x2, 0x2, 0x44, 0x2, 0x40],
     [0x40, 0x42, 0x42, 0x42, 0x42, 0x42, 0x40, 0x2, 0x2, 0x40, 0x42, 0x42, 0x2, 0x42, 0x2, 0x40],
     [0x40, 0x40, 0x2, 0x2, 0x42, 0x42, 0x40, 0x2, 0x2, 0x44, 0x42, 0x40, 0x40, 0x40, 0x40, 0x2],
     [0x2, 0x2, 0x40, 0x40, 0x40, 0x42, 0x42, 0x2, 0x42, 0x2, 0x40, 0x40, 0x40, 0x40, 0x40, 0x46],
     [0x40, 0x40, 0x40, 0x46, 0x46, 0x46, 0x40, 0x40, 0x40, 0x40, 0x40, 0x80, 0x80, 0x80, 0x80, 0x2],
     [0x40, 0x40, 0x40, 0x82, 0x82, 0x40, 0x40, 0x40, 0x40, 0x40, 0x40, 0x80, 0x80, 0x80, 0x80, 0x40],
     [0x80, 0x80, 0x40, 0x40, 0x80, 0x40, 0x40, 0x40, 0x40, 0x40, 0x80, 0x80, 0x80, 0x40, 0x40, 0x80],
     [0x40, 0x40, 0x2, 0x2, 0x2, 0x40, 0x40, 0x2, 0x2, 0x2, 0x2, 0x2, 0x4C, 0x4C, 0x4C, 0x4C],
     [0x8C, 0x4C, 0x4C, 0x4C, 0xC0, 0xC0, 0xC0, 0x40, 0x40, 0x4C, 0x4C, 0x4C, 0xC0, 0xC0, 0xC0, 0xC0],
     [0xC0, 0xC0, 0x40, 0x4C, 0xC0, 0xC0, 0x40, 0x40, 0x4C, 0x4C, 0x4C, 0x4C, 0xCC, 0xCC, 0xC0, 0xC0],
     [0xC0, 0xC0, 0xC0, 0xC0, 0xCC, 0xCC, 0xC0, 0xC0, 0xC0, 0xC0, 0xC0, 0xC0, 0x8C, 0xC0, 0x8C, 0x8C],
     [0x8C, 0x8C, 0x8C, 0x8C, 0x8C, 0xC0, 0xC0, 0xC0, 0xC0, 0xC0, 0x4C, 0x4C, 0x4C, 0x4C, 0x4C, 0x4C],
     [0x43, 0x43, 0x43, 0x43, 0x43, 0x43, 0x43, 0x43, 0x80, 0x8C, 0x8C, 0x4C, 0x4C, 0x4C, 0x4C, 0x4C],
     [0x80, 0x80, 0x8C, 0x80, 0x80, 0x80, 0x80, 0x80, 0x8C, 0x8C, 0x8C, 0x8C, 0x8C, 0x8C, 0x80, 0x4C],
     [0x4C, 0x4C, 0x4C, 0x4C, 0x4C, 0x4C, 0x8C, 0x8C, 0x4C, 0x4C, 0x4C, 0x4C, 0x4C, 0x4C, 0x4C, 0x8C],
     [0x8C, 0x8C, 0x8C, 0x8C, 0x8C, 0x4C, 0x8C, 0x8C, 0x8C, 0x4C, 0x4C, 0x4C, 0x4C, 0x8C, 0x4C, 0x4C],
     [0x4C, 0x8C, 0x4C, 0x4C, 0x4C, 0x8C, 0x8C, 0x8C, 0x82, 0x82, 0x82, 0x82, 0x82, 0x8C, 0x4C, 0x8C],
     [0x8C, 0x8C, 0x8C, 0x8C, 0x8C, 0x4C, 0x4C, 0x8C, 0x8C, 0x8C, 0x8C, 0x8C, 0x8C, 0x40, 0x40, 0x4C],
     [0x4C, 0x4C, 0x8C, 0x8C, 0x8C, 0x8C, 0x4C, 0x40, 0x40, 0x40, 0x40, 0x4C, 0x4C, 0x4C, 0x4C, 0x4C],
     [0x4C, 0x40, 0x40, 0x40, 0x40, 0x8C, 0x8C, 0x8C, 0x8C, 0x40, 0x8C, 0x8C, 0x8C, 0x8C, 0x8C, 0x8C],
     [0x40, 0x8C, 0x41, 0x2, 0x41, 0x41, 0x41, 0x41, 0x41, 0x41, 0xC0, 0xC0, 0xC0, 0xC0, 0xC0, 0xC0],
     [0x40, 0x40]]"

definition s_joinRules :: "u32 list list" where
  "s_joinRules =
    [[0x3CFFFCF, 0xFFFFFFF, 0x3CFFFCF, 0x3CFFF4F, 0xC, 0x3C0C3CF, 0x3CF0FCF, 0x3CF3FCF,
      0x3CF0FCF, 0x3CF3FCF, 0x30FFFCF, 0x3CFFFCF, 0x3CFFFCF, 0xCFFFCF, 0x0, 0x0],
     [0x3CFFFCF, 0xFFFFFFF, 0x3CFFFCF, 0x3CFFFCF, 0xC, 0x3C0C3CF, 0x3CF0FCF, 0x3CF3FCF,
      0x3CF0FCF, 0x3CF3FCF, 0x30FFFCF, 0x3CFFFCF, 0x3CFFFCF, 0xCFFFCF, 0x0, 0x0]]"

subsection \<open>The stages fit together\<close>

lemma stage_lengths: "length s_stage0 = 544" "length s_stage1 = 1031" "length s_stage2 = 1916" "length s_stage3 = 2114"
  by (simp_all add: s_stage0_def s_stage1_def s_stage2_def s_stage3_def)

lemma stages_in_range:
  "list_all (\<lambda>x. x + 31 < 1031) s_stage0" "list_all (\<lambda>x. x + 7 < 1916) s_stage1" "list_all (\<lambda>x. x + 7 < 2114) s_stage2"
  "list_all (\<lambda>x. x < 256) s_stage3"
  by (simp_all add: s_stage0_def s_stage1_def s_stage2_def s_stage3_def)

lemma joinRules_shape: "length s_joinRules = 2" "list_all (\<lambda>row. length row = 16) s_joinRules"
  by code_simp+

end
