(* ===== verification/CodepointWidth.thy ===== *)
theory CodepointWidth
  imports CodepointTables
begin

text \<open>
  The measuring of text, \<^verbatim>\<open>src/src/types/CodepointWidthDetector.cpp\<close>: how a string is cut into the clusters
  of characters that are shown together, and how many columns each of them takes. Pointers into a
  string are offsets from its start.
\<close>

subsection \<open>Properties of code points\<close>

type_synonym char32 = u32

definition ucdLookup :: "char32 \<Rightarrow> nat" where
  "ucdLookup cp =
     (let s0 = s_stage0 ! unat (drop_bit 11 cp);
          s1 = s_stage1 ! (s0 + unat (drop_bit 6 cp AND 31));
          s2 = s_stage2 ! (s1 + unat (drop_bit 3 cp AND 7))
      in s_stage3 ! (s2 + unat (cp AND 7)))"

definition ucdGraphemeJoins :: "nat \<Rightarrow> nat \<Rightarrow> nat \<Rightarrow> nat" where
  "ucdGraphemeJoins state lead trail =
     (let l = lead mod 16; t = trail mod 16
      in unat (drop_bit (t * 2) (s_joinRules ! state ! l) AND 3))"

definition ucdGraphemeDone :: "nat \<Rightarrow> bool" where
  "ucdGraphemeDone state \<longleftrightarrow> state = 3"

definition ucdToCharacterWidth :: "nat \<Rightarrow> nat" where
  "ucdToCharacterWidth val = drop_bit 6 val"

subsection \<open>Decoding\<close>

text \<open>The code point at a position before the end of the string, and the position behind it.\<close>

definition utf16NextOrFFFD :: "wstring \<Rightarrow> nat \<Rightarrow> char32 \<times> nat" where
  "utf16NextOrFFFD str it =
     (let c = ucast (str ! it) :: char32; it = it + 1
      in if c AND 0xF800 = 0xD800
         then (if c AND 0x400 = 0 \<and> it \<noteq> length str
               then (let c2 = ucast (str ! it) :: char32
                     in if c2 AND 0xFC00 = 0xDC00 then (push_bit 10 c - 0x35FDC00 + c2, it + 1) else (0xFFFD, it))
               else (0xFFFD, it))
         else (c, it))"

text \<open>The code point before a position behind the start of the string, and its position.\<close>

definition utf16PrevOrFFFD :: "wstring \<Rightarrow> nat \<Rightarrow> char32 \<times> nat" where
  "utf16PrevOrFFFD str it =
     (let it = it - 1; c = ucast (str ! it) :: char32
      in if c AND 0xF800 = 0xD800
         then (if c AND 0x400 \<noteq> 0 \<and> it \<noteq> 0
               then (let c1 = ucast (str ! (it - 1)) :: char32
                     in if c1 AND 0xFC00 = 0xD800 then (push_bit 10 c1 - 0x35FDC00 + c, it - 1) else (0xFFFD, it))
               else (0xFFFD, it))
         else (c, it))"

lemma utf16Next_moves: "it < length str \<Longrightarrow> it < snd (utf16NextOrFFFD str it) \<and> snd (utf16NextOrFFFD str it) \<le> length str"
  by (auto simp: utf16NextOrFFFD_def Let_def)

lemma utf16Prev_moves: "0 < it \<Longrightarrow> snd (utf16PrevOrFFFD str it) < it"
  by (auto simp: utf16PrevOrFFFD_def Let_def)

subsection \<open>The state\<close>

datatype TextMeasurementMode = Graphemes | Wcswidth | Console

text \<open>The cluster found last, as an offset and a length, its width, and what is needed to go on with it in
  the next string.\<close>

record GraphemeState =
  gs_beg :: nat
  gs_len :: nat
  gs_width :: int
  gs_state :: int
  gs_last :: nat

definition GraphemeState_init :: GraphemeState where
  "GraphemeState_init = \<lparr>gs_beg = 0, gs_len = 0, gs_width = 0, gs_state = 0, gs_last = 0\<rparr>"

text \<open>A call with another string starts at the beginning of that string, or at its end when going
  backwards: \<^verbatim>\<open>resetIfOutOfRange\<close> finds that the pointer is not into it.\<close>

definition next_string :: "GraphemeState \<Rightarrow> GraphemeState" where
  "next_string s = s\<lparr>gs_beg := 0, gs_len := 0\<rparr>"

definition prev_string :: "wstring \<Rightarrow> GraphemeState \<Rightarrow> GraphemeState" where
  "prev_string str s = s\<lparr>gs_beg := length str, gs_len := 0\<rparr>"

text \<open>The fallback tells whether a text is wide; its result is \<open>None\<close> when it throws.\<close>

record CodepointWidthDetector =
  cwd_fallbackCache :: "char32 \<rightharpoonup> int"
  cwd_pfnFallbackMethod :: "(wstring \<Rightarrow> bool option) option"
  cwd_mode :: TextMeasurementMode
  cwd_ambiguousWidth :: int

definition CodepointWidthDetector_init :: CodepointWidthDetector where
  "CodepointWidthDetector_init =
     \<lparr>cwd_fallbackCache = Map.empty, cwd_pfnFallbackMethod = None, cwd_mode = Graphemes, cwd_ambiguousWidth = 1\<rparr>"

definition cwd_Reset :: "TextMeasurementMode \<Rightarrow> CodepointWidthDetector \<Rightarrow> CodepointWidthDetector" where
  "cwd_Reset mode d = d\<lparr>cwd_mode := mode, cwd_fallbackCache := Map.empty\<rparr>"

definition cwd_SetAmbiguousWidth :: "int \<Rightarrow> CodepointWidthDetector \<Rightarrow> CodepointWidthDetector" where
  "cwd_SetAmbiguousWidth width d = d\<lparr>cwd_ambiguousWidth := width\<rparr>"

definition cwd_SetFallbackMethod :: "(wstring \<Rightarrow> bool option) option \<Rightarrow> CodepointWidthDetector \<Rightarrow> CodepointWidthDetector" where
  "cwd_SetFallbackMethod f d = d\<lparr>cwd_pfnFallbackMethod := f\<rparr>"

subsection \<open>Widths\<close>

definition utf16_of :: "char32 \<Rightarrow> wstring" where
  "utf16_of codepoint =
     (if codepoint \<le> 0xFFFF then [ucast codepoint]
      else [ucast (drop_bit 10 codepoint + 0xD7C0), ucast ((codepoint AND 0x3FF) OR 0xDC00)])"

definition checkFallbackViaCache :: "char32 \<Rightarrow> CodepointWidthDetector \<Rightarrow> int \<times> CodepointWidthDetector" where
  "checkFallbackViaCache codepoint d =
     (case cwd_pfnFallbackMethod d of
        None \<Rightarrow> (1, d)
      | Some f \<Rightarrow>
          (case cwd_fallbackCache d codepoint of
             Some w \<Rightarrow> (w, d)
           | None \<Rightarrow>
               (case f (utf16_of codepoint) of
                  None \<Rightarrow> (1, d)
                | Some wide \<Rightarrow>
                    (let width = if wide then 2 else 1
                     in (width, d\<lparr>cwd_fallbackCache := (cwd_fallbackCache d)(codepoint \<mapsto> width)\<rparr>)))))"

text \<open>The width of a code point, ambiguous ones by the setting.\<close>

definition plain_width :: "CodepointWidthDetector \<Rightarrow> nat \<Rightarrow> int" where
  "plain_width d val = (let w = ucdToCharacterWidth val in if w = 3 then cwd_ambiguousWidth d else int w)"

definition cluster_width :: "CodepointWidthDetector \<Rightarrow> char32 \<Rightarrow> nat \<Rightarrow> int" where
  "cluster_width d cp val = (if cp = 0xFE0F then 2 else plain_width d val)"

subsection \<open>Clusters\<close>

text \<open>The loop of \<^verbatim>\<open>_graphemeNext\<close> from \<^verbatim>\<open>fetchNext\<close> on: the end of the cluster, its width, the state and the
  properties of the last code point.\<close>

function graphemeNext_loop ::
    "CodepointWidthDetector \<Rightarrow> wstring \<Rightarrow> nat \<Rightarrow> int \<Rightarrow> int \<Rightarrow> nat \<Rightarrow> nat \<times> int \<times> int \<times> nat" where
  "graphemeNext_loop d str clusterEnd width state lead =
     (if clusterEnd < length str
      then (let (cp, clusterEndNext) = utf16NextOrFFFD str clusterEnd;
                trail = ucdLookup cp;
                state = ucdGraphemeJoins (nat state) lead trail
            in if ucdGraphemeDone state then (clusterEnd, width, NOT 0, 0)
               else graphemeNext_loop d str clusterEndNext (width + cluster_width d cp trail) (int state) trail)
      else (clusterEnd, width, state, lead))"
  by pat_completeness auto
termination
  by (relation "measure (\<lambda>(d, str, clusterEnd, width, state, lead). length str - clusterEnd)")
    (use utf16Next_moves in \<open>auto simp: Let_def prod_eq_iff diff_less_mono2\<close>)

definition graphemeNext :: "CodepointWidthDetector \<Rightarrow> GraphemeState \<Rightarrow> wstring \<Rightarrow> bool \<times> GraphemeState" where
  "graphemeNext d s str =
     (let clusterBeg = gs_beg s + gs_len s
      in if clusterBeg < length str
         then (let (clusterEnd, width, state, lead) =
                     (if gs_state s \<noteq> 0
                      then graphemeNext_loop d str clusterBeg (gs_width s) (NOT (gs_state s)) (gs_last s)
                      else (let (cp, clusterEnd) = utf16NextOrFFFD str clusterBeg;
                                lead = ucdLookup cp
                            in graphemeNext_loop d str clusterEnd (cluster_width d cp lead) 0 lead))
               in (clusterEnd < length str,
                   \<lparr>gs_beg = clusterBeg, gs_len = clusterEnd - clusterBeg, gs_width = (if width > 2 then 2 else width),
                    gs_state = NOT state, gs_last = lead\<rparr>))
         else (False, s))"

text \<open>The same loop backwards; the end of a run of code points is its start in the string.\<close>

function graphemePrev_loop ::
    "CodepointWidthDetector \<Rightarrow> wstring \<Rightarrow> nat \<Rightarrow> int \<Rightarrow> int \<Rightarrow> nat \<Rightarrow> nat \<times> int \<times> int \<times> nat" where
  "graphemePrev_loop d str clusterBeg width state trail =
     (if clusterBeg > 0
      then (let (cp, clusterBegNext) = utf16PrevOrFFFD str clusterBeg;
                lead = ucdLookup cp;
                state = ucdGraphemeJoins (nat state) lead trail
            in if ucdGraphemeDone state then (clusterBeg, width, NOT 0, 0)
               else graphemePrev_loop d str clusterBegNext (width + cluster_width d cp lead) (int state) lead)
      else (clusterBeg, width, state, trail))"
  by pat_completeness auto
termination
  by (relation "measure (\<lambda>(d, str, clusterBeg, width, state, trail). clusterBeg)")
    (use utf16Prev_moves in \<open>auto simp: Let_def prod_eq_iff\<close>)

definition graphemePrev :: "CodepointWidthDetector \<Rightarrow> GraphemeState \<Rightarrow> wstring \<Rightarrow> bool \<times> GraphemeState" where
  "graphemePrev d s str =
     (let clusterEnd = gs_beg s
      in if clusterEnd > 0
         then (let (clusterBeg, width, state, trail) =
                     (if gs_state s \<noteq> 0
                      then graphemePrev_loop d str clusterEnd (gs_width s) (NOT (gs_state s)) (gs_last s)
                      else (let (cp, clusterBeg) = utf16PrevOrFFFD str clusterEnd;
                                trail = ucdLookup cp
                            in graphemePrev_loop d str clusterBeg (cluster_width d cp trail) 0 trail))
               in (clusterBeg > 0,
                   \<lparr>gs_beg = clusterBeg, gs_len = clusterEnd - clusterBeg, gs_width = (if width > 2 then 2 else width),
                    gs_state = NOT state, gs_last = trail\<rparr>))
         else (False, s))"

text \<open>The loops that append code points without a width to one that has a width.\<close>

function graphemeNextWcswidth_loop ::
    "CodepointWidthDetector \<Rightarrow> wstring \<Rightarrow> nat \<Rightarrow> int \<Rightarrow> int \<Rightarrow> nat \<times> int \<times> int" where
  "graphemeNextWcswidth_loop d str clusterEnd width state =
     (if clusterEnd < length str
      then (let (cp, clusterEndNext) = utf16NextOrFFFD str clusterEnd;
                w = plain_width d (ucdLookup cp)
            in if state \<noteq> 0 \<and> w \<noteq> 0 then (clusterEnd, width, 0)
               else graphemeNextWcswidth_loop d str clusterEndNext (width + w) 1)
      else (clusterEnd, width, state))"
  by pat_completeness auto
termination
  by (relation "measure (\<lambda>(d, str, clusterEnd, width, state). length str - clusterEnd)")
    (use utf16Next_moves in \<open>auto simp: Let_def prod_eq_iff diff_less_mono2\<close>)

definition graphemeNextWcswidth :: "CodepointWidthDetector \<Rightarrow> GraphemeState \<Rightarrow> wstring \<Rightarrow> bool \<times> GraphemeState" where
  "graphemeNextWcswidth d s str =
     (let clusterBeg = gs_beg s + gs_len s
      in if clusterBeg \<ge> length str then (False, s)
         else (let (clusterEnd, width, state) =
                     graphemeNextWcswidth_loop d str clusterBeg (if gs_state s = 0 then 0 else gs_width s) (gs_state s)
               in (clusterEnd < length str,
                   s\<lparr>gs_beg := clusterBeg, gs_len := clusterEnd - clusterBeg, gs_width := width, gs_state := state\<rparr>)))"

function graphemePrevWcswidth_loop :: "CodepointWidthDetector \<Rightarrow> wstring \<Rightarrow> nat \<Rightarrow> int \<Rightarrow> nat \<times> int \<times> int" where
  "graphemePrevWcswidth_loop d str clusterBeg width =
     (if clusterBeg > 0
      then (let (cp, clusterBeg) = utf16PrevOrFFFD str clusterBeg;
                width = width + plain_width d (ucdLookup cp);
                hasWidth = width \<noteq> 0;
                atEnd = clusterBeg = 0
            in if hasWidth \<or> atEnd then (clusterBeg, width, if hasWidth \<and> atEnd then 1 else 0)
               else graphemePrevWcswidth_loop d str clusterBeg width)
      else (clusterBeg, width, 0))"
  by pat_completeness auto
termination
  by (relation "measure (\<lambda>(d, str, clusterBeg, width). clusterBeg)")
    (use utf16Prev_moves in \<open>auto simp: Let_def prod_eq_iff\<close>)

definition graphemePrevWcswidth :: "CodepointWidthDetector \<Rightarrow> GraphemeState \<Rightarrow> wstring \<Rightarrow> bool \<times> GraphemeState" where
  "graphemePrevWcswidth d s str =
     (let clusterEnd = gs_beg s
      in if clusterEnd = 0 then (False, s)
         else (let (clusterBeg, width, delayedCompletion) =
                     (if gs_state s = 0 then graphemePrevWcswidth_loop d str clusterEnd 0
                      else (clusterEnd, gs_width s, 0))
               in (clusterBeg > 0,
                   s\<lparr>gs_beg := clusterBeg, gs_len := clusterEnd - clusterBeg, gs_width := width,
                     gs_state := delayedCompletion\<rparr>)))"

text \<open>One code point at a time, with the fallback for ambiguous ones.\<close>

definition console_width :: "char32 \<Rightarrow> CodepointWidthDetector \<Rightarrow> int \<times> CodepointWidthDetector" where
  "console_width cp d =
     (let width = ucdToCharacterWidth (ucdLookup cp)
      in if width = 3 then checkFallbackViaCache cp d else (int width, d))"

definition graphemeNextConsole ::
    "GraphemeState \<Rightarrow> wstring \<Rightarrow> CodepointWidthDetector \<Rightarrow> bool \<times> GraphemeState \<times> CodepointWidthDetector" where
  "graphemeNextConsole s str d =
     (let clusterBeg = gs_beg s + gs_len s
      in if clusterBeg \<ge> length str then (False, s, d)
         else (let (clusterEnd, width, delayedCompletion, d) =
                     (if gs_state s = 0
                      then (let (cp, clusterEnd) = utf16NextOrFFFD str clusterBeg;
                                (width, d) = console_width cp d
                            in (clusterEnd, width, if clusterEnd \<ge> length str then 1 else 0, d))
                      else (clusterBeg, gs_width s, 0, d))
               in (delayedCompletion = 0,
                   s\<lparr>gs_beg := clusterBeg, gs_len := clusterEnd - clusterBeg, gs_width := width,
                     gs_state := delayedCompletion\<rparr>, d)))"

definition graphemePrevConsole ::
    "GraphemeState \<Rightarrow> wstring \<Rightarrow> CodepointWidthDetector \<Rightarrow> bool \<times> GraphemeState \<times> CodepointWidthDetector" where
  "graphemePrevConsole s str d =
     (let clusterEnd = gs_beg s
      in if clusterEnd = 0 then (False, s, d)
         else (let (clusterBeg, width, delayedCompletion, d) =
                     (if gs_state s = 0
                      then (let (cp, clusterBeg) = utf16PrevOrFFFD str clusterEnd;
                                (width, d) = console_width cp d
                            in (clusterBeg, width, if clusterBeg = 0 then 1 else 0, d))
                      else (clusterEnd, gs_width s, 0, d))
               in (delayedCompletion = 0,
                   s\<lparr>gs_beg := clusterBeg, gs_len := clusterEnd - clusterBeg, gs_width := width,
                     gs_state := delayedCompletion\<rparr>, d)))"

definition GraphemeNext ::
    "GraphemeState \<Rightarrow> wstring \<Rightarrow> CodepointWidthDetector \<Rightarrow> bool \<times> GraphemeState \<times> CodepointWidthDetector" where
  "GraphemeNext s str d =
     (case cwd_mode d of
        Graphemes \<Rightarrow> (let (more_text, s) = graphemeNext d s str in (more_text, s, d))
      | Wcswidth \<Rightarrow> (let (more_text, s) = graphemeNextWcswidth d s str in (more_text, s, d))
      | Console \<Rightarrow> graphemeNextConsole s str d)"

definition GraphemePrev ::
    "GraphemeState \<Rightarrow> wstring \<Rightarrow> CodepointWidthDetector \<Rightarrow> bool \<times> GraphemeState \<times> CodepointWidthDetector" where
  "GraphemePrev s str d =
     (case cwd_mode d of
        Graphemes \<Rightarrow> (let (more_text, s) = graphemePrev d s str in (more_text, s, d))
      | Wcswidth \<Rightarrow> (let (more_text, s) = graphemePrevWcswidth d s str in (more_text, s, d))
      | Console \<Rightarrow> graphemePrevConsole s str d)"

end
