(* ===== verification/CodepointLaws.thy ===== *)
theory CodepointLaws
  imports CodepointWidth
begin

text \<open>
  Code points: decoding UTF-16 yields code points of Unicode only, and no lookup of one leaves its table.
\<close>

subsection \<open>Code points\<close>

lemma unat_and_mask [simp]:
  "unat (w AND 31) = unat w mod 32" "unat (w AND 7) = unat w mod 8" "unat (w AND 3) = unat w mod 4" for w :: u32
proof -
  have m: "w AND 31 = take_bit 5 w" "w AND 7 = take_bit 3 w" "w AND 3 = take_bit 2 w"
    by (simp_all add: take_bit_eq_mask mask_eq_exp_minus_1)
  show "unat (w AND 31) = unat w mod 32" "unat (w AND 7) = unat w mod 8" "unat (w AND 3) = unat w mod 4"
    by (simp_all add: m unsigned_take_bit_eq) (simp_all add: take_bit_eq_mod)
qed

lemma unat_u32_less: "unat (w :: u32) < 2 ^ 32"
  by (rule order.strict_trans2 [OF unsigned_less]) simp

lemma unat_drop_bit: "unat (drop_bit n w) = unat w div 2 ^ n" for w :: u32
  using take_bit_nat_eq_self [OF unat_u32_less [of w]] by (simp only: unsigned_drop_bit_eq) (simp add: drop_bit_eq_div)

lemma unat_ucast_wide [simp]: "unat (ucast (c :: wchar) :: char32) = unat c"
proof -
  have "unat c < 2 ^ 32" by (rule order.strict_trans [OF unat_wchar_less]) simp
  from take_bit_nat_eq_self [OF this] show ?thesis by (simp add: unsigned_ucast_eq)
qed

lemma unat_and_field: "n + m \<le> 32 \<Longrightarrow> unat (c AND push_bit n (Bit_Operations.mask m)) = 2 ^ n * (unat c div 2 ^ n mod 2 ^ m)" for c :: char32
proof -
  assume nm: "n + m \<le> 32"
  have eq: "c AND push_bit n (Bit_Operations.mask m) = push_bit n (take_bit m (drop_bit n c))"
    by (rule bit_word_eqI) (auto simp: bit_simps)
  have less: "unat c div 2 ^ n mod 2 ^ m * 2 ^ n < 2 ^ 32"
  proof -
    have "unat c div 2 ^ n mod 2 ^ m * 2 ^ n < 2 ^ m * 2 ^ n" by (intro mult_strict_right_mono) simp_all
    also have "\<dots> = 2 ^ (n + m)" by (simp add: power_add)
    also have "\<dots> \<le> 2 ^ 32" using nm by (rule power_increasing) simp
    finally show ?thesis .
  qed
  show ?thesis
  proof -
    have "unat (push_bit n (take_bit m (drop_bit n c))) = take_bit 32 (push_bit n (take_bit m (unat (drop_bit n c))))"
      by (simp only: unsigned_push_bit_eq unsigned_take_bit_eq) simp
    also have "\<dots> = take_bit 32 (unat c div 2 ^ n mod 2 ^ m * 2 ^ n)"
      by (simp only: unat_drop_bit push_bit_eq_mult) (simp add: take_bit_eq_mod)
    finally show ?thesis using eq take_bit_nat_eq_self [OF less] by (simp add: mult.commute)
  qed
qed

lemma surrogate_range:
  fixes c :: char32
  assumes "unat c < 0x10000"
  shows "c AND 0xF800 = 0xD800 \<longleftrightarrow> unat c div 2048 = 27" and "c AND 0xFC00 = 0xD800 \<longleftrightarrow> unat c div 1024 = 54"
    and "c AND 0xFC00 = 0xDC00 \<longleftrightarrow> unat c div 1024 = 55" and "c AND 0x400 = 0 \<longleftrightarrow> even (unat c div 1024)"
proof -
  have f: "(0xF800 :: char32) = push_bit 11 (Bit_Operations.mask 5)" "(0xFC00 :: char32) = push_bit 10 (Bit_Operations.mask 6)"
    "(0x400 :: char32) = push_bit 10 (Bit_Operations.mask 1)" by (simp_all add: mask_eq_exp_minus_1)
  have "unat (c AND 0xF800) = 2048 * (unat c div 2048 mod 32)" "unat (c AND 0xFC00) = 1024 * (unat c div 1024 mod 64)"
    "unat (c AND 0x400) = 1024 * (unat c div 1024 mod 2)"
    unfolding f using unat_and_field [of 11 5 c] unat_and_field [of 10 6 c] unat_and_field [of 10 1 c] by simp_all
  moreover have "unat c div 2048 mod 32 = unat c div 2048" "unat c div 1024 mod 64 = unat c div 1024" using assms by simp_all
  ultimately show "c AND 0xF800 = 0xD800 \<longleftrightarrow> unat c div 2048 = 27" "c AND 0xFC00 = 0xD800 \<longleftrightarrow> unat c div 1024 = 54"
    "c AND 0xFC00 = 0xDC00 \<longleftrightarrow> unat c div 1024 = 55" "c AND 0x400 = 0 \<longleftrightarrow> even (unat c div 1024)"
    by (simp_all add: word_unat_eq_iff even_iff_mod_2_eq_zero)
qed

lemma surrogate_pair:
  fixes c1 c2 :: char32
  assumes "unat c1 div 1024 = 54" and "unat c2 div 1024 = 55"
  shows "unat (push_bit 10 c1 - 0x35FDC00 + c2) = 0x10000 + 1024 * (unat c1 mod 1024) + unat c2 mod 1024"
proof -
  have c: "unat c1 = 54 * 1024 + unat c1 mod 1024" "unat c2 = 55 * 1024 + unat c2 mod 1024" "unat c1 mod 1024 < 1024" "unat c2 mod 1024 < 1024"
    using assms div_mult_mod_eq [of "unat c1" 1024] div_mult_mod_eq [of "unat c2" 1024] by simp_all
  have p: "unat (push_bit 10 c1) = 1024 * unat c1"
    using c by (simp add: push_bit_eq_mult unat_word_ariths)
  have "0x35FDC00 \<le> push_bit 10 c1" using c p by (simp add: word_le_nat_alt)
  then have "unat (push_bit 10 c1 - 0x35FDC00) = 1024 * unat c1 - 0x35FDC00" using p by (simp add: unat_sub)
  then show ?thesis using c by (simp add: unat_word_ariths)
qed

lemma surrogate_half: "n div 2048 = 27 \<Longrightarrow> n div 1024 = (if even (n div 1024) then 54 else 55)" for n :: nat
proof -
  assume "n div 2048 = 27"
  then have "n div 1024 div 2 = 27" by (simp flip: div_mult2_eq)
  then show ?thesis by (auto elim!: evenE oddE)
qed

lemma decoded_next_bound: "unat (fst (utf16NextOrFFFD str it)) \<le> 0x10FFFF"
proof -
  have "unat w < 65536" for w :: wchar by simp
  then have b: "unat w \<le> 0x10FFFF" for w :: wchar by (rule order.trans [OF less_imp_le]) simp
  have s: "unat (push_bit 10 (ucast w) - 0x35FDC00 + ucast v :: char32) \<le> 0x10FFFF"
    if "unat w div 2048 = 27" "even (unat w div 1024)" "unat v div 1024 = 55" for w v :: wchar
  proof -
    have "unat w div 1024 = 54" using surrogate_half [OF that(1)] that(2) by simp
    then show ?thesis using that(3) surrogate_pair [of "ucast w" "ucast v"] by simp
  qed
  show ?thesis using b s
    by (auto simp: utf16NextOrFFFD_def Let_def surrogate_range)
qed

lemma decoded_prev_bound: "unat (fst (utf16PrevOrFFFD str it)) \<le> 0x10FFFF"
proof -
  have "unat w < 65536" for w :: wchar by simp
  then have b: "unat w \<le> 0x10FFFF" for w :: wchar by (rule order.trans [OF less_imp_le]) simp
  have s: "unat (push_bit 10 (ucast v) - 0x35FDC00 + ucast w :: char32) \<le> 0x10FFFF"
    if "unat w div 2048 = 27" "odd (unat w div 1024)" "unat v div 1024 = 54" for w v :: wchar
  proof -
    have "unat w div 1024 = 55" using surrogate_half [OF that(1)] that(2) by simp
    then show ?thesis using that(3) surrogate_pair [of "ucast v" "ucast w"] by simp
  qed
  show ?thesis using b s
    by (auto simp: utf16PrevOrFFFD_def Let_def surrogate_range)
qed

subsection \<open>The tables\<close>

lemma stage_bounds:
  "i < 544 \<Longrightarrow> s_stage0 ! i + 31 < 1031" "i < 1031 \<Longrightarrow> s_stage1 ! i + 7 < 1916" "i < 1916 \<Longrightarrow> s_stage2 ! i + 7 < 2114"
  "i < 2114 \<Longrightarrow> s_stage3 ! i < 256"
  using stages_in_range by (simp_all add: list_all_length stage_lengths)

text \<open>The indices a lookup reads at.\<close>

definition lookup_indices :: "char32 \<Rightarrow> nat \<times> nat \<times> nat \<times> nat" where
  "lookup_indices cp =
     (let i0 = unat (drop_bit 11 cp);
          i1 = s_stage0 ! i0 + unat (drop_bit 6 cp AND 31);
          i2 = s_stage1 ! i1 + unat (drop_bit 3 cp AND 7);
          i3 = s_stage2 ! i2 + unat (cp AND 7)
      in (i0, i1, i2, i3))"

lemma lookup_in_range:
  assumes "unat cp \<le> 0x10FFFF" and "lookup_indices cp = (i0, i1, i2, i3)"
  shows "i0 < length s_stage0" "i1 < length s_stage1" "i2 < length s_stage2" "i3 < length s_stage3" "ucdLookup cp < 256"
proof -
  have d: "i0 = unat (drop_bit 11 cp)" "i1 = s_stage0 ! i0 + unat (drop_bit 6 cp AND 31)"
    "i2 = s_stage1 ! i1 + unat (drop_bit 3 cp AND 7)" "i3 = s_stage2 ! i2 + unat (cp AND 7)" "ucdLookup cp = s_stage3 ! i3"
    using assms(2) unfolding lookup_indices_def ucdLookup_def Let_def by auto
  show 0: "i0 < length s_stage0" using assms(1) by (simp add: d(1) stage_lengths unat_drop_bit)
  have m: "unat (drop_bit 6 cp AND 31) \<le> 31" "unat (drop_bit 3 cp AND 7) \<le> 7" "unat (cp AND 7) \<le> 7" by simp_all
  show 1: "i1 < length s_stage1" using 0 m stage_bounds(1) [of i0] unfolding stage_lengths d(2) by linarith
  show 2: "i2 < length s_stage2" using 1 m stage_bounds(2) [of i1] unfolding stage_lengths d(3) by linarith
  show 3: "i3 < length s_stage3" using 2 m stage_bounds(3) [of i2] unfolding stage_lengths d(4) by linarith
  show "ucdLookup cp < 256" using 3 stage_bounds(4) [of i3] unfolding stage_lengths d(5) by blast
qed

lemma joins_table: "list_all (\<lambda>s. list_all (\<lambda>l. list_all (\<lambda>t. ucdGraphemeJoins s l t \<in> {0, 1, 3}) [0..<16]) [0..<16]) [0, 1]"
  by code_simp

lemma joins_state: "s < 2 \<Longrightarrow> ucdGraphemeJoins s l t \<in> {0, 1, 3}"
proof -
  assume "s < 2"
  then have "s \<in> set [0, 1]" by auto
  moreover have "l mod 16 \<in> set [0..<16]" "t mod 16 \<in> set [0..<16]" by simp_all
  ultimately have "ucdGraphemeJoins s (l mod 16) (t mod 16) \<in> {0, 1, 3}"
    using joins_table unfolding list_all_iff by blast
  then show ?thesis by (simp add: ucdGraphemeJoins_def)
qed

end
