(* ===== verification/CodepointClusters.thy ===== *)
theory CodepointClusters
  imports CodepointLaws
begin

text \<open>
  What the measuring of text guarantees: every cluster is a non-empty piece of the string that takes at most
  two columns, the clusters make up the whole string, and a string that comes in two parts is
  measured as if it had come in one.
\<close>

subsection \<open>Widths\<close>

definition cwd_ok :: "CodepointWidthDetector \<Rightarrow> bool" where
  "cwd_ok d \<longleftrightarrow> cwd_ambiguousWidth d \<in> {1, 2} \<and> ran (cwd_fallbackCache d) \<subseteq> {1, 2}"

lemma plain_width_bounds:
  assumes "cwd_ok d" and "val < 256"
  shows "0 \<le> plain_width d val \<and> plain_width d val \<le> 2"
proof -
  have "drop_bit 6 val < 4" using assms(2) by (simp add: drop_bit_eq_div)
  then have "ucdToCharacterWidth val \<in> {0, 1, 2, 3}" by (auto simp: ucdToCharacterWidth_def)
  then show ?thesis using assms(1) by (auto simp: plain_width_def cwd_ok_def)
qed

lemma lookup_small: "unat cp \<le> 0x10FFFF \<Longrightarrow> ucdLookup cp < 256"
  using lookup_in_range(5) [of cp] by (cases "lookup_indices cp") auto

lemmas decoded_small = lookup_small [OF decoded_next_bound] lookup_small [OF decoded_prev_bound]

lemma cluster_width_bounds:
  "cwd_ok d \<Longrightarrow> val < 256 \<Longrightarrow> 0 \<le> cluster_width d cp val"
  using plain_width_bounds [of d val] by (simp add: cluster_width_def)

lemma console_width_bounds:
  assumes "cwd_ok d" and "unat cp \<le> 0x10FFFF" and "console_width cp d = (w, d')"
  shows "0 \<le> w \<and> w \<le> 2 \<and> cwd_ok d' \<and> cwd_mode d' = cwd_mode d"
proof -
  have "ucdToCharacterWidth (ucdLookup cp) \<in> {0, 1, 2, 3}"
    using lookup_small [OF assms(2)] by (auto simp: ucdToCharacterWidth_def drop_bit_eq_div)
  with assms(1,3) show ?thesis
    by (auto simp: console_width_def checkFallbackViaCache_def cwd_ok_def Let_def ran_map_upd dest: ranI split: option.splits if_splits)
qed

subsection \<open>One cluster\<close>

declare graphemeNext_loop.simps [simp del] graphemeNextWcswidth_loop.simps [simp del]

lemma next_loop_end [simp]: "length str \<le> e \<Longrightarrow> graphemeNext_loop d str e w state l = (e, w, state, l)"
  by (subst graphemeNext_loop.simps) simp

lemma next_loop_step:
  "e < length str \<Longrightarrow> utf16NextOrFFFD str e = (cp, n) \<Longrightarrow> j = ucdGraphemeJoins (nat state) l (ucdLookup cp) \<Longrightarrow>
   graphemeNext_loop d str e w state l =
     (if j = 3 then (e, w, NOT 0, 0)
      else graphemeNext_loop d str n (w + cluster_width d cp (ucdLookup cp)) (int j) (ucdLookup cp))"
  by (subst graphemeNext_loop.simps) (simp add: ucdGraphemeDone_def Let_def)

lemma wcswidth_loop_end [simp]: "length str \<le> e \<Longrightarrow> graphemeNextWcswidth_loop d str e w state = (e, w, state)"
  by (subst graphemeNextWcswidth_loop.simps) simp

lemma wcswidth_loop_step:
  "e < length str \<Longrightarrow> utf16NextOrFFFD str e = (cp, n) \<Longrightarrow>
   graphemeNextWcswidth_loop d str e w state =
     (if state \<noteq> 0 \<and> plain_width d (ucdLookup cp) \<noteq> 0 then (e, w, 0)
      else graphemeNextWcswidth_loop d str n (w + plain_width d (ucdLookup cp)) 1)"
  by (subst graphemeNextWcswidth_loop.simps) (simp add: Let_def)

text \<open>The loop stays in the string, never makes the cluster narrower, and says whether it went up to the
  end.\<close>

lemma next_loop:
  "cwd_ok d \<Longrightarrow> e \<le> length str \<Longrightarrow> state \<in> {0, 1} \<Longrightarrow> graphemeNext_loop d str e w state l = (e', w', state', l') \<Longrightarrow>
   e \<le> e' \<and> e' \<le> length str \<and> w \<le> w' \<and> (if e' < length str then state' = NOT 0 else state' \<in> {0, 1})"
proof (induction d str e w state l rule: graphemeNext_loop.induct)
  case (1 d str e w state l)
  show ?case
  proof (cases "e < length str")
    case True
    obtain cp n where n: "utf16NextOrFFFD str e = (cp, n)" by fastforce
    let ?j = "ucdGraphemeJoins (nat state) l (ucdLookup cp)"
    have j: "?j \<in> {0, 1, 3}" using "1.prems"(3) by (intro joins_state) auto
    have b: "e < n" "n \<le> length str" using utf16Next_moves [OF True] n by simp_all
    have w: "0 \<le> cluster_width d cp (ucdLookup cp)"
      using cluster_width_bounds [OF "1.prems"(1) decoded_small(1) [of str e]] n by simp
    show ?thesis
    proof (cases "?j = 3")
      case stop: True
      then show ?thesis using "1.prems"(4) True n by (simp add: next_loop_step)
    next
      case False
      then have "graphemeNext_loop d str n (w + cluster_width d cp (ucdLookup cp)) (int ?j) (ucdLookup cp) = (e', w', state', l')"
        using "1.prems"(4) True n by (simp add: next_loop_step)
      from "1.IH" [OF True n [symmetric] refl refl refl _ "1.prems"(1) b(2) _ this] False j b w
      show ?thesis by (auto simp: ucdGraphemeDone_def)
    qed
  qed (use "1.prems" in simp)
qed

text \<open>With a lead character, the other loop only appends characters without a width.\<close>

lemma wcswidth_loop:
  "cwd_ok d \<Longrightarrow> e \<le> length str \<Longrightarrow> graphemeNextWcswidth_loop d str e w 1 = (e', w', state') \<Longrightarrow>
   e \<le> e' \<and> e' \<le> length str \<and> w' = w \<and> (if e' < length str then state' = 0 else state' = 1)"
proof (induction d str e w "1 :: int" rule: graphemeNextWcswidth_loop.induct)
  case (1 d str e w)
  show ?case
  proof (cases "e < length str")
    case True
    obtain cp n where n: "utf16NextOrFFFD str e = (cp, n)" by fastforce
    have b: "e < n" "n \<le> length str" using utf16Next_moves [OF True] n by simp_all
    show ?thesis
    proof (cases "plain_width d (ucdLookup cp) = 0")
      case zero: True
      then have "graphemeNextWcswidth_loop d str n w 1 = (e', w', state')"
        using "1.prems"(3) True n by (simp add: wcswidth_loop_step)
      with "1.hyps" [OF True n [symmetric] refl refl _ "1.prems"(1) b(2)] zero b show ?thesis by simp
    next
      case False
      then show ?thesis using "1.prems"(3) True n by (simp add: wcswidth_loop_step)
    qed
  qed (use "1.prems" in simp)
qed

definition state_end :: "GraphemeState \<Rightarrow> nat" where
  "state_end s = gs_beg s + gs_len s"

lemma next_cluster:
  assumes ok: "cwd_ok d" and b: "state_end s < length str" and "gs_state s = 0" and "GraphemeNext s str d = (m, s', d')"
  shows "cwd_ok d' \<and> cwd_mode d' = cwd_mode d \<and> gs_beg s' = state_end s \<and> 0 < gs_len s' \<and> state_end s' \<le> length str \<and>
    0 \<le> gs_width s' \<and> gs_width s' \<le> 2 \<and> (m \<longleftrightarrow> state_end s' < length str) \<and> (m \<longrightarrow> gs_state s' = 0)"
proof -
  obtain cp n where n: "utf16NextOrFFFD str (state_end s) = (cp, n)" by fastforce
  have bn: "state_end s < n" "n \<le> length str" using utf16Next_moves [OF b] n by simp_all
  have v: "ucdLookup cp < 256" using decoded_small(1) [of str "state_end s"] n by simp
  show ?thesis
  proof (cases "cwd_mode d")
    case Graphemes
    obtain e w state l where l: "graphemeNext_loop d str n (cluster_width d cp (ucdLookup cp)) 0 (ucdLookup cp) = (e, w, state, l)"
      using prod_cases4 by blast
    have "0 \<le> cluster_width d cp (ucdLookup cp)" by (rule cluster_width_bounds [OF ok v])
    with next_loop [OF ok bn(2) _ l] show ?thesis
      using Graphemes assms bn l n by (auto simp: GraphemeNext_def graphemeNext_def state_end_def Let_def split: if_splits)
  next
    case Wcswidth
    have "graphemeNextWcswidth_loop d str (state_end s) 0 0 = graphemeNextWcswidth_loop d str n (plain_width d (ucdLookup cp)) 1"
      using wcswidth_loop_step [OF b n] by simp
    moreover obtain e w state where l: "graphemeNextWcswidth_loop d str n (plain_width d (ucdLookup cp)) 1 = (e, w, state)"
      using prod_cases3 by blast
    ultimately show ?thesis
      using Wcswidth assms bn wcswidth_loop [OF ok bn(2) l] plain_width_bounds [OF ok v]
      by (auto simp: GraphemeNext_def graphemeNextWcswidth_def state_end_def Let_def split: if_splits)
  next
    case Console
    obtain w d1 where c: "console_width cp d = (w, d1)" by fastforce
    have "unat cp \<le> 0x10FFFF" using decoded_next_bound [of str "state_end s"] n by simp
    from console_width_bounds [OF ok this c] show ?thesis
      using Console assms bn n c by (auto simp: GraphemeNext_def graphemeNextConsole_def state_end_def Let_def split: if_splits)
  qed
qed

subsection \<open>The clusters of a string\<close>

text \<open>\<^verbatim>\<open>GraphemeNext\<close> called again and again, at most \<open>n\<close> times: the texts of the clusters and their widths.\<close>

fun clusters :: "nat \<Rightarrow> GraphemeState \<Rightarrow> wstring \<Rightarrow> CodepointWidthDetector \<Rightarrow> (wstring \<times> int) list" where
  "clusters 0 s str d = []"
| "clusters (Suc n) s str d =
     (if state_end s < length str
      then (case GraphemeNext s str d of
              (m, s', d') \<Rightarrow>
                (take (gs_len s') (drop (gs_beg s') str), gs_width s') # (if m then clusters n s' str d' else []))
      else [])"

lemma clusters_cover:
  "cwd_ok d \<Longrightarrow> gs_state s = 0 \<Longrightarrow> state_end s \<le> length str \<Longrightarrow> length str - state_end s \<le> n \<Longrightarrow>
   concat (map fst (clusters n s str d)) = drop (state_end s) str \<and>
   (\<forall>(t, w) \<in> set (clusters n s str d). t \<noteq> [] \<and> 0 \<le> w \<and> w \<le> 2)"
proof (induction n s str d rule: clusters.induct)
  case (2 n s str d)
  show ?case
  proof (cases "state_end s < length str")
    case True
    obtain m s' d' where g: "GraphemeNext s str d = (m, s', d')" using prod_cases3 by blast
    from next_cluster [OF "2.prems"(1) True "2.prems"(2) g] have n: "cwd_ok d'" "gs_beg s' = state_end s" "0 < gs_len s'"
      "state_end s' \<le> length str" "0 \<le> gs_width s'" "gs_width s' \<le> 2" "m \<longleftrightarrow> state_end s' < length str" "m \<longrightarrow> gs_state s' = 0"
      by blast+
    let ?t = "take (gs_len s') (drop (gs_beg s') str)"
    have t: "?t @ drop (state_end s') str = drop (state_end s) str" "?t \<noteq> []"
      using n True by (simp_all add: state_end_def add.commute flip: drop_drop)
    show ?thesis
    proof (cases m)
      case True
      have "length str - state_end s' \<le> n" using "2.prems"(4) n(2,3) by (simp add: state_end_def)
      with "2.IH" [OF \<open>state_end s < length str\<close> g [symmetric] refl True] n True t g \<open>state_end s < length str\<close>
      show ?thesis by simp
    next
      case False
      then show ?thesis using n t g \<open>state_end s < length str\<close> by simp
    qed
  qed simp
qed simp

subsection \<open>A string in two parts\<close>

text \<open>The cut is not inside of a surrogate pair.\<close>

definition clean_cut :: "wstring \<Rightarrow> wstring \<Rightarrow> bool" where
  "clean_cut xs ys \<longleftrightarrow> xs = [] \<or> ys = [] \<or> \<not> (unat (last xs) div 1024 = 54 \<and> unat (hd ys) div 1024 = 55)"

lemma decode_append_left:
  assumes "clean_cut xs ys" and "i < length xs"
  shows "utf16NextOrFFFD (xs @ ys) i = utf16NextOrFFFD xs i"
proof (cases "i + 1 = length xs")
  case True
  then have l: "xs ! i = last xs" using assms(2) by (metis add_diff_cancel_right' last_conv_nth less_nat_zero_code list.size(3))
  show ?thesis
  proof (cases ys)
    case (Cons y zs)
    have "unat (last xs) div 2048 = 27 \<Longrightarrow> even (unat (last xs) div 1024) \<Longrightarrow> unat y div 1024 \<noteq> 55"
      using assms surrogate_half [of "unat (last xs)"] Cons by (auto simp: clean_cut_def)
    then show ?thesis using True Cons l assms(2)
      by (auto simp: utf16NextOrFFFD_def Let_def nth_append surrogate_range)
  qed simp
next
  case False
  then show ?thesis using assms(2) by (simp add: utf16NextOrFFFD_def Let_def nth_append)
qed

lemma decode_append_right:
  "utf16NextOrFFFD (xs @ ys) (length xs + i) = (fst (utf16NextOrFFFD ys i), length xs + snd (utf16NextOrFFFD ys i))"
  by (auto simp: utf16NextOrFFFD_def Let_def nth_append)

lemma next_loop_shift:
  "graphemeNext_loop d (xs @ ys) (length xs + e) w state l =
   (case graphemeNext_loop d ys e w state l of (e', w', state', l') \<Rightarrow> (length xs + e', w', state', l'))"
proof (induction d ys e w state l rule: graphemeNext_loop.induct)
  case (1 d ys e w state l)
  show ?case
  proof (cases "e < length ys")
    case True
    obtain cp n where n: "utf16NextOrFFFD ys e = (cp, n)" by fastforce
    then have "utf16NextOrFFFD (xs @ ys) (length xs + e) = (cp, length xs + n)" by (simp add: decode_append_right)
    then show ?thesis using True n "1.IH" [OF True n [symmetric] refl refl refl]
      by (simp add: next_loop_step ucdGraphemeDone_def)
  qed simp
qed

lemma next_loop_append:
  "clean_cut xs ys \<Longrightarrow> e \<le> length xs \<Longrightarrow>
   graphemeNext_loop d (xs @ ys) e w state l =
   (case graphemeNext_loop d xs e w state l of
      (e1, w1, state1, l1) \<Rightarrow>
        (if e1 < length xs then (e1, w1, state1, l1) else graphemeNext_loop d (xs @ ys) (length xs) w1 state1 l1))"
proof (induction d xs e w state l rule: graphemeNext_loop.induct)
  case (1 d xs e w state l)
  show ?case
  proof (cases "e < length xs")
    case True
    obtain cp n where n: "utf16NextOrFFFD xs e = (cp, n)" by fastforce
    then have "utf16NextOrFFFD (xs @ ys) e = (cp, n)" using decode_append_left [OF "1.prems"(1) True] by simp
    moreover have "n \<le> length xs" using utf16Next_moves [OF True] n by simp
    ultimately show ?thesis using True n "1.IH" [OF True n [symmetric] refl refl refl _ "1.prems"(1)]
      by (simp add: next_loop_step ucdGraphemeDone_def)
  next
    case False
    then have "e = length xs" using "1.prems"(2) by simp
    then show ?thesis by simp
  qed
qed

text \<open>The width only counts up.\<close>

lemma next_loop_width:
  "graphemeNext_loop d str e (v + w) state l =
   (case graphemeNext_loop d str e w state l of (e', w', state', l') \<Rightarrow> (e', v + w', state', l'))"
proof (induction d str e w state l rule: graphemeNext_loop.induct)
  case (1 d str e w state l)
  show ?case
  proof (cases "e < length str")
    case True
    obtain cp n where n: "utf16NextOrFFFD str e = (cp, n)" by fastforce
    show ?thesis using True n "1.IH" [OF True n [symmetric] refl refl refl]
      by (simp add: next_loop_step ucdGraphemeDone_def add.assoc)
  qed simp
qed

subsection \<open>Properties\<close>

text \<open>Decoding UTF-16 text, whatever it holds, only ever yields code points up to U+10FFFF, and looking one of
  them up reads inside of each of the four tables; and the rules for joining are only asked for the
  two states they have rows for.\<close>

theorem lookups_stay_in_tables:
  assumes "cp = fst (utf16NextOrFFFD str i) \<or> cp = fst (utf16PrevOrFFFD str i)"
    and "lookup_indices cp = (i0, i1, i2, i3)" and "state < 2"
  shows "i0 < length s_stage0 \<and> i1 < length s_stage1 \<and> i2 < length s_stage2 \<and> i3 < length s_stage3 \<and>
    ucdLookup cp = s_stage3 ! i3 \<and> state < length s_joinRules \<and> lead mod 16 < length (s_joinRules ! state) \<and>
    (ucdGraphemeJoins state lead (ucdLookup cp) < 2 \<or> ucdGraphemeDone (ucdGraphemeJoins state lead (ucdLookup cp)))"
proof -
  have cp: "unat cp \<le> 0x10FFFF" using assms(1) decoded_next_bound decoded_prev_bound by auto
  have "ucdLookup cp = s_stage3 ! i3" using assms(2) by (auto simp: lookup_indices_def ucdLookup_def Let_def)
  moreover have "length (s_joinRules ! state) = 16" using joinRules_shape assms(3) by (simp add: list_all_length)
  ultimately show ?thesis
    using lookup_in_range [OF cp assms(2)] joins_state [OF assms(3), of lead "ucdLookup cp"] assms(3) joinRules_shape(1)
    by (auto simp: ucdGraphemeDone_def)
qed

text \<open>C34: In each of the three modes of measurement, the clusters of a text are non-empty, take at most two
  columns each, and put together they are the text; as many calls as the text has characters are
  enough.\<close>

theorem clusters_partition_text:
  assumes "cwd_ok d"
  shows "concat (map fst (clusters (length str) GraphemeState_init str d)) = str \<and>
    list_all (\<lambda>(t, w). t \<noteq> [] \<and> 0 \<le> w \<and> w \<le> 2) (clusters (length str) GraphemeState_init str d)"
  using clusters_cover [OF assms, of GraphemeState_init str "length str"]
  by (simp add: GraphemeState_init_def state_end_def list_all_iff)

text \<open>C35: A cluster that reaches the end of one string and is continued with the next one is the cluster of both
  strings put together: the parts add up to its length, and the width is the width of the whole. The
  strings must not be cut inside of a surrogate pair.\<close>

theorem parts_measured_as_whole:
  assumes ok: "cwd_ok d" and mode: "cwd_mode d = Graphemes" and cut: "clean_cut xs ys"
    and s: "gs_state s = 0" "state_end s < length xs" and first: "GraphemeNext s xs d = (False, s1, d1)"
    and second: "GraphemeNext (next_string s1) ys d1 = (m, s2, d2)" and "ys \<noteq> []"
  shows "\<exists>s'. GraphemeNext s (xs @ ys) d = (m, s', d) \<and> gs_beg s' = state_end s \<and> gs_len s' = gs_len s1 + gs_len s2 \<and>
    gs_width s' = gs_width s2 \<and> gs_state s' = gs_state s2 \<and> gs_last s' = gs_last s2"
proof -
  obtain cp n where n: "utf16NextOrFFFD xs (state_end s) = (cp, n)" by fastforce
  have bn: "state_end s < n" "n \<le> length xs" using utf16Next_moves [OF s(2)] n by simp_all
  have n': "utf16NextOrFFFD (xs @ ys) (state_end s) = (cp, n)" using decode_append_left [OF cut s(2)] n by simp
  let ?w = "cluster_width d cp (ucdLookup cp)"
  obtain e1 w1 st1 l1 where l1: "graphemeNext_loop d xs n ?w 0 (ucdLookup cp) = (e1, w1, st1, l1)" using prod_cases4 by blast
  note b1 = next_loop [OF ok bn(2) _ l1]
  have "e1 = length xs" "d1 = d" and s1: "s1 = \<lparr>gs_beg = state_end s, gs_len = length xs - state_end s,
      gs_width = min 2 w1, gs_state = NOT st1, gs_last = l1\<rparr>" and st1: "st1 \<in> {0, 1}"
    using first mode s n l1 b1
    by (auto simp: GraphemeNext_def graphemeNext_def state_end_def Let_def min_def split: if_splits)
  obtain e2 dw st2 l2 where l2: "graphemeNext_loop d ys 0 0 st1 l1 = (e2, dw, st2, l2)" using prod_cases4 by blast
  have b2: "e2 \<le> length ys" "0 \<le> dw" using next_loop [OF ok _ st1 l2] by simp_all
  have c: "graphemeNext_loop d ys 0 w st1 l1 = (e2, w + dw, st2, l2)" for w
    using next_loop_width [of d ys 0 w 0 st1 l1] l2 by simp
  have "m = (e2 < length ys)" and s2: "s2 = \<lparr>gs_beg = 0, gs_len = e2, gs_width = min 2 (min 2 w1 + dw), gs_state = NOT st2, gs_last = l2\<rparr>"
    using second mode st1 assms(8) c [of "min 2 w1"] \<open>d1 = d\<close>
    by (auto simp: GraphemeNext_def graphemeNext_def next_string_def s1 min_def split: if_splits)
  moreover have "graphemeNext_loop d (xs @ ys) n ?w 0 (ucdLookup cp) = (length xs + e2, w1 + dw, st2, l2)"
    using next_loop_append [OF cut bn(2), of d ?w 0 "ucdLookup cp"] l1 \<open>e1 = length xs\<close> next_loop_shift [of d xs ys 0 w1 st1 l1] c [of w1]
    by simp
  ultimately show ?thesis using mode s n' b2 s1 bn
    by (auto simp: GraphemeNext_def graphemeNext_def state_end_def Let_def min_def)
qed

subsection \<open>Examples\<close>

text \<open>The letter e with a combining acute accent, and an ideograph.\<close>

lemma default_ok: "cwd_ok CodepointWidthDetector_init"
  by (simp add: cwd_ok_def CodepointWidthDetector_init_def)

lemma lookup_examples: "ucdLookup 0x65 = 64" "ucdLookup 0x301 = 2" "ucdLookup 0x732B = 128"
  by (simp_all add: ucdLookup_def s_stage0_def s_stage1_def s_stage2_def s_stage3_def)

lemma join_examples: "ucdGraphemeJoins 0 64 2 = 0" "ucdGraphemeJoins 0 2 128 = 3"
  by (simp_all add: ucdGraphemeJoins_def s_joinRules_def)

lemma example_clusters:
  "clusters 3 GraphemeState_init [0x65, 0x301, 0x732B] CodepointWidthDetector_init = [([0x65, 0x301], 1), ([0x732B], 2)]"
  by (simp add: numeral_3_eq_3 GraphemeState_init_def CodepointWidthDetector_init_def state_end_def GraphemeNext_def
      graphemeNext_def utf16NextOrFFFD_def graphemeNext_loop.simps lookup_examples join_examples ucdGraphemeDone_def
      cluster_width_def plain_width_def ucdToCharacterWidth_def drop_bit_eq_div)

lemma clusters_partition_text_witness:
  "concat (map fst (clusters (length [0x65, 0x301, 0x732B :: wchar]) GraphemeState_init [0x65, 0x301, 0x732B] CodepointWidthDetector_init)) =
     [0x65, 0x301, 0x732B] \<and>
   clusters (length [0x65, 0x301, 0x732B :: wchar]) GraphemeState_init [0x65, 0x301, 0x732B] CodepointWidthDetector_init =
     [([0x65, 0x301], 1), ([0x732B], 2)]"
  using clusters_partition_text [OF default_ok, of "[0x65, 0x301, 0x732B]"] example_clusters
  by (simp add: numeral_3_eq_3)

lemma lookups_stay_in_tables_witness:
  "14 < length s_stage0 \<and> 214 < length s_stage1 \<and> 838 < length s_stage2 \<and> 1267 < length s_stage3 \<and> ucdLookup 0x732B = s_stage3 ! 1267"
proof -
  have a: "0x732B = fst (utf16NextOrFFFD [0x732B] 0) \<or> 0x732B = fst (utf16PrevOrFFFD [0x732B] 0)" by (simp add: utf16NextOrFFFD_def)
  have b: "lookup_indices 0x732B = (14, 214, 838, 1267)"
    by (simp add: lookup_indices_def s_stage0_def s_stage1_def s_stage2_def)
  have c: "0 < (2 :: nat)" by simp
  show ?thesis using lookups_stay_in_tables [OF a b c, of 0] by (elim conjE) (intro conjI)
qed

lemma example_parts:
  "GraphemeNext GraphemeState_init [0x65] CodepointWidthDetector_init =
     (False, \<lparr>gs_beg = 0, gs_len = 1, gs_width = 1, gs_state = - 1, gs_last = 64\<rparr>, CodepointWidthDetector_init)"
  "GraphemeNext (next_string \<lparr>gs_beg = 0, gs_len = 1, gs_width = 1, gs_state = - 1, gs_last = 64\<rparr>) [0x301, 0x732B]
       CodepointWidthDetector_init =
     (True, \<lparr>gs_beg = 0, gs_len = 1, gs_width = 1, gs_state = 0, gs_last = 0\<rparr>, CodepointWidthDetector_init)"
  by (simp_all add: GraphemeState_init_def CodepointWidthDetector_init_def next_string_def GraphemeNext_def
      graphemeNext_def utf16NextOrFFFD_def graphemeNext_loop.simps lookup_examples join_examples ucdGraphemeDone_def
      cluster_width_def plain_width_def ucdToCharacterWidth_def drop_bit_eq_div)

lemma parts_measured_as_whole_witness:
  "\<exists>s'. GraphemeNext GraphemeState_init [0x65, 0x301, 0x732B] CodepointWidthDetector_init = (True, s', CodepointWidthDetector_init) \<and>
     gs_beg s' = 0 \<and> gs_len s' = 2 \<and> gs_width s' = 1"
  using parts_measured_as_whole [OF default_ok _ _ _ _ example_parts]
  by (auto simp: CodepointWidthDetector_init_def GraphemeState_init_def state_end_def clean_cut_def)

end
