(* ===== verification/Row.thy ===== *)
theory Row
  imports Rle CodepointWidth TextAttribute ITermDispatch
begin

text \<open>
  A row of the text buffer, \<^verbatim>\<open>src/src/buffer/out/Row.cpp\<close>: the characters, the offset into them for each
  column, and the attributes. Columns and offsets are natural numbers, reduced where the source narrows
  them to 16 bits; the offsets that are stored are 16-bit words. \<open>None\<close> is an access outside of an array.
\<close>

subsection \<open>Memory\<close>

type_synonym u16 = "16 word"

definition load :: "nat \<Rightarrow> nat \<Rightarrow> 'x list \<Rightarrow> 'x list option" where
  "load p n mem = (if p + n \<le> length mem then Some (take n (drop p mem)) else None)"

definition store :: "nat \<Rightarrow> 'x list \<Rightarrow> 'x list \<Rightarrow> 'x list option" where
  "store p vals mem = (if p + length vals \<le> length mem then Some (take p mem @ vals @ drop (p + length vals) mem) else None)"

text \<open>The heap: whether it has room for so many characters, and what is in memory that was not written yet.\<close>

record heap =
  heap_grants :: "nat \<Rightarrow> bool"
  heap_content :: "nat \<Rightarrow> wchar"

datatype row_error = Narrowing_error | Bad_alloc

definition UINT16_MAX :: nat where
  "UINT16_MAX = 0xFFFF"

definition narrow_u16 :: "nat \<Rightarrow> nat" where
  "narrow_u16 n = n mod 0x10000"

definition iota_n :: "nat \<Rightarrow> u16 \<Rightarrow> u16 list" where
  "iota_n n val = map (\<lambda>i. val + of_nat i) [0..<n]"

definition clamp :: "int \<Rightarrow> int \<Rightarrow> int \<Rightarrow> int" where
  "clamp val lo hi = (if val < lo then lo else if val > hi then hi else val)"

subsection \<open>The row\<close>

definition CharOffsetsTrailer :: u16 where
  "CharOffsetsTrailer = 0x8000"

definition CharOffsetsMask :: u16 where
  "CharOffsetsMask = 0x7FFF"

datatype MarkCategory = Mark_Default | Mark_Error | Mark_Warning | Mark_Success | Mark_Prompt

record ScrollbarData =
  sb_category :: MarkCategory
  sb_color :: "u32 option"
  sb_exitCode :: "u32 option"

datatype DbcsAttribute = Dbcs_Single | Dbcs_Leading | Dbcs_Trailing

datatype DelimiterClass = ControlChar | DelimiterChar | RegularChar

text \<open>The size of \<open>row_chars\<close> is the capacity of the buffer; the length of the text is the last offset.\<close>

record ROW =
  row_chars :: wstring
  row_charOffsets :: "u16 list"
  row_attr :: "(TextAttribute, 16) rle"
  row_columnCount :: nat
  row_lineRendition :: LineRendition
  row_wrapForced :: bool
  row_doubleBytePadded :: bool
  row_promptData :: "ScrollbarData option"

definition SetWrapForced :: "bool \<Rightarrow> ROW \<Rightarrow> ROW" where
  "SetWrapForced wrap r = r\<lparr>row_wrapForced := wrap\<rparr>"

definition SetDoubleBytePadded :: "bool \<Rightarrow> ROW \<Rightarrow> ROW" where
  "SetDoubleBytePadded doubleBytePadded r = r\<lparr>row_doubleBytePadded := doubleBytePadded\<rparr>"

definition ROW_SetLineRendition :: "LineRendition \<Rightarrow> ROW \<Rightarrow> ROW" where
  "ROW_SetLineRendition lineRendition r = r\<lparr>row_lineRendition := lineRendition\<rparr>"

definition GetReadableColumnCount :: "ROW \<Rightarrow> int" where
  "GetReadableColumnCount r =
     (if row_lineRendition r = SingleWidth then int (row_columnCount r) - of_bool (row_doubleBytePadded r)
      else (int (row_columnCount r) - 2 * of_bool (row_doubleBytePadded r)) div 2)"

subsection \<open>Initialisation\<close>

definition CalculateCharsBufferSize :: "nat \<Rightarrow> nat" where
  "CalculateCharsBufferSize columns = (columns * 2 + 16) div 16 * 16"

definition CalculateCharOffsetsBufferSize :: "nat \<Rightarrow> nat" where
  "CalculateCharOffsetsBufferSize columns = (columns * 2 + 16) div 16 * 16"

definition UNICODE_SPACE :: wchar where
  "UNICODE_SPACE = 0x20"

text \<open>What \<^verbatim>\<open>_init\<close> does without vector instructions: whitespace, and successive offsets.\<close>

definition ROW_init :: "ROW \<Rightarrow> ROW" where
  "ROW_init r =
     r\<lparr>row_chars := replicate (row_columnCount r) UNICODE_SPACE, row_charOffsets := iota_n (row_columnCount r + 1) 0\<rparr>"

text \<open>The loops with vector instructions, on the whole of the two buffers; \<open>p\<close> counts elements of 16 bits.\<close>

function init_sse2_loop :: "nat \<Rightarrow> nat \<Rightarrow> u16 list \<Rightarrow> wstring \<Rightarrow> u16 list \<Rightarrow> (wstring \<times> u16 list) option" where
  "init_sse2_loop n p offsets chars charOffsets = do {
     chars \<leftarrow> store p (replicate 8 0x20) chars;
     charOffsets \<leftarrow> store p offsets charOffsets;
     if p + 8 \<le> n then init_sse2_loop n (p + 8) (map (\<lambda>x. x + 8) offsets) chars charOffsets
     else Some (chars, charOffsets) }"
  by pat_completeness auto
termination by (relation "measure (\<lambda>(n, p, _). Suc n - p)") auto

definition init_sse2 :: "nat \<Rightarrow> wstring \<Rightarrow> u16 list \<Rightarrow> (wstring \<times> u16 list) option" where
  "init_sse2 columnCount chars charOffsets = init_sse2_loop columnCount 0 [0, 1, 2, 3, 4, 5, 6, 7] chars charOffsets"

function init_avx2_loop :: "nat \<Rightarrow> nat \<Rightarrow> u16 list \<Rightarrow> wstring \<Rightarrow> u16 list \<Rightarrow> (wstring \<times> u16 list) option" where
  "init_avx2_loop tailColumnOffset p offsets chars charOffsets =
     (if p < tailColumnOffset
      then do {
        chars \<leftarrow> store p (replicate 16 0x20) chars;
        charOffsets \<leftarrow> store p offsets charOffsets;
        init_avx2_loop tailColumnOffset (p + 16) (map (\<lambda>x. x + 16) offsets) chars charOffsets }
      else Some (chars, charOffsets))"
  by pat_completeness auto
termination by (relation "measure (\<lambda>(t, p, _). t - p)") auto

definition init_avx2 :: "nat \<Rightarrow> wstring \<Rightarrow> u16 list \<Rightarrow> (wstring \<times> u16 list) option" where
  "init_avx2 columnCount chars charOffsets = do {
     let tailColumnOffset = narrow_u16 ((columnCount - 8) div 8 * 8);
     let offsetsLoop = [0, 1, 2, 3, 4, 5, 6, 7, 8, 9, 10, 11, 12, 13, 14, 15];
     let offsets = map (\<lambda>x. x + of_nat tailColumnOffset) offsetsLoop;
     (chars, charOffsets) \<leftarrow> init_avx2_loop tailColumnOffset 0 offsetsLoop chars charOffsets;
     chars \<leftarrow> store tailColumnOffset (replicate 16 0x20) chars;
     charOffsets \<leftarrow> store tailColumnOffset offsets charOffsets;
     Some (chars, charOffsets) }"

definition ROW_create :: "nat \<Rightarrow> TextAttribute \<Rightarrow> ROW" where
  "ROW_create rowWidth fillAttribute = ROW_init
     \<lparr>row_chars = [], row_charOffsets = [], row_attr = rle_fill (of_nat rowWidth) fillAttribute, row_columnCount = rowWidth,
      row_lineRendition = SingleWidth, row_wrapForced = False, row_doubleBytePadded = False, row_promptData = None\<rparr>"

text \<open>\<^verbatim>\<open>unsafe_shrink_to_size(1)\<close> keeps the first run, which is then overwritten; the total length stays.\<close>

definition ROW_Reset :: "TextAttribute \<Rightarrow> ROW \<Rightarrow> ROW" where
  "ROW_Reset attr r = ROW_init (r
     \<lparr>row_attr := (row_attr r)\<lparr>rle_runs := [\<lparr>rle_value = attr, rle_length = of_nat (row_columnCount r)\<rparr>]\<rparr>,
      row_lineRendition := SingleWidth, row_wrapForced := False, row_doubleBytePadded := False, row_promptData := None\<rparr>)"

subsection \<open>Columns\<close>

definition clampedColumn :: "ROW \<Rightarrow> int \<Rightarrow> nat" where
  "clampedColumn r v = nat (clamp v 0 (int (row_columnCount r) - 1) mod 0x10000)"

definition clampedColumnInclusive :: "ROW \<Rightarrow> int \<Rightarrow> nat" where
  "clampedColumnInclusive r v = nat (clamp v 0 (int (row_columnCount r)) mod 0x10000)"

definition charSize :: "ROW \<Rightarrow> nat option" where
  "charSize r = map_option unat (deref (row_charOffsets r) (row_columnCount r))"

definition uncheckedCharOffset :: "ROW \<Rightarrow> nat \<Rightarrow> nat option" where
  "uncheckedCharOffset r col = map_option (\<lambda>off. unat (off AND CharOffsetsMask)) (deref (row_charOffsets r) col)"

definition uncheckedIsTrailer :: "ROW \<Rightarrow> nat \<Rightarrow> bool option" where
  "uncheckedIsTrailer r col = map_option (\<lambda>off. off AND CharOffsetsTrailer \<noteq> 0) (deref (row_charOffsets r) col)"

text \<open>The search for the first column of a glyph; before column 0 it leaves the array.\<close>

fun adjustBackward :: "ROW \<Rightarrow> nat \<Rightarrow> nat option" where
  "adjustBackward r 0 = do { t \<leftarrow> uncheckedIsTrailer r 0; if t then None else Some 0 }"
| "adjustBackward r (Suc column) =
     do { t \<leftarrow> uncheckedIsTrailer r (Suc column); if t then adjustBackward r column else Some (Suc column) }"

function adjustForward :: "ROW \<Rightarrow> nat \<Rightarrow> nat option" where
  "adjustForward r column =
     (if column < length (row_charOffsets r)
      then do { t \<leftarrow> uncheckedIsTrailer r column; if t then adjustForward r (Suc column) else Some column }
      else None)"
  by pat_completeness auto
termination by (relation "measure (\<lambda>(r, column). length (row_charOffsets r) - column)") auto

declare adjustForward.simps [simp del]

definition NavigateToPrevious :: "ROW \<Rightarrow> int \<Rightarrow> nat option" where
  "NavigateToPrevious r column = adjustBackward r (clampedColumn r (column - 1))"

definition NavigateToNext :: "ROW \<Rightarrow> int \<Rightarrow> nat option" where
  "NavigateToNext r column = adjustForward r (clampedColumnInclusive r (column + 1))"

definition AdjustToGlyphStart :: "ROW \<Rightarrow> int \<Rightarrow> nat option" where
  "AdjustToGlyphStart r column = adjustBackward r (clampedColumn r column)"

definition AdjustToGlyphEnd :: "ROW \<Rightarrow> int \<Rightarrow> nat option" where
  "AdjustToGlyphEnd r column = adjustForward r (clampedColumnInclusive r column)"

end
