(* ===== verification/RowRead.thy ===== *)
theory RowRead
  imports Row
begin

text \<open>
  Reading a row: text, glyphs and attributes, and the way back from an offset in the text to a column
  (\<^verbatim>\<open>CharToColumnMapper\<close>).
\<close>

subsection \<open>Text\<close>

definition row_load :: "ROW \<Rightarrow> nat \<Rightarrow> nat \<Rightarrow> wstring option" where
  "row_load r beg e = (if beg \<le> e \<and> e \<le> length (row_chars r) then Some (drop beg (take e (row_chars r))) else None)"

definition GetText :: "ROW \<Rightarrow> wstring option" where
  "GetText r = do {
     width \<leftarrow> uncheckedCharOffset r (nat (GetReadableColumnCount r));
     row_load r 0 width }"

definition GetText_range :: "ROW \<Rightarrow> int \<Rightarrow> int \<Rightarrow> wstring option" where
  "GetText_range r columnBegin columnEnd = do {
     let columns = GetReadableColumnCount r;
     let colBeg = clamp columnBegin 0 columns;
     let colEnd = clamp columnEnd colBeg columns;
     chBeg \<leftarrow> uncheckedCharOffset r (nat colBeg);
     chEnd \<leftarrow> uncheckedCharOffset r (nat colEnd);
     row_load r chBeg chEnd }"

definition GlyphAt :: "ROW \<Rightarrow> int \<Rightarrow> wstring option" where
  "GlyphAt r column = do {
     let col = clampedColumn r column;
     beg \<leftarrow> uncheckedCharOffset r col;
     col \<leftarrow> adjustForward r (Suc col);
     e \<leftarrow> uncheckedCharOffset r col;
     row_load r beg e }"

definition DbcsAttrAt :: "ROW \<Rightarrow> int \<Rightarrow> DbcsAttribute option" where
  "DbcsAttrAt r column = do {
     let col = clampedColumn r column;
     t \<leftarrow> uncheckedIsTrailer r col;
     if t then Some Dbcs_Trailing
     else do { l \<leftarrow> uncheckedIsTrailer r (col + 1); Some (if l then Dbcs_Leading else Dbcs_Single) } }"

definition GetCharOffset :: "ROW \<Rightarrow> int \<Rightarrow> nat option" where
  "GetCharOffset r col = uncheckedCharOffset r (nat (clamp col 0 (GetReadableColumnCount r)))"

definition DelimiterClassAt :: "ROW \<Rightarrow> int \<Rightarrow> wstring \<Rightarrow> DelimiterClass option" where
  "DelimiterClassAt r column wordDelimiters = do {
     off \<leftarrow> uncheckedCharOffset r (clampedColumn r column);
     glyph \<leftarrow> deref (row_chars r) off;
     Some (if glyph \<le> 0x20 then ControlChar
           else if glyph \<in> set wordDelimiters then DelimiterChar
           else RegularChar) }"

definition GetLastNonSpaceColumn :: "ROW \<Rightarrow> int option" where
  "GetLastNonSpaceColumn r = do {
     str \<leftarrow> GetText r;
     Some (GetReadableColumnCount r - int (length (takeWhile (\<lambda>c. c = UNICODE_SPACE) (rev str)))) }"

definition MeasureLeft :: "ROW \<Rightarrow> int option" where
  "MeasureLeft r = do { str \<leftarrow> GetText r; Some (int (length (takeWhile (\<lambda>c. c = UNICODE_SPACE) str))) }"

definition MeasureRight :: "ROW \<Rightarrow> int option" where
  "MeasureRight r =
     (if row_wrapForced r then Some (int (row_columnCount r) - of_bool (row_doubleBytePadded r))
      else GetLastNonSpaceColumn r)"

definition ContainsText :: "ROW \<Rightarrow> bool option" where
  "ContainsText r = do { str \<leftarrow> GetText r; Some (list_ex (\<lambda>c. c \<noteq> UNICODE_SPACE) str) }"

definition GetAttrByColumn :: "ROW \<Rightarrow> int \<Rightarrow> TextAttribute option" where
  "GetAttrByColumn r column = rle_at (row_attr r) (of_nat (clampedColumn r column))"

definition GetHyperlinks :: "ROW \<Rightarrow> u16 list" where
  "GetHyperlinks r = map (\<lambda>run. ta_hyperlinkId (rle_value run)) (filter (\<lambda>run. IsHyperlink (rle_value run)) (rle_runs (row_attr r)))"

subsection \<open>From characters to columns\<close>

record CharToColumnMapper =
  cm_charOffsets :: "u16 list"
  cm_charsLength :: int
  cm_currentColumn :: nat
  cm_columnCount :: nat

function search_forward :: "u16 list \<Rightarrow> int \<Rightarrow> nat \<Rightarrow> nat option" where
  "search_forward offs target col =
     (if col < length offs
      then (if target > uint (offs ! col AND CharOffsetsMask) then search_forward offs target (Suc col) else Some col)
      else None)"
  by pat_completeness auto
termination by (relation "measure (\<lambda>(offs, target, col). length offs - col)") auto

declare search_forward.simps [simp del]

fun search_backward :: "u16 list \<Rightarrow> int \<Rightarrow> nat \<Rightarrow> nat option" where
  "search_backward offs target 0 = (if target < uint (offs ! 0) then None else Some 0)"
| "search_backward offs target (Suc col) =
     (if target < uint (offs ! Suc col) then search_backward offs target col else Some (Suc col))"

definition GetLeadingColumnAt :: "int \<Rightarrow> CharToColumnMapper \<Rightarrow> (nat \<times> CharToColumnMapper) option" where
  "GetLeadingColumnAt targetOffset m = do {
     let targetOffset = clamp targetOffset 0 (cm_charsLength m);
     col \<leftarrow> search_forward (cm_charOffsets m) targetOffset (cm_currentColumn m);
     col \<leftarrow> search_backward (cm_charOffsets m) targetOffset col;
     Some (col, m\<lparr>cm_currentColumn := col\<rparr>) }"

function skip_trailers :: "u16 list \<Rightarrow> nat \<Rightarrow> nat option" where
  "skip_trailers offs col =
     (if col + 1 < length offs
      then (if offs ! (col + 1) AND CharOffsetsTrailer \<noteq> 0 then skip_trailers offs (col + 1) else Some col)
      else None)"
  by pat_completeness auto
termination by (relation "measure (\<lambda>(offs, col). length offs - col)") auto

declare skip_trailers.simps [simp del]

definition GetTrailingColumnAt :: "int \<Rightarrow> CharToColumnMapper \<Rightarrow> (nat \<times> CharToColumnMapper) option" where
  "GetTrailingColumnAt offset m = do {
     (col, m) \<leftarrow> GetLeadingColumnAt offset m;
     col \<leftarrow> (if col < cm_columnCount m then skip_trailers (cm_charOffsets m) col else Some col);
     Some (col, m) }"

definition createCharToColumnMapper :: "ROW \<Rightarrow> int \<Rightarrow> CharToColumnMapper option" where
  "createCharToColumnMapper r offset = do {
     charsSize \<leftarrow> charSize r;
     Some \<lparr>cm_charOffsets = row_charOffsets r, cm_charsLength = int charsSize,
           cm_currentColumn = nat (clamp offset 0 (int (row_columnCount r))), cm_columnCount = row_columnCount r\<rparr> }"

definition GetLeadingColumnAtCharOffset :: "ROW \<Rightarrow> int \<Rightarrow> nat option" where
  "GetLeadingColumnAtCharOffset r offset = do {
     m \<leftarrow> createCharToColumnMapper r offset;
     (col, m) \<leftarrow> GetLeadingColumnAt offset m;
     Some col }"

definition GetTrailingColumnAtCharOffset :: "ROW \<Rightarrow> int \<Rightarrow> nat option" where
  "GetTrailingColumnAtCharOffset r offset = do {
     m \<leftarrow> createCharToColumnMapper r offset;
     (col, m) \<leftarrow> GetTrailingColumnAt offset m;
     Some col }"

end
