(* ===== verification/RowWrite.thy ===== *)
theory RowWrite
  imports Row
begin

text \<open>
  Writing into a row: the structure \<^verbatim>\<open>WriteHelper\<close> and the functions of \<^verbatim>\<open>Row.cpp\<close> built on it. An exception is
  an error on the left; the functions that catch it, reset the row and throw it again return both.
\<close>

subsection \<open>The helper\<close>

record WriteHelper =
  wh_chars :: wstring
  wh_colBeg :: nat
  wh_colLimit :: nat
  wh_colEnd :: nat
  wh_colBegDirty :: nat
  wh_colEndDirty :: nat
  wh_chBeg :: nat
  wh_chBegDirty :: nat
  wh_leadingSpaces :: nat
  wh_charsConsumed :: nat

definition WriteHelper_create :: "ROW \<Rightarrow> int \<Rightarrow> int \<Rightarrow> wstring \<Rightarrow> WriteHelper option" where
  "WriteHelper_create r columnBegin columnLimit chars = do {
     let colBeg = clampedColumnInclusive r columnBegin;
     let colLimit = clampedColumnInclusive r columnLimit;
     chBegDirty \<leftarrow> uncheckedCharOffset r colBeg;
     colBegDirty \<leftarrow> adjustBackward r colBeg;
     let leadingSpaces = colBeg - colBegDirty;
     let chBeg = narrow_u16 (chBegDirty + leadingSpaces);
     Some \<lparr>wh_chars = chars, wh_colBeg = colBeg, wh_colLimit = colLimit, wh_colEnd = colBeg, wh_colBegDirty = colBegDirty,
           wh_colEndDirty = 0, wh_chBeg = chBeg, wh_chBegDirty = chBegDirty, wh_leadingSpaces = leadingSpaces,
           wh_charsConsumed = 0\<rparr> }"

definition IsValid :: "WriteHelper \<Rightarrow> bool" where
  "IsValid h \<longleftrightarrow> wh_colBeg h < wh_colLimit h \<and> wh_chars h \<noteq> []"

definition set_offset :: "nat \<Rightarrow> u16 \<Rightarrow> ROW \<Rightarrow> ROW option" where
  "set_offset col off r = do { offs \<leftarrow> store col [off] (row_charOffsets r); Some (r\<lparr>row_charOffsets := offs\<rparr>) }"

text \<open>One entry with the offset of a glyph, followed by the entries of its other columns; the result is the
  column behind it.\<close>

function put_trailers :: "nat \<Rightarrow> nat \<Rightarrow> u16 \<Rightarrow> ROW \<Rightarrow> (nat \<times> ROW) option" where
  "put_trailers colEnd colEndNew off r =
     (if colEnd < colEndNew
      then do { r \<leftarrow> set_offset colEnd (off OR CharOffsetsTrailer) r; put_trailers (Suc colEnd) colEndNew off r }
      else Some (colEnd, r))"
  by pat_completeness auto
termination by (relation "measure (\<lambda>(colEnd, colEndNew, _). colEndNew - colEnd)") auto

declare put_trailers.simps [simp del]

definition put_glyph :: "nat \<Rightarrow> nat \<Rightarrow> nat \<Rightarrow> ROW \<Rightarrow> (nat \<times> ROW) option" where
  "put_glyph colEnd colEndNew off r = do {
     r \<leftarrow> set_offset colEnd (of_nat off) r;
     put_trailers (Suc colEnd) colEndNew (of_nat off) r }"

definition wh_ReplaceCharacters :: "int \<Rightarrow> WriteHelper \<Rightarrow> ROW \<Rightarrow> (WriteHelper \<times> ROW) option" where
  "wh_ReplaceCharacters width h r =
     (let colEndNew = nat ((int (wh_colEnd h) + width) mod 0x10000)
      in if colEndNew > wh_colLimit h then Some (h\<lparr>wh_colEndDirty := wh_colLimit h\<rparr>, r)
         else do {
           (colEnd, r) \<leftarrow> put_glyph (wh_colEnd h) colEndNew (wh_chBeg h) r;
           Some (h\<lparr>wh_colEnd := colEnd, wh_colEndDirty := colEnd, wh_charsConsumed := length (wh_chars h)\<rparr>, r) })"

subsection \<open>Resizing\<close>

text \<open>The old end of the replaced characters is behind their start and not behind the end of the text, so that
  the difference of the lengths, an unsigned number in the source, is added without going below zero.\<close>

definition resizeChars :: "heap \<Rightarrow> nat \<Rightarrow> nat \<Rightarrow> nat \<Rightarrow> nat \<Rightarrow> ROW \<Rightarrow> (row_error + ROW) option" where
  "resizeChars hp colEndDirty chBegDirty chEndDirty chEndDirtyOld r = do {
     currentLength \<leftarrow> charSize r;
     let newLength = currentLength + chEndDirty - chEndDirtyOld;
     let offs = take colEndDirty (row_charOffsets r) @
       map (\<lambda>off. off + (of_nat chEndDirty - of_nat chEndDirtyOld)) (drop colEndDirty (row_charOffsets r));
     if newLength \<le> length (row_chars r)
     then do {
       rest \<leftarrow> load chEndDirtyOld (currentLength - chEndDirtyOld) (row_chars r);
       chars \<leftarrow> store chEndDirty rest (row_chars r);
       Some (Inr (r\<lparr>row_chars := chars, row_charOffsets := offs\<rparr>)) }
     else do {
       let minCapacity = min UINT16_MAX (length (row_chars r) + length (row_chars r) div 2);
       let newCapacity = max newLength minCapacity;
       if newCapacity > UINT16_MAX then Some (Inl Narrowing_error)
       else if \<not> heap_grants hp newCapacity then Some (Inl Bad_alloc)
       else do {
         first \<leftarrow> load 0 chBegDirty (row_chars r);
         rest \<leftarrow> load chEndDirtyOld (currentLength - chEndDirtyOld) (row_chars r);
         chars \<leftarrow> store 0 first (map (heap_content hp) [0..<newCapacity]);
         chars \<leftarrow> store chEndDirty rest chars;
         Some (Inr (r\<lparr>row_chars := chars, row_charOffsets := offs\<rparr>)) } } }"

definition fill_chars :: "nat \<Rightarrow> nat \<Rightarrow> ROW \<Rightarrow> ROW option" where
  "fill_chars p n r = do {
     chars \<leftarrow> store p (replicate n UNICODE_SPACE) (row_chars r);
     Some (r\<lparr>row_chars := chars\<rparr>) }"

definition fill_offsets :: "nat \<Rightarrow> nat \<Rightarrow> nat \<Rightarrow> ROW \<Rightarrow> ROW option" where
  "fill_offsets col n off r = do {
     offs \<leftarrow> store col (iota_n n (of_nat off)) (row_charOffsets r);
     Some (r\<lparr>row_charOffsets := offs\<rparr>) }"

text \<open>The part of \<^verbatim>\<open>Finish\<close> behind the resizing: the text and the spaces around it.\<close>

definition fill_in :: "WriteHelper \<Rightarrow> nat \<Rightarrow> ROW \<Rightarrow> ROW option" where
  "fill_in h trailingSpaces r = do {
     src \<leftarrow> load 0 (wh_charsConsumed h) (wh_chars h);
     chars \<leftarrow> store (wh_chBeg h) src (row_chars r);
     r \<leftarrow> Some (r\<lparr>row_chars := chars\<rparr>);
     r \<leftarrow> (if wh_leadingSpaces h \<noteq> 0
           then do { r \<leftarrow> fill_chars (wh_chBegDirty h) (wh_leadingSpaces h) r;
                     fill_offsets (wh_colBegDirty h) (wh_leadingSpaces h) (wh_chBegDirty h) r }
           else Some r);
     if trailingSpaces \<noteq> 0
     then do { r \<leftarrow> fill_chars (wh_chBeg h + wh_charsConsumed h) trailingSpaces r;
               fill_offsets (wh_colEnd h) trailingSpaces (wh_chBeg h + wh_charsConsumed h) r }
     else Some r }"

definition Finish :: "heap \<Rightarrow> WriteHelper \<Rightarrow> ROW \<Rightarrow> (row_error + WriteHelper \<times> ROW) option" where
  "Finish hp h r = do {
     colEndDirty \<leftarrow> adjustForward r (wh_colEndDirty h);
     h \<leftarrow> Some (h\<lparr>wh_colEndDirty := colEndDirty\<rparr>);
     let trailingSpaces = nat ((int colEndDirty - int (wh_colEnd h)) mod 0x10000);
     chEndDirtyOld \<leftarrow> uncheckedCharOffset r colEndDirty;
     let chEndDirty = wh_chBegDirty h + wh_charsConsumed h + wh_leadingSpaces h + trailingSpaces;
     resized \<leftarrow> (if chEndDirty \<noteq> chEndDirtyOld then resizeChars hp colEndDirty (wh_chBegDirty h) chEndDirty chEndDirtyOld r
                 else Some (Inr r));
     (case resized of
        Inl e \<Rightarrow> Some (Inl e)
      | Inr r \<Rightarrow> do {
          r \<leftarrow> fill_in h trailingSpaces r;
          Some (Inr (h, if colEndDirty = row_columnCount r then SetDoubleBytePadded (wh_colEnd h < row_columnCount r) r
                        else r)) }) }"

subsection \<open>Replacing characters\<close>

text \<open>The error that is thrown, if any, and the row as it is left behind.\<close>

definition ReplaceCharacters :: "heap \<Rightarrow> int \<Rightarrow> int \<Rightarrow> wstring \<Rightarrow> ROW \<Rightarrow> (row_error option \<times> ROW) option" where
  "ReplaceCharacters hp columnBegin width chars r = do {
     h \<leftarrow> WriteHelper_create r columnBegin (int (row_columnCount r)) chars;
     if \<not> IsValid h then Some (None, r)
     else do {
       (h, r) \<leftarrow> wh_ReplaceCharacters width h r;
       result \<leftarrow> Finish hp h r;
       Some (case result of Inl e \<Rightarrow> (Some e, ROW_Reset TextAttribute_default r) | Inr (h, r) \<Rightarrow> (None, r)) } }"

definition ClearCell :: "heap \<Rightarrow> int \<Rightarrow> ROW \<Rightarrow> (row_error option \<times> ROW) option" where
  "ClearCell hp column r = ReplaceCharacters hp column 1 [UNICODE_SPACE] r"

subsection \<open>Replacing text\<close>

text \<open>The loop over the clusters from the position \<open>it\<close> of the text on, with the offset \<open>ch\<close> they get in the row.\<close>

partial_function (option) text_loop ::
    "nat \<Rightarrow> nat \<Rightarrow> GraphemeState \<Rightarrow> WriteHelper \<Rightarrow> ROW \<Rightarrow> CodepointWidthDetector \<Rightarrow>
     (WriteHelper \<times> ROW \<times> CodepointWidthDetector) option" where
  "text_loop ch it state h r d =
     (let (m, state, d) = GraphemeNext state (wh_chars h) d;
          width = max 1 (gs_width state);
          colEndNew = nat ((int (wh_colEnd h) + width) mod 0x10000)
      in if colEndNew > wh_colLimit h
         then Some (h\<lparr>wh_colEndDirty := wh_colLimit h, wh_charsConsumed := ch - wh_chBeg h\<rparr>, r, d)
         else do {
           (colEnd, r) \<leftarrow> put_glyph (wh_colEnd h) colEndNew ch r;
           h \<leftarrow> Some (h\<lparr>wh_colEnd := colEnd\<rparr>);
           let ch = ch + gs_len state;
           let it = it + gs_len state;
           if it \<noteq> length (wh_chars h) then text_loop ch it state h r d
           else Some (h\<lparr>wh_colEndDirty := wh_colEnd h, wh_charsConsumed := ch - wh_chBeg h\<rparr>, r, d) })"

definition text_rest ::
    "nat \<Rightarrow> nat \<Rightarrow> WriteHelper \<Rightarrow> ROW \<Rightarrow> CodepointWidthDetector \<Rightarrow> (WriteHelper \<times> ROW \<times> CodepointWidthDetector) option" where
  "text_rest ch it h r d =
     (if it \<noteq> length (wh_chars h) then text_loop ch it (GraphemeState_init\<lparr>gs_beg := it\<rparr>) h r d
      else Some (h\<lparr>wh_colEndDirty := wh_colEnd h, wh_charsConsumed := ch - wh_chBeg h\<rparr>, r, d))"

text \<open>The column of the glyph in front of the text; for the first column it is the column itself.\<close>

fun previous_glyph :: "ROW \<Rightarrow> nat \<Rightarrow> nat option" where
  "previous_glyph r 0 = Some 0"
| "previous_glyph r (Suc colPrev) =
     do { t \<leftarrow> uncheckedIsTrailer r colPrev; if t then previous_glyph r colPrev else Some colPrev }"

definition replaceTextUnicode ::
    "nat \<Rightarrow> nat \<Rightarrow> WriteHelper \<Rightarrow> ROW \<Rightarrow> CodepointWidthDetector \<Rightarrow> (WriteHelper \<times> ROW \<times> CodepointWidthDetector) option" where
  "replaceTextUnicode ch it h r d =
     (if it = 0
      then do {
        colPrev \<leftarrow> previous_glyph r (wh_colBeg h);
        chPrev \<leftarrow> uncheckedCharOffset r colPrev;
        charsPrev \<leftarrow> load chPrev (ch - chPrev) (row_chars r);
        let (m, state, d) = GraphemeNext GraphemeState_init charsPrev d;
        let (m, state, d) = GraphemeNext (next_string state) (wh_chars h) d;
        if gs_len state > 0
        then do {
          let h = h\<lparr>wh_colBegDirty := colPrev, wh_colEnd := colPrev\<rparr>;
          let width = max 1 (gs_width state);
          let colEndNew = nat ((int (wh_colEnd h) + width) mod 0x10000);
          if colEndNew > wh_colLimit h
          then Some (h\<lparr>wh_colEndDirty := wh_colLimit h, wh_charsConsumed := ch - wh_chBeg h\<rparr>, r, d)
          else do {
            (colEnd, r) \<leftarrow> put_glyph (wh_colEnd h) colEndNew chPrev r;
            text_rest (ch + gs_len state) (it + gs_len state) (h\<lparr>wh_colEnd := colEnd\<rparr>) r d } }
        else text_rest ch it h r d }
      else text_rest (ch - 1) (it - 1) (h\<lparr>wh_colEnd := wh_colEnd h - 1\<rparr>) r d)"

text \<open>The loop over ASCII characters; \<open>it\<close> is also the number of characters and of columns written so far.\<close>

function ascii_loop ::
    "nat \<Rightarrow> nat \<Rightarrow> nat \<Rightarrow> WriteHelper \<Rightarrow> ROW \<Rightarrow> CodepointWidthDetector \<Rightarrow>
     (WriteHelper \<times> ROW \<times> CodepointWidthDetector) option" where
  "ascii_loop e ch it h r d =
     (if it < e
      then (if wh_chars h ! it \<ge> 0x80 then replaceTextUnicode ch it h r d
            else do {
              r \<leftarrow> set_offset (wh_colEnd h) (of_nat ch) r;
              ascii_loop e (ch + 1) (it + 1) (h\<lparr>wh_colEnd := wh_colEnd h + 1\<rparr>) r d })
      else Some (h\<lparr>wh_colEndDirty := wh_colEnd h, wh_charsConsumed := ch - wh_chBeg h\<rparr>, r, d))"
  by pat_completeness auto
termination by (relation "measure (\<lambda>(e, ch, it, _). e - it)") auto

declare ascii_loop.simps [simp del]

definition wh_ReplaceText ::
    "WriteHelper \<Rightarrow> ROW \<Rightarrow> CodepointWidthDetector \<Rightarrow> (WriteHelper \<times> ROW \<times> CodepointWidthDetector) option" where
  "wh_ReplaceText h r d =
     ascii_loop (min (length (wh_chars h)) (wh_colLimit h - wh_colBeg h)) (wh_chBeg h) 0 h r d"

record RowWriteState =
  ws_text :: wstring
  ws_columnBegin :: int
  ws_columnLimit :: int
  ws_columnEnd :: nat
  ws_columnBeginDirty :: nat
  ws_columnEndDirty :: nat

definition ReplaceText ::
    "heap \<Rightarrow> RowWriteState \<Rightarrow> ROW \<Rightarrow> CodepointWidthDetector \<Rightarrow>
     (row_error option \<times> RowWriteState \<times> ROW \<times> CodepointWidthDetector) option" where
  "ReplaceText hp st r d = do {
     h \<leftarrow> WriteHelper_create r (ws_columnBegin st) (ws_columnLimit st) (ws_text st);
     if \<not> IsValid h
     then Some (None, st\<lparr>ws_columnEnd := wh_colBeg h, ws_columnBeginDirty := wh_colBeg h, ws_columnEndDirty := wh_colBeg h\<rparr>,
                r, d)
     else do {
       (h, r, d) \<leftarrow> wh_ReplaceText h r d;
       result \<leftarrow> Finish hp h r;
       Some (case result of
               Inl e \<Rightarrow> (Some e, st, ROW_Reset TextAttribute_default r, d)
             | Inr (h, r) \<Rightarrow>
                 (let rest = drop (wh_charsConsumed h) (ws_text st)
                  in (None,
                      st\<lparr>ws_text := rest, ws_columnEnd := (if rest = [] then wh_colEnd h else wh_colLimit h),
                         ws_columnBeginDirty := wh_colBegDirty h, ws_columnEndDirty := wh_colEndDirty h\<rparr>,
                      r, d))) } }"

subsection \<open>Copying text\<close>

record RowCopyTextFromState =
  cs_columnBegin :: int
  cs_columnLimit :: int
  cs_sourceColumnBegin :: int
  cs_sourceColumnLimit :: int
  cs_columnEnd :: nat
  cs_columnBeginDirty :: nat
  cs_columnEndDirty :: nat
  cs_sourceColumnEnd :: nat

text \<open>The search for the last offset that starts a glyph.\<close>

fun last_glyph_start :: "u16 list \<Rightarrow> nat \<Rightarrow> nat option" where
  "last_glyph_start offs 0 = do { off \<leftarrow> deref offs 0; if off AND CharOffsetsTrailer \<noteq> 0 then None else Some 0 }"
| "last_glyph_start offs (Suc col) =
     do { off \<leftarrow> deref offs (Suc col);
          if off AND CharOffsetsTrailer \<noteq> 0 then last_glyph_start offs col else Some (Suc col) }"

definition copyOffsets :: "u16 list \<Rightarrow> u16 \<Rightarrow> u16 list" where
  "copyOffsets src offset = map (\<lambda>ch. ((ch AND CharOffsetsMask) + offset) OR (ch AND CharOffsetsTrailer)) src"

definition wh_CopyTextFrom :: "u16 list \<Rightarrow> WriteHelper \<Rightarrow> ROW \<Rightarrow> (WriteHelper \<times> ROW) option" where
  "wh_CopyTextFrom charOffsets h r = do {
     let colEndDirtyInput = min (wh_colLimit h - wh_colBeg h) (length charOffsets - 1);
     colEndInput \<leftarrow> last_glyph_start charOffsets colEndDirtyInput;
     baseOffset \<leftarrow> deref charOffsets 0;
     endOffset \<leftarrow> deref charOffsets colEndInput;
     let inToOutOffset = of_nat (wh_chBeg h) - baseOffset;
     offs \<leftarrow> store (wh_colEnd h) (copyOffsets (take colEndInput charOffsets) inToOutOffset) (row_charOffsets r);
     Some (h\<lparr>wh_colEnd := wh_colEnd h + colEndInput, wh_colEndDirty := narrow_u16 (wh_colBeg h + colEndDirtyInput),
             wh_charsConsumed := unat endOffset - unat baseOffset\<rparr>,
           r\<lparr>row_charOffsets := offs\<rparr>) }"

text \<open>The row and its source are different objects; copying a row onto itself does nothing.\<close>

definition ROW_CopyTextFrom ::
    "heap \<Rightarrow> ROW \<Rightarrow> RowCopyTextFromState \<Rightarrow> ROW \<Rightarrow> (row_error option \<times> RowCopyTextFromState \<times> ROW) option" where
  "ROW_CopyTextFrom hp source st r = do {
     let sourceColBeg = clampedColumnInclusive source (cs_sourceColumnBegin st);
     let sourceColLimit = clampedColumnInclusive source (cs_sourceColumnLimit st);
     (charOffsets, chars) \<leftarrow>
       (if sourceColBeg < sourceColLimit
        then do {
          charOffsets \<leftarrow> load sourceColBeg (sourceColLimit - sourceColBeg + 1) (row_charOffsets source);
          let beg = unat (hd charOffsets AND CharOffsetsMask);
          let e = unat (last charOffsets AND CharOffsetsMask);
          chars \<leftarrow> load beg (e - beg) (row_chars source);
          Some (charOffsets, chars) }
        else Some ([], []));
     h \<leftarrow> WriteHelper_create r (cs_columnBegin st) (cs_columnLimit st) chars;
     if \<not> IsValid h \<or> length charOffsets < 2 \<or> hd charOffsets AND CharOffsetsTrailer \<noteq> 0
     then Some (None,
                st\<lparr>cs_columnEnd := wh_colBeg h, cs_columnBeginDirty := wh_colBeg h, cs_columnEndDirty := wh_colBeg h,
                   cs_sourceColumnEnd := row_columnCount source\<rparr>, r)
     else do {
       (h, r) \<leftarrow> wh_CopyTextFrom charOffsets h r;
       result \<leftarrow> Finish hp h r;
       Some (case result of
               Inl e \<Rightarrow> (Some e, st, ROW_Reset TextAttribute_default r)
             | Inr (h, r) \<Rightarrow>
                 (None,
                  st\<lparr>cs_columnEnd := (if wh_charsConsumed h = length chars then wh_colEnd h else wh_colLimit h),
                     cs_columnBeginDirty := wh_colBegDirty h, cs_columnEndDirty := wh_colEndDirty h,
                     cs_sourceColumnEnd := sourceColBeg + wh_colEnd h - wh_colBeg h\<rparr>, r)) } }"

text \<open>The defaults of the state are the whole of the row.\<close>

definition CopyFrom :: "heap \<Rightarrow> ROW \<Rightarrow> ROW \<Rightarrow> (row_error option \<times> ROW) option" where
  "CopyFrom hp source r = do {
     let r = r\<lparr>row_lineRendition := row_lineRendition source, row_wrapForced := row_wrapForced source\<rparr>;
     let st = \<lparr>cs_columnBegin = 0, cs_columnLimit = 0x7FFFFFFF, cs_sourceColumnBegin = 0,
               cs_sourceColumnLimit = GetReadableColumnCount source, cs_columnEnd = 0, cs_columnBeginDirty = 0,
               cs_columnEndDirty = 0, cs_sourceColumnEnd = 0\<rparr>;
     (e, st, r) \<leftarrow> ROW_CopyTextFrom hp source st r;
     if e \<noteq> None then Some (e, r)
     else do {
       attr \<leftarrow> resize_trailing_extent (of_nat (row_columnCount r)) (row_attr source);
       Some (None, r\<lparr>row_attr := attr\<rparr>) } }"

subsection \<open>Attributes and marks\<close>

text \<open>The fault is the exception of the vector, \<^verbatim>\<open>std::out_of_range\<close>.\<close>

definition SetAttrToEnd :: "int \<Rightarrow> TextAttribute \<Rightarrow> ROW \<Rightarrow> rle_fault + ROW" where
  "SetAttrToEnd columnBegin attr r =
     map_sum id (\<lambda>a. r\<lparr>row_attr := a\<rparr>)
       (rle_replace_value TextAttribute_default (of_nat (clampedColumnInclusive r columnBegin)) (rle_total_length (row_attr r)) attr
          (row_attr r))"

definition ReplaceAttributes :: "int \<Rightarrow> int \<Rightarrow> TextAttribute \<Rightarrow> ROW \<Rightarrow> rle_fault + ROW" where
  "ReplaceAttributes beginIndex endIndex newAttr r =
     map_sum id (\<lambda>a. r\<lparr>row_attr := a\<rparr>)
       (rle_replace_value TextAttribute_default (of_nat (clampedColumnInclusive r beginIndex))
          (of_nat (clampedColumnInclusive r endIndex)) newAttr (row_attr r))"

definition StartPrompt :: "ROW \<Rightarrow> ROW" where
  "StartPrompt r =
     (if row_promptData r = None
      then r\<lparr>row_promptData := Some \<lparr>sb_category = Mark_Prompt, sb_color = None, sb_exitCode = None\<rparr>\<rparr> else r)"

definition EndOutput :: "u32 option \<Rightarrow> ROW \<Rightarrow> ROW" where
  "EndOutput error r =
     (case row_promptData r of
        None \<Rightarrow> r
      | Some p \<Rightarrow>
          r\<lparr>row_promptData := Some
              (case error of
                 None \<Rightarrow> p\<lparr>sb_exitCode := None\<rparr>
               | Some e \<Rightarrow> p\<lparr>sb_exitCode := Some e, sb_category := (if e = 0 then Mark_Success else Mark_Error)\<rparr>)\<rparr>)"

definition SetScrollbarData :: "ScrollbarData option \<Rightarrow> ROW \<Rightarrow> ROW" where
  "SetScrollbarData data r = r\<lparr>row_promptData := data\<rparr>"

end
