(* ===== verification/RowLayout.thy ===== *)
theory RowLayout
  imports RowRead RowWrite CodepointClusters
begin

text \<open>
  What a row stands for: a sequence of glyphs, each of them a text and the one or two columns it takes. The offsets of
  a well-formed row are the layout of its glyphs.
\<close>

subsection \<open>Glyphs\<close>

type_synonym glyph = "wstring \<times> nat"

definition glyph_ok :: "glyph \<Rightarrow> bool" where
  "glyph_ok g \<longleftrightarrow> fst g \<noteq> [] \<and> (snd g = 1 \<or> snd g = 2)"

definition glyphs_text :: "glyph list \<Rightarrow> wstring" where
  "glyphs_text gs = concat (map fst gs)"

definition cols :: "glyph list \<Rightarrow> nat" where
  "cols gs = sum_list (map snd gs)"

definition blanks :: "nat \<Rightarrow> glyph list" where
  "blanks n = replicate n ([UNICODE_SPACE], 1)"

lemma glyphs_simps [simp]:
  "glyphs_text [] = []" "glyphs_text (g # gs) = fst g @ glyphs_text gs" "glyphs_text (gs @ gs') = glyphs_text gs @ glyphs_text gs'"
  "cols [] = 0" "cols (g # gs) = snd g + cols gs" "cols (gs @ gs') = cols gs + cols gs'"
  "glyphs_text (blanks n) = replicate n UNICODE_SPACE" "cols (blanks n) = n" "list_all glyph_ok (blanks n)" "length (blanks n) = n"
  by (simp_all add: glyphs_text_def cols_def blanks_def glyph_ok_def list_all_iff sum_list_replicate)

lemma glyphs_text_empty: "list_all glyph_ok gs \<Longrightarrow> glyphs_text gs = [] \<longleftrightarrow> gs = []"
  by (cases gs) (auto simp: glyph_ok_def)

lemma cols_bounds: "list_all glyph_ok gs \<Longrightarrow> length gs \<le> cols gs \<and> cols gs \<le> 2 * length (glyphs_text gs)"
proof (induction gs)
  case (Cons g gs)
  then have "1 \<le> length (fst g)" by (simp add: glyph_ok_def Suc_leI)
  with Cons show ?case by (auto simp: glyph_ok_def)
qed simp

text \<open>The glyphs that end at or before a column, and those that start at or after one.\<close>

fun upto_col :: "nat \<Rightarrow> glyph list \<Rightarrow> glyph list" where
  "upto_col c [] = []"
| "upto_col c (g # gs) = (if snd g \<le> c then g # upto_col (c - snd g) gs else [])"

fun from_col :: "nat \<Rightarrow> glyph list \<Rightarrow> glyph list" where
  "from_col c [] = []"
| "from_col c (g # gs) = (if c = 0 then g # gs else from_col (c - snd g) gs)"

lemma from_zero [simp]: "from_col 0 gs = gs" by (cases gs) auto

lemma upto_append: "upto_col (cols xs + c) (xs @ ys) = xs @ upto_col c ys"
  by (induction xs) auto

lemma upto_cols: "upto_col (cols xs) (xs @ ys) = xs @ upto_col 0 ys"
  using upto_append [of xs 0 ys] by simp

lemma from_append: "list_all glyph_ok xs \<Longrightarrow> from_col (cols xs + c) (xs @ ys) = from_col c ys"
  by (induction xs) (auto simp: glyph_ok_def)

text \<open>Where a column falls: at the start of a glyph, or inside of a wide one.\<close>

lemma locate:
  "list_all glyph_ok gs \<Longrightarrow> c \<le> cols gs \<Longrightarrow>
   (\<exists>xs ys. gs = xs @ ys \<and> c = cols xs) \<or> (\<exists>xs t ys. gs = xs @ (t, 2) # ys \<and> c = Suc (cols xs))"
proof (induction gs arbitrary: c)
  case (Cons g gs)
  have "snd g = 1 \<or> snd g = 2" using Cons.prems by (simp add: glyph_ok_def)
  then have "c = 0 \<or> (snd g = 2 \<and> c = 1) \<or> snd g \<le> c" by linarith
  then consider "c = 0" | "snd g = 2" "c = 1" | "snd g \<le> c" by blast
  then show ?case
  proof cases
    case 1
    then show ?thesis by (intro disjI1) (rule exI [of _ "[]"], simp)
  next
    case 2
    then show ?thesis by (intro disjI2 exI [of _ "[]"] exI [of _ "fst g"] exI [of _ gs]) (cases g; simp)
  next
    case 3
    with Cons.IH [of "c - snd g"] Cons.prems
    consider xs ys where "gs = xs @ ys" "c - snd g = cols xs"
      | xs t ys where "gs = xs @ (t, 2) # ys" "c - snd g = Suc (cols xs)" by fastforce
    then show ?thesis
    proof cases
      case (1 xs ys)
      then show ?thesis using 3 by (intro disjI1) (rule exI [of _ "g # xs"], rule exI [of _ ys], simp)
    next
      case (2 xs t ys)
      then show ?thesis using 3 by (intro disjI2) (rule exI [of _ "g # xs"], rule exI [of _ t], rule exI [of _ ys], simp)
    qed
  qed
qed simp

lemma upto_from:
  assumes "list_all glyph_ok xs" "list_all glyph_ok ys"
  shows "upto_col (cols xs) (xs @ ys) = xs" "from_col (cols xs) (xs @ ys) = ys"
    "upto_col (Suc (cols xs)) (xs @ (t, 2) # ys) = xs" "from_col (Suc (cols xs)) (xs @ (t, 2) # ys) = ys"
proof -
  have "upto_col 0 ys = []" using assms(2) by (cases ys) (auto simp: glyph_ok_def)
  then show "upto_col (cols xs) (xs @ ys) = xs" by (simp add: upto_cols)
  show "from_col (cols xs) (xs @ ys) = ys" using from_append [OF assms(1), of 0 ys] by simp
  show "upto_col (Suc (cols xs)) (xs @ (t, 2) # ys) = xs" using upto_append [of xs 1 "(t, 2) # ys"] by simp
  show "from_col (Suc (cols xs)) (xs @ (t, 2) # ys) = ys" using from_append [OF assms(1), of 1 "(t, 2) # ys"] by simp
qed

subsection \<open>Layout\<close>

definition glyph_offsets :: "nat \<Rightarrow> nat \<Rightarrow> u16 list" where
  "glyph_offsets off w = of_nat off # replicate (w - 1) (of_nat off OR CharOffsetsTrailer)"

fun layout :: "nat \<Rightarrow> glyph list \<Rightarrow> u16 list" where
  "layout off [] = []"
| "layout off (g # gs) = glyph_offsets off (snd g) @ layout (off + length (fst g)) gs"

text \<open>The offsets of a whole row end with the length of its text.\<close>

definition tail_layout :: "nat \<Rightarrow> glyph list \<Rightarrow> u16 list" where
  "tail_layout off gs = layout off gs @ [of_nat (off + length (glyphs_text gs))]"

definition row_is :: "ROW \<Rightarrow> glyph list \<Rightarrow> bool" where
  "row_is r gs \<longleftrightarrow> list_all glyph_ok gs \<and> row_columnCount r = cols gs \<and> cols gs < 0x8000 \<and>
     row_charOffsets r = tail_layout 0 gs \<and> length (glyphs_text gs) < 0x8000 \<and>
     length (glyphs_text gs) \<le> length (row_chars r) \<and> take (length (glyphs_text gs)) (row_chars r) = glyphs_text gs"

lemma layout_append: "layout off (xs @ ys) = layout off xs @ layout (off + length (glyphs_text xs)) ys"
  by (induction xs arbitrary: off) (auto simp: add.assoc)

lemma tail_layout_append: "tail_layout off (xs @ ys) = layout off xs @ tail_layout (off + length (glyphs_text xs)) ys"
  by (simp add: tail_layout_def layout_append add.assoc)

lemma length_layout: "list_all glyph_ok gs \<Longrightarrow> length (layout off gs) = cols gs"
  by (induction gs arbitrary: off) (auto simp: glyph_offsets_def glyph_ok_def)

lemma length_tail_layout: "list_all glyph_ok gs \<Longrightarrow> length (tail_layout off gs) = Suc (cols gs)"
  by (simp add: tail_layout_def length_layout)

lemma layout_blanks: "layout off (blanks n) = iota_n n (of_nat off)"
proof (induction n arbitrary: off)
  case (Suc n)
  have "iota_n (Suc n) (of_nat off) = of_nat off # iota_n n (of_nat (Suc off))"
    by (simp add: iota_n_def upt_rec [of 0] map_Suc_upt [symmetric] o_def add.assoc del: upt_Suc)
  with Suc [of "Suc off"] show ?case by (simp add: blanks_def glyph_offsets_def)
qed (simp add: blanks_def iota_n_def)

lemma tail_layout_hd: "tail_layout off gs = of_nat off # tl (tail_layout off gs)"
  by (cases gs) (simp_all add: tail_layout_def glyph_offsets_def)

subsection \<open>Offsets as words\<close>

lemma offset_word:
  assumes "n < 0x8000"
  shows "unat (of_nat n :: u16) = n" "(of_nat n :: u16) AND CharOffsetsTrailer = 0" "(of_nat n :: u16) AND CharOffsetsMask = of_nat n"
    "((of_nat n :: u16) OR CharOffsetsTrailer) AND CharOffsetsMask = of_nat n"
    "((of_nat n :: u16) OR CharOffsetsTrailer) AND CharOffsetsTrailer \<noteq> 0"
proof -
  have m: "CharOffsetsMask = Bit_Operations.mask 15" and p: "CharOffsetsTrailer = 2 ^ 15"
    by (simp_all add: CharOffsetsMask_def CharOffsetsTrailer_def mask_eq_exp_minus_1)
  have tb: "bit CharOffsetsTrailer i \<longleftrightarrow> i = 15" for i by (simp only: p bit_exp_iff) auto
  have t: "take_bit 15 (of_nat n :: u16) = of_nat n"
    using assms by (simp add: take_bit_of_nat take_bit_nat_eq_self)
  show "unat (of_nat n :: u16) = n" using assms by (simp add: unat_of_nat take_bit_nat_eq_self)
  have b: "\<not> bit (of_nat n :: u16) 15"
    using t by (metis bit_take_bit_iff less_irrefl)
  show z: "(of_nat n :: u16) AND CharOffsetsTrailer = 0"
    by (rule bit_word_eqI) (use b in \<open>auto simp: bit_and_iff tb\<close>)
  show "(of_nat n :: u16) AND CharOffsetsMask = of_nat n"
    unfolding m using t by (simp add: take_bit_eq_mask)
  have "take_bit 15 CharOffsetsTrailer = 0" by (rule bit_word_eqI) (auto simp: bit_take_bit_iff tb)
  then show "((of_nat n :: u16) OR CharOffsetsTrailer) AND CharOffsetsMask = of_nat n"
    unfolding m using t by (simp flip: take_bit_eq_mask)
  have "bit (((of_nat n :: u16) OR CharOffsetsTrailer) AND CharOffsetsTrailer) 15"
    by (simp add: bit_and_iff bit_or_iff tb)
  then show "((of_nat n :: u16) OR CharOffsetsTrailer) AND CharOffsetsTrailer \<noteq> 0" by force
qed

lemma trailer_nonzero [simp]: "CharOffsetsTrailer \<noteq> 0"
  by (simp add: CharOffsetsTrailer_def)

lemma trailer_word: "n < 0x8000 \<Longrightarrow> (of_nat n :: u16) OR CharOffsetsTrailer = of_nat n + CharOffsetsTrailer"
  using offset_word(2) [of n] by (simp add: disjunctive_add_eq_or)

subsection \<open>Columns of a well-formed row\<close>

lemma row_is_ok: "row_is r gs \<Longrightarrow> list_all glyph_ok gs" by (simp add: row_is_def)

lemma row_is_parts:
  assumes "row_is r (xs @ ys)"
  shows "list_all glyph_ok xs" "list_all glyph_ok ys" "length (glyphs_text xs) < 0x8000"
  using assms by (auto simp: row_is_def)

lemma offsets_at:
  assumes "row_is r (xs @ ys)"
  shows "deref (row_charOffsets r) (cols xs) = Some (of_nat (length (glyphs_text xs)))"
proof -
  have ok: "list_all glyph_ok xs" "list_all glyph_ok ys" using row_is_parts [OF assms] by auto
  have "row_charOffsets r ! cols xs = tail_layout (length (glyphs_text xs)) ys ! 0"
    using assms length_layout [OF ok(1), of 0] by (simp add: row_is_def tail_layout_append nth_append)
  also have "\<dots> = of_nat (length (glyphs_text xs))" by (subst tail_layout_hd) simp
  finally show ?thesis using assms ok by (simp add: deref_def row_is_def length_tail_layout)
qed

lemma offsets_inside:
  assumes "row_is r (xs @ (t, 2) # ys)"
  shows "deref (row_charOffsets r) (Suc (cols xs)) = Some (of_nat (length (glyphs_text xs)) OR CharOffsetsTrailer)"
proof -
  have ok: "list_all glyph_ok xs" "list_all glyph_ok ((t, 2) # ys)" using row_is_parts [OF assms] by auto
  have "row_charOffsets r ! Suc (cols xs) = tail_layout (length (glyphs_text xs)) ((t, 2) # ys) ! 1"
    using assms length_layout [OF ok(1), of 0] by (simp add: row_is_def tail_layout_append nth_append)
  also have "\<dots> = of_nat (length (glyphs_text xs)) OR CharOffsetsTrailer"
    by (simp add: tail_layout_def glyph_offsets_def)
  finally show ?thesis using assms ok by (simp add: deref_def row_is_def length_tail_layout)
qed

lemma column_start:
  assumes "row_is r (xs @ ys)"
  shows "uncheckedCharOffset r (cols xs) = Some (length (glyphs_text xs))" "uncheckedIsTrailer r (cols xs) = Some False"
    "adjustBackward r (cols xs) = Some (cols xs)" "adjustForward r (cols xs) = Some (cols xs)"
proof -
  note o = offsets_at [OF assms] offset_word [OF row_is_parts(3) [OF assms]]
  show 1: "uncheckedCharOffset r (cols xs) = Some (length (glyphs_text xs))" by (simp add: uncheckedCharOffset_def o)
  show 2: "uncheckedIsTrailer r (cols xs) = Some False" by (simp add: uncheckedIsTrailer_def o)
  then show "adjustBackward r (cols xs) = Some (cols xs)" by (cases "cols xs") simp_all
  have "cols xs < length (row_charOffsets r)" using o(1) by (simp add: deref_def split: if_splits)
  with 2 show "adjustForward r (cols xs) = Some (cols xs)" by (simp add: adjustForward.simps)
qed

lemma column_inside:
  assumes "row_is r (xs @ (t, 2) # ys)"
  shows "uncheckedCharOffset r (Suc (cols xs)) = Some (length (glyphs_text xs))"
    "uncheckedIsTrailer r (Suc (cols xs)) = Some True"
    "adjustBackward r (Suc (cols xs)) = Some (cols xs)" "adjustForward r (Suc (cols xs)) = Some (cols xs + 2)"
proof -
  note o = offsets_inside [OF assms] offset_word [OF row_is_parts(3) [OF assms]]
  show "uncheckedCharOffset r (Suc (cols xs)) = Some (length (glyphs_text xs))" by (simp add: uncheckedCharOffset_def o)
  show 2: "uncheckedIsTrailer r (Suc (cols xs)) = Some True" by (simp add: uncheckedIsTrailer_def o)
  with column_start(3) [OF assms] show "adjustBackward r (Suc (cols xs)) = Some (cols xs)" by simp
  have "row_is r ((xs @ [(t, 2)]) @ ys)" using assms by simp
  from column_start(4) [OF this] have "adjustForward r (Suc (Suc (cols xs))) = Some (cols xs + 2)" by simp
  moreover have "Suc (cols xs) < length (row_charOffsets r)" using o(1) by (simp add: deref_def split: if_splits)
  ultimately show "adjustForward r (Suc (cols xs)) = Some (cols xs + 2)" using 2 by (subst adjustForward.simps) simp
qed

text \<open>The same, for any column.\<close>

lemma column_cases:
  assumes "row_is r gs" and "c \<le> cols gs"
  obtains (start) xs ys where "gs = xs @ ys" "c = cols xs" "upto_col c gs = xs" "from_col c gs = ys"
    | (inside) xs t ys where "gs = xs @ (t, 2) # ys" "c = Suc (cols xs)" "upto_col c gs = xs" "from_col c gs = ys"
proof -
  note ok = row_is_ok [OF assms(1)]
  from locate [OF ok assms(2)] show ?thesis
  proof (elim disjE exE conjE)
    fix xs ys
    assume g: "gs = xs @ ys" "c = cols xs"
    then show ?thesis using start [OF g] upto_from(1,2) [of xs ys] ok by simp
  next
    fix xs t ys
    assume g: "gs = xs @ (t, 2) # ys" "c = Suc (cols xs)"
    then show ?thesis using inside [OF g] upto_from(3,4) [of xs ys t] ok by simp
  qed
qed

lemma column_facts:
  assumes "row_is r gs" and "c \<le> cols gs"
  shows "adjustBackward r c = Some (cols (upto_col c gs))" "uncheckedCharOffset r c = Some (length (glyphs_text (upto_col c gs)))"
    "adjustForward r c = Some (cols gs - cols (from_col c gs))" "uncheckedIsTrailer r c = Some (cols (upto_col c gs) < c)"
  using assms(1)
  by (cases rule: column_cases [OF assms]; simp add: column_start column_inside)+

lemma upto_from_split:
  assumes "list_all glyph_ok gs" and "c \<le> cols gs"
  shows "\<exists>mid. gs = upto_col c gs @ mid @ from_col c gs \<and> (mid = [] \<and> c = cols (upto_col c gs) \<or> (\<exists>t. mid = [(t, 2)] \<and> c = Suc (cols (upto_col c gs))))"
  using locate [OF assms] assms(1) by (elim disjE exE conjE) (simp_all add: upto_from)

lemma behind_split:
  assumes "list_all glyph_ok gs" and "c \<le> cols gs"
  obtains pre where "gs = pre @ from_col c gs" "cols pre = cols gs - cols (from_col c gs)" "c \<le> cols pre"
proof -
  from upto_from_split [OF assms] obtain mid where m: "gs = upto_col c gs @ mid @ from_col c gs"
    "mid = [] \<and> c = cols (upto_col c gs) \<or> (\<exists>t. mid = [(t, 2)] \<and> c = Suc (cols (upto_col c gs)))" by blast
  let ?pre = "upto_col c gs @ mid"
  have "gs = ?pre @ from_col c gs" using m(1) by simp
  moreover from this have "cols ?pre = cols gs - cols (from_col c gs)" by (metis add_diff_cancel_right' glyphs_simps(6))
  moreover have "c \<le> cols ?pre" using m(2) by auto
  ultimately show ?thesis using that by metis
qed

end
