(* ===== verification/RowFinish.thy ===== *)
theory RowFinish
  imports RowLayout
begin

text \<open>
  The last step of every write into a row, \<^verbatim>\<open>WriteHelper::Finish\<close>: whatever glyphs the first step laid out, the row
  consists of them, of spaces where a wide glyph was cut, and of the glyphs behind.
\<close>

subsection \<open>Memory\<close>

lemma store_mid: "length v = length m \<Longrightarrow> store (length a) v (a @ m @ c) = Some (a @ v @ c)"
  by (simp add: store_def)

lemma load_mid: "load (length a) (length m) (a @ m @ c) = Some m"
  by (simp add: load_def)

lemma split_at_list: "n \<le> length xs \<Longrightarrow> \<exists>a b. xs = a @ b \<and> length a = n"
  by (metis append_take_drop_id length_take min.absorb2)

lemma split_three:
  "i + n \<le> length xs \<Longrightarrow> \<exists>a m c. xs = a @ m @ c \<and> length a = i \<and> length m = n"
proof -
  assume l: "i + n \<le> length xs"
  then obtain a b where "xs = a @ b" "length a = i" using split_at_list [of i xs] by auto
  moreover from this l obtain m c where "b = m @ c" "length m = n" using split_at_list [of n b] by auto
  ultimately show ?thesis by blast
qed

subsection \<open>Offsets behind the write\<close>

lemma adjustForward_cong:
  "length (row_charOffsets r) = length (row_charOffsets r') \<Longrightarrow> drop c (row_charOffsets r) = drop c (row_charOffsets r') \<Longrightarrow>
   adjustForward r c = adjustForward r' c"
proof (induction r c rule: adjustForward.induct)
  case (1 r c)
  show ?case
  proof (cases "c < length (row_charOffsets r)")
    case True
    then have t: "uncheckedIsTrailer r c = uncheckedIsTrailer r' c"
      using "1.prems" by (metis Cons_nth_drop_Suc deref_def list.inject uncheckedIsTrailer_def)
    have "drop (Suc c) (row_charOffsets r) = drop (Suc c) (row_charOffsets r')"
      using "1.prems"(2) by (metis drop_Suc tl_drop drop_Suc)
    with "1.IH" [OF True] "1.prems" have "adjustForward r (Suc c) = adjustForward r' (Suc c)"
      if "uncheckedIsTrailer r c = Some True" using that by blast
    then show ?thesis using True t "1.prems"(1) by (subst (1 2) adjustForward.simps) (auto split: Option.bind_splits)
  next
    case False
    then show ?thesis using "1.prems"(1) by (subst (1 2) adjustForward.simps) simp
  qed
qed

lemma drop_eq_nth: "drop e xs = drop e ys \<Longrightarrow> length xs = length ys \<Longrightarrow> e \<le> i \<Longrightarrow> i < length ys \<Longrightarrow> xs ! i = ys ! i"
  by (metis le_add_diff_inverse nth_drop order_le_less_trans less_imp_le)

lemma shift_offset: "(of_nat (n + i) :: u16) + (of_nat m - of_nat n) = of_nat (m + i)"
  by simp

lemma shift_layout:
  "n + i + length (glyphs_text gs) < 0x8000 \<Longrightarrow> m + i + length (glyphs_text gs) < 0x8000 \<Longrightarrow>
   map (\<lambda>x. x + (of_nat m - of_nat n)) (layout (n + i) gs) = layout (m + i) gs"
proof (induction gs arbitrary: i)
  case (Cons g gs)
  have "(of_nat (n + i) OR CharOffsetsTrailer) + (of_nat m - of_nat n) = of_nat (m + i) OR CharOffsetsTrailer"
    using Cons.prems trailer_word [of "n + i"] trailer_word [of "m + i"] by simp
  moreover have "map (\<lambda>x. x + (of_nat m - of_nat n)) (layout (n + (i + length (fst g))) gs) = layout (m + (i + length (fst g))) gs"
    using Cons.prems by (intro Cons.IH) simp_all
  ultimately show ?case by (simp add: glyph_offsets_def add.assoc del: of_nat_add) (simp add: algebra_simps)
qed simp

lemma shift_tail_layout:
  assumes "n + length (glyphs_text gs) < 0x8000" "m + length (glyphs_text gs) < 0x8000"
  shows "map (\<lambda>x. x + (of_nat m - of_nat n)) (tail_layout n gs) = tail_layout m gs"
  using shift_layout [of n 0 gs m] assms by (simp add: tail_layout_def)

subsection \<open>Resizing\<close>

text \<open>The characters behind the write move to their new place, and the ones in front of it stay; only the heap
  can refuse.\<close>

lemma resize_ok:
  assumes len: "charSize r = Some (old + length behind)" and chars: "row_chars r = a @ behind @ c" "length a = old"
    and b: "b \<le> old" "b \<le> new" and small: "new + length behind < 0x8000"
  shows "(resizeChars hp d b new old r = Some (Inl Bad_alloc) \<and> (\<exists>n. \<not> heap_grants hp n)) \<or>
    (\<exists>m c'. length m = new - b \<and>
      resizeChars hp d b new old r = Some (Inr (r\<lparr>row_chars := take b a @ m @ behind @ c',
        row_charOffsets := take d (row_charOffsets r) @ map (\<lambda>x. x + (of_nat new - of_nat old)) (drop d (row_charOffsets r))\<rparr>)))"
proof (cases "new + length behind \<le> length (row_chars r)")
  case True
  then obtain x y z where xyz: "row_chars r = x @ y @ z" "length x = new" "length y = length behind" using split_three [of new] by metis
  have "load old (length behind) (row_chars r) = Some behind" using load_mid [of a behind c] chars by simp
  moreover have "store new behind (row_chars r) = Some (x @ behind @ z)" using store_mid [of behind y x z] xyz by simp
  moreover have "x = take b a @ drop b x"
  proof -
    have "take b x = take b (row_chars r)" using xyz b by simp
    also have "\<dots> = take b a" using chars b by simp
    finally show ?thesis using append_take_drop_id [of b x] by simp
  qed
  ultimately have "resizeChars hp d b new old r = Some (Inr (r\<lparr>row_chars := take b a @ drop b x @ behind @ z,
      row_charOffsets := take d (row_charOffsets r) @ map (\<lambda>x. x + (of_nat new - of_nat old)) (drop d (row_charOffsets r))\<rparr>))"
    using len True by (simp add: resizeChars_def Let_def)
  moreover have "length (drop b x) = new - b" using xyz by simp
  ultimately show ?thesis by blast
next
  case False
  let ?cap = "max (new + length behind) (min UINT16_MAX (length (row_chars r) + length (row_chars r) div 2))"
  have cap: "?cap \<le> UINT16_MAX" using small by (simp add: UINT16_MAX_def)
  show ?thesis
  proof (cases "heap_grants hp ?cap")
    case granted: True
    let ?mem = "map (heap_content hp) [0..<?cap]"
    have "b \<le> length ?mem" using b by simp
    from split_at_list [OF this] obtain x y where xy: "?mem = x @ y" "length x = b" by blast
    have ly: "length y = ?cap - b" using arg_cong [OF xy(1), of length] xy(2) by simp
    have "new - b + length behind \<le> length y" using ly b by linarith
    from split_three [OF this] obtain p q s where pqs: "y = p @ q @ s" "length p = new - b" "length q = length behind" by blast
    have ta: "length (take b a) = b" using b chars by simp
    have "load 0 b (row_chars r) = Some (take b a)" using chars b by (simp add: load_def)
    moreover have "load old (length behind) (row_chars r) = Some behind" using load_mid [of a behind c] chars by simp
    moreover have "store 0 (take b a) ?mem = Some (take b a @ y)" using store_mid [of "take b a" x "[]" y] xy ta by simp
    moreover have "store new behind (take b a @ y) = Some (take b a @ p @ behind @ s)"
      using store_mid [of behind q "take b a @ p" s] pqs ta b by simp
    ultimately have "resizeChars hp d b new old r = Some (Inr (r\<lparr>row_chars := take b a @ p @ behind @ s,
        row_charOffsets := take d (row_charOffsets r) @ map (\<lambda>x. x + (of_nat new - of_nat old)) (drop d (row_charOffsets r))\<rparr>))"
      using len False cap granted by (simp add: resizeChars_def Let_def add.commute [of "length behind" new])
    then show ?thesis using pqs(2) by blast
  next
    case refused: False
    then have "resizeChars hp d b new old r = Some (Inl Bad_alloc)"
      using len False cap by (simp add: resizeChars_def Let_def add.commute [of "length behind" new])
    then show ?thesis using refused by blast
  qed
qed

subsection \<open>Filling in\<close>

lemma fill_ok:
  assumes chars: "row_chars r = a @ m @ c" "length a = wh_chBegDirty h"
      "length m = wh_leadingSpaces h + wh_charsConsumed h + k"
    and offs: "row_charOffsets r = front @ t @ behind" "length front = wh_colEnd h" "length t = k"
    and h: "wh_chBeg h = wh_chBegDirty h + wh_leadingSpaces h" "wh_charsConsumed h \<le> length (wh_chars h)"
      "wh_colBegDirty h + wh_leadingSpaces h \<le> wh_colEnd h"
  shows "fill_in h k r = Some (r\<lparr>
     row_chars := a @ replicate (wh_leadingSpaces h) UNICODE_SPACE @ take (wh_charsConsumed h) (wh_chars h) @
       replicate k UNICODE_SPACE @ c,
     row_charOffsets := (take (wh_colBegDirty h) front @ iota_n (wh_leadingSpaces h) (of_nat (wh_chBegDirty h)) @
         drop (wh_colBegDirty h + wh_leadingSpaces h) front) @
       iota_n k (of_nat (wh_chBeg h + wh_charsConsumed h)) @ behind\<rparr>)"
proof -
  obtain m1 m2 m3 where m: "m = m1 @ m2 @ m3" "length m1 = wh_leadingSpaces h" "length m2 = wh_charsConsumed h" "length m3 = k"
    using split_three [of "wh_leadingSpaces h" "wh_charsConsumed h" m] chars(3) by auto
  let ?src = "take (wh_charsConsumed h) (wh_chars h)"
  have src: "load 0 (wh_charsConsumed h) (wh_chars h) = Some ?src" "length ?src = wh_charsConsumed h"
    using h by (simp_all add: load_def)
  have s1: "store (wh_chBeg h) ?src (row_chars r) = Some (a @ m1 @ ?src @ m3 @ c)"
    using store_mid [of ?src m2 "a @ m1" "m3 @ c"] m chars h src by simp
  have s2: "store (wh_chBegDirty h) (replicate (wh_leadingSpaces h) UNICODE_SPACE) (a @ m1 @ ?src @ m3 @ c) =
      Some (a @ replicate (wh_leadingSpaces h) UNICODE_SPACE @ ?src @ m3 @ c)"
    using store_mid [of "replicate (wh_leadingSpaces h) UNICODE_SPACE" m1 a "?src @ m3 @ c"] m chars by simp
  have s3: "store (wh_chBeg h + wh_charsConsumed h) (replicate k UNICODE_SPACE)
      (a @ replicate (wh_leadingSpaces h) UNICODE_SPACE @ ?src @ m3 @ c) =
      Some (a @ replicate (wh_leadingSpaces h) UNICODE_SPACE @ ?src @ replicate k UNICODE_SPACE @ c)"
    using store_mid [of "replicate k UNICODE_SPACE" m3 "a @ replicate (wh_leadingSpaces h) UNICODE_SPACE @ ?src" c] m chars h src by (simp add: add.assoc)
  let ?lead = "iota_n (wh_leadingSpaces h) (of_nat (wh_chBegDirty h)) :: u16 list"
  let ?front = "take (wh_colBegDirty h) front @ ?lead @ drop (wh_colBegDirty h + wh_leadingSpaces h) front"
  have o1: "store (wh_colBegDirty h) ?lead (row_charOffsets r) = Some (?front @ t @ behind)"
    using offs h by (simp add: store_def iota_n_def)
  have lf: "length ?front = wh_colEnd h" using offs h by (simp add: iota_n_def)
  have o2: "store (wh_colEnd h) (iota_n k (of_nat (wh_chBeg h + wh_charsConsumed h))) (?front @ t @ behind) =
      Some (?front @ iota_n k (of_nat (wh_chBeg h + wh_charsConsumed h)) @ behind)"
    using store_mid [of "iota_n k (of_nat (wh_chBeg h + wh_charsConsumed h)) :: u16 list" t ?front behind] lf offs
    by (simp add: iota_n_def)
  have z: "?front = front" if "wh_leadingSpaces h = 0" using that by (simp add: iota_n_def)
  show ?thesis
    using m chars offs s1 s2 s3 o1 o2 src z
    by (cases "wh_leadingSpaces h = 0"; cases "k = 0")
      (simp_all add: fill_in_def fill_chars_def fill_offsets_def iota_n_def)
qed

subsection \<open>Finishing a write\<close>

text \<open>What the first step of a write has to leave behind: the offsets in front of \<^verbatim>\<open>colEnd\<close> are those of the
  glyphs \<open>front\<close>, once the leading spaces are filled in, those from \<^verbatim>\<open>colEndDirty\<close> on are untouched, and the
  text of \<open>front\<close> is made up of what stays, spaces and the new text.\<close>

definition laid_out :: "ROW \<Rightarrow> glyph list \<Rightarrow> WriteHelper \<Rightarrow> u16 list \<Rightarrow> glyph list \<Rightarrow> bool" where
  "laid_out r gs h offs front \<longleftrightarrow>
     row_is r gs \<and> list_all glyph_ok front \<and> cols front = wh_colEnd h \<and> wh_colEnd h \<le> wh_colEndDirty h \<and>
     wh_colEndDirty h \<le> cols gs \<and> length offs = length (row_charOffsets r) \<and>
     drop (wh_colEndDirty h) offs = drop (wh_colEndDirty h) (row_charOffsets r) \<and>
     take (wh_colBegDirty h) offs @ iota_n (wh_leadingSpaces h) (of_nat (wh_chBegDirty h)) @
       drop (wh_colBegDirty h + wh_leadingSpaces h) (take (wh_colEnd h) offs) = layout 0 front \<and>
     wh_colBegDirty h + wh_leadingSpaces h \<le> wh_colEnd h \<and> wh_chBeg h = wh_chBegDirty h + wh_leadingSpaces h \<and>
     wh_charsConsumed h \<le> length (wh_chars h) \<and>
     glyphs_text front = take (wh_chBegDirty h) (row_chars r) @ replicate (wh_leadingSpaces h) UNICODE_SPACE @
       take (wh_charsConsumed h) (wh_chars h) \<and>
     wh_chBegDirty h \<le> length (glyphs_text gs) - length (glyphs_text (from_col (wh_colEndDirty h) gs))"

text \<open>The glyphs of the row after the write.\<close>

definition finished :: "glyph list \<Rightarrow> WriteHelper \<Rightarrow> glyph list \<Rightarrow> glyph list" where
  "finished gs h front =
     front @ blanks (cols gs - cols (from_col (wh_colEndDirty h) gs) - wh_colEnd h) @ from_col (wh_colEndDirty h) gs"

text \<open>The row is cut at the column \<open>cols pre\<close>, the first one behind the write that starts a glyph: from there on offsets
  and characters are those of the glyphs \<open>post\<close>.\<close>

definition cut_at :: "ROW \<Rightarrow> glyph list \<Rightarrow> nat \<Rightarrow> u16 list \<Rightarrow> glyph list \<Rightarrow> glyph list \<Rightarrow> wstring \<Rightarrow> bool" where
  "cut_at r gs dirty offs pre post rest \<longleftrightarrow>
     row_is r gs \<and> gs = pre @ post \<and> post = from_col dirty gs \<and> dirty \<le> cols pre \<and> list_all glyph_ok pre \<and> list_all glyph_ok post \<and>
     length offs = Suc (cols gs) \<and> drop dirty offs = drop dirty (row_charOffsets r) \<and>
     drop (cols pre) offs = tail_layout (length (glyphs_text pre)) post \<and>
     row_chars r = glyphs_text pre @ glyphs_text post @ rest"

lemma cut_atD:
  assumes "cut_at r gs dirty offs pre post rest"
  shows "row_is r gs" "gs = pre @ post" "post = from_col dirty gs" "dirty \<le> cols pre" "list_all glyph_ok pre" "list_all glyph_ok post"
    "length offs = Suc (cols gs)" "drop dirty offs = drop dirty (row_charOffsets r)"
    "drop (cols pre) offs = tail_layout (length (glyphs_text pre)) post" "row_chars r = glyphs_text pre @ glyphs_text post @ rest"
    "cols gs = cols pre + cols post" "cols pre = cols gs - cols post" "cols gs < 0x8000" "row_columnCount r = cols gs"
    "length (glyphs_text gs) = length (glyphs_text pre) + length (glyphs_text post)"
    "length (glyphs_text pre) + length (glyphs_text post) < 0x8000"
proof -
  show r: "row_is r gs" and g: "gs = pre @ post" and "post = from_col dirty gs" "dirty \<le> cols pre" "list_all glyph_ok pre"
    "list_all glyph_ok post" "length offs = Suc (cols gs)" "drop dirty offs = drop dirty (row_charOffsets r)"
    "drop (cols pre) offs = tail_layout (length (glyphs_text pre)) post" "row_chars r = glyphs_text pre @ glyphs_text post @ rest"
    using assms unfolding cut_at_def by blast+
  show "cols gs = cols pre + cols post" "cols pre = cols gs - cols post" "cols gs < 0x8000" "row_columnCount r = cols gs"
    "length (glyphs_text gs) = length (glyphs_text pre) + length (glyphs_text post)"
    "length (glyphs_text pre) + length (glyphs_text post) < 0x8000"
    using r unfolding g by (simp_all add: row_is_def)
qed

lemma laid_out_cut:
  assumes l: "laid_out r gs h offs front"
  obtains pre post rest where "cut_at r gs (wh_colEndDirty h) offs pre post rest"
proof -
  let ?post = "from_col (wh_colEndDirty h) gs"
  have row: "row_is r gs" and dd: "wh_colEndDirty h \<le> cols gs" and lo: "length offs = length (row_charOffsets r)"
    and dr: "drop (wh_colEndDirty h) offs = drop (wh_colEndDirty h) (row_charOffsets r)" using l by (simp_all add: laid_out_def)
  obtain pre where pre: "gs = pre @ ?post" "wh_colEndDirty h \<le> cols pre" using behind_split [OF row_is_ok [OF row] dd] by metis
  have ok: "list_all glyph_ok pre" "list_all glyph_ok ?post" using row_is_parts [of r pre ?post] row pre(1) by auto
  have "row_charOffsets r = layout 0 pre @ tail_layout (length (glyphs_text pre)) ?post"
    using row tail_layout_append [of 0 pre ?post] pre(1) by (simp add: row_is_def)
  moreover have "drop (cols pre) offs = drop (cols pre - wh_colEndDirty h) (drop (wh_colEndDirty h) offs)" using pre(2) by simp
  then have "drop (cols pre) offs = drop (cols pre) (row_charOffsets r)" using dr pre(2) by simp
  ultimately have o: "drop (cols pre) offs = tail_layout (length (glyphs_text pre)) ?post"
    using length_layout [OF ok(1), of 0] by simp
  have "take (length (glyphs_text gs)) (row_chars r) = glyphs_text pre @ glyphs_text ?post"
    using row pre(1) glyphs_simps(3) [of pre ?post] by (simp add: row_is_def)
  then have "row_chars r = (glyphs_text pre @ glyphs_text ?post) @ drop (length (glyphs_text gs)) (row_chars r)"
    by (metis append_take_drop_id)
  then show ?thesis
    using that [of pre ?post] row pre ok o dr lo by (simp add: cut_at_def row_is_def length_tail_layout)
qed

lemma cut_reads:
  assumes c: "cut_at r gs dirty offs pre post rest"
  shows "charSize (r\<lparr>row_charOffsets := offs\<rparr>) = Some (length (glyphs_text pre) + length (glyphs_text post))"
    "uncheckedCharOffset (r\<lparr>row_charOffsets := offs\<rparr>) (cols pre) = Some (length (glyphs_text pre))"
    "adjustForward (r\<lparr>row_charOffsets := offs\<rparr>) dirty = Some (cols pre)"
proof -
  note C = cut_atD [OF c]
  let ?r = "r\<lparr>row_charOffsets := offs\<rparr>" and ?old = "length (glyphs_text pre)"
  have "offs ! cols gs = tail_layout ?old post ! cols post" using C(7,9,11) nth_drop [of "cols pre" offs "cols post"] by simp
  also have "\<dots> = of_nat (?old + length (glyphs_text post))"
    using length_layout [OF C(6), of ?old] by (simp add: tail_layout_def nth_append)
  finally show "charSize ?r = Some (?old + length (glyphs_text post))"
    using C(7,14) offset_word(1) [OF C(16)] by (simp add: charSize_def deref_def del: of_nat_add)
  have "deref offs (cols pre) = Some (of_nat ?old)"
    using C(7,9,11) tail_layout_hd [of ?old post] by (auto simp: deref_def nth_via_drop)
  then show "uncheckedCharOffset ?r (cols pre) = Some ?old" using offset_word [of ?old] C(16) by (simp add: uncheckedCharOffset_def)
  have "adjustForward ?r dirty = adjustForward r dirty"
    using C(1,7,8) by (intro adjustForward_cong) (simp_all add: row_is_def length_tail_layout)
  then show "adjustForward ?r dirty = Some (cols pre)" using column_facts(3) [OF C(1), of dirty] C(3,4,11) by simp
qed

lemma cut_resized:
  assumes c: "cut_at r gs dirty offs pre post rest" and b: "b \<le> length (glyphs_text pre)" "b \<le> new"
    and small: "new + length (glyphs_text post) < 0x8000"
  obtains (refused) "(if new \<noteq> length (glyphs_text pre)
        then resizeChars hp (cols pre) b new (length (glyphs_text pre)) (r\<lparr>row_charOffsets := offs\<rparr>)
        else Some (Inr (r\<lparr>row_charOffsets := offs\<rparr>))) = Some (Inl Bad_alloc)" "\<exists>n. \<not> heap_grants hp n"
    | (resized) m rest' where "length m = new - b" "(if new \<noteq> length (glyphs_text pre)
        then resizeChars hp (cols pre) b new (length (glyphs_text pre)) (r\<lparr>row_charOffsets := offs\<rparr>)
        else Some (Inr (r\<lparr>row_charOffsets := offs\<rparr>))) = Some (Inr (r\<lparr>
          row_chars := take b (glyphs_text pre) @ m @ glyphs_text post @ rest',
          row_charOffsets := take (cols pre) offs @ tail_layout new post\<rparr>))"
proof (cases "new = length (glyphs_text pre)")
  case True
  have "Some (Inr (r\<lparr>row_charOffsets := offs\<rparr>)) = Some (Inr (r\<lparr>
       row_chars := take b (glyphs_text pre) @ drop b (glyphs_text pre) @ glyphs_text post @ rest,
       row_charOffsets := take (cols pre) offs @ tail_layout new post\<rparr>))"
    using True cut_atD(9,10) [OF c] append_take_drop_id [of "cols pre" offs] by (cases r) (simp flip: append_assoc)
  moreover have "length (drop b (glyphs_text pre)) = new - b" using True by simp
  ultimately show ?thesis using True resized [of "drop b (glyphs_text pre)" rest] by simp
next
  case False
  let ?r = "r\<lparr>row_charOffsets := offs\<rparr>"
  have "map (\<lambda>x. x + (of_nat new - of_nat (length (glyphs_text pre)))) (tail_layout (length (glyphs_text pre)) post) = tail_layout new post"
    using cut_atD(16) [OF c] small by (intro shift_tail_layout)
  with resize_ok [of ?r "length (glyphs_text pre)" "glyphs_text post" "glyphs_text pre" rest b new hp "cols pre"]
    cut_reads(1) [OF c] cut_atD(9,10) [OF c] b small False
  show ?thesis using refused resized by auto
qed

lemma cut_filled:
  assumes l: "laid_out r gs h offs front" and c: "cut_at r gs (wh_colEndDirty h) offs pre post rest"
    and k: "k = cols pre - wh_colEnd h"
    and m: "length m = wh_leadingSpaces h + wh_charsConsumed h + k"
    and b: "wh_chBegDirty h \<le> length (glyphs_text pre)"
  shows "fill_in (h\<lparr>wh_colEndDirty := d\<rparr>) k (r\<lparr>row_chars := take (wh_chBegDirty h) (glyphs_text pre) @ m @ glyphs_text post @ rest',
       row_charOffsets := take (cols pre) offs @ tail_layout (length (glyphs_text front) + k) post\<rparr>) =
     Some (r\<lparr>row_chars := glyphs_text (front @ blanks k @ post) @ rest', row_charOffsets := tail_layout 0 (front @ blanks k @ post)\<rparr>)"
    (is "fill_in ?h k ?r1 = _")
proof -
  note C = cut_atD [OF c]
  have kk: "wh_colEnd h + k = cols pre" using l C(4) k by (simp add: laid_out_def)
  have o: "row_charOffsets ?r1 = take (wh_colEnd h) offs @ take k (drop (wh_colEnd h) offs) @ tail_layout (length (glyphs_text front) + k) post"
    using take_add [of "wh_colEnd h" k offs] kk by simp
  have f: "glyphs_text front = take (wh_chBegDirty h) (glyphs_text pre) @ replicate (wh_leadingSpaces h) UNICODE_SPACE @
      take (wh_charsConsumed h) (wh_chars h)" using l C(10) b by (simp add: laid_out_def)
  have lay: "take (wh_colBegDirty h) (take (wh_colEnd h) offs) @ iota_n (wh_leadingSpaces h) (of_nat (wh_chBegDirty h)) @
      drop (wh_colBegDirty h + wh_leadingSpaces h) (take (wh_colEnd h) offs) = layout 0 front" using l by (simp add: laid_out_def min_def)
  have "wh_chBeg h + wh_charsConsumed h = length (glyphs_text front)"
    using arg_cong [OF f, of length] l b by (simp add: laid_out_def)
  moreover have "layout 0 front @ iota_n k (of_nat (length (glyphs_text front))) @ tail_layout (length (glyphs_text front) + k) post =
      tail_layout 0 (front @ blanks k @ post)" by (simp add: tail_layout_append flip: layout_blanks)
  moreover have "length (take (wh_colEnd h) offs) = wh_colEnd ?h" "length (take k (drop (wh_colEnd h) offs)) = k" using C(7,11) kk by simp_all
  moreover have "wh_chBeg ?h = wh_chBegDirty ?h + wh_leadingSpaces ?h" "wh_charsConsumed ?h \<le> length (wh_chars ?h)"
    "wh_colBegDirty ?h + wh_leadingSpaces ?h \<le> wh_colEnd ?h" using l by (simp_all add: laid_out_def)
  ultimately show ?thesis
    using fill_ok [of ?r1 "take (wh_chBegDirty h) (glyphs_text pre)" m "glyphs_text post @ rest'" ?h k, OF _ _ _ o] b m f
    by (simp add: lay add.assoc del: of_nat_add take_take)
qed

lemma finish_ok:
  assumes l: "laid_out r gs h offs front" and small: "length (glyphs_text (finished gs h front)) < 0x8000"
  defines "d \<equiv> cols gs - cols (from_col (wh_colEndDirty h) gs)"
  shows "(Finish hp h (r\<lparr>row_charOffsets := offs\<rparr>) = Some (Inl Bad_alloc) \<and> (\<exists>n. \<not> heap_grants hp n)) \<or>
    (\<exists>chars. Finish hp h (r\<lparr>row_charOffsets := offs\<rparr>) =
       Some (Inr (h\<lparr>wh_colEndDirty := d\<rparr>,
         r\<lparr>row_chars := chars, row_charOffsets := tail_layout 0 (finished gs h front),
           row_doubleBytePadded := (if d = cols gs then wh_colEnd h < cols gs else row_doubleBytePadded r)\<rparr>)) \<and>
       row_is (r\<lparr>row_chars := chars, row_charOffsets := tail_layout 0 (finished gs h front)\<rparr>) (finished gs h front))"
proof -
  obtain pre post rest where c: "cut_at r gs (wh_colEndDirty h) offs pre post rest" using laid_out_cut [OF l] .
  note C = cut_atD [OF c]
  let ?r = "r\<lparr>row_charOffsets := offs\<rparr>" and ?k = "d - wh_colEnd h" and ?old = "length (glyphs_text pre)"
  let ?new = "wh_chBegDirty h + wh_charsConsumed h + wh_leadingSpaces h + ?k" and ?g = "front @ blanks ?k @ post"
  have d: "cols pre = d" using C(3,12) by (simp add: d_def)
  have g: "finished gs h front = ?g" using C(3) by (simp add: finished_def d_def)
  have b: "wh_chBegDirty h \<le> ?old" using l C(3,15) by (simp add: laid_out_def)
  have front: "length (glyphs_text front) = wh_chBegDirty h + wh_leadingSpaces h + wh_charsConsumed h"
    using l C(10) b by (simp add: laid_out_def)
  have e: "wh_colEnd h \<le> d" using l C(4) d by (simp add: laid_out_def)
  then have "nat ((int d - int (wh_colEnd h)) mod 0x10000) = ?k" using C(11,13) d by (simp add: nat_diff_distrib)
  then have F: "Finish hp h ?r = (if ?new \<noteq> ?old then resizeChars hp (cols pre) (wh_chBegDirty h) ?new ?old ?r else Some (Inr ?r)) \<bind>
      (\<lambda>res. case res of Inl e \<Rightarrow> Some (Inl e)
      | Inr r \<Rightarrow> fill_in (h\<lparr>wh_colEndDirty := d\<rparr>) ?k r \<bind> (\<lambda>r. Some (Inr (h\<lparr>wh_colEndDirty := d\<rparr>,
          if d = row_columnCount r then SetDoubleBytePadded (wh_colEnd (h\<lparr>wh_colEndDirty := d\<rparr>) < row_columnCount r) r else r))))"
    using cut_reads(2,3) [OF c] d by (simp add: Finish_def Let_def)
  have "wh_chBegDirty h \<le> ?new" "?new + length (glyphs_text post) < 0x8000" using small front g by simp_all
  with c b show ?thesis
  proof (cases rule: cut_resized [where new = ?new and hp = hp])
    case (resized m rest')
    let ?chars = "glyphs_text ?g @ rest'"
    have "fill_in (h\<lparr>wh_colEndDirty := d\<rparr>) ?k (r\<lparr>row_chars := take (wh_chBegDirty h) (glyphs_text pre) @ m @ glyphs_text post @ rest',
       row_charOffsets := take (cols pre) offs @ tail_layout ?new post\<rparr>) = Some (r\<lparr>row_chars := ?chars, row_charOffsets := tail_layout 0 ?g\<rparr>)"
      using cut_filled [OF l c, of ?k m d rest'] resized(1) b d front by (simp add: ac_simps)
    then have "Finish hp h ?r = Some (Inr (h\<lparr>wh_colEndDirty := d\<rparr>, r\<lparr>row_chars := ?chars, row_charOffsets := tail_layout 0 ?g,
        row_doubleBytePadded := (if d = cols gs then wh_colEnd h < cols gs else row_doubleBytePadded r)\<rparr>))"
      using F resized(2) C(14) by (simp add: SetDoubleBytePadded_def)
    moreover have "list_all glyph_ok front" "cols front = wh_colEnd h" using l by (simp_all add: laid_out_def)
    then have "row_is (r\<lparr>row_chars := ?chars, row_charOffsets := tail_layout 0 ?g\<rparr>) ?g"
      using small C(6,11,13,14) d e g by (simp add: row_is_def)
    ultimately show ?thesis unfolding g by blast
  qed (use F in simp_all)
qed

end
