(* ===== verification/RowReplace.thy ===== *)
theory RowReplace
  imports RowFinish
begin

text \<open>
  The first steps of a write, and the three operations as a whole: replacing characters, replacing text and copying
  text from another row put glyphs into the row and change nothing else.
\<close>

subsection \<open>Starting a write\<close>

lemma clamped_inclusive:
  assumes "row_is r gs"
  shows "clampedColumnInclusive r v = nat (clamp v 0 (int (cols gs)))" "clampedColumnInclusive r v \<le> cols gs"
proof -
  have "0 \<le> clamp v 0 (int (cols gs))" "clamp v 0 (int (cols gs)) \<le> int (cols gs)" by (auto simp: clamp_def)
  then show "clampedColumnInclusive r v = nat (clamp v 0 (int (cols gs)))" "clampedColumnInclusive r v \<le> cols gs"
    using assms by (auto simp: clampedColumnInclusive_def row_is_def)
qed

lemma upto_facts:
  assumes "list_all glyph_ok gs" and "c \<le> cols gs"
  shows "cols (upto_col c gs) \<le> c" "c \<le> Suc (cols (upto_col c gs))" "list_all glyph_ok (upto_col c gs)"
    "list_all glyph_ok (from_col c gs)" "length (glyphs_text (upto_col c gs)) + (c - cols (upto_col c gs)) \<le> length (glyphs_text gs)"
    "length (glyphs_text (upto_col c gs)) \<le> length (glyphs_text gs) - length (glyphs_text (from_col c gs))"
proof -
  from upto_from_split [OF assms] obtain mid where m: "gs = upto_col c gs @ mid @ from_col c gs"
    "mid = [] \<and> c = cols (upto_col c gs) \<or> (\<exists>t. mid = [(t, 2)] \<and> c = Suc (cols (upto_col c gs)))" by blast
  have ok: "list_all glyph_ok (upto_col c gs @ mid @ from_col c gs)" using assms(1) m(1) by simp
  have l: "length (glyphs_text gs) = length (glyphs_text (upto_col c gs)) + length (glyphs_text mid) + length (glyphs_text (from_col c gs))"
    using arg_cong [OF m(1), of "\<lambda>g. length (glyphs_text g)"] by simp
  show "cols (upto_col c gs) \<le> c" "c \<le> Suc (cols (upto_col c gs))" using m(2) by auto
  show "list_all glyph_ok (upto_col c gs)" "list_all glyph_ok (from_col c gs)" using ok by auto
  have "c - cols (upto_col c gs) \<le> length (glyphs_text mid)"
    using m(2)
  proof (elim disjE exE conjE)
    fix t
    assume t: "mid = [(t, 2)]" "c = Suc (cols (upto_col c gs))"
    then have "1 \<le> length t" using ok by (simp add: glyph_ok_def Suc_le_eq)
    then show ?thesis using t by simp
  qed simp
  then show "length (glyphs_text (upto_col c gs)) + (c - cols (upto_col c gs)) \<le> length (glyphs_text gs)" using l by simp
  show "length (glyphs_text (upto_col c gs)) \<le> length (glyphs_text gs) - length (glyphs_text (from_col c gs))" using l by simp
qed

lemma create_ok:
  assumes row: "row_is r gs" and b: "b = clampedColumnInclusive r columnBegin"
  shows "WriteHelper_create r columnBegin columnLimit chars = Some
    \<lparr>wh_chars = chars, wh_colBeg = b, wh_colLimit = clampedColumnInclusive r columnLimit, wh_colEnd = b,
     wh_colBegDirty = cols (upto_col b gs), wh_colEndDirty = 0,
     wh_chBeg = length (glyphs_text (upto_col b gs)) + (b - cols (upto_col b gs)),
     wh_chBegDirty = length (glyphs_text (upto_col b gs)), wh_leadingSpaces = b - cols (upto_col b gs), wh_charsConsumed = 0\<rparr>"
proof -
  have c: "b \<le> cols gs" using clamped_inclusive(2) [OF row] b by simp
  note f = column_facts [OF row c] upto_facts [OF row_is_ok [OF row] c]
  have "length (glyphs_text (upto_col b gs)) + (b - cols (upto_col b gs)) < 0x10000"
    using f(9) row by (simp add: row_is_def)
  then show ?thesis using f(1,2) by (simp add: WriteHelper_create_def Let_def narrow_u16_def flip: b)
qed

subsection \<open>Laying out glyphs\<close>

lemma set_offset_at:
  "row_charOffsets r = a @ x # c \<Longrightarrow> set_offset (length a) v r = Some (r\<lparr>row_charOffsets := a @ v # c\<rparr>)"
  using store_mid [of "[v]" "[x]" a c] by (simp add: set_offset_def)

lemma put_glyph_ok:
  assumes "w = 1 \<or> w = 2" and "c + w \<le> length (row_charOffsets r)"
  shows "put_glyph c (c + w) off r = Some (c + w,
    r\<lparr>row_charOffsets := take c (row_charOffsets r) @ glyph_offsets off w @ drop (c + w) (row_charOffsets r)\<rparr>)"
proof -
  obtain a m b where s: "row_charOffsets r = a @ m @ b" "length a = c" "length m = w" using split_three [OF assms(2)] by blast
  show ?thesis
  proof (cases "w = 1")
    case True
    then obtain x where "m = [x]" using s(3) by (auto simp: length_Suc_conv)
    with s set_offset_at [of r a x b] True show ?thesis
      by (simp add: put_glyph_def put_trailers.simps glyph_offsets_def)
  next
    case False
    then have w: "w = 2" using assms(1) by simp
    then obtain x y where m: "m = [x, y]" using s(3) by (auto simp: length_Suc_conv numeral_2_eq_2)
    let ?r = "r\<lparr>row_charOffsets := a @ of_nat off # y # b\<rparr>"
    have "put_trailers (Suc c) (c + 2) (of_nat off) ?r =
        Some (c + 2, ?r\<lparr>row_charOffsets := a @ of_nat off # (of_nat off OR CharOffsetsTrailer) # b\<rparr>)"
      using set_offset_at [of ?r "a @ [of_nat off]" y b "of_nat off OR CharOffsetsTrailer"] s(2)
      by (subst put_trailers.simps) (simp, subst put_trailers.simps, simp)
    with s m w set_offset_at [of r a x "y # b"] show ?thesis by (simp add: put_glyph_def glyph_offsets_def)
  qed
qed

text \<open>The state of a write while it lays out glyphs: \<open>ch\<close> is where the next one goes. The text that stays in front
  of the new one is that of the row up to \<^verbatim>\<open>chBegDirty\<close>, and the offsets from the column \<open>x\<close> on are untouched.\<close>

definition writing :: "ROW \<Rightarrow> glyph list \<Rightarrow> WriteHelper \<Rightarrow> u16 list \<Rightarrow> nat \<Rightarrow> glyph list \<Rightarrow> nat \<Rightarrow> bool" where
  "writing r gs h offs ch front x \<longleftrightarrow>
     row_is r gs \<and> list_all glyph_ok front \<and> cols front = wh_colEnd h \<and> wh_colEnd h \<le> wh_colLimit h \<and>
     wh_colLimit h \<le> cols gs \<and> length offs = length (row_charOffsets r) \<and>
     drop x offs = drop x (row_charOffsets r) \<and>
     take (wh_colBegDirty h) offs @ iota_n (wh_leadingSpaces h) (of_nat (wh_chBegDirty h)) @
       drop (wh_colBegDirty h + wh_leadingSpaces h) (take (wh_colEnd h) offs) = layout 0 front \<and>
     wh_colBegDirty h + wh_leadingSpaces h \<le> wh_colEnd h \<and> wh_chBeg h = wh_chBegDirty h + wh_leadingSpaces h \<and>
     wh_chBeg h \<le> ch \<and> ch - wh_chBeg h \<le> length (wh_chars h) \<and>
     glyphs_text front = take (wh_chBegDirty h) (row_chars r) @ replicate (wh_leadingSpaces h) UNICODE_SPACE @
       take (ch - wh_chBeg h) (wh_chars h) \<and>
     wh_chBegDirty h \<le> length (row_chars r)"

lemma writingD:
  assumes "writing r gs h offs ch front x"
  shows "row_is r gs" "list_all glyph_ok front" "cols front = wh_colEnd h" "wh_colEnd h \<le> wh_colLimit h"
    "wh_colLimit h \<le> cols gs" "length offs = Suc (cols gs)" "length offs = length (row_charOffsets r)"
    "drop x offs = drop x (row_charOffsets r)"
    "take (wh_colBegDirty h) offs @ iota_n (wh_leadingSpaces h) (of_nat (wh_chBegDirty h)) @
       drop (wh_colBegDirty h + wh_leadingSpaces h) (take (wh_colEnd h) offs) = layout 0 front"
    "wh_colBegDirty h + wh_leadingSpaces h \<le> wh_colEnd h" "wh_chBeg h = wh_chBegDirty h + wh_leadingSpaces h"
    "wh_chBeg h \<le> ch" "ch - wh_chBeg h \<le> length (wh_chars h)"
    "glyphs_text front = take (wh_chBegDirty h) (row_chars r) @ replicate (wh_leadingSpaces h) UNICODE_SPACE @
       take (ch - wh_chBeg h) (wh_chars h)"
    "wh_chBegDirty h \<le> length (row_chars r)"
proof -
  show "length offs = Suc (cols gs)" using assms by (simp add: writing_def row_is_def length_tail_layout)
qed (insert assms, unfold writing_def, (elim conjE, assumption)+)

lemma writing_length: "writing r gs h offs ch front x \<Longrightarrow> length (glyphs_text front) = ch"
  using writingD(11-15) [of r gs h offs ch front x] by simp

lemma writing_glyph:
  assumes wr: "writing r gs h offs ch front x" and w: "w = 1 \<or> w = 2" "wh_colEnd h + w \<le> wh_colLimit h"
    and n: "0 < n" "ch - wh_chBeg h + n \<le> length (wh_chars h)"
  shows "\<exists>offs'. put_glyph (wh_colEnd h) (wh_colEnd h + w) ch (r\<lparr>row_charOffsets := offs\<rparr>) =
      Some (wh_colEnd h + w, r\<lparr>row_charOffsets := offs'\<rparr>) \<and>
    writing r gs (h\<lparr>wh_colEnd := wh_colEnd h + w\<rparr>) offs' (ch + n)
      (front @ [(take n (drop (ch - wh_chBeg h) (wh_chars h)), w)]) (max x (wh_colEnd h + w))"
proof -
  let ?e = "wh_colEnd h" and ?offs = "take (wh_colEnd h) offs @ glyph_offsets ch w @ drop (wh_colEnd h + w) offs"
  note W = writingD [OF wr]
  have e: "?e + w \<le> length offs" using w(2) W(5,6) by simp
  have lw: "length (glyph_offsets ch w) = w" using w(1) by (auto simp: glyph_offsets_def)
  have p: "put_glyph ?e (?e + w) ch (r\<lparr>row_charOffsets := offs\<rparr>) = Some (?e + w, r\<lparr>row_charOffsets := ?offs\<rparr>)"
    using put_glyph_ok [OF w(1), of ?e "r\<lparr>row_charOffsets := offs\<rparr>" ch] e by simp
  have "drop (max x (?e + w)) offs = drop (max x (?e + w)) (row_charOffsets r)"
    using arg_cong [OF W(8), of "drop (max x (?e + w) - x)"] by simp
  then have d: "drop (max x (?e + w)) ?offs = drop (max x (?e + w)) (row_charOffsets r)" "length ?offs = length (row_charOffsets r)"
  proof -
    assume dx: "drop (max x (?e + w)) offs = drop (max x (?e + w)) (row_charOffsets r)"
    obtain z where z: "max x (?e + w) = ?e + w + z" using le_Suc_ex [of "?e + w" "max x (?e + w)"] by auto
    have "drop (?e + w + z) ?offs = drop (?e + w + z) offs" using e lw by (simp add: add.commute)
    then show "drop (max x (?e + w)) ?offs = drop (max x (?e + w)) (row_charOffsets r)" using dx z by simp
    show "length ?offs = length (row_charOffsets r)" using W(7) e lw by simp
  qed
  have "take (wh_colBegDirty h) ?offs = take (wh_colBegDirty h) offs" using W(10) e by simp
  moreover have "drop (wh_colBegDirty h + wh_leadingSpaces h) (take (?e + w) ?offs) =
      drop (wh_colBegDirty h + wh_leadingSpaces h) (take ?e offs) @ glyph_offsets ch w"
    using W(10) e lw by simp
  ultimately have t: "take (wh_colBegDirty h) ?offs @ iota_n (wh_leadingSpaces h) (of_nat (wh_chBegDirty h)) @
       drop (wh_colBegDirty h + wh_leadingSpaces h) (take (?e + w) ?offs) = layout 0 front @ glyph_offsets ch w"
    using W(9) by (simp flip: append_assoc)
  let ?g = "(take n (drop (ch - wh_chBeg h) (wh_chars h)), w)"
  have g: "glyph_ok ?g" using w(1) n by (auto simp: glyph_ok_def)
  have c: "take (ch + n - wh_chBeg h) (wh_chars h) =
      take (ch - wh_chBeg h) (wh_chars h) @ take n (drop (ch - wh_chBeg h) (wh_chars h))"
    using W(12) take_add [of "ch - wh_chBeg h" n "wh_chars h"] by simp
  have "writing r gs (h\<lparr>wh_colEnd := ?e + w\<rparr>) ?offs (ch + n) (front @ [?g]) (max x (?e + w))"
    unfolding writing_def
  proof (intro conjI)
    show "take (wh_colBegDirty (h\<lparr>wh_colEnd := ?e + w\<rparr>)) ?offs @
        iota_n (wh_leadingSpaces (h\<lparr>wh_colEnd := ?e + w\<rparr>)) (of_nat (wh_chBegDirty (h\<lparr>wh_colEnd := ?e + w\<rparr>))) @
        drop (wh_colBegDirty (h\<lparr>wh_colEnd := ?e + w\<rparr>) + wh_leadingSpaces (h\<lparr>wh_colEnd := ?e + w\<rparr>))
          (take (wh_colEnd (h\<lparr>wh_colEnd := ?e + w\<rparr>)) ?offs) = layout 0 (front @ [?g])"
      using t writing_length [OF wr] by (simp add: layout_append)
    show "glyphs_text (front @ [?g]) = take (wh_chBegDirty (h\<lparr>wh_colEnd := ?e + w\<rparr>)) (row_chars r) @
        replicate (wh_leadingSpaces (h\<lparr>wh_colEnd := ?e + w\<rparr>)) UNICODE_SPACE @
        take (ch + n - wh_chBeg (h\<lparr>wh_colEnd := ?e + w\<rparr>)) (wh_chars (h\<lparr>wh_colEnd := ?e + w\<rparr>))"
      using c W(14) by simp
  qed (use W(1-5,10-13,15) d g n w(2) in simp_all)
  then show ?thesis using p by blast
qed

text \<open>A write that ends here, with the columns up to \<open>dirty\<close> cleared.\<close>

lemma writing_laid_out:
  assumes wr: "writing r gs h offs ch front x" and d: "wh_colEnd h \<le> dirty" "x \<le> dirty" "dirty \<le> cols gs"
    and b: "wh_chBegDirty h \<le> length (glyphs_text gs) - length (glyphs_text (from_col dirty gs))"
  shows "laid_out r gs (h\<lparr>wh_colEndDirty := dirty, wh_charsConsumed := ch - wh_chBeg h\<rparr>) offs front"
proof -
  have "drop dirty offs = drop dirty (row_charOffsets r)" using arg_cong [OF writingD(8) [OF wr], of "drop (dirty - x)"] d(2) by simp
  then show ?thesis unfolding laid_out_def using writingD(1-3,7,9-15) [OF wr] d b by simp
qed

lemma layout_upto:
  assumes "row_is r gs" and "c \<le> cols gs"
  shows "take (cols (upto_col c gs)) (row_charOffsets r) = layout 0 (upto_col c gs)"
    "take (length (glyphs_text (upto_col c gs))) (row_chars r) = glyphs_text (upto_col c gs)"
    "length (glyphs_text (upto_col c gs)) \<le> length (row_chars r)"
proof -
  obtain rest where g: "gs = upto_col c gs @ rest" using upto_from_split [OF row_is_ok [OF assms(1)] assms(2)] by blast
  have ok: "list_all glyph_ok (upto_col c gs)" using upto_facts(3) [OF row_is_ok [OF assms(1)] assms(2)] .
  have "row_charOffsets r = layout 0 (upto_col c gs) @ tail_layout (length (glyphs_text (upto_col c gs))) rest"
    using assms(1) tail_layout_append [of 0 "upto_col c gs" rest] g by (simp add: row_is_def)
  then show "take (cols (upto_col c gs)) (row_charOffsets r) = layout 0 (upto_col c gs)" using length_layout [OF ok, of 0] by simp
  have t: "take (length (glyphs_text gs)) (row_chars r) = glyphs_text (upto_col c gs) @ glyphs_text rest"
    "length (glyphs_text gs) \<le> length (row_chars r)"
    using assms(1) arg_cong [OF g, of glyphs_text] by (simp_all add: row_is_def)
  have l: "length (glyphs_text (upto_col c gs)) \<le> length (glyphs_text gs)" using arg_cong [OF g, of "\<lambda>g. length (glyphs_text g)"] by simp
  then show "length (glyphs_text (upto_col c gs)) \<le> length (row_chars r)" using t(2) by simp
  show "take (length (glyphs_text (upto_col c gs))) (row_chars r) = glyphs_text (upto_col c gs)"
    using arg_cong [OF t(1), of "take (length (glyphs_text (upto_col c gs)))"] l by (simp add: min_def)
qed

lemma writing_start:
  assumes row: "row_is r gs" and b: "wh_colBeg h \<le> wh_colLimit h" "wh_colLimit h \<le> cols gs"
    and h: "wh_colEnd h = wh_colBeg h" "wh_colBegDirty h = cols (upto_col (wh_colBeg h) gs)"
      "wh_chBegDirty h = length (glyphs_text (upto_col (wh_colBeg h) gs))"
      "wh_leadingSpaces h = wh_colBeg h - cols (upto_col (wh_colBeg h) gs)" "wh_chBeg h = wh_chBegDirty h + wh_leadingSpaces h"
  shows "writing r gs h (row_charOffsets r) (wh_chBeg h) (upto_col (wh_colBeg h) gs @ blanks (wh_leadingSpaces h)) (wh_colBeg h)"
proof -
  have c: "wh_colBeg h \<le> cols gs" using b by simp
  note f = upto_facts [OF row_is_ok [OF row] c] and l = layout_upto [OF row c]
  show ?thesis
    unfolding writing_def
  proof (intro conjI)
    have "drop (wh_colBegDirty h + wh_leadingSpaces h) (take (wh_colEnd h) (row_charOffsets r)) = []" using h f(1) by simp
    then show "take (wh_colBegDirty h) (row_charOffsets r) @ iota_n (wh_leadingSpaces h) (of_nat (wh_chBegDirty h)) @
        drop (wh_colBegDirty h + wh_leadingSpaces h) (take (wh_colEnd h) (row_charOffsets r)) =
        layout 0 (upto_col (wh_colBeg h) gs @ blanks (wh_leadingSpaces h))"
      using l(1) h(2,3) by (simp add: layout_append layout_blanks)
  qed (use row b h f l in simp_all)
qed

subsection \<open>Replacing characters\<close>

text \<open>Glyphs put into a row at the column \<open>b\<close>, everything up to the column \<open>e\<close> being replaced: spaces take the place
  of the halves of wide glyphs that are cut.\<close>

definition splice :: "nat \<Rightarrow> glyph list \<Rightarrow> nat \<Rightarrow> glyph list \<Rightarrow> glyph list" where
  "splice b new e gs = upto_col b gs @ blanks (b - cols (upto_col b gs)) @ new @
     blanks (cols gs - cols (from_col e gs) - (b + cols new)) @ from_col e gs"

text \<open>What a write that cannot be finished leaves behind.\<close>

lemma init_is_blank:
  assumes "row_columnCount r < 0x8000"
  shows "row_is (ROW_init r) (blanks (row_columnCount r))"
  using assms layout_blanks [of 0 "row_columnCount r"]
  by (simp add: row_is_def ROW_init_def tail_layout_def iota_n_def)

lemma reset_is_blank: "row_is r gs \<Longrightarrow> row_is (ROW_Reset a (r\<lparr>row_charOffsets := offs\<rparr>)) (blanks (cols gs))"
  using init_is_blank [of "r\<lparr>row_charOffsets := offs, row_attr := (row_attr r)\<lparr>rle_runs := [\<lparr>rle_value = a, rle_length = of_nat (row_columnCount r)\<rparr>]\<rparr>,
      row_lineRendition := SingleWidth, row_wrapForced := False, row_doubleBytePadded := False, row_promptData := None\<rparr>"]
  by (simp add: ROW_Reset_def row_is_def)

lemma from_mono: "c \<le> c' \<Longrightarrow> \<exists>xs. from_col c gs = xs @ from_col c' gs"
proof (induction gs arbitrary: c c')
  case (Cons g gs)
  show ?case
  proof (cases "c = 0")
    case True
    show ?thesis
    proof (cases "c' = 0")
      case False
      obtain xs where "from_col 0 gs = xs @ from_col (c' - snd g) gs" using Cons.IH [of 0 "c' - snd g"] by auto
      then have "from_col c (g # gs) = (g # xs) @ from_col c' (g # gs)" using True False by simp
      then show ?thesis by blast
    qed (use True in simp)
  next
    case False
    then show ?thesis using Cons.IH [of "c - snd g" "c' - snd g"] Cons.prems by simp
  qed
qed simp

lemma behind_mono:
  assumes "list_all glyph_ok gs" "c \<le> cols gs" "c \<le> c'"
  shows "length (glyphs_text (upto_col c gs)) \<le> length (glyphs_text gs) - length (glyphs_text (from_col c' gs))"
proof -
  obtain xs where "from_col c gs = xs @ from_col c' gs" using from_mono [OF assms(3)] by blast
  then have "length (glyphs_text (from_col c' gs)) \<le> length (glyphs_text (from_col c gs))" by simp
  then show ?thesis using upto_facts(6) [OF assms(1,2)] by simp
qed

text \<open>A write that ends in one of the two ways: the heap refuses and the row is blank, or the row consists of the
  glyphs it should; attributes, line rendition and marks stay as they are. The number of columns never changes.\<close>

definition row_written :: "heap \<Rightarrow> ROW \<Rightarrow> glyph list \<Rightarrow> glyph list \<Rightarrow> row_error option \<Rightarrow> ROW \<Rightarrow> bool" where
  "row_written hp r gs new e r' \<longleftrightarrow> row_columnCount r' = row_columnCount r \<and>
     (case e of
        Some err \<Rightarrow> err = Bad_alloc \<and> (\<exists>n. \<not> heap_grants hp n) \<and> row_is r' (blanks (cols gs))
      | None \<Rightarrow> row_is r' new \<and> row_attr r' = row_attr r \<and> row_lineRendition r' = row_lineRendition r \<and>
          row_wrapForced r' = row_wrapForced r \<and> row_promptData r' = row_promptData r)"

text \<open>A write that is ready to be finished, and leads to the glyphs \<open>new\<close>.\<close>

definition ready :: "ROW \<Rightarrow> glyph list \<Rightarrow> WriteHelper \<Rightarrow> u16 list \<Rightarrow> glyph list \<Rightarrow> bool" where
  "ready r gs h offs new \<longleftrightarrow> (\<exists>front. laid_out r gs h offs front \<and> new = finished gs h front)"

lemma ready_writing:
  assumes "writing r gs h offs ch front x" "wh_colEnd h \<le> dirty" "x \<le> dirty" "dirty \<le> cols gs"
    and "wh_chBegDirty h \<le> length (glyphs_text gs) - length (glyphs_text (from_col dirty gs))"
  shows "ready r gs (h\<lparr>wh_colEndDirty := dirty, wh_charsConsumed := ch - wh_chBeg h\<rparr>) offs
    (front @ blanks (cols gs - cols (from_col dirty gs) - wh_colEnd h) @ from_col dirty gs)"
  using writing_laid_out [OF assms] unfolding ready_def
  by (intro exI [of _ front]) (simp add: finished_def)

lemma finish_ready:
  assumes "ready r gs h offs new" and small: "length (glyphs_text new) < 0x8000"
  obtains (refused) "Finish hp h (r\<lparr>row_charOffsets := offs\<rparr>) = Some (Inl Bad_alloc)"
      "row_written hp r gs new (Some Bad_alloc) (ROW_Reset a (r\<lparr>row_charOffsets := offs\<rparr>))"
    | (completed) r' where "Finish hp h (r\<lparr>row_charOffsets := offs\<rparr>) =
        Some (Inr (h\<lparr>wh_colEndDirty := cols gs - cols (from_col (wh_colEndDirty h) gs)\<rparr>, r'))" "row_written hp r gs new None r'"
proof -
  from assms(1) obtain front where f: "laid_out r gs h offs front" "new = finished gs h front" by (auto simp: ready_def)
  have row: "row_is r gs" using f(1) by (simp add: laid_out_def)
  from finish_ok [OF f(1), of hp] small f(2) consider
    "Finish hp h (r\<lparr>row_charOffsets := offs\<rparr>) = Some (Inl Bad_alloc)" "\<exists>n. \<not> heap_grants hp n"
    | chars where "Finish hp h (r\<lparr>row_charOffsets := offs\<rparr>) =
       Some (Inr (h\<lparr>wh_colEndDirty := cols gs - cols (from_col (wh_colEndDirty h) gs)\<rparr>,
         r\<lparr>row_chars := chars, row_charOffsets := tail_layout 0 new,
           row_doubleBytePadded := (if cols gs - cols (from_col (wh_colEndDirty h) gs) = cols gs then wh_colEnd h < cols gs
             else row_doubleBytePadded r)\<rparr>))"
       "row_is (r\<lparr>row_chars := chars, row_charOffsets := tail_layout 0 new\<rparr>) new"
    by auto
  then show ?thesis
  proof cases
    case 1
    have "row_columnCount (ROW_Reset a (r\<lparr>row_charOffsets := offs\<rparr>)) = row_columnCount r"
      using reset_is_blank [OF row, of a offs] row by (simp add: row_is_def)
    with 1 show ?thesis using refused reset_is_blank [OF row] by (simp add: row_written_def)
  next
    case 2
    show ?thesis by (rule completed [OF 2(1)]) (use 2(2) in \<open>simp add: row_written_def row_is_def\<close>)
  qed
qed

lemma start_write:
  assumes row: "row_is r gs"
  obtains h where "WriteHelper_create r columnBegin columnLimit chars = Some h" "wh_chars h = chars"
    "wh_colBeg h = clampedColumnInclusive r columnBegin" "wh_colLimit h = clampedColumnInclusive r columnLimit"
    "wh_colEnd h = wh_colBeg h" "wh_colBegDirty h = cols (upto_col (wh_colBeg h) gs)"
    "wh_chBegDirty h = length (glyphs_text (upto_col (wh_colBeg h) gs))"
    "wh_leadingSpaces h = wh_colBeg h - cols (upto_col (wh_colBeg h) gs)" "wh_charsConsumed h = 0"
    "wh_colBeg h \<le> wh_colLimit h \<Longrightarrow>
      writing r gs h (row_charOffsets r) (wh_chBeg h) (upto_col (wh_colBeg h) gs @ blanks (wh_leadingSpaces h)) (wh_colBeg h)"
proof -
  define b where "b = clampedColumnInclusive r columnBegin"
  define h where "h = \<lparr>wh_chars = chars, wh_colBeg = b, wh_colLimit = clampedColumnInclusive r columnLimit, wh_colEnd = b,
     wh_colBegDirty = cols (upto_col b gs), wh_colEndDirty = 0,
     wh_chBeg = length (glyphs_text (upto_col b gs)) + (b - cols (upto_col b gs)),
     wh_chBegDirty = length (glyphs_text (upto_col b gs)), wh_leadingSpaces = b - cols (upto_col b gs), wh_charsConsumed = 0\<rparr>"
  have "writing r gs h (row_charOffsets r) (wh_chBeg h) (upto_col (wh_colBeg h) gs @ blanks (wh_leadingSpaces h)) (wh_colBeg h)"
    if "wh_colBeg h \<le> wh_colLimit h"
    using that by (rule writing_start [OF row]) (simp_all add: h_def clamped_inclusive(2) [OF row])
  then show ?thesis
    using that [of h] create_ok [OF row b_def, of columnLimit chars] by (simp add: h_def b_def)
qed

lemma characters_ready:
  assumes row: "row_is r gs" and wr: "writing r gs h (row_charOffsets r) (wh_chBeg h) (upto_col (wh_colBeg h) gs @ blanks (wh_leadingSpaces h)) (wh_colBeg h)"
    and h: "wh_colEnd h = wh_colBeg h" "wh_colLimit h = cols gs" "wh_colBeg h = nat column"
      "wh_chBegDirty h = length (glyphs_text (upto_col (wh_colBeg h) gs))"
      "wh_leadingSpaces h = wh_colBeg h - cols (upto_col (wh_colBeg h) gs)" "wh_chars h \<noteq> []" "wh_charsConsumed h = 0"
    and col: "0 \<le> column" "column < int (cols gs)" and w: "width = 1 \<or> width = 2"
  shows "\<exists>h' offs. wh_ReplaceCharacters width h r = Some (h', r\<lparr>row_charOffsets := offs\<rparr>) \<and>
    ready r gs h' offs (splice (nat column) (if column + width \<le> int (cols gs) then [(wh_chars h, nat width)] else [])
      (min (nat (column + width)) (cols gs)) gs)"
proof -
  let ?front = "upto_col (wh_colBeg h) gs @ blanks (wh_leadingSpaces h)"
  have N: "cols gs < 0x8000" using row by (simp add: row_is_def)
  have b: "wh_colBeg h \<le> cols gs" using h(3) col by simp
  note behind = behind_mono [OF row_is_ok [OF row] b]
  show ?thesis
  proof (cases "column + width \<le> int (cols gs)")
    case True
    have fits: "wh_colEnd h + nat width \<le> wh_colLimit h" "nat width = 1 \<or> nat width = 2"
      "wh_colEnd h + nat width = nat (column + width)" using True h col(1) w by auto
    let ?h1 = "h\<lparr>wh_colEnd := wh_colEnd h + nat width\<rparr>"
    obtain offs where p: "put_glyph (wh_colEnd h) (wh_colEnd h + nat width) (wh_chBeg h) r =
        Some (wh_colEnd h + nat width, r\<lparr>row_charOffsets := offs\<rparr>)"
      and wr: "writing r gs ?h1 offs (wh_chBeg h + length (wh_chars h)) (?front @ [(wh_chars h, nat width)])
        (max (wh_colBeg h) (wh_colEnd h + nat width))"
      using writing_glyph [OF wr fits(2,1), of "length (wh_chars h)"] h(6) by auto
    have "nat ((int (wh_colEnd h) + width) mod 0x10000) = wh_colEnd h + nat width" using fits(1) N h(2) w by auto
    then have "wh_ReplaceCharacters width h r = Some (?h1\<lparr>wh_colEndDirty := wh_colEnd ?h1,
        wh_charsConsumed := wh_chBeg h + length (wh_chars h) - wh_chBeg ?h1\<rparr>, r\<lparr>row_charOffsets := offs\<rparr>)"
      using p fits(1) by (simp add: wh_ReplaceCharacters_def Let_def)
    moreover have "ready r gs (?h1\<lparr>wh_colEndDirty := wh_colEnd ?h1, wh_charsConsumed := wh_chBeg h + length (wh_chars h) - wh_chBeg ?h1\<rparr>)
        offs ((?front @ [(wh_chars h, nat width)]) @ blanks (cols gs - cols (from_col (wh_colEnd ?h1) gs) - wh_colEnd ?h1) @
          from_col (wh_colEnd ?h1) gs)"
      by (rule ready_writing [OF wr]) (use fits h behind in simp_all)
    ultimately show ?thesis using fits True h col w by (auto simp: splice_def)
  next
    case False
    have "h\<lparr>wh_colEndDirty := cols gs, wh_charsConsumed := 0\<rparr> = h\<lparr>wh_colEndDirty := cols gs\<rparr>" using h(7) by (cases h) simp
    then have "wh_ReplaceCharacters width h r = Some (h\<lparr>wh_colEndDirty := cols gs, wh_charsConsumed := wh_chBeg h - wh_chBeg h\<rparr>,
        r\<lparr>row_charOffsets := row_charOffsets r\<rparr>)"
      using False N h col w by (auto simp: wh_ReplaceCharacters_def Let_def)
    moreover have "ready r gs (h\<lparr>wh_colEndDirty := cols gs, wh_charsConsumed := wh_chBeg h - wh_chBeg h\<rparr>) (row_charOffsets r)
        (?front @ blanks (cols gs - cols (from_col (cols gs) gs) - wh_colEnd h) @ from_col (cols gs) gs)"
      by (rule ready_writing [OF wr]) (use h b behind in simp_all)
    ultimately show ?thesis using False h col w
      by (intro exI [of _ "h\<lparr>wh_colEndDirty := cols gs, wh_charsConsumed := wh_chBeg h - wh_chBeg h\<rparr>"])
        (rule exI [of _ "row_charOffsets r"], auto simp: splice_def)
  qed
qed

lemma characters_replaced:
  assumes row: "row_is r gs" and col: "0 \<le> column" "column < int (cols gs)" and w: "width = 1 \<or> width = 2" and "chars \<noteq> []"
    and new: "new = splice (nat column) (if column + width \<le> int (cols gs) then [(chars, nat width)] else [])
      (min (nat (column + width)) (cols gs)) gs"
    and small: "length (glyphs_text new) < 0x8000"
  shows "\<exists>e r'. ReplaceCharacters hp column width chars r = Some (e, r') \<and> row_written hp r gs new e r'"
proof -
  have b: "clampedColumnInclusive r column = nat column" "clampedColumnInclusive r (int (row_columnCount r)) = cols gs"
    using col clamped_inclusive(1) [OF row] row by (auto simp: clamp_def row_is_def)
  obtain h where h: "WriteHelper_create r column (int (row_columnCount r)) chars = Some h" "wh_chars h = chars"
    "wh_colBeg h = nat column" "wh_colLimit h = cols gs"
    "wh_colEnd h = wh_colBeg h" "wh_colBegDirty h = cols (upto_col (wh_colBeg h) gs)"
    "wh_chBegDirty h = length (glyphs_text (upto_col (wh_colBeg h) gs))"
    "wh_leadingSpaces h = wh_colBeg h - cols (upto_col (wh_colBeg h) gs)" "wh_charsConsumed h = 0"
    "wh_colBeg h \<le> wh_colLimit h \<Longrightarrow>
      writing r gs h (row_charOffsets r) (wh_chBeg h) (upto_col (wh_colBeg h) gs @ blanks (wh_leadingSpaces h)) (wh_colBeg h)"
    using start_write [OF row, of column "int (row_columnCount r)" chars] b by metis
  have le: "wh_colBeg h \<le> wh_colLimit h" "IsValid h" using h(2,3,4) col \<open>chars \<noteq> []\<close> by (simp_all add: IsValid_def)
  obtain h' offs where s: "wh_ReplaceCharacters width h r = Some (h', r\<lparr>row_charOffsets := offs\<rparr>)" "ready r gs h' offs new"
    using characters_ready [OF row h(10) [OF le(1)] h(5,4,3,7,8) _ h(9) col w] h(2) \<open>chars \<noteq> []\<close> new by auto
  from s(2) small show ?thesis
  proof (cases rule: finish_ready [where hp = hp and a = TextAttribute_default])
    case refused
    then show ?thesis using h(1) le s(1) by (simp add: ReplaceCharacters_def)
  next
    case (completed r')
    then show ?thesis using h(1) le s(1) by (simp add: ReplaceCharacters_def)
  qed
qed

end
