(* ===== verification/RowText.thy ===== *)
theory RowText
  imports RowReplace
begin

text \<open>
  Writing text into a row. What should end up there is defined first, on lists of glyphs: the clusters of the text
  become glyphs, as many as fit, and the text may join with the glyph in front of it. The loops over the text
  place exactly these glyphs, and nothing outside of the columns that are reported as dirty changes.
\<close>

subsection \<open>The glyphs of a text\<close>

definition singles :: "wstring \<Rightarrow> glyph list" where
  "singles str = map (\<lambda>c. ([c], 1)) str"

lemma singles_simps [simp]:
  "singles [] = []" "singles (xs @ ys) = singles xs @ singles ys" "singles [c] = [([c], 1)]" "glyphs_text (singles str) = str"
  "cols (singles str) = length str"
  by (simp_all add: singles_def glyphs_text_def cols_def o_def sum_list_triv)

text \<open>The clusters from the state \<open>s\<close> on, a cluster taking at least one column, and those of a text from a position on.\<close>

definition cluster_glyphs :: "nat \<Rightarrow> GraphemeState \<Rightarrow> wstring \<Rightarrow> CodepointWidthDetector \<Rightarrow> glyph list" where
  "cluster_glyphs n s str d = map (\<lambda>(t, w). (t, nat (max 1 w))) (clusters n s str d)"

definition glyphs_from :: "CodepointWidthDetector \<Rightarrow> wstring \<Rightarrow> nat \<Rightarrow> glyph list" where
  "glyphs_from d str it = cluster_glyphs (length str - it) (GraphemeState_init\<lparr>gs_beg := it\<rparr>) str d"

text \<open>What is in front of the column \<open>b\<close>: the column where the glyph there starts, the characters it is measured by, and the
  characters that stay in the row. They are the same unless \<open>b\<close> cuts a wide glyph: then a space takes its place, but
  the measuring still starts with the first character of the wide glyph.\<close>

definition in_front :: "glyph list \<Rightarrow> nat \<Rightarrow> nat \<times> wstring \<times> wstring" where
  "in_front gs b =
     (let pre = upto_col b gs
      in if cols pre < b then (cols pre, take 1 (fst (gs ! length pre)), [UNICODE_SPACE])
         else if pre = [] then (0, [], [])
         else (cols (butlast pre), fst (last pre), fst (last pre)))"

text \<open>A text that starts with a character outside of ASCII: its beginning may belong to the cluster in front of it, which is
  then widened and becomes the first glyph. The clusters follow as far as they fit. The result is the first column that changes and the glyphs
  from there on.\<close>

definition joined_glyphs :: "CodepointWidthDetector \<Rightarrow> glyph list \<Rightarrow> nat \<Rightarrow> nat \<Rightarrow> wstring \<Rightarrow> nat \<times> glyph list" where
  "joined_glyphs d gs b lim str =
     (let pre = upto_col b gs;
          (c, measured, kept) = in_front gs b;
          (m, s, d) = GraphemeNext GraphemeState_init measured d;
          (m, s, d) = GraphemeNext (next_string s) str d;
          w = nat (max 1 (gs_width s))
      in if gs_len s = 0 then (cols pre, blanks (b - cols pre) @ upto_col (lim - b) (glyphs_from d str 0))
         else if c + w > lim then (c, [])
         else (c, (kept @ take (gs_len s) str, w) # upto_col (lim - (c + w)) (glyphs_from d str (gs_len s))))"

text \<open>Any text: leading ASCII characters take a column each, except that the last of them may be the start of a
  cluster.\<close>

definition text_glyphs :: "CodepointWidthDetector \<Rightarrow> glyph list \<Rightarrow> nat \<Rightarrow> nat \<Rightarrow> wstring \<Rightarrow> nat \<times> glyph list" where
  "text_glyphs d gs b lim str =
     (let pre = upto_col b gs;
          ascii = takeWhile (\<lambda>w. w < 0x80) str
      in if ascii = str \<or> lim - b \<le> length ascii then (cols pre, blanks (b - cols pre) @ singles (take (lim - b) str))
         else if ascii = [] then joined_glyphs d gs b lim str
         else (cols pre, blanks (b - cols pre) @ singles (butlast ascii) @
                upto_col (lim - b - (length ascii - 1)) (glyphs_from d str (length ascii - 1))))"

subsection \<open>The loop over clusters\<close>

text \<open>How the layout of a text ends: all of it fits and the columns behind it are left alone, or some is left over
  and the columns up to the limit are cleared.\<close>

definition ended ::
    "ROW \<Rightarrow> glyph list \<Rightarrow> WriteHelper \<Rightarrow> glyph list \<Rightarrow> glyph list \<Rightarrow> (WriteHelper \<times> ROW \<times> CodepointWidthDetector) option \<Rightarrow> bool" where
  "ended r gs h front added res \<longleftrightarrow>
     (\<exists>e offs ch dirty d x.
        res = Some (h\<lparr>wh_colEnd := e, wh_colEndDirty := dirty, wh_charsConsumed := ch - wh_chBeg h\<rparr>, r\<lparr>row_charOffsets := offs\<rparr>, d) \<and>
        cwd_ok d \<and> writing r gs (h\<lparr>wh_colEnd := e\<rparr>) offs ch (front @ added) x \<and> x \<le> dirty \<and> e \<le> dirty \<and>
        dirty = (if ch - wh_chBeg h = length (wh_chars h) then e else wh_colLimit h))"

lemma ended_now:
  assumes "cwd_ok d" and wr: "writing r gs h offs ch front x"
    and "dirty = (if ch - wh_chBeg h = length (wh_chars h) then wh_colEnd h else wh_colLimit h)" "x \<le> dirty"
  shows "ended r gs h front [] (Some (h\<lparr>wh_colEndDirty := dirty, wh_charsConsumed := ch - wh_chBeg h\<rparr>, r\<lparr>row_charOffsets := offs\<rparr>, d))"
  unfolding ended_def
proof (intro exI conjI)
  show "writing r gs (h\<lparr>wh_colEnd := wh_colEnd h\<rparr>) offs ch (front @ []) x" using wr by simp
  show "wh_colEnd h \<le> dirty" using assms(3) writingD(4) [OF wr] by simp
qed (use assms in simp_all)

lemma ended_later: "ended r gs (h\<lparr>wh_colEnd := e\<rparr>) (front @ gl) added res \<Longrightarrow> ended r gs h front (gl @ added) res"
  unfolding ended_def by (elim exE conjE) (auto intro!: exI)

text \<open>The first of the clusters.\<close>

lemma cluster_glyphs_step:
  assumes "state_end s < length str" and "GraphemeNext s str d = (m, s', d')"
  shows "cluster_glyphs (Suc n) s str d =
    (take (gs_len s') (drop (gs_beg s') str), nat (max 1 (gs_width s'))) # (if m then cluster_glyphs n s' str d' else [])"
  using assms by (simp add: cluster_glyphs_def)

lemma cluster_columns: "0 \<le> w \<Longrightarrow> w \<le> 2 \<Longrightarrow> nat (max 1 w) = 1 \<or> nat (max 1 w) = 2" for w :: int
  by auto

lemma new_column:
  assumes "writing r gs h offs ch front x" and "0 \<le> w" "w \<le> 2"
  shows "nat ((int (wh_colEnd h) + max 1 w) mod 0x10000) = wh_colEnd h + nat (max 1 w)"
proof -
  have "wh_colEnd h < 0x8000" using writingD(1,4,5) [OF assms(1)] by (simp add: row_is_def)
  then show ?thesis using assms(2,3) by (auto simp: max_def nat_add_distrib)
qed

lemma text_loop_step:
  assumes "GraphemeNext s (wh_chars h) d = (m, s', d')" and "nat ((int (wh_colEnd h) + max 1 (gs_width s')) mod 0x10000) = c"
  shows "text_loop ch it s h r d =
    (if c > wh_colLimit h then Some (h\<lparr>wh_colEndDirty := wh_colLimit h, wh_charsConsumed := ch - wh_chBeg h\<rparr>, r, d')
     else do {
       (colEnd, r) \<leftarrow> put_glyph (wh_colEnd h) c ch r;
       if it + gs_len s' \<noteq> length (wh_chars h)
       then text_loop (ch + gs_len s') (it + gs_len s') s' (h\<lparr>wh_colEnd := colEnd\<rparr>) r d'
       else Some (h\<lparr>wh_colEnd := colEnd, wh_colEndDirty := colEnd, wh_charsConsumed := ch + gs_len s' - wh_chBeg h\<rparr>, r, d') })"
  by (subst text_loop.simps) (simp add: Let_def assms(1) cong: if_cong flip: assms(2))

lemma text_loop_ok:
  "cwd_ok d \<Longrightarrow> writing r gs h offs ch front x \<Longrightarrow> x \<le> Suc (wh_colEnd h) \<Longrightarrow> x \<le> wh_colLimit h \<Longrightarrow>
   it = ch - wh_chBeg h \<Longrightarrow> it < length (wh_chars h) \<Longrightarrow> state_end s = it \<Longrightarrow> gs_state s = 0 \<Longrightarrow> length (wh_chars h) - it \<le> n \<Longrightarrow>
   ended r gs h front (upto_col (wh_colLimit h - wh_colEnd h) (cluster_glyphs n s (wh_chars h) d))
     (text_loop ch it s h (r\<lparr>row_charOffsets := offs\<rparr>) d)"
proof (induction n arbitrary: ch it s h offs front x d)
  case (Suc k)
  note prems = Suc.prems
  note wr = prems(2)
  obtain m s' d' where g: "GraphemeNext s (wh_chars h) d = (m, s', d')" using prod_cases3 by blast
  have inside: "state_end s < length (wh_chars h)" using prems by simp
  from next_cluster [OF prems(1) this prems(8) g] prems(7)
  have c: "cwd_ok d'" "gs_beg s' = it" "0 < gs_len s'" "state_end s' \<le> length (wh_chars h)" "0 \<le> gs_width s'" "gs_width s' \<le> 2"
    "m \<longleftrightarrow> state_end s' < length (wh_chars h)" "m \<longrightarrow> gs_state s' = 0" by auto
  let ?w = "nat (max 1 (gs_width s'))" and ?n = "gs_len s'"
  let ?gl = "(take ?n (drop (ch - wh_chBeg h) (wh_chars h)), ?w)"
  note w = cluster_columns [OF c(5,6)] and e = new_column [OF wr c(5,6)]
  have gl: "cluster_glyphs (Suc k) s (wh_chars h) d = ?gl # (if m then cluster_glyphs k s' (wh_chars h) d' else [])"
    using cluster_glyphs_step [OF inside g, of k] c(2) prems(5) by simp
  show ?case
  proof (cases "wh_colEnd h + ?w \<le> wh_colLimit h")
    case True
    have n: "ch - wh_chBeg h + ?n \<le> length (wh_chars h)" "state_end s' = it + ?n" using c(2,4) prems(5) by (simp_all add: state_end_def)
    from writing_glyph [OF wr w True c(3) n(1)] obtain offs' where
      p: "put_glyph (wh_colEnd h) (wh_colEnd h + ?w) ch (r\<lparr>row_charOffsets := offs\<rparr>) =
        Some (wh_colEnd h + ?w, r\<lparr>row_charOffsets := offs'\<rparr>)" and
      wr': "writing r gs (h\<lparr>wh_colEnd := wh_colEnd h + ?w\<rparr>) offs' (ch + ?n) (front @ [?gl]) (max x (wh_colEnd h + ?w))" by blast
    let ?h = "h\<lparr>wh_colEnd := wh_colEnd h + ?w\<rparr>"
    let ?rest = "upto_col (wh_colLimit ?h - wh_colEnd ?h) (if m then cluster_glyphs k s' (wh_chars ?h) d' else [])"
    have x: "max x (wh_colEnd h + ?w) = wh_colEnd ?h" using prems(3) w by auto
    have it: "it + ?n = ch + ?n - wh_chBeg ?h" using prems(5) writingD(12) [OF wr] by simp
    have step: "text_loop ch it s h (r\<lparr>row_charOffsets := offs\<rparr>) d =
      (if it + ?n \<noteq> length (wh_chars h) then text_loop (ch + ?n) (it + ?n) s' ?h (r\<lparr>row_charOffsets := offs'\<rparr>) d'
       else Some (?h\<lparr>wh_colEndDirty := wh_colEnd ?h, wh_charsConsumed := ch + ?n - wh_chBeg ?h\<rparr>, r\<lparr>row_charOffsets := offs'\<rparr>, d'))"
      using text_loop_step [OF g e] p True by simp
    have "ended r gs ?h (front @ [?gl]) ?rest (text_loop ch it s h (r\<lparr>row_charOffsets := offs\<rparr>) d)"
    proof (cases "it + ?n = length (wh_chars h)")
      case last: True
      then have "\<not> m" using c(7) n(2) by simp
      then show ?thesis unfolding step using ended_now [OF c(1) wr', of "wh_colEnd ?h"] it x last by simp
    next
      case False
      then have m: "m" using c(4,7) n(2) by simp
      have "length (wh_chars ?h) - (it + ?n) \<le> k" using prems(9) c(3) by simp
      from Suc.IH [OF c(1) wr' _ _ it _ n(2) _ this] False n c(4,8) m x True show ?thesis unfolding step by simp
    qed
    then have "ended r gs h front ([?gl] @ ?rest) (text_loop ch it s h (r\<lparr>row_charOffsets := offs\<rparr>) d)" by (rule ended_later)
    moreover have "upto_col (wh_colLimit h - wh_colEnd h) (cluster_glyphs (Suc k) s (wh_chars h) d) = [?gl] @ ?rest"
      unfolding gl using True by simp
    ultimately show ?thesis by simp
  next
    case False
    have "text_loop ch it s h (r\<lparr>row_charOffsets := offs\<rparr>) d =
      Some (h\<lparr>wh_colEndDirty := wh_colLimit h, wh_charsConsumed := ch - wh_chBeg h\<rparr>, r\<lparr>row_charOffsets := offs\<rparr>, d')"
      using text_loop_step [OF g e] False by simp
    moreover have "upto_col (wh_colLimit h - wh_colEnd h) (cluster_glyphs (Suc k) s (wh_chars h) d) = []"
      unfolding gl using False writingD(4) [OF wr] by simp
    ultimately show ?thesis using ended_now [OF c(1) wr, of "wh_colLimit h"] prems(4-6) by simp
  qed
qed simp

lemma text_rest_ok:
  assumes "cwd_ok d" "writing r gs h offs ch front x" "it = ch - wh_chBeg h" "it \<le> length (wh_chars h)" "x \<le> Suc (wh_colEnd h)"
    "x \<le> wh_colLimit h" "it = length (wh_chars h) \<longrightarrow> x \<le> wh_colEnd h"
  shows "ended r gs h front (upto_col (wh_colLimit h - wh_colEnd h) (glyphs_from d (wh_chars h) it))
    (text_rest ch it h (r\<lparr>row_charOffsets := offs\<rparr>) d)"
proof (cases "it = length (wh_chars h)")
  case True
  then have "glyphs_from d (wh_chars h) it = []" by (simp add: glyphs_from_def cluster_glyphs_def)
  then show ?thesis using True ended_now [OF assms(1,2), of "wh_colEnd h"] assms(3,7) by (simp add: text_rest_def)
next
  case False
  then show ?thesis
    using text_loop_ok [OF assms(1,2,5,6,3), of "GraphemeState_init\<lparr>gs_beg := it\<rparr>" "length (wh_chars h) - it"] assms(4)
    by (simp add: text_rest_def state_end_def GraphemeState_init_def glyphs_from_def)
qed

subsection \<open>Going on in another string\<close>

text \<open>The states in which a call may leave off, and what the next call does with another string: it yields a part
  of it that may be empty, and a width of at most two.\<close>

definition state_valid :: "TextMeasurementMode \<Rightarrow> GraphemeState \<Rightarrow> bool" where
  "state_valid mode s \<longleftrightarrow> gs_state s \<in> (if mode = Graphemes then {0, -1, -2} else {0, 1}) \<and> 0 \<le> gs_width s \<and> gs_width s \<le> 2"

lemma not_flags: "NOT (-1) = (0 :: int)" "NOT (-2) = (1 :: int)" "NOT 0 = (-1 :: int)" "NOT 1 = (-2 :: int)"
  by (simp_all add: not_int_def)

lemma next_state_valid:
  assumes ok: "cwd_ok d" and b: "state_end s < length str" and s: "gs_state s = 0" and g: "GraphemeNext s str d = (m, s', d')"
  shows "state_valid (cwd_mode d) s'"
proof -
  obtain cp n where n: "utf16NextOrFFFD str (state_end s) = (cp, n)" by fastforce
  have bn: "state_end s < n" "n \<le> length str" using utf16Next_moves [OF b] n by simp_all
  have w: "0 \<le> gs_width s'" "gs_width s' \<le> 2" using next_cluster [OF assms] by auto
  have "gs_state s' \<in> (if cwd_mode d = Graphemes then {0, -1, -2} else {0, 1})"
  proof (cases "cwd_mode d")
    case Graphemes
    obtain e v state l where l: "graphemeNext_loop d str n (cluster_width d cp (ucdLookup cp)) 0 (ucdLookup cp) = (e, v, state, l)"
      using prod_cases4 by blast
    from next_loop [OF ok bn(2) _ l] show ?thesis
      using Graphemes s b bn l n g
      by (auto simp: GraphemeNext_def graphemeNext_def state_end_def Let_def not_flags split: if_splits)
  next
    case Wcswidth
    have "graphemeNextWcswidth_loop d str (state_end s) 0 0 = graphemeNextWcswidth_loop d str n (plain_width d (ucdLookup cp)) 1"
      using wcswidth_loop_step [OF b n] by simp
    moreover obtain e v state where l: "graphemeNextWcswidth_loop d str n (plain_width d (ucdLookup cp)) 1 = (e, v, state)"
      using prod_cases3 by blast
    ultimately show ?thesis
      using Wcswidth s b g wcswidth_loop [OF ok bn(2) l]
      by (auto simp: GraphemeNext_def graphemeNextWcswidth_def state_end_def Let_def split: if_splits)
  next
    case Console
    then show ?thesis using s b g by (auto simp: GraphemeNext_def graphemeNextConsole_def Let_def state_end_def split: prod.splits if_splits)
  qed
  then show ?thesis using w by (simp add: state_valid_def)
qed

lemma continued_cluster:
  assumes ok: "cwd_ok d" and v: "state_valid (cwd_mode d) s" and b: "state_end s < length str" and g: "GraphemeNext s str d = (m, s', d')"
  shows "cwd_ok d' \<and> gs_beg s' = state_end s \<and> state_end s' \<le> length str \<and> 0 \<le> gs_width s' \<and> gs_width s' \<le> 2"
proof (cases "gs_state s = 0")
  case True
  then show ?thesis using next_cluster [OF ok b True g] by blast
next
  case False
  show ?thesis
  proof (cases "cwd_mode d")
    case Graphemes
    have st: "NOT (gs_state s) \<in> {0, 1}" using v False Graphemes by (auto simp: state_valid_def not_flags)
    obtain e w state l where l: "graphemeNext_loop d str (state_end s) (gs_width s) (NOT (gs_state s)) (gs_last s) = (e, w, state, l)"
      using prod_cases4 by blast
    have "state_end s \<le> length str" using b by simp
    from next_loop [OF ok this st l] show ?thesis
      using Graphemes False b g l ok v
      by (auto simp: GraphemeNext_def graphemeNext_def state_end_def state_valid_def Let_def split: if_splits)
  next
    case Wcswidth
    have st: "gs_state s = 1" using v False Wcswidth by (auto simp: state_valid_def)
    obtain e w state where l: "graphemeNextWcswidth_loop d str (state_end s) (gs_width s) 1 = (e, w, state)"
      using prod_cases3 by blast
    have "state_end s \<le> length str" using b by simp
    from wcswidth_loop [OF ok this l] show ?thesis
      using Wcswidth False b g l ok v st
      by (auto simp: GraphemeNext_def graphemeNextWcswidth_def state_end_def state_valid_def Let_def split: if_splits)
  next
    case Console
    then show ?thesis
      using False b g ok v by (auto simp: GraphemeNext_def graphemeNextConsole_def state_end_def state_valid_def Let_def)
  qed
qed

subsection \<open>The whole layout of a text\<close>

text \<open>The text is ready to be finished: the row will consist of the glyphs in front of the column \<open>c\<close>, of \<open>new\<close> ones,
  of spaces and of the glyphs from the last dirty column on; the characters are those in front of the column where the text starts, spaces
  for the half of a wide glyph, and the part of the text that is counted as written.\<close>

definition text_laid ::
    "ROW \<Rightarrow> glyph list \<Rightarrow> WriteHelper \<Rightarrow> nat \<times> glyph list \<Rightarrow> (WriteHelper \<times> ROW \<times> CodepointWidthDetector) option \<Rightarrow> bool" where
  "text_laid r gs h placed res \<longleftrightarrow>
     (\<exists>h' offs d. let (c, new) = placed in
        res = Some (h', r\<lparr>row_charOffsets := offs\<rparr>, d) \<and> cwd_ok d \<and>
        ready r gs h' offs (upto_col c gs @ new @
          blanks (cols gs - cols (from_col (wh_colEndDirty h') gs) - (c + cols new)) @ from_col (wh_colEndDirty h') gs) \<and>
        wh_colBegDirty h' = c \<and> c \<le> wh_colBeg h \<and> wh_colEnd h' = c + cols new \<and>
        glyphs_text (upto_col c gs @ new) =
          glyphs_text (upto_col (wh_colBeg h) gs) @ replicate (wh_leadingSpaces h) UNICODE_SPACE @
          take (wh_charsConsumed h') (wh_chars h) \<and>
        wh_charsConsumed h' \<le> length (wh_chars h) \<and> wh_colEnd h' \<le> wh_colLimit h \<and> wh_colLimit h' = wh_colLimit h \<and>
        wh_colEndDirty h' = (if wh_charsConsumed h' = length (wh_chars h) then wh_colEnd h' else wh_colLimit h) \<and>
        length (glyphs_text (upto_col (wh_colBeg h) gs)) \<le>
          length (glyphs_text gs) - length (glyphs_text (from_col (wh_colEndDirty h') gs)))"

lemma ended_laid:
  assumes en: "ended r gs h1 (upto_col c gs @ X) added res" and h1: "h1 = h\<lparr>wh_colBegDirty := c, wh_colEnd := e0\<rparr>"
    and c: "cols (upto_col c gs) = c" "c \<le> wh_colBeg h" and h: "wh_chBegDirty h = length (glyphs_text (upto_col (wh_colBeg h) gs))"
      "wh_colBeg h \<le> cols gs"
    and behind: "\<And>dirty. c + cols X \<le> dirty \<Longrightarrow>
      length (glyphs_text (upto_col (wh_colBeg h) gs)) \<le> length (glyphs_text gs) - length (glyphs_text (from_col dirty gs))"
  shows "text_laid r gs h (c, X @ added) res"
proof -
  from en obtain e offs ch dirty d x where
    res: "res = Some (h1\<lparr>wh_colEnd := e, wh_colEndDirty := dirty, wh_charsConsumed := ch - wh_chBeg h1\<rparr>, r\<lparr>row_charOffsets := offs\<rparr>, d)"
    "cwd_ok d" and wr: "writing r gs (h1\<lparr>wh_colEnd := e\<rparr>) offs ch ((upto_col c gs @ X) @ added) x" and dirty: "x \<le> dirty" "e \<le> dirty"
    "dirty = (if ch - wh_chBeg h1 = length (wh_chars h1) then e else wh_colLimit h1)"
    unfolding ended_def by blast
  note W = writingD [OF wr]
  have lim: "dirty \<le> cols gs" using dirty(3) W(4,5) h1 by (simp split: if_splits)
  have e: "e = c + cols (X @ added)" using W(3) c(1) by simp
  then have "c + cols X \<le> dirty" using dirty(2) by simp
  from behind [OF this] have bd: "wh_chBegDirty (h1\<lparr>wh_colEnd := e\<rparr>) \<le> length (glyphs_text gs) - length (glyphs_text (from_col dirty gs))"
    using h1 h by simp
  let ?h' = "h1\<lparr>wh_colEnd := e, wh_colEndDirty := dirty, wh_charsConsumed := ch - wh_chBeg h1\<rparr>"
  have "ready r gs ?h' offs (upto_col c gs @ (X @ added) @ blanks (cols gs - cols (from_col dirty gs) - e) @ from_col dirty gs)"
    using ready_writing [OF wr _ dirty(1) lim bd] dirty(2) by simp
  moreover have "glyphs_text (upto_col c gs @ (X @ added)) = glyphs_text (upto_col (wh_colBeg h) gs) @
      replicate (wh_leadingSpaces h) UNICODE_SPACE @ take (ch - wh_chBeg h1) (wh_chars h)"
    using W(14) h1 h layout_upto(2) [OF W(1) h(2)] by simp
  moreover have "ch - wh_chBeg h1 \<le> length (wh_chars h)" using W(13) h1 by simp
  ultimately show ?thesis
    unfolding text_laid_def using res dirty(3) c h1 bd h(1) e W(4)
    by (intro exI [of _ ?h'] exI [of _ offs] exI [of _ d]) simp
qed

text \<open>The glyph in front of a column.\<close>

lemma previous_glyph_zero: "previous_glyph r 0 = Some 0" by simp

lemma previous_glyph_start:
  assumes "row_is r (xs @ (t, w) # ys)"
  shows "previous_glyph r (cols xs + w) = Some (cols xs)"
proof -
  have "w = 1 \<or> w = 2" using row_is_parts(2) [OF assms] by (simp add: glyph_ok_def)
  then show ?thesis
  proof
    assume "w = 2"
    with assms column_inside(2) [of r xs t ys] column_start(2) [OF assms] show ?thesis by simp
  qed (use column_start(2) [OF assms] in simp)
qed

lemma previous_glyph_inside:
  assumes "row_is r (xs @ (t, 2) # ys)"
  shows "previous_glyph r (Suc (cols xs)) = Some (cols xs)"
  using column_start(2) [OF assms] by simp

text \<open>Where the text starts: at the first column, behind a glyph, or inside of a wide one.\<close>

lemma text_start_cases:
  assumes "row_is r gs" and "b \<le> cols gs"
  obtains (first) "b = 0"
    | (behind) xs t w ys where "gs = xs @ (t, w) # ys" "b = cols xs + w" "upto_col b gs = xs @ [(t, w)]" "from_col b gs = ys"
    | (inside) xs t ys where "gs = xs @ (t, 2) # ys" "b = Suc (cols xs)" "upto_col b gs = xs" "from_col b gs = ys"
proof (cases rule: column_cases [OF assms])
  case (1 xs ys)
  show ?thesis
  proof (cases xs rule: rev_cases)
    case Nil
    then show ?thesis using first 1 by simp
  next
    case (snoc zs g)
    then show ?thesis using behind [of zs "fst g" "snd g" ys] 1 by simp
  qed
next
  case (2 xs t ys)
  then show ?thesis using inside by blast
qed

subsection \<open>Joining with the glyph in front\<close>

lemma writing_join:
  assumes row: "row_is r gs" and c: "c \<le> cols gs" "cols (upto_col c gs) = c" and w: "w = 1 \<or> w = 2" "c + w \<le> wh_colLimit h"
    and h: "wh_colLimit h \<le> cols gs" "wh_chBeg h = wh_chBegDirty h + wh_leadingSpaces h" "wh_leadingSpaces h \<le> 1"
      "wh_chBegDirty h = length (glyphs_text (upto_col b gs))" "b \<le> cols gs"
      "wh_leadingSpaces h = 1 \<Longrightarrow> wh_chBegDirty h = length (glyphs_text (upto_col c gs))"
    and X: "glyphs_text (upto_col b gs) @ replicate (wh_leadingSpaces h) UNICODE_SPACE = glyphs_text (upto_col c gs) @ X"
    and n: "0 < n" "n \<le> length (wh_chars h)"
  shows "\<exists>offs. put_glyph c (c + w) (length (glyphs_text (upto_col c gs))) r = Some (c + w, r\<lparr>row_charOffsets := offs\<rparr>) \<and>
    writing r gs (h\<lparr>wh_colBegDirty := c, wh_colEnd := c + w\<rparr>) offs (wh_chBeg h + n) (upto_col c gs @ [(X @ take n (wh_chars h), w)]) (c + w)"
proof -
  let ?xs = "upto_col c gs" and ?o = "length (glyphs_text (upto_col c gs))"
  let ?offs = "take c (row_charOffsets r) @ glyph_offsets ?o w @ drop (c + w) (row_charOffsets r)"
  let ?h = "h\<lparr>wh_colBegDirty := c, wh_colEnd := c + w\<rparr>"
  have len: "length (row_charOffsets r) = Suc (cols gs)" using row by (simp add: row_is_def length_tail_layout)
  have lw: "length (glyph_offsets ?o w) = w" using w(1) by (auto simp: glyph_offsets_def)
  have p: "put_glyph c (c + w) ?o r = Some (c + w, r\<lparr>row_charOffsets := ?offs\<rparr>)"
    using put_glyph_ok [OF w(1), of c r ?o] w(2) h(1) len by simp
  have lay: "take c (row_charOffsets r) = layout 0 ?xs" using layout_upto(1) [OF row c(1)] c(2) by simp
  have okx: "list_all glyph_ok ?xs" using upto_facts(3) [OF row_is_ok [OF row] c(1)] .
  have A: "take c ?offs @ iota_n (wh_leadingSpaces h) (of_nat (wh_chBegDirty h)) @ drop (c + wh_leadingSpaces h) (take (c + w) ?offs) =
      layout 0 ?xs @ glyph_offsets ?o w"
  proof (cases "wh_leadingSpaces h = 0")
    case True
    then show ?thesis using lay lw w(2) h(1) len length_layout [OF okx, of 0] c(2) by (simp add: iota_n_def)
  next
    case False
    then have l1: "wh_leadingSpaces h = 1" using h(3) by simp
    have i: "iota_n 1 (of_nat ?o) = [of_nat ?o :: u16]" by (simp add: iota_n_def)
    have "drop 1 (glyph_offsets ?o w) = tl (glyph_offsets ?o w)" by (simp add: drop_Suc)
    moreover have "glyph_offsets ?o w = of_nat ?o # tl (glyph_offsets ?o w)" by (simp add: glyph_offsets_def)
    ultimately show ?thesis using l1 h(6) i lay lw w len h(1) length_layout [OF okx, of 0] c(2) by simp
  qed
  have B: "glyphs_text (?xs @ [(X @ take n (wh_chars h), w)]) = take (wh_chBegDirty h) (row_chars r) @
      replicate (wh_leadingSpaces h) UNICODE_SPACE @ take n (wh_chars h)"
    using X layout_upto(2) [OF row h(5)] h(4) by (simp flip: append_assoc)
  have C: "glyph_ok (X @ take n (wh_chars h), w)" using w(1) n by (auto simp: glyph_ok_def)
  have D: "length ?offs = length (row_charOffsets r)" "drop (c + w) ?offs = drop (c + w) (row_charOffsets r)"
    using lw len w(2) h(1) by simp_all
  have E: "wh_chBegDirty h \<le> length (row_chars r)" using layout_upto(3) [OF row h(5)] h(4) by simp
  have F: "wh_leadingSpaces h \<le> w" using h(3) w(1) by auto
  have sel: "wh_colBegDirty ?h = c" "wh_colEnd ?h = c + w" "wh_leadingSpaces ?h = wh_leadingSpaces h" "wh_chBegDirty ?h = wh_chBegDirty h"
    "wh_chBeg ?h = wh_chBeg h" "wh_chars ?h = wh_chars h" by simp_all
  have "writing r gs ?h ?offs (wh_chBeg h + n) (?xs @ [(X @ take n (wh_chars h), w)]) (c + w)"
    unfolding writing_def
  proof (intro conjI)
    have "layout 0 (?xs @ [(X @ take n (wh_chars h), w)]) = layout 0 ?xs @ glyph_offsets ?o w" by (simp add: layout_append)
    then show "take (wh_colBegDirty ?h) ?offs @ iota_n (wh_leadingSpaces ?h) (of_nat (wh_chBegDirty ?h)) @
        drop (wh_colBegDirty ?h + wh_leadingSpaces ?h) (take (wh_colEnd ?h) ?offs) = layout 0 (?xs @ [(X @ take n (wh_chars h), w)])"
      unfolding sel using A by (simp only:)
    show "glyphs_text (?xs @ [(X @ take n (wh_chars h), w)]) = take (wh_chBegDirty ?h) (row_chars r) @
        replicate (wh_leadingSpaces ?h) UNICODE_SPACE @ take (wh_chBeg h + n - wh_chBeg ?h) (wh_chars ?h)"
      unfolding sel using B by (simp only: add_diff_cancel_left')
    show "list_all glyph_ok (?xs @ [(X @ take n (wh_chars h), w)])" using okx C by simp
    show "cols (?xs @ [(X @ take n (wh_chars h), w)]) = wh_colEnd ?h" using c(2) by simp
    show "drop (c + w) ?offs = drop (c + w) (row_charOffsets r)" "length ?offs = length (row_charOffsets r)" by (fact D)+
  qed (use row h(1-3) w(2) n(2) E F in simp_all)
  then show ?thesis using p by blast
qed

text \<open>The facts on a write that has just started.\<close>

definition started :: "ROW \<Rightarrow> glyph list \<Rightarrow> WriteHelper \<Rightarrow> bool" where
  "started r gs h \<longleftrightarrow>
     row_is r gs \<and> wh_colBeg h < wh_colLimit h \<and> wh_colLimit h \<le> cols gs \<and> wh_colEnd h = wh_colBeg h \<and>
     wh_colBegDirty h = cols (upto_col (wh_colBeg h) gs) \<and> wh_chBegDirty h = length (glyphs_text (upto_col (wh_colBeg h) gs)) \<and>
     wh_leadingSpaces h = wh_colBeg h - cols (upto_col (wh_colBeg h) gs) \<and> wh_chBeg h = wh_chBegDirty h + wh_leadingSpaces h \<and>
     wh_chars h \<noteq> [] \<and>
     writing r gs h (row_charOffsets r) (wh_chBeg h) (upto_col (wh_colBeg h) gs @ blanks (wh_leadingSpaces h)) (wh_colBeg h)"

lemma startedD:
  assumes "started r gs h"
  shows "row_is r gs" "wh_colBeg h < wh_colLimit h" "wh_colLimit h \<le> cols gs" "wh_colEnd h = wh_colBeg h"
    "wh_colBegDirty h = cols (upto_col (wh_colBeg h) gs)" "wh_chBegDirty h = length (glyphs_text (upto_col (wh_colBeg h) gs))"
    "wh_leadingSpaces h = wh_colBeg h - cols (upto_col (wh_colBeg h) gs)" "wh_chBeg h = wh_chBegDirty h + wh_leadingSpaces h"
    "wh_chars h \<noteq> []"
    "writing r gs h (row_charOffsets r) (wh_chBeg h) (upto_col (wh_colBeg h) gs @ blanks (wh_leadingSpaces h)) (wh_colBeg h)"
    "wh_colBeg h \<le> cols gs" "list_all glyph_ok gs"
proof -
  show "wh_colBeg h \<le> cols gs" "list_all glyph_ok gs" using assms by (simp_all add: started_def row_is_def)
qed (insert assms, unfold started_def, (elim conjE, assumption)+)

lemma upto_upto: "upto_col (cols (upto_col b gs)) gs = upto_col b gs"
  by (induction b gs rule: upto_col.induct) auto

text \<open>A text that does not join with what is in front of it.\<close>

lemma plain_laid:
  assumes st: "started r gs h" and en: "ended r gs h (upto_col (wh_colBeg h) gs @ blanks (wh_leadingSpaces h)) added res"
  shows "text_laid r gs h (cols (upto_col (wh_colBeg h) gs), blanks (wh_leadingSpaces h) @ added) res"
  unfolding startedD(5) [OF st, symmetric]
proof (rule ended_laid)
  note S = startedD [OF st]
  note u = upto_upto [of "wh_colBeg h" gs]
  show "ended r gs h (upto_col (wh_colBegDirty h) gs @ blanks (wh_leadingSpaces h)) added res" using en S(5) u by simp
  show "h = h\<lparr>wh_colBegDirty := wh_colBegDirty h, wh_colEnd := wh_colEnd h\<rparr>" by simp
  show "cols (upto_col (wh_colBegDirty h) gs) = wh_colBegDirty h" using S(5) u by simp
  show "wh_colBegDirty h \<le> wh_colBeg h" using S(5) upto_facts(1) [OF S(12,11)] by simp
  show "length (glyphs_text (upto_col (wh_colBeg h) gs)) \<le> length (glyphs_text gs) - length (glyphs_text (from_col dirty gs))"
    if "wh_colBegDirty h + cols (blanks (wh_leadingSpaces h)) \<le> dirty" for dirty
    using that S(5,7) behind_mono [OF S(12,11), of dirty] upto_facts(1) [OF S(12,11)] by simp
qed (use startedD [OF st] in simp_all)

text \<open>The glyph in front of the text, its offset, and what of the row is in front of it.\<close>

lemma load_part:
  assumes "row_is r (xs @ (t, w) # ys)" and "n \<le> length t"
  shows "load (length (glyphs_text xs)) n (row_chars r) = Some (take n t)"
proof -
  let ?g = "xs @ (t, w) # ys"
  have l: "length (glyphs_text ?g) \<le> length (row_chars r)" "take (length (glyphs_text ?g)) (row_chars r) = glyphs_text ?g"
    using assms(1) by (simp_all add: row_is_def)
  let ?o = "length (glyphs_text xs)"
  have "take n (drop ?o (row_chars r)) = take n (drop ?o (take (length (glyphs_text ?g)) (row_chars r)))"
    using assms(2) by (simp add: drop_take min_def)
  also have "\<dots> = take n t" unfolding l(2) using assms(2) by simp
  finally show ?thesis using l(1) assms(2) by (simp add: load_def)
qed

lemma text_before:
  assumes st: "started r gs h"
  obtains c prev X where "in_front gs (wh_colBeg h) = (c, prev, X)" "previous_glyph r (wh_colBeg h) = Some c" "c \<le> wh_colBeg h"
    "cols (upto_col c gs) = c" "uncheckedCharOffset r c = Some (length (glyphs_text (upto_col c gs)))"
    "load (length (glyphs_text (upto_col c gs))) (wh_chBeg h - length (glyphs_text (upto_col c gs))) (row_chars r) = Some prev"
    "glyphs_text (upto_col (wh_colBeg h) gs) @ replicate (wh_leadingSpaces h) UNICODE_SPACE = glyphs_text (upto_col c gs) @ X"
    "wh_leadingSpaces h = 1 \<Longrightarrow> wh_chBegDirty h = length (glyphs_text (upto_col c gs))"
    "c = 0 \<and> wh_colBeg h = 0 \<or> c < wh_colBeg h \<and> wh_colBeg h \<le> c + 2"
    "\<And>dirty. c < dirty \<Longrightarrow>
      length (glyphs_text (upto_col (wh_colBeg h) gs)) \<le> length (glyphs_text gs) - length (glyphs_text (from_col dirty gs))"
proof -
  note S = startedD [OF st]
  show ?thesis
  proof (cases rule: text_start_cases [OF S(1,11)])
    case 1
    have "upto_col 0 gs = []" using S(12) by (cases gs) (auto simp: glyph_ok_def)
    with 1 S show ?thesis
      using column_facts(2) [OF S(1), of 0] by (intro that [of 0 "[]" "[]"]) (simp_all add: in_front_def load_def)
  next
    case (2 xs t w ys)
    have ok: "list_all glyph_ok xs" "list_all glyph_ok ((t, w) # ys)" using S(12) 2(1) by simp_all
    have u: "upto_col (cols xs) gs = xs" using upto_from(1) [OF ok] 2(1) by simp
    have lead: "wh_leadingSpaces h = 0" using S(7) 2 by simp
    have w: "w = 1 \<or> w = 2" "0 < w" "w \<le> 2" "0 < length t" using ok(2) by (auto simp: glyph_ok_def)
    have off: "uncheckedCharOffset r (cols xs) = Some (length (glyphs_text xs))"
      using column_start(1) [of r xs "(t, w) # ys"] S(1) 2(1) by simp
    have prev: "load (length (glyphs_text xs)) (wh_chBeg h - length (glyphs_text xs)) (row_chars r) = Some t"
      using load_part [of r xs t w ys "length t"] S(1,6,8) 2(1,3) lead by simp
    have front: "in_front gs (wh_colBeg h) = (cols xs, t, t)" using 2(2,3) by (simp add: in_front_def)
    have beh: "length (glyphs_text (upto_col (wh_colBeg h) gs)) \<le> length (glyphs_text gs) - length (glyphs_text (from_col dirty gs))"
      if "cols xs < dirty" for dirty
    proof -
      have "from_col (Suc (cols xs)) gs = from_col 1 ((t, w) # ys)" using from_append [OF ok(1), of 1 "(t, w) # ys"] 2(1) by simp
      also have "\<dots> = ys" using w(1) by auto
      finally obtain zs where "ys = zs @ from_col dirty gs" using from_mono [of "Suc (cols xs)" dirty gs] \<open>cols xs < dirty\<close> by auto
      then have "length (glyphs_text (from_col dirty gs)) \<le> length (glyphs_text ys)" using glyphs_simps(3) [of zs "from_col dirty gs"] by simp
      then show ?thesis using 2(1,3) by simp
    qed
    show ?thesis
      by (rule that [of "cols xs" t t])
        (use previous_glyph_start [of r xs t w ys] S(1,6,8) 2 u lead w off prev front beh in simp_all)
  next
    case (3 xs t ys)
    have ok: "list_all glyph_ok xs" "list_all glyph_ok ((t, 2) # ys)" using S(12) 3(1) by simp_all
    have u: "upto_col (cols xs) gs = xs" using upto_from(1) [OF ok] 3(1) by simp
    have lead: "wh_leadingSpaces h = 1" using S(7) 3 by simp
    have off: "uncheckedCharOffset r (cols xs) = Some (length (glyphs_text xs))"
      using column_start(1) [of r xs "(t, 2) # ys"] S(1) 3(1) by simp
    have "1 \<le> length t" using ok(2) by (cases t) (simp_all add: glyph_ok_def)
    then have prev: "load (length (glyphs_text xs)) (wh_chBeg h - length (glyphs_text xs)) (row_chars r) = Some (take 1 t)"
      using load_part [of r xs t 2 ys 1] S(1,6,8) 3(1,3) lead by simp
    have front: "in_front gs (wh_colBeg h) = (cols xs, take 1 t, [UNICODE_SPACE])"
      using 3 by (simp add: in_front_def nth_append)
    have beh: "length (glyphs_text xs) \<le> length (glyphs_text gs) - length (glyphs_text (from_col dirty gs))"
      if "cols xs < dirty" for dirty
      using behind_mono [OF S(12), of "cols xs" dirty] that u 3(1) by simp
    show ?thesis
      by (rule that [of "cols xs" "take 1 t" "[UNICODE_SPACE]"])
        (use previous_glyph_inside [of r xs t ys] S(1,6,8) 3 u lead off prev front beh in simp_all)
  qed
qed

lemma unicode_unfold:
  assumes "previous_glyph r (wh_colBeg h) = Some c" "uncheckedCharOffset r c = Some off" "load off (ch - off) (row_chars r) = Some prev"
    "GraphemeNext GraphemeState_init prev d = (m1, s1, d1)" "GraphemeNext (next_string s1) (wh_chars h) d1 = (m2, s2, d2)"
    "nat ((int c + max 1 (gs_width s2)) mod 0x10000) = k"
  shows "replaceTextUnicode ch 0 h r d =
    (if gs_len s2 > 0
     then if k > wh_colLimit h
       then Some (h\<lparr>wh_colBegDirty := c, wh_colEnd := c, wh_colEndDirty := wh_colLimit h, wh_charsConsumed := ch - wh_chBeg h\<rparr>, r, d2)
       else put_glyph c k off r \<bind>
         (\<lambda>(colEnd, r). text_rest (ch + gs_len s2) (gs_len s2) (h\<lparr>wh_colBegDirty := c, wh_colEnd := colEnd\<rparr>) r d2)
     else text_rest ch 0 h r d2)"
  using assms(1-5) by (simp add: replaceTextUnicode_def Let_def cong: if_cong flip: assms(6))

text \<open>The state after the glyph in front has been measured.\<close>

lemma front_valid:
  assumes ok: "cwd_ok d" and g: "GraphemeNext GraphemeState_init prev d = (m, s, d')"
  shows "cwd_ok d' \<and> state_valid (cwd_mode d') (next_string s)"
proof (cases "prev = []")
  case True
  then have "s = GraphemeState_init" "d' = d"
    using g by (auto simp: GraphemeNext_def graphemeNext_def graphemeNextWcswidth_def graphemeNextConsole_def GraphemeState_init_def
        split: TextMeasurementMode.splits)
  then show ?thesis using ok by (simp add: state_valid_def next_string_def GraphemeState_init_def)
next
  case False
  then have e: "state_end GraphemeState_init < length prev" "gs_state GraphemeState_init = 0"
    by (simp_all add: state_end_def GraphemeState_init_def)
  show ?thesis
    using next_cluster [OF ok e g] next_state_valid [OF ok e g] by (simp add: state_valid_def next_string_def)
qed

lemma unicode_first:
  assumes st: "started r gs h" and ok: "cwd_ok d"
  shows "text_laid r gs h (joined_glyphs d gs (wh_colBeg h) (wh_colLimit h) (wh_chars h)) (replaceTextUnicode (wh_chBeg h) 0 h r d)"
proof -
  note S = startedD [OF st]
  show ?thesis
  proof (rule text_before [OF st])
    fix c prev X
    let ?o = "length (glyphs_text (upto_col c gs))"
    assume front: "in_front gs (wh_colBeg h) = (c, prev, X)"
      and c: "previous_glyph r (wh_colBeg h) = Some c" "c \<le> wh_colBeg h" "cols (upto_col c gs) = c"
      and off: "uncheckedCharOffset r c = Some ?o" and prev: "load ?o (wh_chBeg h - ?o) (row_chars r) = Some prev"
      and X: "glyphs_text (upto_col (wh_colBeg h) gs) @ replicate (wh_leadingSpaces h) UNICODE_SPACE = glyphs_text (upto_col c gs) @ X"
      and lead: "wh_leadingSpaces h = 1 \<Longrightarrow> wh_chBegDirty h = ?o"
      and pos: "c = 0 \<and> wh_colBeg h = 0 \<or> c < wh_colBeg h \<and> wh_colBeg h \<le> c + 2"
      and behind: "\<And>dirty. c < dirty \<Longrightarrow>
        length (glyphs_text (upto_col (wh_colBeg h) gs)) \<le> length (glyphs_text gs) - length (glyphs_text (from_col dirty gs))"
    obtain m1 s1 d1 where g1: "GraphemeNext GraphemeState_init prev d = (m1, s1, d1)" using prod_cases3 by blast
    note v1 = front_valid [OF ok g1]
    obtain m2 s2 d2 where g2: "GraphemeNext (next_string s1) (wh_chars h) d1 = (m2, s2, d2)" using prod_cases3 by blast
    have e2: "state_end (next_string s1) = 0" by (simp add: state_end_def next_string_def)
    have "state_end (next_string s1) < length (wh_chars h)" using e2 S(9) by simp
    from continued_cluster [OF conjunct1 [OF v1] conjunct2 [OF v1] this g2] e2 have
      s2: "cwd_ok d2" "gs_len s2 \<le> length (wh_chars h)" "0 \<le> gs_width s2" "gs_width s2 \<le> 2" by (auto simp: state_end_def)
    let ?w = "nat (max 1 (gs_width s2))" and ?h = "h\<lparr>wh_colBegDirty := c, wh_colEnd := c\<rparr>"
    have col: "nat ((int c + max 1 (gs_width s2)) mod 0x10000) = c + ?w"
      using c(2) S(1,11) s2(3,4) by (auto simp: row_is_def max_def nat_add_distrib)
    note eq = unicode_unfold [OF c(1) off prev g1 g2 col]
    have spec: "joined_glyphs d gs (wh_colBeg h) (wh_colLimit h) (wh_chars h) =
      (if gs_len s2 = 0
       then (cols (upto_col (wh_colBeg h) gs), blanks (wh_leadingSpaces h) @
              upto_col (wh_colLimit h - wh_colEnd h) (glyphs_from d2 (wh_chars h) 0))
       else if c + ?w > wh_colLimit h then (c, [])
       else (c, (X @ take (gs_len s2) (wh_chars h), ?w) #
              upto_col (wh_colLimit h - (c + ?w)) (glyphs_from d2 (wh_chars h) (gs_len s2))))"
      using S(4,7) by (simp add: joined_glyphs_def front g1 g2 Let_def)
    show ?thesis
    proof (cases "gs_len s2 = 0")
      case True
      have "ended r gs h (upto_col (wh_colBeg h) gs @ blanks (wh_leadingSpaces h))
          (upto_col (wh_colLimit h - wh_colEnd h) (glyphs_from d2 (wh_chars h) 0))
          (text_rest (wh_chBeg h) 0 h (r\<lparr>row_charOffsets := row_charOffsets r\<rparr>) d2)"
        by (rule text_rest_ok [OF s2(1) S(10)]) (use S(2,4) in simp_all)
      then show ?thesis using plain_laid [OF st] eq True spec by simp
    next
      case len: False
      show ?thesis
      proof (cases "c + ?w \<le> wh_colLimit h")
        case True
        have l1: "wh_leadingSpaces h \<le> 1" using S(7) upto_facts(2) [OF S(12,11)] by linarith
        let ?gl = "(X @ take (gs_len s2) (wh_chars h), ?w)" and ?h1 = "h\<lparr>wh_colBegDirty := c, wh_colEnd := c + ?w\<rparr>"
        let ?added = "upto_col (wh_colLimit ?h1 - wh_colEnd ?h1) (glyphs_from d2 (wh_chars ?h1) (gs_len s2))"
        obtain offs where p: "put_glyph c (c + ?w) ?o r = Some (c + ?w, r\<lparr>row_charOffsets := offs\<rparr>)" and
          wr: "writing r gs ?h1 offs (wh_chBeg h + gs_len s2) (upto_col c gs @ [?gl]) (c + ?w)"
          using writing_join [OF S(1) _ c(3) cluster_columns [OF s2(3,4)] True S(3,8) l1 S(6,11) lead X _ s2(2)] len c(2) S(11)
          by auto
        have "ended r gs ?h1 (upto_col c gs @ [?gl]) ?added
            (text_rest (wh_chBeg h + gs_len s2) (gs_len s2) ?h1 (r\<lparr>row_charOffsets := offs\<rparr>) d2)"
          by (rule text_rest_ok [OF s2(1) wr]) (use s2(2) True in simp_all)
        then have "text_laid r gs h (c, [?gl] @ ?added)
            (text_rest (wh_chBeg h + gs_len s2) (gs_len s2) ?h1 (r\<lparr>row_charOffsets := offs\<rparr>) d2)"
          using c(2,3) S(6,11) cluster_columns [OF s2(3,4)] by (intro ended_laid [where h = h]) (auto intro: behind)
        moreover have "replaceTextUnicode (wh_chBeg h) 0 h r d =
            text_rest (wh_chBeg h + gs_len s2) (gs_len s2) ?h1 (r\<lparr>row_charOffsets := offs\<rparr>) d2"
          using eq p True len by simp
        ultimately show ?thesis using spec True len by simp
      next
        case False
        have z: "c = 0" "wh_colBeg h = 0" "wh_colBegDirty h = 0" "wh_colEnd h = 0" "wh_leadingSpaces h = 0"
          using pos False cluster_columns [OF s2(3,4)] S(2,4,5,7) upto_facts(1) [OF S(12,11)] by auto
        then have hh: "?h = h" by (cases h) simp
        let ?res = "Some (?h\<lparr>wh_colEndDirty := wh_colLimit h, wh_charsConsumed := wh_chBeg h - wh_chBeg h\<rparr>, r, d2)"
        have "ended r gs h (upto_col (wh_colBeg h) gs @ blanks (wh_leadingSpaces h)) [] ?res"
          unfolding hh using ended_now [OF s2(1) S(10), of "wh_colLimit h"] S(2,9) by simp
        from plain_laid [OF st this] have "text_laid r gs h (c, []) ?res" using z S(5) by (simp add: blanks_def)
        moreover have "replaceTextUnicode (wh_chBeg h) 0 h r d = ?res" using eq len False by simp
        ultimately show ?thesis using spec len False by simp
      qed
    qed
  qed
qed

subsection \<open>The loop over ASCII\<close>

lemma writing_back:
  assumes wr: "writing r gs h offs ch (front @ [([c], 1)]) x" and b: "wh_colBegDirty h + wh_leadingSpaces h < wh_colEnd h" "wh_chBeg h < ch"
  shows "writing r gs (h\<lparr>wh_colEnd := wh_colEnd h - 1\<rparr>) offs (ch - 1) front x"
proof -
  note W = writingD [OF wr]
  let ?a = "take (wh_colBegDirty h) offs @ iota_n (wh_leadingSpaces h) (of_nat (wh_chBegDirty h))"
  have "layout 0 front = butlast (layout 0 (front @ [([c], 1)]))" by (simp add: layout_append glyph_offsets_def)
  also have "\<dots> = butlast (?a @ drop (wh_colBegDirty h + wh_leadingSpaces h) (take (wh_colEnd h) offs))" using W(9) by simp
  also have "\<dots> = ?a @ drop (wh_colBegDirty h + wh_leadingSpaces h) (take (wh_colEnd h - 1) offs)"
    using b(1) W(4,5,6) by (simp add: butlast_append butlast_drop butlast_take)
  finally have lay: "take (wh_colBegDirty h) offs @ iota_n (wh_leadingSpaces h) (of_nat (wh_chBegDirty h)) @
      drop (wh_colBegDirty h + wh_leadingSpaces h) (take (wh_colEnd h - 1) offs) = layout 0 front" by simp
  have "glyphs_text front = butlast (glyphs_text (front @ [([c], 1)]))" by simp
  also have "\<dots> = butlast (take (wh_chBegDirty h) (row_chars r) @ replicate (wh_leadingSpaces h) UNICODE_SPACE @
      take (ch - wh_chBeg h) (wh_chars h))" using W(14) by simp
  also have "\<dots> = take (wh_chBegDirty h) (row_chars r) @ replicate (wh_leadingSpaces h) UNICODE_SPACE @
      take (ch - 1 - wh_chBeg h) (wh_chars h)"
  proof -
    have "take (ch - wh_chBeg h) (wh_chars h) \<noteq> []" using W(13) b(2) by auto
    moreover have "butlast (take (ch - wh_chBeg h) (wh_chars h)) = take (ch - 1 - wh_chBeg h) (wh_chars h)"
      using W(13) butlast_take [OF W(13)] by simp
    ultimately show ?thesis by (simp add: butlast_append)
  qed
  finally show ?thesis
    unfolding writing_def using lay W b by (intro conjI) simp_all
qed

lemma takeWhile_stop: "i < length xs \<Longrightarrow> \<not> P (xs ! i) \<Longrightarrow> list_all P (take i xs) \<Longrightarrow> takeWhile P xs = take i xs"
  by (rule takeWhile_eq_take_P_nth) (auto simp: list_all_length)

lemma text_glyphs_ascii:
  assumes "list_all (\<lambda>w. w < 0x80) (take (min (length str) (lim - b)) str)"
  shows "text_glyphs d gs b lim str = (cols (upto_col b gs), blanks (b - cols (upto_col b gs)) @ singles (take (lim - b) str))"
proof -
  let ?P = "\<lambda>w :: wchar. w < 0x80"
  have "takeWhile ?P str = str \<or> lim - b \<le> length (takeWhile ?P str)"
  proof (cases "length str \<le> lim - b")
    case True
    then show ?thesis using assms by (simp add: takeWhile_eq_all_conv list_all_iff)
  next
    case False
    have "takeWhile ?P str = take (lim - b) str @ takeWhile ?P (drop (lim - b) str)"
      using takeWhile_append2 [of "take (lim - b) str" ?P "drop (lim - b) str"] assms False by (simp add: list_all_iff)
    then have "length (takeWhile ?P str) = length (take (lim - b) str) + length (takeWhile ?P (drop (lim - b) str))"
      by (metis length_append)
    then show ?thesis using False by simp
  qed
  then show ?thesis by (auto simp: text_glyphs_def Let_def)
qed

lemma ascii_loop_ok:
  assumes st: "started r gs h" and ok: "cwd_ok d"
  shows "it \<le> e \<Longrightarrow> e = min (length (wh_chars h)) (wh_colLimit h - wh_colBeg h) \<Longrightarrow>
    writing r gs (h\<lparr>wh_colEnd := wh_colBeg h + it\<rparr>) offs (wh_chBeg h + it)
      ((upto_col (wh_colBeg h) gs @ blanks (wh_leadingSpaces h)) @ singles (take it (wh_chars h))) (wh_colBeg h + it) \<Longrightarrow>
    (it = 0 \<Longrightarrow> offs = row_charOffsets r) \<Longrightarrow> list_all (\<lambda>w. w < 0x80) (take it (wh_chars h)) \<Longrightarrow>
    text_laid r gs h (text_glyphs d gs (wh_colBeg h) (wh_colLimit h) (wh_chars h))
      (ascii_loop e (wh_chBeg h + it) it (h\<lparr>wh_colEnd := wh_colBeg h + it\<rparr>) (r\<lparr>row_charOffsets := offs\<rparr>) d)"
proof (induction "e - it" arbitrary: it offs)
  note S = startedD [OF st]
  let ?front = "upto_col (wh_colBeg h) gs @ blanks (wh_leadingSpaces h)" and ?room = "wh_colLimit h - wh_colBeg h"
  {
    case 0
    let ?h = "h\<lparr>wh_colEnd := wh_colBeg h + it\<rparr>"
    have "it = e" using 0(1,2) by simp
    then have eq: "ascii_loop e (wh_chBeg h + it) it ?h (r\<lparr>row_charOffsets := offs\<rparr>) d =
        Some (?h\<lparr>wh_colEndDirty := wh_colEnd ?h, wh_charsConsumed := wh_chBeg h + it - wh_chBeg ?h\<rparr>, r\<lparr>row_charOffsets := offs\<rparr>, d)"
      by (subst ascii_loop.simps) simp
    have "ended r gs ?h (?front @ singles (take it (wh_chars h))) [] \<dots>"
      by (rule ended_now [OF ok 0(4)]) (use \<open>it = e\<close> 0(3) S(2) in auto)
    then have "ended r gs h ?front (singles (take it (wh_chars h)) @ []) (ascii_loop e (wh_chBeg h + it) it ?h (r\<lparr>row_charOffsets := offs\<rparr>) d)"
      unfolding eq by (rule ended_later)
    moreover have "text_glyphs d gs (wh_colBeg h) (wh_colLimit h) (wh_chars h) =
        (cols (upto_col (wh_colBeg h) gs), blanks (wh_leadingSpaces h) @ singles (take it (wh_chars h)))"
      using text_glyphs_ascii [of "wh_chars h" "wh_colLimit h" "wh_colBeg h" d gs] 0(3,6) S(7) \<open>it = e\<close> by (auto simp: min_def)
    ultimately show ?case using plain_laid [OF st] by simp
  next
    case (Suc k)
    let ?h = "h\<lparr>wh_colEnd := wh_colBeg h + it\<rparr>"
    have it: "it < e" "it < length (wh_chars h)" "it < ?room" using Suc(2,4) by linarith+
    show ?case
    proof (cases "wh_chars h ! it \<ge> 0x80")
      case True
      then have eq: "ascii_loop e (wh_chBeg h + it) it ?h (r\<lparr>row_charOffsets := offs\<rparr>) d =
          replaceTextUnicode (wh_chBeg h + it) it ?h (r\<lparr>row_charOffsets := offs\<rparr>) d"
        using it by (subst ascii_loop.simps) simp
      have prefix: "takeWhile (\<lambda>w. w < 0x80) (wh_chars h) = take it (wh_chars h)"
        using takeWhile_stop [OF it(2) _ Suc(7)] True by (simp add: not_less)
      show ?thesis
      proof (cases "it = 0")
        case zero: True
        have "?h = h" using zero S(4) by (cases h) simp
        moreover have "text_glyphs d gs (wh_colBeg h) (wh_colLimit h) (wh_chars h) =
            joined_glyphs d gs (wh_colBeg h) (wh_colLimit h) (wh_chars h)"
          using prefix zero it S(9) by (simp add: text_glyphs_def Let_def)
        ultimately show ?thesis using unicode_first [OF st ok] eq zero Suc(6) by simp
      next
        case False
        then obtain j where j: "it = Suc j" using not0_implies_Suc by blast
        have "singles (take it (wh_chars h)) = singles (take j (wh_chars h)) @ [([wh_chars h ! j], 1)]"
          using it j by (simp add: take_Suc_conv_app_nth)
        then have "writing r gs ?h offs (wh_chBeg h + it) ((?front @ singles (take j (wh_chars h))) @ [([wh_chars h ! j], 1)]) (wh_colBeg h + it)"
          using Suc(5) by simp
        then have wr: "writing r gs (?h\<lparr>wh_colEnd := wh_colEnd ?h - 1\<rparr>) offs (wh_chBeg h + it - 1)
            (?front @ singles (take j (wh_chars h))) (wh_colBeg h + it)"
          by (rule writing_back) (use j S(5,7) upto_facts(1) [OF S(12,11)] in simp_all)
        let ?h1 = "?h\<lparr>wh_colEnd := wh_colEnd ?h - 1\<rparr>"
        have "ended r gs ?h1 (?front @ singles (take j (wh_chars h)))
            (upto_col (wh_colLimit ?h1 - wh_colEnd ?h1) (glyphs_from d (wh_chars ?h1) (it - 1)))
            (text_rest (wh_chBeg h + it - 1) (it - 1) ?h1 (r\<lparr>row_charOffsets := offs\<rparr>) d)"
          by (rule text_rest_ok [OF ok wr]) (use it j Suc(4) in simp_all)
        then have "ended r gs (h\<lparr>wh_colEnd := wh_colBeg h + j\<rparr>) (?front @ singles (take j (wh_chars h)))
            (upto_col (?room - j) (glyphs_from d (wh_chars h) j))
            (replaceTextUnicode (wh_chBeg h + it) it ?h (r\<lparr>row_charOffsets := offs\<rparr>) d)"
          using j by (simp add: replaceTextUnicode_def)
        then have "ended r gs h ?front (singles (take j (wh_chars h)) @ upto_col (?room - j) (glyphs_from d (wh_chars h) j))
            (replaceTextUnicode (wh_chBeg h + it) it ?h (r\<lparr>row_charOffsets := offs\<rparr>) d)" by (rule ended_later)
        moreover have "text_glyphs d gs (wh_colBeg h) (wh_colLimit h) (wh_chars h) = (cols (upto_col (wh_colBeg h) gs),
            blanks (wh_leadingSpaces h) @ singles (take j (wh_chars h)) @ upto_col (?room - j) (glyphs_from d (wh_chars h) j))"
          using prefix it j S(7) by (auto simp: text_glyphs_def Let_def butlast_take take_all_iff)
        ultimately show ?thesis unfolding eq using plain_laid [OF st] by simp
      qed
    next
      case False
      have "wh_colEnd ?h + 1 \<le> wh_colLimit ?h" using it Suc(4) by simp
      moreover have "wh_chBeg h + it - wh_chBeg ?h + 1 \<le> length (wh_chars ?h)" using it by simp
      ultimately obtain offs' where p: "put_glyph (wh_colEnd ?h) (wh_colEnd ?h + 1) (wh_chBeg h + it) (r\<lparr>row_charOffsets := offs\<rparr>) =
            Some (wh_colEnd ?h + 1, r\<lparr>row_charOffsets := offs'\<rparr>)"
          and wr: "writing r gs (?h\<lparr>wh_colEnd := wh_colEnd ?h + 1\<rparr>) offs' (wh_chBeg h + it + 1)
            ((?front @ singles (take it (wh_chars h))) @ [(take 1 (drop (wh_chBeg h + it - wh_chBeg ?h) (wh_chars ?h)), 1)])
            (max (wh_colBeg h + it) (wh_colEnd ?h + 1))"
        using writing_glyph [OF Suc(5), of 1 1] by auto
      have so: "set_offset (wh_colEnd ?h) (of_nat (wh_chBeg h + it)) (r\<lparr>row_charOffsets := offs\<rparr>) = Some (r\<lparr>row_charOffsets := offs'\<rparr>)"
        using p by (auto simp: put_glyph_def put_trailers.simps split: Option.bind_splits)
      have "take 1 (drop it (wh_chars h)) = [wh_chars h ! it]" using it(2) by (simp add: take_Suc hd_drop_conv_nth)
      then have "writing r gs (h\<lparr>wh_colEnd := wh_colBeg h + Suc it\<rparr>) offs' (wh_chBeg h + Suc it)
          (?front @ singles (take (Suc it) (wh_chars h))) (wh_colBeg h + Suc it)"
        using wr it(2) by (simp add: take_Suc_conv_app_nth)
      moreover have "k = e - Suc it" "Suc it \<le> e" using Suc(2) it by simp_all
      moreover have "list_all (\<lambda>w. w < 0x80) (take (Suc it) (wh_chars h))"
        using Suc(7) False it(2) by (simp add: take_Suc_conv_app_nth not_le)
      ultimately have "text_laid r gs h (text_glyphs d gs (wh_colBeg h) (wh_colLimit h) (wh_chars h))
          (ascii_loop e (wh_chBeg h + Suc it) (Suc it) (h\<lparr>wh_colEnd := wh_colBeg h + Suc it\<rparr>) (r\<lparr>row_charOffsets := offs'\<rparr>) d)"
        using Suc(1) Suc(4) by blast
      then show ?thesis using False it(1) so by (subst ascii_loop.simps) simp
    qed
  }
qed

lemma text_step:
  assumes st: "started r gs h" and ok: "cwd_ok d"
  shows "text_laid r gs h (text_glyphs d gs (wh_colBeg h) (wh_colLimit h) (wh_chars h)) (wh_ReplaceText h r d)"
proof -
  note S = startedD [OF st]
  have "h\<lparr>wh_colEnd := wh_colBeg h + 0\<rparr> = h" using S(4) by (cases h) simp
  then show ?thesis
    using ascii_loop_ok [OF st ok, of 0 "min (length (wh_chars h)) (wh_colLimit h - wh_colBeg h)" "row_charOffsets r"] S(10)
    by (simp add: wh_ReplaceText_def)
qed

subsection \<open>The operation\<close>

lemma from_from:
  assumes "list_all glyph_ok gs" and "c \<le> cols gs"
  shows "from_col (cols gs - cols (from_col c gs)) gs = from_col c gs"
proof -
  obtain pre where p: "gs = pre @ from_col c gs" "cols pre = cols gs - cols (from_col c gs)" using behind_split [OF assms] by metis
  then have "list_all glyph_ok pre" "list_all glyph_ok (from_col c gs)" using assms(1) by (metis list_all_append)+
  from upto_from(2) [OF this] p show ?thesis by simp
qed

lemma from_bound:
  assumes "list_all glyph_ok gs" "c \<le> cols gs"
  shows "c + cols (from_col c gs) \<le> cols gs"
proof -
  obtain pre where p: "gs = pre @ from_col c gs" "c \<le> cols pre" using behind_split [OF assms] by metis
  have "cols gs = cols pre + cols (from_col c gs)" using arg_cong [OF p(1), of cols] by simp
  then show ?thesis using p(2) by linarith
qed

lemma ready_cols:
  assumes "ready r gs h offs new"
  shows "cols new = cols gs"
proof -
  from assms obtain front where f: "laid_out r gs h offs front" "new = finished gs h front" by (auto simp: ready_def)
  then have d: "list_all glyph_ok gs" "wh_colEndDirty h \<le> cols gs" "cols front = wh_colEnd h" "wh_colEnd h \<le> wh_colEndDirty h"
    by (auto simp: laid_out_def row_is_def)
  then show ?thesis using f(2) from_bound [OF d(1,2)] by (simp add: finished_def)
qed

text \<open>C9: Text written into a row, in any of the three modes of measurement: the call always completes, and the row then
  consists of exactly these glyphs: those in front of the first dirty column, the glyphs of the text as far as they fit (\<open>text_glyphs\<close>), a space for
  every column that was cleared behind them, and the glyphs from the end of the dirty columns on. What fits is the
  longest prefix of the clusters of the text whose columns lie below the limit, each with its measured width but at
  least one column; a space replaces the half of a wide glyph in front, and a beginning that joins with the glyph in front widens that. The
  text that was not written, the column where the next text goes (behind the last glyph, or the limit if some text is left
  over) and the dirty columns are reported exactly; the attributes do not change. If memory cannot be had the row is blank.\<close>

theorem text_replaced:
  assumes row: "row_is r gs" and ok: "cwd_ok d" and nonempty: "ws_text st \<noteq> []"
    and b: "b = clampedColumnInclusive r (ws_columnBegin st)" and lim: "lim = clampedColumnInclusive r (ws_columnLimit st)" "b < lim"
    and small: "length (glyphs_text gs) + cols gs + length (ws_text st) < 0x7FFF"
    and glyphs: "text_glyphs d gs b lim (ws_text st) = (c, new)"
  shows "\<exists>e st' r' d' n dirty. ReplaceText hp st r d = Some (e, st', r', d') \<and>
    row_written hp r gs (upto_col c gs @ new @ blanks (dirty - (c + cols new)) @ from_col dirty gs) e r' \<and>
    c \<le> b \<and> c + cols new \<le> lim \<and> n \<le> length (ws_text st) \<and>
    glyphs_text (upto_col c gs @ new) =
      glyphs_text (upto_col b gs) @ replicate (b - cols (upto_col b gs)) UNICODE_SPACE @ take n (ws_text st) \<and>
    dirty = cols gs - cols (from_col (if n = length (ws_text st) then c + cols new else lim) gs) \<and>
    (e = None \<longrightarrow> st' = st\<lparr>ws_text := drop n (ws_text st),
       ws_columnEnd := (if n = length (ws_text st) then c + cols new else lim),
       ws_columnBeginDirty := c, ws_columnEndDirty := dirty\<rparr>)"
proof -
  obtain h where h: "WriteHelper_create r (ws_columnBegin st) (ws_columnLimit st) (ws_text st) = Some h" "wh_chars h = ws_text st"
    "wh_colBeg h = b" "wh_colLimit h = lim"
    "wh_colEnd h = wh_colBeg h" "wh_colBegDirty h = cols (upto_col (wh_colBeg h) gs)"
    "wh_chBegDirty h = length (glyphs_text (upto_col (wh_colBeg h) gs))"
    "wh_leadingSpaces h = wh_colBeg h - cols (upto_col (wh_colBeg h) gs)" "wh_charsConsumed h = 0"
    "wh_colBeg h \<le> wh_colLimit h \<Longrightarrow>
      writing r gs h (row_charOffsets r) (wh_chBeg h) (upto_col (wh_colBeg h) gs @ blanks (wh_leadingSpaces h)) (wh_colBeg h)"
    using start_write [OF row, of "ws_columnBegin st" "ws_columnLimit st" "ws_text st"] b lim by metis
  have N: "lim \<le> cols gs" using clamped_inclusive(2) [OF row] lim(1) by simp
  have wr: "writing r gs h (row_charOffsets r) (wh_chBeg h) (upto_col (wh_colBeg h) gs @ blanks (wh_leadingSpaces h)) (wh_colBeg h)"
    using h(10) h(3,4) lim(2) by simp
  have st: "started r gs h" "IsValid h"
    using row h lim N nonempty writingD(11) [OF wr] wr by (simp_all add: started_def IsValid_def)
  have laid: "text_laid r gs h (c, new) (wh_ReplaceText h r d)" using text_step [OF st(1) ok] glyphs h(2-4) by simp
  obtain h' offs d' where
    eq: "wh_ReplaceText h r d = Some (h', r\<lparr>row_charOffsets := offs\<rparr>, d')" and
    ready: "ready r gs h' offs (upto_col c gs @ new @
      blanks (cols gs - cols (from_col (wh_colEndDirty h') gs) - (c + cols new)) @ from_col (wh_colEndDirty h') gs)" (is "ready r gs h' offs ?new") and
    dirty: "wh_colBegDirty h' = c" "wh_colEnd h' = c + cols new" "c \<le> wh_colBeg h" "wh_colEnd h' \<le> wh_colLimit h" and
    chars: "glyphs_text (upto_col c gs @ new) = glyphs_text (upto_col (wh_colBeg h) gs) @
        replicate (wh_leadingSpaces h) UNICODE_SPACE @ take (wh_charsConsumed h') (wh_chars h)" and
    e: "wh_charsConsumed h' \<le> length (wh_chars h)" "wh_colLimit h' = wh_colLimit h"
      "wh_colEndDirty h' = (if wh_charsConsumed h' = length (wh_chars h) then wh_colEnd h' else wh_colLimit h)"
      "length (glyphs_text (upto_col (wh_colBeg h) gs)) \<le>
        length (glyphs_text gs) - length (glyphs_text (from_col (wh_colEndDirty h') gs))"
    using laid unfolding text_laid_def Let_def prod.case by blast
  have cd: "wh_colEndDirty h' \<le> cols gs" using ready by (auto simp: ready_def laid_out_def)
  define n where "n = wh_charsConsumed h'"
  define dirty where "dirty = cols gs - cols (from_col (wh_colEndDirty h') gs)"
  have dq: "dirty = cols gs - cols (from_col (if n = length (ws_text st) then c + cols new else lim) gs)"
    using e(3) h(2,4) dirty(2) by (simp add: dirty_def n_def)
  have beyond: "from_col dirty gs = from_col (wh_colEndDirty h') gs" unfolding dirty_def by (rule from_from [OF row_is_ok [OF row] cd])
  have nq: "c \<le> b" "c + cols new \<le> lim" "n \<le> length (ws_text st)" "glyphs_text (upto_col c gs @ new) =
      glyphs_text (upto_col b gs) @ replicate (b - cols (upto_col b gs)) UNICODE_SPACE @ take n (ws_text st)"
    using e(1) chars h(2,3,4,8) dirty by (simp_all add: n_def)
  have "length (glyphs_text ?new) < 0x8000"
  proof -
    have "cols gs - cols (from_col (wh_colEndDirty h') gs) - (c + cols new) \<le> cols gs" by simp
    moreover have "b \<le> cols gs" using N lim(2) by simp
    then have "wh_leadingSpaces h \<le> 1" using h(3,8) upto_facts(2) [OF row_is_ok [OF row]] by fastforce
    moreover have "length (glyphs_text (from_col (wh_colEndDirty h') gs)) \<le> length (glyphs_text gs)"
      using from_mono [of 0 "wh_colEndDirty h'" gs] glyphs_simps(3) by (metis from_zero le_add2 length_append zero_le)
    moreover have "length (glyphs_text ?new) = length (glyphs_text (upto_col (wh_colBeg h) gs)) + wh_leadingSpaces h +
        wh_charsConsumed h' + (cols gs - cols (from_col (wh_colEndDirty h') gs) - (c + cols new)) + length (glyphs_text (from_col (wh_colEndDirty h') gs))"
      using arg_cong [OF chars, of length] e(1) by simp
    ultimately show ?thesis using small e(4) e(1) [unfolded h(2)] by linarith
  qed
  from ready this show ?thesis
  proof (cases rule: finish_ready [where hp = hp and a = TextAttribute_default])
    case refused
    have "ReplaceText hp st r d = Some (Some Bad_alloc, st, ROW_Reset TextAttribute_default (r\<lparr>row_charOffsets := offs\<rparr>), d')"
      using h(1) st(2) eq refused(1) by (simp add: ReplaceText_def)
    moreover have "row_written hp r gs gs' (Some Bad_alloc) (ROW_Reset TextAttribute_default (r\<lparr>row_charOffsets := offs\<rparr>))" for gs'
      using refused(2) by (simp add: row_written_def)
    ultimately show ?thesis using nq dq by blast
  next
    case (completed r')
    have "ReplaceText hp st r d = Some (None, st\<lparr>ws_text := drop n (ws_text st),
       ws_columnEnd := (if n = length (ws_text st) then c + cols new else lim), ws_columnBeginDirty := c, ws_columnEndDirty := dirty\<rparr>, r', d')"
      using h(1) st(2) eq completed(1) e(2) h(4) dirty(1,2) nq(3) by (simp add: ReplaceText_def Let_def n_def dirty_def)
    moreover have "row_written hp r gs (upto_col c gs @ new @ blanks (dirty - (c + cols new)) @ from_col dirty gs) None r'"
      using completed(2) beyond by (simp add: dirty_def)
    ultimately show ?thesis using nq dq by blast
  qed
qed

end
