(* ===== verification/RowCopy.thy ===== *)
theory RowCopy
  imports RowText
begin

text \<open>
  Copying text from one row into another (\<^verbatim>\<open>ROW::CopyTextFrom\<close>): whole glyphs are copied, as many as fit.
\<close>

subsection \<open>The offsets that are copied\<close>

lemma copyOffsets_append: "copyOffsets (xs @ ys) off = copyOffsets xs off @ copyOffsets ys off"
  by (simp add: copyOffsets_def)

lemma copied_glyph:
  assumes "a + n < 0x8000"
  shows "copyOffsets (glyph_offsets (a + n) w) (of_nat ch - of_nat a) = glyph_offsets (ch + n) w"
  using offset_word [OF assms] by (simp add: copyOffsets_def glyph_offsets_def map_replicate_const add.commute)

lemma copied_layout:
  "a + n + length (glyphs_text gs) < 0x8000 \<Longrightarrow>
   copyOffsets (layout (a + n) gs) (of_nat ch - of_nat a) = layout (ch + n) gs"
proof (induction gs arbitrary: n)
  case (Cons g gs)
  then show ?case
    using copied_glyph [of a n "snd g" ch] Cons.IH [of "n + length (fst g)"] by (simp add: copyOffsets_append add.assoc)
qed (simp add: copyOffsets_def)

lemma adjustBackward_le: "adjustBackward r c = Some k \<Longrightarrow> k \<le> c"
  by (induction c) (auto split: Option.bind_splits if_splits)

lemma last_glyph_start_ok:
  "(\<And>i. i \<le> n \<Longrightarrow> deref offs i = deref (row_charOffsets r) (b + i)) \<Longrightarrow> adjustBackward r (b + n) = Some (b + k) \<Longrightarrow>
   last_glyph_start offs n = Some k"
proof (induction n)
  case 0
  have "k = 0" using adjustBackward_le [OF 0(2)] by simp
  with 0 show ?case by (cases b) (auto simp: uncheckedIsTrailer_def dest!: adjustBackward_le split: Option.bind_splits if_splits)
next
  case (Suc n)
  have d: "deref offs (Suc n) = deref (row_charOffsets r) (Suc (b + n))" using Suc.prems(1) [of "Suc n"] by simp
  show ?case
    using Suc.prems(2) Suc.IH Suc.prems(1) d by (auto simp: uncheckedIsTrailer_def split: Option.bind_splits if_splits)
qed

subsection \<open>Laying out several glyphs\<close>

lemma writing_weaken:
  assumes "writing r gs h offs ch front x" and "x \<le> y"
  shows "writing r gs h offs ch front y"
proof -
  have "drop y offs = drop y (row_charOffsets r)"
    using arg_cong [where f = "drop (y - x)", OF writingD(8) [OF assms(1)]] assms(2) by simp
  then show ?thesis unfolding writing_def using writingD [OF assms(1)] by blast
qed

lemma writing_glyphs:
  "writing r gs h offs ch front x \<Longrightarrow> list_all glyph_ok new \<Longrightarrow> wh_colEnd h + cols new \<le> wh_colLimit h \<Longrightarrow>
   ch - wh_chBeg h + length (glyphs_text new) \<le> length (wh_chars h) \<Longrightarrow>
   glyphs_text new = take (length (glyphs_text new)) (drop (ch - wh_chBeg h) (wh_chars h)) \<Longrightarrow>
   writing r gs (h\<lparr>wh_colEnd := wh_colEnd h + cols new\<rparr>)
     (take (wh_colEnd h) offs @ layout ch new @ drop (wh_colEnd h + cols new) offs) (ch + length (glyphs_text new)) (front @ new)
     (max x (wh_colEnd h + cols new))"
proof (induction new arbitrary: h offs ch front x)
  case Nil
  have "writing r gs h offs ch front (max x (wh_colEnd h))" by (rule writing_weaken [OF Nil(1)]) simp
  moreover have "h\<lparr>wh_colEnd := wh_colEnd h\<rparr> = h" by (cases h) simp
  ultimately show ?case by simp
next
  case (Cons g new)
  let ?n = "length (fst g)" and ?w = "snd g" and ?h = "h\<lparr>wh_colEnd := wh_colEnd h + snd g\<rparr>"
  let ?offs = "take (wh_colEnd h) offs @ glyph_offsets ch ?w @ drop (wh_colEnd h + ?w) offs"
  note wr = Cons.prems(1) and W = writingD [OF Cons.prems(1)]
  have g: "?w = 1 \<or> ?w = 2" "0 < ?n" using Cons.prems(2) by (simp_all add: glyph_ok_def)
  have tx: "fst g = take ?n (drop (ch - wh_chBeg h) (wh_chars h))"
    "glyphs_text new = take (length (glyphs_text new)) (drop (ch - wh_chBeg h + ?n) (wh_chars h))"
    using Cons.prems(4,5) by (simp_all add: take_add append_eq_append_conv add.commute)
  have fit: "wh_colEnd h + ?w \<le> wh_colLimit h" "ch - wh_chBeg h + ?n \<le> length (wh_chars h)" using Cons.prems(3,4) by simp_all
  have "put_glyph (wh_colEnd h) (wh_colEnd h + ?w) ch (r\<lparr>row_charOffsets := offs\<rparr>) = Some (wh_colEnd h + ?w, r\<lparr>row_charOffsets := ?offs\<rparr>)"
    using put_glyph_ok [OF g(1), of "wh_colEnd h" "r\<lparr>row_charOffsets := offs\<rparr>" ch] fit(1) W(5,6) by simp
  with writing_glyph [OF wr g(1) fit(1) g(2) fit(2)]
  have "writing r gs ?h ?offs (ch + ?n) (front @ [(fst g, ?w)]) (max x (wh_colEnd h + ?w))"
    using tx(1) by (auto dest: arg_cong [where f = row_charOffsets])
  from Cons.IH [OF this] Cons.prems(2,3,4) tx(2) W(12)
  have next_state: "writing r gs (?h\<lparr>wh_colEnd := wh_colEnd ?h + cols new\<rparr>)
     (take (wh_colEnd ?h) ?offs @ layout (ch + ?n) new @ drop (wh_colEnd ?h + cols new) ?offs) (ch + ?n + length (glyphs_text new))
     ((front @ [(fst g, ?w)]) @ new) (max (max x (wh_colEnd h + ?w)) (wh_colEnd ?h + cols new))"
    by (simp add: add.commute)
  have o: "take (wh_colEnd ?h) ?offs = take (wh_colEnd h) offs @ glyph_offsets ch ?w"
    "drop (wh_colEnd ?h + cols new) ?offs = drop (wh_colEnd h + ?w + cols new) offs"
    using g(1) fit(1) W(5,6) by (auto simp: glyph_offsets_def add.commute)
  have x: "max (max x (wh_colEnd h + ?w)) (wh_colEnd ?h + cols new) = max x (wh_colEnd h + cols (g # new))" by simp
  show ?case using next_state unfolding o x by (simp add: add.assoc)
qed

subsection \<open>The source\<close>

lemma upto_mono: "c \<le> c' \<Longrightarrow> \<exists>xs. upto_col c' gs = upto_col c gs @ xs"
proof (induction gs arbitrary: c c')
  case (Cons g gs)
  then show ?case by (cases "snd g \<le> c") (auto dest: Cons.IH [of "c - snd g" "c' - snd g"])
qed simp

lemma tail_layout_first: "tail_layout off gs ! 0 = of_nat off"
  by (subst tail_layout_hd) simp

text \<open>The columns from \<open>sb\<close> to \<open>sl\<close> of the source, if a glyph starts at \<open>sb\<close>.\<close>

definition window :: "ROW \<Rightarrow> glyph list \<Rightarrow> nat \<Rightarrow> nat \<Rightarrow> u16 list \<Rightarrow> bool" where
  "window src ss sb sl offs \<longleftrightarrow>
     row_is src ss \<and> cols (upto_col sb ss) = sb \<and> sb < sl \<and> sl \<le> cols ss \<and> offs = take (sl - sb + 1) (drop sb (row_charOffsets src))"

lemma window_glyphs:
  assumes w: "window src ss sb sl offs"
  shows "ss = upto_col sb ss @ from_col sb ss" "list_all glyph_ok (upto_col sb ss)" "list_all glyph_ok (from_col sb ss)"
    "drop sb (row_charOffsets src) = tail_layout (length (glyphs_text (upto_col sb ss))) (from_col sb ss)" "length offs = sl - sb + 1"
    "cols (from_col sb ss) = cols ss - sb"
proof -
  have row: "row_is src ss" and sb: "cols (upto_col sb ss) = sb" "sb < sl" "sl \<le> cols ss"
    and offs: "offs = take (sl - sb + 1) (drop sb (row_charOffsets src))" using w by (simp_all add: window_def)
  have c: "sb \<le> cols ss" using sb by simp
  show s: "ss = upto_col sb ss @ from_col sb ss" using upto_from_split [OF row_is_ok [OF row] c] sb(1) by auto
  show ok: "list_all glyph_ok (upto_col sb ss)" "list_all glyph_ok (from_col sb ss)" using upto_facts [OF row_is_ok [OF row] c] by simp_all
  have "row_charOffsets src = layout 0 (upto_col sb ss) @ tail_layout (length (glyphs_text (upto_col sb ss))) (from_col sb ss)"
    using row tail_layout_append [of 0 "upto_col sb ss" "from_col sb ss"] s by (simp add: row_is_def)
  then show "drop sb (row_charOffsets src) = tail_layout (length (glyphs_text (upto_col sb ss))) (from_col sb ss)"
    using length_layout [OF ok(1), of 0] sb(1) by simp
  show "length offs = sl - sb + 1" using offs row sb(2,3) by (simp add: row_is_def length_tail_layout)
  show "cols (from_col sb ss) = cols ss - sb" using arg_cong [OF s, of cols] sb(1) by simp
qed

lemma window_reads:
  assumes w: "window src ss sb sl offs" and n: "n \<le> sl - sb"
  defines "a \<equiv> length (glyphs_text (upto_col sb ss))" and "new \<equiv> upto_col n (from_col sb ss)"
  shows "last_glyph_start offs n = Some (cols new)" "deref offs 0 = Some (of_nat a)"
    "deref offs (cols new) = Some (of_nat (a + length (glyphs_text new)))" "take (cols new) offs = layout a new"
    "a + length (glyphs_text new) < 0x8000" "cols new \<le> n"
proof -
  note W = window_glyphs [OF w]
  have row: "row_is src ss" and sb: "cols (upto_col sb ss) = sb" "sb < sl" "sl \<le> cols ss"
    and offs: "offs = take (sl - sb + 1) (drop sb (row_charOffsets src))" using w by (simp_all add: window_def)
  have nn: "n \<le> cols (from_col sb ss)" using n sb W(6) by simp
  show c: "cols new \<le> n" unfolding new_def using upto_facts(1) [OF W(3) nn] .
  obtain rest where r: "from_col sb ss = new @ rest" unfolding new_def using upto_from_split [OF W(3) nn] by blast
  have ok: "list_all glyph_ok new" "list_all glyph_ok rest" using W(3) unfolding r by simp_all
  have o: "offs = take (sl - sb + 1) (layout a new @ tail_layout (a + length (glyphs_text new)) rest)"
    unfolding offs W(4) r by (simp add: tail_layout_append flip: a_def)
  have l: "length (layout a new) = cols new" using length_layout [OF ok(1)] .
  have "deref offs i = deref (row_charOffsets src) (sb + i)" if "i \<le> n" for i
    using that n row W(5) sb(3) unfolding offs by (simp add: deref_def row_is_def length_tail_layout)
  moreover have "adjustBackward src (sb + n) = Some (sb + cols new)"
    using column_facts(1) [OF row, of "sb + n"] n sb upto_append [of "upto_col sb ss" n "from_col sb ss"] W(1)
    by (simp add: new_def flip: W(1))
  ultimately show "last_glyph_start offs n = Some (cols new)" by (rule last_glyph_start_ok)
  show "take (cols new) offs = layout a new" unfolding o using l c n by simp
  have "offs ! cols new = of_nat (a + length (glyphs_text new))"
    unfolding o using l c n by (simp add: nth_append tail_layout_first)
  then show "deref offs (cols new) = Some (of_nat (a + length (glyphs_text new)))" using W(5) c n by (simp add: deref_def)
  have "offs ! 0 = of_nat a" unfolding offs W(4) by (simp add: a_def tail_layout_first)
  then show "deref offs 0 = Some (of_nat a)" using W(5) by (simp add: deref_def)
  have "length (glyphs_text ss) = a + length (glyphs_text new) + length (glyphs_text rest)"
    using arg_cong [OF W(1), of "\<lambda>g. length (glyphs_text g)"] r by (simp add: a_def)
  then show "a + length (glyphs_text new) < 0x8000" using row by (simp add: row_is_def)
qed


lemma window_chars:
  assumes w: "window src ss sb sl offs"
  defines "beg \<equiv> unat (hd offs AND CharOffsetsMask)" and "e \<equiv> unat (last offs AND CharOffsetsMask)"
  shows "load beg (e - beg) (row_chars src) = Some (glyphs_text (upto_col (sl - sb) (from_col sb ss)))"
    "hd offs AND CharOffsetsTrailer = 0"
proof -
  note W = window_glyphs [OF w] and R = window_reads [OF w order_refl]
  let ?a = "length (glyphs_text (upto_col sb ss))" and ?new = "upto_col (sl - sb) (from_col sb ss)"
  have row: "row_is src ss" and sb: "cols (upto_col sb ss) = sb" "sb < sl" "sl \<le> cols ss"
    and offs: "offs = take (sl - sb + 1) (drop sb (row_charOffsets src))" using w by (simp_all add: window_def)
  have h: "hd offs = of_nat ?a" using R(2) W(5) by (cases offs) (simp_all add: deref_def)
  have small: "?a < 0x8000" using R(5) by simp
  show "hd offs AND CharOffsetsTrailer = 0" using h offset_word(2) [OF small] by simp
  have beg: "beg = ?a" using h offset_word(1,3) [OF small] by (simp add: beg_def)
  have up: "upto_col sl ss = upto_col sb ss @ ?new"
    using upto_append [of "upto_col sb ss" "sl - sb" "from_col sb ss"] sb by (simp flip: W(1))
  have "last offs = row_charOffsets src ! sl"
    using W(5) row sb unfolding offs by (subst last_conv_nth) (auto simp: row_is_def length_tail_layout)
  then have "Some e = uncheckedCharOffset src sl"
    using row sb(3) by (simp add: e_def uncheckedCharOffset_def deref_def row_is_def length_tail_layout)
  then have e: "e = ?a + length (glyphs_text ?new)" using column_facts(2) [OF row sb(3)] up by simp
  have "take e (row_chars src) = glyphs_text (upto_col sb ss) @ glyphs_text ?new" "e \<le> length (row_chars src)"
    using layout_upto(2,3) [OF row sb(3)] up e by simp_all
  then show "load beg (e - beg) (row_chars src) = Some (glyphs_text ?new)"
    using beg e by (simp add: load_def take_drop add.commute)
qed

subsection \<open>The operation\<close>

lemma copy_ready:
  assumes w: "window src ss sb sl offs" and wr: "writing r gs h (row_charOffsets r) (wh_chBeg h) front (wh_colBeg h)"
    and h: "wh_colEnd h = wh_colBeg h" "wh_chars h = glyphs_text (upto_col (sl - sb) (from_col sb ss))" "wh_charsConsumed h = 0"
      "wh_chBegDirty h = length (glyphs_text (upto_col (wh_colBeg h) gs))"
    and n: "n = min (wh_colLimit h - wh_colBeg h) (sl - sb)" and new: "new = upto_col n (from_col sb ss)"
  shows "\<exists>offs' h'. wh_CopyTextFrom offs h r = Some (h', r\<lparr>row_charOffsets := offs'\<rparr>) \<and>
    h' = h\<lparr>wh_colEnd := wh_colBeg h + cols new, wh_colEndDirty := wh_colBeg h + n, wh_charsConsumed := length (glyphs_text new)\<rparr> \<and>
    ready r gs h' offs' (front @ new @ blanks (cols gs - cols (from_col (wh_colBeg h + n) gs) - (wh_colBeg h + cols new)) @
      from_col (wh_colBeg h + n) gs)"
proof -
  note W = window_glyphs [OF w] and X = writingD [OF wr]
  have nn: "n \<le> sl - sb" "wh_colBeg h + n \<le> wh_colLimit h" using n X(4) h(1) by simp_all
  note R = window_reads [OF w nn(1), folded new]
  let ?a = "length (glyphs_text (upto_col sb ss))" and ?ch = "wh_chBeg h"
  let ?offs = "take (wh_colEnd h) (row_charOffsets r) @ layout ?ch new @ drop (wh_colEnd h + cols new) (row_charOffsets r)"
  obtain more_text where t: "wh_chars h = glyphs_text new @ more_text" using upto_mono [OF nn(1), of "from_col sb ss"] h(2) new by auto
  have cols_ss: "n \<le> cols (from_col sb ss)" using nn(1) W(6) w by (auto simp: window_def)
  have ok: "list_all glyph_ok new" using upto_facts(3) [OF W(3) cols_ss] new by simp
  have fit: "wh_colEnd h + cols new \<le> wh_colLimit h" using R(6) nn(2) h(1) by simp
  have "copyOffsets (take (cols new) offs) (of_nat ?ch - of_nat ?a) = layout ?ch new"
    using copied_layout [of ?a 0 new ?ch] R(4,5) by simp
  moreover have "store (wh_colEnd h) (layout ?ch new) (row_charOffsets r) = Some ?offs"
    using length_layout [OF ok, of ?ch] X(5,6,7) fit by (simp add: store_def)
  moreover have "unat (of_nat (?a + length (glyphs_text new)) :: u16) - unat (of_nat ?a :: u16) = length (glyphs_text new)"
    using offset_word(1) [OF R(5)] offset_word(1) [of ?a] R(5) by simp
  moreover have "narrow_u16 (wh_colBeg h + n) = wh_colBeg h + n" using nn(2) X(1,5) by (simp add: narrow_u16_def row_is_def)
  moreover have "min (wh_colLimit h - wh_colBeg h) (length offs - 1) = n" using W(5) n by simp
  ultimately have c: "wh_CopyTextFrom offs h r = Some (h\<lparr>wh_colEnd := wh_colBeg h + cols new, wh_colEndDirty := wh_colBeg h + n,
      wh_charsConsumed := length (glyphs_text new)\<rparr>, r\<lparr>row_charOffsets := ?offs\<rparr>)"
    using R(1,2,3) h(1) by (simp add: wh_CopyTextFrom_def Let_def del: of_nat_add)
  have wr': "writing r gs (h\<lparr>wh_colEnd := wh_colEnd h + cols new\<rparr>) ?offs (?ch + length (glyphs_text new)) (front @ new)
      (max (wh_colBeg h) (wh_colEnd h + cols new))"
    by (rule writing_glyphs [OF wr ok fit]) (simp_all add: t)
  have b: "wh_colBeg h \<le> cols gs" using X(4,5) h(1) by simp
  show ?thesis
    using ready_writing [OF wr', of "wh_colBeg h + n"] c R(6) h nn(2) X(5) behind_mono [OF row_is_ok [OF X(1)] b, of "wh_colBeg h + n"]
    by (intro exI [of _ ?offs]) simp
qed


text \<open>C11: Text is copied from one row into another as whole glyphs: those of the given columns of the source that fit, with
  spaces for a wide glyph that does not fit any more and for the halves of wide glyphs that are cut. The call always completes, and the
  row and its source end up where the state says. If memory cannot be had the row is blank.\<close>

theorem text_copied:
  assumes row: "row_is r gs" and src: "row_is src ss"
    and b: "b = clampedColumnInclusive r (cs_columnBegin st)" and lim: "lim = clampedColumnInclusive r (cs_columnLimit st)" "b < lim"
    and sb: "sb = clampedColumnInclusive src (cs_sourceColumnBegin st)" "cols (upto_col sb ss) = sb"
    and sl: "sl = clampedColumnInclusive src (cs_sourceColumnLimit st)" "avail = upto_col (sl - sb) (from_col sb ss)" "avail \<noteq> []"
    and n: "n = min (lim - b) (sl - sb)" and copied: "copied = upto_col n (from_col sb ss)"
    and new: "new = splice b copied (b + n) gs" and small: "length (glyphs_text new) < 0x8000"
  shows "\<exists>e st' r'. ROW_CopyTextFrom hp src st r = Some (e, st', r') \<and> row_written hp r gs new e r' \<and>
    (e = None \<longrightarrow> cs_columnEnd st' = (if copied = avail then b + cols copied else lim) \<and> cs_sourceColumnEnd st' = sb + cols copied)"
proof -
  have lss: "sl \<le> cols ss" "sb \<le> cols ss" using clamped_inclusive(2) [OF src] sl(1) sb(1) by simp_all
  have okB: "list_all glyph_ok (from_col sb ss)" using upto_facts(4) [OF row_is_ok [OF src] lss(2)] .
  have "sb < sl"
  proof (rule ccontr)
    assume "\<not> sb < sl"
    then have "avail = []" using sl(2) okB by (cases "from_col sb ss") (auto simp: glyph_ok_def)
    then show False using sl(3) by simp
  qed
  define offs where "offs = take (sl - sb + 1) (drop sb (row_charOffsets src))"
  have w: "window src ss sb sl offs" using src sb lss \<open>sb < sl\<close> by (simp add: window_def offs_def)
  note C = window_chars [OF w, folded sl(2)] and W = window_glyphs [OF w]
  have av: "length (glyphs_text copied) = length (glyphs_text avail) \<longleftrightarrow> copied = avail"
  proof -
    obtain xs where "avail = copied @ xs" using upto_mono [of n "sl - sb" "from_col sb ss"] n copied sl(2) by auto
    moreover have "list_all glyph_ok avail" using sl(2) upto_facts(3) [OF okB, of "sl - sb"] W(6) lss by simp
    ultimately show ?thesis using glyphs_text_empty [of xs] by auto
  qed
  obtain h where h: "WriteHelper_create r (cs_columnBegin st) (cs_columnLimit st) (glyphs_text avail) = Some h" "wh_chars h = glyphs_text avail"
    "wh_colBeg h = b" "wh_colLimit h = lim"
    "wh_colEnd h = wh_colBeg h" "wh_chBegDirty h = length (glyphs_text (upto_col (wh_colBeg h) gs))"
    "wh_leadingSpaces h = wh_colBeg h - cols (upto_col (wh_colBeg h) gs)" "wh_charsConsumed h = 0"
    "wh_colBeg h \<le> wh_colLimit h \<Longrightarrow>
      writing r gs h (row_charOffsets r) (wh_chBeg h) (upto_col (wh_colBeg h) gs @ blanks (wh_leadingSpaces h)) (wh_colBeg h)"
    using start_write [OF row, of "cs_columnBegin st" "cs_columnLimit st" "glyphs_text avail"] b lim by metis
  have wr: "writing r gs h (row_charOffsets r) (wh_chBeg h) (upto_col b gs @ blanks (wh_leadingSpaces h)) (wh_colBeg h)"
    using h(3,4,9) lim(2) by simp
  have "list_all glyph_ok avail" using sl(2) upto_facts(3) [OF okB, of "sl - sb"] W(6) lss by simp
  then have valid: "IsValid h" using h(2,3,4) lim(2) glyphs_text_empty [of avail] sl(3) by (simp add: IsValid_def)
  obtain offs' h' where cp: "wh_CopyTextFrom offs h r = Some (h', r\<lparr>row_charOffsets := offs'\<rparr>)"
    "h' = h\<lparr>wh_colEnd := b + cols copied, wh_colEndDirty := b + n, wh_charsConsumed := length (glyphs_text copied)\<rparr>"
    and "ready r gs h' offs' ((upto_col b gs @ blanks (wh_leadingSpaces h)) @ copied @
      blanks (cols gs - cols (from_col (b + n) gs) - (b + cols copied)) @ from_col (b + n) gs)"
    using copy_ready [OF w wr h(5) _ h(8,6), of n copied] h(2,3,4) sl(2) n copied by auto
  then have rd: "ready r gs h' offs' new" using new h(3,7) by (simp add: splice_def)
  have pre: "load sb (sl - sb + 1) (row_charOffsets src) = Some offs" "length offs = sl - sb + 1" "\<not> length offs < 2"
    using W(5) lss src \<open>sb < sl\<close> by (simp_all add: load_def offs_def row_is_def length_tail_layout)
  let ?cont = "\<lambda>result. Some (case result of Inl e \<Rightarrow> (Some e, st, ROW_Reset TextAttribute_default (r\<lparr>row_charOffsets := offs'\<rparr>))
      | Inr (h, r) \<Rightarrow> (None, st\<lparr>cs_columnEnd := (if wh_charsConsumed h = length (glyphs_text avail) then wh_colEnd h else wh_colLimit h),
          cs_columnBeginDirty := wh_colBegDirty h, cs_columnEndDirty := wh_colEndDirty h,
          cs_sourceColumnEnd := sb + wh_colEnd h - wh_colBeg h\<rparr>, r))"
  have eq: "ROW_CopyTextFrom hp src st r = Finish hp h' (r\<lparr>row_charOffsets := offs'\<rparr>) \<bind> ?cont"
    using pre C h(1) valid cp(1) \<open>sb < sl\<close> by (simp add: ROW_CopyTextFrom_def Let_def flip: sb(1) sl(1))
  from rd small show ?thesis
  proof (cases rule: finish_ready [where hp = hp and a = TextAttribute_default])
    case refused
    then show ?thesis using eq by simp
  next
    case (completed r')
    then show ?thesis using eq cp(2) h(3,4) av by simp
  qed
qed

end
