(* ===== verification/RowLaws.thy ===== *)
theory RowLaws
  imports RowCopy
begin

text \<open>
  Reading a row: the glyph at a column, moving from glyph to glyph, and the way from a character back to its column. What a
  write puts into the row is what is read, and the glyphs beside it are read as before.
\<close>

subsection \<open>Glyphs\<close>

fun glyph_at :: "glyph list \<Rightarrow> nat \<Rightarrow> wstring option" where
  "glyph_at [] c = None"
| "glyph_at (g # gs) c = (if c < snd g then Some (fst g) else glyph_at gs (c - snd g))"

lemma glyph_at_append: "glyph_at (xs @ ys) c = (if c < cols xs then glyph_at xs c else glyph_at ys (c - cols xs))"
  by (induction xs arbitrary: c) auto

lemma clamped_column:
  assumes "row_is r gs" and "c < cols gs"
  shows "clampedColumn r (int c) = c"
proof -
  have "int (row_columnCount r) = int (cols gs)" "cols gs < 0x8000" using assms(1) by (auto simp: row_is_def)
  then show ?thesis using assms(2) by (simp add: clampedColumn_def clamp_def)
qed

lemma clamped_column_inclusive:
  assumes "row_is r gs" and "c \<le> cols gs"
  shows "clampedColumnInclusive r (int c) = c"
  using clamped_inclusive(1) [OF assms(1), of "int c"] assms(2) by (simp add: clamp_def)

text \<open>The columns of one glyph.\<close>

lemma glyph_columns:
  assumes row: "row_is r (pre @ (t, w) # post)" and c: "cols pre \<le> c" "c < cols pre + w"
  shows "upto_col c (pre @ (t, w) # post) = pre" "adjustForward r (Suc c) = Some (cols pre + w)"
    "upto_col (cols pre + w) (pre @ (t, w) # post) = pre @ [(t, w)]"
proof -
  have ok: "list_all glyph_ok pre" "glyph_ok (t, w)" "list_all glyph_ok post" using row_is_ok [OF row] by simp_all
  have "c = cols pre + 0 \<or> c = cols pre + 1 \<and> w = 2" using c ok(2) by (auto simp: glyph_ok_def)
  then show "upto_col c (pre @ (t, w) # post) = pre"
    using upto_append [of pre 0 "(t, w) # post"] upto_append [of pre 1 "(t, w) # post"] ok(2) by (auto simp: glyph_ok_def)
  have row': "row_is r ((pre @ [(t, w)]) @ post)" using row by simp
  show "upto_col (cols pre + w) (pre @ (t, w) # post) = pre @ [(t, w)]"
    using upto_from(1) [of "pre @ [(t, w)]" post] ok by simp
  have "adjustForward r (cols pre + w) = Some (cols pre + w)" using column_start(4) [OF row'] by simp
  moreover have "adjustForward r (Suc (cols pre)) = Some (cols pre + 2)" if "w = 2"
    using column_inside(4) [of r pre t post] row that by simp
  moreover have "Suc c = cols pre + w \<or> w = 2 \<and> Suc c = Suc (cols pre)" using c ok(2) by (auto simp: glyph_ok_def)
  ultimately show "adjustForward r (Suc c) = Some (cols pre + w)" by auto
qed

lemma glyph_read:
  assumes row: "row_is r (pre @ (t, w) # post)" and c: "cols pre \<le> c" "c < cols pre + w"
  shows "GlyphAt r (int c) = Some t"
proof -
  let ?gs = "pre @ (t, w) # post"
  note G = glyph_columns [OF row c]
  have in_row: "c < cols ?gs" "c \<le> cols ?gs" "cols pre + w \<le> cols ?gs" using c by simp_all
  have "GlyphAt r (int c) = row_load r (length (glyphs_text pre)) (length (glyphs_text (pre @ [(t, w)])))"
    using clamped_column [OF row in_row(1)] column_facts(2) [OF row in_row(2)] G column_facts(2) [OF row in_row(3)]
    by (simp add: GlyphAt_def)
  also have "\<dots> = Some t" using layout_upto(2,3) [OF row in_row(3)] G(3) by (simp add: row_load_def)
  finally show ?thesis .
qed

lemma previous_start:
  assumes row: "row_is r (pre @ (t, w) # post)" and c: "cols pre \<le> c" "c < cols pre + w"
  shows "NavigateToPrevious r (int c) = Some (if c = cols pre then cols (butlast pre) else cols pre)"
proof (cases c)
  case 0
  then have "clampedColumn r (int c - 1) = 0" using row by (simp add: clampedColumn_def clamp_def row_is_def)
  moreover have "pre = []" using c(1) 0 row_is_ok [OF row] by (cases pre) (auto simp: glyph_ok_def)
  ultimately show ?thesis using column_facts(1) [OF row, of c] glyph_columns(1) [OF row c] 0 by (simp add: NavigateToPrevious_def)
next
  case (Suc d)
  let ?gs = "pre @ (t, w) # post"
  have d: "int c - 1 = int d" "d < cols ?gs" "d \<le> cols ?gs" using c Suc by simp_all
  have "NavigateToPrevious r (int c) = Some (cols (upto_col d ?gs))"
    using clamped_column [OF row d(2)] column_facts(1) [OF row d(3)] d(1) by (simp add: NavigateToPrevious_def)
  moreover have "upto_col d ?gs = (if c = cols pre then butlast pre else pre)"
  proof (cases "c = cols pre")
    case True
    then obtain xs g where p: "pre = xs @ [g]" using Suc by (cases pre rule: rev_cases) auto
    then have "row_is r (xs @ (fst g, snd g) # (t, w) # post)" "cols xs \<le> d" "d < cols xs + snd g"
      using row True Suc row_is_ok [OF row] by (auto simp: glyph_ok_def)
    from glyph_columns(1) [OF this] p True show ?thesis by simp
  next
    case False
    then show ?thesis using glyph_columns(1) [OF row, of d] c Suc by simp
  qed
  ultimately show ?thesis by simp
qed

text \<open>C36: At each column of a glyph, the leading and the trailing one, the glyph is found as a whole, its start, the next glyph
  and the previous one are found, and the kind of the column is told apart; none of the searches leaves the row.\<close>

theorem glyph_found:
  assumes row: "row_is r (pre @ (t, w) # post)" and c: "cols pre \<le> c" "c < cols pre + w"
  shows "GlyphAt r (int c) = Some t \<and> AdjustToGlyphStart r (int c) = Some (cols pre) \<and>
    NavigateToNext r (int c) = Some (cols pre + w) \<and>
    NavigateToPrevious r (int c) = Some (if c = cols pre then cols (butlast pre) else cols pre) \<and>
    DbcsAttrAt r (int c) = Some (if w = 1 then Dbcs_Single else if c = cols pre then Dbcs_Leading else Dbcs_Trailing)"
proof (intro conjI glyph_read [OF assms] previous_start [OF assms])
  let ?gs = "pre @ (t, w) # post"
  have w: "w = 1 \<or> w = 2" using row_is_ok [OF row] by (auto simp: glyph_ok_def)
  have in_row: "c < cols ?gs" "c \<le> cols ?gs" "Suc c \<le> cols ?gs" using c by simp_all
  note G = glyph_columns [OF row c] and C = clamped_column [OF row in_row(1)] and F = column_facts [OF row in_row(2)]
  show "AdjustToGlyphStart r (int c) = Some (cols pre)" using C F(1) G(1) by (simp add: AdjustToGlyphStart_def)
  show "NavigateToNext r (int c) = Some (cols pre + w)"
    using clamped_column_inclusive [OF row in_row(3)] G(2) by (simp add: NavigateToNext_def add.commute)
  have "uncheckedIsTrailer r (Suc c) = Some (w = 2)" if "c = cols pre"
    using that w column_inside(2) [of r pre t post] column_start(2) [of r "pre @ [(t, w)]" post] row by auto
  then show "DbcsAttrAt r (int c) = Some (if w = 1 then Dbcs_Single else if c = cols pre then Dbcs_Leading else Dbcs_Trailing)"
    using C F(4) G(1) c w by (cases "c = cols pre") (auto simp: DbcsAttrAt_def)
qed

lemma create_is_blank: "n < 0x8000 \<Longrightarrow> row_is (ROW_create n a) (blanks n)"
  unfolding ROW_create_def
  by (rule subst [of "row_columnCount _" n "\<lambda>n. row_is _ (blanks n)", OF _ init_is_blank]) simp_all

lemma blanks_none: "blanks 0 = []" by (simp add: blanks_def)

lemma blanks_three: "blanks 3 = [([UNICODE_SPACE], 1), ([UNICODE_SPACE], 1), ([UNICODE_SPACE], 1)]"
  by (simp add: blanks_def numeral_3_eq_3)

theorem glyph_found_witness:
  "GlyphAt (ROW_create 3 TextAttribute_default) 1 = Some [UNICODE_SPACE] \<and>
   NavigateToPrevious (ROW_create 3 TextAttribute_default) 1 = Some 0 \<and> NavigateToNext (ROW_create 3 TextAttribute_default) 1 = Some 2"
proof -
  have "row_is (ROW_create 3 TextAttribute_default) ([([UNICODE_SPACE], 1)] @ ([UNICODE_SPACE], 1) # [([UNICODE_SPACE], 1)])"
    using create_is_blank [of 3] by (simp add: blanks_three)
  from glyph_found [OF this, of 1] show ?thesis by simp
qed

subsection \<open>Reading what was written\<close>

lemma glyph_at_split:
  "c < cols gs \<Longrightarrow> \<exists>pre t w post. gs = pre @ (t, w) # post \<and> cols pre \<le> c \<and> c < cols pre + w \<and> glyph_at gs c = Some t"
proof (induction gs arbitrary: c)
  case (Cons g gs)
  show ?case
  proof (cases "c < snd g")
    case True
    then show ?thesis by (intro exI [of _ "[]"] exI [of _ "fst g"] exI [of _ "snd g"] exI [of _ gs]) simp
  next
    case False
    with Cons.prems have "c - snd g < cols gs" by simp
    from Cons.IH [OF this] obtain pre t w post where "gs = pre @ (t, w) # post" "cols pre \<le> c - snd g" "c - snd g < cols pre + w"
      "glyph_at gs (c - snd g) = Some t" by blast
    then show ?thesis using False by (intro exI [of _ "g # pre"] exI [of _ t] exI [of _ w] exI [of _ post]) auto
  qed
qed simp

lemma read_glyph_at: "row_is r gs \<Longrightarrow> c < cols gs \<Longrightarrow> GlyphAt r (int c) = glyph_at gs c"
  using glyph_at_split [of c gs] glyph_read by force

lemma splice_reads:
  assumes ok: "list_all glyph_ok gs" and b: "b + cols new \<le> e" "e \<le> cols gs"
  shows "b \<le> c \<Longrightarrow> c < b + cols new \<Longrightarrow> glyph_at (splice b new e gs) c = glyph_at new (c - b)"
    "c < cols (upto_col b gs) \<Longrightarrow> glyph_at (splice b new e gs) c = glyph_at gs c"
    "cols gs - cols (from_col e gs) \<le> c \<Longrightarrow> glyph_at (splice b new e gs) c = glyph_at gs c" "cols (splice b new e gs) = cols gs"
proof -
  have bb: "b \<le> cols gs" using b by simp
  have f: "cols (upto_col b gs @ blanks (b - cols (upto_col b gs))) = b" using upto_facts(1) [OF ok bb] by simp
  show "b \<le> c \<Longrightarrow> c < b + cols new \<Longrightarrow> glyph_at (splice b new e gs) c = glyph_at new (c - b)"
    using upto_facts(1) [OF ok bb] by (auto simp: splice_def glyph_at_append)
  obtain rest where g: "gs = upto_col b gs @ rest" using upto_from_split [OF ok bb] by blast
  show "c < cols (upto_col b gs) \<Longrightarrow> glyph_at (splice b new e gs) c = glyph_at gs c"
    using glyph_at_append [of "upto_col b gs" rest c] by (simp add: splice_def glyph_at_append flip: g)
  obtain pre where p: "gs = pre @ from_col e gs" "cols pre = cols gs - cols (from_col e gs)" "e \<le> cols pre" using behind_split [OF ok b(2)] .
  let ?front = "upto_col b gs @ blanks (b - cols (upto_col b gs)) @ new @ blanks (cols gs - cols (from_col e gs) - (b + cols new))"
  have s: "splice b new e gs = ?front @ from_col e gs" by (simp add: splice_def)
  have fc: "cols ?front = cols pre" using f b(1) p(2,3) by simp
  show "cols gs - cols (from_col e gs) \<le> c \<Longrightarrow> glyph_at (splice b new e gs) c = glyph_at gs c"
    using glyph_at_append [of pre "from_col e gs" c] unfolding s glyph_at_append [of ?front] fc by (simp add: p(2) flip: p(1))
  show "cols (splice b new e gs) = cols gs" unfolding s using fc arg_cong [OF p(1), of cols] by simp
qed


lemma glyph_at_blanks: "c < n \<Longrightarrow> glyph_at (blanks n) c = Some [UNICODE_SPACE]"
  by (induction n arbitrary: c) (auto simp: blanks_def)

lemma splice_at:
  assumes ok: "list_all glyph_ok gs" and w: "w = 1 \<or> w = 2" "b + w \<le> cols gs" and c: "c < cols gs"
  shows "glyph_at (splice b [(t, w)] (b + w) gs) c =
    (if b \<le> c \<and> c < b + w then Some t
     else if c < cols (upto_col b gs) \<or> cols gs - cols (from_col (b + w) gs) \<le> c then glyph_at gs c
     else Some [UNICODE_SPACE])"
proof -
  have b: "b + cols [(t, w)] \<le> b + w" by simp
  note R = splice_reads(1-3) [OF ok b w(2), of c] and u = upto_facts(1) [OF ok, of b]
  consider "b \<le> c" "c < b + w" | "c < cols (upto_col b gs)" | "cols gs - cols (from_col (b + w) gs) \<le> c"
    | "cols (upto_col b gs) \<le> c" "c < b" | "b + w \<le> c" "c < cols gs - cols (from_col (b + w) gs)" by linarith
  then show ?thesis
  proof cases
    case 3
    have "b + w \<le> cols gs - cols (from_col (b + w) gs)" using from_bound [OF ok w(2)] by simp
    then show ?thesis using 3 R(3) by simp
  next
    case 4
    then have "\<not> cols gs - cols (from_col (b + w) gs) \<le> c" "c - cols (upto_col b gs) < b - cols (upto_col b gs)"
      using from_bound [OF ok w(2)] by (simp_all add: diff_less_mono)
    then show ?thesis using 4 by (simp add: splice_def glyph_at_append glyph_at_blanks)
  next
    case 5
    then have "\<not> c < cols (upto_col b gs)" using u w(2) by simp
    then show ?thesis using 5 u w by (auto simp: splice_def glyph_at_append glyph_at_blanks)
  qed (use R u w in auto)
qed

text \<open>C10: Characters written at a column that leaves room for them are the glyph that is read there, at the leading and at the
  trailing column; the glyphs in front of the write and behind it are read as before, and columns in which a wide glyph was cut are
  blank. If memory cannot be had the row is blank.\<close>

theorem written_read:
  assumes row: "row_is r gs" and w: "w = 1 \<or> w = 2" "column + w \<le> cols gs" and chars: "chars \<noteq> []"
    and new: "new = splice column [(chars, w)] (column + w) gs" and small: "length (glyphs_text new) < 0x8000"
  shows "\<exists>e r'. ReplaceCharacters hp (int column) (int w) chars r = Some (e, r') \<and> row_written hp r gs new e r' \<and>
    (e = None \<longrightarrow> (\<forall>c < cols gs. GlyphAt r' (int c) =
      (if column \<le> c \<and> c < column + w then Some chars
       else if c < cols (upto_col column gs) \<or> cols gs - cols (from_col (column + w) gs) \<le> c then GlyphAt r (int c)
       else Some [UNICODE_SPACE])))"
proof -
  have "new = splice (nat (int column)) (if int column + int w \<le> int (cols gs) then [(chars, nat (int w))] else [])
      (min (nat (int column + int w)) (cols gs)) gs" using w new by (simp add: nat_add_distrib)
  then obtain e r' where r': "ReplaceCharacters hp (int column) (int w) chars r = Some (e, r')" "row_written hp r gs new e r'"
    using characters_replaced [OF row _ _ _ chars _ small, of "int column" "int w" hp] w by auto
  have "GlyphAt r' (int c) = (if column \<le> c \<and> c < column + w then Some chars
      else if c < cols (upto_col column gs) \<or> cols gs - cols (from_col (column + w) gs) \<le> c then GlyphAt r (int c)
      else Some [UNICODE_SPACE])" if "e = None" "c < cols gs" for c
  proof -
    have wr: "row_is r' new" using r'(2) that(1) by (simp add: row_written_def)
    have rd: "glyph_at new c = (if column \<le> c \<and> c < column + w then Some chars
      else if c < cols (upto_col column gs) \<or> cols gs - cols (from_col (column + w) gs) \<le> c then glyph_at gs c
      else Some [UNICODE_SPACE])"
      unfolding new by (rule splice_at) (use row_is_ok [OF row] w that(2) in auto)
    have "cols new = cols gs" unfolding new by (rule splice_reads(4)) (use row_is_ok [OF row] w in auto)
    then show ?thesis using read_glyph_at [OF wr, of c] read_glyph_at [OF row, of c] rd that(2) by simp
  qed
  then show ?thesis using r' by blast
qed


theorem written_read_witness:
  "\<exists>r'. ReplaceCharacters \<lparr>heap_grants = \<lambda>_. True, heap_content = \<lambda>_. 0\<rparr> 1 2 [0x4E00] (ROW_create 3 TextAttribute_default) = Some (None, r') \<and>
    row_is r' [([UNICODE_SPACE], 1), ([0x4E00], 2)] \<and> GlyphAt r' 2 = Some [0x4E00]"
proof -
  let ?hp = "\<lparr>heap_grants = \<lambda>_. True, heap_content = \<lambda>_. 0\<rparr>" and ?r = "ROW_create 3 TextAttribute_default"
  have row: "row_is ?r (blanks 3)" using create_is_blank by simp
  have new: "[([UNICODE_SPACE], 1), ([0x4E00 :: wchar], 2)] = splice 1 [([0x4E00], 2)] (1 + 2) (blanks 3)"
    by (simp add: splice_def blanks_three blanks_none)
  have p: "(2 :: nat) = 1 \<or> (2 :: nat) = 2" "1 + 2 \<le> cols (blanks 3)" "[0x4E00 :: wchar] \<noteq> []"
    "length (glyphs_text [([UNICODE_SPACE], 1), ([0x4E00 :: wchar], 2)]) < 0x8000" by simp_all
  from written_read [OF row p(1-3) new p(4), of ?hp] obtain e r' where w: "ReplaceCharacters ?hp (int 1) (int 2) [0x4E00] ?r = Some (e, r')"
    "row_written ?hp ?r (blanks 3) [([UNICODE_SPACE], 1), ([0x4E00], 2)] e r'"
    "e = None \<longrightarrow> (\<forall>c < cols (blanks 3). GlyphAt r' (int c) = (if 1 \<le> c \<and> c < 1 + 2 then Some [0x4E00]
       else if c < cols (upto_col 1 (blanks 3)) \<or> cols (blanks 3) - cols (from_col (1 + 2) (blanks 3)) \<le> c then GlyphAt ?r (int c)
       else Some [UNICODE_SPACE]))" by blast
  have e: "e = None" using w(2) by (cases e) (auto simp: row_written_def)
  have "GlyphAt r' (int 2) = Some [0x4E00]" using spec [OF mp [OF w(3) e], of 2] by simp
  then show ?thesis using w(1,2) e by (auto simp: row_written_def)
qed

subsection \<open>From characters to columns\<close>

text \<open>The offsets of a row: a column that starts a glyph has the offset of its text, one inside of it is larger than any offset.\<close>

lemma offset_at_column:
  assumes row: "row_is r gs" and c: "c \<le> cols gs"
  shows "uint (row_charOffsets r ! c AND CharOffsetsMask) = int (length (glyphs_text (upto_col c gs)))"
    "uint (row_charOffsets r ! c) = int (length (glyphs_text (upto_col c gs))) + (if cols (upto_col c gs) = c then 0 else 0x8000)"
proof -
  have l: "c < length (row_charOffsets r)" using assms by (simp add: row_is_def length_tail_layout)
  have "unat (row_charOffsets r ! c AND CharOffsetsMask) = length (glyphs_text (upto_col c gs))"
    using column_facts(2) [OF assms] l by (simp add: uncheckedCharOffset_def deref_def)
  from arg_cong [OF this, of int]
  show "uint (row_charOffsets r ! c AND CharOffsetsMask) = int (length (glyphs_text (upto_col c gs)))" by simp
  show "uint (row_charOffsets r ! c) = int (length (glyphs_text (upto_col c gs))) + (if cols (upto_col c gs) = c then 0 else 0x8000)"
    using row c
  proof (cases rule: column_cases)
    case (start xs ys)
    then have "row_charOffsets r ! c = of_nat (length (glyphs_text xs))" "length (glyphs_text xs) < 0x8000"
      using offsets_at [of r xs ys] row_is_parts [of r xs ys] row by (auto simp: deref_def split: if_splits)
    then show ?thesis using start arg_cong [OF offset_word(1), of _ int] by simp
  next
    case (inside xs t ys)
    let ?n = "length (glyphs_text xs)"
    have o: "row_charOffsets r ! c = of_nat ?n OR CharOffsetsTrailer" "?n < 0x8000"
      using offsets_inside [of r xs t ys] row_is_parts [of r xs "(t, 2) # ys"] row inside by (auto simp: deref_def split: if_splits)
    then have "row_charOffsets r ! c = of_nat (?n + 0x8000)" using trailer_word [OF o(2)] by (simp add: CharOffsetsTrailer_def)
    moreover have "int (unat (of_nat (?n + 0x8000) :: u16)) = int (?n + 0x8000)"
      using o(2) by (simp add: unat_of_nat take_bit_nat_eq_self del: of_nat_add of_nat_unat)
    ultimately show ?thesis using inside by simp
  qed
qed

lemma search_forward_stops:
  assumes "e < length offs" "col \<le> e" "target \<le> uint (offs ! e AND CharOffsetsMask)"
  shows "\<exists>c. search_forward offs target col = Some c \<and> c \<le> e \<and> target \<le> uint (offs ! c AND CharOffsetsMask)"
  using assms(2)
proof (induction "e - col" arbitrary: col)
  case 0
  then show ?case using assms(1,3) by (subst search_forward.simps) auto
next
  case (Suc n)
  then show ?case using assms(1) Suc(1) [of "Suc col"] by (subst search_forward.simps) (auto simp: not_less)
qed

lemma search_backward_stops:
  "k \<le> c \<Longrightarrow> uint (offs ! k) \<le> target \<Longrightarrow> (\<And>i. k < i \<Longrightarrow> i \<le> c \<Longrightarrow> target < uint (offs ! i)) \<Longrightarrow>
   search_backward offs target c = Some k"
proof (induction c)
  case (Suc c)
  then show ?case by (cases "k = Suc c") auto
qed simp

lemma upto_length_mono:
  "c \<le> c' \<Longrightarrow> length (glyphs_text (upto_col c gs)) \<le> length (glyphs_text (upto_col c' gs))"
  using upto_mono [of c c' gs] by auto

text \<open>The search ends at the start of the glyph the character belongs to, wherever it begins.\<close>

lemma leading_column:
  assumes row: "row_is r gs" and m: "cm_charOffsets m = row_charOffsets r" "cm_charsLength m = int (length (glyphs_text gs))"
      "cm_currentColumn m \<le> cols gs"
    and k: "k \<le> cols gs" "cols (upto_col k gs) = k" "int (length (glyphs_text (upto_col k gs))) \<le> target"
      "target \<le> int (length (glyphs_text gs))"
    and below: "\<And>c. c < k \<Longrightarrow> length (glyphs_text (upto_col c gs)) < length (glyphs_text (upto_col k gs))"
    and above: "\<And>c. k < c \<Longrightarrow> c \<le> cols gs \<Longrightarrow> cols (upto_col c gs) = c \<Longrightarrow> target < int (length (glyphs_text (upto_col c gs)))"
  shows "GetLeadingColumnAt target m = Some (k, m\<lparr>cm_currentColumn := k\<rparr>)"
proof -
  let ?offs = "row_charOffsets r"
  have cl: "clamp target 0 (cm_charsLength m) = target" using k(3,4) m(2) by (simp add: clamp_def)
  have "cols gs < length ?offs" using row by (simp add: row_is_def length_tail_layout)
  moreover have "upto_col (cols gs) gs = gs" using upto_from(1) [of gs "[]"] row_is_ok [OF row] by simp
  then have "target \<le> uint (?offs ! cols gs AND CharOffsetsMask)" using offset_at_column(1) [OF row order_refl] k(4) by simp
  ultimately obtain c where c: "search_forward ?offs target (cm_currentColumn m) = Some c" "c \<le> cols gs"
    "target \<le> uint (?offs ! c AND CharOffsetsMask)" using search_forward_stops m(3) by blast
  have "k \<le> c"
  proof (rule ccontr)
    assume "\<not> k \<le> c"
    then have "length (glyphs_text (upto_col c gs)) < length (glyphs_text (upto_col k gs))" using below by simp
    then show False using offset_at_column(1) [OF row c(2)] c(3) k(3) by simp
  qed
  moreover have "uint (?offs ! k) \<le> target" using offset_at_column(2) [OF row k(1)] k(2,3) by simp
  moreover have "target < uint (?offs ! i)" if "k < i" "i \<le> c" for i
  proof (cases "cols (upto_col i gs) = i")
    case True
    then show ?thesis using above [OF that(1) _ True] offset_at_column(2) [OF row, of i] that(2) c(2) by simp
  next
    case False
    then show ?thesis using offset_at_column(2) [OF row, of i] that(2) c(2) k(4) row by (simp add: row_is_def)
  qed
  ultimately have "search_backward ?offs target c = Some k" by (rule search_backward_stops)
  then show ?thesis using c(1) m(1) cl by (simp add: GetLeadingColumnAt_def Let_def)
qed


lemma upto_glyph:
  assumes row: "row_is r (pre @ (t, w) # post)"
  shows "upto_col (cols pre) (pre @ (t, w) # post) = pre"
    "c < cols pre \<Longrightarrow> length (glyphs_text (upto_col c (pre @ (t, w) # post))) < length (glyphs_text pre)"
    "cols pre < c \<Longrightarrow> cols (upto_col c (pre @ (t, w) # post)) = c \<Longrightarrow>
      length (glyphs_text pre) + length t \<le> length (glyphs_text (upto_col c (pre @ (t, w) # post)))"
proof -
  let ?gs = "pre @ (t, w) # post"
  have ok: "list_all glyph_ok pre" "list_all glyph_ok ((t, w) # post)" using row_is_ok [OF row] by simp_all
  show u: "upto_col (cols pre) ?gs = pre" using upto_from(1) [OF ok] .
  show "length (glyphs_text (upto_col c ?gs)) < length (glyphs_text pre)" if c: "c < cols pre"
  proof -
    obtain xs where x: "pre = upto_col c ?gs @ xs" using upto_mono [OF less_imp_le [OF c], of ?gs] u by auto
    have "xs \<noteq> []" using x c upto_facts(1) [OF row_is_ok [OF row], of c] by auto
    moreover have "list_all glyph_ok xs" using ok(1) x by (metis list_all_append)
    ultimately have "glyphs_text xs \<noteq> []" using glyphs_text_empty [of xs] by simp
    then show ?thesis using arg_cong [OF x, of "\<lambda>g. length (glyphs_text g)"] by simp
  qed
  show "length (glyphs_text pre) + length t \<le> length (glyphs_text (upto_col c ?gs))" if c: "cols pre < c" "cols (upto_col c ?gs) = c"
  proof -
    have up: "upto_col c ?gs = pre @ upto_col (c - cols pre) ((t, w) # post)" using upto_append [of pre "c - cols pre" "(t, w) # post"] c(1) by simp
    show ?thesis using c unfolding up by (simp split: if_splits)
  qed
qed

lemma trailing_column:
  assumes row: "row_is r (pre @ (t, w) # post)"
  shows "skip_trailers (row_charOffsets r) (cols pre) = Some (cols pre + w - 1)"
proof -
  let ?offs = "row_charOffsets r"
  have w: "w = 1 \<or> w = 2" using row_is_ok [OF row] by (auto simp: glyph_ok_def)
  have l: "cols pre + w < length ?offs" using row by (simp add: row_is_def length_tail_layout)
  have e: "?offs ! (cols pre + w) AND CharOffsetsTrailer = 0"
    using column_start(2) [of r "pre @ [(t, w)]" post] row l by (simp add: uncheckedIsTrailer_def deref_def)
  have i: "?offs ! Suc (cols pre) AND CharOffsetsTrailer \<noteq> 0" if "w = 2"
    using column_inside(2) [of r pre t post] row that l by (simp add: uncheckedIsTrailer_def deref_def)
  show ?thesis
  proof (cases "w = 1")
    case True
    then show ?thesis using e l by (subst skip_trailers.simps) simp
  next
    case False
    then have "w = 2" using w by simp
    then show ?thesis using e i l by (subst skip_trailers.simps, simp, subst skip_trailers.simps) simp
  qed
qed

text \<open>C37: The columns of a character are found again from its offset in the text, whatever hint the search starts from: the
  leading one is where its glyph begins, the trailing one where it ends. Neither search leaves the arrays of the row.\<close>

theorem column_of_offset:
  assumes row: "row_is r (pre @ (t, w) # post)" and off: "length (glyphs_text pre) \<le> off" "off < length (glyphs_text pre) + length t"
  shows "\<exists>m. createCharToColumnMapper r hint = Some m \<and>
    GetLeadingColumnAt (int off) m = Some (cols pre, m\<lparr>cm_currentColumn := cols pre\<rparr>) \<and>
    GetTrailingColumnAt (int off) m = Some (cols pre + w - 1, m\<lparr>cm_currentColumn := cols pre\<rparr>)"
proof -
  let ?gs = "pre @ (t, w) # post"
  let ?m = "\<lparr>cm_charOffsets = row_charOffsets r, cm_charsLength = int (length (glyphs_text ?gs)),
     cm_currentColumn = nat (clamp hint 0 (int (row_columnCount r))), cm_columnCount = row_columnCount r\<rparr>"
  have w: "w = 1 \<or> w = 2" using row_is_ok [OF row] by (auto simp: glyph_ok_def)
  have cc: "row_columnCount r = cols ?gs" using row by (simp add: row_is_def)
  have "deref (row_charOffsets r) (cols ?gs) = Some (of_nat (length (glyphs_text ?gs)))" using offsets_at [of r ?gs "[]"] row by simp
  moreover have "length (glyphs_text ?gs) < 0x8000" using row by (simp only: row_is_def)
  ultimately have "charSize r = Some (length (glyphs_text ?gs))" unfolding charSize_def cc using offset_word(1) by (simp del: of_nat_add glyphs_simps)
  then have create: "createCharToColumnMapper r hint = Some ?m" by (simp add: createCharToColumnMapper_def)
  have lead: "GetLeadingColumnAt (int off) ?m = Some (cols pre, ?m\<lparr>cm_currentColumn := cols pre\<rparr>)"
  proof (rule leading_column [OF row])
    show "cm_currentColumn ?m \<le> cols ?gs" using cc by (auto simp: clamp_def)
    show "int off < int (length (glyphs_text (upto_col c ?gs)))" if "cols pre < c" "cols (upto_col c ?gs) = c" for c
      using upto_glyph(3) [OF row that] off(2) by simp
  qed (use upto_glyph(1,2) [OF row] off in simp_all)
  moreover have "GetTrailingColumnAt (int off) ?m = Some (cols pre + w - 1, ?m\<lparr>cm_currentColumn := cols pre\<rparr>)"
    using lead trailing_column [OF row] cc w by (auto simp: GetTrailingColumnAt_def)
  ultimately show ?thesis using create by blast
qed

theorem column_of_offset_witness:
  "\<exists>m. createCharToColumnMapper (ROW_create 3 TextAttribute_default) 9 = Some m \<and>
    GetLeadingColumnAt 1 m = Some (1, m\<lparr>cm_currentColumn := 1\<rparr>)"
proof -
  have "row_is (ROW_create 3 TextAttribute_default) ([([UNICODE_SPACE], 1)] @ ([UNICODE_SPACE], 1) # [([UNICODE_SPACE], 1)])"
    using create_is_blank [of 3] by (simp add: blanks_three)
  from column_of_offset [OF this, of 1 9] show ?thesis by auto
qed


subsection \<open>Instances of the laws of writing\<close>

text \<open>A letter with a combining accent and an ideograph, which fill a row of three columns exactly.\<close>

lemma example_text_glyphs:
  "text_glyphs CodepointWidthDetector_init (blanks 3) 0 3 [0x65, 0x301, 0x732B] = (0, [([0x65, 0x301], 1), ([0x732B], 2)])"
proof -
  have "GraphemeState_init\<lparr>gs_beg := 0\<rparr> = GraphemeState_init" by (simp add: GraphemeState_init_def)
  then have "glyphs_from CodepointWidthDetector_init [0x65, 0x301, 0x732B] 0 = [([0x65, 0x301], 1), ([0x732B], 2)]"
    using example_clusters by (simp add: glyphs_from_def cluster_glyphs_def numeral_3_eq_3 numeral_2_eq_2)
  then show ?thesis by (simp add: text_glyphs_def blanks_def numeral_3_eq_3 Let_def)
qed

text \<open>A combining accent written on the second half of a wide glyph: the glyph becomes a space, but the accent is still
  measured as if it followed the wide glyph, and the space with the accent takes two columns.\<close>

lemma wide_joins: "ucdGraphemeJoins 0 128 2 = 0"
  by (simp add: ucdGraphemeJoins_def s_joinRules_def)

lemma cut_glyph_still_measured:
  "text_glyphs CodepointWidthDetector_init [([0x732B], 2), ([UNICODE_SPACE], 1)] 1 3 [0x301] =
     (0, [([UNICODE_SPACE, 0x301], 2)])"
proof -
  let ?s = "\<lparr>gs_beg = 0, gs_len = 1, gs_width = 2, gs_state = - 1, gs_last = 128\<rparr>"
  have "GraphemeNext GraphemeState_init [0x732B] CodepointWidthDetector_init = (False, ?s, CodepointWidthDetector_init)"
    "GraphemeNext (next_string ?s) [0x301] CodepointWidthDetector_init =
      (False, \<lparr>gs_beg = 0, gs_len = 1, gs_width = 2, gs_state = - 1, gs_last = 2\<rparr>, CodepointWidthDetector_init)"
    by (simp_all add: GraphemeState_init_def CodepointWidthDetector_init_def next_string_def GraphemeNext_def
        graphemeNext_def utf16NextOrFFFD_def graphemeNext_loop.simps lookup_examples wide_joins ucdGraphemeDone_def
        cluster_width_def plain_width_def ucdToCharacterWidth_def drop_bit_eq_div)
  then show ?thesis
    by (simp add: text_glyphs_def joined_glyphs_def in_front_def glyphs_from_def cluster_glyphs_def Let_def)
qed

theorem text_replaced_witness:
  "\<exists>st' r' d'. ReplaceText \<lparr>heap_grants = \<lambda>_. True, heap_content = \<lambda>_. 0\<rparr>
      \<lparr>ws_text = [0x65, 0x301, 0x732B], ws_columnBegin = 0, ws_columnLimit = 3, ws_columnEnd = 0, ws_columnBeginDirty = 0, ws_columnEndDirty = 0\<rparr>
      (ROW_create 3 TextAttribute_default) CodepointWidthDetector_init = Some (None, st', r', d') \<and>
    row_is r' [([0x65, 0x301], 1), ([0x732B], 2)] \<and> ws_text st' = [] \<and> ws_columnEnd st' = 3"
proof -
  let ?hp = "\<lparr>heap_grants = \<lambda>_. True, heap_content = \<lambda>_. 0\<rparr>" and ?r = "ROW_create 3 TextAttribute_default"
  let ?str = "[0x65, 0x301, 0x732B] :: wstring" and ?new = "[([0x65, 0x301], 1), ([0x732B], 2)] :: glyph list"
  let ?st = "\<lparr>ws_text = ?str, ws_columnBegin = 0, ws_columnLimit = 3, ws_columnEnd = 0, ws_columnBeginDirty = 0, ws_columnEndDirty = 0\<rparr>"
  have row: "row_is ?r (blanks 3)" using create_is_blank by simp
  have c: "0 = clampedColumnInclusive ?r (ws_columnBegin ?st)" "3 = clampedColumnInclusive ?r (ws_columnLimit ?st)"
    using clamped_inclusive(1) [OF row, of 0] clamped_inclusive(1) [OF row, of 3] by (simp_all add: clamp_def)
  have p: "ws_text ?st \<noteq> []" "(0 :: nat) < 3" "length (glyphs_text (blanks 3)) + cols (blanks 3) + length (ws_text ?st) < 0x7FFF"
    "text_glyphs CodepointWidthDetector_init (blanks 3) 0 3 (ws_text ?st) = (0, ?new)" using example_text_glyphs by simp_all
  from text_replaced [OF row default_ok p(1) c p(2-4), of ?hp] obtain e st' r' d' n dirty where
    w: "ReplaceText ?hp ?st ?r CodepointWidthDetector_init = Some (e, st', r', d')"
    "row_written ?hp ?r (blanks 3) (upto_col 0 (blanks 3) @ ?new @ blanks (dirty - (0 + cols ?new)) @ from_col dirty (blanks 3)) e r'"
    and n: "n \<le> length (ws_text ?st)" "glyphs_text (upto_col 0 (blanks 3) @ ?new) = glyphs_text (upto_col 0 (blanks 3)) @
      replicate (0 - cols (upto_col 0 (blanks 3))) UNICODE_SPACE @ take n (ws_text ?st)"
    and dirty: "dirty = cols (blanks 3) - cols (from_col (if n = length (ws_text ?st) then 0 + cols ?new else 3) (blanks 3))"
    and st': "e = None \<longrightarrow> st' = ?st\<lparr>ws_text := drop n (ws_text ?st),
       ws_columnEnd := (if n = length (ws_text ?st) then 0 + cols ?new else 3), ws_columnBeginDirty := 0, ws_columnEndDirty := dirty\<rparr>"
    by blast
  have e: "e = None" using w(2) by (cases e) (auto simp: row_written_def)
  have u: "upto_col 0 (blanks 3) = []" "from_col 3 (blanks 3) = []" by (simp_all add: blanks_three)
  have "length (glyphs_text ?new) = length (take n ?str)" using arg_cong [OF n(2), of length] u(1) by simp
  then have n3: "n = 3" using n(1) by simp
  then have "dirty = 3" using dirty u by (simp add: blanks_three)
  then show ?thesis using w e u n3 st' by (auto simp: row_written_def blanks_def)
qed

theorem text_copied_witness:
  "\<exists>st' r'. ROW_CopyTextFrom \<lparr>heap_grants = \<lambda>_. True, heap_content = \<lambda>_. 0\<rparr>
      ((ROW_create 3 TextAttribute_default)\<lparr>row_chars := [0x41, 0x4E00], row_charOffsets := [0, 1, 0x8001, 2]\<rparr>)
      \<lparr>cs_columnBegin = 0, cs_columnLimit = 9, cs_sourceColumnBegin = 0, cs_sourceColumnLimit = 9, cs_columnEnd = 0,
        cs_columnBeginDirty = 0, cs_columnEndDirty = 0, cs_sourceColumnEnd = 0\<rparr> (ROW_create 2 TextAttribute_default) = Some (None, st', r') \<and>
    row_is r' [([0x41], 1), ([UNICODE_SPACE], 1)] \<and> cs_columnEnd st' = 2 \<and> cs_sourceColumnEnd st' = 1"
proof -
  let ?hp = "\<lparr>heap_grants = \<lambda>_. True, heap_content = \<lambda>_. 0\<rparr>" and ?r = "ROW_create 2 TextAttribute_default"
  let ?src = "(ROW_create 3 TextAttribute_default)\<lparr>row_chars := [0x41, 0x4E00], row_charOffsets := [0, 1, 0x8001, 2]\<rparr>"
  let ?st = "\<lparr>cs_columnBegin = 0, cs_columnLimit = 9, cs_sourceColumnBegin = 0, cs_sourceColumnLimit = 9, cs_columnEnd = 0,
        cs_columnBeginDirty = 0, cs_columnEndDirty = 0, cs_sourceColumnEnd = 0\<rparr>"
  let ?ss = "[([0x41], 1), ([0x4E00], 2)] :: glyph list" and ?new = "[([0x41], 1), ([UNICODE_SPACE], 1)] :: glyph list"
  have row: "row_is ?r (blanks 2)" using create_is_blank by simp
  have src: "row_is ?src ?ss"
    by (simp add: row_is_def glyph_ok_def tail_layout_def glyph_offsets_def CharOffsetsTrailer_def ROW_create_def ROW_init_def)
  have c: "0 = clampedColumnInclusive ?r (cs_columnBegin ?st)" "2 = clampedColumnInclusive ?r (cs_columnLimit ?st)"
    "0 = clampedColumnInclusive ?src (cs_sourceColumnBegin ?st)" "3 = clampedColumnInclusive ?src (cs_sourceColumnLimit ?st)"
    using clamped_inclusive(1) [OF row, of 0] clamped_inclusive(1) [OF row, of 9] clamped_inclusive(1) [OF src, of 0]
      clamped_inclusive(1) [OF src, of 9] by (simp_all add: clamp_def)
  have g: "cols (upto_col 0 ?ss) = 0" "?ss = upto_col (3 - 0) (from_col 0 ?ss)" "?ss \<noteq> []" "2 = min (2 - 0) (3 - 0 :: nat)"
    "[([0x41], 1)] = upto_col 2 (from_col 0 ?ss)" "length (glyphs_text ?new) < 0x8000" "(0 :: nat) < 2" by simp_all
  have new: "?new = splice 0 [([0x41], 1)] (0 + 2) (blanks 2)" by (simp add: splice_def blanks_def numeral_2_eq_2)
  from text_copied [OF row src c(1,2) g(7) c(3) g(1) c(4) g(2,3,4,5) new g(6), of ?hp] obtain e st' r' where
    w: "ROW_CopyTextFrom ?hp ?src ?st ?r = Some (e, st', r')" "row_written ?hp ?r (blanks 2) ?new e r'"
    "e = None \<longrightarrow> cs_columnEnd st' = (if [([0x41], 1)] = ?ss then 0 + cols [([0x41 :: wchar], 1)] else 2) \<and>
      cs_sourceColumnEnd st' = 0 + cols [([0x41 :: wchar], 1)]" by blast
  have "e = None" using w(2) by (cases e) (auto simp: row_written_def)
  then show ?thesis using w by (simp add: row_written_def)
qed

end
