(* ===== verification/RowInit.thy ===== *)
theory RowInit
  imports RowLayout
begin

text \<open>
  The initialisation of a row with vector instructions: the stores of 16 and of 32 bytes stay inside of the
  buffers, which are as large as \<^verbatim>\<open>CalculateCharsBufferSize\<close> and \<^verbatim>\<open>CalculateCharOffsetsBufferSize\<close> say, and
  leave the same row as the plain loops.
\<close>

lemma iota_append: "iota_n (a + b) v = iota_n a v @ iota_n b (v + of_nat a)"
  by (rule nth_equalityI) (auto simp: iota_n_def nth_append)

lemma iota_take: "p \<le> q \<Longrightarrow> take p (iota_n q v) = iota_n p v"
  by (simp add: iota_n_def take_map)

lemma iota_length [simp]: "length (iota_n n v) = n"
  by (simp add: iota_n_def)

lemma iota_shift: "map (\<lambda>x. x + d) (iota_n n v) = iota_n n (v + d)"
  by (simp add: iota_n_def)

text \<open>Both buffers are filled up to an element.\<close>

definition filled :: "nat \<Rightarrow> nat \<Rightarrow> wstring \<Rightarrow> u16 list \<Rightarrow> bool" where
  "filled size_n p chars offs \<longleftrightarrow>
     length chars = size_n \<and> length offs = size_n \<and> take p chars = replicate p UNICODE_SPACE \<and> take p offs = iota_n p 0"

lemma filled_store:
  assumes "filled n q chars offs" and "p \<le> q" "q \<le> p + k" "p + k \<le> n"
  obtains chars' offs' where "store p (replicate k 0x20) chars = Some chars'" "store p (iota_n k (of_nat p)) offs = Some offs'"
    "filled n (p + k) chars' offs'"
proof
  have f: "length chars = n" "length offs = n" "take q chars = replicate q UNICODE_SPACE" "take q offs = iota_n q 0"
    using assms(1) by (simp_all add: filled_def)
  have t: "take p chars = replicate p UNICODE_SPACE" "take p offs = iota_n p 0"
    using arg_cong [OF f(3), of "take p"] arg_cong [OF f(4), of "take p"] assms(2) by (simp_all add: iota_take)
  show "store p (replicate k 0x20) chars = Some (replicate (p + k) UNICODE_SPACE @ drop (p + k) chars)"
    using t f assms(4) by (simp add: store_def UNICODE_SPACE_def replicate_add)
  show "store p (iota_n k (of_nat p)) offs = Some (iota_n (p + k) 0 @ drop (p + k) offs)"
    using t f assms(4) by (simp add: store_def iota_append)
  show "filled n (p + k) (replicate (p + k) UNICODE_SPACE @ drop (p + k) chars) (iota_n (p + k) 0 @ drop (p + k) offs)"
    using t f assms(4) by (simp add: filled_def)
qed

lemma filled_all: "filled n n chars offs \<longleftrightarrow> chars = replicate n UNICODE_SPACE \<and> offs = iota_n n 0"
  by (auto simp: filled_def)

subsection \<open>Stores of 16 bytes\<close>

lemma sse2_loop_ok:
  "filled (8 * (n div 8) + 8) (8 * k) chars offs \<Longrightarrow> 8 * k \<le> n \<Longrightarrow>
   init_sse2_loop n (8 * k) (iota_n 8 (of_nat (8 * k))) chars offs =
     Some (replicate (8 * (n div 8) + 8) UNICODE_SPACE, iota_n (8 * (n div 8) + 8) 0)"
proof (induction "n - 8 * k" arbitrary: k chars offs rule: less_induct)
  case less
  have fit: "8 * k + 8 \<le> 8 * (n div 8) + 8" using less.prems(2) by simp
  from less.prems(1) order_refl _ fit obtain chars' offs' where s: "store (8 * k) (replicate 8 0x20) chars = Some chars'"
    "store (8 * k) (iota_n 8 (of_nat (8 * k))) offs = Some offs'" "filled (8 * (n div 8) + 8) (8 * k + 8) chars' offs'"
    by (rule filled_store) simp_all
  show ?case
  proof (cases "8 * k + 8 \<le> n")
    case True
    then have "n - 8 * Suc k < n - 8 * k" by simp
    from less.hyps [OF this] s(3) True
    have "init_sse2_loop n (8 * Suc k) (iota_n 8 (of_nat (8 * Suc k))) chars' offs' =
        Some (replicate (8 * (n div 8) + 8) UNICODE_SPACE, iota_n (8 * (n div 8) + 8) 0)" by (simp add: add.commute)
    moreover have "map (\<lambda>x. x + 8) (iota_n 8 (of_nat (8 * k))) = (iota_n 8 (of_nat (8 * Suc k)) :: u16 list)"
      by (simp add: iota_shift algebra_simps)
    ultimately show ?thesis using s(1,2) True by (subst init_sse2_loop.simps) (simp add: add.commute)
  next
    case False
    then have "8 * k + 8 = 8 * (n div 8) + 8" using less.prems(2) by presburger
    then show ?thesis using s False by (subst init_sse2_loop.simps) (simp add: filled_all)
  qed
qed

subsection \<open>Stores of 32 bytes\<close>

lemma avx2_loop_ok:
  "filled (8 * t + 16) (16 * k) chars offs \<Longrightarrow> 16 * k \<le> 8 * t + 8 \<Longrightarrow>
   \<exists>chars' offs' q. init_avx2_loop (8 * t) (16 * k) (iota_n 16 (of_nat (16 * k))) chars offs = Some (chars', offs') \<and>
     filled (8 * t + 16) q chars' offs' \<and> 8 * t \<le> q \<and> q \<le> 8 * t + 8"
proof (induction "8 * t - 16 * k" arbitrary: k chars offs rule: less_induct)
  case less
  show ?case
  proof (cases "16 * k < 8 * t")
    case True
    then have fit: "16 * k + 16 \<le> 8 * t + 16" "16 * Suc k \<le> 8 * t + 8" by presburger+
    from less.prems(1) order_refl _ fit(1) obtain chars' offs' where s: "store (16 * k) (replicate 16 0x20) chars = Some chars'"
      "store (16 * k) (iota_n 16 (of_nat (16 * k))) offs = Some offs'" "filled (8 * t + 16) (16 * k + 16) chars' offs'"
      by (rule filled_store) simp_all
    have "8 * t - 16 * Suc k < 8 * t - 16 * k" using True by simp
    from less.hyps [OF this _ fit(2), of chars' offs'] s(3)
    have "\<exists>chars'' offs'' q. init_avx2_loop (8 * t) (16 * Suc k) (iota_n 16 (of_nat (16 * Suc k))) chars' offs' = Some (chars'', offs'') \<and>
      filled (8 * t + 16) q chars'' offs'' \<and> 8 * t \<le> q \<and> q \<le> 8 * t + 8" by (simp add: add.commute)
    moreover have "map (\<lambda>x. x + 16) (iota_n 16 (of_nat (16 * k))) = (iota_n 16 (of_nat (16 * Suc k)) :: u16 list)"
      by (simp add: iota_shift algebra_simps)
    ultimately show ?thesis using s(1,2) True by (subst init_avx2_loop.simps) (simp add: add.commute)
  next
    case False
    then show ?thesis using less.prems by (subst init_avx2_loop.simps) auto
  qed
qed

lemma small_iota: "iota_n 8 0 = ([0, 1, 2, 3, 4, 5, 6, 7] :: u16 list)"
  "iota_n 16 0 = ([0, 1, 2, 3, 4, 5, 6, 7, 8, 9, 10, 11, 12, 13, 14, 15] :: u16 list)"
  by (simp_all add: iota_n_def upt_rec)

lemma avx2_ok:
  assumes "15 \<le> n" "n < 0x10000" and f: "filled (8 * (n div 8) + 8) 0 chars offs"
  shows "init_avx2 n chars offs = Some (replicate (8 * (n div 8) + 8) UNICODE_SPACE, iota_n (8 * (n div 8) + 8) 0)"
proof -
  define t where "t = (n - 8) div 8"
  have "n div 8 = Suc t" using assms(1) le_div_geq [of 8 n] by (simp add: t_def)
  moreover have "(n - 8) div 8 * 8 \<le> n" using div_times_less_eq_dividend [of "n - 8" 8] by linarith
  ultimately have t: "narrow_u16 ((n - 8) div 8 * 8) = 8 * t" "8 * (n div 8) + 8 = 8 * t + 16"
    using assms(2) by (simp_all add: narrow_u16_def t_def)
  let ?i = "[0, 1, 2, 3, 4, 5, 6, 7, 8, 9, 10, 11, 12, 13, 14, 15] :: u16 list"
  from avx2_loop_ok [of t 0 chars offs] f t(2) obtain chars' offs' q where
    l: "init_avx2_loop (8 * t) 0 ?i chars offs = Some (chars', offs')" "filled (8 * t + 16) q chars' offs'" "8 * t \<le> q" "q \<le> 8 * t + 8"
    by (auto simp: small_iota)
  from l(2,3) obtain chars'' offs'' where "store (8 * t) (replicate 16 0x20) chars' = Some chars''"
    "store (8 * t) (iota_n 16 (of_nat (8 * t))) offs' = Some offs''" "filled (8 * t + 16) (8 * t + 16) chars'' offs''"
    by (rule filled_store [where k = 16]) (use l(4) in simp_all)
  moreover have "map (\<lambda>x. x + of_nat (8 * t)) ?i = iota_n 16 (of_nat (8 * t))"
    using iota_shift [of "of_nat (8 * t)" 16 0] by (simp only: small_iota add_0)
  ultimately show ?thesis using l(1) unfolding init_avx2_def Let_def t(1,2) by (simp add: filled_all del: list.map)
qed

text \<open>C38: The vectorised initialisation of a row, with stores of 16 or of 32 bytes, never writes outside of the buffers that
  the text buffer reserves for the row, whatever the width, and leaves the whitespace and the successive offsets of the plain loops.\<close>

theorem vector_initialisation:
  assumes size: "length chars = CalculateCharsBufferSize (row_columnCount r) div 2"
      "length offs = CalculateCharOffsetsBufferSize (row_columnCount r) div 2" and n: "row_columnCount r < 0x10000"
  shows "\<exists>chars' offs'. init_sse2 (row_columnCount r) chars offs = Some (chars', offs') \<and>
    (15 \<le> row_columnCount r \<longrightarrow> init_avx2 (row_columnCount r) chars offs = Some (chars', offs')) \<and>
    row_chars (ROW_init r) = take (row_columnCount r) chars' \<and> row_charOffsets (ROW_init r) = take (row_columnCount r + 1) offs'"
proof -
  let ?n = "row_columnCount r"
  let ?m = "8 * (?n div 8) + 8"
  have "(?n * 2 + 16) div 16 * 16 div 2 = ?m" by presburger
  then have f: "filled ?m 0 chars offs" using size by (simp add: filled_def CalculateCharsBufferSize_def CalculateCharOffsetsBufferSize_def iota_n_def)
  have "init_sse2 ?n chars offs = Some (replicate ?m UNICODE_SPACE, iota_n ?m 0)"
    using sse2_loop_ok [of ?n 0 chars offs] f by (simp add: init_sse2_def small_iota)
  moreover have "15 \<le> ?n \<longrightarrow> init_avx2 ?n chars offs = Some (replicate ?m UNICODE_SPACE, iota_n ?m 0)" using avx2_ok f n by blast
  moreover have m: "?n + 1 \<le> ?m" by presburger
  then have "take (?n + 1) (iota_n ?m 0) = iota_n (?n + 1) 0" by (rule iota_take)
  ultimately show ?thesis using m by (simp add: ROW_init_def)
qed

theorem vector_initialisation_witness:
  "\<exists>chars' offs'. init_avx2 20 (replicate 24 0xCDCD) (replicate 24 0xCDCD) = Some (chars', offs') \<and> take 20 chars' = replicate 20 UNICODE_SPACE"
  using vector_initialisation [of "replicate 24 0xCDCD" "ROW_create 20 TextAttribute_default" "replicate 24 0xCDCD"]
  by (auto simp: CalculateCharsBufferSize_def CalculateCharOffsetsBufferSize_def ROW_create_def ROW_init_def)

end
