(* ===== verification/RowFaults.thy ===== *)
theory RowFaults
  imports RowCopy RleRefinement
begin

text \<open>
  The attributes of a row, which refine those of its columns, and a limit of the representation: offsets are 15 bits
  wide, but the text of a row may grow to \<^verbatim>\<open>UINT16_MAX\<close> characters.
\<close>

subsection \<open>Attributes\<close>

lemma clamped_any: "row_columnCount r < 0x10000 \<Longrightarrow> clampedColumnInclusive r v \<le> row_columnCount r"
  by (auto simp: clampedColumnInclusive_def clamp_def)

lemma word_of_column: "c < 0x10000 \<Longrightarrow> unat (of_nat c :: u16) = c"
  by (simp add: unat_of_nat take_bit_nat_eq_self)

lemma attr_read:
  assumes "rle_ok (row_attr r)" "length (rle_list (row_attr r)) = row_columnCount r" "row_columnCount r < 0x10000" "c < row_columnCount r"
  shows "GetAttrByColumn r (int c) = Some (rle_list (row_attr r) ! c)"
proof -
  have "clampedColumn r (int c) = c" using assms(3,4) by (simp add: clampedColumn_def clamp_def)
  then show ?thesis using assms at_refines [OF assms(1), of "of_nat c"] word_of_column [of c] by (simp add: GetAttrByColumn_def)
qed

text \<open>C39: Replacing the attributes of a range of columns gives exactly these columns the new attribute and leaves the others, the text
  and everything else of the row as they are, with runs that still cover the row; only a range that ends before it starts is refused.\<close>

theorem attributes_replaced:
  assumes ok: "rle_ok (row_attr r)" and len: "length (rle_list (row_attr r)) = row_columnCount r" and n: "row_columnCount r < 0x10000"
    and b: "b = clampedColumnInclusive r beginIndex" and e: "e = clampedColumnInclusive r endIndex"
  shows "case ReplaceAttributes beginIndex endIndex a r of
      Inl fault \<Rightarrow> fault = Out_of_range \<and> e < b
    | Inr r' \<Rightarrow> b \<le> e \<and> r' = r\<lparr>row_attr := row_attr r'\<rparr> \<and> rle_ok (row_attr r') \<and>
        length (rle_list (row_attr r')) = row_columnCount r' \<and>
        (\<forall>c < row_columnCount r. GetAttrByColumn r' (int c) = (if b \<le> c \<and> c < e then Some a else GetAttrByColumn r (int c)))"
proof -
  have be: "b \<le> row_columnCount r" "e \<le> row_columnCount r" using clamped_any [OF n] b e by simp_all
  then have u: "unat (of_nat b :: u16) = b" "unat (of_nat e :: u16) = e" using n by (simp_all add: word_of_column)
  let ?reps = "[\<lparr>rle_value = a, rle_length = of_nat e - of_nat b\<rparr>] :: (TextAttribute, 16) run list"
  have t: "\<not> of_nat e > rle_total_length (row_attr r)" using ok len be(2) u(2) by (simp add: rle_ok_def word_less_nat_alt)
  have eq: "rle_replace_value TextAttribute_default (of_nat b) (of_nat e) a (row_attr r) =
      rle_replace TextAttribute_default (of_nat b) (of_nat e) ?reps (row_attr r)"
    using t by (simp add: rle_replace_value_def rle_replace_def check_indices_def Let_def)
  show ?thesis
  proof (cases "b \<le> e")
    case False
    then have "(of_nat e :: u16) < of_nat b" using u by (simp add: word_less_nat_alt)
    then have "rle_replace TextAttribute_default (of_nat b) (of_nat e) ?reps (row_attr r) = Inl Out_of_range"
      using t by (simp add: rle_replace_def check_indices_def)
    then show ?thesis using False eq b e by (simp add: ReplaceAttributes_def)
  next
    case True
    have x: "expand ?reps = replicate (e - b) a" using True u by (simp add: expand_def run_list_def unat_sub word_le_nat_alt)
    have "unat (of_nat b :: u16) + length (expand ?reps) + (length (rle_list (row_attr r)) - unat (of_nat e :: u16)) < 2 ^ LENGTH(16)"
      using True be n u len unfolding x by simp
    from replace_refines [OF ok this, of TextAttribute_default] obtain m where
      m: "rle_replace TextAttribute_default (of_nat b) (of_nat e) ?reps (row_attr r) = Inr m" "rle_ok m"
      "rle_list m = take b (rle_list (row_attr r)) @ replicate (e - b) a @ drop e (rle_list (row_attr r))"
      using True be len u unfolding x by (auto split: sum.splits)
    let ?r = "r\<lparr>row_attr := m\<rparr>"
    have l: "length (rle_list m) = row_columnCount r" using m(3) len be True by simp
    have "GetAttrByColumn ?r (int c) = (if b \<le> c \<and> c < e then Some a else GetAttrByColumn r (int c))" if "c < row_columnCount r" for c
      using attr_read [of ?r c] attr_read [of r c] m(2,3) l ok len n that True be by (auto simp: nth_append)
    then show ?thesis using True m(1,2) l eq b e by (simp add: ReplaceAttributes_def)
  qed
qed

theorem attributes_replaced_witness:
  "\<exists>r'. ReplaceAttributes 1 9 (TextAttribute_default\<lparr>ta_hyperlinkId := 7\<rparr>) (ROW_create 3 TextAttribute_default) = Inr r' \<and>
    GetAttrByColumn r' 0 = Some TextAttribute_default \<and> GetAttrByColumn r' 2 = Some (TextAttribute_default\<lparr>ta_hyperlinkId := 7\<rparr>)"
proof -
  let ?r = "ROW_create 3 TextAttribute_default" and ?a = "TextAttribute_default\<lparr>ta_hyperlinkId := 7\<rparr>"
  have f: "rle_ok (row_attr ?r)" "rle_list (row_attr ?r) = replicate 3 TextAttribute_default" "row_columnCount ?r = 3"
    using fill_refines [of "3 :: u16" TextAttribute_default] by (simp_all add: ROW_create_def ROW_init_def)
  have c: "1 = clampedColumnInclusive ?r 1" "3 = clampedColumnInclusive ?r 9" by (simp_all add: clampedColumnInclusive_def clamp_def f(3))
  have "length (rle_list (row_attr ?r)) = row_columnCount ?r" "row_columnCount ?r < 0x10000" using f by simp_all
  from attributes_replaced [OF f(1) this c, of ?a] obtain r' where r': "ReplaceAttributes 1 9 ?a ?r = Inr r'"
    "\<forall>c < 3. GetAttrByColumn r' (int c) = (if 1 \<le> c \<and> c < 3 then Some ?a else GetAttrByColumn ?r (int c))"
    using f(3) by (auto split: sum.splits)
  moreover have "GetAttrByColumn ?r (int 0) = Some TextAttribute_default" using attr_read [of ?r 0] f by simp
  ultimately show ?thesis using spec [OF r'(2), of 0] spec [OF r'(2), of 2] by simp
qed


subsection \<open>Long text\<close>

lemma long_offset:
  assumes "0x8000 \<le> n" "n < 0x10000"
  shows "(of_nat n :: u16) AND CharOffsetsTrailer \<noteq> 0"
proof -
  have m: "n - 0x8000 < 0x8000" using assms by simp
  have "(of_nat n :: u16) = of_nat (n - 0x8000) OR CharOffsetsTrailer"
    using trailer_word [OF m] assms(1) by (simp add: CharOffsetsTrailer_def of_nat_diff)
  then show ?thesis using offset_word(5) [OF m] by simp
qed

lemma small_row: "ROW_create 2 a = \<lparr>row_chars = [0x20, 0x20], row_charOffsets = [0, 1, 2], row_attr = rle_fill 2 a, row_columnCount = 2,
    row_lineRendition = SingleWidth, row_wrapForced = False, row_doubleBytePadded = False, row_promptData = None\<rparr>"
  by (simp add: ROW_create_def ROW_init_def iota_n_def UNICODE_SPACE_def numeral_2_eq_2 upt_rec)

lemma long_helper:
  assumes "chars \<noteq> []"
  shows "ReplaceCharacters hp 0 1 chars (ROW_create 2 a) =
    Finish hp \<lparr>wh_chars = chars, wh_colBeg = 0, wh_colLimit = 2, wh_colEnd = 1, wh_colBegDirty = 0, wh_colEndDirty = 1, wh_chBeg = 0,
      wh_chBegDirty = 0, wh_leadingSpaces = 0, wh_charsConsumed = length chars\<rparr> (ROW_create 2 a) \<bind>
    (\<lambda>result. Some (case result of Inl e \<Rightarrow> (Some e, ROW_Reset TextAttribute_default (ROW_create 2 a)) | Inr (h, r) \<Rightarrow> (None, r)))"
  unfolding small_row using assms
  by (simp add: ReplaceCharacters_def WriteHelper_create_def clampedColumnInclusive_def clamp_def uncheckedCharOffset_def
      uncheckedIsTrailer_def deref_def IsValid_def wh_ReplaceCharacters_def put_glyph_def put_trailers.simps set_offset_def store_def
      narrow_u16_def Let_def)

lemma long_resize:
  assumes "2 < n" "n < 0xFFFF" "heap_grants hp (Suc n)"
  shows "resizeChars hp 1 0 n 1 (ROW_create 2 a) = Some (Inr ((ROW_create 2 a)
    \<lparr>row_chars := map (heap_content hp) [0..<n] @ [0x20], row_charOffsets := [0, of_nat n, of_nat (Suc n)]\<rparr>))"
  using assms
  by (simp add: resizeChars_def small_row charSize_def deref_def Let_def UINT16_MAX_def load_def store_def max_def)

text \<open>C40: The text of one cell that is 0x8000 characters or more is accepted, but the offsets behind it then look like those of the
  trailing half of a wide glyph, the one that marks the end of the row included, and reading the glyph leaves the array of the offsets.\<close>

theorem long_cell_leaves_row:
  assumes "0x8000 \<le> length chars" "length chars < 0xFFFF" and "heap_grants hp (Suc (length chars))"
  shows "\<exists>r'. ReplaceCharacters hp 0 1 chars (ROW_create 2 a) = Some (None, r') \<and> length (row_charOffsets r') = Suc (row_columnCount r') \<and>
    uncheckedIsTrailer r' (row_columnCount r') = Some True \<and> GlyphAt r' 0 = None"
proof -
  let ?n = "length chars" and ?r = "ROW_create 2 a"
  let ?h = "\<lparr>wh_chars = chars, wh_colBeg = 0, wh_colLimit = 2, wh_colEnd = 1, wh_colBegDirty = 0, wh_colEndDirty = 1, wh_chBeg = 0,
      wh_chBegDirty = 0, wh_leadingSpaces = 0, wh_charsConsumed = ?n\<rparr>"
  let ?r' = "?r\<lparr>row_chars := chars @ [0x20], row_charOffsets := [0, of_nat ?n, of_nat (Suc ?n)]\<rparr>"
  have n: "2 < ?n" "?n \<noteq> 1" "chars \<noteq> []" using assms(1) by auto
  have "adjustForward ?r 1 = Some 1" "uncheckedCharOffset ?r 1 = Some 1"
    by (simp_all add: adjustForward.simps small_row uncheckedIsTrailer_def uncheckedCharOffset_def deref_def CharOffsetsTrailer_def CharOffsetsMask_def)
  then have "Finish hp ?h ?r = Some (Inr (?h, ?r'))"
    using n long_resize [OF n(1) assms(2,3), of a]
    by (simp add: Finish_def Let_def fill_in_def load_def store_def small_row)
  then have "ReplaceCharacters hp 0 1 chars ?r = Some (None, ?r')" using long_helper [OF n(3)] by simp
  moreover have f: "(of_nat ?n :: u16) AND CharOffsetsTrailer \<noteq> 0" "(of_nat (Suc ?n) :: u16) AND CharOffsetsTrailer \<noteq> 0"
    using long_offset [of ?n] long_offset [of "Suc ?n"] assms(1,2) by simp_all
  then have "adjustForward ?r' 1 = None"
    by (subst adjustForward.simps, simp add: uncheckedIsTrailer_def deref_def, subst adjustForward.simps,
        simp add: uncheckedIsTrailer_def deref_def, subst adjustForward.simps, simp)
  then have "GlyphAt ?r' 0 = None"
    by (simp add: GlyphAt_def small_row clampedColumn_def clamp_def Let_def split: Option.bind_splits)
  ultimately show ?thesis using f by (intro exI [of _ ?r']) (simp add: small_row uncheckedIsTrailer_def deref_def)
qed

theorem long_cell_leaves_row_witness:
  "\<exists>r'. ReplaceCharacters \<lparr>heap_grants = \<lambda>_. True, heap_content = \<lambda>_. 0\<rparr> 0 1 (replicate 0x9000 0x301) (ROW_create 2 TextAttribute_default) =
    Some (None, r') \<and> GlyphAt r' 0 = None"
  using long_cell_leaves_row [of "replicate 0x9000 0x301" "\<lparr>heap_grants = \<lambda>_. True, heap_content = \<lambda>_. 0\<rparr>" TextAttribute_default] by auto

end
