(* ===== verification/Spec2Isabelle.thy ===== *)
theory Spec2Isabelle
  imports ParserReachability MacroLaws RenditionSequences SessionStream DocumentLaws CharsetSequences
    RleIterator CodepointClusters RowLaws RowInit RowFaults
begin

text \<open>
  A verification library for the VT7 terminal: the parser of terminal output, the engine behind it, the
  state its sequences change, and the documents of the native interface that feed it.

  \<^bold>\<open>The program.\<close> A session sends bytes. \<^verbatim>\<open>src/src/vt7/VT7.Native/surface.cpp\<close> takes them for a document,
  checks generation, producer and sequence number, and gives them to the stream of
  \<^verbatim>\<open>utf8_terminal_stream.hpp\<close>, which decodes UTF-8 with \<^verbatim>\<open>til::u8u16\<close> and writes UTF-16 to the terminal
  core. There \<^verbatim>\<open>StateMachine::ProcessString\<close> (\<^verbatim>\<open>src/src/terminal/parser/stateMachine.cpp\<close>) splits the text into
  printable runs, controls and sequences and calls an engine (\<^verbatim>\<open>IStateMachineEngine\<close>). The output engine
  (\<^verbatim>\<open>OutputStateMachineEngine.cpp\<close>) turns them into calls of \<^verbatim>\<open>ITermDispatch\<close>, which the adapter
  (\<^verbatim>\<open>src/src/terminal/adapter\<close>) carries out on the attributes, character sets, macros and the text buffer.
  Replies of the terminal go back through the document's reply queue.

  \<^bold>\<open>The theories\<close>, with the sources they model:
  \<^item> \<open>Prelude\<close>: types of machine integers and strings, collections of rewrite rules, generic lemmas.
  \<^item> \<open>CharClass\<close>: the character predicates of \<^verbatim>\<open>stateMachine.cpp\<close>, \<^verbatim>\<open>FindActionableControlCharacter\<close>.
  \<^item> \<open>DispatchTypes\<close>: \<^verbatim>\<open>VTID\<close>, \<^verbatim>\<open>VTIDBuilder\<close>, \<^verbatim>\<open>VTParameter\<close>, \<^verbatim>\<open>VTParameters\<close> of \<^verbatim>\<open>DispatchTypes.hpp\<close>.
  \<^item> \<open>StateMachine\<close>, \<open>StateEvents\<close>, \<open>ProcessString\<close>: the members of \<^verbatim>\<open>StateMachine\<close> as the record \<open>sm\<close>, one
    definition per \<^verbatim>\<open>_Action\<close>, \<^verbatim>\<open>_Enter\<close> and \<^verbatim>\<open>_Event\<close> function, and the loops over a string. The engine is
    the record of functions \<open>engine_ops\<close>; an engine call returns true, returns false or throws, and lists the
    requests it made of the state machine.
  \<^item> \<open>ParserFrame\<close>, \<open>ParserSafety\<close>, \<open>ParserPosition\<close>, \<open>ParserProgress\<close>, \<open>ParserTotality\<close>, \<open>ParserRoundtrip\<close>,
    \<open>ParserStream\<close>, \<open>ParserReachability\<close>: what engine calls leave alone; the well-formedness invariant; the
    position in the string; that the loops complete; that printed sequences are parsed back; that cutting a
    text does not matter; the states that can be reached. The locales \<open>parser_engine\<close> and \<open>stream_engine\<close> hold
    the laws an engine must keep.
  \<^item> \<open>Utils\<close>, \<open>Base64\<close>: the helpers of \<^verbatim>\<open>src/src/types/utils.cpp\<close>, \<^verbatim>\<open>til/string.h\<close> and \<^verbatim>\<open>base64.cpp\<close>.
  \<^item> \<open>ITermDispatch\<close>, \<open>OutputEngine\<close>: the interface, a call being a value, and every action of the output
    engine with its tables. \<open>OutputLaws\<close> interprets the parser's locales for it, \<open>OutputSequences\<close>,
    \<open>OutputCalls\<close> and \<open>EscapeSequences\<close> follow whole sequences from their text to the call.
  \<^item> \<open>MacroBuffer\<close>, \<open>MacroLaws\<close>: \<^verbatim>\<open>MacroBuffer.cpp\<close>.
  \<^item> \<open>TextColor\<close>, \<open>TextAttribute\<close>, \<open>SgrStack\<close>, \<open>GraphicsRendition\<close>, \<open>RenditionSequences\<close>:
    \<^verbatim>\<open>src/src/buffer/out/TextColor\<close> and \<^verbatim>\<open>TextAttribute\<close>, \<^verbatim>\<open>src/src/types/sgrStack.cpp\<close>,
    \<^verbatim>\<open>adaptDispatchGraphics.cpp\<close>, and SGR from the text of a sequence to the attributes.
  \<^item> \<open>Charsets\<close>, \<open>TerminalOutput\<close>, \<open>CharsetLaws\<close>, \<open>CharsetSequences\<close>: the tables of \<^verbatim>\<open>charsets.hpp\<close>, the
    translation of \<^verbatim>\<open>terminalOutput.cpp\<close>, and designations from the text of a sequence to what is printed.
  \<^item> \<open>Utf8Stream\<close>, \<open>SessionStream\<close>: \<^verbatim>\<open>u8u16convert.h\<close>, \<^verbatim>\<open>utf8_terminal_stream.hpp\<close> and their composition with
    the parser.
  \<^item> \<open>TerminalDocument\<close>, \<open>DocumentLaws\<close>: the documents, producers, replies and encoded input of \<^verbatim>\<open>surface.cpp\<close>.
  \<^item> \<open>Rle\<close>, \<open>RleLaws\<close>, \<open>RleRefinement\<close>, \<open>RleIterator\<close>: the run-length encoded vector of
    \<^verbatim>\<open>src/src/inc/til/rle.h\<close>, its operations as operations on the decoded list, its iterators as indices.
  \<^item> \<open>CodepointTables\<close>, \<open>CodepointWidth\<close>, \<open>CodepointLaws\<close>, \<open>CodepointClusters\<close>: the Unicode tables and the
    measuring of text of \<^verbatim>\<open>src/src/types/CodepointWidthDetector.cpp\<close>.
  \<^item> \<open>Row\<close>, \<open>RowWrite\<close>, \<open>RowRead\<close>: a row of \<^verbatim>\<open>src/src/buffer/out/Row.cpp\<close> as the record \<open>ROW\<close> with its characters,
    16-bit offsets and attributes, \<^verbatim>\<open>WriteHelper\<close> and the operations that write, copy, navigate and read.
  \<^item> \<open>RowLayout\<close>, \<open>RowFinish\<close>, \<open>RowReplace\<close>, \<open>RowText\<close>, \<open>RowCopy\<close>: the abstract row, a list of glyphs (\<open>row_is\<close>), and
    that the operations put glyphs into it. \<open>RowLaws\<close>: reading, and finding columns; \<open>RowInit\<close>: the vectorised
    initialisation; \<open>RowFaults\<close>: attributes, and text too long for the offsets.
  \<^bold>\<open>What is shown.\<close> Printed control sequences, commands, designations and text reach the terminal as they
  were printed (\<open>csi_end_to_end\<close>, \<open>osc_end_to_end\<close>, \<open>designated_text_end_to_end\<close>, \<open>clipboard_end_to_end\<close>); the
  parser completes on every string and stays within its bounds (\<open>process_string_completes\<close>, \<open>reachable_bounds\<close>);
  neither batching nor cutting the input, in bytes or in characters, changes the calls a terminal gets, up to how a text
  between two other calls is cut into prints (\<open>batching_equivalence\<close>,
  \<open>chunk_independence\<close>, \<open>session_split_anywhere\<close>); optimised routines agree with abstract specifications
  (\<open>sgr_stack_refines\<close>, \<open>printed_text\<close>, \<open>vector_refines_list\<close>, \<open>iterators_are_indices\<close>,
  \<open>text_replaced\<close>, \<open>text_copied\<close>, \<open>vector_initialisation\<close>); what is written
  into a row is what is read there and nothing beside it changes (\<open>written_read\<close>, \<open>attributes_replaced\<close>, \<open>glyph_found\<close>,
  \<open>column_of_offset\<close>); round trips for Base64, macros, renditions and legacy attributes;
  the reply queue is bounded, ordered and loses nothing silently; and the error branches, some of which are not
  what the comments say.

  \<^bold>\<open>Bounds and termination.\<close> All loops are total functions, by structural recursion or a measure, apart from
  the mutual recursion of \<^verbatim>\<open>FlushToTerminal\<close> and \<^verbatim>\<open>_SafeExecute\<close> and the invocation of macros, which may not
  return: they are \<open>partial_function (option)\<close>, \<open>None\<close> standing for not returning or for undefined behaviour
  (an index out of range). \<open>process_string_completes\<close> shows that this does not happen with the output engine. The
  loop over the clusters of a text is another one, and \<open>text_replaced\<close> shows that it completes.
  No fuel is used. Integers have the width of the source wherever they can wrap around.

  \<^bold>\<open>Parameters.\<close> Code that is not in the repository is an argument: the system's conversions between UTF-8 and
  UTF-16 (locale \<open>utf8_conversion\<close> states what is relied on; the reference decoder is an instance), the terminal
  core behind a document (\<open>terminal_ops\<close>), the environment of colour names (\<open>osc_env\<close>), the heap a row grows on (\<open>heap\<close>,
  which may refuse). The terminal
  behind the engine is any record of methods. How a printed text is cut may be visible to it, as it is to the shipped one (a surrogate
  pair cut in two, a combining mark printed alone after the last column), so that theorems on cutting see it through \<open>gather\<close> of
  \<open>OutputLaws\<close>, which takes the text between two other calls together. The theorems that follow a single sequence to its call
  ask with \<open>stream_terminal\<close> for a terminal where printing a text is printing its pieces.

  \<^bold>\<open>Not modelled.\<close> Rendering and windows (\<^verbatim>\<open>src/src/renderer\<close>, \<^verbatim>\<open>src/src/interactivity\<close>, the surfaces of
  \<^verbatim>\<open>surface.cpp\<close>, the C# host) are calls of Direct2D, Win32 and XAML; the console server and host
  (\<^verbatim>\<open>src/src/server\<close>, \<^verbatim>\<open>src/src/host\<close>), the property sheets, the text services and the settings of
  \<^verbatim>\<open>src/src/cascadia\<close> are glue to the operating system. Of the adapter, the methods that move the cursor
  or edit the text buffer, fonts, sixels and reports are left out, and so are the ring of rows of the text buffer, images in rows, selection,
  search and reflow. Telemetry, tracing and locks are left out of the modelled functions.
\<close>

section \<open>Sequences end to end\<close>

text \<open>C1: A control sequence, printed as \<^verbatim>\<open>ESC [\<close>, an optional private marker, parameters with
  sub-parameters, intermediates and a final character, and given to \<^verbatim>\<open>ProcessString\<close> of a machine
  between two sequences, calls the output engine exactly once, with the identifier spelled by the
  marker, the intermediates and the final character and with the parameters that were printed
  (values clamped to 65535, omitted ones marked); afterwards the machine is between two sequences
  again, also when the terminal throws. The terminal is any one for which printing a text is
  printing its pieces; the dispatch makes no request to the state machine.\<close>

theorem csi_end_to_end:
  assumes "stream_terminal D run" and "sm_ready s" and "marker_ok marker" and "args = [] \<or> args_fit args"
    and "list_all isIntermediate (wstr ins)" and "length (marker @ ins) \<le> 6" and "csi_final (of_char f)"
    and "OutputEngine_ActionCsiDispatch D (VTID (marker @ ins @ [f]))
      (args_parameters (map clamped_arg args)) (sm_engine s) = (e, [], r)"
  shows "engine_after (output_ops env D run) (csi_text marker args ins f) s e"
  using assms by (rule stream_terminal.csi_after)

theorem csi_end_to_end_witness:
  "engine_after (output_ops plain_env transcript no_callback)
     (csi_text [] [(VTParam 3, [])] [] (CHR ''b'')) typed_machine
     \<lparr>oe_dispatch = [0x41, 0x41, 0x41, 0x41], oe_lastPrintedChar = 0\<rparr>"
proof (rule csi_end_to_end [OF transcript_stream.stream_terminal_axioms typed_ready])
  show "OutputEngine_ActionCsiDispatch transcript (VTID ([] @ [] @ ''b''))
      (args_parameters (map clamped_arg [(VTParam 3, [])])) (sm_engine typed_machine) =
      (\<lparr>oe_dispatch = [0x41, 0x41, 0x41, 0x41], oe_lastPrintedChar = 0\<rparr>, [], Handled)"
    by (simp add: OutputEngine_ActionCsiDispatch_def args_parameters_def hasSubParams_def clamped_arg_def
        clamped_def has_value_def MAX_PARAMETER_VALUE_def typed_machine_def csi_calls_VTID id_key_def
        csi_code_defs num_param_def param_at_def to_VTInt_def dispatch_and_clear_def
        run_calls_transcript ClearLastChar_def numeral_3_eq_3 del: run_calls.simps)
qed (simp_all add: marker_ok_def args_fit_def arg_text_def param_text_def has_value_def
    decimal.simps csi_final_def MAX_PARAMETER_COUNT_def)

text \<open>C2: An operating system command, printed with its number, its text and either terminator, and
  given to \<^verbatim>\<open>ProcessString\<close>, calls the output engine exactly once, with the number (clamped to
  65535) and the text, and leaves the machine between two sequences.\<close>

theorem osc_end_to_end:
  assumes "stream_terminal D run" and "sm_ready s" and "list_all osc_char str"
    and "OutputEngine_ActionOscDispatch env D (min (int n) MAX_PARAMETER_VALUE) str (sm_engine s) = (e, [], r)"
  shows "engine_after (output_ops env D run) (osc_text n str term) s e"
  using assms by (rule stream_terminal.osc_after)

theorem osc_end_to_end_witness:
  "engine_after (output_ops plain_env transcript no_callback) (osc_text 2 (wstr ''hi'') StTerminator)
     start_machine \<lparr>oe_dispatch = [], oe_lastPrintedChar = 0\<rparr>"
proof (rule osc_end_to_end [OF transcript_stream.stream_terminal_axioms start_ready])
  show "OutputEngine_ActionOscDispatch plain_env transcript (min (int 2) MAX_PARAMETER_VALUE) (wstr ''hi'')
      (sm_engine start_machine) = (\<lparr>oe_dispatch = [], oe_lastPrintedChar = 0\<rparr>, [], Handled)"
    by (simp add: OutputEngine_ActionOscDispatch_def osc_calls_def MAX_PARAMETER_VALUE_def
        dispatch_and_clear_def transcript_def TermDispatch_def TermDispatch_call_def ClearLastChar_def
        start_machine_def StateMachine_init_def ActionClear_def SetParserMode_def
        OutputStateMachineEngine_init_def)
qed (simp add: osc_char_def char_class)

text \<open>C8: The clipboard sequence: a text encoded in Base64, in either alphabet, with or without
  padding, and sent as OSC 52 sets the clipboard to the decoded text.\<close>

theorem clipboard_end_to_end:
  assumes t: "stream_terminal D run" and s: "sm_ready s" and "env_u8u16 env bs = Some content"
    and "disp_call D (Strings (SetClipboard content)) (oe_dispatch (sm_engine s)) = (d, [], True)"
  shows "engine_after (output_ops env D run) (osc_text 52 (wstr ''c;'' @ encode url pad bs) term) s
    \<lparr>oe_dispatch = d, oe_lastPrintedChar = NUL\<rparr>"
proof (rule stream_terminal.osc_after [OF t s])
  show "list_all osc_char (wstr ''c;'' @ encode url pad bs)"
    using encode_osc by (simp add: osc_char_def char_class)
  show "OutputEngine_ActionOscDispatch env D (min (int 52) MAX_PARAMETER_VALUE) (wstr ''c;'' @ encode url pad bs)
      (sm_engine s) = (\<lparr>oe_dispatch = d, oe_lastPrintedChar = NUL\<rparr>, [], Handled)"
    using assms(3,4) decode_clipboard [of env url pad bs]
    by (cases "sm_engine s") (simp add: OutputEngine_ActionOscDispatch_def osc_calls_def MAX_PARAMETER_VALUE_def
        dispatch_and_clear_def ClearLastChar_def)
qed

theorem clipboard_end_to_end_witness:
  "engine_after (output_ops plain_env transcript no_callback)
     (osc_text 52 (wstr ''c;'' @ encode False True [0x68, 0x69]) BelTerminator) start_machine
     \<lparr>oe_dispatch = [], oe_lastPrintedChar = NUL\<rparr>"
  by (rule clipboard_end_to_end [OF transcript_stream.stream_terminal_axioms start_ready, where content = "wstr ''hi''"])
    (simp_all add: plain_env_def transcript_def TermDispatch_def TermDispatch_call_def start_machine_def
      StateMachine_init_def ActionClear_def SetParserMode_def OutputStateMachineEngine_init_def)

text \<open>REP after a printed character prints that many copies of it, and a second REP prints
  nothing, because any control sequence makes the engine forget the last character.\<close>

theorem repeat_character:
  assumes t: "stream_terminal D run" and s: "sm_ready s" and c: "\<not> isActionableFromGround c"
    and n: "1 \<le> n" "n \<le> 65535" and m: "1 \<le> m" "m \<le> 65535"
  shows "engine_after (output_ops env D run) ([c] @ rep_text n @ rep_text m) s
    \<lparr>oe_dispatch = fst (disp_call D (PrintString (replicate n c))
       (fst (disp_call D (PrintString [c]) (oe_dispatch (sm_engine s))))), oe_lastPrintedChar = NUL\<rparr>"
proof -
  let ?d = "fst (disp_call D (PrintString [c]) (oe_dispatch (sm_engine s)))"
  let ?e = "\<lparr>oe_dispatch = fst (disp_call D (PrintString (replicate n c)) ?d), oe_lastPrintedChar = NUL\<rparr>"
  have c0: "c \<noteq> NUL" using c by (auto simp: isActionableFromGround_ranges)
  have "engine_after (output_ops env D run) [c] s \<lparr>oe_dispatch = ?d, oe_lastPrintedChar = c\<rparr>"
    using stream_terminal.text_after [OF t s, of "[c]"] c by (cases "sm_engine s") simp
  moreover have "engine_after (output_ops env D run) (rep_text n @ rep_text m) u ?e"
    if "sm_ready u" and "sm_engine u = \<lparr>oe_dispatch = ?d, oe_lastPrintedChar = c\<rparr>" for u
  proof (rule stream_terminal.after_append [OF t that(1)])
    show "engine_after (output_ops env D run) (rep_text n) u ?e"
      using stream_terminal.rep_after [OF t that(1) n that(2)] c0 by simp
    show "engine_after (output_ops env D run) (rep_text m) v ?e" if "sm_ready v" "sm_engine v = ?e" for v
      using stream_terminal.rep_after [OF t that(1) m that(2)] by simp
  qed
  ultimately show ?thesis by (rule stream_terminal.after_append [OF t s])
qed

theorem repeat_character_witness:
  "engine_after (output_ops plain_env transcript no_callback) ([0x41] @ rep_text 3 @ rep_text 5) start_machine
     \<lparr>oe_dispatch = fst (disp_call transcript (PrintString (replicate 3 0x41))
       (fst (disp_call transcript (PrintString [0x41]) (oe_dispatch (sm_engine start_machine))))),
      oe_lastPrintedChar = NUL\<rparr>"
  by (rule repeat_character [OF transcript_stream.stream_terminal_axioms start_ready])
    (simp_all add: isActionableFromGround_ranges)

text \<open>A control sequence with sub-parameters is dropped by the output engine, with no effect at all
  on the terminal, unless it is SGR, DECCARA or DECRARA.\<close>

theorem sub_parameters_rejected:
  assumes t: "stream_terminal D run" and s: "sm_ready s" and m: "marker_ok marker" and a: "args_fit args"
    and i: "list_all isIntermediate (wstr ins)" "length (marker @ ins) \<le> 6" and f: "csi_final (of_char f)"
    and sub: "list_ex (\<lambda>a. snd a \<noteq> []) args"
    and other: "VTID (marker @ ins @ [f]) \<notin> {VTID ''m'', VTID ''$r'', VTID ''$t''}"
  shows "engine_after (output_ops env D run) (csi_text marker args ins f) s (sm_engine s)"
proof (rule stream_terminal.csi_after [OF t s m _ i f])
  show "args = [] \<or> args_fit args" using a ..
  have "hasSubParams (args_parameters (map clamped_arg args))"
    using sub by (auto simp: hasSubParams_def args_parameters_def list_ex_iff clamped_arg_def)
  with other show "OutputEngine_ActionCsiDispatch D (VTID (marker @ ins @ [f]))
      (args_parameters (map clamped_arg args)) (sm_engine s) = (sm_engine s, [], Handled)"
    by (simp add: OutputEngine_ActionCsiDispatch_def CanSeqAcceptSubParam_def)
qed

theorem sub_parameters_rejected_witness:
  "engine_after (output_ops plain_env transcript no_callback)
     (csi_text [] [(VTParam 3, [VTParam 1])] [] (CHR ''b'')) typed_machine (sm_engine typed_machine)"
proof (rule sub_parameters_rejected [OF transcript_stream.stream_terminal_axioms typed_ready])
  show "VTID ([] @ [] @ ''b'') \<notin> {VTID ''m'', VTID ''$r'', VTID ''$t''}"
    by (simp add: VTID_def)
qed (simp_all add: marker_ok_def args_fit_def arg_text_def param_text_def has_value_def subs_text_def
    csi_final_def MAX_PARAMETER_COUNT_def MAX_SUBPARAMETER_COUNT_def)

section \<open>The parser as a whole\<close>

text \<open>C3: Processing a string always completes with the output engine, and leaves the parser well
  formed, when the completion callbacks of the terminal do: no unbounded recursion, no read
  outside of the parameter vectors, no call through an empty handler. The only precondition is
  that the string is not empty in the middle of a sequence of an input engine.\<close>

theorem process_string_completes:
  fixes run :: "'c \<Rightarrow> ('d output_engine, 'h, 'c) sm \<Rightarrow> ('d output_engine, 'h, 'c) sm option"
  assumes "\<And>cb s s'. run cb s = Some s' \<Longrightarrow> sm_isEngineForInput s' = sm_isEngineForInput s"
    and "\<And>cb s. sm_wf s \<Longrightarrow> safe_result (run cb s)"
    and "sm_wf s" and "str \<noteq> [] \<or> sm_state s = Ground \<or> \<not> sm_isEngineForInput s"
  shows "\<exists>s'. ProcessString (output_ops env D run) str s = Some s' \<and> sm_wf s'"
  using output_terminal.output_string_safe [OF output_terminal.intro, OF assms] by (rule safe_resultE)

theorem process_string_completes_witness:
  "\<exists>s'. ProcessString (output_ops plain_env transcript no_callback) [ESC, 0x5B, 0x31, 0x3A] start_machine = Some s' \<and> sm_wf s'"
  by (rule process_string_completes) (simp_all add: no_callback_def start_machine_def init_wf)

text \<open>C4: Where the input is cut into strings does not matter, for any terminal behind the engine: processing
  the chunks one after the other is processing their concatenation, up to the bookkeeping of the
  position in the current string. The terminal is seen through \<open>gather\<close>: it gets the same calls with
  the same arguments in the same order, the text printed between two other calls being taken together.
  So a cut inside of a sequence is invisible, and a cut inside of a text only shows as a text printed in two
  pieces, which a terminal may notice. The callbacks of the terminal keep the kind of the machine and do not look at the
  position.\<close>

theorem chunk_independence:
  fixes D :: "('d, 'h, 'c) dispatch_ops"
  assumes "\<And>cb s s'. run cb s = Some s' \<Longrightarrow> sm_isEngineForInput s' = sm_isEngineForInput s"
    and "\<And>cb s. \<not> sm_isEngineForInput s \<Longrightarrow>
      map_option sm_erase (run cb (sm_erase s)) = map_option sm_erase (run cb s)"
    and "\<not> sm_isEngineForInput s"
  shows "map_option sm_erase (ProcessString (output_ops env (gather D) run) (concat chunks) s) =
    map_option sm_erase (foldM (ProcessString (output_ops env (gather D) run)) chunks s)"
proof -
  have "stream_callbacks run" using assms(1,2) by (rule stream_callbacks.intro)
  from stream_callbacks.gathered_strings [OF this assms(3)] show ?thesis by simp
qed

theorem chunk_independence_witness:
  "map_option sm_erase (ProcessString (output_ops plain_env (gather print_log) log_callback)
       (concat [[0x61, 0xD83D], [0xDE00, ESC], [0x5B], wstr ''31m'']) log_machine) =
     map_option sm_erase (foldM (ProcessString (output_ops plain_env (gather print_log) log_callback))
       [[0x61, 0xD83D], [0xDE00, ESC], [0x5B], wstr ''31m''] log_machine)"
  by (rule chunk_independence) (simp_all add: log_callback_def log_output)

text \<open>C5: The runs of printable characters that \<^verbatim>\<open>ProcessString\<close> hands to the engine in one piece, with
  the scan for the next control character, are only an optimisation of the parser: for any terminal the
  calls are those of feeding the characters one by one, the text printed between two other calls being taken
  together (\<open>gather\<close>). No character of a run is lost, repeated or reordered, and every other character takes the
  same transition. The callbacks of the terminal keep the kind of the machine and do not look at the
  position.\<close>

theorem batching_equivalence:
  fixes D :: "('d, 'h, 'c) dispatch_ops"
  assumes "\<And>cb s s'. run cb s = Some s' \<Longrightarrow> sm_isEngineForInput s' = sm_isEngineForInput s"
    and "\<And>cb s. \<not> sm_isEngineForInput s \<Longrightarrow>
      map_option sm_erase (run cb (sm_erase s)) = map_option sm_erase (run cb s)"
    and "\<not> sm_isEngineForInput s"
  shows "map_option sm_erase (ProcessString (output_ops env (gather D) run) str s) =
    map_option sm_erase (foldM (feed (output_ops env (gather D) run)) str s)"
proof -
  have "stream_callbacks run" using assms(1,2) by (rule stream_callbacks.intro)
  then show ?thesis using assms(3) by (rule stream_callbacks.gathered_feed)
qed

theorem batching_equivalence_witness:
  "map_option sm_erase (ProcessString (output_ops plain_env (gather print_log) log_callback)
       (wstr ''abc'' @ [BEL]) log_machine) =
    map_option sm_erase (foldM (feed (output_ops plain_env (gather print_log) log_callback))
       (wstr ''abc'' @ [BEL]) log_machine)"
  by (rule batching_equivalence) (simp_all add: log_callback_def log_output)

text \<open>C6: In every state the parser can reach through its public interface there are at most 32
  parameters, all values lie between -1 (omitted) and 65535, and while a sequence is being
  collected there is one range of sub-parameters per parameter, at most 192 sub-parameters, and
  every range lies inside the vector of sub-parameters.\<close>

theorem reachable_bounds:
  fixes run :: "'c \<Rightarrow> ('d output_engine, 'h, 'c) sm \<Rightarrow> ('d output_engine, 'h, 'c) sm option"
  assumes "\<And>cb s s'. run cb s = Some s' \<Longrightarrow> sm_isEngineForInput s' = sm_isEngineForInput s"
    and "\<And>cb s. sm_wf s \<Longrightarrow> safe_result (run cb s)"
    and "sm_reachable (output_ops env D run) s"
  shows "length (sm_parameters s) \<le> 32 \<and>
    list_all (\<lambda>p. -1 \<le> raw_value p \<and> raw_value p \<le> 65535) (sm_parameters s @ sm_subParameters s) \<and>
    0 \<le> sm_oscParameter s \<and> sm_oscParameter s \<le> 65535 \<and>
    (sm_state s \<notin> {Ground, Vt52Param} \<longrightarrow>
       length (sm_subParameterRanges s) = length (sm_parameters s) \<and> length (sm_subParameters s) \<le> 192 \<and>
       list_all (\<lambda>(a, b). unat a \<le> unat b \<and> unat b \<le> length (sm_subParameters s)) (sm_subParameterRanges s))"
proof -
  have t: "output_terminal run" using assms(1,2) by (rule output_terminal.intro)
  have wf: "sm_wf s" using t assms(3) by (rule output_terminal.reachable_wf)
  have v: "values_ok s" using wf by (rule sm_wf_values)
  have c: "length (sm_subParameterRanges s) = length (sm_parameters s) \<and> length (sm_subParameters s) \<le> 192 \<and>
       list_all (\<lambda>(a, b). unat a \<le> unat b \<and> unat b \<le> length (sm_subParameters s)) (sm_subParameterRanges s)"
    if "sm_state s \<notin> {Ground, Vt52Param}"
  proof -
    have ok: "collected_ok s" using wf that by (rule wf_collected)
    have n: "length (sm_parameters s) \<le> MAX_PARAMETER_COUNT" using v by (simp add: values_ok_def)
    have "length (sm_subParameterRanges s) = length (sm_parameters s)"
      using ok by (simp add: collected_ok_def Let_def lens_of_def)
    with collected_count [OF ok n] collected_ranges [OF ok n] show ?thesis by (auto simp: list_all_iff)
  qed
  have l: "length (sm_parameters s) \<le> 32" and o: "0 \<le> sm_oscParameter s" "sm_oscParameter s \<le> 65535"
    and p: "list_all param_ok (sm_parameters s)" "list_all param_ok (sm_subParameters s)"
    using v by (simp_all add: values_ok_def MAX_PARAMETER_COUNT_def MAX_PARAMETER_VALUE_def)
  have q: "list_all (\<lambda>p. -1 \<le> raw_value p \<and> raw_value p \<le> 65535) (sm_parameters s @ sm_subParameters s)"
    using p by (auto simp: list_all_iff param_ok_def MAX_PARAMETER_VALUE_def)
  show ?thesis by (rule conjI [OF l conjI [OF q conjI [OF o(1) conjI [OF o(2) impI [OF c]]]]])
qed

theorem reachable_bounds_witness:
  "length (sm_parameters (ResetState start_machine)) \<le> 32"
proof (rule conjunct1 [OF reachable_bounds [where run = no_callback and env = plain_env and D = transcript]])
  show "sm_reachable (output_ops plain_env transcript no_callback) (ResetState start_machine)"
    unfolding start_machine_def by (rule reach_reset [OF reach_init])
qed (simp_all add: no_callback_def)

text \<open>C7: CAN and SUB bring the parser of an output engine back to the ground state from every
  state.\<close>

theorem cancel_resynchronises:
  fixes run :: "'c \<Rightarrow> ('d output_engine, 'h, 'c) sm \<Rightarrow> ('d output_engine, 'h, 'c) sm option"
  assumes "\<And>cb s s'. run cb s = Some s' \<Longrightarrow> sm_isEngineForInput s' = sm_isEngineForInput s"
    and "\<And>cb s. sm_wf s \<Longrightarrow> safe_result (run cb s)"
    and "sm_wf s" and "w = CAN \<or> w = SUB" and "\<not> sm_isEngineForInput s"
  shows "\<exists>s'. ProcessCharacter (output_ops env D run) w s = Some s' \<and> sm_wf s' \<and> sm_state s' = Ground"
proof -
  have t: "output_terminal run" using assms(1,2) by (rule output_terminal.intro)
  obtain s' where s': "ProcessCharacter (output_ops env D run) w s = Some s'" "sm_wf s'"
    using safe_resultE [OF output_terminal.output_character_safe [OF t assms(3)]] by blast
  moreover have "sm_state s' = Ground"
    using s'(1) assms(4,5) by (auto simp: ProcessCharacter_cancel EnterGround_def split: Option.bind_splits)
  ultimately show ?thesis by blast
qed

theorem cancel_resynchronises_witness:
  "\<exists>s'. ProcessCharacter (output_ops plain_env transcript no_callback) SUB (EnterCsiEntry start_machine) = Some s' \<and>
     sm_wf s' \<and> sm_state s' = Ground"
proof (rule cancel_resynchronises)
  show "sm_wf (EnterCsiEntry start_machine)" by (intro wf_intros)
  show "\<not> sm_isEngineForInput (EnterCsiEntry start_machine)"
    by (simp add: EnterCsiEntry_def ActionClear_def start_machine_def StateMachine_init_def SetParserMode_def)
qed (simp_all add: no_callback_def)

text \<open>For any engine, a control sequence that starts outside of OSC and DCS strings is dispatched
  with exactly the identifier and the parameters printed; the parser is back in the ground state
  before the completion callback runs.\<close>

theorem csi_dispatched_then_ground:
  assumes "sm_state s \<notin> {OscString, OscParam, DcsPassThrough}" and "GetParserMode Ansi s"
    and "marker_ok marker" and "args = [] \<or> args_fit args"
    and "list_all isIntermediate (wstr ins)" and "length (marker @ ins) \<le> 6"
    and "csi_final (of_char f)"
  shows "foldM (ProcessCharacter ops) (csi_text marker args ins f) s =
    do {
      (_, s') \<leftarrow>
        SafeExecute ops
          (eng_ActionCsiDispatch ops (VTID (marker @ ins @ [f])) (args_parameters (map clamped_arg args)))
          ((holding (map clamped_arg args) (csi_end_state marker args ins) (ActionClear s))
             \<lparr>sm_identifier := collected (wstr (marker @ ins))\<rparr>);
      ExecuteCsiCompleteCallback ops (EnterGround s')
    }"
  using assms by (rule csi_text_parsed)

theorem csi_dispatched_then_ground_witness:
  "foldM (ProcessCharacter refusing_ops) (csi_text ''?'' [(VTParam 25, [])] [] (CHR ''h'')) (StateMachine_init () True 0 0 False) =
    do {
      (_, s') \<leftarrow>
        SafeExecute refusing_ops
          (eng_ActionCsiDispatch refusing_ops (VTID (''?'' @ [] @ ''h'')) (args_parameters (map clamped_arg [(VTParam 25, [])])))
          ((holding (map clamped_arg [(VTParam 25, [])]) (csi_end_state ''?'' [(VTParam 25, [])] [])
              (ActionClear (StateMachine_init () True 0 0 False)))
             \<lparr>sm_identifier := collected (wstr (''?'' @ []))\<rparr>);
      ExecuteCsiCompleteCallback refusing_ops (EnterGround s')
    }"
  by (rule csi_dispatched_then_ground)
    (simp_all add: StateMachine_init_def ActionClear_def SetParserMode_def GetParserMode_def marker_ok_def
      args_fit_def arg_text_def param_text_def has_value_def csi_final_def isCsiPrivateMarker_def
      MAX_PARAMETER_COUNT_def)

text \<open>The views over the parameters that an engine reads find each parameter and exactly its own
  sub-parameters.\<close>

theorem parameters_viewed:
  assumes "args_fit args" and "i < length args"
  shows "param_at (args_parameters args) i = fst (args ! i) \<and>
    subParamsFor (args_parameters args) i = snd (args ! i)"
  using args_subParams [OF assms] by simp

theorem parameters_viewed_witness:
  "param_at (args_parameters [(VTParam 4, [VTParam 3]), (VTParam 38, [VTParam 5, omitted])]) 1 =
     fst ([(VTParam 4, [VTParam 3]), (VTParam 38, [VTParam 5, omitted])] ! 1) \<and>
   subParamsFor (args_parameters [(VTParam 4, [VTParam 3]), (VTParam 38, [VTParam 5, omitted])]) 1 =
     snd ([(VTParam 4, [VTParam 3]), (VTParam 38, [VTParam 5, omitted])] ! 1)"
  by (rule parameters_viewed)
    (simp_all add: args_fit_def arg_text_def param_text_def has_value_def MAX_PARAMETER_COUNT_def
      MAX_SUBPARAMETER_COUNT_def)

section \<open>Looking up sequences\<close>

text \<open>The identifier that the parser accumulates from intermediates and a final character selects
  exactly the entry with that text in the engine's table of control sequences, and the default
  entry when there is none.\<close>

theorem sequences_looked_up_by_text:
  assumes "length s \<le> 6" and "list_all (\<lambda>c. c \<noteq> CHR 0x00) (s @ [f])"
  shows "csi_calls (Finalize (of_char f) (collected (wstr s))) p ch =
      (case map_of CsiActionCodes (s @ [f]) of Some g \<Rightarrow> g p ch | None \<Rightarrow> [UnknownSequence])"
  using assms by (simp add: Finalize_VTID csi_calls_VTID id_key_def)

theorem sequences_looked_up_by_text_witness:
  "csi_calls (Finalize (of_char (CHR ''q'')) (collected (wstr '' ''))) (params_only [VTParam 3]) NUL =
     [Modes (SetCursorStyle 3)]"
proof -
  have "csi_calls (Finalize (of_char (CHR ''q'')) (collected (wstr '' ''))) (params_only [VTParam 3]) NUL =
      (case map_of CsiActionCodes ('' '' @ ''q'') of
         Some g \<Rightarrow> g (params_only [VTParam 3]) NUL | None \<Rightarrow> [UnknownSequence])"
    by (rule sequences_looked_up_by_text) simp_all
  also have "\<dots> = [Modes (SetCursorStyle 3)]"
    by (simp add: csi_code_defs enum_param_def to_enum_def value_or_def param_at_def params_only_def)
  finally show ?thesis .
qed

text \<open>A control sequence with more intermediates than an identifier can hold is never mistaken for
  a known one.\<close>

theorem overlong_identifier_unknown:
  assumes "length is > 6"
  shows "csi_calls (Finalize c (collected is)) p ch = [UnknownSequence]"
  using assms Csi_keys id_case_overlong [of CsiActionCodes "is" c]
  by (simp add: csi_calls_def keys_ok_def csi_code_defs)

theorem overlong_identifier_unknown_witness:
  "csi_calls (Finalize 0x71 (collected (wstr ''       ''))) (params_only []) NUL = [UnknownSequence]"
  by (rule overlong_identifier_unknown) simp

text \<open>C21: OSC 4 with a decimal index below 2 to the power 32 and a specification \<^verbatim>\<open>rgb:r/g/b\<close>, with one to four
  hexadecimal digits per component, sets exactly that entry of the colour table, to the scaled
  colour.\<close>

theorem set_color_table_entry:
  assumes i: "i < 2 ^ 32" and r: "hex_string r" "r \<noteq> []" "length r \<le> 4"
    and g: "hex_string g" "g \<noteq> []" "length g \<le> 4" and b: "hex_string b" "b \<noteq> []" "length b \<le> 4"
  shows "osc_calls env 4 (decimal i @ 0x3B # wstr ''rgb:'' @ r @ 0x2F # g @ 0x2F # b) =
    [Render (SetColorTableEntry i (color_COLORREF
       (LOBYTE (scale_component False (length r) (hex_value r 0)),
        LOBYTE (scale_component False (length g) (hex_value g 0)),
        LOBYTE (scale_component False (length b) (hex_value b 0)))))]"
proof -
  let ?spec = "wstr ''rgb:'' @ r @ 0x2F # g @ 0x2F # b"
  have "0x3B \<notin> set ?spec" using r(1) g(1) b(1) by (simp add: hex_string_no_delimiter)
  then have split: "SplitString (decimal i @ 0x3B # ?spec) 0x3B = [decimal i, ?spec]"
    using SplitString_Cons [OF decimal_not_delimiter, of i ?spec] SplitString_single [of ?spec "0x3B"] by simp
  have "unat (of_nat i :: u32) = i" using i by (simp add: unat_of_nat take_bit_nat_eq_self)
  with split StringToUint_decimal [of i] parse_rgb_spec [OF r g b] color_not_inquiry show ?thesis
    by (simp add: osc_calls_def GetOscSetColorTable_def Let_def ColorFromXTermColor_def)
qed

theorem set_color_table_entry_witness:
  "osc_calls plain_env 4 (decimal 7 @ 0x3B # wstr ''rgb:'' @ wstr ''f'' @ 0x2F # wstr ''80'' @ 0x2F # wstr ''0000'') =
    [Render (SetColorTableEntry 7 (color_COLORREF
       (LOBYTE (scale_component False (length (wstr ''f'')) (hex_value (wstr ''f'') 0)),
        LOBYTE (scale_component False (length (wstr ''80'')) (hex_value (wstr ''80'') 0)),
        LOBYTE (scale_component False (length (wstr ''0000'')) (hex_value (wstr ''0000'') 0)))))]"
  by (rule set_color_table_entry) (simp_all add: hex_string_def HexToUint_def)

section \<open>Deviations\<close>

text \<open>C22: In the parameters of a device control string a C0 control or DEL is not ignored: it is taken
  as the final character, because the test that ignores it is not followed by an \<^verbatim>\<open>else\<close>.\<close>

theorem dcs_param_control_dispatches:
  assumes "isC0Code w \<or> isDelete w" and "sm_state s = DcsParam"
  shows "ProcessCharacter ops w s = Some (ActionDcsDispatch ops w s)"
proof -
  have e: "w \<noteq> CAN" "w \<noteq> SUB" "\<not> isC1ControlCharacter w" "\<not> isEscape w"
    and "\<not> isNumericParamValue w" "\<not> isParameterDelimiter w" "\<not> isIntermediate w"
    "\<not> isParameterInvalid w" "\<not> isSubParameterDelimiter w"
    using assms(1) by (auto simp: char_class word_le_nat_alt wchar_eq_unat)
  with assms(2) show ?thesis
    by (simp add: ProcessCharacter_event [OF e] state_event_def EventDcsParam_def ActionIgnore_def)
qed

theorem dcs_param_control_dispatches_witness:
  "ProcessCharacter (output_ops plain_env transcript no_callback) LF (EnterDcsParam start_machine) =
     Some (ActionDcsDispatch (output_ops plain_env transcript no_callback) LF (EnterDcsParam start_machine))"
  by (rule dcs_param_control_dispatches) (simp_all add: char_class EnterDcsParam_def)

text \<open>A final character outside of ASCII aliases a two-character identifier: U+7120 alone has the
  identifier of DECSCUSR, a space and a lower-case q.\<close>

theorem wide_final_aliases:
  "Finalize 0x7120 VTIDBuilder_Clear = VTID '' q''"
  by (simp add: Finalize_def VTIDBuilder_Clear_def VTID_def VTID_of_value_def)

end
